(* ===== verification/Prelude.thy ===== *)
theory Prelude
  imports Main "HOL-Library.Word" "HOL-Library.List_Lexorder" "HOL-Library.Char_ord"
    "HOL-Library.AList" "HOL-Library.Sublist" "HOL-Library.Multiset"
begin

text \<open>
  Shared vocabulary of the development: results and loops with early returns, Go's maps,
  the string functions of the Go standard library that the program calls
  (\<^verbatim>\<open>strings\<close>, \<^verbatim>\<open>strconv\<close>, \<^verbatim>\<open>sort\<close>, \<^verbatim>\<open>time\<close>) and the lemmas about them that
  several components use. A Go string is a byte string, which is what \<open>string\<close> is here.
\<close>

unbundle bit_operations_syntax

named_theorems result_simps \<open>equations that take an early-return result apart\<close>
named_theorems word_simps \<open>word facts moved to natural numbers\<close>

section \<open>Machine integers, time\<close>

type_synonym u64 = "64 word"

abbreviation MaxUint64 :: u64 where "MaxUint64 \<equiv> - 1"

text \<open>An instant is its number of nanoseconds since the Unix epoch (UTC, no monotonic part).\<close>

type_synonym time = int

definition second :: int where "second = 1000000000"

text \<open>The zero \<^verbatim>\<open>time.Time\<close> is the first of January of the year 1.\<close>

definition zeroTime :: time where "zeroTime = - 62135596800 * second"

definition UnixSeconds :: "time \<Rightarrow> int" where
  "UnixSeconds t = t div second"

text \<open>A \<^verbatim>\<open>time.Duration\<close> is a signed 64-bit count of nanoseconds; products wrap.\<close>

definition wrapInt64 :: "int \<Rightarrow> int" where
  "wrapInt64 x = sint (word_of_int x :: 64 word)"

lemma wrapInt64_id: "- (2 ^ 63) \<le> x \<Longrightarrow> x < 2 ^ 63 \<Longrightarrow> wrapInt64 x = x"
  by (simp add: wrapInt64_def sint_sbintrunc' signed_take_bit_int_eq_self)

lemma unat_max64 [word_simps]: "unat (MaxUint64 :: u64) = 2 ^ 64 - 1"
  by (simp add: unsigned_minus_1_eq_mask mask_eq_exp_minus_1)

lemma unat_lt64 [simp]: "unat (x :: u64) < 18446744073709551616"
proof -
  have "unat x < 2 ^ LENGTH(64)" by (rule unsigned_less)
  then show ?thesis by simp
qed

lemma unat_le_max64: "unat (x :: u64) \<le> 18446744073709551615"
proof -
  have "unat x < Suc 18446744073709551615" by simp
  then show ?thesis by (rule less_Suc_eq_le [THEN iffD1])
qed

lemma power_numeral_eq64: "(2 :: nat) ^ 64 = 18446744073709551616" by simp

text \<open>A number beyond 64 bits is the value of no word.\<close>

lemma unat_not_big: "\<not> n < 2 ^ 64 \<Longrightarrow> n \<le> m \<Longrightarrow> unat (x :: u64) \<noteq> m"
  by (metis le_less_trans unat_lt64 power_numeral_eq64)

lemma unat_sub64: "(y :: u64) \<le> x \<Longrightarrow> unat (x - y) = unat x - unat y"
  by (simp add: unat_sub)

lemma unat_add64: "unat (x :: u64) + unat y < 2 ^ 64 \<Longrightarrow> unat (x + y) = unat x + unat y"
  using unat_add_lem [of x y] by simp

lemma unat_mult64: "unat (x :: u64) * unat y < 2 ^ 64 \<Longrightarrow> unat (x * y) = unat x * unat y"
  using unat_mult_lem [of x y] by simp

text \<open>A sum of words is the sum of their values when that sum fits.\<close>

lemma unat_sum_list64:
  "sum_list (map unat (ws :: u64 list)) < 2 ^ 64 \<Longrightarrow> unat (sum_list ws) = sum_list (map unat ws)"
proof (induction ws)
  case (Cons w ws)
  then have "sum_list (map unat ws) < 2 ^ 64" by simp
  with Cons have "unat (sum_list ws) = sum_list (map unat ws)" by simp
  then show ?case using unat_add64 [of w "sum_list ws"] Cons.prems by simp
qed simp

text \<open>The overflow tests of the program: \<^verbatim>\<open>math.MaxUint64 - a < b\<close> and \<^verbatim>\<open>b > math.MaxUint64 / a\<close>.\<close>

lemma max_sub_less_iff: "(MaxUint64 - a < b) \<longleftrightarrow> \<not> unat (a :: u64) + unat b < 2 ^ 64"
proof -
  have "unat (MaxUint64 - a) = 2 ^ 64 - 1 - unat a"
    by (simp add: unat_sub64 word_simps)
  then have "(MaxUint64 - a < b) \<longleftrightarrow> 2 ^ 64 - 1 - unat a < unat b"
    by (simp add: word_less_nat_alt)
  also have "\<dots> \<longleftrightarrow> 2 ^ 64 - 1 < unat a + unat b"
    by (rule less_diff_conv2 [THEN trans]) (simp_all add: add.commute unat_le_max64)
  finally show ?thesis by simp linarith
qed

lemma max_div_less_iff:
  assumes "(a :: u64) \<noteq> 0"
  shows "(MaxUint64 div a < b) \<longleftrightarrow> \<not> unat a * unat b < 2 ^ 64"
proof -
  have pos: "0 < unat a" using assms by (simp add: unat_gt_0)
  have "unat (MaxUint64 div a) = (2 ^ 64 - 1) div unat a"
    by (simp add: unat_div word_simps)
  then have "(MaxUint64 div a < b) \<longleftrightarrow> (2 ^ 64 - 1) div unat a < unat b"
    by (simp add: word_less_nat_alt)
  also have "\<dots> \<longleftrightarrow> 2 ^ 64 - 1 < unat b * unat a"
    using pos by (simp add: div_less_iff_less_mult)
  finally show ?thesis by (simp add: mult.commute) arith
qed

section \<open>Results, guards and loops with early returns\<close>

text \<open>\<open>Inl e\<close> is a returned error, \<open>Inr x\<close> a returned value.\<close>

definition bindR :: "'e + 'a \<Rightarrow> ('a \<Rightarrow> 'e + 'b) \<Rightarrow> 'e + 'b" where
  "bindR r f = (case r of Inl e \<Rightarrow> Inl e | Inr x \<Rightarrow> f x)"

text \<open>\<open>wrapE\<close> is \<^verbatim>\<open>fmt.Errorf("...: %w", err)\<close>: the error kept inside another one.\<close>

definition wrapE :: "('e \<Rightarrow> 'f) \<Rightarrow> 'e + 'a \<Rightarrow> 'f + 'a" where
  "wrapE w r = (case r of Inl e \<Rightarrow> Inl (w e) | Inr x \<Rightarrow> Inr x)"

definition guardE :: "bool \<Rightarrow> 'e \<Rightarrow> 'e + unit" where
  "guardE bad e = (if bad then Inl e else Inr ())"

lemma bindR_simps [simp]: "bindR (Inl e) f = Inl e" "bindR (Inr x) f = f x"
  by (simp_all add: bindR_def)

lemma wrapE_simps [simp]: "wrapE w (Inl e) = Inl (w e)" "wrapE w (Inr x) = Inr x"
  by (simp_all add: wrapE_def)

lemma bindR_Inr_iff [result_simps]: "bindR r f = Inr y \<longleftrightarrow> (\<exists>x. r = Inr x \<and> f x = Inr y)"
  by (cases r) auto

lemma wrapE_Inr_iff [result_simps]: "wrapE w r = Inr y \<longleftrightarrow> r = Inr y"
  by (cases r) auto

lemma guardE_Inr_iff [result_simps]: "guardE b e = Inr u \<longleftrightarrow> \<not> b"
  by (simp add: guardE_def)

lemma guardE_simps [simp]: "guardE False e = Inr ()" "guardE True e = Inl e"
  by (simp_all add: guardE_def)

lemma if_Inl_Inr_iff [result_simps]:
  "(if b then Inl e else r) = Inr y \<longleftrightarrow> \<not> b \<and> r = Inr y"
  by simp

text \<open>
  Sequencing of calls that may fail and change a state: \<open>andThen\<close> for calls that return, \<open>thenDo\<close> for
  calls that may not, whose result is then \<open>None\<close>.
\<close>

definition andThen :: "('e + 'a) \<times> 's \<Rightarrow> ('a \<Rightarrow> 's \<Rightarrow> ('e + 'b) \<times> 's) \<Rightarrow> ('e + 'b) \<times> 's" where
  "andThen r f = (case r of (Inl e, s) \<Rightarrow> (Inl e, s) | (Inr x, s) \<Rightarrow> f x s)"

definition thenDo ::
  "(('e + 'a) \<times> 's) option \<Rightarrow> ('a \<Rightarrow> 's \<Rightarrow> (('e + 'b) \<times> 's) option) \<Rightarrow> (('e + 'b) \<times> 's) option" where
  "thenDo m f = (case m of None \<Rightarrow> None | Some (Inl e, s) \<Rightarrow> Some (Inl e, s) | Some (Inr x, s) \<Rightarrow> f x s)"

lemma thenDo_simps [simp]:
  "thenDo None f = None" "thenDo (Some (Inl e, s)) f = Some (Inl e, s)" "thenDo (Some (Inr x, s)) f = f x s"
  by (simp_all add: thenDo_def)

lemma thenDo_Some_iff:
  "thenDo m f = Some (r, s') \<longleftrightarrow>
     (\<exists>e. m = Some (Inl e, s') \<and> r = Inl e) \<or> (\<exists>x s. m = Some (Inr x, s) \<and> f x s = Some (r, s'))"
  by (auto simp: thenDo_def split: option.splits prod.splits sum.splits)

text \<open>A \<^verbatim>\<open>for ... range\<close> loop over a state whose body may return an error.\<close>

fun each :: "('a \<Rightarrow> 's \<Rightarrow> 'e + 's) \<Rightarrow> 'a list \<Rightarrow> 's \<Rightarrow> 'e + 's" where
  "each f [] s = Inr s"
| "each f (x # xs) s = bindR (f x s) (each f xs)"

lemma each_append: "each f (xs @ ys) s = bindR (each f xs s) (each f ys)"
proof (induction xs arbitrary: s)
  case (Cons x xs)
  then show ?case by (cases "f x s") simp_all
qed simp

text \<open>A loop that only checks, and returns the first error it meets.\<close>

fun eachCheck :: "('a \<Rightarrow> 'e + unit) \<Rightarrow> 'a list \<Rightarrow> 'e + unit" where
  "eachCheck f [] = Inr ()"
| "eachCheck f (x # xs) = bindR (f x) (\<lambda>_. eachCheck f xs)"

lemma eachCheck_Inr_iff [result_simps]:
  "eachCheck f xs = Inr u \<longleftrightarrow> (\<forall>x \<in> set xs. f x = Inr ())"
  by (induction xs) (auto simp: result_simps)

text \<open>
  The two rules that the proofs about such loops use: an invariant of the processed
  prefix, and the success of a loop whose body succeeds wherever the invariant holds.
\<close>

lemma each_inv:
  assumes "each f xs s = Inr s'" and "I [] s"
    and "\<And>ys x zs t t'. xs = ys @ x # zs \<Longrightarrow> I ys t \<Longrightarrow> f x t = Inr t' \<Longrightarrow> I (ys @ [x]) t'"
  shows "I xs s'"
  using assms
proof (induction xs arbitrary: s' rule: rev_induct)
  case Nil
  then show ?case by simp
next
  case (snoc x xs)
  from snoc.prems(1) obtain t where t: "each f xs s = Inr t" "f x t = Inr s'"
    by (auto simp: each_append result_simps)
  have "I xs t"
    by (rule snoc.IH [OF t(1) snoc.prems(2)]) (use snoc.prems(3) in force)
  from snoc.prems(3) [of xs x "[]", OF _ this t(2)] show ?case by simp
qed

lemma each_ok:
  assumes "I [] s"
    and "\<And>ys x zs t. xs = ys @ x # zs \<Longrightarrow> I ys t \<Longrightarrow> \<exists>t'. f x t = Inr t' \<and> I (ys @ [x]) t'"
  shows "\<exists>s'. each f xs s = Inr s' \<and> I xs s'"
  using assms
proof (induction xs rule: rev_induct)
  case Nil
  then show ?case by simp
next
  case (snoc x xs)
  have "\<exists>t. each f xs s = Inr t \<and> I xs t"
    by (rule snoc.IH [OF snoc.prems(1)]) (use snoc.prems(2) in force)
  then obtain t where t: "each f xs s = Inr t" "I xs t" by blast
  from snoc.prems(2) [of xs x "[]", OF _ t(2)] show ?case
    by (auto simp: each_append t(1))
qed

text \<open>A loop that appends one value for each element.\<close>

lemma each_collect:
  assumes "\<And>x acc. f x acc = bindR (g x) (\<lambda>y. Inr (acc @ [y]))"
  shows "each f xs acc = Inr out \<longleftrightarrow> (\<exists>ys. list_all2 (\<lambda>x y. g x = Inr y) xs ys \<and> out = acc @ ys)"
proof (induction xs arbitrary: acc)
  case Nil
  then show ?case by auto
next
  case (Cons x xs)
  show ?case
  proof (cases "g x")
    case (Inl e)
    then show ?thesis by (simp add: assms list_all2_Cons1)
  next
    case (Inr y)
    have "each f (x # xs) acc = each f xs (acc @ [y])" using Inr assms [of x acc] by simp
    then have "each f (x # xs) acc = Inr out \<longleftrightarrow>
        (\<exists>ys. list_all2 (\<lambda>x y. g x = Inr y) xs ys \<and> out = (acc @ [y]) @ ys)"
      by (simp only: Cons.IH)
    then show ?thesis using Inr by (auto simp: list_all2_Cons1)
  qed
qed

section \<open>Go maps\<close>

text \<open>
  A Go map is an association list with distinct keys; the order of the list is the
  iteration order of one particular execution, which Go leaves open. What must not
  depend on that order is proved not to.
\<close>

type_synonym ('k, 'v) gomap = "('k \<times> 'v) list"

definition gomap :: "('k, 'v) gomap \<Rightarrow> bool" where
  "gomap m \<longleftrightarrow> distinct (map fst m)"

abbreviation mput :: "'k \<Rightarrow> 'v \<Rightarrow> ('k, 'v) gomap \<Rightarrow> ('k, 'v) gomap" where
  "mput \<equiv> AList.update"

abbreviation mdel :: "'k \<Rightarrow> ('k, 'v) gomap \<Rightarrow> ('k, 'v) gomap" where
  "mdel \<equiv> AList.delete"

abbreviation keys :: "('k, 'v) gomap \<Rightarrow> 'k list" where
  "keys m \<equiv> map fst m"

text \<open>Reading a missing key gives the zero value of the element type.\<close>

definition mget :: "'v \<Rightarrow> ('k, 'v) gomap \<Rightarrow> 'k \<Rightarrow> 'v" where
  "mget z m k = (case map_of m k of None \<Rightarrow> z | Some v \<Rightarrow> v)"

lemma gomap_Nil [simp]: "gomap []" by (simp add: gomap_def)

lemma gomap_mput [simp]: "gomap m \<Longrightarrow> gomap (mput k v m)"
  by (simp add: gomap_def distinct_update)

lemma gomap_mdel [simp]: "gomap m \<Longrightarrow> gomap (mdel k m)"
  by (simp add: gomap_def distinct_delete)

lemma map_of_mput [simp]: "map_of (mput k v m) = (map_of m)(k \<mapsto> v)"
  by (rule update_conv')

lemma map_of_mdel [simp]: "map_of (mdel k m) = (map_of m)(k := None)"
  by (rule delete_conv')

lemma keys_mput: "set (keys (mput k v m)) = insert k (set (keys m))"
  by (simp add: dom_update)

lemma length_mput:
  "length (mput k v m) = (if k \<in> set (keys m) then length m else Suc (length m))"
proof -
  have "keys (mput k v m) = (if k \<in> set (keys m) then keys m else keys m @ [k])"
    by (rule update_keys)
  then have "length (keys (mput k v m)) = length (if k \<in> set (keys m) then keys m else keys m @ [k])"
    by (rule arg_cong)
  then show ?thesis by (simp split: if_splits)
qed

lemma gomap_length: "gomap m \<Longrightarrow> length m = card (dom (map_of m))"
  by (metis distinct_card dom_map_of_conv_image_fst gomap_def length_map set_map)

lemma map_of_Some_iff: "gomap m \<Longrightarrow> map_of m k = Some v \<longleftrightarrow> (k, v) \<in> set m"
  by (simp add: gomap_def)

lemma set_mput_subset: "set (mput k v m) \<subseteq> insert (k, v) (set m)"
  by (induction m) auto

lemma gomap_mput_all:
  "(\<forall>(k, v) \<in> set m. P k v) \<Longrightarrow> P k v \<Longrightarrow> (\<forall>(k, v) \<in> set (mput k v m). P k v)"
  using set_mput_subset [of k v m] by blast

lemma mput_not_Nil [simp]: "mput k v m \<noteq> []"
  by (cases m) auto

text \<open>Copying a map, with its values changed by a function.\<close>

lemma foldl_mput_append:
  "gomap (acc @ m) \<Longrightarrow>
     foldl (\<lambda>out (k, v). mput k (f v) out) (map (\<lambda>(k, v). (k, f v)) acc) m =
     map (\<lambda>(k, v). (k, f v)) (acc @ m)"
proof (induction m arbitrary: acc)
  case Nil
  then show ?case by simp
next
  case (Cons p m)
  obtain k v where p: "p = (k, v)" by (cases p)
  have k: "k \<notin> fst ` set acc" using Cons.prems by (auto simp: gomap_def p)
  have upd: "mput k (f v) (map (\<lambda>(k, v). (k, f v)) acc) = map (\<lambda>(k, v). (k, f v)) (acc @ [(k, v)])"
    using k by (induction acc) auto
  show ?case using Cons.IH [of "acc @ [(k, v)]"] Cons.prems by (simp add: p upd)
qed

lemma foldl_mput_map:
  "gomap m \<Longrightarrow> foldl (\<lambda>out (k, v). mput k (f v) out) [] m = map (\<lambda>(k, v). (k, f v)) m"
  using foldl_mput_append [of "[]" m f] by simp

text \<open>
  Filling a map from another one under changed keys, as in
  \<^verbatim>\<open>for name, v := range entries { m[prefix+name] = v }\<close>.
\<close>

definition putAll :: "('a \<Rightarrow> 'k) \<Rightarrow> ('a, 'v) gomap \<Rightarrow> ('k, 'v) gomap \<Rightarrow> ('k, 'v) gomap" where
  "putAll key entries m = foldl (\<lambda>m (name, v). mput (key name) v m) m entries"

lemma putAll_simps [simp]:
  "putAll key [] m = m" "putAll key (e # es) m = putAll key es (mput (key (fst e)) (snd e) m)"
  by (simp_all add: putAll_def case_prod_unfold)

lemma gomap_putAll [simp]: "gomap m \<Longrightarrow> gomap (putAll key es m)"
  by (induction es arbitrary: m) simp_all

lemma putAll_all:
  "(\<forall>(k, v) \<in> set m. P k v) \<Longrightarrow> (\<forall>(n, v) \<in> set es. P (key n) v) \<Longrightarrow>
   (\<forall>(k, v) \<in> set (putAll key es m). P k v)"
proof (induction es arbitrary: m)
  case (Cons e es)
  have "\<forall>(k, v) \<in> set (mput (key (fst e)) (snd e) m). P k v"
    by (rule gomap_mput_all) (use Cons.prems in \<open>auto split: prod.splits\<close>)
  then show ?case using Cons by simp
qed simp

lemma putAll_other: "k \<notin> key ` fst ` set es \<Longrightarrow> map_of (putAll key es m) k = map_of m k"
  by (induction es arbitrary: m) auto

lemma putAll_key:
  "inj key \<Longrightarrow> gomap es \<Longrightarrow> map_of es n = Some v \<Longrightarrow> map_of (putAll key es m) (key n) = Some v"
proof (induction es arbitrary: m)
  case (Cons e es)
  show ?case
  proof (cases "fst e = n")
    case True
    then have "key n \<notin> key ` fst ` set es" using Cons.prems by (auto simp: gomap_def inj_def)
    then show ?thesis using Cons.prems True by (cases e) (simp add: putAll_other)
  next
    case False
    then show ?thesis using Cons by (cases e) (simp add: gomap_def)
  qed
qed simp

text \<open>The map \<^verbatim>\<open>m[key(x)] = val(x)\<close> for the elements of a list, in order.\<close>

definition mapOfList :: "('a \<Rightarrow> 'k) \<Rightarrow> ('a \<Rightarrow> 'v) \<Rightarrow> 'a list \<Rightarrow> 'k \<Rightarrow> 'v option" where
  "mapOfList key val xs = foldl (\<lambda>m x. m(key x \<mapsto> val x)) Map.empty xs"

lemma mapOfList_snoc: "mapOfList key val (xs @ [x]) = (mapOfList key val xs)(key x \<mapsto> val x)"
  by (simp add: mapOfList_def)

lemma mapOfList_Nil [simp]: "mapOfList key val [] = Map.empty"
  by (simp add: mapOfList_def)

lemma mapOfList_Some:
  "mapOfList key val xs k = Some v \<Longrightarrow> \<exists>x \<in> set xs. key x = k \<and> val x = v"
  by (induction xs rule: rev_induct) (auto simp: mapOfList_snoc split: if_splits)

lemma dom_mapOfList: "dom (mapOfList key val xs) = key ` set xs"
proof (induction xs rule: rev_induct)
  case (snoc x xs)
  then show ?case by (simp only: mapOfList_snoc dom_fun_upd set_append list.set image_Un) auto
qed simp

lemma mapOfList_inj:
  "inj_on key (set xs) \<Longrightarrow> x \<in> set xs \<Longrightarrow> mapOfList key val xs (key x) = Some (val x)"
proof (induction xs rule: rev_induct)
  case Nil
  then show ?case by simp
next
  case (snoc y xs)
  show ?case
  proof (cases "key x = key y")
    case True
    with snoc.prems have "x = y" by (auto simp: inj_on_def)
    then show ?thesis by (simp add: mapOfList_snoc)
  next
    case False
    with snoc.prems have "x \<in> set xs" by auto
    with snoc False show ?thesis by (simp add: mapOfList_snoc)
  qed
qed

section \<open>Sorting\<close>

lemma sort_by_unique:
  assumes "mset xs = mset ys" "sorted (map key xs)" "inj_on key (set ys)"
  shows "xs = sort_key key ys"
proof -
  have sx: "set xs = set ys" using assms(1) by (metis mset_eq_setD)
  have "mset (map key xs) = mset (map key (sort_key key ys))" using assms(1) by (metis mset_map mset_sort)
  then have "map key xs = map key (sort_key key ys)"
    using assms(2) by (metis sorted_sort_id sorted_sort_key properties_for_sort)
  then show ?thesis using assms(3) sx by (metis inj_on_map_eq_map set_sort sup.idem)
qed

text \<open>
  What \<^verbatim>\<open>sort.Slice\<close> promises: a rearrangement that is sorted by the comparison. It is not
  stable, so when two elements compare equal their order is open; where the program's key
  is different for different elements there is only one result, the one that \<open>sort_key\<close>
  computes, and it does not depend on the order of the input.
\<close>

locale slice_sort =
  fixes sortBy :: "('a \<Rightarrow> 'k :: linorder) \<Rightarrow> 'a list \<Rightarrow> 'a list"
  assumes mset_sortBy: "mset (sortBy key xs) = mset xs"
    and sorted_sortBy: "sorted (map key (sortBy key xs))"
begin

lemma sortBy_unique: "inj_on key (set xs) \<Longrightarrow> sortBy key xs = sort_key key xs"
  by (rule sort_by_unique [OF mset_sortBy sorted_sortBy])

lemma sortBy_order:
  assumes "mset xs = mset ys" "inj_on key (set xs)"
  shows "sortBy key xs = sortBy key ys"
proof -
  have "set xs = set ys" using assms(1) by (metis mset_eq_setD)
  then show ?thesis
    using sort_by_unique [of "sortBy key xs" ys key] sortBy_unique [of key ys] assms
    by (metis mset_sortBy sorted_sortBy)
qed

end

interpretation stable: slice_sort sort_key
  by unfold_locales simp_all

end
