(* ===== verification/GoStrings.thy ===== *)
theory GoStrings
  imports Prelude
begin

text \<open>
  The functions of Go's \<^verbatim>\<open>strings\<close>, \<^verbatim>\<open>strconv\<close> and \<^verbatim>\<open>encoding/hex\<close> packages and the two
  regular expressions that several packages of the program share, on byte strings.
\<close>

section \<open>Character classes\<close>

definition code :: "char \<Rightarrow> nat" where
  "code c = of_char c"

definition isDigit :: "char \<Rightarrow> bool" where
  "isDigit c \<longleftrightarrow> 48 \<le> code c \<and> code c \<le> 57"

definition isLower :: "char \<Rightarrow> bool" where
  "isLower c \<longleftrightarrow> 97 \<le> code c \<and> code c \<le> 122"

definition isUpper :: "char \<Rightarrow> bool" where
  "isUpper c \<longleftrightarrow> 65 \<le> code c \<and> code c \<le> 90"

definition isHexLower :: "char \<Rightarrow> bool" where
  "isHexLower c \<longleftrightarrow> isDigit c \<or> 97 \<le> code c \<and> code c \<le> 102"

definition isHex :: "char \<Rightarrow> bool" where
  "isHex c \<longleftrightarrow> isHexLower c \<or> 65 \<le> code c \<and> code c \<le> 70"

lemma isHexLower_isHex: "isHexLower c \<Longrightarrow> isHex c"
  by (simp add: isHex_def)

text \<open>\<^verbatim>\<open>strings.ToLower\<close> on a string of ASCII bytes.\<close>

definition lowerChar :: "char \<Rightarrow> char" where
  "lowerChar c = (if isUpper c then char_of (code c + 32) else c)"

definition ToLower :: "string \<Rightarrow> string" where
  "ToLower s = map lowerChar s"

lemma code_char_of: "n < 256 \<Longrightarrow> code (char_of n) = n"
  by (simp add: code_def)

lemma lowerChar_hex: "isHex c \<Longrightarrow> isHexLower (lowerChar c)"
  by (auto simp: isHex_def isHexLower_def lowerChar_def isDigit_def isUpper_def code_char_of)

lemma lowerChar_id: "isHexLower c \<Longrightarrow> lowerChar c = c"
  by (auto simp: isHexLower_def lowerChar_def isDigit_def isUpper_def)

section \<open>Prefixes, cuts and splits\<close>

definition HasPrefix :: "string \<Rightarrow> string \<Rightarrow> bool" where
  "HasPrefix s p \<longleftrightarrow> take (length p) s = p"

definition HasSuffix :: "string \<Rightarrow> string \<Rightarrow> bool" where
  "HasSuffix s p \<longleftrightarrow> HasPrefix (rev s) (rev p)"

lemma HasPrefix_iff: "HasPrefix s p \<longleftrightarrow> (\<exists>t. s = p @ t)"
  unfolding HasPrefix_def by (metis append_eq_conv_conj append_take_drop_id)

lemma HasPrefix_append [simp]: "HasPrefix (p @ t) p"
  by (simp add: HasPrefix_def)

text \<open>The position of the first occurrence of a substring.\<close>

fun findSub :: "string \<Rightarrow> string \<Rightarrow> nat option" where
  "findSub sep [] = (if sep = [] then Some 0 else None)"
| "findSub sep (c # cs) =
     (if HasPrefix (c # cs) sep then Some 0 else map_option Suc (findSub sep cs))"

definition Contains :: "string \<Rightarrow> string \<Rightarrow> bool" where
  "Contains s sub \<longleftrightarrow> findSub sub s \<noteq> None"

lemma findSub_Some:
  "findSub sep s = Some i \<Longrightarrow> s = take i s @ sep @ drop (i + length sep) s"
proof (induction s arbitrary: i)
  case Nil
  then show ?case by (simp split: if_splits)
next
  case (Cons c cs)
  show ?case
  proof (cases "HasPrefix (c # cs) sep")
    case True
    with Cons.prems show ?thesis
      by (simp add: HasPrefix_def) (metis append_take_drop_id)
  next
    case False
    with Cons.prems obtain j where j: "findSub sep cs = Some j" "i = Suc j" by auto
    from Cons.IH [OF j(1)] j(2) show ?thesis by simp
  qed
qed

lemma findSub_None: "findSub sep s = None \<longleftrightarrow> (\<nexists>a b. s = a @ sep @ b)"
proof (induction s)
  case Nil
  then show ?case by auto
next
  case (Cons c cs)
  show ?case
  proof (cases "HasPrefix (c # cs) sep")
    case True
    then show ?thesis by (simp add: HasPrefix_iff) (metis append_Nil)
  next
    case False
    have "(\<exists>a b. c # cs = a @ sep @ b) \<longleftrightarrow> (\<exists>a b. cs = a @ sep @ b)"
    proof
      assume "\<exists>a b. c # cs = a @ sep @ b"
      then obtain a b where ab: "c # cs = a @ sep @ b" by blast
      with False have "a \<noteq> []" by (auto simp: HasPrefix_iff)
      then obtain a' where "a = c # a'" using ab by (cases a) auto
      with ab show "\<exists>a b. cs = a @ sep @ b" by auto
    next
      assume "\<exists>a b. cs = a @ sep @ b"
      then show "\<exists>a b. c # cs = a @ sep @ b" by (metis append_Cons)
    qed
    with Cons.IH False show ?thesis by auto
  qed
qed

text \<open>\<^verbatim>\<open>strings.Cut\<close> for a one-byte separator.\<close>

fun Cut :: "char \<Rightarrow> string \<Rightarrow> string \<times> string \<times> bool" where
  "Cut sep [] = ([], [], False)"
| "Cut sep (c # cs) =
     (if c = sep then ([], cs, True)
      else (case Cut sep cs of (a, b, found) \<Rightarrow> (c # a, b, found)))"

lemma Cut_found: "sep \<notin> set a \<Longrightarrow> Cut sep (a @ sep # b) = (a, b, True)"
  by (induction a) auto

lemma Cut_True: "Cut sep s = (a, b, True) \<Longrightarrow> s = a @ sep # b \<and> sep \<notin> set a"
  by (induction s arbitrary: a) (auto split: prod.splits if_splits)

lemma Cut_True_iff: "Cut sep s = (a, b, True) \<longleftrightarrow> s = a @ sep # b \<and> sep \<notin> set a"
  by (auto simp: Cut_found dest: Cut_True)

text \<open>\<^verbatim>\<open>strings.Split\<close> for a non-empty separator.\<close>

function Split :: "string \<Rightarrow> string \<Rightarrow> string list" where
  "Split s sep =
     (if sep = [] then [s]
      else case findSub sep s of
        None \<Rightarrow> [s]
      | Some i \<Rightarrow> take i s # Split (drop (i + length sep) s) sep)"
  by pat_completeness auto
termination
proof (relation "measure (\<lambda>(s, sep). length s)", simp)
  fix s sep :: string and i
  assume "sep \<noteq> []" and "findSub sep s = Some i"
  then have "s \<noteq> []" by auto
  with \<open>sep \<noteq> []\<close> show "((drop (i + length sep) s, sep), (s, sep)) \<in> measure (\<lambda>(s, sep). length s)"
    by (cases s) auto
qed

declare Split.simps [simp del]

lemma Split_None: "findSub sep s = None \<Longrightarrow> Split s sep = [s]"
  by (simp add: Split.simps [of s sep])

lemma Split_nonempty: "Split s sep \<noteq> []"
  by (subst Split.simps) (simp split: option.splits)

lemma Split_one: "sep \<noteq> [] \<Longrightarrow> Split s sep = [b] \<Longrightarrow> s = b \<and> findSub sep s = None"
  by (subst (asm) Split.simps) (auto simp: Split_nonempty split: option.splits)

lemma Split_two:
  assumes "sep \<noteq> []" and "Split s sep = [a, b]"
  shows "s = a @ sep @ b \<and> findSub sep b = None"
proof (cases "findSub sep s")
  case None
  with assms show ?thesis by (simp add: Split_None)
next
  case (Some i)
  with assms have "a = take i s" and "Split (drop (i + length sep) s) sep = [b]"
    by (simp_all add: Split.simps [of s sep])
  with Split_one [OF assms(1) this(2)] findSub_Some [OF Some] show ?thesis by auto
qed

lemma Split_two_intro:
  "sep \<noteq> [] \<Longrightarrow> findSub sep (a @ sep @ b) = Some (length a) \<Longrightarrow> findSub sep b = None \<Longrightarrow>
   Split (a @ sep @ b) sep = [a, b]"
  by (simp add: Split.simps [of "a @ sep @ b" sep] Split_None)

section \<open>Numbers\<close>

datatype (plugins only: code size) num_err = ErrSyntax | ErrRange

definition digitVal :: "char \<Rightarrow> int option" where
  "digitVal c =
     (if isDigit c then Some (of_char c - 48)
      else if isLower c then Some (of_char c - 87)
      else if isUpper c then Some (of_char c - 55)
      else None)"

text \<open>
  \<^verbatim>\<open>strconv.ParseUint(s, base, 64)\<close> for the bases 10 and 16 (an explicit base takes no
  sign, prefix or underscore). The digits are read from the left; a bad digit is a syntax
  error, a value that leaves 64 bits a range error, whichever is met first.
\<close>

fun parseDigits :: "int \<Rightarrow> int \<Rightarrow> string \<Rightarrow> num_err + int" where
  "parseDigits base n [] = Inr n"
| "parseDigits base n (c # cs) =
     (case digitVal c of
        None \<Rightarrow> Inl ErrSyntax
      | Some d \<Rightarrow>
          if base \<le> d then Inl ErrSyntax
          else if 2 ^ 64 \<le> n * base + d then Inl ErrRange
          else parseDigits base (n * base + d) cs)"

definition ParseUint :: "int \<Rightarrow> string \<Rightarrow> num_err + u64" where
  "ParseUint base s =
     (if s = [] then Inl ErrSyntax
      else (case parseDigits base 0 s of Inl e \<Rightarrow> Inl e | Inr n \<Rightarrow> Inr (word_of_int n)))"

text \<open>\<^verbatim>\<open>strconv.FormatUint(x, 10)\<close>, also the \<^verbatim>\<open>%d\<close> of an unsigned number.\<close>

function formatDigits :: "int \<Rightarrow> string" where
  "formatDigits n =
     (if n < 10 then [char_of (48 + n)]
      else formatDigits (n div 10) @ [char_of (48 + n mod 10)])"
  by pat_completeness auto
termination
  by (relation "measure nat") auto

declare formatDigits.simps [simp del]

definition FormatUint :: "u64 \<Rightarrow> string" where
  "FormatUint x = formatDigits (uint x)"

lemma code_char_of_int: "0 \<le> n \<Longrightarrow> n < 256 \<Longrightarrow> code (char_of (n :: int)) = nat n"
proof -
  assume n: "0 \<le> n" "n < 256"
  then have "char_of n = char_of (nat n)"
    by (metis char_of_nat nat_0_le of_nat_of_char)
  with n show ?thesis by (simp add: code_char_of)
qed

lemma of_char_digit: "0 \<le> d \<Longrightarrow> d < 10 \<Longrightarrow> (of_char (char_of (48 + d :: int)) :: int) = 48 + d"
  by simp

lemma isDigit_digit: "0 \<le> d \<Longrightarrow> d < 10 \<Longrightarrow> isDigit (char_of (48 + d :: int))"
  by (simp add: isDigit_def code_char_of_int nat_le_iff le_nat_iff)

lemma digitVal_decimal: "0 \<le> d \<Longrightarrow> d < 10 \<Longrightarrow> digitVal (char_of (48 + d)) = Some d"
  by (simp add: digitVal_def isDigit_digit)

lemma digitVal_nonneg: "digitVal c = Some d \<Longrightarrow> 0 \<le> d"
proof -
  have "(of_char c :: int) = int (code c)" by (simp add: code_def of_nat_of_char)
  then show "digitVal c = Some d \<Longrightarrow> 0 \<le> d"
    by (auto simp: digitVal_def isDigit_def isLower_def isUpper_def split: if_splits)
qed

lemma parseDigits_snoc:
  "parseDigits base n (s @ [c]) = bindR (parseDigits base n s) (\<lambda>m. parseDigits base m [c])"
  by (induction s arbitrary: n) (auto split: option.splits)

lemma parseDigits_range:
  "0 \<le> base \<Longrightarrow> 0 \<le> n \<Longrightarrow> n < 2 ^ 64 \<Longrightarrow> parseDigits base n s = Inr m \<Longrightarrow> 0 \<le> m \<and> m < 2 ^ 64"
proof (induction s arbitrary: n)
  case Nil
  then show ?case by simp
next
  case (Cons c cs)
  then obtain d where d: "digitVal c = Some d" and *: "n * base + d < 2 ^ 64"
    and rest: "parseDigits base (n * base + d) cs = Inr m"
    by (simp split: option.splits if_splits)
  have "0 \<le> n * base + d" using Cons.prems digitVal_nonneg [OF d] by simp
  from Cons.IH [OF Cons.prems(1) this * rest] show ?case .
qed

lemma parseDigits_format: "0 \<le> n \<Longrightarrow> n < 2 ^ 64 \<Longrightarrow> parseDigits 10 0 (formatDigits n) = Inr n"
proof (induction n rule: formatDigits.induct)
  case (1 n)
  show ?case
  proof (cases "n < 10")
    case True
    with "1.prems" show ?thesis
      by (simp add: formatDigits.simps [of n] digitVal_decimal)
  next
    case False
    with 1 have "parseDigits 10 0 (formatDigits (n div 10)) = Inr (n div 10)" by simp
    with False "1.prems" show ?thesis
      by (simp add: formatDigits.simps [of n] parseDigits_snoc digitVal_decimal)
  qed
qed

lemma formatDigits_ne: "formatDigits n \<noteq> []"
  by (subst formatDigits.simps) simp

lemma ParseUint_FormatUint: "ParseUint 10 (FormatUint x) = Inr x"
proof -
  have "uint x < 2 ^ 64" using uint_bounded [of x] by simp
  then have "parseDigits 10 0 (formatDigits (uint x)) = Inr (uint x)"
    by (intro parseDigits_format) simp_all
  then show ?thesis by (simp add: ParseUint_def FormatUint_def formatDigits_ne)
qed

lemma formatDigits_digits: "0 \<le> n \<Longrightarrow> c \<in> set (formatDigits n) \<Longrightarrow> isDigit c"
proof (induction n rule: formatDigits.induct)
  case (1 n)
  show ?case
  proof (cases "n < 10")
    case True
    with "1.prems" have "c = char_of (48 + n)" by (simp add: formatDigits.simps [of n])
    with True "1.prems" show ?thesis by (simp add: isDigit_digit)
  next
    case False
    with "1.prems" have "c \<in> set (formatDigits (n div 10)) \<or> c = char_of (48 + n mod 10)"
      by (auto simp: formatDigits.simps [of n])
    with False 1 show ?thesis by (auto simp: isDigit_digit)
  qed
qed

text \<open>\<^verbatim>\<open>hex.DecodeString\<close> succeeds on an even number of hexadecimal digits of either case.\<close>

definition hexDecodes :: "string \<Rightarrow> bool" where
  "hexDecodes s \<longleftrightarrow> even (length s) \<and> list_all isHex s"

section \<open>Shared patterns\<close>

text \<open>\<^verbatim>\<open>^[a-z][a-z0-9-]{0,62}$\<close>, the name pattern that four packages compile.\<close>

definition nameChar :: "char \<Rightarrow> bool" where
  "nameChar c \<longleftrightarrow> isLower c \<or> isDigit c \<or> c = CHR ''-''"

definition dnsName :: "string \<Rightarrow> bool" where
  "dnsName s = (case s of [] \<Rightarrow> False
     | c # cs \<Rightarrow> isLower c \<and> length cs \<le> 62 \<and> list_all nameChar cs)"

text \<open>Exactly \<open>n\<close> lower-case hexadecimal digits.\<close>

definition lowerHexN :: "string \<Rightarrow> nat \<Rightarrow> bool" where
  "lowerHexN s n \<longleftrightarrow> length s = n \<and> list_all isHexLower s"

lemma dnsName_chars: "dnsName s \<Longrightarrow> c \<in> set s \<Longrightarrow> nameChar c"
  by (auto simp: dnsName_def nameChar_def list_all_iff split: list.splits)

lemma dnsName_nonempty: "dnsName s \<Longrightarrow> s \<noteq> []"
  by (auto simp: dnsName_def)

text \<open>
  \<^verbatim>\<open>strings.TrimSpace(s) == ""\<close>: the string consists of the UTF-8 encodings of Unicode white
  space only.
\<close>

definition isAsciiSpace :: "char \<Rightarrow> bool" where
  "isAsciiSpace c \<longleftrightarrow> code c \<in> {9, 10, 11, 12, 13, 32}"

fun blank :: "string \<Rightarrow> bool" where
  "blank [] = True"
| "blank (a # b # c # r) =
     (if isAsciiSpace a then blank (b # c # r)
      else if code a = 194 \<and> (code b = 133 \<or> code b = 160) then blank (c # r)
      else if (code a, code b, code c) \<in> {(225, 154, 128), (226, 128, 168), (226, 128, 169),
                (226, 128, 175), (226, 129, 159), (227, 128, 128)}
             \<or> code a = 226 \<and> code b = 128 \<and> 128 \<le> code c \<and> code c \<le> 138
        then blank r
      else False)"
| "blank [a, b] =
     (if isAsciiSpace a then blank [b] else code a = 194 \<and> (code b = 133 \<or> code b = 160))"
| "blank [a] = isAsciiSpace a"

end
