(* ===== verification/Float64.thy ===== *)
theory Float64
  imports Complex_Main GoStrings "HOL-Library.Log_Nat"
begin

text \<open>
  Go's \<^verbatim>\<open>float64\<close> as far as the program uses it: conversion from \<^verbatim>\<open>uint64\<close>, sum,
  difference, quotient, absolute value and comparison. A finite value is the rational
  number it stands for and every operation rounds to 53 significant bits, ties to even.
  The exponent is not bounded: the program's operands are counts below \<open>2 ^ 64\<close>, quotients
  of such counts and differences of values that are representable, none of which reaches
  the overflow threshold, and a difference that is subnormal is exact. Not-a-number and the
  infinities are values of their own because decoded input can hold them. The sign of zero
  is not kept; no operation in the program observes it.
\<close>

datatype (plugins only: code size) f64 = Fin rat | PInf | NInf | NaN

section \<open>Rounding\<close>

definition rne :: "rat \<Rightarrow> int" where
  "rne z = (let f = \<lfloor>z\<rfloor>; d = z - of_int f
            in if d < 1 / 2 then f else if 1 / 2 < d then f + 1
               else if even f then f else f + 1)"

text \<open>The binary exponent \<open>e\<close> of \<open>x > 0\<close>: \<open>2 ^ e \<le> x < 2 ^ (e + 1)\<close>.\<close>

definition expo :: "rat \<Rightarrow> int" where
  "expo x = (if 1 \<le> x then bitlen \<lfloor>x\<rfloor> - 1 else - bitlen (\<lceil>1 / x\<rceil> - 1))"

definition pow2 :: "int \<Rightarrow> rat" where
  "pow2 k = (if 0 \<le> k then 2 ^ nat k else 1 / 2 ^ nat (- k))"

definition flpos :: "rat \<Rightarrow> rat" where
  "flpos x = (let u = pow2 (expo x - 52) in of_int (rne (x / u)) * u)"

definition fl :: "rat \<Rightarrow> rat" where
  "fl x = (if x = 0 then 0 else if 0 < x then flpos x else - flpos (- x))"

lemma pow2_pos [simp]: "0 < pow2 k"
  by (simp add: pow2_def)

lemma pow2_powi: "pow2 k = 2 powi k"
  by (simp add: pow2_def power_int_def inverse_eq_divide power_one_over)

lemma pow2_add: "pow2 (a + b) = pow2 a * pow2 b"
  by (simp add: pow2_powi power_int_add)

lemma pow2_mono: "a \<le> b \<Longrightarrow> pow2 a \<le> pow2 b"
  by (simp add: pow2_powi power_int_increasing)

lemma pow2_less_cancel: "pow2 a < pow2 b \<Longrightarrow> a < b"
  using pow2_mono [of b a] by (meson leD not_le_imp_less)

lemma rne_of_int [simp]: "rne (of_int n) = n"
  by (simp add: rne_def)

lemma rne_err: "\<bar>of_int (rne z) - z\<bar> \<le> 1 / 2"
proof -
  define d where "d = z - of_int \<lfloor>z\<rfloor>"
  have z: "z = of_int \<lfloor>z\<rfloor> + d" and "0 \<le> d" "d < 1"
    by (simp_all add: d_def) linarith
  then have "rne z = (if d < 1 / 2 then \<lfloor>z\<rfloor> else if 1 / 2 < d then \<lfloor>z\<rfloor> + 1
               else if even \<lfloor>z\<rfloor> then \<lfloor>z\<rfloor> else \<lfloor>z\<rfloor> + 1)"
    by (simp add: rne_def d_def Let_def)
  then show ?thesis using z \<open>0 \<le> d\<close> \<open>d < 1\<close> by (subst (2) z) auto
qed

lemma expo_bounds_ge1:
  assumes "1 \<le> x" shows "pow2 (expo x) \<le> x \<and> x < pow2 (expo x + 1)"
proof -
  define n where "n = \<lfloor>x\<rfloor>"
  have n: "1 \<le> n" "of_int n \<le> x" "x < of_int n + 1"
    using assms by (simp_all add: n_def) linarith
  then have b: "2 ^ nat (bitlen n - 1) \<le> n" "n < 2 ^ nat (bitlen n)"
    using bitlen_bounds [of n] by simp_all
  have pos: "0 < bitlen n"
    using n bitlen_nonneg [of n] bitlen_eq_zero_iff [of n] by linarith
  have "pow2 (expo x) = of_int (2 ^ nat (bitlen n - 1))"
    using assms pos by (simp add: expo_def pow2_def n_def [symmetric])
  also have "\<dots> \<le> of_int n" using b(1) by (simp only: of_int_le_iff)
  finally have lo: "pow2 (expo x) \<le> x" using n by linarith
  have "of_int n + 1 \<le> (of_int (2 ^ nat (bitlen n)) :: rat)"
    using b(2) by (metis add1_zle_eq of_int_1 of_int_add of_int_le_iff)
  also have "\<dots> = pow2 (expo x + 1)"
    using assms pos by (simp add: expo_def pow2_def n_def [symmetric])
  finally show ?thesis using lo n by linarith
qed

lemma expo_bounds_lt1:
  assumes "0 < x" "x < 1" shows "pow2 (expo x) \<le> x \<and> x < pow2 (expo x + 1)"
proof -
  define n where "n = \<lceil>1 / x\<rceil> - 1"
  have y: "1 < 1 / x" using assms by simp
  have n: "1 \<le> n" "of_int n < 1 / x" "1 / x \<le> of_int n + 1"
    using y by (simp_all add: n_def) linarith+
  then have b: "2 ^ nat (bitlen n - 1) \<le> n" "n < 2 ^ nat (bitlen n)"
    using bitlen_bounds [of n] by simp_all
  have pos: "0 < bitlen n"
    using n bitlen_nonneg [of n] bitlen_eq_zero_iff [of n] by linarith
  have e: "expo x = - bitlen n" using assms by (simp add: expo_def n_def)
  have "1 / x \<le> of_int (2 ^ nat (bitlen n))"
    using b(2) n(3) by (metis add1_zle_eq of_int_1 of_int_add of_int_le_iff order_trans)
  then have "1 / x \<le> 2 ^ nat (bitlen n)" by simp
  then have "1 / 2 ^ nat (bitlen n) \<le> x"
    using assms by (simp add: field_simps)
  then have lo: "pow2 (expo x) \<le> x" using pos by (simp add: e pow2_def)
  have "(2 :: rat) ^ nat (bitlen n - 1) < 1 / x"
    using b(1) n(2) by (metis of_int_le_iff of_int_numeral of_int_power order_le_less_trans)
  then have "x < 1 / 2 ^ nat (bitlen n - 1)"
    using assms by (simp add: field_simps)
  moreover have "pow2 (expo x + 1) = 1 / 2 ^ nat (bitlen n - 1)"
    using pos by (cases "bitlen n = 1") (simp_all add: e pow2_def algebra_simps)
  ultimately show ?thesis using lo by simp
qed

lemma expo_bounds: "0 < x \<Longrightarrow> pow2 (expo x) \<le> x \<and> x < pow2 (expo x + 1)"
  using expo_bounds_ge1 expo_bounds_lt1 by (metis not_le_imp_less)

lemma flpos_err: "\<bar>flpos x - x\<bar> \<le> pow2 (expo x - 52) / 2"
proof -
  define u where "u = pow2 (expo x - 52)"
  have u: "0 < u" by (simp add: u_def)
  have "flpos x - x = (of_int (rne (x / u)) - x / u) * u"
    using u by (simp add: flpos_def u_def [symmetric] field_simps)
  then have "\<bar>flpos x - x\<bar> = \<bar>of_int (rne (x / u)) - x / u\<bar> * u"
    using u by (simp add: abs_mult)
  also have "\<dots> \<le> 1 / 2 * u" using u by (intro mult_right_mono rne_err) simp
  finally show ?thesis by (simp add: u_def)
qed

text \<open>A value with at most 53 significant bits is not changed by rounding.\<close>

lemma flpos_exact: "x / pow2 (expo x - 52) = of_int k \<Longrightarrow> flpos x = x"
  by (simp add: flpos_def Let_def) (metis nonzero_divide_eq_eq pow2_pos less_irrefl)

lemma fl_2_53: "fl 9007199254740992 = 9007199254740992"
  by code_simp

lemma fl_int_exact:
  assumes "0 \<le> n" "n \<le> 2 ^ 53" shows "fl (of_int n) = of_int n"
proof (cases "n = 0 \<or> n = 2 ^ 53")
  case True
  then show ?thesis using fl_2_53 by (auto simp: fl_def)
next
  case False
  define e where "e = expo (of_int n)"
  have pos: "0 < n" using False assms by auto
  then have "pow2 e \<le> of_int n" using expo_bounds [of "of_int n"] by (simp add: e_def)
  also have "of_int n < (pow2 53 :: rat)"
    using False assms by (simp add: pow2_def)
  finally have "e < 53" by (rule pow2_less_cancel)
  then have "e \<le> 52" by simp
  then have "of_int n / pow2 (e - 52) = of_int (n * 2 ^ nat (52 - e))"
    by (cases "e = 52") (simp_all add: pow2_def)
  then have "flpos (of_int n) = of_int n" unfolding e_def by (rule flpos_exact)
  with pos show ?thesis by (simp add: fl_def)
qed

section \<open>Operations\<close>

definition f64_of_u64 :: "u64 \<Rightarrow> f64" where
  "f64_of_u64 w = Fin (fl (of_int (uint w)))"

text \<open>A decimal literal of the source, converted at compile time.\<close>

definition lit :: "rat \<Rightarrow> f64" where
  "lit q = Fin (fl q)"

fun fneg :: "f64 \<Rightarrow> f64" where
  "fneg (Fin x) = Fin (- x)"
| "fneg PInf = NInf"
| "fneg NInf = PInf"
| "fneg NaN = NaN"

fun fadd :: "f64 \<Rightarrow> f64 \<Rightarrow> f64" where
  "fadd (Fin x) (Fin y) = Fin (fl (x + y))"
| "fadd NaN y = NaN"
| "fadd x NaN = NaN"
| "fadd PInf NInf = NaN"
| "fadd NInf PInf = NaN"
| "fadd PInf y = PInf"
| "fadd NInf y = NInf"
| "fadd x PInf = PInf"
| "fadd x NInf = NInf"

definition fsub :: "f64 \<Rightarrow> f64 \<Rightarrow> f64" where
  "fsub x y = fadd x (fneg y)"

fun fabs :: "f64 \<Rightarrow> f64" where
  "fabs (Fin x) = Fin \<bar>x\<bar>"
| "fabs NaN = NaN"
| "fabs x = PInf"

text \<open>The quotient of two finite values (the only quotients the program forms).\<close>

definition fdiv :: "f64 \<Rightarrow> f64 \<Rightarrow> f64" where
  "fdiv x y = (case (x, y) of
      (Fin a, Fin b) \<Rightarrow>
        if b = 0 then (if a = 0 then NaN else if 0 < a then PInf else NInf)
        else Fin (fl (a / b))
    | (Fin a, PInf) \<Rightarrow> Fin 0
    | (Fin a, NInf) \<Rightarrow> Fin 0
    | (PInf, Fin b) \<Rightarrow> if b < 0 then NInf else PInf
    | (NInf, Fin b) \<Rightarrow> if b < 0 then PInf else NInf
    | _ \<Rightarrow> NaN)"

text \<open>IEEE comparisons: every one with a NaN is false, except \<open>\<noteq>\<close>, which is true.\<close>

fun fgt :: "f64 \<Rightarrow> f64 \<Rightarrow> bool" where
  "fgt (Fin x) (Fin y) = (x > y)"
| "fgt NaN y = False"
| "fgt x NaN = False"
| "fgt PInf PInf = False"
| "fgt PInf y = True"
| "fgt x NInf = (x \<noteq> NInf)"
| "fgt x y = False"

fun feq :: "f64 \<Rightarrow> f64 \<Rightarrow> bool" where
  "feq NaN y = False"
| "feq x NaN = False"
| "feq x y = (x = y)"

lemma fgt_irrefl [simp]: "\<not> fgt x x" by (cases x) simp_all

lemma fgt_NaN [simp]: "fgt NaN y = False" "fgt x NaN = False"
  by (cases x; simp)+

lemma feq_refl: "feq x x \<longleftrightarrow> x \<noteq> NaN" by (cases x) simp_all

lemma feq_eq: "feq x y \<Longrightarrow> x = y" by (cases x; cases y) auto

lemma fl_0 [simp]: "fl 0 = 0" by (simp add: fl_def)

lemma fsub_self_abs: "x = Fin a \<Longrightarrow> fabs (fsub x x) = Fin 0"
  by (simp add: fsub_def)

text \<open>Rounding never turns a difference of distinct values into zero.\<close>

lemma flpos_pos: "0 < x \<Longrightarrow> 0 < flpos x"
proof -
  assume x: "0 < x"
  define u where "u = pow2 (expo x - 52)"
  have "pow2 (expo x - 52) / 2 < pow2 (expo x)"
  proof -
    have "pow2 (expo x - 52) \<le> pow2 (expo x)" by (rule pow2_mono) simp
    moreover have "0 < pow2 (expo x - 52)" by simp
    ultimately show ?thesis by linarith
  qed
  with flpos_err [of x] expo_bounds [OF x] show ?thesis by linarith
qed

lemma fl_eq_0_iff: "fl x = 0 \<longleftrightarrow> x = 0"
  using flpos_pos [of x] flpos_pos [of "- x"] by (auto simp: fl_def)

lemma abs_diff_gt_0: "fgt (fabs (fsub (Fin x) (Fin y))) (Fin 0) \<longleftrightarrow> x \<noteq> y"
  by (simp add: fsub_def fl_eq_0_iff)

text \<open>
  The quotient of two counts up to \<open>2 ^ 53\<close> is exactly one half when the first is half of
  the second and not otherwise.
\<close>

lemma fl_half_imp:
  fixes g t :: int
  assumes "0 \<le> g" "g \<le> t" "0 < t" "t \<le> 2 ^ 53" "fl (of_int g / of_int t) = 1 / 2"
  shows "2 * g = t"
proof -
  define x where "x = (of_int g / of_int t :: rat)"
  have g: "0 < g" using assms by (cases "g = 0") auto
  have x0: "0 < x" using g assms by (simp add: x_def)
  have "fl x = flpos x" using x0 by (simp add: fl_def)
  with assms(5) have fx: "flpos x = 1 / 2" by (simp add: x_def)
  have "flpos 1 = 1" by code_simp
  with fx have "x \<noteq> 1" by auto
  then have x1: "x < 1" using assms by (simp add: x_def)
  then have "pow2 (expo x) < pow2 0" using expo_bounds [OF x0] by (simp add: pow2_def)
  then have "expo x < 0" by (rule pow2_less_cancel)
  then have "pow2 (expo x - 52) \<le> pow2 (- 53)" by (intro pow2_mono) simp
  with flpos_err [of x] have "\<bar>1 / 2 - x\<bar> \<le> 1 / 2 ^ 54"
    unfolding fx by (simp add: pow2_def)
  then have "\<bar>of_int t - 2 * of_int g\<bar> / (2 * of_int t) \<le> (1 / 2 ^ 54 :: rat)"
    using assms by (simp add: x_def field_simps)
  then have "\<bar>of_int t - 2 * of_int g\<bar> * 2 ^ 53 \<le> (of_int t :: rat)"
    using assms by (simp add: field_simps)
  then have "of_int (\<bar>t - 2 * g\<bar> * 2 ^ 53) \<le> (of_int t :: rat)"
    by simp
  then have le: "\<bar>t - 2 * g\<bar> * 2 ^ 53 \<le> t" by (simp only: of_int_le_iff)
  show ?thesis
  proof (rule ccontr)
    assume "2 * g \<noteq> t"
    then have "1 \<le> \<bar>t - 2 * g\<bar>" by arith
    with le assms(4) have "t = 2 ^ 53" by simp
    with le have "\<bar>9007199254740992 - 2 * g\<bar> \<le> 1" by simp
    moreover from \<open>2 * g \<noteq> t\<close> \<open>t = 2 ^ 53\<close> have "g \<noteq> 4503599627370496" by simp
    ultimately show False by arith
  qed
qed

lemma fl_half: "fl (1 / 2) = 1 / 2"
  by code_simp

end
