(* ===== verification/Json.thy ===== *)
theory Json
  imports GoStrings "HOL-Library.List_Lexorder" "HOL-Library.Char_ord"
begin

text \<open>
  Decoding of JSON values into Go structs, as \<^verbatim>\<open>encoding/json\<close> does it for the structs the
  program declares. The text-to-tree parser of the standard library is a parameter of the
  components that read bytes; what happens to the tree (which member fills which field,
  what a missing member, a \<^verbatim>\<open>null\<close>, a repeated member or a member of the wrong kind does)
  is defined here. A number keeps its literal.
\<close>

datatype (plugins only: code size) json =
    JNull
  | JBool bool
  | JNum string
  | JStr string
  | JArr "json list"
  | JObj "(string \<times> json) list"

text \<open>
  Member names are matched up to Unicode simple folding; besides the ASCII letters only
  U+017F and U+212A fold to an ASCII letter.
\<close>

fun foldName :: "string \<Rightarrow> string" where
  "foldName [] = []"
| "foldName (a # b # c # r) =
     (if code a = 197 \<and> code b = 191 then CHR ''s'' # foldName (c # r)
      else if code a = 226 \<and> code b = 132 \<and> code c = 170 then CHR ''k'' # foldName r
      else lowerChar a # foldName (b # c # r))"
| "foldName [a, b] =
     (if code a = 197 \<and> code b = 191 then ''s'' else [lowerChar a, lowerChar b])"
| "foldName [a] = [lowerChar a]"

text \<open>
  A decoder reads a value into a state and says whether the kinds matched; after a
  mismatch decoding goes on and the mismatch is reported at the end.
\<close>

type_synonym 's decoder = "json \<Rightarrow> 's \<Rightarrow> bool \<times> 's"

fun fieldFor :: "(string \<times> 's decoder) list \<Rightarrow> string \<Rightarrow> 's decoder option" where
  "fieldFor fs k =
     (case map_of fs k of
        Some d \<Rightarrow> Some d
      | None \<Rightarrow> map_option snd (find (\<lambda>(n, _). foldName n = foldName k) fs))"

fun decMembers :: "(string \<times> 's decoder) list \<Rightarrow> (string \<times> json) list \<Rightarrow> 's \<Rightarrow> bool \<times> 's" where
  "decMembers fs [] s = (True, s)"
| "decMembers fs ((k, v) # kvs) s =
     (case fieldFor fs k of
        None \<Rightarrow> decMembers fs kvs s
      | Some d \<Rightarrow>
          (let (ok, s') = d v s; (ok', s'') = decMembers fs kvs s' in (ok \<and> ok', s'')))"

definition decStruct :: "(string \<times> 's decoder) list \<Rightarrow> 's decoder" where
  "decStruct fs j s = (case j of
      JObj kvs \<Rightarrow> decMembers fs kvs s
    | JNull \<Rightarrow> (True, s)
    | _ \<Rightarrow> (False, s))"

definition decString :: "(string \<Rightarrow> 's \<Rightarrow> 's) \<Rightarrow> 's decoder" where
  "decString put j s = (case j of JStr v \<Rightarrow> (True, put v s) | JNull \<Rightarrow> (True, s) | _ \<Rightarrow> (False, s))"

definition decBool :: "(bool \<Rightarrow> 's \<Rightarrow> 's) \<Rightarrow> 's decoder" where
  "decBool put j s = (case j of JBool v \<Rightarrow> (True, put v s) | JNull \<Rightarrow> (True, s) | _ \<Rightarrow> (False, s))"

definition decUint64 :: "(u64 \<Rightarrow> 's \<Rightarrow> 's) \<Rightarrow> 's decoder" where
  "decUint64 put j s = (case j of
      JNum lit \<Rightarrow> (case ParseUint 10 lit of Inl _ \<Rightarrow> (False, s) | Inr v \<Rightarrow> (True, put v s))
    | JNull \<Rightarrow> (True, s)
    | _ \<Rightarrow> (False, s))"

text \<open>A \<^verbatim>\<open>json.RawMessage\<close> keeps whatever value it meets, \<^verbatim>\<open>null\<close> included.\<close>

definition decRaw :: "(json \<Rightarrow> 's \<Rightarrow> 's) \<Rightarrow> 's decoder" where
  "decRaw put j s = (True, put j s)"

text \<open>A map of strings to raw values; \<^verbatim>\<open>null\<close> empties it, members are added in order.\<close>

definition decRawMap ::
  "('s \<Rightarrow> (string, json) gomap) \<Rightarrow> ((string, json) gomap \<Rightarrow> 's \<Rightarrow> 's) \<Rightarrow> 's decoder" where
  "decRawMap get put j s = (case j of
      JObj kvs \<Rightarrow> (True, put (foldl (\<lambda>m (k, v). mput k v m) (get s) kvs) s)
    | JNull \<Rightarrow> (True, put [] s)
    | _ \<Rightarrow> (False, s))"

text \<open>A map of strings to strings.\<close>

fun decStringMembers :: "(string \<times> json) list \<Rightarrow> (string, string) gomap \<Rightarrow> bool \<times> (string, string) gomap" where
  "decStringMembers [] m = (True, m)"
| "decStringMembers ((k, JStr v) # kvs) m = decStringMembers kvs (mput k v m)"
| "decStringMembers ((k, JNull) # kvs) m = decStringMembers kvs (mput k [] m)"
| "decStringMembers ((k, _) # kvs) m = (False, snd (decStringMembers kvs (mput k [] m)))"

definition decStringMap ::
  "('s \<Rightarrow> (string, string) gomap) \<Rightarrow> ((string, string) gomap \<Rightarrow> 's \<Rightarrow> 's) \<Rightarrow> 's decoder" where
  "decStringMap get put j s = (case j of
      JObj kvs \<Rightarrow> (let (ok, m) = decStringMembers kvs (get s) in (ok, put m s))
    | JNull \<Rightarrow> (True, put [] s)
    | _ \<Rightarrow> (False, s))"

text \<open>A slice of structs: every element is decoded into the zero value of the struct.\<close>

definition decSlice :: "'a \<Rightarrow> 'a decoder \<Rightarrow> ('a list \<Rightarrow> 's \<Rightarrow> 's) \<Rightarrow> 's decoder" where
  "decSlice z d put j s = (case j of
      JArr js \<Rightarrow> (let rs = map (\<lambda>e. d e z) js in (list_all fst rs, put (map snd rs) s))
    | JNull \<Rightarrow> (True, put [] s)
    | _ \<Rightarrow> (False, s))"

text \<open>A field that is itself a struct.\<close>

definition decField :: "('s \<Rightarrow> 'f) \<Rightarrow> ('f \<Rightarrow> 's \<Rightarrow> 's) \<Rightarrow> 'f decoder \<Rightarrow> 's decoder" where
  "decField get put d j s = (let (ok, v) = d j (get s) in (ok, put v s))"

text \<open>\<^verbatim>\<open>json.Unmarshal\<close> of a parsed value: \<open>None\<close> when it returns an error.\<close>

definition unmarshal :: "'s decoder \<Rightarrow> 's \<Rightarrow> json \<Rightarrow> 's option" where
  "unmarshal d z j = (case d j z of (True, s) \<Rightarrow> Some s | (False, _) \<Rightarrow> None)"

text \<open>\<^verbatim>\<open>json.Unmarshal(raw, &value)\<close> for a string variable that is empty before.\<close>

definition unmarshalString :: "json \<Rightarrow> string option" where
  "unmarshalString j = (case j of JStr v \<Rightarrow> Some v | JNull \<Rightarrow> Some [] | _ \<Rightarrow> None)"

section \<open>Strict decoding of a stream\<close>

text \<open>
  With \<^verbatim>\<open>DisallowUnknownFields\<close> a member without a field is a mismatch; decoding goes on.
\<close>

fun decMembersStrict ::
  "(string \<times> 's decoder) list \<Rightarrow> (string \<times> json) list \<Rightarrow> 's \<Rightarrow> bool \<times> 's" where
  "decMembersStrict fs [] s = (True, s)"
| "decMembersStrict fs ((k, v) # kvs) s =
     (case fieldFor fs k of
        None \<Rightarrow> (False, snd (decMembersStrict fs kvs s))
      | Some d \<Rightarrow>
          (let (ok, s') = d v s; (ok', s'') = decMembersStrict fs kvs s' in (ok \<and> ok', s'')))"

definition decStrict :: "(string \<times> 's decoder) list \<Rightarrow> 's decoder" where
  "decStrict fs j s = (case j of
      JObj kvs \<Rightarrow> decMembersStrict fs kvs s
    | JNull \<Rightarrow> (True, s)
    | _ \<Rightarrow> (False, s))"

text \<open>
  What follows the first value of a stream: nothing, another value, or something that is not
  JSON. A stream decoder is a parameter that returns the first value and this.
\<close>

datatype (plugins only: code size) json_rest = NoMore | AnotherValue | Malformed

datatype (plugins only: code size) strict_err = DecodeValue | SecondValue | DecodeRest

definition decodeOnly ::
  "(string \<Rightarrow> (json \<times> json_rest) option) \<Rightarrow> 's decoder \<Rightarrow> 's \<Rightarrow> string \<Rightarrow> strict_err + 's" where
  "decodeOnly decode dec z data =
     (case decode data of
        None \<Rightarrow> Inl DecodeValue
      | Some (j, rest) \<Rightarrow>
          (case unmarshal dec z j of
             None \<Rightarrow> Inl DecodeValue
           | Some value \<Rightarrow>
               (case rest of
                  NoMore \<Rightarrow> Inr value
                | AnotherValue \<Rightarrow> Inl SecondValue
                | Malformed \<Rightarrow> Inl DecodeRest)))"

section \<open>Marshalling\<close>

text \<open>
  \<^verbatim>\<open>json.Marshal\<close> of a value: no white space, and strings escaped for HTML. Strings are taken to
  be valid UTF-8, which is what the JSON decoder delivers.
\<close>

definition hexDigit :: "nat \<Rightarrow> char" where
  "hexDigit n = (if n < 10 then char_of (48 + n) else char_of (87 + n))"

definition escapeChar :: "char \<Rightarrow> string" where
  "escapeChar c =
     (if c = CHR 0x22 \<or> c = CHR 0x5C then [CHR 0x5C, c]
      else if code c = 8 then [CHR 0x5C, CHR ''b'']
      else if code c = 12 then [CHR 0x5C, CHR ''f'']
      else if code c = 10 then [CHR 0x5C, CHR ''n'']
      else if code c = 13 then [CHR 0x5C, CHR ''r'']
      else if code c = 9 then [CHR 0x5C, CHR ''t'']
      else if code c < 32 \<or> c \<in> {CHR ''<'', CHR ''>'', CHR ''&''}
      then [CHR 0x5C, CHR ''u'', CHR ''0'', CHR ''0'', hexDigit (code c div 16), hexDigit (code c mod 16)]
      else [c])"

fun escapeAll :: "string \<Rightarrow> string" where
  "escapeAll [] = []"
| "escapeAll (a # b # c # r) =
     (if code a = 226 \<and> code b = 128 \<and> (code c = 168 \<or> code c = 169)
      then [CHR 0x5C, CHR ''u'', CHR ''2'', CHR ''0'', CHR ''2'', hexDigit (code c - 160)] @ escapeAll r
      else escapeChar a @ escapeAll (b # c # r))"
| "escapeAll (a # r) = escapeChar a @ escapeAll r"

definition quoted :: "string \<Rightarrow> string" where
  "quoted s = [CHR 0x22] @ escapeAll s @ [CHR 0x22]"

fun commaSep :: "string list \<Rightarrow> string" where
  "commaSep [] = []"
| "commaSep [x] = x"
| "commaSep (x # y # ys) = x @ '','' @ commaSep (y # ys)"

fun marshal :: "json \<Rightarrow> string" and marshalAll :: "json list \<Rightarrow> string list"
  and marshalMembers :: "(string \<times> json) list \<Rightarrow> string list" where
  "marshal JNull = ''null''"
| "marshal (JBool b) = (if b then ''true'' else ''false'')"
| "marshal (JNum n) = n"
| "marshal (JStr s) = quoted s"
| "marshal (JArr xs) = ''['' @ commaSep (marshalAll xs) @ '']''"
| "marshal (JObj kvs) = ''{'' @ commaSep (marshalMembers kvs) @ ''}''"
| "marshalAll [] = []"
| "marshalAll (x # xs) = marshal x # marshalAll xs"
| "marshalMembers [] = []"
| "marshalMembers ((k, v) # kvs) = (quoted k @ '':'' @ marshal v) # marshalMembers kvs"

text \<open>Go writes the members of a map in the order of its keys, and a nil map as \<^verbatim>\<open>null\<close>.\<close>

definition jsonMap :: "('v \<Rightarrow> json) \<Rightarrow> (string, 'v) gomap \<Rightarrow> json" where
  "jsonMap f m = JObj (map (\<lambda>(k, v). (k, f v)) (sort_key fst m))"

definition jsonNilMap :: "('v \<Rightarrow> json) \<Rightarrow> (string, 'v) gomap option \<Rightarrow> json" where
  "jsonNilMap f m = (case m of None \<Rightarrow> JNull | Some m \<Rightarrow> jsonMap f m)"

lemma marshal_example:
  "marshal (JObj [(''a'', JStr [CHR ''x'', CHR 0x22, CHR 0x0A, CHR ''<'', CHR 0x01]), (''b'', JArr [JNull, JBool True, JNum ''12''])]) =
   ''{'' @ [CHR 0x22] @ ''a'' @ [CHR 0x22] @ '':'' @ [CHR 0x22] @ ''x'' @ [CHR 0x5C, CHR 0x22, CHR 0x5C] @ ''n'' @
   [CHR 0x5C] @ ''u003c'' @ [CHR 0x5C] @ ''u0001'' @ [CHR 0x22] @ '','' @ [CHR 0x22] @ ''b'' @ [CHR 0x22] @ '':[null,true,12]}''"
  by code_simp

text \<open>A map of strings to strings that tells a missing map from an empty one.\<close>

definition decNilStringMap ::
  "('s \<Rightarrow> (string, string) gomap option) \<Rightarrow> ((string, string) gomap option \<Rightarrow> 's \<Rightarrow> 's) \<Rightarrow> 's decoder" where
  "decNilStringMap get put j s = (case j of
      JObj kvs \<Rightarrow>
        (let (ok, m) = decStringMembers kvs (case get s of None \<Rightarrow> [] | Some m \<Rightarrow> m) in (ok, put (Some m) s))
    | JNull \<Rightarrow> (True, put None s)
    | _ \<Rightarrow> (False, s))"

end
