(* ===== verification/Beacon.thy ===== *)
theory Beacon
  imports Json
begin

text \<open>
  The Beacon API client (\<^verbatim>\<open>internal/beacon/client.go\<close>): the measurement types, the
  validation of decimal and hexadecimal fields, the four reads and the request helper.
  The transport (one HTTP exchange) and the JSON parser are parameters; everything the
  client does with a response is defined here.
\<close>

section \<open>Types\<close>

record beacon_spec =
  SecondsPerSlot :: u64
  SlotsPerEpoch :: u64
  ForkEpochs :: "(string, string) gomap"

record beacon_genesis =
  genesisTime :: u64
  genesisSlot :: u64
  ValidatorsRoot :: string
  ForkVersion :: string

record beacon_head =
  headSlot :: u64
  headRoot :: string
  ParentRoot :: string
  StateRoot :: string
  Canonical :: bool
  headOptimistic :: bool

record beacon_finality =
  finalityEpoch :: u64
  finalityRoot :: string
  finalityOptimistic :: bool

record beacon_validator =
  validatorIndex :: u64
  EffectiveBalance :: u64
  validatorStatus :: string

definition Genesis_Compatible :: "beacon_genesis \<Rightarrow> beacon_genesis \<Rightarrow> bool" where
  "Genesis_Compatible g other \<longleftrightarrow> g = other"

definition Spec_Compatible :: "beacon_spec \<Rightarrow> beacon_spec \<Rightarrow> bool" where
  "Spec_Compatible s other \<longleftrightarrow>
     SecondsPerSlot s = SecondsPerSlot other \<and> SlotsPerEpoch s = SlotsPerEpoch other \<and>
     list_all (\<lambda>(name, epoch).
       case map_of (ForkEpochs other) name of None \<Rightarrow> True | Some e \<Rightarrow> e = epoch) (ForkEpochs s)"

section \<open>Field validation\<close>

datatype (plugins only: code size) beacon_err =
    EmptyDecimal string
  | NotDecimal string string
  | DecimalRange string string
  | NotFixedHex string nat
  | HexDigits string
  | MissingField string
  | NotDecimalString string
  | TimeoutNotPositive
  | EndpointParse
  | EndpointScheme string
  | EndpointHost
  | EndpointUser
  | EndpointQuery
  | FetchFailed string beacon_err
  | ParseSpec beacon_err
  | TimingNotPositive
  | NoForkEpochs
  | GenesisNotCanonical
  | HeadNotCanonical
  | EmptyValidators
  | DuplicateValidator u64
  | ZeroBalance u64
  | NotActive u64 string
  | CreateRequest
  | SendRequest
  | UnexpectedStatus nat bool bool
  | ReadResponse bool
  | CloseResponse
  | ResponseTooLarge
  | DecodeResponse

definition parseDecimal :: "string \<Rightarrow> string \<Rightarrow> beacon_err + u64" where
  "parseDecimal name value =
     (if value = [] then Inl (EmptyDecimal name)
      else if \<not> list_all isDigit value then Inl (NotDecimal name value)
      else (case ParseUint 10 value of
              Inl _ \<Rightarrow> Inl (DecimalRange name value)
            | Inr parsed \<Rightarrow> Inr parsed))"

definition parseFixedHex :: "string \<Rightarrow> string \<Rightarrow> nat \<Rightarrow> beacon_err + string" where
  "parseFixedHex name value byteLength =
     (if length value \<noteq> 2 + byteLength * 2 \<or> \<not> HasPrefix value ''0x''
      then Inl (NotFixedHex name byteLength)
      else if \<not> hexDecodes (drop 2 value) then Inl (HexDigits name)
      else Inr (ToLower value))"

definition parseRoot :: "string \<Rightarrow> string \<Rightarrow> beacon_err + string" where
  "parseRoot name value = parseFixedHex name value 32"

definition requiredDecimalField :: "(string, json) gomap \<Rightarrow> string \<Rightarrow> beacon_err + u64" where
  "requiredDecimalField data name =
     (case map_of data name of
        None \<Rightarrow> Inl (MissingField name)
      | Some raw \<Rightarrow>
          (case unmarshalString raw of
             None \<Rightarrow> Inl (NotDecimalString name)
           | Some value \<Rightarrow> parseDecimal name value))"

section \<open>The client\<close>

text \<open>A parsed endpoint, the part of \<^verbatim>\<open>url.URL\<close> that the client inspects.\<close>

record endpoint =
  urlScheme :: string
  urlHost :: string
  urlHasUser :: bool
  urlPath :: string
  urlRawQuery :: string
  urlFragment :: string

record beacon_client =
  base :: endpoint
  requestTimeout :: int

definition NewClient :: "(string \<Rightarrow> endpoint option) \<Rightarrow> string \<Rightarrow> int \<Rightarrow> beacon_err + beacon_client" where
  "NewClient urlParse rawEndpoint timeout =
     (if timeout \<le> 0 then Inl TimeoutNotPositive
      else case urlParse rawEndpoint of
        None \<Rightarrow> Inl EndpointParse
      | Some b \<Rightarrow>
          if urlScheme b \<noteq> ''http'' \<and> urlScheme b \<noteq> ''https'' then Inl (EndpointScheme (urlScheme b))
          else if urlHost b = [] then Inl EndpointHost
          else if urlHasUser b then Inl EndpointUser
          else if urlRawQuery b \<noteq> [] \<or> urlFragment b \<noteq> [] then Inl EndpointQuery
          else Inr \<lparr>base = b, requestTimeout = timeout\<rparr>)"

text \<open>
  One HTTP exchange: the status, the body as far as it can be read, whether reading it
  fails after that, and whether closing it fails.
\<close>

record http_response =
  StatusCode :: nat
  bodyBytes :: string
  bodyReadFails :: bool
  closeFails :: bool

datatype (plugins only: code size) http_result = RequestInvalid | SendFails | Response http_response

definition maxResponseBytes :: nat where "maxResponseBytes = 1048576"

definition trimSlashes :: "string \<Rightarrow> string" where
  "trimSlashes p = rev (dropWhile (\<lambda>c. c = CHR ''/'') (rev p))"

text \<open>
  \<^verbatim>\<open>getJSON\<close> up to the parsed value: \<open>http\<close> is the transport by request path, \<open>parse\<close> the
  JSON parser. A read error that lies beyond the read limit is not met.
\<close>

definition getJSON ::
  "(string \<Rightarrow> http_result) \<Rightarrow> (string \<Rightarrow> json option) \<Rightarrow> beacon_client \<Rightarrow> string
     \<Rightarrow> 's decoder \<Rightarrow> 's \<Rightarrow> beacon_err + 's" where
  "getJSON http parse c endpointPath dec z =
     (case http (trimSlashes (urlPath (base c)) @ endpointPath) of
        RequestInvalid \<Rightarrow> Inl CreateRequest
      | SendFails \<Rightarrow> Inl SendRequest
      | Response r \<Rightarrow>
          if StatusCode r \<noteq> 200
          then Inl (UnexpectedStatus (StatusCode r)
                 (bodyReadFails r \<and> length (bodyBytes r) < 4096) (closeFails r))
          else if bodyReadFails r \<and> length (bodyBytes r) < maxResponseBytes + 1
          then Inl (ReadResponse (closeFails r))
          else if closeFails r then Inl CloseResponse
          else if length (bodyBytes r) > maxResponseBytes then Inl ResponseTooLarge
          else (case parse (bodyBytes r) of
                  None \<Rightarrow> Inl DecodeResponse
                | Some j \<Rightarrow>
                    (case unmarshal dec z j of
                       None \<Rightarrow> Inl DecodeResponse
                     | Some s \<Rightarrow> Inr s)))"

subsection \<open>Runtime spec\<close>

record spec_response = specData :: "(string, json) gomap"

definition specDecoder :: "spec_response decoder" where
  "specDecoder = decStruct
     [(''data'', decRawMap specData (\<lambda>m r. r\<lparr>specData := m\<rparr>))]"

text \<open>The loop over the returned fields that keeps the fork epochs, in canonical decimal.\<close>

definition forkEpochStep ::
  "string \<times> json \<Rightarrow> (string, string) gomap \<Rightarrow> beacon_err + (string, string) gomap" where
  "forkEpochStep = (\<lambda>(name, raw) forkEpochs.
     if \<not> HasSuffix name ''_FORK_EPOCH'' then Inr forkEpochs
     else (case unmarshalString raw of
             None \<Rightarrow> Inl (ParseSpec (NotDecimalString name))
           | Some value \<Rightarrow>
               bindR (wrapE ParseSpec (parseDecimal name value)) (\<lambda>parsedEpoch.
                 Inr (mput name (FormatUint parsedEpoch) forkEpochs))))"

definition specOfResponse :: "(string, json) gomap \<Rightarrow> beacon_err + beacon_spec" where
  "specOfResponse data =
     bindR (wrapE ParseSpec (requiredDecimalField data ''SECONDS_PER_SLOT'')) (\<lambda>secondsPerSlot.
     bindR (wrapE ParseSpec (requiredDecimalField data ''SLOTS_PER_EPOCH'')) (\<lambda>slotsPerEpoch.
       if secondsPerSlot = 0 \<or> slotsPerEpoch = 0 then Inl TimingNotPositive
       else bindR (each forkEpochStep data []) (\<lambda>forkEpochs.
         if length forkEpochs = 0 then Inl NoForkEpochs
         else Inr \<lparr>SecondsPerSlot = secondsPerSlot, SlotsPerEpoch = slotsPerEpoch,
                   ForkEpochs = forkEpochs\<rparr>)))"

definition Client_Spec ::
  "(string \<Rightarrow> http_result) \<Rightarrow> (string \<Rightarrow> json option) \<Rightarrow> beacon_client \<Rightarrow> beacon_err + beacon_spec" where
  "Client_Spec http parse c =
     bindR (wrapE (FetchFailed ''runtime spec'')
         (getJSON http parse c ''/eth/v1/config/spec'' specDecoder \<lparr>specData = []\<rparr>))
       (\<lambda>response. specOfResponse (specData response))"

subsection \<open>Genesis\<close>

record genesis_response =
  rawGenesisTime :: string
  rawValidatorsRoot :: string
  rawForkVersion :: string

definition genesisDecoder :: "genesis_response decoder" where
  "genesisDecoder = decStruct [(''data'', decStruct
     [(''genesis_time'', decString (\<lambda>v r. r\<lparr>rawGenesisTime := v\<rparr>)),
      (''genesis_validators_root'', decString (\<lambda>v r. r\<lparr>rawValidatorsRoot := v\<rparr>)),
      (''genesis_fork_version'', decString (\<lambda>v r. r\<lparr>rawForkVersion := v\<rparr>))])]"

record genesis_header_response =
  rawCanonical :: bool
  rawGenesisSlot :: string

definition genesisHeaderDecoder :: "genesis_header_response decoder" where
  "genesisHeaderDecoder = decStruct [(''data'', decStruct
     [(''canonical'', decBool (\<lambda>v r. r\<lparr>rawCanonical := v\<rparr>)),
      (''header'', decStruct [(''message'', decStruct
         [(''slot'', decString (\<lambda>v r. r\<lparr>rawGenesisSlot := v\<rparr>))])])])]"

definition Client_Genesis ::
  "(string \<Rightarrow> http_result) \<Rightarrow> (string \<Rightarrow> json option) \<Rightarrow> beacon_client \<Rightarrow> beacon_err + beacon_genesis" where
  "Client_Genesis http parse c =
     bindR (wrapE (FetchFailed ''Beacon genesis'')
         (getJSON http parse c ''/eth/v1/beacon/genesis'' genesisDecoder
           \<lparr>rawGenesisTime = [], rawValidatorsRoot = [], rawForkVersion = []\<rparr>)) (\<lambda>response.
     bindR (parseDecimal ''genesis time'' (rawGenesisTime response)) (\<lambda>timestamp.
     bindR (parseRoot ''genesis validators root'' (rawValidatorsRoot response)) (\<lambda>validatorsRoot.
     bindR (parseFixedHex ''genesis fork version'' (rawForkVersion response) 4) (\<lambda>forkVersion.
     bindR (wrapE (FetchFailed ''Beacon genesis header'')
         (getJSON http parse c ''/eth/v1/beacon/headers/genesis'' genesisHeaderDecoder
           \<lparr>rawCanonical = False, rawGenesisSlot = []\<rparr>)) (\<lambda>headerResponse.
       if \<not> rawCanonical headerResponse then Inl GenesisNotCanonical
       else bindR (parseDecimal ''genesis slot'' (rawGenesisSlot headerResponse)) (\<lambda>slot.
         Inr \<lparr>genesisTime = timestamp, genesisSlot = slot, ValidatorsRoot = validatorsRoot,
              ForkVersion = forkVersion\<rparr>))))))"

subsection \<open>Head and finality\<close>

record head_response =
  rawHeadOptimistic :: bool
  rawHeadRoot :: string
  rawHeadCanonical :: bool
  rawHeadSlot :: string
  rawParentRoot :: string
  rawStateRoot :: string

definition headDecoder :: "head_response decoder" where
  "headDecoder = decStruct
     [(''execution_optimistic'', decBool (\<lambda>v r. r\<lparr>rawHeadOptimistic := v\<rparr>)),
      (''data'', decStruct
        [(''root'', decString (\<lambda>v r. r\<lparr>rawHeadRoot := v\<rparr>)),
         (''canonical'', decBool (\<lambda>v r. r\<lparr>rawHeadCanonical := v\<rparr>)),
         (''header'', decStruct [(''message'', decStruct
            [(''slot'', decString (\<lambda>v r. r\<lparr>rawHeadSlot := v\<rparr>)),
             (''parent_root'', decString (\<lambda>v r. r\<lparr>rawParentRoot := v\<rparr>)),
             (''state_root'', decString (\<lambda>v r. r\<lparr>rawStateRoot := v\<rparr>))])])])]"

definition headOfResponse :: "head_response \<Rightarrow> beacon_err + beacon_head" where
  "headOfResponse response =
     (if \<not> rawHeadCanonical response then Inl HeadNotCanonical
      else bindR (parseDecimal ''head slot'' (rawHeadSlot response)) (\<lambda>slot.
           bindR (parseRoot ''head root'' (rawHeadRoot response)) (\<lambda>root.
           bindR (parseRoot ''head parent root'' (rawParentRoot response)) (\<lambda>parentRoot.
           bindR (parseRoot ''head state root'' (rawStateRoot response)) (\<lambda>stateRoot.
             Inr \<lparr>headSlot = slot, headRoot = root, ParentRoot = parentRoot,
                  StateRoot = stateRoot, Canonical = True,
                  headOptimistic = rawHeadOptimistic response\<rparr>)))))"

definition Client_Head ::
  "(string \<Rightarrow> http_result) \<Rightarrow> (string \<Rightarrow> json option) \<Rightarrow> beacon_client \<Rightarrow> beacon_err + beacon_head" where
  "Client_Head http parse c =
     bindR (wrapE (FetchFailed ''Beacon head'')
         (getJSON http parse c ''/eth/v1/beacon/headers/head'' headDecoder
           \<lparr>rawHeadOptimistic = False, rawHeadRoot = [], rawHeadCanonical = False,
            rawHeadSlot = [], rawParentRoot = [], rawStateRoot = []\<rparr>))
       headOfResponse"

record finality_response =
  rawFinalityOptimistic :: bool
  rawFinalityEpoch :: string
  rawFinalityRoot :: string

definition finalityDecoder :: "finality_response decoder" where
  "finalityDecoder = decStruct
     [(''execution_optimistic'', decBool (\<lambda>v r. r\<lparr>rawFinalityOptimistic := v\<rparr>)),
      (''data'', decStruct [(''finalized'', decStruct
         [(''epoch'', decString (\<lambda>v r. r\<lparr>rawFinalityEpoch := v\<rparr>)),
          (''root'', decString (\<lambda>v r. r\<lparr>rawFinalityRoot := v\<rparr>))])])]"

definition Client_Finality ::
  "(string \<Rightarrow> http_result) \<Rightarrow> (string \<Rightarrow> json option) \<Rightarrow> beacon_client \<Rightarrow> string
     \<Rightarrow> beacon_err + beacon_finality" where
  "Client_Finality http parse c stateRoot =
     bindR (parseRoot ''finality state root'' stateRoot) (\<lambda>validatedRoot.
     bindR (wrapE (FetchFailed ''finality checkpoints'')
         (getJSON http parse c (''/eth/v1/beacon/states/'' @ validatedRoot @ ''/finality_checkpoints'')
           finalityDecoder
           \<lparr>rawFinalityOptimistic = False, rawFinalityEpoch = [], rawFinalityRoot = []\<rparr>)) (\<lambda>response.
     bindR (parseDecimal ''finalized epoch'' (rawFinalityEpoch response)) (\<lambda>epoch.
     bindR (parseRoot ''finalized root'' (rawFinalityRoot response)) (\<lambda>root.
       Inr \<lparr>finalityEpoch = epoch, finalityRoot = root,
            finalityOptimistic = rawFinalityOptimistic response\<rparr>))))"

subsection \<open>Validators\<close>

record validator_item =
  rawIndex :: string
  rawStatus :: string
  rawBalance :: string

definition validatorItemDecoder :: "validator_item decoder" where
  "validatorItemDecoder = decStruct
     [(''index'', decString (\<lambda>v r. r\<lparr>rawIndex := v\<rparr>)),
      (''status'', decString (\<lambda>v r. r\<lparr>rawStatus := v\<rparr>)),
      (''validator'', decStruct
         [(''effective_balance'', decString (\<lambda>v r. r\<lparr>rawBalance := v\<rparr>))])]"

definition validatorsDecoder :: "validator_item list decoder" where
  "validatorsDecoder = decStruct
     [(''data'', decSlice \<lparr>rawIndex = [], rawStatus = [], rawBalance = []\<rparr> validatorItemDecoder
         (\<lambda>v _. v))]"

text \<open>One iteration: the validators kept so far; the indices seen are theirs.\<close>

definition validatorStep ::
  "validator_item \<Rightarrow> beacon_validator list \<Rightarrow> beacon_err + beacon_validator list" where
  "validatorStep item validators =
     bindR (parseDecimal ''validator index'' (rawIndex item)) (\<lambda>index.
       if index \<in> set (map validatorIndex validators) then Inl (DuplicateValidator index)
       else bindR (parseDecimal ''validator effective balance'' (rawBalance item)) (\<lambda>effectiveBalance.
         if effectiveBalance = 0 then Inl (ZeroBalance index)
         else if \<not> HasPrefix (rawStatus item) ''active_'' then Inl (NotActive index (rawStatus item))
         else Inr (validators @
           [\<lparr>validatorIndex = index, EffectiveBalance = effectiveBalance,
             validatorStatus = rawStatus item\<rparr>])))"

definition Client_Validators ::
  "(string \<Rightarrow> http_result) \<Rightarrow> (string \<Rightarrow> json option) \<Rightarrow> beacon_client \<Rightarrow> beacon_err + beacon_validator list" where
  "Client_Validators http parse c =
     bindR (wrapE (FetchFailed ''state validators'')
         (getJSON http parse c ''/eth/v1/beacon/states/head/validators'' validatorsDecoder []))
       (\<lambda>items. if length items = 0 then Inl EmptyValidators
                else each validatorStep items [])"

section \<open>Field validation is exact\<close>

fun decimalValue :: "int \<Rightarrow> string \<Rightarrow> int" where
  "decimalValue n [] = n"
| "decimalValue n (c # cs) = decimalValue (n * 10 + (of_char c - 48)) cs"

lemma of_char_digit_nonneg: "isDigit c \<Longrightarrow> 0 \<le> (of_char c - 48 :: int) \<and> (of_char c - 48 :: int) < 10"
proof -
  assume "isDigit c"
  then have "48 \<le> int (code c)" "int (code c) \<le> 57" by (simp_all add: isDigit_def)
  moreover have "(of_char c :: int) = int (code c)" by (simp add: code_def of_nat_of_char)
  ultimately show ?thesis by simp
qed

lemma decimalValue_ge: "0 \<le> n \<Longrightarrow> list_all isDigit s \<Longrightarrow> n \<le> decimalValue n s"
proof (induction s arbitrary: n)
  case Nil
  then show ?case by simp
next
  case (Cons c cs)
  then have d: "0 \<le> (of_char c - 48 :: int)" using of_char_digit_nonneg by simp
  with Cons.prems have "n \<le> n * 10 + (of_char c - 48)" by simp
  moreover from d Cons have "n * 10 + (of_char c - 48) \<le> decimalValue (n * 10 + (of_char c - 48)) cs"
    by simp
  ultimately show ?case by simp
qed

lemma parseDigits_decimal:
  "0 \<le> n \<Longrightarrow> n < 2 ^ 64 \<Longrightarrow> list_all isDigit s \<Longrightarrow>
   parseDigits 10 n s = (if decimalValue n s < 2 ^ 64 then Inr (decimalValue n s) else Inl ErrRange)"
proof (induction s arbitrary: n)
  case Nil
  then show ?case by simp
next
  case (Cons c cs)
  define m where "m = n * 10 + (of_char c - 48 :: int)"
  have c: "isDigit c" "list_all isDigit cs" using Cons.prems by simp_all
  then have d: "0 \<le> (of_char c - 48 :: int)" "(of_char c - 48 :: int) < 10"
    using of_char_digit_nonneg by simp_all
  then have m: "0 \<le> m" using Cons.prems by (simp add: m_def)
  have val: "digitVal c = Some (of_char c - 48)" using c by (simp add: digitVal_def)
  show ?case
  proof (cases "m < 2 ^ 64")
    case True
    with Cons.IH [OF m True c(2)] val d show ?thesis by (simp add: m_def)
  next
    case False
    with decimalValue_ge [OF m c(2)] have "\<not> decimalValue m cs < 2 ^ 64" by linarith
    with False val d show ?thesis by (simp add: m_def)
  qed
qed

lemma parseDecimal_eq:
  "parseDecimal name value =
     (if value = [] then Inl (EmptyDecimal name)
      else if \<not> list_all isDigit value then Inl (NotDecimal name value)
      else if decimalValue 0 value < 2 ^ 64 then Inr (word_of_int (decimalValue 0 value))
      else Inl (DecimalRange name value))"
  by (simp add: parseDecimal_def ParseUint_def parseDigits_decimal)

text \<open>
  a decimal field is accepted exactly when it is a non-empty string of digits whose
  value fits in 64 bits; the accepted number is that value, with no wrap-around, and an
  over-long number is rejected and never truncated.
\<close>

theorem parseDecimal_exact:
  "parseDecimal name v = Inr x \<longleftrightarrow>
     v \<noteq> [] \<and> list_all isDigit v \<and> decimalValue 0 v = uint x"
proof -
  have "0 \<le> decimalValue 0 v" if "list_all isDigit v"
    using decimalValue_ge [of 0 v] that by simp
  moreover have "uint x < 2 ^ 64" using uint_bounded [of x] by simp
  ultimately show ?thesis
    by (auto simp: parseDecimal_eq uint_word_of_int_eq take_bit_int_eq_self)
qed

text \<open>printing a number and validating it again as a decimal field gives the number back.\<close>

theorem parseDecimal_roundtrip: "parseDecimal name (FormatUint x) = Inr x"
proof -
  have "list_all isDigit (FormatUint x)"
    by (auto simp: list_all_iff FormatUint_def intro: formatDigits_digits)
  then show ?thesis
    by (simp add: parseDecimal_def ParseUint_FormatUint) (simp add: FormatUint_def formatDigits_ne)
qed

definition canonicalHex :: "string \<Rightarrow> nat \<Rightarrow> bool" where
  "canonicalHex s n \<longleftrightarrow> HasPrefix s ''0x'' \<and> lowerHexN (drop 2 s) n"

lemma ToLower_0x: "HasPrefix s ''0x'' \<Longrightarrow> ToLower s = ''0x'' @ ToLower (drop 2 s)"
proof -
  assume "HasPrefix s ''0x''"
  then obtain t where "s = ''0x'' @ t" by (auto simp: HasPrefix_iff)
  moreover have "ToLower ''0x'' = ''0x''"
    by (simp add: ToLower_def lowerChar_def isUpper_def code_def)
  ultimately show ?thesis by (simp add: ToLower_def)
qed

lemma parseFixedHex_Inr:
  assumes "parseFixedHex name v n = Inr r"
  shows "canonicalHex r (2 * n) \<and> r = ToLower v"
proof -
  from assms have v: "length v = 2 + n * 2" "HasPrefix v ''0x''" "list_all isHex (drop 2 v)"
    and r: "r = ToLower v"
    by (auto simp: parseFixedHex_def hexDecodes_def split: if_splits)
  then have "r = ''0x'' @ ToLower (drop 2 v)" by (simp add: ToLower_0x)
  moreover have "list_all isHexLower (ToLower (drop 2 v))"
    using v(3) by (auto simp: ToLower_def list_all_iff intro: lowerChar_hex)
  ultimately show ?thesis
    using v(1) r by (simp add: canonicalHex_def lowerHexN_def ToLower_def HasPrefix_def)
qed

lemma parseFixedHex_canonical:
  assumes "canonicalHex v (2 * n)" shows "parseFixedHex name v n = Inr v"
proof -
  from assms have v: "HasPrefix v ''0x''" "length (drop 2 v) = 2 * n"
      "list_all isHexLower (drop 2 v)"
    by (simp_all add: canonicalHex_def lowerHexN_def)
  from v(1) have vv: "v = ''0x'' @ drop 2 v" by (auto simp: HasPrefix_iff)
  have len: "length v = 2 + n * 2" by (subst vv) (use v(2) in simp)
  have "ToLower (drop 2 v) = drop 2 v"
    using v(3) by (simp add: ToLower_def list_all_iff map_idI lowerChar_id)
  then have "ToLower v = v" using v(1) vv by (simp add: ToLower_0x)
  moreover have "list_all isHex (drop 2 v)"
    using v(3) by (auto simp: list_all_iff isHexLower_isHex)
  ultimately show ?thesis
    using len v(1,2) by (simp add: parseFixedHex_def hexDecodes_def)
qed

section \<open>What the reads guarantee\<close>

lemma Spec_Compatible_refl: "gomap (ForkEpochs s) \<Longrightarrow> Spec_Compatible s s"
  by (auto simp: Spec_Compatible_def list_all_iff map_of_Some_iff [symmetric] split: option.splits)

lemma Spec_Compatible_iff:
  assumes "gomap (ForkEpochs s)"
  shows "Spec_Compatible s t \<longleftrightarrow>
     SecondsPerSlot s = SecondsPerSlot t \<and> SlotsPerEpoch s = SlotsPerEpoch t \<and>
     (\<forall>name e e'. map_of (ForkEpochs s) name = Some e \<longrightarrow> map_of (ForkEpochs t) name = Some e' \<longrightarrow> e = e')"
  using assms by (fastforce simp: Spec_Compatible_def list_all_iff map_of_Some_iff split: option.splits)

lemma Spec_Compatible_sym:
  "gomap (ForkEpochs s) \<Longrightarrow> gomap (ForkEpochs t) \<Longrightarrow> Spec_Compatible s t \<longleftrightarrow> Spec_Compatible t s"
  by (simp add: Spec_Compatible_iff) metis

definition forkEpochsOk :: "(string, string) gomap \<Rightarrow> bool" where
  "forkEpochsOk m \<longleftrightarrow> gomap m \<and>
     (\<forall>(name, epoch) \<in> set m. HasSuffix name ''_FORK_EPOCH'' \<and> (\<exists>x. epoch = FormatUint x))"

lemma set_mput: "gomap m \<Longrightarrow> set (mput k v m) = insert (k, v) {p \<in> set m. fst p \<noteq> k}"
proof -
  assume m: "gomap m"
  have "(a, b) \<in> set (mput k v m) \<longleftrightarrow> (a, b) \<in> insert (k, v) {p \<in> set m. fst p \<noteq> k}" for a b
    using m gomap_mput [OF m, of k v] by (auto simp: map_of_Some_iff [symmetric] split: if_splits)
  then show ?thesis by auto
qed

lemma forkEpochStep_ok:
  "forkEpochStep p m = Inr m' \<Longrightarrow> forkEpochsOk m \<Longrightarrow> forkEpochsOk m'"
  by (cases p) (auto simp: forkEpochStep_def forkEpochsOk_def result_simps set_mput
      split: if_splits option.splits)

text \<open>
  C40: a runtime spec that the client returns has positive timing constants and at least one
  fork epoch, and every fork epoch is stored under a name ending in \<^verbatim>\<open>_FORK_EPOCH\<close> in
  canonical decimal, whatever else the endpoint sent.
\<close>

theorem Client_Spec_ok:
  assumes "Client_Spec http parse c = Inr s"
  shows "0 < SecondsPerSlot s \<and> 0 < SlotsPerEpoch s \<and> ForkEpochs s \<noteq> [] \<and> forkEpochsOk (ForkEpochs s)"
proof -
  from assms obtain data forkEpochs sps spe where
    e: "each forkEpochStep data [] = Inr forkEpochs" and ne: "forkEpochs \<noteq> []"
    and pos: "sps \<noteq> 0" "spe \<noteq> 0"
    and s: "s = \<lparr>SecondsPerSlot = sps, SlotsPerEpoch = spe, ForkEpochs = forkEpochs\<rparr>"
    by (auto simp: Client_Spec_def specOfResponse_def result_simps split: if_splits)
  have "forkEpochsOk forkEpochs"
    by (rule each_inv [OF e, where I = "\<lambda>_. forkEpochsOk"])
      (auto simp: forkEpochsOk_def [of "[]"] intro: forkEpochStep_ok)
  with ne pos s show ?thesis by (simp add: word_gt_0)
qed

text \<open>
  a head that the client returns is canonical and all its roots are 32-byte lower-case
  hexadecimal values, so the state root is accepted unchanged by the finality read that
  follows it in every poll.
\<close>

theorem Client_Head_ok:
  assumes "Client_Head http parse c = Inr h"
  shows "Canonical h \<and> canonicalHex (headRoot h) 64 \<and> canonicalHex (ParentRoot h) 64 \<and>
         canonicalHex (StateRoot h) 64 \<and> parseRoot name (StateRoot h) = Inr (StateRoot h)"
  using assms
  by (auto simp: Client_Head_def headOfResponse_def parseRoot_def result_simps
      dest!: parseFixedHex_Inr split: if_splits intro!: parseFixedHex_canonical)

definition validatorsOk :: "beacon_validator list \<Rightarrow> bool" where
  "validatorsOk vs \<longleftrightarrow> distinct (map validatorIndex vs) \<and>
     (\<forall>v \<in> set vs. 0 < EffectiveBalance v \<and> HasPrefix (validatorStatus v) ''active_'')"

lemma validatorStep_ok:
  "validatorStep item vs = Inr vs' \<Longrightarrow> validatorsOk vs \<Longrightarrow>
   validatorsOk vs' \<and> length vs' = Suc (length vs)"
  by (auto simp: validatorStep_def validatorsOk_def result_simps word_gt_0 split: if_splits)

text \<open>
  the validators of a successful read are at least one, with distinct indices, positive
  effective balances and an active status.
\<close>

theorem Client_Validators_ok:
  assumes "Client_Validators http parse c = Inr vs"
  shows "vs \<noteq> [] \<and> validatorsOk vs"
proof -
  from assms obtain items where e: "each validatorStep items [] = Inr vs" and "items \<noteq> []"
    by (auto simp: Client_Validators_def result_simps split: if_splits)
  have "validatorsOk vs \<and> length vs = length items"
    by (rule each_inv [OF e, where I = "\<lambda>ys vs. validatorsOk vs \<and> length vs = length ys"])
      (auto simp: validatorsOk_def [of "[]"] dest: validatorStep_ok)
  with \<open>items \<noteq> []\<close> show ?thesis by auto
qed

end
