(* ===== verification/Execution.thy ===== *)
theory Execution
  imports Beacon
begin

text \<open>
  The execution client (\<^verbatim>\<open>internal/execution/client.go\<close>): quantities and hashes of the
  JSON-RPC interface, the chain-id request and the \<^verbatim>\<open>newHeads\<close> subscription loop. The
  WebSocket is the sequence of messages it delivers; the loop runs the receiver on each
  notification and always ends with an error.
\<close>

section \<open>Heads and their fields\<close>

record exec_head =
  headNumber :: u64
  headHash :: string
  headParentHash :: string

datatype (plugins only: code size) exec_err =
    QuantityPrefix string
  | QuantityLeadingZero string string
  | QuantityParse string string
  | HashFormat string
  | HashHexDigits string
  | HandshakeTimeoutNotPositive
  | WsEndpointParse
  | WsEndpointScheme string
  | WsEndpointHost
  | WsEndpointUser
  | WsEndpointQuery
  | NilReceiver
  | DialFailed bool
  | WriteFailed
  | ReadFailed
  | DecodeFailed
  | RpcRejected
  | RpcInvalid
  | NotificationInvalid
  | SubscriptionMismatch string string
  | ReceiverFailed
  | CloseWebSocket
  | JoinErr exec_err exec_err

definition parseQuantity :: "string \<Rightarrow> string \<Rightarrow> exec_err + u64" where
  "parseQuantity name v =
     (if \<not> HasPrefix v ''0x'' \<or> length v < 3 then Inl (QuantityPrefix name)
      else let digits = drop 2 v in
        if 1 < length digits \<and> hd digits = CHR ''0'' then Inl (QuantityLeadingZero name v)
        else (case ParseUint 16 digits of
                Inl _ \<Rightarrow> Inl (QuantityParse name v)
              | Inr parsed \<Rightarrow> Inr parsed))"

definition parseHash :: "string \<Rightarrow> string \<Rightarrow> exec_err + string" where
  "parseHash name v =
     (if length v \<noteq> 66 \<or> \<not> HasPrefix v ''0x'' then Inl (HashFormat name)
      else if \<not> hexDecodes (drop 2 v) then Inl (HashHexDigits name)
      else Inr (ToLower v))"

record exec_client =
  wsEndpoint :: endpoint
  handshakeTimeout :: int

definition Execution_NewClient :: "(string \<Rightarrow> endpoint option) \<Rightarrow> string \<Rightarrow> int \<Rightarrow> exec_err + exec_client" where
  "Execution_NewClient urlParse rawEndpoint timeout =
     (if timeout \<le> 0 then Inl HandshakeTimeoutNotPositive
      else case urlParse rawEndpoint of
        None \<Rightarrow> Inl WsEndpointParse
      | Some e \<Rightarrow>
          if urlScheme e \<noteq> ''ws'' \<and> urlScheme e \<noteq> ''wss'' then Inl (WsEndpointScheme (urlScheme e))
          else if urlHost e = [] then Inl WsEndpointHost
          else if urlHasUser e then Inl WsEndpointUser
          else if urlRawQuery e \<noteq> [] \<or> urlFragment e \<noteq> [] then Inl WsEndpointQuery
          else Inr \<lparr>wsEndpoint = e, handshakeTimeout = timeout\<rparr>)"

section \<open>Responses and notifications\<close>

record rpc_response =
  rpcVersion :: string
  rpcID :: u64
  rpcResult :: string
  rpcError :: "json option"

definition rpcDecoder :: "rpc_response decoder" where
  "rpcDecoder = decStruct
     [(''jsonrpc'', decString (\<lambda>v r. r\<lparr>rpcVersion := v\<rparr>)),
      (''id'', decUint64 (\<lambda>v r. r\<lparr>rpcID := v\<rparr>)),
      (''result'', decString (\<lambda>v r. r\<lparr>rpcResult := v\<rparr>)),
      (''error'', decRaw (\<lambda>v r. r\<lparr>rpcError := Some v\<rparr>))]"

definition emptyRpc :: rpc_response where
  "emptyRpc = \<lparr>rpcVersion = [], rpcID = 0, rpcResult = [], rpcError = None\<rparr>"

definition rpcHasError :: "rpc_response \<Rightarrow> bool" where
  "rpcHasError r \<longleftrightarrow> rpcError r \<noteq> None \<and> rpcError r \<noteq> Some JNull"

definition decodeMessage :: "(string \<Rightarrow> json option) \<Rightarrow> 's decoder \<Rightarrow> 's \<Rightarrow> string \<Rightarrow> 's option" where
  "decodeMessage parse dec z message = Option.bind (parse message) (unmarshal dec z)"

text \<open>The dialled connection: whether the upgrade fails, whether the request can be written, the messages.\<close>

record ws_session =
  dialFails :: "bool option"
  writeFails :: bool
  messages :: "string list"
  wsCloseFails :: bool

definition ChainID :: "(string \<Rightarrow> json option) \<Rightarrow> ws_session \<Rightarrow> exec_err + u64" where
  "ChainID parse ws =
     (case dialFails ws of Some hasResponse \<Rightarrow> Inl (DialFailed hasResponse) | None \<Rightarrow>
      if writeFails ws then Inl WriteFailed
      else (case messages ws of
        [] \<Rightarrow> Inl ReadFailed
      | message # _ \<Rightarrow>
          (case decodeMessage parse rpcDecoder emptyRpc message of
             None \<Rightarrow> Inl DecodeFailed
           | Some r \<Rightarrow>
               if rpcHasError r then Inl RpcRejected
               else if rpcVersion r \<noteq> ''2.0'' \<or> rpcID r \<noteq> 1 then Inl RpcInvalid
               else parseQuantity ''chain ID'' (rpcResult r))))"

definition readSubscriptionResponse ::
  "(string \<Rightarrow> json option) \<Rightarrow> string list \<Rightarrow> exec_err + string \<times> string list" where
  "readSubscriptionResponse parse msgs =
     (case msgs of
        [] \<Rightarrow> Inl ReadFailed
      | message # rest \<Rightarrow>
          (case decodeMessage parse rpcDecoder emptyRpc message of
             None \<Rightarrow> Inl DecodeFailed
           | Some r \<Rightarrow>
               if rpcHasError r then Inl RpcRejected
               else if rpcVersion r \<noteq> ''2.0'' \<or> rpcID r \<noteq> 1 \<or> rpcResult r = [] then Inl RpcInvalid
               else Inr (rpcResult r, rest)))"

record notification =
  ntVersion :: string
  ntMethod :: string
  ntSubscription :: string
  ntNumber :: string
  ntHash :: string
  ntParentHash :: string

definition notificationDecoder :: "notification decoder" where
  "notificationDecoder = decStruct
     [(''jsonrpc'', decString (\<lambda>v r. r\<lparr>ntVersion := v\<rparr>)),
      (''method'', decString (\<lambda>v r. r\<lparr>ntMethod := v\<rparr>)),
      (''params'', decStruct
        [(''subscription'', decString (\<lambda>v r. r\<lparr>ntSubscription := v\<rparr>)),
         (''result'', decStruct
           [(''number'', decString (\<lambda>v r. r\<lparr>ntNumber := v\<rparr>)),
            (''hash'', decString (\<lambda>v r. r\<lparr>ntHash := v\<rparr>)),
            (''parentHash'', decString (\<lambda>v r. r\<lparr>ntParentHash := v\<rparr>))])])]"

definition emptyNotification :: notification where
  "emptyNotification = \<lparr>ntVersion = [], ntMethod = [], ntSubscription = [], ntNumber = [],
     ntHash = [], ntParentHash = []\<rparr>"

definition parseNotification ::
  "(string \<Rightarrow> json option) \<Rightarrow> string \<Rightarrow> exec_err + exec_head \<times> string" where
  "parseNotification parse message =
     (case decodeMessage parse notificationDecoder emptyNotification message of
        None \<Rightarrow> Inl DecodeFailed
      | Some n \<Rightarrow>
          if ntVersion n \<noteq> ''2.0'' \<or> ntMethod n \<noteq> ''eth_subscription'' \<or> ntSubscription n = []
          then Inl NotificationInvalid
          else bindR (parseQuantity ''head number'' (ntNumber n)) (\<lambda>number.
               bindR (parseHash ''head hash'' (ntHash n)) (\<lambda>hash.
               bindR (parseHash ''head parent hash'' (ntParentHash n)) (\<lambda>parentHash.
                 Inr (\<lparr>headNumber = number, headHash = hash, headParentHash = parentHash\<rparr>,
                      ntSubscription n)))))"

text \<open>
  The receive loop over the messages that arrive; the end of the list is the read that
  fails (connection lost, or the context cancelled).
\<close>

fun receiveLoop ::
  "(string \<Rightarrow> json option) \<Rightarrow> string \<Rightarrow> (exec_head \<Rightarrow> 's \<Rightarrow> bool \<times> 's) \<Rightarrow> string list \<Rightarrow> 's
     \<Rightarrow> exec_err \<times> 's" where
  "receiveLoop parse subscriptionID receive [] s = (ReadFailed, s)"
| "receiveLoop parse subscriptionID receive (message # msgs) s =
     (case parseNotification parse message of
        Inl e \<Rightarrow> (e, s)
      | Inr (head, sub) \<Rightarrow>
          if sub \<noteq> subscriptionID then (SubscriptionMismatch sub subscriptionID, s)
          else (case receive head s of
                  (True, s') \<Rightarrow> receiveLoop parse subscriptionID receive msgs s'
                | (False, s') \<Rightarrow> (ReceiverFailed, s')))"

definition SubscribeNewHeads ::
  "(string \<Rightarrow> json option) \<Rightarrow> ws_session \<Rightarrow> (exec_head \<Rightarrow> 's \<Rightarrow> bool \<times> 's) option \<Rightarrow> 's \<Rightarrow> exec_err \<times> 's" where
  "SubscribeNewHeads parse ws receiver s =
     (case receiver of None \<Rightarrow> (NilReceiver, s) | Some receive \<Rightarrow>
      (case dialFails ws of Some hasResponse \<Rightarrow> (DialFailed hasResponse, s) | None \<Rightarrow>
        (let (err, s') =
           (if writeFails ws then (WriteFailed, s)
            else (case readSubscriptionResponse parse (messages ws) of
                    Inl e \<Rightarrow> (e, s)
                  | Inr (subscriptionID, rest) \<Rightarrow> receiveLoop parse subscriptionID receive rest s))
         in (if wsCloseFails ws then JoinErr err CloseWebSocket else err, s'))))"

section \<open>Validation\<close>

lemma parseHash_eq: "parseHash name v = Inr h \<longleftrightarrow> parseFixedHex name v 32 = Inr h"
  by (auto simp: parseHash_def parseFixedHex_def)

lemma parseHash_Inr: "parseHash name v = Inr h \<Longrightarrow> canonicalHex h 64 \<and> h = ToLower v"
  using parseFixedHex_Inr [of name v 32 h] by (auto simp: parseHash_eq)

text \<open>The heads for which the receiver has been called, in order, when it always succeeds.\<close>

fun validHeads :: "(string \<Rightarrow> json option) \<Rightarrow> string \<Rightarrow> string list \<Rightarrow> exec_head list" where
  "validHeads parse subscriptionID [] = []"
| "validHeads parse subscriptionID (message # msgs) =
     (case parseNotification parse message of
        Inl e \<Rightarrow> []
      | Inr (head, sub) \<Rightarrow>
          if sub \<noteq> subscriptionID then [] else head # validHeads parse subscriptionID msgs)"

text \<open>Running the receiver over a list of heads, stopping at its first failure.\<close>

fun receiveAll :: "(exec_head \<Rightarrow> 's \<Rightarrow> bool \<times> 's) \<Rightarrow> exec_head list \<Rightarrow> 's \<Rightarrow> 's" where
  "receiveAll receive [] s = s"
| "receiveAll receive (h # hs) s =
     (case receive h s of (True, s') \<Rightarrow> receiveAll receive hs s' | (False, s') \<Rightarrow> s')"

lemma receiveLoop_heads:
  "snd (receiveLoop parse sid receive msgs s) = receiveAll receive (validHeads parse sid msgs) s"
  by (induction msgs arbitrary: s) (auto split: sum.splits prod.splits bool.splits)

text \<open>
  the subscription loop hands the receiver exactly the heads of the longest prefix of
  valid notifications that carry the subscription's own id, in order, and stops at the
  first message that is malformed or belongs to another subscription, or when the receiver
  fails.
\<close>

theorem receiveLoop_state:
  "snd (receiveLoop parse sid receive msgs s) = receiveAll receive (validHeads parse sid msgs) s"
  by (rule receiveLoop_heads)

lemma parseNotification_ok:
  "parseNotification parse m = Inr (h, sub) \<Longrightarrow>
   canonicalHex (headHash h) 64 \<and> canonicalHex (headParentHash h) 64 \<and> sub \<noteq> []"
  by (auto simp: parseNotification_def result_simps dest!: parseHash_Inr split: option.splits if_splits)

text \<open>
  every head that reaches the receiver has 32-byte lower-case hexadecimal hashes, so
  comparing hashes as strings, as the reorg tracker does, compares the hash values.
\<close>

theorem validHeads_canonical:
  "h \<in> set (validHeads parse sid msgs) \<Longrightarrow>
     canonicalHex (headHash h) 64 \<and> canonicalHex (headParentHash h) 64"
  by (induction msgs) (auto split: sum.splits prod.splits if_splits dest: parseNotification_ok parseNotification_ok [OF sym])

text \<open>A client of a chain-id response needs the quantity format; both forms of a bad one fail.\<close>

lemma parseQuantity_no_leading_zero:
  "parseQuantity name (''0x0'' @ d # ds) = Inl (QuantityLeadingZero name (''0x0'' @ d # ds))"
  by (simp add: parseQuantity_def HasPrefix_def)

end
