(* ===== verification/Reorg.thy ===== *)
theory Reorg
  imports Execution
begin

text \<open>
  The execution reorg tracker (\<^verbatim>\<open>internal/observer/reorg.go\<close>): a bounded history of
  canonical heads of one target, extended, cut back to a known ancestor or reset by each
  new head.
\<close>

section \<open>State and operations\<close>

record reorg_observation =
  reorgTimestamp :: time
  reorgTarget :: string
  PreviousHead :: exec_head
  NewHead :: exec_head
  Depth :: "u64 option"

datatype (plugins only: code size) gap_error = NotSuccessor | Skipped u64 u64

record reorg_result =
  rrReorg :: "reorg_observation option"
  rrContinuity :: bool
  rrGapOperation :: string
  rrGapError :: "gap_error option"

record reorg_tracker =
  trTarget :: string
  trHistoryLimit :: int
  canonical :: "exec_head list"

datatype (plugins only: code size) reorg_err = EmptyTargetName | HistoryLimitTooSmall

definition NewReorgTracker :: "string \<Rightarrow> int \<Rightarrow> reorg_err + reorg_tracker" where
  "NewReorgTracker target historyLimit =
     (if target = [] then Inl EmptyTargetName
      else if historyLimit < 2 then Inl HistoryLimitTooSmall
      else Inr \<lparr>trTarget = target, trHistoryLimit = historyLimit, canonical = []\<rparr>)"

definition continues :: reorg_result where
  "continues = \<lparr>rrReorg = None, rrContinuity = True, rrGapOperation = [], rrGapError = None\<rparr>"

definition gapResult :: "gap_error \<Rightarrow> reorg_result" where
  "gapResult e = \<lparr>rrReorg = None, rrContinuity = False,
     rrGapOperation = ''execution_continuity'', rrGapError = Some e\<rparr>"

definition reorgResult :: "reorg_tracker \<Rightarrow> exec_head \<Rightarrow> exec_head \<Rightarrow> u64 option \<Rightarrow> bool \<Rightarrow> reorg_result" where
  "reorgResult t tip head depth continuity =
     \<lparr>rrReorg = Some \<lparr>reorgTimestamp = zeroTime, reorgTarget = trTarget t, PreviousHead = tip,
                     NewHead = head, Depth = depth\<rparr>,
      rrContinuity = continuity, rrGapOperation = [], rrGapError = None\<rparr>"

text \<open>The last index with the given hash, or \<open>None\<close> for the source's -1.\<close>

fun lastIndexUpTo :: "exec_head list \<Rightarrow> string \<Rightarrow> nat \<Rightarrow> nat option" where
  "lastIndexUpTo hs hash 0 = None"
| "lastIndexUpTo hs hash (Suc index) =
     (if headHash (hs ! index) = hash then Some index else lastIndexUpTo hs hash index)"

definition canonicalIndex :: "reorg_tracker \<Rightarrow> string \<Rightarrow> nat option" where
  "canonicalIndex t hash = lastIndexUpTo (canonical t) hash (length (canonical t))"

definition tracker_trim :: "reorg_tracker \<Rightarrow> reorg_tracker" where
  "tracker_trim t =
     (if int (length (canonical t)) \<le> trHistoryLimit t then t
      else t\<lparr>canonical := drop (length (canonical t) - nat (trHistoryLimit t)) (canonical t)\<rparr>)"

definition appendCanonical :: "exec_head \<Rightarrow> reorg_tracker \<Rightarrow> reorg_tracker" where
  "appendCanonical head t = tracker_trim (t\<lparr>canonical := canonical t @ [head]\<rparr>)"

definition tracker_reset :: "exec_head \<Rightarrow> reorg_tracker \<Rightarrow> reorg_tracker" where
  "tracker_reset head t = t\<lparr>canonical := [head]\<rparr>"

definition Tracker_Observe :: "exec_head \<Rightarrow> reorg_tracker \<Rightarrow> reorg_result \<times> reorg_tracker" where
  "Tracker_Observe head t =
     (if canonical t = [] then (continues, t\<lparr>canonical := canonical t @ [head]\<rparr>)
      else let tip = last (canonical t) in
        if headHash head = headHash tip then (continues, t)
        else if headNumber tip \<noteq> MaxUint64 \<and> headNumber head = headNumber tip + 1 \<and>
                headParentHash head = headHash tip
        then (continues, appendCanonical head t)
        else (case canonicalIndex t (headParentHash head) of
          Some parentIndex \<Rightarrow>
            (let parent = canonical t ! parentIndex in
             if headNumber parent > headNumber tip \<or> headNumber parent = MaxUint64 \<or>
                headNumber head \<noteq> headNumber parent + 1
             then (gapResult NotSuccessor, tracker_reset head t)
             else (let depth = headNumber tip - headNumber parent;
                       t' = tracker_trim (t\<lparr>canonical := take (parentIndex + 1) (canonical t) @ [head]\<rparr>)
                   in (reorgResult t tip head (Some depth) True, t')))
        | None \<Rightarrow>
            if headNumber tip \<noteq> MaxUint64 \<and> headNumber head > headNumber tip + 1
            then (gapResult (Skipped (headNumber tip) (headNumber head)), tracker_reset head t)
            else (reorgResult t tip head None False, tracker_reset head t)))"

section \<open>Invariant\<close>

text \<open>Each head of the history is the child of the one before it.\<close>

definition childOf :: "exec_head \<Rightarrow> exec_head \<Rightarrow> bool" where
  "childOf parent head \<longleftrightarrow> headParentHash head = headHash parent \<and>
     unat (headNumber head) = unat (headNumber parent) + 1"

fun chained :: "exec_head list \<Rightarrow> bool" where
  "chained (a # b # hs) \<longleftrightarrow> childOf a b \<and> chained (b # hs)"
| "chained hs \<longleftrightarrow> True"

definition tracker_inv :: "reorg_tracker \<Rightarrow> bool" where
  "tracker_inv t \<longleftrightarrow> 2 \<le> trHistoryLimit t \<and> trTarget t \<noteq> [] \<and>
     int (length (canonical t)) \<le> trHistoryLimit t \<and> chained (canonical t)"

lemma chained_append:
  "chained (xs @ ys) \<longleftrightarrow>
     chained xs \<and> chained ys \<and> (xs = [] \<or> ys = [] \<or> childOf (last xs) (hd ys))"
proof (induction xs rule: induct_list012)
  case (2 x)
  then show ?case by (cases ys) auto
qed auto

lemma chained_take: "chained xs \<Longrightarrow> chained (take n xs)"
  by (metis append_take_drop_id chained_append)

lemma chained_drop: "chained xs \<Longrightarrow> chained (drop n xs)"
  by (metis append_take_drop_id chained_append)

text \<open>The block numbers of a chained history count up by one from its first head.\<close>

lemma chained_number:
  "chained xs \<Longrightarrow> i < length xs \<Longrightarrow> unat (headNumber (xs ! i)) = unat (headNumber (xs ! 0)) + i"
proof (induction xs arbitrary: i rule: chained.induct)
  case (1 a b hs)
  then show ?case by (cases i) (auto simp: childOf_def)
qed auto

lemma lastIndexUpTo_Some:
  "lastIndexUpTo hs hash n = Some i \<Longrightarrow>
     i < n \<and> headHash (hs ! i) = hash \<and> (\<forall>j. i < j \<longrightarrow> j < n \<longrightarrow> headHash (hs ! j) \<noteq> hash)"
  by (induction n) (auto simp: less_Suc_eq split: if_splits)

lemma lastIndexUpTo_None:
  "lastIndexUpTo hs hash n = None \<longleftrightarrow> (\<forall>j < n. headHash (hs ! j) \<noteq> hash)"
  by (induction n) (auto simp: less_Suc_eq)

lemma canonicalIndex_Some:
  "canonicalIndex t hash = Some i \<Longrightarrow>
     i < length (canonical t) \<and> headHash (canonical t ! i) = hash"
  by (auto simp: canonicalIndex_def dest: lastIndexUpTo_Some)

lemma canonicalIndex_None:
  "canonicalIndex t hash = None \<longleftrightarrow> hash \<notin> headHash ` set (canonical t)"
  unfolding canonicalIndex_def lastIndexUpTo_None by (metis image_iff in_set_conv_nth)

lemma tracker_trim_inv:
  "2 \<le> trHistoryLimit t \<Longrightarrow> trTarget t \<noteq> [] \<Longrightarrow> chained (canonical t) \<Longrightarrow> tracker_inv (tracker_trim t)"
  by (auto simp: tracker_trim_def tracker_inv_def chained_drop)

lemma trim_keeps_last:
  "2 \<le> trHistoryLimit t \<Longrightarrow> canonical t \<noteq> [] \<Longrightarrow>
   canonical (tracker_trim t) \<noteq> [] \<and> last (canonical (tracker_trim t)) = last (canonical t)"
  by (auto simp: tracker_trim_def)

lemma trim_fields [simp]:
  "trHistoryLimit (tracker_trim t) = trHistoryLimit t" "trTarget (tracker_trim t) = trTarget t"
  by (simp_all add: tracker_trim_def)

lemma unat_succ64: "(x :: u64) \<noteq> MaxUint64 \<Longrightarrow> unat (x + 1) = unat x + 1"
proof -
  assume "x \<noteq> MaxUint64"
  then have "unat x \<noteq> unat (MaxUint64 :: u64)" by (metis word_unat_eq_iff)
  then have "unat x + unat (1 :: u64) < 2 ^ 64"
    using unat_le_max64 [of x] by (simp add: word_simps)
  then show ?thesis by (subst unat_add64) simp_all
qed

lemmas observe_simps = Tracker_Observe_def continues_def gapResult_def reorgResult_def
  tracker_reset_def appendCanonical_def Let_def

lemma Observe_fields [simp]:
  "trHistoryLimit (snd (Tracker_Observe head t)) = trHistoryLimit t"
  "trTarget (snd (Tracker_Observe head t)) = trTarget t"
  by (auto simp: observe_simps split: option.splits)

lemma NewReorgTracker_inv: "NewReorgTracker target n = Inr t \<Longrightarrow> tracker_inv t \<and> canonical t = []"
  by (auto simp: NewReorgTracker_def tracker_inv_def split: if_splits)

lemma parent_bound:
  assumes "chained (canonical t)" "i < length (canonical t)"
  shows "headNumber (canonical t ! i) \<le> headNumber (last (canonical t))"
proof -
  have "canonical t \<noteq> []" using assms(2) by auto
  with chained_number [OF assms(1), of i] chained_number [OF assms(1), of "length (canonical t) - 1"] assms(2)
  show ?thesis by (simp add: last_conv_nth word_le_nat_alt)
qed

lemma Observe_inv:
  assumes "tracker_inv t"
  shows "tracker_inv (snd (Tracker_Observe head t))"
proof (cases "canonical t = []")
  case True
  with assms show ?thesis by (simp add: observe_simps tracker_inv_def)
next
  case False
  have inv: "2 \<le> trHistoryLimit t" "trTarget t \<noteq> []" "chained (canonical t)"
    using assms by (simp_all add: tracker_inv_def)
  have reset: "tracker_inv (t\<lparr>canonical := [head]\<rparr>)" using inv by (simp add: tracker_inv_def)
  have grow: "tracker_inv (tracker_trim (t\<lparr>canonical := hs @ [head]\<rparr>))"
    if "chained hs" "hs \<noteq> []" "childOf (last hs) head" for hs
    using that inv by (intro tracker_trim_inv) (simp_all add: chained_append)
  have child: "childOf p head"
    if "headNumber p \<noteq> MaxUint64" "headNumber head = headNumber p + 1" "headParentHash head = headHash p" for p
    using that by (simp add: childOf_def unat_succ64)
  have cut: "tracker_inv (tracker_trim (t\<lparr>canonical := take (i + 1) (canonical t) @ [head]\<rparr>))"
    if "canonicalIndex t (headParentHash head) = Some i" "headNumber (canonical t ! i) \<noteq> MaxUint64"
      "headNumber head = headNumber (canonical t ! i) + 1" for i
  proof (rule grow)
    from that(1) have i: "i < length (canonical t)" "headHash (canonical t ! i) = headParentHash head"
      by (auto dest: canonicalIndex_Some)
    then have "take (i + 1) (canonical t) = take i (canonical t) @ [canonical t ! i]"
      by (simp add: take_Suc_conv_app_nth)
    then show "childOf (last (take (i + 1) (canonical t))) head" using i that child by simp
    show "chained (take (i + 1) (canonical t))" using inv by (simp add: chained_take)
    show "take (i + 1) (canonical t) \<noteq> []" using False by simp
  qed
  show ?thesis
    using False assms reset grow [OF inv(3) False] child [of "last (canonical t)"] cut
    by (auto simp: observe_simps split: option.splits)
qed

text \<open>The tracker after a sequence of heads.\<close>

definition observeAll :: "exec_head list \<Rightarrow> reorg_tracker \<Rightarrow> reorg_tracker" where
  "observeAll heads t = foldl (\<lambda>t head. snd (Tracker_Observe head t)) t heads"

lemma observeAll_inv:
  "tracker_inv t \<Longrightarrow> tracker_inv (observeAll heads t) \<and>
     trHistoryLimit (observeAll heads t) = trHistoryLimit t \<and> trTarget (observeAll heads t) = trTarget t"
  unfolding observeAll_def by (induction heads arbitrary: t) (auto simp: Observe_inv)

text \<open>
  C29: whatever heads arrive, the tracker's history stays a chain of parent-linked heads
  with consecutive numbers, no longer than the limit it was created with.
\<close>

theorem tracker_history:
  assumes "NewReorgTracker target limit = Inr t"
  shows "chained (canonical (observeAll heads t)) \<and>
    int (length (canonical (observeAll heads t))) \<le> limit \<and> trTarget (observeAll heads t) = target"
proof -
  have "trHistoryLimit t = limit" "trTarget t = target"
    using assms(1) by (auto simp: NewReorgTracker_def split: if_splits)
  then show ?thesis
    using observeAll_inv [of t heads] NewReorgTracker_inv [OF assms] by (simp add: tracker_inv_def)
qed

lemma depth_of_reorg:
  assumes "tracker_inv t"
    and "rrReorg (fst (Tracker_Observe head t)) = Some r" and "Depth r = Some d"
  shows "\<exists>i. canonicalIndex t (headParentHash head) = Some i \<and>
     unat d = length (canonical t) - 1 - i \<and> PreviousHead r = last (canonical t) \<and>
     NewHead r = head \<and> unat (headNumber head) = unat (headNumber (last (canonical t))) - unat d + 1"
proof -
  have ne: "canonical t \<noteq> []" using assms(2) by (auto simp: observe_simps)
  have ch: "chained (canonical t)" using assms(1) by (simp add: tracker_inv_def)
  from assms(2,3) ne obtain i where i: "canonicalIndex t (headParentHash head) = Some i"
    and d: "d = headNumber (last (canonical t)) - headNumber (canonical t ! i)"
    and n: "headNumber (canonical t ! i) \<noteq> MaxUint64" "headNumber head = headNumber (canonical t ! i) + 1"
    and r: "PreviousHead r = last (canonical t)" "NewHead r = head"
    by (auto simp: observe_simps split: option.splits if_splits)
  from i have il: "i < length (canonical t)" by (auto dest: canonicalIndex_Some)
  have "unat d = unat (headNumber (last (canonical t))) - unat (headNumber (canonical t ! i))"
    unfolding d using parent_bound [OF ch il] by (rule unat_sub64)
  with chained_number [OF ch il] chained_number [OF ch, of "length (canonical t) - 1"] ne il n
  show ?thesis by (intro exI [of _ i]) (auto simp: i r last_conv_nth unat_succ64)
qed

text \<open>
  on a tracked chain the subtraction that gives the depth never wraps: a reported depth
  is the number of heads of the history above the common parent, and the new head's number
  is the one after that parent's.
\<close>

theorem Observe_depth:
  assumes "tracker_inv t"
    and "rrReorg (fst (Tracker_Observe head t)) = Some r" and "Depth r = Some d"
  shows "\<exists>i. canonicalIndex t (headParentHash head) = Some i \<and>
     unat d = length (canonical t) - 1 - i \<and> PreviousHead r = last (canonical t) \<and>
     NewHead r = head \<and> unat (headNumber head) = unat (headNumber (last (canonical t))) - unat d + 1"
  by (rule depth_of_reorg [OF assms])

lemma Observe_canonical_subset:
  "set (canonical (snd (Tracker_Observe head t))) \<subseteq> insert head (set (canonical t))"
  by (auto simp: observe_simps tracker_trim_def split: option.splits if_splits
      dest!: in_set_dropD in_set_takeD)

lemma Observe_reorg_heads:
  "rrReorg (fst (Tracker_Observe head t)) = Some r \<Longrightarrow>
     NewHead r = head \<and> PreviousHead r \<in> set (canonical t) \<and> reorgTarget r = trTarget t"
  by (auto simp: observe_simps split: option.splits if_splits)

text \<open>
  the newest head is always the tip afterwards, except that a head which repeats the
  tip's hash leaves the history as it is.
\<close>

theorem Observe_tip:
  assumes "tracker_inv t"
  shows "canonical (snd (Tracker_Observe head t)) \<noteq> [] \<and>
     (last (canonical (snd (Tracker_Observe head t))) = head \<or>
      snd (Tracker_Observe head t) = t \<and> headHash (last (canonical t)) = headHash head)"
proof (cases "canonical t = []")
  case True
  then show ?thesis by (simp add: observe_simps)
next
  case False
  have "canonical (tracker_trim (t\<lparr>canonical := hs @ [head]\<rparr>)) \<noteq> [] \<and>
        last (canonical (tracker_trim (t\<lparr>canonical := hs @ [head]\<rparr>))) = head" for hs
    using assms trim_keeps_last [of "t\<lparr>canonical := hs @ [head]\<rparr>"] by (simp add: tracker_inv_def)
  with False show ?thesis by (simp add: observe_simps split: option.splits)
qed

section \<open>Classification\<close>

text \<open>
  The specification of a head that is not a repetition and not the successor of the tip:
  it is a reorg of known depth, a reorg of unknown depth, or a gap, by what the history
  says about its parent.
\<close>

datatype (plugins only: code size) head_class = FirstHead | RepeatsTip | ExtendsTip | KnownReorg nat | BrokenParent | SkipsAhead | UnknownReorg

definition classify :: "exec_head list \<Rightarrow> exec_head \<Rightarrow> head_class" where
  "classify hist head =
     (if hist = [] then FirstHead
      else if headHash head = headHash (last hist) then RepeatsTip
      else if childOf (last hist) head then ExtendsTip
      else case lastIndexUpTo hist (headParentHash head) (length hist) of
        Some i \<Rightarrow> if childOf (hist ! i) head then KnownReorg (length hist - 1 - i) else BrokenParent
      | None \<Rightarrow> if unat (headNumber (last hist)) + 1 < unat (headNumber head) then SkipsAhead
                else UnknownReorg)"

fun verdict :: "head_class \<Rightarrow> nat option option \<times> bool \<times> bool" where
  "verdict (KnownReorg n) = (Some (Some n), True, False)"
| "verdict UnknownReorg = (Some None, False, False)"
| "verdict BrokenParent = (None, False, True)"
| "verdict SkipsAhead = (None, False, True)"
| "verdict _ = (None, True, False)"

definition resultVerdict :: "reorg_result \<Rightarrow> nat option option \<times> bool \<times> bool" where
  "resultVerdict r =
     (map_option (\<lambda>ob. map_option unat (Depth ob)) (rrReorg r), rrContinuity r, rrGapOperation r \<noteq> [])"

lemma childOf_iff:
  "headParentHash head = headHash p \<Longrightarrow>
   childOf p head \<longleftrightarrow> headNumber p \<noteq> MaxUint64 \<and> headNumber head = headNumber p + 1"
proof -
  assume h: "headParentHash head = headHash p"
  show ?thesis
  proof (cases "headNumber p = MaxUint64")
    case True
    then show ?thesis using h unat_le_max64 [of "headNumber head"] by (auto simp: childOf_def word_simps)
  next
    case False
    have "unat (headNumber head) = unat (headNumber p) + 1 \<longleftrightarrow> headNumber head = headNumber p + 1"
      using unat_succ64 [OF False] by (metis word_unat_eq_iff)
    with False h show ?thesis by (simp add: childOf_def)
  qed
qed

lemma skip_iff:
  "headNumber tip \<noteq> MaxUint64 \<and> headNumber head > headNumber tip + 1 \<longleftrightarrow>
   unat (headNumber tip) + 1 < unat (headNumber head)"
proof (cases "headNumber tip = MaxUint64")
  case True
  then show ?thesis using unat_le_max64 [of "headNumber head"] by (auto simp: word_simps)
next
  case False
  then show ?thesis by (simp add: word_less_nat_alt unat_succ64)
qed

text \<open>
  C8: the tracker's answer to a head is the classification of that head against the
  history: a known reorg reports its depth, an unknown one reports none (never zero), a
  broken parent link and a skipped block are gaps and not reorgs.
\<close>

theorem Observe_classifies:
  assumes "tracker_inv t"
  shows "resultVerdict (fst (Tracker_Observe head t)) = verdict (classify (canonical t) head)"
proof (cases "canonical t = []")
  case True
  then show ?thesis by (simp add: observe_simps classify_def resultVerdict_def)
next
  case ne: False
  have ch: "chained (canonical t)" using assms by (simp add: tracker_inv_def)
  let ?tip = "last (canonical t)"
  show ?thesis
  proof (cases "headHash head = headHash ?tip \<or> childOf ?tip head")
    case True
    then show ?thesis using ne childOf_iff [of head ?tip]
      by (auto simp: observe_simps classify_def resultVerdict_def childOf_def)
  next
    case False
    then have nt: "headHash head \<noteq> headHash ?tip" "\<not> childOf ?tip head" by auto
    then have ext: "\<not> (headNumber ?tip \<noteq> MaxUint64 \<and> headNumber head = headNumber ?tip + 1 \<and>
        headParentHash head = headHash ?tip)"
      using childOf_iff [of head ?tip] by auto
    show ?thesis
    proof (cases "canonicalIndex t (headParentHash head)")
      case None
      then show ?thesis using ne nt ext skip_iff [of ?tip head]
        by (auto simp: observe_simps classify_def resultVerdict_def canonicalIndex_def)
    next
      case (Some i)
      then have i: "i < length (canonical t)" "headParentHash head = headHash (canonical t ! i)"
        by (auto dest: canonicalIndex_Some)
      note le = parent_bound [OF ch i(1)]
      have "unat (headNumber ?tip - headNumber (canonical t ! i)) = length (canonical t) - 1 - i"
        using unat_sub64 [OF le] chained_number [OF ch i(1)]
          chained_number [OF ch, of "length (canonical t) - 1"] ne i
        by (simp add: last_conv_nth)
      then show ?thesis using ne nt ext Some le childOf_iff [OF i(2)]
        by (auto simp: observe_simps classify_def resultVerdict_def canonicalIndex_def not_less)
    qed
  qed
qed

end
