(* ===== verification/HeadComparator.thy ===== *)
theory HeadComparator
  imports Beacon
begin

text \<open>
  The same-slot head comparator (\<^verbatim>\<open>internal/observer/head_comparator.go\<close>): for a bounded
  number of slots the latest root of every target, compared once all targets have reported
  the slot and whenever the complete set of roots changes.
\<close>

section \<open>State and operations\<close>

record head_comparison =
  hcTimestamp :: time
  hcSlot :: u64
  hcRoots :: "(string, string) gomap"
  hcAgreement :: bool

record head_slot_state =
  roots :: "(string, string) gomap"
  lastSignature :: string

record head_comparator =
  cmpTargets :: "string list"
  cmpHistoryLimit :: int
  slots :: "(u64, head_slot_state) gomap"

datatype (plugins only: code size) comparator_err = TooFewTargets | ComparatorLimit | EmptyComparatorTarget | DuplicateComparatorTarget

text \<open>The loop over the sorted targets; \<open>prev\<close> is the element before the current one.\<close>

fun checkSortedTargets :: "string option \<Rightarrow> string list \<Rightarrow> comparator_err + unit" where
  "checkSortedTargets prev [] = Inr ()"
| "checkSortedTargets prev (target # rest) =
     (if target = [] then Inl EmptyComparatorTarget
      else if prev = Some target then Inl DuplicateComparatorTarget
      else checkSortedTargets (Some target) rest)"

definition NewHeadComparator :: "string list \<Rightarrow> int \<Rightarrow> comparator_err + head_comparator" where
  "NewHeadComparator targets historyLimit =
     (if length targets < 2 then Inl TooFewTargets
      else if historyLimit < 2 then Inl ComparatorLimit
      else let targetCopy = sort targets in
        bindR (checkSortedTargets None targetCopy) (\<lambda>_.
          Inr \<lparr>cmpTargets = targetCopy, cmpHistoryLimit = historyLimit, slots = []\<rparr>))"

definition comparator_trim :: "head_comparator \<Rightarrow> head_comparator" where
  "comparator_trim c =
     (if int (length (slots c)) \<le> cmpHistoryLimit c then c
      else let ss = sort (keys (slots c)) in
        c\<lparr>slots := foldl (\<lambda>m s. mdel s m) (slots c) (take (length ss - nat (cmpHistoryLimit c)) ss)\<rparr>)"

text \<open>
  The loop over the targets: the copied roots, the signature, the agreement flag and the
  first root; \<open>None\<close> when a target has not reported.
\<close>

record compare_acc =
  accRoots :: "(string, string) gomap"
  accSignature :: string
  accAgreement :: bool
  accFirstRoot :: string

definition compareStep :: "string \<Rightarrow> string \<Rightarrow> compare_acc \<Rightarrow> compare_acc" where
  "compareStep target root a =
     \<lparr>accRoots = mput target root (accRoots a),
      accSignature = accSignature a @ target @ ''='' @ root @ [CHR 0x0A],
      accAgreement = (if accFirstRoot a = [] then accAgreement a
                      else if root \<noteq> accFirstRoot a then False else accAgreement a),
      accFirstRoot = (if accFirstRoot a = [] then root else accFirstRoot a)\<rparr>"

fun compareLoop :: "(string, string) gomap \<Rightarrow> string list \<Rightarrow> compare_acc \<Rightarrow> compare_acc option" where
  "compareLoop rs [] a = Some a"
| "compareLoop rs (target # rest) a =
     (case map_of rs target of
        None \<Rightarrow> None
      | Some root \<Rightarrow> compareLoop rs rest (compareStep target root a))"

definition compareStart :: compare_acc where
  "compareStart = \<lparr>accRoots = [], accSignature = [], accAgreement = True, accFirstRoot = []\<rparr>"

definition Comparator_Observe ::
  "time \<Rightarrow> string \<Rightarrow> beacon_head \<Rightarrow> head_comparator \<Rightarrow> head_comparison option \<times> head_comparator" where
  "Comparator_Observe timestamp target head c =
     (let state = mget \<lparr>roots = [], lastSignature = []\<rparr> (slots c) (headSlot head);
          state1 = state\<lparr>roots := mput target (headRoot head) (roots state)\<rparr>;
          c1 = c\<lparr>slots := mput (headSlot head) state1 (slots c)\<rparr>
      in if length (roots state1) \<noteq> length (cmpTargets c) then (None, comparator_trim c1)
         else (case compareLoop (roots state1) (cmpTargets c) compareStart of
            None \<Rightarrow> (None, c1)
          | Some a \<Rightarrow>
              if accSignature a = lastSignature state1 then (None, c1)
              else (Some \<lparr>hcTimestamp = timestamp, hcSlot = headSlot head, hcRoots = accRoots a,
                          hcAgreement = accAgreement a\<rparr>,
                    comparator_trim
                      (c\<lparr>slots := mput (headSlot head)
                           (state1\<lparr>lastSignature := accSignature a\<rparr>) (slots c)\<rparr>))))"

section \<open>Trimming\<close>

lemma keys_mdel: "keys (mdel k m) = filter (\<lambda>x. x \<noteq> k) (keys m)"
  by (induction m) (auto simp: AList.delete_eq)

lemma keys_foldl_mdel:
  "keys (foldl (\<lambda>m s. mdel s m) m ss) = filter (\<lambda>x. x \<notin> set ss) (keys m)"
proof (induction ss arbitrary: m)
  case (Cons s ss)
  show ?case by (simp add: Cons.IH keys_mdel conj_commute)
qed simp

lemma map_of_foldl_mdel: "k \<notin> set ss \<Longrightarrow> map_of (foldl (\<lambda>m s. mdel s m) m ss) k = map_of m k"
  by (induction ss arbitrary: m) simp_all

text \<open>
  On a map with more entries than the limit, trimming keeps exactly the limit many largest
  slots: every slot kept is above every slot dropped.
\<close>

definition wf_comparator :: "head_comparator \<Rightarrow> bool" where
  "wf_comparator c \<longleftrightarrow> 2 \<le> length (cmpTargets c) \<and> 2 \<le> cmpHistoryLimit c \<and> gomap (slots c)"

lemma trim_keys:
  assumes "wf_comparator c" "cmpHistoryLimit c < int (length (slots c))"
  defines "ss \<equiv> sort (keys (slots c))"
  defines "n \<equiv> length (slots c) - nat (cmpHistoryLimit c)"
  shows "set (keys (slots (comparator_trim c))) = set (drop n ss)"
    and "length (slots (comparator_trim c)) = nat (cmpHistoryLimit c)"
    and "\<And>x y. x \<in> set (take n ss) \<Longrightarrow> y \<in> set (drop n ss) \<Longrightarrow> x < y"
proof -
  have d: "distinct ss" and s: "sorted ss"
    using assms(1) by (simp_all add: ss_def wf_comparator_def gomap_def)
  have len: "length ss = length (slots c)" by (simp add: ss_def)
  have ks: "keys (slots (comparator_trim c)) = filter (\<lambda>x. x \<notin> set (take n ss)) (keys (slots c))"
    using assms(2) by (simp add: comparator_trim_def Let_def keys_foldl_mdel ss_def n_def)
  have disj: "set (take n ss) \<inter> set (drop n ss) = {}"
    using d by (rule set_take_disj_set_drop_if_distinct) simp
  have un: "set (keys (slots c)) = set (take n ss) \<union> set (drop n ss)"
    unfolding set_append [symmetric] append_take_drop_id by (simp add: ss_def)
  show set: "set (keys (slots (comparator_trim c))) = set (drop n ss)"
    using disj un by (auto simp: ks)
  have "distinct (keys (slots (comparator_trim c)))"
    using assms(1) by (simp add: ks wf_comparator_def gomap_def)
  then have "length (keys (slots (comparator_trim c))) = card (set (drop n ss))"
    by (metis distinct_card set)
  then have "length (keys (slots (comparator_trim c))) = length ss - n"
    using d by (simp add: distinct_card)
  then show "length (slots (comparator_trim c)) = nat (cmpHistoryLimit c)"
    using assms(1,2) by (simp add: len n_def wf_comparator_def)
  show "x < y" if "x \<in> set (take n ss)" "y \<in> set (drop n ss)" for x y
  proof -
    have "sorted (take n ss @ drop n ss)" using s by simp
    then have "x \<le> y" using that by (simp only: sorted_append)
    with disj that show ?thesis by (auto simp: order_le_less)
  qed
qed

lemma trim_id: "int (length (slots c)) \<le> cmpHistoryLimit c \<Longrightarrow> comparator_trim c = c"
  by (simp add: comparator_trim_def)

lemma trim_targets [simp]:
  "cmpTargets (comparator_trim c) = cmpTargets c" "cmpHistoryLimit (comparator_trim c) = cmpHistoryLimit c"
  by (simp_all add: comparator_trim_def Let_def)

lemma trim_wf: "wf_comparator c \<Longrightarrow> wf_comparator (comparator_trim c)"
  by (auto simp: wf_comparator_def comparator_trim_def Let_def gomap_def keys_foldl_mdel)

lemma trim_bound: "wf_comparator c \<Longrightarrow> int (length (slots (comparator_trim c))) \<le> cmpHistoryLimit c"
  by (cases "int (length (slots c)) \<le> cmpHistoryLimit c")
    (auto simp: trim_id trim_keys(2) wf_comparator_def)

lemma checkSortedTargets_ok:
  "checkSortedTargets prev ts = Inr u \<Longrightarrow> sorted ts \<Longrightarrow> (\<forall>p t. prev = Some p \<longrightarrow> t \<in> set ts \<longrightarrow> p \<le> t) \<Longrightarrow>
   distinct ts \<and> [] \<notin> set ts \<and> (\<forall>p. prev = Some p \<longrightarrow> p \<notin> set ts)"
proof (induction prev ts rule: checkSortedTargets.induct)
  case (2 prev t rest)
  then have "t \<noteq> []" "prev \<noteq> Some t" and r: "checkSortedTargets (Some t) rest = Inr u"
    by (auto split: if_splits)
  then have IH: "distinct rest \<and> [] \<notin> set rest \<and> t \<notin> set rest" using 2 by auto
  have "p \<notin> set rest" if "prev = Some p" for p
  proof
    assume "p \<in> set rest"
    with 2(3) have "t \<le> p" by simp
    moreover have "p \<le> t" using 2(4) that by simp
    ultimately show False using that \<open>prev \<noteq> Some t\<close> by simp
  qed
  with IH \<open>t \<noteq> []\<close> \<open>prev \<noteq> Some t\<close> show ?case by auto
qed simp

lemma NewHeadComparator_ok:
  assumes "NewHeadComparator ts n = Inr c"
  shows "wf_comparator c \<and> distinct (cmpTargets c) \<and> [] \<notin> set (cmpTargets c) \<and>
         set (cmpTargets c) = set ts \<and> slots c = []"
proof -
  from assms have *: "2 \<le> length ts" "2 \<le> n" "checkSortedTargets None (sort ts) = Inr ()"
    "c = \<lparr>cmpTargets = sort ts, cmpHistoryLimit = n, slots = []\<rparr>"
    by (auto simp: NewHeadComparator_def Let_def result_simps split: if_splits)
  from checkSortedTargets_ok [OF *(3)] * show ?thesis by (simp add: wf_comparator_def)
qed

section \<open>Memory bound and stale slots\<close>

lemma length_mput_ge: "length (mput k v m) \<le> Suc (length m)"
  by (simp add: length_mput)

lemma new_slot_incomplete:
  assumes "wf_comparator c" "headSlot head \<notin> set (keys (slots c))"
  shows "Comparator_Observe ts target head c =
     (None, comparator_trim (c\<lparr>slots := mput (headSlot head)
        \<lparr>roots = [(target, headRoot head)], lastSignature = []\<rparr> (slots c)\<rparr>))"
proof -
  have "map_of (slots c) (headSlot head) = None" using assms(2) by (simp add: map_of_eq_None_iff)
  then have "mget \<lparr>roots = [], lastSignature = []\<rparr> (slots c) (headSlot head) =
      \<lparr>roots = [], lastSignature = []\<rparr>" by (simp add: mget_def)
  moreover have "Suc 0 \<noteq> length (cmpTargets c)" using assms(1) by (simp add: wf_comparator_def)
  ultimately show ?thesis by (simp add: Comparator_Observe_def Let_def)
qed

lemma Observe_wf: "wf_comparator c \<Longrightarrow> wf_comparator (snd (Comparator_Observe ts target head c))"
  by (auto simp: Comparator_Observe_def Let_def split: option.splits intro!: trim_wf)
    (auto simp: wf_comparator_def)

text \<open>
  the comparator never keeps more slots than its history limit, however many distinct
  slots the targets report and even for targets it was not created with.
\<close>

theorem Comparator_bounded:
  assumes "wf_comparator c" "int (length (slots c)) \<le> cmpHistoryLimit c"
  shows "int (length (slots (snd (Comparator_Observe ts target head c)))) \<le> cmpHistoryLimit c"
proof (cases "headSlot head \<in> set (keys (slots c))")
  case False
  define c' where "c' = c\<lparr>slots := mput (headSlot head)
        \<lparr>roots = [(target, headRoot head)], lastSignature = []\<rparr> (slots c)\<rparr>"
  have "wf_comparator c'" using assms(1) by (simp add: c'_def wf_comparator_def)
  with trim_bound [of c'] show ?thesis
    by (simp add: new_slot_incomplete [OF assms(1) False] c'_def)
next
  case True
  then have same: "length (mput (headSlot head) v (slots c)) = length (slots c)" for v
    by (simp add: length_mput)
  show ?thesis using assms(2) same
    by (auto simp: Comparator_Observe_def Let_def trim_id split: option.splits)
qed

text \<open>A slot that has been dropped: the history is full of later slots.\<close>

definition slotSet :: "head_comparator \<Rightarrow> u64 set" where
  "slotSet c = set (keys (slots c))"

definition stale :: "head_comparator \<Rightarrow> u64 \<Rightarrow> bool" where
  "stale c s \<longleftrightarrow> (\<forall>k \<in> slotSet c. s < k) \<and> int (length (slots c)) = cmpHistoryLimit c"

lemma stale_trim_id: "stale c s \<Longrightarrow> comparator_trim c = c"
  by (simp add: stale_def trim_id)

lemma trim_stale:
  assumes "wf_comparator c" "cmpHistoryLimit c < int (length (slots c))"
    and "s \<in> set (keys (slots c))" "s \<notin> set (keys (slots (comparator_trim c)))"
  shows "stale (comparator_trim c) s"
proof -
  let ?ss = "sort (keys (slots c))" and ?n = "length (slots c) - nat (cmpHistoryLimit c)"
  note t = trim_keys [OF assms(1,2)]
  have "set (keys (slots c)) = set (take ?n ?ss) \<union> set (drop ?n ?ss)"
    unfolding set_append [symmetric] append_take_drop_id by simp
  with assms(3,4) t(1) have "s \<in> set (take ?n ?ss)" by auto
  with t assms(1) show ?thesis by (auto simp: stale_def slotSet_def wf_comparator_def)
qed

text \<open>
  once a slot has fallen out of the history it stays out: no later observation makes
  the comparator report that slot again.
\<close>

theorem stale_forever:
  assumes "wf_comparator c" "stale c s"
  shows "stale (snd (Comparator_Observe ts target head c)) s \<and>
         (headSlot head = s \<longrightarrow> fst (Comparator_Observe ts target head c) = None)"
proof (cases "headSlot head \<in> set (keys (slots c))")
  case True
  have "set (keys (mput (headSlot head) v (slots c))) = set (keys (slots c))" for v
    by (simp only: keys_mput insert_absorb [OF True])
  then have k: "slotSet (c\<lparr>slots := mput (headSlot head) v (slots c)\<rparr>) = slotSet c" for v
    by (simp only: slotSet_def) simp
  have l: "length (mput (headSlot head) v (slots c)) = length (slots c)" for v
    by (simp only: length_mput True if_True)
  have st: "stale (c\<lparr>slots := mput (headSlot head) v (slots c)\<rparr>) s" for v
    using assms(2) unfolding stale_def k by (simp add: l)
  have "headSlot head \<noteq> s" using True assms(2) by (auto simp: stale_def slotSet_def)
  then show ?thesis using st stale_trim_id [OF st]
    by (simp add: Comparator_Observe_def Let_def split: option.splits)
next
  case False
  define c' where "c' = c\<lparr>slots := mput (headSlot head)
        \<lparr>roots = [(target, headRoot head)], lastSignature = []\<rparr> (slots c)\<rparr>"
  have wf: "wf_comparator c'" using assms(1) by (simp add: c'_def wf_comparator_def)
  have k: "set (keys (slots c')) = insert (headSlot head) (set (keys (slots c)))"
    and l: "length (slots c') = Suc (length (slots c))"
    using False by (simp_all add: c'_def dom_update length_mput)
  have over: "cmpHistoryLimit c' < int (length (slots c'))"
    using assms(2) l by (simp add: stale_def c'_def)
  let ?ss = "sort (keys (slots c'))" and ?n = "length (slots c') - nat (cmpHistoryLimit c')"
  note t = trim_keys [OF wf over]
  have "nat (cmpHistoryLimit c) = length (slots c)"
    using assms(2) unfolding stale_def by linarith
  then have n1: "?n = 1" using l by (simp add: c'_def)
  have later: "s < k" if k': "k \<in> set (drop ?n ?ss)" for k
  proof -
    have "length ?ss = Suc (length (slots c))" by (simp add: l)
    then obtain m r where "?ss = m # r" by (cases ?ss) auto
    then have m: "take ?n ?ss = [m]" by (simp add: n1)
    have "m < k" using t(3) k' m by simp
    have km: "k \<in> set (keys (slots c'))" using k' by (metis in_set_dropD set_sort)
    have mm: "m \<in> set (keys (slots c'))"
      using m by (metis in_set_takeD list.set_intros(1) set_sort)
    show "s < k"
    proof (cases "k = headSlot head")
      case True
      with mm k \<open>m < k\<close> have "m \<in> set (keys (slots c))" by auto
      with assms(2) \<open>m < k\<close> show ?thesis by (force simp: stale_def slotSet_def)
    next
      case False
      with km k assms(2) show ?thesis by (auto simp: stale_def slotSet_def)
    qed
  qed
  have "stale (comparator_trim c') s"
    using t later wf by (auto simp: stale_def slotSet_def wf_comparator_def)
  then show ?thesis by (simp add: new_slot_incomplete [OF assms(1) False] c'_def)
qed

section \<open>Agreement\<close>

text \<open>Roots as the Beacon client delivers them: not empty and on one line.\<close>

definition rootOk :: "string \<Rightarrow> bool" where
  "rootOk r \<longleftrightarrow> r \<noteq> [] \<and> CHR 0x0A \<notin> set r"

lemma canonicalHex_rootOk: "canonicalHex r n \<Longrightarrow> rootOk r"
proof -
  assume "canonicalHex r n"
  then obtain t where r: "r = ''0x'' @ t" and t: "list_all isHexLower t"
    by (auto simp: canonicalHex_def HasPrefix_iff lowerHexN_def)
  have "\<not> isHexLower (CHR 0x0A)" by (simp add: isHexLower_def isDigit_def code_def)
  with t have "CHR 0x0A \<notin> set t" by (auto simp: list_all_iff)
  with r show ?thesis by (simp add: rootOk_def)
qed

definition comparator_roots_ok :: "head_comparator \<Rightarrow> bool" where
  "comparator_roots_ok c \<longleftrightarrow>
     (\<forall>s st t r. map_of (slots c) s = Some st \<longrightarrow> map_of (roots st) t = Some r \<longrightarrow> rootOk r)"

fun sigVec :: "string list \<Rightarrow> string list \<Rightarrow> string" where
  "sigVec (t # ts) (r # rs) = t @ ''='' @ r @ [CHR 0x0A] @ sigVec ts rs"
| "sigVec _ _ = []"

lemma line_split: "a @ n # x = b @ n # y \<Longrightarrow> n \<notin> set a \<Longrightarrow> n \<notin> set b \<Longrightarrow> a = b \<and> x = y"
proof (induction a arbitrary: b)
  case Nil
  then show ?case by (cases b) auto
next
  case (Cons c a)
  then show ?case by (cases b) auto
qed

lemma sigVec_inj:
  "sigVec ts v = sigVec ts w \<Longrightarrow> length v = length ts \<Longrightarrow> length w = length ts \<Longrightarrow>
   (\<forall>r \<in> set v \<union> set w. CHR 0x0A \<notin> set r) \<Longrightarrow> v = w"
proof (induction ts arbitrary: v w)
  case (Cons t ts)
  then obtain a v' b w' where vw: "v = a # v'" "w = b # w'"
    by (metis length_Suc_conv list.size(4) Suc_eq_plus1)
  with Cons.prems have "a @ CHR 0x0A # sigVec ts v' = b @ CHR 0x0A # sigVec ts w'" by simp
  then have "a = b \<and> sigVec ts v' = sigVec ts w'"
    by (rule line_split) (use Cons.prems vw in auto)
  with Cons vw show ?case by auto
qed simp

text \<open>The roots of all targets in target order, if every target has one.\<close>

definition rootVec :: "(string, string) gomap \<Rightarrow> string list \<Rightarrow> string list option" where
  "rootVec rs ts = (if \<forall>t \<in> set ts. map_of rs t \<noteq> None then Some (map (\<lambda>t. the (map_of rs t)) ts) else None)"

lemma compareLoop_None: "compareLoop rs ts a = None \<longleftrightarrow> rootVec rs ts = None"
  by (induction ts arbitrary: a) (auto simp: rootVec_def split: option.splits)

lemma compareLoop_Cons:
  assumes "compareLoop rs (t # ts) a = Some b"
  shows "\<exists>r. map_of rs t = Some r \<and> compareLoop rs ts (compareStep t r a) = Some b \<and>
             the (rootVec rs (t # ts)) = r # the (rootVec rs ts)"
proof -
  from assms obtain r where r: "map_of rs t = Some r" "compareLoop rs ts (compareStep t r a) = Some b"
    by (auto split: option.splits)
  then have "compareLoop rs ts (compareStep t r a) \<noteq> None" by simp
  then have "rootVec rs ts \<noteq> None" by (simp only: compareLoop_None not_False_eq_True)
  with r show ?thesis by (auto simp: rootVec_def split: if_splits)
qed

lemma compareLoop_signature:
  "compareLoop rs ts a = Some b \<Longrightarrow> accSignature b = accSignature a @ sigVec ts (the (rootVec rs ts))"
proof (induction ts arbitrary: a)
  case (Cons t ts)
  from compareLoop_Cons [OF Cons.prems] Cons.IH show ?case by (force simp: compareStep_def)
qed (simp add: rootVec_def)

lemma compareLoop_agreement_first:
  "compareLoop rs ts a = Some b \<Longrightarrow> accFirstRoot a \<noteq> [] \<Longrightarrow>
   accAgreement b \<longleftrightarrow> accAgreement a \<and> (\<forall>r \<in> set (the (rootVec rs ts)). r = accFirstRoot a)"
proof (induction ts arbitrary: a)
  case (Cons t ts)
  from compareLoop_Cons [OF Cons.prems(1)] obtain r where
    r: "compareLoop rs ts (compareStep t r a) = Some b" "the (rootVec rs (t # ts)) = r # the (rootVec rs ts)"
    by blast
  from Cons.IH [OF r(1)] Cons.prems(2) r(2) show ?case by (auto simp: compareStep_def)
qed (simp add: rootVec_def)

definition allEqual :: "'a list \<Rightarrow> bool" where
  "allEqual xs \<longleftrightarrow> list_all (\<lambda>x. x = hd xs) xs"

lemma allEqual_iff: "allEqual xs \<longleftrightarrow> (\<forall>x \<in> set xs. \<forall>y \<in> set xs. x = y)"
proof
  assume "\<forall>x \<in> set xs. \<forall>y \<in> set xs. x = y"
  then show "allEqual xs" by (cases xs) (simp_all add: allEqual_def list_all_iff)
next
  assume "allEqual xs"
  then have "x = hd xs" if "x \<in> set xs" for x
    using that by (simp add: allEqual_def list_all_iff)
  then show "\<forall>x \<in> set xs. \<forall>y \<in> set xs. x = y" by metis
qed

lemma compareLoop_agreement:
  assumes "compareLoop rs ts compareStart = Some b" "\<And>t r. map_of rs t = Some r \<Longrightarrow> r \<noteq> []"
  shows "accAgreement b \<longleftrightarrow> allEqual (the (rootVec rs ts))"
proof (cases ts)
  case Nil
  with assms show ?thesis by (auto simp: compareStart_def rootVec_def allEqual_def)
next
  case (Cons t ts')
  from compareLoop_Cons [OF assms(1) [unfolded Cons]] obtain r where
    r: "map_of rs t = Some r" "compareLoop rs ts' (compareStep t r compareStart) = Some b"
       "the (rootVec rs ts) = r # the (rootVec rs ts')"
    by (auto simp: Cons)
  have "r \<noteq> []" using assms(2) r(1) by blast
  with compareLoop_agreement_first [OF r(2)] r(3) show ?thesis
    by (auto simp: compareStart_def compareStep_def allEqual_def list_all_iff)
qed

section \<open>Refinement\<close>

text \<open>
  The abstract comparator stores, per slot, the roots and the last complete vector of roots
  it reported, and reports a complete vector that differs from it. The code stores a text
  signature instead of the vector; on roots without line breaks the two cannot be told
  apart.
\<close>

record spec_slot =
  spRoots :: "(string, string) gomap"
  spLast :: "string list option"

definition trimMap :: "int \<Rightarrow> (u64, 'v) gomap \<Rightarrow> (u64, 'v) gomap" where
  "trimMap limit m =
     (if int (length m) \<le> limit then m
      else foldl (\<lambda>m s. mdel s m) m (take (length m - nat limit) (sort (keys m))))"

definition spec_Observe ::
  "string list \<Rightarrow> int \<Rightarrow> string \<Rightarrow> beacon_head \<Rightarrow> (u64, spec_slot) gomap
     \<Rightarrow> (u64 \<times> string list \<times> bool) option \<times> (u64, spec_slot) gomap" where
  "spec_Observe ts limit target head m =
     (let st = mget \<lparr>spRoots = [], spLast = None\<rparr> m (headSlot head);
          st1 = st\<lparr>spRoots := mput target (headRoot head) (spRoots st)\<rparr>;
          m1 = mput (headSlot head) st1 m
      in if length (spRoots st1) \<noteq> length ts then (None, trimMap limit m1)
         else (case rootVec (spRoots st1) ts of
            None \<Rightarrow> (None, m1)
          | Some vec \<Rightarrow>
              if spLast st1 = Some vec then (None, m1)
              else (Some (headSlot head, vec, allEqual vec),
                    trimMap limit (mput (headSlot head) (st1\<lparr>spLast := Some vec\<rparr>) m))))"

definition concSlot :: "string list \<Rightarrow> spec_slot \<Rightarrow> head_slot_state" where
  "concSlot ts st = \<lparr>roots = spRoots st,
     lastSignature = (case spLast st of None \<Rightarrow> [] | Some vec \<Rightarrow> sigVec ts vec)\<rparr>"

definition concSlots :: "string list \<Rightarrow> (u64, spec_slot) gomap \<Rightarrow> (u64, head_slot_state) gomap" where
  "concSlots ts m = map (\<lambda>(k, st). (k, concSlot ts st)) m"

definition spec_inv :: "string list \<Rightarrow> (u64, spec_slot) gomap \<Rightarrow> bool" where
  "spec_inv ts m \<longleftrightarrow> ts \<noteq> [] \<and> (\<forall>s st. map_of m s = Some st \<longrightarrow>
     (\<forall>t r. map_of (spRoots st) t = Some r \<longrightarrow> rootOk r) \<and>
     (\<forall>vec. spLast st = Some vec \<longrightarrow> length vec = length ts \<and> (\<forall>r \<in> set vec. rootOk r)))"

lemma keys_concSlots [simp]: "keys (concSlots ts m) = keys m" "length (concSlots ts m) = length m"
  by (simp_all add: concSlots_def case_prod_unfold comp_def)

lemma map_of_concSlots: "map_of (concSlots ts m) k = map_option (concSlot ts) (map_of m k)"
  by (induction m) (auto simp: concSlots_def)

lemma mput_concSlots: "mput k (concSlot ts st) (concSlots ts m) = concSlots ts (mput k st m)"
  by (induction m) (auto simp: concSlots_def)

lemma mdel_concSlots: "mdel k (concSlots ts m) = concSlots ts (mdel k m)"
  by (induction m) (auto simp: concSlots_def AList.delete_eq)

lemma foldl_mdel_concSlots:
  "foldl (\<lambda>m s. mdel s m) (concSlots ts m) ss = concSlots ts (foldl (\<lambda>m s. mdel s m) m ss)"
  by (induction ss arbitrary: m) (simp_all add: mdel_concSlots)

lemma trimMap_concSlots: "trimMap n (concSlots ts m) = concSlots ts (trimMap n m)"
  unfolding trimMap_def keys_concSlots by (simp add: foldl_mdel_concSlots)

lemma comparator_trim_trimMap: "comparator_trim c = c\<lparr>slots := trimMap (cmpHistoryLimit c) (slots c)\<rparr>"
  by (simp add: comparator_trim_def trimMap_def Let_def)

lemma mget_concSlots:
  "mget \<lparr>roots = [], lastSignature = []\<rparr> (concSlots ts m) k =
   concSlot ts (mget \<lparr>spRoots = [], spLast = None\<rparr> m k)"
  by (simp add: mget_def map_of_concSlots concSlot_def split: option.splits)

lemma rootVec_Some:
  "rootVec rs ts = Some vec \<Longrightarrow> length vec = length ts \<and> (\<forall>r \<in> set vec. \<exists>t. map_of rs t = Some r)"
  by (fastforce simp: rootVec_def split: if_splits)

lemma concSlot_roots: "concSlot ts (st\<lparr>spRoots := x\<rparr>) = (concSlot ts st)\<lparr>roots := x\<rparr>"
  by (simp add: concSlot_def)

lemma concSlot_last:
  "(concSlot ts st)\<lparr>lastSignature := sigVec ts vec\<rparr> = concSlot ts (st\<lparr>spLast := Some vec\<rparr>)"
  by (simp add: concSlot_def)

lemma sameSignature:
  assumes "ts \<noteq> []" "length vec = length ts" "\<forall>r \<in> set vec. rootOk r"
    and "\<forall>v. spLast st = Some v \<longrightarrow> length v = length ts \<and> (\<forall>r \<in> set v. rootOk r)"
  shows "sigVec ts vec = lastSignature (concSlot ts st) \<longleftrightarrow> spLast st = Some vec"
proof (cases "spLast st")
  case None
  have "sigVec ts vec \<noteq> []" using assms(1,2) by (cases ts; cases vec) auto
  with None show ?thesis by (simp add: concSlot_def)
next
  case (Some v)
  have "vec = v" if "sigVec ts vec = sigVec ts v"
    by (rule sigVec_inj [OF that]) (use assms Some in \<open>auto simp: rootOk_def\<close>)
  with Some show ?thesis by (auto simp: concSlot_def)
qed

lemma map_of_trimMap: "map_of (trimMap n m) k = Some v \<Longrightarrow> map_of m k = Some v"
proof -
  have "map_of (foldl (\<lambda>m s. mdel s m) m ss) k = Some v \<Longrightarrow> map_of m k = Some v" for ss
  proof (induction ss arbitrary: m)
    case (Cons a ss)
    from Cons.IH [of "mdel a m"] Cons.prems show ?case by (simp split: if_splits)
  qed simp
  then show "map_of (trimMap n m) k = Some v \<Longrightarrow> map_of m k = Some v"
    by (auto simp: trimMap_def split: if_splits)
qed

definition slot_inv :: "string list \<Rightarrow> spec_slot \<Rightarrow> bool" where
  "slot_inv ts st \<longleftrightarrow> (\<forall>t r. map_of (spRoots st) t = Some r \<longrightarrow> rootOk r) \<and>
     (\<forall>vec. spLast st = Some vec \<longrightarrow> length vec = length ts \<and> (\<forall>r \<in> set vec. rootOk r))"

lemma spec_inv_iff: "spec_inv ts m \<longleftrightarrow> ts \<noteq> [] \<and> (\<forall>s st. map_of m s = Some st \<longrightarrow> slot_inv ts st)"
  by (simp add: spec_inv_def slot_inv_def)

lemma spec_inv_mput: "spec_inv ts m \<Longrightarrow> slot_inv ts st \<Longrightarrow> spec_inv ts (mput k st m)"
  by (simp add: spec_inv_iff)

lemma spec_inv_trim: "spec_inv ts m \<Longrightarrow> spec_inv ts (trimMap n m)"
  by (auto simp: spec_inv_iff dest: map_of_trimMap)

text \<open>
  C21: the comparator implements the abstract comparator: with roots such as the Beacon
  client returns, it reports a slot exactly when all targets have reported it and the
  vector of their latest roots differs from the one reported last, and the agreement flag
  says whether all roots of that vector are equal.
\<close>

theorem Comparator_refines:
  assumes "cmpTargets c = ts" "slots c = concSlots ts m" "spec_inv ts m" "rootOk (headRoot head)"
  shows "map_option (\<lambda>r. (hcSlot r, hcAgreement r)) (fst (Comparator_Observe tm target head c)) =
           map_option (\<lambda>(s, vec, agree). (s, agree)) (fst (spec_Observe ts (cmpHistoryLimit c) target head m)) \<and>
         slots (snd (Comparator_Observe tm target head c)) =
           concSlots ts (snd (spec_Observe ts (cmpHistoryLimit c) target head m)) \<and>
         spec_inv ts (snd (spec_Observe ts (cmpHistoryLimit c) target head m))"
proof -
  let ?n = "cmpHistoryLimit c" and ?k = "headSlot head"
  define st where "st = mget \<lparr>spRoots = [], spLast = None\<rparr> m ?k"
  define st1 where "st1 = st\<lparr>spRoots := mput target (headRoot head) (spRoots st)\<rparr>"
  have "slot_inv ts st"
    using assms(3) by (auto simp: st_def mget_def spec_inv_iff slot_inv_def split: option.splits)
  then have inv1: "slot_inv ts st1" using assms(4) by (simp add: st1_def slot_inv_def)
  have c1: "c\<lparr>slots := mput ?k (concSlot ts x) (slots c)\<rparr> = c\<lparr>slots := concSlots ts (mput ?k x m)\<rparr>" for x
    by (simp add: assms(2) mput_concSlots)
  have code: "Comparator_Observe tm target head c =
     (if length (spRoots st1) \<noteq> length ts then (None, comparator_trim (c\<lparr>slots := concSlots ts (mput ?k st1 m)\<rparr>))
      else case compareLoop (spRoots st1) ts compareStart of
        None \<Rightarrow> (None, c\<lparr>slots := concSlots ts (mput ?k st1 m)\<rparr>)
      | Some a \<Rightarrow>
          if accSignature a = lastSignature (concSlot ts st1)
          then (None, c\<lparr>slots := concSlots ts (mput ?k st1 m)\<rparr>)
          else (Some \<lparr>hcTimestamp = tm, hcSlot = ?k, hcRoots = accRoots a, hcAgreement = accAgreement a\<rparr>,
             comparator_trim (c\<lparr>slots := mput ?k ((concSlot ts st1)\<lparr>lastSignature := accSignature a\<rparr>) (slots c)\<rparr>)))"
  proof -
    have "mget \<lparr>roots = [], lastSignature = []\<rparr> (slots c) ?k = concSlot ts st"
      by (simp add: assms(2) mget_concSlots st_def)
    moreover have "(concSlot ts st)\<lparr>roots := mput target (headRoot head) (roots (concSlot ts st))\<rparr> =
        concSlot ts st1"
      by (simp add: st1_def concSlot_def)
    moreover have "roots (concSlot ts st1) = spRoots st1" by (simp add: concSlot_def)
    ultimately show ?thesis by (simp only: Comparator_Observe_def Let_def assms(1) c1)
  qed
  have spec: "spec_Observe ts ?n target head m =
     (if length (spRoots st1) \<noteq> length ts then (None, trimMap ?n (mput ?k st1 m))
      else case rootVec (spRoots st1) ts of
        None \<Rightarrow> (None, mput ?k st1 m)
      | Some vec \<Rightarrow>
          if spLast st1 = Some vec then (None, mput ?k st1 m)
          else (Some (?k, vec, allEqual vec), trimMap ?n (mput ?k (st1\<lparr>spLast := Some vec\<rparr>) m)))"
    by (simp only: spec_Observe_def Let_def st_def st1_def)
  note trim = comparator_trim_trimMap trimMap_concSlots
  show ?thesis
  proof (cases "rootVec (spRoots st1) ts")
    case None
    then have "compareLoop (spRoots st1) ts compareStart = None" by (simp add: compareLoop_None)
    with None show ?thesis using assms(3) inv1
      by (simp add: code spec trim spec_inv_mput spec_inv_trim)
  next
    case (Some vec)
    then obtain a where a: "compareLoop (spRoots st1) ts compareStart = Some a"
      using compareLoop_None [of "spRoots st1" ts compareStart] by auto
    have sig: "accSignature a = sigVec ts vec"
      using compareLoop_signature [OF a] Some by (simp add: compareStart_def)
    have agree: "accAgreement a = allEqual vec"
      using compareLoop_agreement [OF a] Some inv1 by (simp add: slot_inv_def rootOk_def)
    have vec: "length vec = length ts" "\<forall>r \<in> set vec. rootOk r"
      using rootVec_Some [OF Some] inv1 by (auto simp: slot_inv_def)
    have same: "sigVec ts vec = lastSignature (concSlot ts st1) \<longleftrightarrow> spLast st1 = Some vec"
      by (rule sameSignature) (use vec assms(3) inv1 in \<open>auto simp: spec_inv_iff slot_inv_def\<close>)
    have "slot_inv ts (st1\<lparr>spLast := Some vec\<rparr>)" using inv1 vec by (simp add: slot_inv_def)
    with a Some sig agree same show ?thesis using assms(3) inv1
      by (simp add: code spec trim c1 concSlot_last spec_inv_mput spec_inv_trim)
  qed
qed

section \<open>Where the roots of a comparison come from\<close>

lemma compareLoop_roots:
  "compareLoop rs ts a = Some b \<Longrightarrow> gomap (accRoots a) \<Longrightarrow>
     gomap (accRoots b) \<and>
     map_of (accRoots b) = (\<lambda>t. if t \<in> set ts then map_of rs t else map_of (accRoots a) t)"
proof (induction ts arbitrary: a)
  case (Cons t ts)
  from compareLoop_Cons [OF Cons.prems(1)] obtain r where
    r: "map_of rs t = Some r" "compareLoop rs ts (compareStep t r a) = Some b" by blast
  have "gomap (accRoots (compareStep t r a))" using Cons.prems(2) by (simp add: compareStep_def)
  from Cons.IH [OF r(2) this] r(1) show ?case
    by (auto simp: compareStep_def fun_eq_iff)
qed simp

text \<open>Every stored root satisfies a relation between slot, target and root.\<close>

definition rootsFrom :: "(u64 \<Rightarrow> string \<Rightarrow> string \<Rightarrow> bool) \<Rightarrow> head_comparator \<Rightarrow> bool" where
  "rootsFrom P c \<longleftrightarrow> (\<forall>slot st t r. map_of (slots c) slot = Some st \<longrightarrow>
     map_of (roots st) t = Some r \<longrightarrow> P slot t r)"

lemma rootsFrom_mono: "rootsFrom P c \<Longrightarrow> (\<And>s t r. P s t r \<Longrightarrow> Q s t r) \<Longrightarrow> rootsFrom Q c"
  by (auto simp: rootsFrom_def)

lemma rootsFrom_trim: "rootsFrom P c \<Longrightarrow> rootsFrom P (comparator_trim c)"
  unfolding rootsFrom_def comparator_trim_trimMap by (auto dest: map_of_trimMap)

lemma rootsFrom_mput:
  assumes "rootsFrom P c" "P (headSlot head) target (headRoot head)"
    and "roots st = mput target (headRoot head)
           (roots (mget \<lparr>roots = [], lastSignature = []\<rparr> (slots c) (headSlot head)))"
  shows "rootsFrom P (c\<lparr>slots := mput (headSlot head) st (slots c)\<rparr>)"
  using assms unfolding rootsFrom_def
  by (auto simp: mget_def split: if_splits option.splits)

lemma Observe_rootsFrom:
  assumes "rootsFrom P c" "P (headSlot head) target (headRoot head)"
  shows "rootsFrom P (snd (Comparator_Observe ts target head c))"
proof -
  note m = rootsFrom_mput [OF assms]
  show ?thesis
    by (auto simp: Comparator_Observe_def Let_def split: option.splits
        intro!: rootsFrom_trim m)
qed

lemma Observe_comparison:
  assumes "rootsFrom P c" "P (headSlot head) target (headRoot head)"
    and "fst (Comparator_Observe ts target head c) = Some cmp"
  shows "hcSlot cmp = headSlot head \<and> hcTimestamp cmp = ts \<and> gomap (hcRoots cmp) \<and>
     dom (map_of (hcRoots cmp)) = set (cmpTargets c) \<and>
     (\<forall>t r. map_of (hcRoots cmp) t = Some r \<longrightarrow> P (hcSlot cmp) t r) \<and>
     ((\<forall>t r. P (headSlot head) t r \<longrightarrow> r \<noteq> []) \<longrightarrow>
        (hcAgreement cmp \<longleftrightarrow> (\<forall>r r'. r \<in> ran (map_of (hcRoots cmp)) \<and> r' \<in> ran (map_of (hcRoots cmp)) \<longrightarrow> r = r')))"
proof -
  define st where "st = mget \<lparr>roots = [], lastSignature = []\<rparr> (slots c) (headSlot head)"
  define st1 where "st1 = st\<lparr>roots := mput target (headRoot head) (roots st)\<rparr>"
  have from_st: "P (headSlot head) t r" if "map_of (roots st1) t = Some r" for t r
    using assms(1,2) that
    by (auto simp: st1_def st_def rootsFrom_def mget_def split: if_splits option.splits)
  from assms(3) obtain a where a: "compareLoop (roots st1) (cmpTargets c) compareStart = Some a"
    and cmp: "cmp = \<lparr>hcTimestamp = ts, hcSlot = headSlot head, hcRoots = accRoots a,
                     hcAgreement = accAgreement a\<rparr>"
    by (auto simp: Comparator_Observe_def Let_def st1_def st_def split: if_splits option.splits)
  have g: "gomap (accRoots a)"
    and mo: "map_of (accRoots a) = (\<lambda>t. if t \<in> set (cmpTargets c) then map_of (roots st1) t else None)"
    using compareLoop_roots [OF a] by (simp_all add: compareStart_def fun_eq_iff)
  have all: "\<forall>t \<in> set (cmpTargets c). map_of (roots st1) t \<noteq> None"
    using compareLoop_None [of "roots st1" "cmpTargets c" compareStart] a
    by (auto simp: rootVec_def split: if_splits)
  have d: "dom (map_of (accRoots a)) = set (cmpTargets c)"
    using all by (auto simp: mo dom_def)
  have rv: "set (the (rootVec (roots st1) (cmpTargets c))) = ran (map_of (accRoots a))"
    using all by (force simp: rootVec_def mo ran_def)
  have agree: "accAgreement a \<longleftrightarrow> (\<forall>r r'. r \<in> ran (map_of (accRoots a)) \<and> r' \<in> ran (map_of (accRoots a)) \<longrightarrow> r = r')"
    if ne: "\<forall>t r. P (headSlot head) t r \<longrightarrow> r \<noteq> []"
  proof -
    have "accAgreement a = allEqual (the (rootVec (roots st1) (cmpTargets c)))"
      by (rule compareLoop_agreement [OF a]) (use from_st ne in blast)
    also have "\<dots> \<longleftrightarrow> (\<forall>r \<in> set (the (rootVec (roots st1) (cmpTargets c))).
        \<forall>r' \<in> set (the (rootVec (roots st1) (cmpTargets c))). r = r')"
      by (rule allEqual_iff)
    finally show ?thesis unfolding rv by blast
  qed
  show ?thesis using g d agree from_st by (auto simp: cmp mo split: if_splits)
qed

end
