(* ===== verification/Recorders.thy ===== *)
theory Recorders
  imports Reorg HeadComparator
begin

text \<open>
  The measurements (\<^verbatim>\<open>internal/observer/observer.go\<close>, \<^verbatim>\<open>execution_observer.go\<close>), the recorder
  interfaces, the fan-out recorders (\<^verbatim>\<open>multi_recorder.go\<close>, \<^verbatim>\<open>execution_observer.go\<close>) and the
  in-memory dataset of one run (\<^verbatim>\<open>dataset_recorder.go\<close>). A recorder is a record of
  operations on a state; several recorders of one run act on parts of the same state.
\<close>

section \<open>Measurements\<close>

text \<open>An error of a client call: the context was cancelled, or the call failed.\<close>

datatype (plugins only: code size) call_err = CtxCanceled | CallFailed beacon_err

datatype (plugins only: code size) obs_err =
    FetchHead call_err
  | FetchFinality string call_err
  | SecondsPerSlotZero
  | PrecedesGenesis time u64
  | CurrentSlotOverflow
  | SlotsPerEpochZero
  | FinalizedSlotOverflow
  | PrecedesFinalized u64 u64
  | ContinuityGap "gap_error option"
  | SubscriptionEnded
  | SubscriptionFailed exec_err

record spec_observation =
  soTimestamp :: time
  soTarget :: string
  soSpec :: beacon_spec
  soGenesis :: beacon_genesis

record beacon_observation =
  boTimestamp :: time
  boTarget :: string
  boCurrentSlot :: u64
  boHead :: beacon_head
  boFinality :: beacon_finality
  boFinalityLag :: u64
  boPollDuration :: int

text \<open>The error text of a gap is represented by the error it prints.\<close>

record poll_failure =
  pfTimestamp :: time
  pfTarget :: string
  pfProtocol :: string
  pfOperation :: string
  pfError :: obs_err
  pfPollDuration :: int

record exec_observation =
  eoTimestamp :: time
  eoTarget :: string
  eoHead :: exec_head
  eoContinuity :: bool

section \<open>Recorder interfaces\<close>

datatype (plugins only: code size) rec_err = SinkError string | RecorderAt nat rec_err

type_synonym ('s, 'o) record_op = "'o \<Rightarrow> 's \<Rightarrow> rec_err option \<times> 's"

record 's recorder =
  RecordSpec :: "('s, spec_observation) record_op"
  RecordBeacon :: "('s, beacon_observation) record_op"
  RecordHeadComparison :: "('s, head_comparison) record_op"
  RecordPollFailure :: "('s, poll_failure) record_op"

record 's exec_recorder =
  RecordExecution :: "('s, exec_observation) record_op"
  RecordReorg :: "('s, reorg_observation) record_op"
  RecordExecFailure :: "('s, poll_failure) record_op"

section \<open>Fan-out\<close>

datatype (plugins only: code size) multi_err = NoRecorders | NilRecorder nat

text \<open>The loop over the recorders with their index, stopping at the first error.\<close>

fun fanOut :: "('s, 'o) record_op list \<Rightarrow> nat \<Rightarrow> ('s, 'o) record_op" where
  "fanOut [] index obs s = (None, s)"
| "fanOut (r # rs) index obs s =
     (case r obs s of
        (Some e, s') \<Rightarrow> (Some (RecorderAt index e), s')
      | (None, s') \<Rightarrow> fanOut rs (Suc index) obs s')"

fun checkRecorders :: "'r option list \<Rightarrow> nat \<Rightarrow> multi_err + 'r list" where
  "checkRecorders [] index = Inr []"
| "checkRecorders (None # rs) index = Inl (NilRecorder index)"
| "checkRecorders (Some r # rs) index =
     bindR (checkRecorders rs (Suc index)) (\<lambda>xs. Inr (r # xs))"

definition NewMultiRecorder :: "'s recorder option list \<Rightarrow> multi_err + 's recorder list" where
  "NewMultiRecorder recorders =
     (if length recorders = 0 then Inl NoRecorders else checkRecorders recorders 0)"

definition MultiRecorder :: "'s recorder list \<Rightarrow> 's recorder" where
  "MultiRecorder rs =
     \<lparr>RecordSpec = fanOut (map RecordSpec rs) 0,
      RecordBeacon = fanOut (map RecordBeacon rs) 0,
      RecordHeadComparison = fanOut (map RecordHeadComparison rs) 0,
      RecordPollFailure = fanOut (map RecordPollFailure rs) 0\<rparr>"

definition NewMultiExecutionRecorder :: "'s exec_recorder option list \<Rightarrow> multi_err + 's exec_recorder list" where
  "NewMultiExecutionRecorder recorders =
     (if length recorders = 0 then Inl NoRecorders else checkRecorders recorders 0)"

definition MultiExecutionRecorder :: "'s exec_recorder list \<Rightarrow> 's exec_recorder" where
  "MultiExecutionRecorder rs =
     \<lparr>RecordExecution = fanOut (map RecordExecution rs) 0,
      RecordReorg = fanOut (map RecordReorg rs) 0,
      RecordExecFailure = fanOut (map RecordExecFailure rs) 0\<rparr>"

lemma checkRecorders_Inr: "checkRecorders rs n = Inr xs \<Longrightarrow> map Some xs = rs"
  by (induction rs n arbitrary: xs rule: checkRecorders.induct) (auto simp: result_simps)

text \<open>All the recorders of a list accept an observation, one after the other.\<close>

inductive accepts :: "('s, 'o) record_op list \<Rightarrow> 'o \<Rightarrow> 's \<Rightarrow> 's \<Rightarrow> bool" where
  "accepts [] obs s s"
| "r obs s = (None, t) \<Longrightarrow> accepts rs obs t u \<Longrightarrow> accepts (r # rs) obs s u"

inductive_simps accepts_Nil [simp]: "accepts [] obs s t"
inductive_simps accepts_Cons [simp]: "accepts (r # rs) obs s u"

lemma fanOut_None: "fanOut rs n obs s = (None, s') \<longleftrightarrow> accepts rs obs s s'"
proof (induction rs arbitrary: n s)
  case (Cons r rs)
  then show ?case by (cases "r obs s") (auto split: option.splits)
qed auto

lemma fanOut_Some:
  "fanOut rs n obs s = (Some x, s') \<longleftrightarrow>
     (\<exists>ys r zs e t. rs = ys @ r # zs \<and> accepts ys obs s t \<and> r obs t = (Some e, s') \<and>
        x = RecorderAt (n + length ys) e)"
proof (induction rs arbitrary: n s)
  case (Cons r rs)
  obtain f t where r: "r obs s = (f, t)" by (cases "r obs s")
  show ?case
  proof (cases f)
    case None
    then show ?thesis using r by (simp add: Cons.IH Cons_eq_append_conv conj_disj_distribR ex_disj_distrib) force
  next
    case (Some e)
    then show ?thesis using r by (simp add: Cons_eq_append_conv conj_disj_distribR ex_disj_distrib) force
  qed
qed simp

text \<open>
  a fan-out calls its recorders in order, each exactly once, up to and including the
  first that fails; the error names the position of that recorder, and the recorders after
  it are not called.
\<close>

theorem fanOut_calls:
  "fanOut rs n obs s = (err, s') \<longleftrightarrow>
     (case err of
        None \<Rightarrow> accepts rs obs s s'
      | Some x \<Rightarrow> \<exists>ys r zs e t. rs = ys @ r # zs \<and> accepts ys obs s t \<and>
                   r obs t = (Some e, s') \<and> x = RecorderAt (n + length ys) e)"
  by (cases err) (simp_all add: fanOut_None fanOut_Some)

end
