(* ===== verification/Dataset.thy ===== *)
theory Dataset
  imports Recorders
begin

text \<open>
  The in-memory dataset of one run (\<^verbatim>\<open>internal/observer/dataset_recorder.go\<close>) and the interface
  an observer relies on: a recorder that keeps every accepted observation, once and in order,
  and nothing of a rejected one. The dataset provides it, and so does a fan-out that ends in it.
\<close>

section \<open>State and operations\<close>

record dataset =
  dsSpecs :: "(string, beacon_spec) gomap"
  dsGenesis :: "(string, beacon_genesis) gomap"
  dsBeacon :: "beacon_observation list"
  dsComparisons :: "head_comparison list"
  dsGaps :: "poll_failure list"
  dsChanged :: bool

text \<open>\<^verbatim>\<open>dsChanged\<close> tells whether the notification channel, which holds one element, is full.\<close>

definition NewDatasetRecorder :: dataset where
  "NewDatasetRecorder =
     \<lparr>dsSpecs = [], dsGenesis = [], dsBeacon = [], dsComparisons = [], dsGaps = [], dsChanged = False\<rparr>"

definition cloneMap :: "(string, string) gomap \<Rightarrow> (string, string) gomap" where
  "cloneMap input = foldl (\<lambda>output (k, v). mput k v output) [] input"

definition cloneSpec :: "beacon_spec \<Rightarrow> beacon_spec" where
  "cloneSpec s = s\<lparr>ForkEpochs := cloneMap (ForkEpochs s)\<rparr>"

definition notify :: "dataset \<Rightarrow> dataset" where
  "notify d = d\<lparr>dsChanged := True\<rparr>"

text \<open>A receive on the channel of \<^verbatim>\<open>Changed\<close>: it takes the element, or would block.\<close>

definition receiveChanged :: "dataset \<Rightarrow> dataset option" where
  "receiveChanged d = (if dsChanged d then Some (d\<lparr>dsChanged := False\<rparr>) else None)"

definition Dataset_RecordSpec :: "(dataset, spec_observation) record_op" where
  "Dataset_RecordSpec obs d =
     (None, notify (d\<lparr>dsSpecs := mput (soTarget obs) (cloneSpec (soSpec obs)) (dsSpecs d),
                     dsGenesis := mput (soTarget obs) (soGenesis obs) (dsGenesis d)\<rparr>))"

definition Dataset_RecordBeacon :: "(dataset, beacon_observation) record_op" where
  "Dataset_RecordBeacon obs d = (None, notify (d\<lparr>dsBeacon := dsBeacon d @ [obs]\<rparr>))"

definition Dataset_RecordHeadComparison :: "(dataset, head_comparison) record_op" where
  "Dataset_RecordHeadComparison comparison d =
     (None, notify (d\<lparr>dsComparisons := dsComparisons d @
                        [comparison\<lparr>hcRoots := cloneMap (hcRoots comparison)\<rparr>]\<rparr>))"

definition Dataset_RecordPollFailure :: "(dataset, poll_failure) record_op" where
  "Dataset_RecordPollFailure failure d = (None, notify (d\<lparr>dsGaps := dsGaps d @ [failure]\<rparr>))"

definition DatasetRecorder :: "dataset recorder" where
  "DatasetRecorder =
     \<lparr>RecordSpec = Dataset_RecordSpec, RecordBeacon = Dataset_RecordBeacon,
      RecordHeadComparison = Dataset_RecordHeadComparison,
      RecordPollFailure = Dataset_RecordPollFailure\<rparr>"

record dataset_snapshot =
  snapSpecs :: "(string, beacon_spec) gomap"
  snapGenesis :: "(string, beacon_genesis) gomap"
  snapBeacon :: "beacon_observation list"
  snapComparisons :: "head_comparison list"
  snapGaps :: "poll_failure list"

definition Snapshot :: "dataset \<Rightarrow> dataset_snapshot" where
  "Snapshot d =
     \<lparr>snapSpecs = foldl (\<lambda>m (target, s). mput target (cloneSpec s) m) [] (dsSpecs d),
      snapGenesis = foldl (\<lambda>m (target, g). mput target g m) [] (dsGenesis d),
      snapBeacon = dsBeacon d,
      snapComparisons = map (\<lambda>c. c\<lparr>hcRoots := cloneMap (hcRoots c)\<rparr>) (dsComparisons d),
      snapGaps = dsGaps d\<rparr>"

section \<open>Copies are exact\<close>

lemma cloneMap_id [simp]: "gomap m \<Longrightarrow> cloneMap m = m"
  using foldl_mput_map [of m "\<lambda>v. v"] by (simp add: cloneMap_def)

lemma cloneSpec_id [simp]: "gomap (ForkEpochs s) \<Longrightarrow> cloneSpec s = s"
  by (simp add: cloneSpec_def)

text \<open>What the program ever records: maps with distinct keys.\<close>

definition wf_dataset :: "dataset \<Rightarrow> bool" where
  "wf_dataset d \<longleftrightarrow>
     gomap (dsSpecs d) \<and> gomap (dsGenesis d) \<and>
     (\<forall>(t, s) \<in> set (dsSpecs d). gomap (ForkEpochs s)) \<and>
     (\<forall>c \<in> set (dsComparisons d). gomap (hcRoots c))"

lemma wf_dataset_snoc:
  assumes "wf_dataset d"
  shows "gomap (hcRoots c) \<Longrightarrow> wf_dataset (snd (Dataset_RecordHeadComparison c d))"
    and "wf_dataset (snd (Dataset_RecordBeacon b d))"
    and "wf_dataset (snd (Dataset_RecordPollFailure f d))"
  using assms
  by (auto simp: wf_dataset_def Dataset_RecordHeadComparison_def Dataset_RecordBeacon_def
      Dataset_RecordPollFailure_def notify_def)

section \<open>The interface of an observer's recorder\<close>

text \<open>
  The laws an observer's invariants rest on, for a view of the recorder's state as three
  logs: an accepted observation is appended to its log and to no other, a rejected one to none.
\<close>

locale recorder_log =
  fixes rec :: "'s recorder"
    and beaconLog :: "'s \<Rightarrow> beacon_observation list"
    and comparisonLog :: "'s \<Rightarrow> head_comparison list"
    and gapLog :: "'s \<Rightarrow> poll_failure list"
  assumes spec_log: "RecordSpec rec a s = (e, s') \<Longrightarrow>
        beaconLog s' = beaconLog s \<and> comparisonLog s' = comparisonLog s \<and> gapLog s' = gapLog s"
    and beacon_log: "RecordBeacon rec b s = (e, s') \<Longrightarrow>
        beaconLog s' = beaconLog s @ (if e = None then [b] else []) \<and>
        comparisonLog s' = comparisonLog s \<and> gapLog s' = gapLog s"
    and comparison_log: "gomap (hcRoots c) \<Longrightarrow> RecordHeadComparison rec c s = (e, s') \<Longrightarrow>
        beaconLog s' = beaconLog s \<and>
        comparisonLog s' = comparisonLog s @ (if e = None then [c] else []) \<and> gapLog s' = gapLog s"
    and gap_log: "RecordPollFailure rec f s = (e, s') \<Longrightarrow>
        beaconLog s' = beaconLog s \<and> comparisonLog s' = comparisonLog s \<and>
        gapLog s' = gapLog s @ (if e = None then [f] else [])"
begin

text \<open>Observations are never lost: every operation only extends the logs.\<close>

lemma beacon_prefix: "RecordBeacon rec b s = (e, s') \<Longrightarrow> prefix (beaconLog s) (beaconLog s')"
  using beacon_log by auto

lemma gap_prefix: "RecordPollFailure rec f s = (e, s') \<Longrightarrow> prefix (gapLog s) (gapLog s')"
  using gap_log by auto

end

interpretation dataset: recorder_log DatasetRecorder dsBeacon dsComparisons dsGaps
  by unfold_locales
    (auto simp: DatasetRecorder_def Dataset_RecordSpec_def Dataset_RecordBeacon_def
      Dataset_RecordHeadComparison_def Dataset_RecordPollFailure_def notify_def)

text \<open>
  The fan-out of the orchestrated run: another recorder (the event file) first, then the
  dataset. \<open>onFst\<close> and \<open>onSnd\<close> let a recorder act on its own part of the state.
\<close>

definition onFst :: "('a, 'o) record_op \<Rightarrow> ('a \<times> 'b, 'o) record_op" where
  "onFst f obs s = (case f obs (fst s) of (e, a) \<Rightarrow> (e, (a, snd s)))"

definition onSnd :: "('b, 'o) record_op \<Rightarrow> ('a \<times> 'b, 'o) record_op" where
  "onSnd f obs s = (case f obs (snd s) of (e, b) \<Rightarrow> (e, (fst s, b)))"

definition recorderFst :: "'a recorder \<Rightarrow> ('a \<times> 'b) recorder" where
  "recorderFst r =
     \<lparr>RecordSpec = onFst (RecordSpec r), RecordBeacon = onFst (RecordBeacon r),
      RecordHeadComparison = onFst (RecordHeadComparison r),
      RecordPollFailure = onFst (RecordPollFailure r)\<rparr>"

definition recorderSnd :: "'b recorder \<Rightarrow> ('a \<times> 'b) recorder" where
  "recorderSnd r =
     \<lparr>RecordSpec = onSnd (RecordSpec r), RecordBeacon = onSnd (RecordBeacon r),
      RecordHeadComparison = onSnd (RecordHeadComparison r),
      RecordPollFailure = onSnd (RecordPollFailure r)\<rparr>"

definition fileAndDataset :: "'a recorder \<Rightarrow> ('a \<times> dataset) recorder" where
  "fileAndDataset file = MultiRecorder [recorderFst file, recorderSnd DatasetRecorder]"

lemmas file_dataset_defs =
  fileAndDataset_def MultiRecorder_def recorderFst_def recorderSnd_def onFst_def onSnd_def
  DatasetRecorder_def Dataset_RecordSpec_def Dataset_RecordBeacon_def
  Dataset_RecordHeadComparison_def Dataset_RecordPollFailure_def notify_def

interpretation file_dataset: recorder_log "fileAndDataset file" "\<lambda>s. dsBeacon (snd s)"
  "\<lambda>s. dsComparisons (snd s)" "\<lambda>s. dsGaps (snd s)"
  by unfold_locales
    (auto simp: file_dataset_defs split: prod.splits option.splits)

section \<open>Snapshots\<close>

text \<open>
  a snapshot is an exact copy of everything recorded so far, in order: recording the
  observations of a run into an empty dataset and taking a snapshot returns them.
\<close>

theorem Snapshot_exact:
  assumes "wf_dataset d"
  shows "Snapshot d =
     \<lparr>snapSpecs = dsSpecs d, snapGenesis = dsGenesis d, snapBeacon = dsBeacon d,
      snapComparisons = dsComparisons d, snapGaps = dsGaps d\<rparr>"
proof -
  have "map (\<lambda>(k, v). (k, cloneSpec v)) (dsSpecs d) = dsSpecs d"
    using assms by (intro map_idI) (auto simp: wf_dataset_def)
  moreover have "map (\<lambda>c. c\<lparr>hcRoots := cloneMap (hcRoots c)\<rparr>) (dsComparisons d) = dsComparisons d"
    using assms by (intro map_idI) (auto simp: wf_dataset_def)
  ultimately show ?thesis
    using assms foldl_mput_map [of "dsSpecs d" cloneSpec] foldl_mput_map [of "dsGenesis d" "\<lambda>v. v"]
    by (simp add: Snapshot_def wf_dataset_def)
qed

end
