(* ===== verification/Observer.thy ===== *)
theory Observer
  imports Dataset
begin

text \<open>
  The Beacon observer (\<^verbatim>\<open>internal/observer/observer.go\<close>): construction, one-time
  initialization, the slot arithmetic, one measurement of one target, and the goroutines of
  \<^verbatim>\<open>Run\<close> as a step relation in which the measurements of the targets interleave. A client is
  what it answers at the time of a call; the clock readings of a measurement are its inputs.
\<close>

section \<open>Construction\<close>

text \<open>What a client answers: the four calls of \<^verbatim>\<open>BeaconClient\<close>.\<close>

record beacon_api =
  apiSpec :: "call_err + beacon_spec"
  apiGenesis :: "call_err + beacon_genesis"
  apiHead :: "call_err + beacon_head"
  apiFinality :: "string \<Rightarrow> call_err + beacon_finality"

text \<open>A target; its client may be nil.\<close>

record 'c target =
  tgtName :: string
  tgtClient :: "'c option"

record observer_options =
  PollInterval :: int
  HeadHistoryLimit :: int

datatype (plugins only: code size) new_err =
    NoTargets
  | RecorderRequired
  | PollIntervalNotPositive
  | HistoryLimitTooSmall
  | EmptyTargetName
  | NilClient string
  | DuplicateTarget string
  | ComparatorErr comparator_err

text \<open>The loop over the targets with the names seen so far.\<close>

fun checkTargets :: "string list \<Rightarrow> 'c target list \<Rightarrow> new_err + unit" where
  "checkTargets seen [] = Inr ()"
| "checkTargets seen (target # rest) =
     (if tgtName target = [] then Inl EmptyTargetName
      else if tgtClient target = None then Inl (NilClient (tgtName target))
      else if tgtName target \<in> set seen then Inl (DuplicateTarget (tgtName target))
      else checkTargets (tgtName target # seen) rest)"

datatype (plugins only: code size) init_err =
    FetchSpec string call_err
  | FetchGenesis string call_err
  | SpecMismatch string string
  | GenesisMismatch string string
  | RecordSpecFailed string rec_err

record 'c observer =
  obsTargets :: "'c target list"
  obsPollInterval :: int
  headComparator :: "head_comparator option"
  initialized :: bool
  obsSpec :: beacon_spec
  obsGenesis :: beacon_genesis
  initializeErr :: "init_err option"

definition zeroSpec :: beacon_spec where
  "zeroSpec = \<lparr>SecondsPerSlot = 0, SlotsPerEpoch = 0, ForkEpochs = []\<rparr>"

definition zeroGenesis :: beacon_genesis where
  "zeroGenesis = \<lparr>genesisTime = 0, genesisSlot = 0, ValidatorsRoot = [], ForkVersion = []\<rparr>"

definition New :: "'c target list \<Rightarrow> 'r option \<Rightarrow> observer_options \<Rightarrow> new_err + 'c observer" where
  "New targets recorder options =
     (if length targets = 0 then Inl NoTargets
      else if recorder = None then Inl RecorderRequired
      else if PollInterval options \<le> 0 then Inl PollIntervalNotPositive
      else if HeadHistoryLimit options < 2 then Inl HistoryLimitTooSmall
      else bindR (checkTargets [] targets) (\<lambda>_.
        let targetCopy = sort_key tgtName targets in
        bindR (if length targetCopy > 1
               then wrapE ComparatorErr (map_sum id Some
                      (NewHeadComparator (map tgtName targetCopy) (HeadHistoryLimit options)))
               else Inr None) (\<lambda>comparator.
          Inr \<lparr>obsTargets = targetCopy, obsPollInterval = PollInterval options,
               headComparator = comparator, initialized = False, obsSpec = zeroSpec,
               obsGenesis = zeroGenesis, initializeErr = None\<rparr>)))"

section \<open>Slot arithmetic\<close>

definition CurrentSlotAt :: "time \<Rightarrow> u64 \<Rightarrow> u64 \<Rightarrow> u64 \<Rightarrow> obs_err + u64" where
  "CurrentSlotAt observedAt genesisT secondsPerSlot genesisS =
     (if secondsPerSlot = 0 then Inl SecondsPerSlotZero
      else let unixSeconds = UnixSeconds observedAt in
        if unixSeconds < 0 \<or> (word_of_int unixSeconds :: u64) < genesisT
        then Inl (PrecedesGenesis observedAt genesisT)
        else let slotsSinceGenesis = (word_of_int unixSeconds - genesisT) div secondsPerSlot in
          if slotsSinceGenesis > MaxUint64 - genesisS then Inl CurrentSlotOverflow
          else Inr (genesisS + slotsSinceGenesis))"

definition FinalityLag :: "u64 \<Rightarrow> u64 \<Rightarrow> u64 \<Rightarrow> obs_err + u64" where
  "FinalityLag currentSlot finalizedEpoch slotsPerEpoch =
     (if slotsPerEpoch = 0 then Inl SlotsPerEpochZero
      else if finalizedEpoch > MaxUint64 div slotsPerEpoch then Inl FinalizedSlotOverflow
      else let finalizedSlot = finalizedEpoch * slotsPerEpoch in
        if currentSlot < finalizedSlot then Inl (PrecedesFinalized currentSlot finalizedSlot)
        else Inr (currentSlot - finalizedSlot))"

text \<open>
  C32: the current slot is the genesis slot plus the whole slots since genesis, computed
  without wrap-around, and an error is returned exactly when that number does not exist:
  slots of no length, an observation before genesis, or a slot beyond 64 bits.
\<close>

theorem CurrentSlotAt_exact:
  assumes "UnixSeconds t < 2 ^ 63"
  shows "CurrentSlotAt t g sps gs = Inr slot \<longleftrightarrow>
     0 < unat sps \<and> int (unat g) \<le> UnixSeconds t \<and>
     unat slot = unat gs + (nat (UnixSeconds t) - unat g) div unat sps"
proof -
  let ?u = "word_of_int (UnixSeconds t) :: u64"
  show ?thesis
  proof (cases "sps \<noteq> 0 \<and> 0 \<le> UnixSeconds t")
    case True
    have u: "unat ?u = nat (UnixSeconds t)"
      using assms True by (simp add: unsigned_of_int take_bit_int_eq_self)
    show ?thesis
    proof (cases "?u < g")
      case True
      then have "nat (UnixSeconds t) < unat g" using u by (simp add: word_less_nat_alt)
      then have "\<not> int (unat g) \<le> UnixSeconds t"
        using nat_less_iff [of "UnixSeconds t" "unat g"] \<open>sps \<noteq> 0 \<and> 0 \<le> UnixSeconds t\<close> by linarith
      then show ?thesis using True by (simp add: CurrentSlotAt_def Let_def)
    next
      case False
      have le: "unat g \<le> nat (UnixSeconds t)" using False u by (simp add: word_less_nat_alt)
      have d: "unat ((?u - g) div sps) = (nat (UnixSeconds t) - unat g) div unat sps"
        using False u by (simp add: unat_div unat_sub64 word_le_nat_alt le)
      have pos: "0 < unat sps" using True by (simp add: unat_gt_0)
      show ?thesis
      proof (cases "unat gs + unat ((?u - g) div sps) < 2 ^ 64")
        case sum: True
        have "CurrentSlotAt t g sps gs = Inr (gs + (?u - g) div sps)"
          using True False sum max_sub_less_iff [of gs "(?u - g) div sps"]
          by (simp add: CurrentSlotAt_def Let_def)
        then show ?thesis using unat_add64 [OF sum] d le pos True
          by (auto simp: nat_le_iff le_nat_iff word_unat_eq_iff)
      next
        case ov: False
        then have "CurrentSlotAt t g sps gs = Inl CurrentSlotOverflow"
          using True False max_sub_less_iff [of gs "(?u - g) div sps"]
          by (simp add: CurrentSlotAt_def Let_def)
        moreover have "unat slot \<noteq> unat gs + (nat (UnixSeconds t) - unat g) div unat sps"
          using unat_not_big [OF ov, of _ slot] d by simp
        ultimately show ?thesis by simp
      qed
    qed
  next
    case False
    then consider "sps = 0" | "UnixSeconds t < 0" by linarith
    then show ?thesis
    proof cases
      case 2
      then have "\<not> int (unat g) \<le> UnixSeconds t" by linarith
      then show ?thesis using 2 by (simp add: CurrentSlotAt_def Let_def)
    qed (simp add: CurrentSlotAt_def)
  qed
qed

lemma FinalityLag_Inr:
  "FinalityLag cur epoch spe = Inr lag \<longleftrightarrow>
     0 < unat spe \<and> unat epoch * unat spe + unat lag = unat cur"
proof (cases "spe = 0")
  case True
  then show ?thesis by (simp add: FinalityLag_def)
next
  case False
  then have pos: "0 < unat spe" by (simp add: unat_gt_0)
  show ?thesis
  proof (cases "unat epoch * unat spe < 2 ^ 64")
    case True
    have lim: "\<not> MaxUint64 div spe < epoch"
      using max_div_less_iff [OF False, of epoch] True by (simp add: mult.commute)
    have m: "unat (epoch * spe) = unat epoch * unat spe" by (rule unat_mult64 [OF True])
    show ?thesis
    proof (cases "cur < epoch * spe")
      case True
      then show ?thesis using False lim m by (simp add: FinalityLag_def Let_def word_less_nat_alt)
    next
      case le: False
      then have "unat (cur - epoch * spe) = unat cur - unat epoch * unat spe"
        using m by (simp add: unat_sub64 not_less)
      moreover have "unat epoch * unat spe \<le> unat cur" using le m by (simp add: word_less_nat_alt)
      ultimately show ?thesis using False lim le pos
        by (auto simp: FinalityLag_def Let_def word_unat_eq_iff)
    qed
  next
    case over: False
    have "MaxUint64 div spe < epoch"
      using max_div_less_iff [OF False, of epoch] over by (simp add: mult.commute)
    moreover have "unat epoch * unat spe + unat lag \<noteq> unat cur"
      using unat_not_big [OF over le_add1, of cur] by metis
    ultimately show ?thesis using False by (simp add: FinalityLag_def)
  qed
qed

text \<open>
  C33: the finality lag is the exact distance in slots from the start of the finalized epoch
  to the current slot; there is a lag exactly when that distance exists, and neither the
  product nor the difference wraps.
\<close>

theorem FinalityLag_exact:
  "FinalityLag cur epoch spe = Inr lag \<longleftrightarrow>
     0 < unat spe \<and> unat epoch * unat spe + unat lag = unat cur"
  by (rule FinalityLag_Inr)

section \<open>Initialization\<close>

text \<open>
  The error of an error group: of the goroutines that failed, the one that came first in
  the order in which they finished.
\<close>

definition groupWait :: "nat list \<Rightarrow> 'e option list \<Rightarrow> 'e option" where
  "groupWait order errs =
     (case filter (\<lambda>i. i < length errs \<and> errs ! i \<noteq> None) order of
        [] \<Rightarrow> None
      | i # _ \<Rightarrow> errs ! i)"

definition fetchTarget :: "beacon_api target \<Rightarrow> init_err + beacon_spec \<times> beacon_genesis" where
  "fetchTarget target =
     (case apiSpec (the (tgtClient target)) of
        Inl e \<Rightarrow> Inl (FetchSpec (tgtName target) e)
      | Inr spec \<Rightarrow>
          (case apiGenesis (the (tgtClient target)) of
             Inl e \<Rightarrow> Inl (FetchGenesis (tgtName target) e)
           | Inr genesisValue \<Rightarrow> Inr (spec, genesisValue)))"

definition errOf :: "'e + 'a \<Rightarrow> 'e option" where
  "errOf r = (case r of Inl e \<Rightarrow> Some e | Inr _ \<Rightarrow> None)"

text \<open>The comparison of every later target with the first one.\<close>

fun checkAgree ::
  "string \<Rightarrow> beacon_spec \<Rightarrow> beacon_genesis \<Rightarrow> (string \<times> beacon_spec \<times> beacon_genesis) list \<Rightarrow> init_err + unit" where
  "checkAgree firstName reference genesis0 [] = Inr ()"
| "checkAgree firstName reference genesis0 ((name, spec, genesis) # rest) =
     (if \<not> Spec_Compatible spec reference then Inl (SpecMismatch name firstName)
      else if \<not> Genesis_Compatible genesis genesis0 then Inl (GenesisMismatch name firstName)
      else checkAgree firstName reference genesis0 rest)"

text \<open>The loop that records what was fetched, with the clock reading of each turn.\<close>

fun recordSpecs ::
  "'s recorder \<Rightarrow> (time \<times> string \<times> beacon_spec \<times> beacon_genesis) list \<Rightarrow> 's \<Rightarrow> init_err option \<times> 's" where
  "recordSpecs rec [] s = (None, s)"
| "recordSpecs rec ((t, name, spec, genesis) # rest) s =
     (case RecordSpec rec \<lparr>soTimestamp = t, soTarget = name, soSpec = spec, soGenesis = genesis\<rparr> s of
        (Some e, s') \<Rightarrow> (Some (RecordSpecFailed name e), s')
      | (None, s') \<Rightarrow> recordSpecs rec rest s')"

text \<open>\<open>order\<close> is the order in which the fetches finish, \<open>clock\<close> the clock readings.\<close>

definition initialize ::
  "'s recorder \<Rightarrow> nat list \<Rightarrow> time list \<Rightarrow> beacon_api observer \<Rightarrow> 's
     \<Rightarrow> init_err option \<times> beacon_api observer \<times> 's" where
  "initialize rec order clock ob s =
     (if initialized ob then (initializeErr ob, ob, s)
      else let results = map fetchTarget (obsTargets ob);
               names = map tgtName (obsTargets ob) in
        case groupWait order (map errOf results) of
          Some e \<Rightarrow> (Some e, ob\<lparr>initialized := True, initializeErr := Some e\<rparr>, s)
        | None \<Rightarrow>
            let fetched = zip names (map projr results); (reference, genesis0) = snd (hd fetched) in
            (case checkAgree (hd names) reference genesis0 (tl fetched) of
               Inl e \<Rightarrow> (Some e, ob\<lparr>initialized := True, initializeErr := Some e\<rparr>, s)
             | Inr _ \<Rightarrow>
                 let ob' = ob\<lparr>initialized := True, obsSpec := reference, obsGenesis := genesis0\<rparr> in
                 (case recordSpecs rec (zip clock fetched) s of
                    (Some e, s') \<Rightarrow> (Some e, ob'\<lparr>initializeErr := Some e\<rparr>, s')
                  | (None, s') \<Rightarrow> (None, ob', s'))))"

subsection \<open>What initialization establishes\<close>

lemma groupWait_None:
  assumes "groupWait order errs = None" "set order = {..<length errs}" "i < length errs"
  shows "errs ! i = None"
proof (rule ccontr)
  define P where "P = (\<lambda>i. i < length errs \<and> errs ! i \<noteq> None)"
  assume "errs ! i \<noteq> None"
  then have "i \<in> set (filter P order)" using assms(2,3) by (simp add: P_def)
  then obtain j r where jr: "filter P order = j # r" by (cases "filter P order") auto
  then have "P j" by (auto simp: filter_eq_Cons_iff)
  then show False using assms(1) jr by (simp add: groupWait_def P_def)
qed

lemma checkAgree_Inr:
  "checkAgree n reference g0 xs = Inr u \<longleftrightarrow>
     (\<forall>(name, sp, g) \<in> set xs. Spec_Compatible sp reference \<and> g = g0)"
  by (induction n reference g0 xs rule: checkAgree.induct) (auto simp: Genesis_Compatible_def)

lemma initialize_cases:
  assumes "\<not> initialized ob" "initialize rec order clock ob s = (err, ob', s')"
  shows "initialized ob' \<and> obsTargets ob' = obsTargets ob \<and> headComparator ob' = headComparator ob \<and>
    (err \<noteq> None \<longrightarrow> initializeErr ob' = err) \<and> (err = None \<longrightarrow> initializeErr ob' = initializeErr ob)"
  using assms
  by (auto simp: initialize_def Let_def split: option.splits prod.splits sum.splits)

lemma initialize_success:
  assumes "\<not> initialized ob" "initialize rec order clock ob s = (None, ob', s')"
    and "obsTargets ob \<noteq> []" "set order = {..<length (obsTargets ob)}"
  shows "\<forall>t \<in> set (tl (obsTargets ob)). \<exists>sp. fetchTarget t = Inr (sp, obsGenesis ob') \<and>
           Spec_Compatible sp (obsSpec ob')"
    and "fetchTarget (hd (obsTargets ob)) = Inr (obsSpec ob', obsGenesis ob')"
proof -
  define results where "results = map fetchTarget (obsTargets ob)"
  define fetched where "fetched = zip (map tgtName (obsTargets ob)) (map projr results)"
  have g: "groupWait order (map errOf results) = None"
    using assms(1,2) by (auto simp: initialize_def Let_def results_def split: option.splits prod.splits)
  have ok: "\<exists>x. fetchTarget t = Inr x" if t: "t \<in> set (obsTargets ob)" for t
  proof -
    from t obtain i where i: "i < length (obsTargets ob)" "obsTargets ob ! i = t" by (metis in_set_conv_nth)
    have "map errOf results ! i = None"
      by (rule groupWait_None [OF g]) (use i assms(4) in \<open>simp_all add: results_def\<close>)
    then show ?thesis using i by (cases "fetchTarget t") (simp_all add: results_def errOf_def)
  qed
  obtain t ts where ts: "obsTargets ob = t # ts" using assms(3) by (meson neq_Nil_conv)
  obtain reference g0 where r0: "fetchTarget t = Inr (reference, g0)" using ok [of t] ts by auto
  have f: "fetched = (tgtName t, reference, g0) # zip (map tgtName ts) (map (projr \<circ> fetchTarget) ts)"
    by (simp add: fetched_def results_def ts r0)
  have "checkAgree (tgtName t) reference g0 (tl fetched) = Inr () \<and>
      obsSpec ob' = reference \<and> obsGenesis ob' = g0"
    using assms(1,2) g f unfolding initialize_def results_def [symmetric] fetched_def [symmetric]
    by (auto simp: Let_def fetched_def results_def [symmetric] ts split: option.splits prod.splits sum.splits)
  then have c: "checkAgree (tgtName t) reference g0 (tl fetched) = Inr ()"
    and o': "obsSpec ob' = reference" "obsGenesis ob' = g0" by simp_all
  show "fetchTarget (hd (obsTargets ob)) = Inr (obsSpec ob', obsGenesis ob')"
    by (simp add: ts r0 o')
  show "\<forall>t \<in> set (tl (obsTargets ob)). \<exists>sp. fetchTarget t = Inr (sp, obsGenesis ob') \<and>
           Spec_Compatible sp (obsSpec ob')"
  proof
    fix u assume u: "u \<in> set (tl (obsTargets ob))"
    then obtain sp gu where ru: "fetchTarget u = Inr (sp, gu)" using ok [of u] ts by auto
    have "zip (map tgtName ts) (map (projr \<circ> fetchTarget) ts) =
        map (\<lambda>x. (tgtName x, projr (fetchTarget x))) ts"
      by (simp add: zip_map_map zip_same_conv_map)
    then have "(tgtName u, sp, gu) \<in> set (tl fetched)"
      using ru f u ts by (force simp: image_iff)
    with c ru o' show "\<exists>sp. fetchTarget u = Inr (sp, obsGenesis ob') \<and> Spec_Compatible sp (obsSpec ob')"
      unfolding checkAgree_Inr by auto
  qed
qed

lemma checkTargets_ok:
  "checkTargets seen targets = Inr u \<Longrightarrow>
     distinct (map tgtName targets) \<and> set (map tgtName targets) \<inter> set seen = {} \<and>
     (\<forall>t \<in> set targets. tgtName t \<noteq> [] \<and> tgtClient t \<noteq> None)"
  by (induction seen targets rule: checkTargets.induct) (auto split: if_splits)

text \<open>
  C39: an observer is constructed only for distinct, named targets that have a client; it
  keeps each of them once, in the order of their names, and compares heads, over exactly
  these names and with an empty history, when there are at least two.
\<close>

theorem New_sound:
  assumes "New targets recorder options = Inr ob"
  shows "mset (obsTargets ob) = mset targets \<and> targets \<noteq> [] \<and> sorted (map tgtName (obsTargets ob)) \<and>
    distinct (map tgtName (obsTargets ob)) \<and> (\<forall>t \<in> set targets. tgtName t \<noteq> [] \<and> tgtClient t \<noteq> None) \<and>
    0 < obsPollInterval ob \<and> \<not> initialized ob \<and>
    (case headComparator ob of
       None \<Rightarrow> length targets = 1
     | Some c \<Rightarrow> 2 \<le> length targets \<and> wf_comparator c \<and> slots c = [] \<and>
         set (cmpTargets c) = tgtName ` set targets)"
proof -
  let ?ts = "sort_key tgtName targets"
  from assms have c: "checkTargets [] targets = Inr ()" and n: "targets \<noteq> []" "0 < PollInterval options"
    and ob: "obsTargets ob = ?ts" "obsPollInterval ob = PollInterval options" "\<not> initialized ob"
    by (auto simp: New_def Let_def result_simps split: if_splits)
  have d: "distinct (map tgtName targets)" and cl: "\<forall>t \<in> set targets. tgtName t \<noteq> [] \<and> tgtClient t \<noteq> None"
    using checkTargets_ok [OF c] by simp_all
  have "mset (map tgtName ?ts) = mset (map tgtName targets)" by simp
  then have d': "distinct (map tgtName ?ts)" using d by (metis mset_eq_imp_distinct_iff)
  have cmp: "headComparator ob = Some c \<Longrightarrow> 2 \<le> length targets \<and> wf_comparator c \<and> slots c = [] \<and>
      set (cmpTargets c) = tgtName ` set targets" for c
    using assms NewHeadComparator_ok [of "map tgtName ?ts" "HeadHistoryLimit options"]
    by (cases "NewHeadComparator (map tgtName ?ts) (HeadHistoryLimit options)")
      (auto simp: New_def Let_def result_simps split: if_splits)
  have "headComparator ob = None \<Longrightarrow> \<not> 1 < length targets"
    using assms by (cases "NewHeadComparator (map tgtName ?ts) (HeadHistoryLimit options)")
      (auto simp: New_def Let_def result_simps split: if_splits)
  moreover have "0 < length targets" using n(1) by simp
  ultimately have "headComparator ob = None \<Longrightarrow> length targets = 1" by linarith
  with c n ob d' cl cmp show ?thesis by (auto split: option.splits)
qed

text \<open>
  C31: initialization succeeds only when the first target answered and every other target
  has the same genesis and a runtime spec compatible with the first one's; these are the
  values the observer then works with.
\<close>

theorem initialize_agreement:
  assumes "\<not> initialized ob" "obsTargets ob \<noteq> []" "set order = {..<length (obsTargets ob)}"
    and "initialize rec order clock ob s = (None, ob', s')"
  shows "fetchTarget (hd (obsTargets ob)) = Inr (obsSpec ob', obsGenesis ob') \<and>
    (\<forall>t \<in> set (tl (obsTargets ob)). \<exists>sp. fetchTarget t = Inr (sp, obsGenesis ob') \<and>
       Spec_Compatible sp (obsSpec ob'))"
  using initialize_success [OF assms(1,4,2,3)] by blast

text \<open>
  initialization happens once: after a first call, whatever its outcome, every later
  call returns that outcome again and neither fetches nor records anything.
\<close>

theorem initialize_once:
  assumes "\<not> initialized ob" "initializeErr ob = None" "initialize rec order clock ob s = (err, ob', s')"
  shows "initialize rec order2 clock2 ob' s2 = (err, ob', s2)"
proof -
  have "initialized ob'" "initializeErr ob' = err"
    using initialize_cases [OF assms(1,3)] assms(2) by (cases err; simp)+
  then show ?thesis by (simp add: initialize_def)
qed

section \<open>One measurement\<close>

definition durationSub :: "time \<Rightarrow> time \<Rightarrow> int" where
  "durationSub t u = max (- (2 ^ 63)) (min (2 ^ 63 - 1) (t - u))"

definition pollBeacon :: "beacon_api \<Rightarrow> obs_err + beacon_head \<times> beacon_finality" where
  "pollBeacon client =
     (case apiHead client of
        Inl e \<Rightarrow> Inl (FetchHead e)
      | Inr head \<Rightarrow>
          (case apiFinality client (StateRoot head) of
             Inl e \<Rightarrow> Inl (FetchFinality (StateRoot head) e)
           | Inr finality \<Rightarrow> Inr (head, finality)))"

definition isCanceled :: "obs_err \<Rightarrow> bool" where
  "isCanceled e \<longleftrightarrow> (case e of
     FetchHead c \<Rightarrow> c = CtxCanceled | FetchFinality _ c \<Rightarrow> c = CtxCanceled | _ \<Rightarrow> False)"

text \<open>
  The first half of \<^verbatim>\<open>pollAndRecord\<close>: nothing when the context was cancelled, else the
  failure or the observation to record.
\<close>

definition takeMeasurement ::
  "beacon_spec \<Rightarrow> beacon_genesis \<Rightarrow> string \<Rightarrow> beacon_api \<Rightarrow> time \<Rightarrow> time
     \<Rightarrow> poll_failure option + beacon_observation" where
  "takeMeasurement spec genesis name client started observedAt =
     (let duration = durationSub observedAt started;
          failure = (\<lambda>operation e.
            \<lparr>pfTimestamp = observedAt, pfTarget = name, pfProtocol = ''beacon'',
             pfOperation = operation, pfError = e, pfPollDuration = duration\<rparr>) in
      case pollBeacon client of
        Inl e \<Rightarrow> if isCanceled e then Inl None else Inl (Some (failure ''beacon_poll'' e))
      | Inr (head, finality) \<Rightarrow>
          (case CurrentSlotAt observedAt (genesisTime genesis) (SecondsPerSlot spec) (genesisSlot genesis) of
             Inl e \<Rightarrow> Inl (Some (failure ''calculate_current_slot'' e))
           | Inr currentSlot \<Rightarrow>
               (case FinalityLag currentSlot (finalityEpoch finality) (SlotsPerEpoch spec) of
                  Inl e \<Rightarrow> Inl (Some (failure ''calculate_finality_lag'' e))
                | Inr lag \<Rightarrow>
                    Inr \<lparr>boTimestamp = observedAt, boTarget = name, boCurrentSlot = currentSlot,
                         boHead = head, boFinality = finality, boFinalityLag = lag,
                         boPollDuration = duration\<rparr>)))"

datatype (plugins only: code size) poll_err =
    RecordFailureFailed string rec_err
  | RecordBeaconFailed string rec_err
  | RecordComparisonFailed u64 rec_err

definition pollAndRecord ::
  "'s recorder \<Rightarrow> beacon_spec \<Rightarrow> beacon_genesis \<Rightarrow> string \<Rightarrow> beacon_api \<Rightarrow> time \<Rightarrow> time
     \<Rightarrow> head_comparator option \<times> 's \<Rightarrow> poll_err option \<times> head_comparator option \<times> 's" where
  "pollAndRecord rec spec genesis name client started observedAt = (\<lambda>(comparator, s).
     case takeMeasurement spec genesis name client started observedAt of
       Inl None \<Rightarrow> (None, comparator, s)
     | Inl (Some failure) \<Rightarrow>
         (case RecordPollFailure rec failure s of
            (Some e, s') \<Rightarrow> (Some (RecordFailureFailed name e), comparator, s')
          | (None, s') \<Rightarrow> (None, comparator, s'))
     | Inr observation \<Rightarrow>
         (case RecordBeacon rec observation s of
            (Some e, s') \<Rightarrow> (Some (RecordBeaconFailed name e), comparator, s')
          | (None, s') \<Rightarrow>
              (case comparator of
                 None \<Rightarrow> (None, None, s')
               | Some c \<Rightarrow>
                   (case Comparator_Observe (boTimestamp observation) name (boHead observation) c of
                      (None, c') \<Rightarrow> (None, Some c', s')
                    | (Some comparison, c') \<Rightarrow>
                        (case RecordHeadComparison rec comparison s' of
                           (Some e, s'') \<Rightarrow>
                             (Some (RecordComparisonFailed (hcSlot comparison) e), Some c', s'')
                         | (None, s'') \<Rightarrow> (None, Some c', s''))))))"

section \<open>The goroutines of a run\<close>

text \<open>
  One goroutine per target. Its phase is between two accesses to shared state: the recorder
  and the comparator are locked for one call at a time, so the measurements of different
  targets interleave at these points. The first error of a goroutine becomes the error of
  the group.
\<close>

datatype (plugins only: code size) phase = Ready | Observed beacon_observation | Comparing head_comparison | Stopped

record 's run_state =
  rsRecorder :: 's
  rsComparator :: "head_comparator option"
  rsPhase :: "string \<Rightarrow> phase"
  rsError :: "poll_err option"

definition fail :: "string \<Rightarrow> poll_err \<Rightarrow> 's run_state \<Rightarrow> 's run_state" where
  "fail name e st = st\<lparr>rsPhase := (rsPhase st)(name := Stopped),
     rsError := (case rsError st of None \<Rightarrow> Some e | Some e0 \<Rightarrow> Some e0)\<rparr>"

definition proceed :: "string \<Rightarrow> phase \<Rightarrow> 's run_state \<Rightarrow> 's run_state" where
  "proceed name ph st = st\<lparr>rsPhase := (rsPhase st)(name := ph)\<rparr>"

text \<open>After a call of the recorder: the next phase, or the goroutine's error.\<close>

definition settle :: "string \<Rightarrow> (rec_err \<Rightarrow> poll_err) \<Rightarrow> phase \<Rightarrow> rec_err option \<times> 's
    \<Rightarrow> 's run_state \<Rightarrow> 's run_state" where
  "settle name wrap ph r st =
     (case r of
        (Some e, s') \<Rightarrow> fail name (wrap e) (st\<lparr>rsRecorder := s'\<rparr>)
      | (None, s') \<Rightarrow> proceed name ph (st\<lparr>rsRecorder := s'\<rparr>))"

inductive observer_step ::
  "'s recorder \<Rightarrow> beacon_spec \<Rightarrow> beacon_genesis \<Rightarrow> string list \<Rightarrow> 's run_state \<Rightarrow> 's run_state \<Rightarrow> bool"
  for rec spec genesis names
where
  cancelled: "name \<in> set names \<Longrightarrow> rsPhase st name = Ready \<Longrightarrow>
     takeMeasurement spec genesis name client started observedAt = Inl None \<Longrightarrow>
     observer_step rec spec genesis names st (proceed name Ready st)"
| gap: "name \<in> set names \<Longrightarrow> rsPhase st name = Ready \<Longrightarrow>
     takeMeasurement spec genesis name client started observedAt = Inl (Some failure) \<Longrightarrow>
     observer_step rec spec genesis names st
       (settle name (RecordFailureFailed name) Ready (RecordPollFailure rec failure (rsRecorder st)) st)"
| observed: "name \<in> set names \<Longrightarrow> rsPhase st name = Ready \<Longrightarrow>
     takeMeasurement spec genesis name client started observedAt = Inr observation \<Longrightarrow>
     observer_step rec spec genesis names st
       (settle name (RecordBeaconFailed name)
         (if rsComparator st = None then Ready else Observed observation)
         (RecordBeacon rec observation (rsRecorder st)) st)"
| compared: "rsPhase st name = Observed observation \<Longrightarrow> rsComparator st = Some c \<Longrightarrow>
     Comparator_Observe (boTimestamp observation) name (boHead observation) c = (comparison, c') \<Longrightarrow>
     observer_step rec spec genesis names st
       (proceed name (case comparison of None \<Rightarrow> Ready | Some cmp \<Rightarrow> Comparing cmp)
         (st\<lparr>rsComparator := Some c'\<rparr>))"
| emitted: "rsPhase st name = Comparing comparison \<Longrightarrow>
     observer_step rec spec genesis names st
       (settle name (RecordComparisonFailed (hcSlot comparison)) Ready
         (RecordHeadComparison rec comparison (rsRecorder st)) st)"
| stopped: "rsPhase st name = Ready \<Longrightarrow>
     observer_step rec spec genesis names st (proceed name Stopped st)"

abbreviation observer_run ::
  "'s recorder \<Rightarrow> beacon_spec \<Rightarrow> beacon_genesis \<Rightarrow> string list \<Rightarrow> 's run_state \<Rightarrow> 's run_state \<Rightarrow> bool" where
  "observer_run rec spec genesis names \<equiv> (observer_step rec spec genesis names)\<^sup>*\<^sup>*"

definition run_start :: "'s \<Rightarrow> head_comparator option \<Rightarrow> 's run_state" where
  "run_start s comparator =
     \<lparr>rsRecorder = s, rsComparator = comparator, rsPhase = (\<lambda>_. Ready), rsError = None\<rparr>"

lemmas step_defs = settle_def fail_def proceed_def

lemma settle_None [simp]: "settle name w ph (None, s') st = proceed name ph (st\<lparr>rsRecorder := s'\<rparr>)"
  and settle_Some [simp]: "settle name w ph (Some e, s') st = fail name (w e) (st\<lparr>rsRecorder := s'\<rparr>)"
  by (simp_all add: settle_def)

lemma proceed_simps [simp]:
  "rsRecorder (proceed n ph st) = rsRecorder st" "rsComparator (proceed n ph st) = rsComparator st"
  "rsPhase (proceed n ph st) = (rsPhase st)(n := ph)" "rsError (proceed n ph st) = rsError st"
  by (simp_all add: proceed_def)

lemma fail_simps [simp]:
  "rsRecorder (fail n e st) = rsRecorder st" "rsComparator (fail n e st) = rsComparator st"
  "rsPhase (fail n e st) = (rsPhase st)(n := Stopped)" "rsError (fail n e st) \<noteq> None"
  by (simp_all add: fail_def split: option.splits)

text \<open>
  The state after one whole measurement of a target, as \<^verbatim>\<open>pollAndRecord\<close> computes it.
\<close>

definition after_poll ::
  "string \<Rightarrow> poll_err option \<times> head_comparator option \<times> 's \<Rightarrow> 's run_state \<Rightarrow> 's run_state" where
  "after_poll name r st = (case r of (err, comparator, s') \<Rightarrow>
     (case err of
        None \<Rightarrow> proceed name Ready (st\<lparr>rsRecorder := s', rsComparator := comparator\<rparr>)
      | Some e \<Rightarrow> fail name e (st\<lparr>rsRecorder := s', rsComparator := comparator\<rparr>)))"

text \<open>
  a measurement that no other target interrupts is a run of the step relation that ends
  where \<^verbatim>\<open>pollAndRecord\<close> says.
\<close>

theorem pollAndRecord_steps:
  assumes "name \<in> set names" "rsPhase st name = Ready"
  shows "observer_run rec spec genesis names st
     (after_poll name (pollAndRecord rec spec genesis name client started observedAt
        (rsComparator st, rsRecorder st)) st)"
proof (cases "takeMeasurement spec genesis name client started observedAt")
  case (Inl f)
  show ?thesis
  proof (cases f)
    case None
    have "observer_step rec spec genesis names st (proceed name Ready st)"
      by (rule observer_step.cancelled [OF assms]) (use Inl None in simp)
    then show ?thesis using Inl None by (auto simp: pollAndRecord_def after_poll_def)
  next
    case (Some failure)
    obtain e s' where r: "RecordPollFailure rec failure (rsRecorder st) = (e, s')" by fastforce
    have "observer_step rec spec genesis names st
        (settle name (RecordFailureFailed name) Ready (RecordPollFailure rec failure (rsRecorder st)) st)"
      by (rule observer_step.gap [OF assms]) (use Inl Some in simp)
    then show ?thesis using Inl Some r
      by (cases e) (auto simp: pollAndRecord_def after_poll_def step_defs intro!: r_into_rtranclp)
  qed
next
  case (Inr ob)
  obtain e s' where r: "RecordBeacon rec ob (rsRecorder st) = (e, s')" by fastforce
  have s1: "observer_step rec spec genesis names st
      (settle name (RecordBeaconFailed name) (if rsComparator st = None then Ready else Observed ob)
         (RecordBeacon rec ob (rsRecorder st)) st)"
    by (rule observer_step.observed [OF assms]) (use Inr in simp)
  show ?thesis
  proof (cases "e \<noteq> None \<or> rsComparator st = None")
    case True
    with s1 show ?thesis using Inr r
      by (cases st; cases e)
        (auto simp: pollAndRecord_def after_poll_def step_defs intro!: r_into_rtranclp)
  next
    case False
    then obtain c where e: "e = None" and c: "rsComparator st = Some c" by auto
    obtain cmp c' where o: "Comparator_Observe (boTimestamp ob) name (boHead ob) c = (cmp, c')" by fastforce
    define st1 where "st1 = proceed name (Observed ob) (st\<lparr>rsRecorder := s'\<rparr>)"
    have s1': "observer_step rec spec genesis names st st1"
      using s1 r e c by (simp add: st1_def)
    define st2 where "st2 = proceed name (case cmp of None \<Rightarrow> Ready | Some x \<Rightarrow> Comparing x)
      (st1\<lparr>rsComparator := Some c'\<rparr>)"
    have s2: "observer_step rec spec genesis names st1 st2"
      unfolding st2_def by (rule observer_step.compared [OF _ _ o]) (simp_all add: st1_def c)
    show ?thesis
    proof (cases cmp)
      case None
      then have "after_poll name (pollAndRecord rec spec genesis name client started observedAt
          (rsComparator st, rsRecorder st)) st = st2"
        using Inr r e c o by (simp add: pollAndRecord_def after_poll_def st2_def st1_def proceed_def)
      with s1' s2 show ?thesis by (simp add: converse_rtranclp_into_rtranclp)
    next
      case (Some x)
      obtain f s'' where f: "RecordHeadComparison rec x s' = (f, s'')" by fastforce
      have "observer_step rec spec genesis names st2
          (settle name (RecordComparisonFailed (hcSlot x)) Ready
            (RecordHeadComparison rec x (rsRecorder st2)) st2)"
        by (rule observer_step.emitted) (simp add: st2_def Some)
      moreover have "settle name (RecordComparisonFailed (hcSlot x)) Ready
            (RecordHeadComparison rec x (rsRecorder st2)) st2 =
          after_poll name (pollAndRecord rec spec genesis name client started observedAt
            (rsComparator st, rsRecorder st)) st"
        using Inr r e c o f Some
        by (cases f) (simp_all add: pollAndRecord_def after_poll_def st2_def st1_def step_defs)
      ultimately show ?thesis using s1' s2 by (metis converse_rtranclp_into_rtranclp rtranclp.rtrancl_refl)
    qed
  qed
qed

section \<open>What every run records\<close>

text \<open>
  A recorded observation is exact: taken of one of the targets, at the slot its timestamp
  lies in, with the lag that takes the finalized epoch's first slot to that slot.
\<close>

definition exactObservation ::
  "beacon_spec \<Rightarrow> beacon_genesis \<Rightarrow> string list \<Rightarrow> beacon_observation \<Rightarrow> bool" where
  "exactObservation spec genesis names ob \<longleftrightarrow>
     boTarget ob \<in> set names \<and>
     CurrentSlotAt (boTimestamp ob) (genesisTime genesis) (SecondsPerSlot spec) (genesisSlot genesis) =
       Inr (boCurrentSlot ob) \<and>
     unat (finalityEpoch (boFinality ob)) * unat (SlotsPerEpoch spec) + unat (boFinalityLag ob) =
       unat (boCurrentSlot ob)"

text \<open>Some recorded observation of the target has that root as its head at that slot.\<close>

definition observedRoot :: "beacon_observation list \<Rightarrow> u64 \<Rightarrow> string \<Rightarrow> string \<Rightarrow> bool" where
  "observedRoot obs slot target root \<longleftrightarrow>
     list_ex (\<lambda>ob. boTarget ob = target \<and> headSlot (boHead ob) = slot \<and> headRoot (boHead ob) = root) obs"

text \<open>
  A comparison is backed by observations: it names every target and no other, each root was
  recorded for its target at that slot, and it says whether these roots are all the same.
\<close>

definition backedComparison ::
  "string list \<Rightarrow> beacon_observation list \<Rightarrow> head_comparison \<Rightarrow> bool" where
  "backedComparison names obs cmp \<longleftrightarrow>
     gomap (hcRoots cmp) \<and> dom (map_of (hcRoots cmp)) = set names \<and>
     (\<forall>t r. map_of (hcRoots cmp) t = Some r \<longrightarrow> observedRoot obs (hcSlot cmp) t r) \<and>
     ((\<forall>ob \<in> set obs. headRoot (boHead ob) \<noteq> []) \<longrightarrow>
        (hcAgreement cmp \<longleftrightarrow> (\<forall>r r'. r \<in> ran (map_of (hcRoots cmp)) \<and>
                                       r' \<in> ran (map_of (hcRoots cmp)) \<longrightarrow> r = r')))"

lemma takeMeasurement_exact:
  assumes "takeMeasurement spec genesis name client started observedAt = Inr ob" "name \<in> set names"
  shows "exactObservation spec genesis names ob \<and> boTarget ob = name"
  using assms
  by (auto simp: takeMeasurement_def exactObservation_def Let_def FinalityLag_Inr
      split: sum.splits if_splits)

lemma observedRoot_append: "observedRoot obs s t r \<Longrightarrow> observedRoot (obs @ extra) s t r"
  by (auto simp: observedRoot_def)

lemma observedRoot_self: "ob \<in> set obs \<Longrightarrow> observedRoot obs (headSlot (boHead ob)) (boTarget ob) (headRoot (boHead ob))"
  by (auto simp: observedRoot_def list_ex_iff)

lemma backedComparison_append: "backedComparison names obs c \<Longrightarrow> backedComparison names (obs @ extra) c"
  unfolding backedComparison_def using observedRoot_append by (metis Un_iff set_append)

lemma Observe_backed:
  assumes "rootsFrom (observedRoot obs) c" "ob \<in> set obs" "set (cmpTargets c) = set names"
    and "fst (Comparator_Observe ts (boTarget ob) (boHead ob) c) = Some cmp"
  shows "backedComparison names obs cmp"
proof -
  note o = Observe_comparison [OF assms(1) observedRoot_self [OF assms(2)] assms(4)]
  have "r \<noteq> []" if "\<forall>ob \<in> set obs. headRoot (boHead ob) \<noteq> []" "observedRoot obs s t r" for s t r
    using that by (auto simp: observedRoot_def list_ex_iff)
  with o assms(3) show ?thesis unfolding backedComparison_def by metis
qed

text \<open>The invariant of a run, over the logs of the recorder.\<close>

definition phaseOk :: "string list \<Rightarrow> beacon_observation list \<Rightarrow> string \<Rightarrow> phase \<Rightarrow> bool" where
  "phaseOk names obs name ph \<longleftrightarrow> (case ph of
     Observed ob \<Rightarrow> ob \<in> set obs \<and> boTarget ob = name
   | Comparing cmp \<Rightarrow> backedComparison names obs cmp
   | _ \<Rightarrow> True)"

lemma phaseOk_append: "phaseOk names obs n ph \<Longrightarrow> phaseOk names (obs @ extra) n ph"
  by (auto simp: phaseOk_def backedComparison_append split: phase.splits)

definition logsOk ::
  "beacon_spec \<Rightarrow> beacon_genesis \<Rightarrow> string list \<Rightarrow> beacon_observation list \<Rightarrow> head_comparison list
     \<Rightarrow> head_comparator option \<Rightarrow> (string \<Rightarrow> phase) \<Rightarrow> bool" where
  "logsOk spec genesis names obs cmps comparator ph \<longleftrightarrow>
     (\<forall>ob \<in> set obs. exactObservation spec genesis names ob) \<and>
     (\<forall>c \<in> set cmps. backedComparison names obs c) \<and>
     (\<forall>c. comparator = Some c \<longrightarrow> set (cmpTargets c) = set names \<and> rootsFrom (observedRoot obs) c) \<and>
     (\<forall>n. phaseOk names obs n (ph n))"

lemma phaseOk_simps [simp]:
  "phaseOk names obs n Ready" "phaseOk names obs n Stopped"
  "phaseOk names obs n (Observed ob) \<longleftrightarrow> ob \<in> set obs \<and> boTarget ob = n"
  "phaseOk names obs n (Comparing c) \<longleftrightarrow> backedComparison names obs c"
  by (simp_all add: phaseOk_def)

lemma logsOk_observe:
  assumes "logsOk spec genesis names obs cmps comparator ph" "exactObservation spec genesis names ob"
    and "phaseOk names (obs @ [ob]) name p"
  shows "logsOk spec genesis names (obs @ [ob]) cmps comparator (ph(name := p))"
  using assms unfolding logsOk_def
  by (auto simp: backedComparison_append phaseOk_append intro: rootsFrom_mono observedRoot_append)

lemma logsOk_phase:
  "logsOk spec genesis names obs cmps comparator ph \<Longrightarrow> phaseOk names obs name p \<Longrightarrow>
   logsOk spec genesis names obs cmps comparator (ph(name := p))"
  by (simp add: logsOk_def)

lemma Observe_cmpTargets: "cmpTargets (snd (Comparator_Observe ts target head c)) = cmpTargets c"
  by (simp add: Comparator_Observe_def Let_def split: option.splits)

context recorder_log begin

definition run_ok :: "beacon_spec \<Rightarrow> beacon_genesis \<Rightarrow> string list \<Rightarrow> 's run_state \<Rightarrow> bool" where
  "run_ok spec genesis names st \<longleftrightarrow>
     logsOk spec genesis names (beaconLog (rsRecorder st)) (comparisonLog (rsRecorder st))
       (rsComparator st) (rsPhase st)"

lemma step_ok:
  assumes "observer_step rec spec genesis names st st'" "run_ok spec genesis names st"
  shows "run_ok spec genesis names st'"
  using assms
proof cases
  case (cancelled name client started observedAt)
  with assms(2) show ?thesis by (simp add: run_ok_def logsOk_phase)
next
  case (gap name client started observedAt failure)
  obtain e s' where r: "RecordPollFailure rec failure (rsRecorder st) = (e, s')" by fastforce
  with gap_log [OF r] assms(2) gap(1) show ?thesis by (cases e) (simp_all add: run_ok_def logsOk_phase)
next
  case (observed name client started observedAt ob)
  obtain e s' where r: "RecordBeacon rec ob (rsRecorder st) = (e, s')" by fastforce
  from takeMeasurement_exact [OF observed(4,2)]
  have ob: "exactObservation spec genesis names ob" "boTarget ob = name" by simp_all
  with beacon_log [OF r] assms(2) observed(1) r show ?thesis
    by (cases e) (simp_all add: run_ok_def logsOk_phase logsOk_observe)
next
  case (compared name ob c cmp c')
  have ph: "ob \<in> set (beaconLog (rsRecorder st))" "boTarget ob = name"
    and cs: "set (cmpTargets c) = set names" "rootsFrom (observedRoot (beaconLog (rsRecorder st))) c"
    using assms(2) compared(2,3) phaseOk_simps(3) unfolding run_ok_def logsOk_def by metis+
  have fs: "cmp = fst (Comparator_Observe (boTimestamp ob) (boTarget ob) (boHead ob) c)"
    "c' = snd (Comparator_Observe (boTimestamp ob) (boTarget ob) (boHead ob) c)"
    using compared(4) ph by simp_all
  have b: "backedComparison names (beaconLog (rsRecorder st)) x" if "cmp = Some x" for x
    by (rule Observe_backed [OF cs(2) ph(1) cs(1)]) (use fs(1) that in simp)
  have "rootsFrom (observedRoot (beaconLog (rsRecorder st))) c'"
    unfolding fs(2) using cs(2) observedRoot_self [OF ph(1)] by (rule Observe_rootsFrom)
  moreover have "set (cmpTargets c') = set names" by (simp add: fs(2) Observe_cmpTargets cs(1))
  ultimately show ?thesis using assms(2) compared(1) b
    by (auto simp: run_ok_def logsOk_def split: option.splits)
next
  case (emitted name cmp)
  obtain e s' where r: "RecordHeadComparison rec cmp (rsRecorder st) = (e, s')" by fastforce
  have b: "backedComparison names (beaconLog (rsRecorder st)) cmp"
    using assms(2) emitted(2) unfolding run_ok_def logsOk_def by (metis phaseOk_simps(4))
  then have "gomap (hcRoots cmp)" by (simp add: backedComparison_def)
  from comparison_log [OF this r] assms(2) emitted(1) r b show ?thesis
    by (cases e) (simp_all add: run_ok_def logsOk_phase, auto simp: logsOk_def)
next
  case (stopped name)
  with assms(2) show ?thesis by (simp add: run_ok_def logsOk_phase)
qed

lemma run_invariant:
  assumes "observer_run rec spec genesis names st st'" "run_ok spec genesis names st"
  shows "run_ok spec genesis names st'"
  using assms by (induction rule: rtranclp_induct) (auto intro: step_ok)

text \<open>Nothing recorded is lost or changed by a later step.\<close>

lemma step_prefix:
  assumes "observer_step rec spec genesis names st st'" "run_ok spec genesis names st"
  shows "prefix (beaconLog (rsRecorder st)) (beaconLog (rsRecorder st'))"
  using assms(1)
proof cases
  case (gap name client started observedAt failure)
  obtain e s' where r: "RecordPollFailure rec failure (rsRecorder st) = (e, s')" by fastforce
  with gap_log [OF r] gap(1) show ?thesis by (cases e) simp_all
next
  case (observed name client started observedAt ob)
  obtain e s' where r: "RecordBeacon rec ob (rsRecorder st) = (e, s')" by fastforce
  with beacon_prefix [OF r] observed(1) show ?thesis by (cases e) simp_all
next
  case (emitted name cmp)
  obtain e s' where r: "RecordHeadComparison rec cmp (rsRecorder st) = (e, s')" by fastforce
  have "gomap (hcRoots cmp)"
    using assms(2) emitted(2) unfolding run_ok_def logsOk_def backedComparison_def
    by (metis phaseOk_simps(4) backedComparison_def)
  from comparison_log [OF this r] emitted(1) r show ?thesis by (cases e) simp_all
qed simp_all

end

text \<open>
  C5: whatever the interleaving of the targets' measurements, with the event file and the
  dataset as recorders: every observation in the dataset is exact, and every head comparison
  names exactly the observed targets and is backed, root by root, by observations in the
  dataset at that slot.
\<close>

theorem Observer_run_dataset:
  assumes "observer_run (fileAndDataset file) spec genesis names (run_start (f, NewDatasetRecorder) comparator) st"
    and "\<And>c. comparator = Some c \<Longrightarrow> set (cmpTargets c) = set names \<and> slots c = []"
  shows "(\<forall>ob \<in> set (dsBeacon (snd (rsRecorder st))). exactObservation spec genesis names ob) \<and>
    (\<forall>cmp \<in> set (dsComparisons (snd (rsRecorder st))).
       backedComparison names (dsBeacon (snd (rsRecorder st))) cmp)"
proof -
  have "file_dataset.run_ok spec genesis names (run_start (f, NewDatasetRecorder) comparator)"
    using assms(2)
    by (auto simp: file_dataset.run_ok_def logsOk_def run_start_def NewDatasetRecorder_def rootsFrom_def)
  from file_dataset.run_invariant [OF assms(1) this] show ?thesis
    by (simp add: file_dataset.run_ok_def logsOk_def)
qed

end
