(* ===== verification/ExecutionObserver.thy ===== *)
theory ExecutionObserver
  imports Recorders
begin

text \<open>
  The execution observer (\<^verbatim>\<open>internal/observer/execution_observer.go\<close>): construction, what is
  done with each head of a subscription, and the reconnect loop of one target. The
  subscription is an interface: it calls the receiver on heads until one call fails.
\<close>

section \<open>The subscription interface\<close>

type_synonym 's receiver = "exec_head \<Rightarrow> 's \<Rightarrow> bool \<times> 's"

type_synonym 's subscription = "'s receiver \<Rightarrow> 's \<Rightarrow> exec_err option \<times> 's"

text \<open>
  The law of \<^verbatim>\<open>SubscribeNewHeads\<close>: whatever it returns, the receiver has been called on some
  heads, in order, each after the success of the one before, and nothing else was touched.
\<close>

locale head_source =
  fixes subscribe :: "'s subscription"
  assumes only_receives: "\<exists>heads. snd (subscribe receive s) = receiveAll receive heads s"
begin

text \<open>\<open>I\<close> holds between the calls of the receiver, \<open>J\<close> also after its failure.\<close>

lemma subscribe_inv:
  assumes "I s" "\<And>t. I t \<Longrightarrow> J t"
    and "\<And>h t t'. I t \<Longrightarrow> receive h t = (True, t') \<Longrightarrow> I t'"
    and "\<And>h t t'. I t \<Longrightarrow> receive h t = (False, t') \<Longrightarrow> J t'"
  shows "J (snd (subscribe receive s))"
proof -
  obtain heads where "snd (subscribe receive s) = receiveAll receive heads s"
    using only_receives by blast
  moreover have "I s \<Longrightarrow> J (receiveAll receive heads s)" for s
  proof (induction heads arbitrary: s)
    case (Cons h hs)
    then show ?case using assms(3,4) by (auto split: prod.splits bool.splits)
  qed (simp add: assms(2))
  ultimately show ?thesis using assms(1) by simp
qed

end

definition clientSubscription :: "(string \<Rightarrow> json option) \<Rightarrow> ws_session \<Rightarrow> 's subscription" where
  "clientSubscription parse ws receive s =
     (case SubscribeNewHeads parse ws (Some receive) s of (e, s') \<Rightarrow> (Some e, s'))"

text \<open>The heads a session delivers to a receiver that accepts them all.\<close>

definition deliveredHeads :: "(string \<Rightarrow> json option) \<Rightarrow> ws_session \<Rightarrow> exec_head list" where
  "deliveredHeads parse ws =
     (if dialFails ws = None \<and> \<not> writeFails ws
      then (case readSubscriptionResponse parse (messages ws) of
              Inl _ \<Rightarrow> [] | Inr (sid, rest) \<Rightarrow> validHeads parse sid rest)
      else [])"

lemma clientSubscription_heads:
  "snd (clientSubscription parse ws receive s) = receiveAll receive (deliveredHeads parse ws) s"
proof (cases "dialFails ws = None \<and> \<not> writeFails ws \<and> (\<exists>x. readSubscriptionResponse parse (messages ws) = Inr x)")
  case True
  then obtain sid rest where r: "readSubscriptionResponse parse (messages ws) = Inr (sid, rest)" by auto
  have "snd (clientSubscription parse ws receive s) = snd (receiveLoop parse sid receive rest s)"
    using True r by (simp add: clientSubscription_def SubscribeNewHeads_def split: prod.splits)
  then show ?thesis using True r by (simp add: receiveLoop_heads deliveredHeads_def)
next
  case False
  then show ?thesis
    by (auto simp: clientSubscription_def SubscribeNewHeads_def deliveredHeads_def Let_def split: option.splits sum.splits)
qed

interpretation client: head_source "clientSubscription parse ws"
  by unfold_locales (rule exI, rule clientSubscription_heads)

section \<open>Construction\<close>

record 'c exec_target =
  etName :: string
  etClient :: "'c option"

record exec_options =
  HistoryLimit :: int
  ReconnectInitial :: int
  ReconnectMaximum :: int

datatype (plugins only: code size) new_exec_err =
    NoExecTargets
  | ExecRecorderRequired
  | ReorgHistoryTooSmall
  | ReconnectDelaysInvalid
  | EmptyExecTargetName
  | NilExecClient string
  | DuplicateExecTarget string

fun checkExecTargets :: "string list \<Rightarrow> 'c exec_target list \<Rightarrow> new_exec_err + unit" where
  "checkExecTargets seen [] = Inr ()"
| "checkExecTargets seen (target # rest) =
     (if etName target = [] then Inl EmptyExecTargetName
      else if etClient target = None then Inl (NilExecClient (etName target))
      else if etName target \<in> set seen then Inl (DuplicateExecTarget (etName target))
      else checkExecTargets (etName target # seen) rest)"

record 'c exec_observer =
  exoTargets :: "'c exec_target list"
  exoHistoryLimit :: int
  reconnectInitial :: int
  reconnectMaximum :: int

definition NewExecutionObserver ::
  "'c exec_target list \<Rightarrow> 'r option \<Rightarrow> exec_options \<Rightarrow> new_exec_err + 'c exec_observer" where
  "NewExecutionObserver targets recorder options =
     (if length targets = 0 then Inl NoExecTargets
      else if recorder = None then Inl ExecRecorderRequired
      else if HistoryLimit options < 2 then Inl ReorgHistoryTooSmall
      else if ReconnectInitial options \<le> 0 \<or> ReconnectMaximum options < ReconnectInitial options
      then Inl ReconnectDelaysInvalid
      else bindR (checkExecTargets [] targets) (\<lambda>_.
        Inr \<lparr>exoTargets = sort_key etName targets, exoHistoryLimit = HistoryLimit options,
             reconnectInitial = ReconnectInitial options,
             reconnectMaximum = ReconnectMaximum options\<rparr>))"

section \<open>One head\<close>

text \<open>
  The state of a target's goroutine: the recorder's state, the tracker and the flag of the
  current subscription, how often the clock has been read, and the timers started so far,
  each with whether the subscription before it delivered a head.
\<close>

record 's exec_state =
  exRecorder :: 's
  exTracker :: reorg_tracker
  exReceived :: bool
  exTick :: nat
  exTimers :: "(bool \<times> int) list"

definition exNow :: "(nat \<Rightarrow> time) \<Rightarrow> 's exec_state \<Rightarrow> time \<times> 's exec_state" where
  "exNow clock st = (clock (exTick st), st\<lparr>exTick := Suc (exTick st)\<rparr>)"

datatype (plugins only: code size) exec_run_err =
    TrackerErr reorg_err
  | RecordSubscriptionFailed string rec_err

definition exRecord :: "('s, 'o) record_op \<Rightarrow> 'o \<Rightarrow> 's exec_state \<Rightarrow> rec_err option \<times> 's exec_state" where
  "exRecord f obs st = (case f obs (exRecorder st) of (e, s) \<Rightarrow> (e, st\<lparr>exRecorder := s\<rparr>))"

text \<open>The receiver: the head, then the gap, then the reorg; \<open>False\<close> when a recorder fails.\<close>

definition recordHead ::
  "'s exec_recorder \<Rightarrow> (nat \<Rightarrow> time) \<Rightarrow> string \<Rightarrow> exec_head \<Rightarrow> reorg_result \<Rightarrow> 's exec_state
     \<Rightarrow> bool \<times> 's exec_state" where
  "recordHead rec clock name head result st =
     (let (t, st) = exNow clock st in
      case exRecord (RecordExecution rec) \<lparr>eoTimestamp = t, eoTarget = name, eoHead = head,
             eoContinuity = rrContinuity result\<rparr> st of
        (Some e, st) \<Rightarrow> (False, st)
      | (None, st) \<Rightarrow> (True, st))"

definition recordGap ::
  "'s exec_recorder \<Rightarrow> (nat \<Rightarrow> time) \<Rightarrow> string \<Rightarrow> reorg_result \<Rightarrow> 's exec_state \<Rightarrow> bool \<times> 's exec_state" where
  "recordGap rec clock name result st =
     (if rrGapOperation result \<noteq> [] then
        (let (t, st) = exNow clock st in
         case exRecord (RecordExecFailure rec) \<lparr>pfTimestamp = t, pfTarget = name,
                pfProtocol = ''execution'', pfOperation = rrGapOperation result,
                pfError = ContinuityGap (rrGapError result), pfPollDuration = 0\<rparr> st of
           (Some e, st) \<Rightarrow> (False, st)
         | (None, st) \<Rightarrow> (True, st))
      else (True, st))"

definition recordReorg ::
  "'s exec_recorder \<Rightarrow> (nat \<Rightarrow> time) \<Rightarrow> reorg_result \<Rightarrow> 's exec_state \<Rightarrow> bool \<times> 's exec_state" where
  "recordReorg rec clock result st =
     (case rrReorg result of
        None \<Rightarrow> (True, st)
      | Some r \<Rightarrow>
          (let (t, st) = exNow clock st in
           case exRecord (RecordReorg rec) (r\<lparr>reorgTimestamp := t\<rparr>) st of
             (Some e, st) \<Rightarrow> (False, st)
           | (None, st) \<Rightarrow> (True, st)))"

definition handleHead ::
  "'s exec_recorder \<Rightarrow> (nat \<Rightarrow> time) \<Rightarrow> string \<Rightarrow> 's exec_state receiver" where
  "handleHead rec clock name head st =
     (let st = st\<lparr>exReceived := True\<rparr>;
          (result, tracker) = Tracker_Observe head (exTracker st);
          st = st\<lparr>exTracker := tracker\<rparr> in
      case recordHead rec clock name head result st of
        (False, st) \<Rightarrow> (False, st)
      | (True, st) \<Rightarrow>
          (case recordGap rec clock name result st of
             (False, st) \<Rightarrow> (False, st)
           | (True, st) \<Rightarrow> recordReorg rec clock result st))"

section \<open>The reconnect loop\<close>

definition nextDelay :: "int \<Rightarrow> int \<Rightarrow> int" where
  "nextDelay reconnectMax delay =
     (if delay < reconnectMax
      then (if delay > reconnectMax div 2 then reconnectMax else wrapInt64 (delay * 2))
      else delay)"

text \<open>
  What the environment does in one turn of the loop: the subscription, whether the context
  is cancelled when it returns, and whether it is cancelled before the timer fires.
\<close>

record 's attempt =
  atSubscribe :: "'s exec_state subscription"
  atCancelled :: bool
  atWaitCancelled :: bool

datatype (plugins only: code size) run_outcome = Returned "exec_run_err option" | Running

text \<open>The loop over the turns so far; it is still running when they are used up.\<close>

fun execLoop ::
  "'s exec_recorder \<Rightarrow> (nat \<Rightarrow> time) \<Rightarrow> string \<Rightarrow> 'c exec_observer \<Rightarrow> int \<Rightarrow> 's attempt list
     \<Rightarrow> 's exec_state \<Rightarrow> run_outcome \<times> 's exec_state" where
  "execLoop rec clock name ob delay [] st = (Running, st)"
| "execLoop rec clock name ob delay (a # turns) st =
     (case NewReorgTracker name (exoHistoryLimit ob) of
        Inl e \<Rightarrow> (Returned (Some (TrackerErr e)), st)
      | Inr tracker \<Rightarrow>
          (let st = st\<lparr>exTracker := tracker, exReceived := False\<rparr>;
               (err, st) = atSubscribe a (handleHead rec clock name) st in
           if atCancelled a then (Returned None, st)
           else let e = (case err of None \<Rightarrow> SubscriptionEnded | Some x \<Rightarrow> SubscriptionFailed x);
                    (t, st) = exNow clock st in
             (case exRecord (RecordExecFailure rec) \<lparr>pfTimestamp = t, pfTarget = name,
                     pfProtocol = ''execution'', pfOperation = ''execution_subscription'',
                     pfError = e, pfPollDuration = 0\<rparr> st of
                (Some e, st) \<Rightarrow> (Returned (Some (RecordSubscriptionFailed name e)), st)
              | (None, st) \<Rightarrow>
                  let delay = (if exReceived st then reconnectInitial ob else delay);
                      st = st\<lparr>exTimers := exTimers st @ [(exReceived st, delay)]\<rparr> in
                  if atWaitCancelled a then (Returned None, st)
                  else execLoop rec clock name ob (nextDelay (reconnectMaximum ob) delay) turns st)))"

definition Exec_runTarget ::
  "'s exec_recorder \<Rightarrow> (nat \<Rightarrow> time) \<Rightarrow> string \<Rightarrow> 'c exec_observer \<Rightarrow> 's attempt list
     \<Rightarrow> 's exec_state \<Rightarrow> run_outcome \<times> 's exec_state" where
  "Exec_runTarget rec clock name ob turns st =
     execLoop rec clock name ob (reconnectInitial ob) turns st"

section \<open>Backoff\<close>

text \<open>
  The delays as a function of the outcomes alone: the initial delay, doubled with each
  further subscription that delivered no head, up to the maximum.
\<close>

fun backoffSpec :: "int \<Rightarrow> int \<Rightarrow> nat \<Rightarrow> bool list \<Rightarrow> int list" where
  "backoffSpec ini maxi k [] = []"
| "backoffSpec ini maxi k (received # rs) =
     (let k' = if received then 0 else k in
      min maxi (ini * 2 ^ k') # backoffSpec ini maxi (Suc k') rs)"

lemma nextDelay_double:
  assumes "0 < ini" "maxi < 2 ^ 63"
  shows "nextDelay maxi (min maxi (ini * 2 ^ k)) = min maxi (ini * 2 ^ Suc k)"
proof -
  have pos: "0 < ini * 2 ^ k" using assms(1) by simp
  show ?thesis
  proof (cases "maxi \<le> ini * 2 ^ k")
    case True
    then show ?thesis using pos by (simp add: nextDelay_def)
  next
    case False
    show ?thesis
    proof (cases "ini * 2 ^ k > maxi div 2")
      case True
      then have "maxi \<le> 2 * (ini * 2 ^ k)" by linarith
      then show ?thesis using False True by (simp add: nextDelay_def algebra_simps)
    next
      case le: False
      then have "2 * (ini * 2 ^ k) \<le> maxi" by linarith
      moreover from this have "wrapInt64 (ini * 2 ^ k * 2) = ini * 2 ^ k * 2"
        using pos assms(2) by (intro wrapInt64_id) linarith+
      ultimately show ?thesis using False le by (simp add: nextDelay_def algebra_simps)
    qed
  qed
qed

lemma exRecord_fields [simp]:
  "exTimers (snd (exRecord f obs st)) = exTimers st" "exReceived (snd (exRecord f obs st)) = exReceived st"
  "exTracker (snd (exRecord f obs st)) = exTracker st"
  by (simp_all add: exRecord_def split: prod.splits)

text \<open>The three recordings only touch the clock and the recorder.\<close>

lemma recordHead_cases:
  assumes "recordHead rec clock name head result st = (ok, st')"
  shows "\<exists>e s. RecordExecution rec \<lparr>eoTimestamp = clock (exTick st), eoTarget = name, eoHead = head,
             eoContinuity = rrContinuity result\<rparr> (exRecorder st) = (e, s) \<and> (ok \<longleftrightarrow> e = None) \<and>
           st' = st\<lparr>exTick := Suc (exTick st), exRecorder := s\<rparr>"
  using assms by (auto simp: recordHead_def exNow_def exRecord_def split: prod.splits option.splits)

lemma recordGap_cases:
  assumes "recordGap rec clock name result st = (ok, st')"
  shows "rrGapOperation result = [] \<and> ok \<and> st' = st \<or>
    rrGapOperation result \<noteq> [] \<and> (\<exists>e s. RecordExecFailure rec \<lparr>pfTimestamp = clock (exTick st),
        pfTarget = name, pfProtocol = ''execution'', pfOperation = rrGapOperation result,
        pfError = ContinuityGap (rrGapError result), pfPollDuration = 0\<rparr> (exRecorder st) = (e, s) \<and>
      (ok \<longleftrightarrow> e = None) \<and> st' = st\<lparr>exTick := Suc (exTick st), exRecorder := s\<rparr>)"
  using assms
  by (auto simp: recordGap_def exNow_def exRecord_def split: prod.splits option.splits if_splits)

lemma recordReorg_cases:
  assumes "recordReorg rec clock result st = (ok, st')"
  shows "rrReorg result = None \<and> ok \<and> st' = st \<or>
    (\<exists>r e s. rrReorg result = Some r \<and>
       RecordReorg rec (r\<lparr>reorgTimestamp := clock (exTick st)\<rparr>) (exRecorder st) = (e, s) \<and>
       (ok \<longleftrightarrow> e = None) \<and> st' = st\<lparr>exTick := Suc (exTick st), exRecorder := s\<rparr>)"
  using assms by (auto simp: recordReorg_def exNow_def exRecord_def split: prod.splits option.splits)

lemma handleHead_cases:
  assumes "handleHead rec clock name head st = (ok, st')"
  obtains result tracker ok1 st1 ok2 st2 where
    "Tracker_Observe head (exTracker st) = (result, tracker)"
    "recordHead rec clock name head result (st\<lparr>exReceived := True, exTracker := tracker\<rparr>) = (ok1, st1)"
    "\<not> ok1 \<Longrightarrow> \<not> ok \<and> st' = st1"
    "ok1 \<Longrightarrow> recordGap rec clock name result st1 = (ok2, st2)"
    "ok1 \<Longrightarrow> \<not> ok2 \<Longrightarrow> \<not> ok \<and> st' = st2"
    "ok1 \<Longrightarrow> ok2 \<Longrightarrow> recordReorg rec clock result st2 = (ok, st')"
proof -
  obtain result tracker where tr: "Tracker_Observe head (exTracker st) = (result, tracker)" by fastforce
  obtain ok1 st1 where h: "recordHead rec clock name head result
      (st\<lparr>exReceived := True, exTracker := tracker\<rparr>) = (ok1, st1)" by fastforce
  obtain ok2 st2 where g: "recordGap rec clock name result st1 = (ok2, st2)" by fastforce
  show ?thesis
    by (rule that [OF tr h, of ok2 st2])
      (use assms tr h g in \<open>cases ok1; cases ok2; simp add: handleHead_def\<close>)+
qed

lemma record_timers:
  "recordHead rec clock name head result st = (ok, st') \<Longrightarrow> exTimers st' = exTimers st"
  "recordGap rec clock name result st = (ok, st') \<Longrightarrow> exTimers st' = exTimers st"
  "recordReorg rec clock result st = (ok, st') \<Longrightarrow> exTimers st' = exTimers st"
  by (auto dest!: recordHead_cases, auto dest!: recordGap_cases, auto dest!: recordReorg_cases)

lemma handleHead_timers: "exTimers (snd (handleHead rec clock name head st)) = exTimers st"
proof -
  obtain ok st' where h: "handleHead rec clock name head st = (ok, st')" by fastforce
  show ?thesis using h
  proof (rule handleHead_cases)
    fix result tracker ok1 st1 ok2 st2
    assume 1: "recordHead rec clock name head result (st\<lparr>exReceived := True, exTracker := tracker\<rparr>) = (ok1, st1)"
      and 2: "\<not> ok1 \<Longrightarrow> \<not> ok \<and> st' = st1" "ok1 \<Longrightarrow> recordGap rec clock name result st1 = (ok2, st2)"
        "ok1 \<Longrightarrow> \<not> ok2 \<Longrightarrow> \<not> ok \<and> st' = st2" "ok1 \<Longrightarrow> ok2 \<Longrightarrow> recordReorg rec clock result st2 = (ok, st')"
    show ?thesis using record_timers(1) [OF 1] 2
      by (cases ok1; cases ok2; simp add: h; metis record_timers(2,3))
  qed
qed

text \<open>The flag of the subscription tells whether it delivered a head.\<close>

lemma record_received:
  "recordHead rec clock name head result st = (ok, st') \<Longrightarrow> exReceived st' = exReceived st"
  "recordGap rec clock name result st = (ok, st') \<Longrightarrow> exReceived st' = exReceived st"
  "recordReorg rec clock result st = (ok, st') \<Longrightarrow> exReceived st' = exReceived st"
  by (auto dest!: recordHead_cases, auto dest!: recordGap_cases, auto dest!: recordReorg_cases)

lemma handleHead_received: "handleHead rec clock name head st = (ok, st') \<Longrightarrow> exReceived st'"
proof (erule handleHead_cases)
  fix result tracker ok1 st1 ok2 st2
  assume 1: "recordHead rec clock name head result (st\<lparr>exReceived := True, exTracker := tracker\<rparr>) = (ok1, st1)"
    and 2: "\<not> ok1 \<Longrightarrow> \<not> ok \<and> st' = st1" "ok1 \<Longrightarrow> recordGap rec clock name result st1 = (ok2, st2)"
      "ok1 \<Longrightarrow> \<not> ok2 \<Longrightarrow> \<not> ok \<and> st' = st2" "ok1 \<Longrightarrow> ok2 \<Longrightarrow> recordReorg rec clock result st2 = (ok, st')"
  show "exReceived st'" using record_received(1) [OF 1] 2
    by (cases ok1; cases ok2; simp; metis record_received(2,3))
qed

lemma receiveAll_received:
  "exReceived (receiveAll (handleHead rec clock name) heads st) = (exReceived st \<or> heads \<noteq> [])"
proof (induction heads arbitrary: st)
  case (Cons h hs)
  obtain ok st' where "handleHead rec clock name h st = (ok, st')" by fastforce
  moreover from this have "exReceived st'" by (rule handleHead_received)
  ultimately show ?case using Cons by (cases ok) auto
qed simp

text \<open>The turns of the client of the program: what each of its connections does.\<close>

definition clientTurn ::
  "(string \<Rightarrow> json option) \<Rightarrow> ws_session \<times> bool \<times> bool \<Rightarrow> 's attempt" where
  "clientTurn parse = (\<lambda>(ws, cancelled, waitCancelled).
     \<lparr>atSubscribe = clientSubscription parse ws, atCancelled = cancelled, atWaitCancelled = waitCancelled\<rparr>)"

lemma clientTurn_simps [simp]:
  "atSubscribe (clientTurn parse (ws, c, w)) = clientSubscription parse ws"
  "atCancelled (clientTurn parse (ws, c, w)) = c" "atWaitCancelled (clientTurn parse (ws, c, w)) = w"
  by (simp_all add: clientTurn_def)

lemma subscribe_timers:
  "exTimers (snd (clientSubscription parse ws (handleHead rec clock name) st)) = exTimers st"
  by (rule client.subscribe_inv [where I = "\<lambda>t. exTimers t = exTimers st"])
    (use handleHead_timers in \<open>metis snd_conv\<close>)+

lemma execLoop_timers:
  assumes "0 < reconnectInitial ob" "reconnectInitial ob \<le> reconnectMaximum ob" "reconnectMaximum ob < 2 ^ 63"
  shows "\<exists>new. exTimers (snd (execLoop rec clock name ob
             (min (reconnectMaximum ob) (reconnectInitial ob * 2 ^ k)) (map (clientTurn parse) turns) st)) =
           exTimers st @ new \<and>
         map snd new = backoffSpec (reconnectInitial ob) (reconnectMaximum ob) k (map fst new) \<and>
         map fst new = map (\<lambda>(ws, _). deliveredHeads parse ws \<noteq> []) (take (length new) turns) \<and>
         (fst (execLoop rec clock name ob (min (reconnectMaximum ob) (reconnectInitial ob * 2 ^ k))
             (map (clientTurn parse) turns) st) = Running \<longrightarrow> length new = length turns)"
proof (induction turns arbitrary: k st)
  case Nil
  then show ?case by simp
next
  case (Cons a turns)
  obtain ws c w where a: "a = (ws, c, w)" by (cases a)
  show ?case
  proof (cases "NewReorgTracker name (exoHistoryLimit ob)")
    case (Inl e)
    then show ?thesis by simp
  next
    case (Inr tracker)
    obtain err st1 where sub: "clientSubscription parse ws (handleHead rec clock name)
        (st\<lparr>exTracker := tracker, exReceived := False\<rparr>) = (err, st1)" by fastforce
    have t1: "exTimers st1 = exTimers st"
      using subscribe_timers [of parse ws rec clock name "st\<lparr>exTracker := tracker, exReceived := False\<rparr>"]
      by (simp add: sub)
    have received: "exReceived st1 = (deliveredHeads parse ws \<noteq> [])"
      using clientSubscription_heads [of parse ws "handleHead rec clock name" "st\<lparr>exTracker := tracker, exReceived := False\<rparr>"]
        receiveAll_received [of rec clock name "deliveredHeads parse ws" "st\<lparr>exTracker := tracker, exReceived := False\<rparr>"]
      by (simp add: sub)
    define fobs where "fobs = \<lparr>pfTimestamp = clock (exTick st1), pfTarget = name, pfProtocol = ''execution'',
        pfOperation = ''execution_subscription'',
        pfError = (case err of None \<Rightarrow> SubscriptionEnded | Some x \<Rightarrow> SubscriptionFailed x), pfPollDuration = 0\<rparr>"
    obtain r st2 where rec: "exRecord (RecordExecFailure rec) fobs (st1\<lparr>exTick := Suc (exTick st1)\<rparr>) = (r, st2)"
      by fastforce
    have t2: "exTimers st2 = exTimers st" "exReceived st2 = exReceived st1"
      using exRecord_fields(1,2) [of "RecordExecFailure rec" fobs "st1\<lparr>exTick := Suc (exTick st1)\<rparr>"]
      by (simp_all add: rec t1)
    define k' where "k' = (if exReceived st1 then 0 else k)"
    define st3 where "st3 = st2\<lparr>exTimers := exTimers st @ [(exReceived st1,
        min (reconnectMaximum ob) (reconnectInitial ob * 2 ^ k'))]\<rparr>"
    have ini: "min (reconnectMaximum ob) (reconnectInitial ob) = reconnectInitial ob"
      using assms(2) by simp
    have nd0: "nextDelay (reconnectMaximum ob) (reconnectInitial ob) =
        min (reconnectMaximum ob) (reconnectInitial ob * 2)"
      using nextDelay_double [OF assms(1,3), of 0] ini by simp
    have step: "execLoop rec clock name ob (min (reconnectMaximum ob) (reconnectInitial ob * 2 ^ k))
          (map (clientTurn parse) (a # turns)) st =
        (if c then (Returned None, st1) else case r of
           Some e \<Rightarrow> (Returned (Some (RecordSubscriptionFailed name e)), st2)
         | None \<Rightarrow> if w then (Returned None, st3) else execLoop rec clock name ob
             (min (reconnectMaximum ob) (reconnectInitial ob * 2 ^ Suc k')) (map (clientTurn parse) turns) st3)"
      using ini nd0 nextDelay_double [OF assms(1,3), of k]
      by (simp add: a Inr sub exNow_def fobs_def [symmetric] rec t2 st3_def k'_def Let_def
          split: option.splits)
    from Cons.IH [of "Suc k'" st3] obtain new where new:
      "exTimers (snd (execLoop rec clock name ob
             (min (reconnectMaximum ob) (reconnectInitial ob * 2 ^ Suc k')) (map (clientTurn parse) turns) st3)) =
           exTimers st3 @ new"
      "map snd new = backoffSpec (reconnectInitial ob) (reconnectMaximum ob) (Suc k') (map fst new)"
      "map fst new = map (\<lambda>(ws, _). deliveredHeads parse ws \<noteq> []) (take (length new) turns)"
      "fst (execLoop rec clock name ob (min (reconnectMaximum ob) (reconnectInitial ob * 2 ^ Suc k'))
             (map (clientTurn parse) turns) st3) = Running \<longrightarrow> length new = length turns" by blast
    let ?p = "(exReceived st1, min (reconnectMaximum ob) (reconnectInitial ob * 2 ^ k'))"
    consider "c" | "\<not> c" "r \<noteq> None" | "\<not> c" "r = None" "w" | "\<not> c" "r = None" "\<not> w" by blast
    then show ?thesis
    proof cases
      case 3
      then show ?thesis unfolding step
        by (intro exI [of _ "[?p]"]) (simp add: st3_def k'_def a received)
    next
      case 4
      then show ?thesis unfolding step
        by (intro exI [of _ "?p # new"]) (use new in \<open>simp add: st3_def k'_def Let_def a received\<close>)
    next
      case 1
      then show ?thesis unfolding step by (intro exI [of _ "[]"]) (simp add: t1)
    next
      case 2
      then show ?thesis unfolding step by (intro exI [of _ "[]"]) (auto simp: t2)
    qed
  qed
qed

text \<open>
  C30: the reconnect delays are the exponential backoff over the sessions of the WebSocket client: the initial
  delay after every session that delivered a head, doubled after each further one that delivered none, capped at
  the maximum; the doubling never overflows. A run that goes on waited after every session.
\<close>

theorem reconnect_backoff:
  assumes "NewExecutionObserver targets recorder options = Inr ob" "ReconnectMaximum options < 2 ^ 63"
    and "exTimers st = []"
    and "Exec_runTarget rec clock name ob (map (clientTurn parse) turns) st = (out, st')"
  shows "map snd (exTimers st') =
       backoffSpec (ReconnectInitial options) (ReconnectMaximum options) 0
         (map (\<lambda>(ws, _). deliveredHeads parse ws \<noteq> []) (take (length (exTimers st')) turns)) \<and>
     (out = Running \<longrightarrow> length (exTimers st') = length turns)"
proof -
  from assms(1) have ob: "reconnectInitial ob = ReconnectInitial options"
    "reconnectMaximum ob = ReconnectMaximum options"
    "0 < ReconnectInitial options" "ReconnectInitial options \<le> ReconnectMaximum options"
    by (auto simp: NewExecutionObserver_def result_simps split: if_splits)
  show ?thesis
    using execLoop_timers [of ob rec clock name 0 parse turns st] ob assms(2,3,4)
    by (auto simp: Exec_runTarget_def min_absorb2)
qed

section \<open>What every run records\<close>

text \<open>The laws an execution recorder promises, for a view of its state as two logs.\<close>

locale exec_recorder_log =
  fixes rec :: "'s exec_recorder"
    and headLog :: "'s \<Rightarrow> exec_observation list"
    and reorgLog :: "'s \<Rightarrow> reorg_observation list"
  assumes head_log: "RecordExecution rec a s = (e, s') \<Longrightarrow>
        headLog s' = headLog s @ (if e = None then [a] else []) \<and> reorgLog s' = reorgLog s"
    and reorg_log: "RecordReorg rec r s = (e, s') \<Longrightarrow>
        headLog s' = headLog s \<and> reorgLog s' = reorgLog s @ (if e = None then [r] else [])"
    and failure_log: "RecordExecFailure rec f s = (e, s') \<Longrightarrow>
        headLog s' = headLog s \<and> reorgLog s' = reorgLog s"

definition recordedHead :: "exec_observation list \<Rightarrow> string \<Rightarrow> exec_head \<Rightarrow> bool" where
  "recordedHead obs name h \<longleftrightarrow> list_ex (\<lambda>ob. eoTarget ob = name \<and> eoHead ob = h) obs"

text \<open>A head that is recorded with a continuity.\<close>

definition recordedAs :: "exec_observation list \<Rightarrow> string \<Rightarrow> exec_head \<Rightarrow> bool \<Rightarrow> bool" where
  "recordedAs obs name h c \<longleftrightarrow> list_ex (\<lambda>ob. eoTarget ob = name \<and> eoHead ob = h \<and> eoContinuity ob = c) obs"

text \<open>
  A reorg is backed by recorded heads of its target: the new head, recorded as continuous exactly when a depth
  is given, the previous tip and, when a depth is given, the common ancestor that many blocks below the previous tip.
\<close>

definition backedReorg :: "exec_observation list \<Rightarrow> reorg_observation \<Rightarrow> bool" where
  "backedReorg obs r \<longleftrightarrow>
     recordedAs obs (reorgTarget r) (NewHead r) (Depth r \<noteq> None) \<and> recordedHead obs (reorgTarget r) (PreviousHead r) \<and>
     (case Depth r of None \<Rightarrow> True | Some d \<Rightarrow>
        list_ex (\<lambda>ob. eoTarget ob = reorgTarget r \<and> childOf (eoHead ob) (NewHead r) \<and>
          unat (headNumber (eoHead ob)) + unat d = unat (headNumber (PreviousHead r))) obs)"

lemma recordedHead_append: "recordedHead obs n h \<Longrightarrow> recordedHead (obs @ extra) n h"
  by (auto simp: recordedHead_def)

lemma recordedAs_append: "recordedAs obs n h c \<Longrightarrow> recordedAs (obs @ extra) n h c"
  by (auto simp: recordedAs_def)

lemma recordedAs_recorded: "recordedAs obs n h c \<Longrightarrow> recordedHead obs n h"
  by (auto simp: recordedAs_def recordedHead_def list_ex_iff)

lemma backedReorg_append: "backedReorg obs r \<Longrightarrow> backedReorg (obs @ extra) r"
  by (auto simp: backedReorg_def recordedHead_append recordedAs_append split: option.splits)

lemma backedReorg_time [simp]: "backedReorg obs (r\<lparr>reorgTimestamp := t\<rparr>) = backedReorg obs r"
  by (simp add: backedReorg_def split: option.splits)

lemma Observe_continuity:
  "rrReorg (fst (Tracker_Observe head t)) = Some r \<Longrightarrow> rrContinuity (fst (Tracker_Observe head t)) = (Depth r \<noteq> None)"
  by (auto simp: observe_simps split: option.splits if_splits)

lemma Observe_backedReorg:
  assumes "tracker_inv t" "\<And>h. h \<in> set (canonical t) \<Longrightarrow> recordedHead obs (trTarget t) h"
    and "recordedAs obs (trTarget t) head (rrContinuity (fst (Tracker_Observe head t)))"
    and "rrReorg (fst (Tracker_Observe head t)) = Some r"
  shows "backedReorg obs r"
proof -
  note h = Observe_reorg_heads [OF assms(4)]
  have "list_ex (\<lambda>ob. eoTarget ob = reorgTarget r \<and> childOf (eoHead ob) (NewHead r) \<and>
      unat (headNumber (eoHead ob)) + unat d = unat (headNumber (PreviousHead r))) obs"
    if d: "Depth r = Some d" for d
  proof -
    from depth_of_reorg [OF assms(1,4) d] obtain i where
      i: "canonicalIndex t (headParentHash head) = Some i" "unat d = length (canonical t) - 1 - i"
        "PreviousHead r = last (canonical t)" "NewHead r = head"
        "unat (headNumber head) = unat (headNumber (last (canonical t))) - unat d + 1" by blast
    from canonicalIndex_Some [OF i(1)] have il: "i < length (canonical t)"
      and ih: "headHash (canonical t ! i) = headParentHash head" by simp_all
    have ch: "chained (canonical t)" using assms(1) by (simp add: tracker_inv_def)
    have ne: "canonical t \<noteq> []" using il by auto
    have n: "unat (headNumber (canonical t ! i)) + unat d = unat (headNumber (last (canonical t)))"
      using chained_number [OF ch il] chained_number [OF ch, of "length (canonical t) - 1"] il i(2) ne
      by (simp add: last_conv_nth)
    have "childOf (canonical t ! i) head" using ih n i(5) by (simp add: childOf_def)
    moreover have "recordedHead obs (trTarget t) (canonical t ! i)" using assms(2) il by simp
    ultimately show ?thesis using n h i(3,4) by (auto simp: recordedHead_def list_ex_iff)
  qed
  then show ?thesis using h assms(2,3) Observe_continuity [OF assms(4)] by (simp add: backedReorg_def split: option.splits)
qed

context exec_recorder_log begin

abbreviation heads_of :: "'s exec_state \<Rightarrow> exec_observation list" where
  "heads_of st \<equiv> headLog (exRecorder st)"

text \<open>\<open>logs_ok\<close> holds of the logs at any time, \<open>tracking name\<close> also of the tracker between heads.\<close>

definition logs_ok :: "'s exec_state \<Rightarrow> bool" where
  "logs_ok st \<longleftrightarrow> (\<forall>r \<in> set (reorgLog (exRecorder st)). backedReorg (heads_of st) r)"

definition tracking :: "string \<Rightarrow> 's exec_state \<Rightarrow> bool" where
  "tracking name st \<longleftrightarrow> logs_ok st \<and> tracker_inv (exTracker st) \<and> trTarget (exTracker st) = name \<and>
     (\<forall>h \<in> set (canonical (exTracker st)). recordedHead (heads_of st) name h)"

lemma recordGap_ok:
  assumes "recordGap rec clock name result st = (ok, st')"
  shows "heads_of st' = heads_of st \<and> reorgLog (exRecorder st') = reorgLog (exRecorder st) \<and>
    exTracker st' = exTracker st"
  using recordGap_cases [OF assms] by (auto dest: failure_log)

lemma recordHead_ok:
  assumes "recordHead rec clock name head result st = (ok, st')"
  shows "reorgLog (exRecorder st') = reorgLog (exRecorder st) \<and> exTracker st' = exTracker st \<and>
    (\<exists>extra. heads_of st' = heads_of st @ extra) \<and> (ok \<longrightarrow> recordedAs (heads_of st') name head (rrContinuity result))"
  using recordHead_cases [OF assms] by (auto dest!: head_log simp: recordedAs_def)

lemma recordReorg_ok:
  assumes "recordReorg rec clock result st = (ok, st')" "logs_ok st"
    and "\<And>r. rrReorg result = Some r \<Longrightarrow> backedReorg (heads_of st) r"
  shows "logs_ok st' \<and> heads_of st' = heads_of st \<and> exTracker st' = exTracker st"
  using recordReorg_cases [OF assms(1)] assms(2,3)
  by (auto simp: logs_ok_def dest!: reorg_log split: if_splits)

lemma handleHead_ok:
  assumes "tracking name st" "handleHead rec clock name head st = (ok, st')"
  shows "logs_ok st' \<and> (ok \<longrightarrow> tracking name st')"
  using assms(2)
proof (rule handleHead_cases)
  fix result tracker ok1 st1 ok2 st2
  assume tr: "Tracker_Observe head (exTracker st) = (result, tracker)"
    and 1: "recordHead rec clock name head result (st\<lparr>exReceived := True, exTracker := tracker\<rparr>) = (ok1, st1)"
    and 2: "\<not> ok1 \<Longrightarrow> \<not> ok \<and> st' = st1" "ok1 \<Longrightarrow> recordGap rec clock name result st1 = (ok2, st2)"
      "ok1 \<Longrightarrow> \<not> ok2 \<Longrightarrow> \<not> ok \<and> st' = st2" "ok1 \<Longrightarrow> ok2 \<Longrightarrow> recordReorg rec clock result st2 = (ok, st')"
  from recordHead_ok [OF 1] obtain extra where
    h1: "heads_of st1 = heads_of st @ extra" "reorgLog (exRecorder st1) = reorgLog (exRecorder st)"
      "exTracker st1 = tracker" "ok1 \<Longrightarrow> recordedAs (heads_of st1) name head (rrContinuity result)" by auto
  have l1: "logs_ok st1" using assms(1) h1 by (auto simp: tracking_def logs_ok_def backedReorg_append)
  show ?thesis
  proof (cases "ok1 \<and> ok2")
    case False
    show ?thesis
    proof (cases ok1)
      case True
      then have "\<not> ok" "st' = st2" using False 2(3) by simp_all
      then show ?thesis using recordGap_ok [OF 2(2)] True l1 by (simp add: logs_ok_def)
    qed (use 2(1) l1 in simp)
  next
    case True
    have g: "heads_of st2 = heads_of st1" "reorgLog (exRecorder st2) = reorgLog (exRecorder st1)"
      "exTracker st2 = tracker"
      using recordGap_ok [OF 2(2)] True h1(3) by simp_all
    have known: "recordedHead (heads_of st2) name h" if "h \<in> set (canonical (exTracker st))" for h
      using assms(1) that g(1) h1(1) by (simp add: tracking_def recordedHead_append)
    have new: "recordedAs (heads_of st2) name head (rrContinuity result)" using h1(4) True g(1) by simp
    have bk: "backedReorg (heads_of st2) r" if "rrReorg result = Some r" for r
      by (rule Observe_backedReorg [of "exTracker st" _ head])
        (use assms(1) known new that tr in \<open>simp_all add: tracking_def\<close>)
    have "logs_ok st2" using l1 g by (simp add: logs_ok_def)
    from recordReorg_ok [OF 2(4) this bk] True
    have r: "logs_ok st'" "heads_of st' = heads_of st2" "exTracker st' = tracker" using g(3) by auto
    have "set (canonical tracker) \<subseteq> insert head (set (canonical (exTracker st)))"
      using Observe_canonical_subset [of head "exTracker st"] tr by simp
    then have "\<forall>h \<in> set (canonical tracker). recordedHead (heads_of st') name h"
      using known recordedAs_recorded [OF new] r(2) by auto
    moreover have "tracker_inv tracker \<and> trTarget tracker = name"
      using Observe_inv [of "exTracker st" head] Observe_fields [of head "exTracker st"] assms(1) tr
      by (simp add: tracking_def)
    ultimately show ?thesis using r by (simp add: tracking_def)
  qed
qed

lemma subscription_ok:
  assumes "head_source subscribe" "tracking name st"
  shows "logs_ok (snd (subscribe (handleHead rec clock name) st))"
proof (rule head_source.subscribe_inv [OF assms(1), where I = "tracking name" and J = logs_ok])
  show "tracking name st" by (rule assms(2))
  show "tracking name t \<Longrightarrow> logs_ok t" for t by (simp add: tracking_def)
  show "tracking name t \<Longrightarrow> handleHead rec clock name h t = (True, t') \<Longrightarrow> tracking name t'" for h t t'
    using handleHead_ok by blast
  show "tracking name t \<Longrightarrow> handleHead rec clock name h t = (False, t') \<Longrightarrow> logs_ok t'" for h t t'
    using handleHead_ok by blast
qed

lemma execLoop_ok:
  assumes "\<And>a. a \<in> set turns \<Longrightarrow> head_source (atSubscribe a)" "logs_ok st"
  shows "logs_ok (snd (execLoop rec clock name ob delay turns st))"
  using assms
proof (induction turns arbitrary: delay st)
  case Nil
  then show ?case by simp
next
  case (Cons a turns)
  show ?case
  proof (cases "NewReorgTracker name (exoHistoryLimit ob)")
    case (Inl e)
    then show ?thesis using Cons.prems by simp
  next
    case (Inr tracker)
    then have tracker: "tracker_inv tracker" "canonical tracker = []" "trTarget tracker = name"
      using NewReorgTracker_inv by (auto simp: NewReorgTracker_def split: if_splits)
    obtain err st1 where sub: "atSubscribe a (handleHead rec clock name)
        (st\<lparr>exTracker := tracker, exReceived := False\<rparr>) = (err, st1)" by fastforce
    have "tracking name (st\<lparr>exTracker := tracker, exReceived := False\<rparr>)"
      using Cons.prems(2) tracker by (simp add: tracking_def logs_ok_def)
    then have l1: "logs_ok st1"
      using subscription_ok [of "atSubscribe a" name _ clock] Cons.prems(1) sub by (metis list.set_intros(1) snd_conv)
    have l2: "logs_ok st2" if "exRecord (RecordExecFailure rec) f (st1\<lparr>exTick := n\<rparr>) = (r, st2)" for f n r st2
      using that l1 by (auto simp: exRecord_def logs_ok_def split: prod.splits dest!: failure_log)
    have "logs_ok (st2\<lparr>exTimers := x\<rparr>)" if "logs_ok st2" for st2 x
      using that by (simp add: logs_ok_def)
    with l1 l2 Cons.IH Cons.prems(1) show ?thesis
      by (auto simp: Inr sub exNow_def Let_def split: prod.splits option.splits)
  qed
qed

end

end
