(* ===== verification/Timeseries.thy ===== *)
theory Timeseries
  imports Dataset ExecutionObserver Float64
begin

text \<open>
  The event file (\<^verbatim>\<open>internal/timeseries/jsonl.go\<close>): the event struct, its encoding with
  \<^verbatim>\<open>omitempty\<close>, and the recorder that writes one line per observation. The timestamps are
  formatted when a line is encoded; the text of an error is represented by the error. A write
  either appends one line or fails.
\<close>

section \<open>Timestamps\<close>

text \<open>Year, month and day of a day number counted from the first of January 1970.\<close>

definition civil :: "int \<Rightarrow> int \<times> int \<times> int" where
  "civil days =
     (let z = days + 719468; era = z div 146097; doe = z mod 146097;
          yoe = (doe - doe div 1460 + doe div 36524 - doe div 146096) div 365;
          doy = doe - (365 * yoe + yoe div 4 - yoe div 100);
          mp = (5 * doy + 2) div 153;
          month = (if mp < 10 then mp + 3 else mp - 9)
      in (yoe + era * 400 + (if month \<le> 2 then 1 else 0), month, doy - (153 * mp + 2) div 5 + 1))"

definition digitChar :: "int \<Rightarrow> char" where
  "digitChar n = char_of (48 + nat n)"

fun padded :: "nat \<Rightarrow> int \<Rightarrow> string" where
  "padded 0 n = []"
| "padded (Suc k) n = padded k (n div 10) @ [digitChar (n mod 10)]"

text \<open>The layout \<^verbatim>\<open>2006-01-02T15:04:05.000000000Z07:00\<close> of a UTC time in the years 0 to 9999.\<close>

definition formatTime :: "time \<Rightarrow> string" where
  "formatTime t =
     (let secs = t div second; (year, month, day) = civil (secs div 86400); s = secs mod 86400
      in padded 4 year @ ''-'' @ padded 2 month @ ''-'' @ padded 2 day @ ''T'' @
         padded 2 (s div 3600) @ '':'' @ padded 2 (s div 60 mod 60) @ '':'' @ padded 2 (s mod 60) @
         ''.'' @ padded 9 (t mod second) @ ''Z'')"

lemma formatTime_examples:
  "formatTime 0 = ''1970-01-01T00:00:00.000000000Z''"
  "formatTime (1709210096 * second + 5) = ''2024-02-29T12:34:56.000000005Z''"
  "formatTime (- second) = ''1969-12-31T23:59:59.000000000Z''"
  by code_simp+

section \<open>Events\<close>

record event =
  evType :: string
  evTimestamp :: time
  evTarget :: string
  evProtocol :: string
  evSpec :: "beacon_spec option"
  evGenesis :: "beacon_genesis option"
  evCurrentSlot :: "u64 option"
  evHead :: "beacon_head option"
  evFinality :: "beacon_finality option"
  evFinalityLag :: "u64 option"
  evComparisonSlot :: "u64 option"
  evRoots :: "(string, string) gomap"
  evAgreement :: "bool option"
  evExecutionHead :: "exec_head option"
  evContinuity :: "bool option"
  evPreviousHead :: "exec_head option"
  evNewHead :: "exec_head option"
  evReorgDepth :: "u64 option"
  evOperation :: string
  evError :: "obs_err option"
  evPollDurationMS :: "f64 option"

text \<open>Written values; \<open>OutErr\<close> stands for the text of an error.\<close>

datatype (plugins only: code size) jout =
    OutNull
  | OutBool bool
  | OutUint u64
  | OutFloat f64
  | OutStr string
  | OutErr obs_err
  | OutObj "(string \<times> jout) list"

definition outMap :: "(string, string) gomap \<Rightarrow> jout" where
  "outMap m = OutObj (map (\<lambda>k. (k, OutStr (mget [] m k))) (sort (keys m)))"

definition outSpec :: "beacon_spec \<Rightarrow> jout" where
  "outSpec s = OutObj [(''seconds_per_slot'', OutUint (SecondsPerSlot s)),
     (''slots_per_epoch'', OutUint (SlotsPerEpoch s)), (''fork_epochs'', outMap (ForkEpochs s))]"

definition outGenesis :: "beacon_genesis \<Rightarrow> jout" where
  "outGenesis g = OutObj [(''time'', OutUint (genesisTime g)), (''slot'', OutUint (genesisSlot g)),
     (''validators_root'', OutStr (ValidatorsRoot g)), (''fork_version'', OutStr (ForkVersion g))]"

definition outHead :: "beacon_head \<Rightarrow> jout" where
  "outHead h = OutObj [(''slot'', OutUint (headSlot h)), (''root'', OutStr (headRoot h)),
     (''parent_root'', OutStr (ParentRoot h)), (''state_root'', OutStr (StateRoot h)),
     (''canonical'', OutBool (Canonical h)), (''execution_optimistic'', OutBool (headOptimistic h))]"

definition outFinality :: "beacon_finality \<Rightarrow> jout" where
  "outFinality f = OutObj [(''epoch'', OutUint (finalityEpoch f)), (''root'', OutStr (finalityRoot f)),
     (''execution_optimistic'', OutBool (finalityOptimistic f))]"

definition outExecHead :: "exec_head \<Rightarrow> jout" where
  "outExecHead h = OutObj [(''number'', OutUint (headNumber h)), (''hash'', OutStr (headHash h)),
     (''parent_hash'', OutStr (headParentHash h))]"

definition schemaVersion :: string where
  "schemaVersion = ''ethquake.observer/v1alpha1''"

text \<open>\<^verbatim>\<open>omitempty\<close>: an empty string or map and a nil pointer leave no member.\<close>

definition omitStr :: "string \<Rightarrow> string \<Rightarrow> (string \<times> jout) list" where
  "omitStr name v = (if v = [] then [] else [(name, OutStr v)])"

definition omitNil :: "string \<Rightarrow> ('a \<Rightarrow> jout) \<Rightarrow> 'a option \<Rightarrow> (string \<times> jout) list" where
  "omitNil name out v = (case v of None \<Rightarrow> [] | Some x \<Rightarrow> [(name, out x)])"

definition encodeEvent :: "event \<Rightarrow> jout" where
  "encodeEvent e = OutObj (
     [(''schema_version'', OutStr schemaVersion), (''type'', OutStr (evType e)),
      (''timestamp'', OutStr (formatTime (evTimestamp e)))] @
     omitStr ''target'' (evTarget e) @ omitStr ''protocol'' (evProtocol e) @
     omitNil ''spec'' outSpec (evSpec e) @ omitNil ''genesis'' outGenesis (evGenesis e) @
     omitNil ''current_slot'' OutUint (evCurrentSlot e) @ omitNil ''head'' outHead (evHead e) @
     omitNil ''finality'' outFinality (evFinality e) @
     omitNil ''finality_lag_slots'' OutUint (evFinalityLag e) @
     omitNil ''comparison_slot'' OutUint (evComparisonSlot e) @
     (if evRoots e = [] then [] else [(''roots'', outMap (evRoots e))]) @
     omitNil ''agreement'' OutBool (evAgreement e) @
     omitNil ''execution_head'' outExecHead (evExecutionHead e) @
     omitNil ''continuity'' OutBool (evContinuity e) @
     omitNil ''previous_head'' outExecHead (evPreviousHead e) @
     omitNil ''new_head'' outExecHead (evNewHead e) @
     omitNil ''reorg_depth'' OutUint (evReorgDepth e) @
     omitStr ''operation'' (evOperation e) @ omitNil ''error'' OutErr (evError e) @
     omitNil ''poll_duration_ms'' OutFloat (evPollDurationMS e))"

text \<open>The second struct, without \<^verbatim>\<open>omitempty\<close>, for a reorg of unknown depth.\<close>

definition encodeUnknownDepth :: "event \<Rightarrow> jout" where
  "encodeUnknownDepth e = OutObj
     [(''schema_version'', OutStr schemaVersion), (''type'', OutStr (evType e)),
      (''timestamp'', OutStr (formatTime (evTimestamp e))), (''target'', OutStr (evTarget e)),
      (''previous_head'', case evPreviousHead e of None \<Rightarrow> OutNull | Some h \<Rightarrow> outExecHead h),
      (''new_head'', case evNewHead e of None \<Rightarrow> OutNull | Some h \<Rightarrow> outExecHead h),
      (''reorg_depth'', OutNull)]"

definition emptyEvent :: event where
  "emptyEvent = \<lparr>evType = [], evTimestamp = zeroTime, evTarget = [], evProtocol = [], evSpec = None,
     evGenesis = None, evCurrentSlot = None, evHead = None, evFinality = None, evFinalityLag = None,
     evComparisonSlot = None, evRoots = [], evAgreement = None, evExecutionHead = None,
     evContinuity = None, evPreviousHead = None, evNewHead = None, evReorgDepth = None,
     evOperation = [], evError = None, evPollDurationMS = None\<rparr>"

section \<open>The recorder\<close>

datatype (plugins only: code size) line = Plain event | UnknownDepth event

definition encodeLine :: "line \<Rightarrow> jout" where
  "encodeLine l = (case l of Plain e \<Rightarrow> encodeEvent e | UnknownDepth e \<Rightarrow> encodeUnknownDepth e)"

text \<open>The lines of the file so far and the writes that will fail.\<close>

record jsonl =
  jlLines :: "line list"
  jlFaults :: "bool list"

definition writeLine :: "line \<Rightarrow> jsonl \<Rightarrow> rec_err option \<times> jsonl" where
  "writeLine l st =
     (case jlFaults st of
        True # fs \<Rightarrow> (Some (SinkError ''write''), st\<lparr>jlFaults := fs\<rparr>)
      | False # fs \<Rightarrow> (None, st\<lparr>jlLines := jlLines st @ [l], jlFaults := fs\<rparr>)
      | [] \<Rightarrow> (None, st\<lparr>jlLines := jlLines st @ [l]\<rparr>))"

definition pollDurationMS :: "int \<Rightarrow> f64" where
  "pollDurationMS d = fdiv (Fin (fl (rat_of_int d))) (lit 1000000)"

definition JSONL_RecordSpec :: "(jsonl, spec_observation) record_op" where
  "JSONL_RecordSpec obs = writeLine (Plain (emptyEvent\<lparr>evType := ''runtime_spec'',
     evTimestamp := soTimestamp obs, evTarget := soTarget obs, evSpec := Some (soSpec obs),
     evGenesis := Some (soGenesis obs)\<rparr>))"

definition JSONL_RecordBeacon :: "(jsonl, beacon_observation) record_op" where
  "JSONL_RecordBeacon obs = writeLine (Plain (emptyEvent\<lparr>evType := ''beacon_observation'',
     evTimestamp := boTimestamp obs, evTarget := boTarget obs, evCurrentSlot := Some (boCurrentSlot obs),
     evHead := Some (boHead obs), evFinality := Some (boFinality obs),
     evFinalityLag := Some (boFinalityLag obs),
     evPollDurationMS := Some (pollDurationMS (boPollDuration obs))\<rparr>))"

definition JSONL_RecordHeadComparison :: "(jsonl, head_comparison) record_op" where
  "JSONL_RecordHeadComparison c = writeLine (Plain (emptyEvent\<lparr>evType := ''head_comparison'',
     evTimestamp := hcTimestamp c, evComparisonSlot := Some (hcSlot c), evRoots := hcRoots c,
     evAgreement := Some (hcAgreement c)\<rparr>))"

definition JSONL_RecordPollFailure :: "(jsonl, poll_failure) record_op" where
  "JSONL_RecordPollFailure f = writeLine (Plain (emptyEvent\<lparr>evType := ''measurement_gap'',
     evTimestamp := pfTimestamp f, evTarget := pfTarget f, evProtocol := pfProtocol f,
     evOperation := pfOperation f, evError := Some (pfError f),
     evPollDurationMS := (if pfProtocol f = ''beacon'' then Some (pollDurationMS (pfPollDuration f))
                          else None)\<rparr>))"

definition JSONL_RecordExecution :: "(jsonl, exec_observation) record_op" where
  "JSONL_RecordExecution obs = writeLine (Plain (emptyEvent\<lparr>evType := ''execution_head'',
     evTimestamp := eoTimestamp obs, evTarget := eoTarget obs, evExecutionHead := Some (eoHead obs),
     evContinuity := Some (eoContinuity obs)\<rparr>))"

definition reorgLine :: "reorg_observation \<Rightarrow> line" where
  "reorgLine r =
     (let v = emptyEvent\<lparr>evType := ''execution_reorg'', evTimestamp := reorgTimestamp r,
            evTarget := reorgTarget r, evPreviousHead := Some (PreviousHead r),
            evNewHead := Some (NewHead r), evReorgDepth := Depth r\<rparr>
      in if Depth r = None then UnknownDepth v else Plain v)"

definition JSONL_RecordReorg :: "(jsonl, reorg_observation) record_op" where
  "JSONL_RecordReorg r = writeLine (reorgLine r)"

definition JSONLRecorder :: "jsonl recorder" where
  "JSONLRecorder =
     \<lparr>RecordSpec = JSONL_RecordSpec, RecordBeacon = JSONL_RecordBeacon,
      RecordHeadComparison = JSONL_RecordHeadComparison, RecordPollFailure = JSONL_RecordPollFailure\<rparr>"

definition JSONLExecRecorder :: "jsonl exec_recorder" where
  "JSONLExecRecorder =
     \<lparr>RecordExecution = JSONL_RecordExecution, RecordReorg = JSONL_RecordReorg,
      RecordExecFailure = JSONL_RecordPollFailure\<rparr>"

section \<open>Reading the file back\<close>

definition lineHead :: "line \<Rightarrow> exec_observation option" where
  "lineHead l = (case l of
     Plain e \<Rightarrow> (case (evExecutionHead e, evContinuity e) of
       (Some h, Some c) \<Rightarrow> Some \<lparr>eoTimestamp = evTimestamp e, eoTarget = evTarget e, eoHead = h,
                                  eoContinuity = c\<rparr>
     | _ \<Rightarrow> None)
   | UnknownDepth e \<Rightarrow> None)"

definition eventReorg :: "event \<Rightarrow> reorg_observation option" where
  "eventReorg e = (case (evPreviousHead e, evNewHead e) of
     (Some p, Some n) \<Rightarrow> Some \<lparr>reorgTimestamp = evTimestamp e, reorgTarget = evTarget e,
        PreviousHead = p, NewHead = n, Depth = evReorgDepth e\<rparr>
   | _ \<Rightarrow> None)"

definition lineReorg :: "line \<Rightarrow> reorg_observation option" where
  "lineReorg l = (case l of Plain e \<Rightarrow> eventReorg e | UnknownDepth e \<Rightarrow> eventReorg e)"

definition fileHeads :: "jsonl \<Rightarrow> exec_observation list" where
  "fileHeads st = List.map_filter lineHead (jlLines st)"

definition fileReorgs :: "jsonl \<Rightarrow> reorg_observation list" where
  "fileReorgs st = List.map_filter lineReorg (jlLines st)"

lemma map_filter_snoc:
  "List.map_filter f (xs @ [x]) = List.map_filter f xs @ (case f x of None \<Rightarrow> [] | Some y \<Rightarrow> [y])"
  by (induction xs) (simp_all add: List.map_filter_def split: option.splits)

lemma writeLine_logs:
  "writeLine l st = (e, st') \<Longrightarrow>
     jlLines st' = jlLines st @ (if e = None then [l] else [])"
  by (auto simp: writeLine_def split: list.splits bool.splits)

lemma file_after:
  assumes "writeLine l st = (e, st')"
  shows "fileHeads st' = fileHeads st @ (if e = None then (case lineHead l of None \<Rightarrow> [] | Some y \<Rightarrow> [y]) else [])"
    and "fileReorgs st' = fileReorgs st @ (if e = None then (case lineReorg l of None \<Rightarrow> [] | Some y \<Rightarrow> [y]) else [])"
  using writeLine_logs [OF assms] by (simp_all add: fileHeads_def fileReorgs_def map_filter_snoc)

lemma lineReorg_reorgLine: "lineReorg (reorgLine r) = Some r" "lineHead (reorgLine r) = None"
  by (simp_all add: lineReorg_def reorgLine_def eventReorg_def Let_def emptyEvent_def lineHead_def)

interpretation jsonl_file: exec_recorder_log JSONLExecRecorder fileHeads fileReorgs
proof
  fix a s e s' assume "RecordExecution JSONLExecRecorder a s = (e, s')"
  then show "fileHeads s' = fileHeads s @ (if e = None then [a] else []) \<and> fileReorgs s' = fileReorgs s"
    by (auto simp: JSONLExecRecorder_def JSONL_RecordExecution_def lineHead_def lineReorg_def
        eventReorg_def emptyEvent_def dest: file_after)
next
  fix r s e s' assume "RecordReorg JSONLExecRecorder r s = (e, s')"
  then show "fileHeads s' = fileHeads s \<and> fileReorgs s' = fileReorgs s @ (if e = None then [r] else [])"
    by (auto simp: JSONLExecRecorder_def JSONL_RecordReorg_def lineReorg_reorgLine dest: file_after)
next
  fix f s e s' assume "RecordExecFailure JSONLExecRecorder f s = (e, s')"
  then show "fileHeads s' = fileHeads s \<and> fileReorgs s' = fileReorgs s"
    by (auto simp: JSONLExecRecorder_def JSONL_RecordPollFailure_def lineHead_def lineReorg_def
        eventReorg_def emptyEvent_def dest: file_after)
qed


definition member :: "string \<Rightarrow> jout \<Rightarrow> jout option" where
  "member name j = (case j of OutObj ms \<Rightarrow> map_of ms name | _ \<Rightarrow> None)"

text \<open>
  the line of a reorg always has a depth member: the number when the depth is known,
  zero included, and an explicit null when it is not; never a missing member.
\<close>

theorem reorg_line_depth:
  "member ''reorg_depth'' (encodeLine (reorgLine r)) =
     Some (case Depth r of None \<Rightarrow> OutNull | Some d \<Rightarrow> OutUint d)"
  by (simp add: reorgLine_def encodeLine_def encodeUnknownDepth_def encodeEvent_def emptyEvent_def
      member_def Let_def omitNil_def omitStr_def split: option.splits)

end
