(* ===== verification/Scenario.thy ===== *)
theory Scenario
  imports Float64 Prelude
begin

text \<open>
  The scenario contract (\<^verbatim>\<open>internal/scenario/scenario.go\<close>): the input structs, their validation
  and the derivation of the run order. The YAML decoder and SHA-256 are parameters.
\<close>

section \<open>Structs\<close>

record target_spec =
  ChainID :: u64
  NamespacePrefix :: string

record participant =
  pID :: string
  ELClient :: string
  CLClient :: string
  BeaconTarget :: string
  BeaconServiceID :: string
  ExecutionServiceID :: string
  ValidatorServiceID :: string
  ValidatorRangeName :: string
  ValidatorCount :: u64

record fault_group =
  groupName :: string
  Share :: f64
  groupParticipants :: "string list"

record fault_spec =
  faultType :: string
  SplitBy :: string
  Layers :: "string list"
  DurationEpochs :: u64
  Groups :: "fault_group list"

record thresholds =
  HeadDivergenceToleranceSlots :: u64
  RealizedSplitTolerance :: f64
  ClientRecoveryDifferenceSlots :: u64

record methodology =
  ControlRepetitions :: u64
  FaultRepetitions :: u64
  Pairing :: string
  OrderSeed :: string
  RunOrder :: "string list"
  PostFaultObservationEpochs :: u64

record prediction =
  PrimaryMetric :: string
  GateARule :: string
  GateBRule :: string
  Explanation :: string

record scenario =
  scAPIVersion :: string
  scKind :: string
  scName :: string
  scTarget :: target_spec
  scParticipants :: "participant list"
  scFault :: fault_spec
  scThresholds :: thresholds
  scMethodology :: methodology
  scPrediction :: prediction
  DoesNotProve :: string

definition phase3ChainID :: u64 where "phase3ChainID = 3151908"

definition maxScenarioBytes :: nat where "maxScenarioBytes = 1048576"

definition artifactName :: "string \<Rightarrow> bool" where
  "artifactName s = (case s of [] \<Rightarrow> False
     | c # cs \<Rightarrow> (isLower c \<or> isDigit c) \<and> length cs \<le> 62 \<and> list_all nameChar cs)"

section \<open>Validation\<close>

datatype (plugins only: code size) target_err = BadChainID u64 | BadNamespacePrefix

datatype (plugins only: code size) topology_err =
    ParticipantTotal nat | BadParticipantID string | DuplicateParticipant string
  | BadClient string | BadBeaconTarget string | DuplicateBeaconTarget string
  | BadServiceID string string | DuplicateServiceID string
  | BadRangeName string | DuplicateRangeName string | ZeroValidators string

datatype (plugins only: code size) fault_err =
    BadFaultType | BadSplitBy | BadLayers | BadDuration | GroupTotal nat
  | BadGroupName string | DuplicateGroup string | BadShare string | NoParticipants string
  | UnknownParticipant string string | ParticipantTwice string
  | ShareSum | ParticipantMissing | WeightsDiffer u64 u64

datatype (plugins only: code size) thresholds_err = BadHeadTolerance | BadSplitTolerance | BadRecoveryDifference

datatype (plugins only: code size) methodology_err =
    BadRepetitions | BadPairing | NoOrderSeed | BadPostFault | RunTotal nat
  | UnexpectedRun string | OrderMismatch nat

datatype (plugins only: code size) prediction_err = BadPrimaryMetric | BadGateA | BadGateB | NoExplanation

datatype (plugins only: code size) scenario_err =
    UnsupportedAPIVersion | UnsupportedKind | BadName
  | InTarget target_err | InTopology topology_err | InFault fault_err
  | InThresholds thresholds_err | InMethodology methodology_err | InPrediction prediction_err
  | NoLimitations | OneClientFamily | ClientMissing string string

datatype (plugins only: code size) parse_err = ScenarioTooLarge | DecodeYAML | SecondDocument | DecodeTrailing | Invalid scenario_err

definition Target_validate :: "target_spec \<Rightarrow> target_err + unit" where
  "Target_validate t =
     (if ChainID t \<noteq> phase3ChainID then Inl (BadChainID (ChainID t))
      else if NamespacePrefix t \<noteq> ''kt-ethquake-phase3-'' then Inl BadNamespacePrefix
      else Inr ())"

text \<open>The four maps of the loop over the participants.\<close>

record topology_state =
  tsParticipants :: "(string, participant) gomap"
  tsBeaconTargets :: "string list"
  tsServiceIDs :: "string list"
  tsRangeNames :: "string list"

definition serviceStep :: "string \<Rightarrow> string \<times> string \<Rightarrow> string list \<Rightarrow> topology_err + string list" where
  "serviceStep participant = (\<lambda>(field, i) ids.
     if \<not> dnsName i then Inl (BadServiceID participant field)
     else if i \<in> set ids then Inl (DuplicateServiceID i)
     else Inr (i # ids))"

definition serviceIDs :: "participant \<Rightarrow> (string \<times> string) list" where
  "serviceIDs p = [(''beacon_service_id'', BeaconServiceID p),
     (''execution_service_id'', ExecutionServiceID p), (''validator_service_id'', ValidatorServiceID p)]"

definition participantStep :: "participant \<Rightarrow> topology_state \<Rightarrow> topology_err + topology_state" where
  "participantStep p st =
     (if \<not> dnsName (pID p) then Inl (BadParticipantID (pID p))
      else if pID p \<in> set (keys (tsParticipants st)) then Inl (DuplicateParticipant (pID p))
      else if \<not> dnsName (ELClient p) \<or> \<not> dnsName (CLClient p) then Inl (BadClient (pID p))
      else if \<not> dnsName (BeaconTarget p) then Inl (BadBeaconTarget (pID p))
      else if BeaconTarget p \<in> set (tsBeaconTargets st) then Inl (DuplicateBeaconTarget (BeaconTarget p))
      else bindR (each (serviceStep (pID p)) (serviceIDs p) (tsServiceIDs st)) (\<lambda>ids.
        if \<not> artifactName (ValidatorRangeName p) then Inl (BadRangeName (pID p))
        else if ValidatorRangeName p \<in> set (tsRangeNames st)
        then Inl (DuplicateRangeName (ValidatorRangeName p))
        else if ValidatorCount p = 0 then Inl (ZeroValidators (pID p))
        else Inr \<lparr>tsParticipants = mput (pID p) p (tsParticipants st),
                  tsBeaconTargets = BeaconTarget p # tsBeaconTargets st,
                  tsServiceIDs = ids,
                  tsRangeNames = ValidatorRangeName p # tsRangeNames st\<rparr>))"

definition topologyStart :: topology_state where
  "topologyStart = \<lparr>tsParticipants = [], tsBeaconTargets = [], tsServiceIDs = [], tsRangeNames = []\<rparr>"

definition Topology_validate :: "participant list \<Rightarrow> topology_err + (string, participant) gomap" where
  "Topology_validate ps =
     (if length ps \<noteq> 4 then Inl (ParticipantTotal (length ps))
      else bindR (each participantStep ps topologyStart) (\<lambda>st. Inr (tsParticipants st)))"

text \<open>The loop over the participants of a group: those seen so far and the group's weight.\<close>

definition memberStep ::
  "(string, participant) gomap \<Rightarrow> string \<Rightarrow> string \<Rightarrow> string list \<times> u64 \<Rightarrow> fault_err + string list \<times> u64" where
  "memberStep participants name participantID = (\<lambda>(seen, weight).
     case map_of participants participantID of
       None \<Rightarrow> Inl (UnknownParticipant name participantID)
     | Some p \<Rightarrow>
         if participantID \<in> set seen then Inl (ParticipantTwice participantID)
         else Inr (participantID # seen, weight + ValidatorCount p))"

record fault_state =
  fsGroups :: "string list"
  fsParticipants :: "string list"
  fsShare :: f64
  fsWeights :: "u64 list"

definition shareTolerance :: f64 where "shareTolerance = lit (1 / 1000000000000)"

definition groupStep ::
  "(string, participant) gomap \<Rightarrow> fault_group \<Rightarrow> fault_state \<Rightarrow> fault_err + fault_state" where
  "groupStep participants grp st =
     (if \<not> dnsName (groupName grp) then Inl (BadGroupName (groupName grp))
      else if groupName grp \<in> set (fsGroups st) then Inl (DuplicateGroup (groupName grp))
      else if fgt (fabs (fsub (Share grp) (lit (1/2)))) shareTolerance then Inl (BadShare (groupName grp))
      else if length (groupParticipants grp) = 0 then Inl (NoParticipants (groupName grp))
      else bindR (each (memberStep participants (groupName grp)) (groupParticipants grp)
                   (fsParticipants st, 0)) (\<lambda>(seen, weight).
        Inr \<lparr>fsGroups = groupName grp # fsGroups st, fsParticipants = seen,
             fsShare = fadd (fsShare st) (Share grp), fsWeights = fsWeights st @ [weight]\<rparr>))"

definition faultStart :: fault_state where
  "faultStart = \<lparr>fsGroups = [], fsParticipants = [], fsShare = Fin 0, fsWeights = []\<rparr>"

definition Fault_validate :: "fault_spec \<Rightarrow> (string, participant) gomap \<Rightarrow> fault_err + unit" where
  "Fault_validate fault participants =
     (if faultType fault \<noteq> ''network_partition'' then Inl BadFaultType
      else if SplitBy fault \<noteq> ''validator_weight'' then Inl BadSplitBy
      else if length (Layers fault) \<noteq> 1 \<or> Layers fault ! 0 \<noteq> ''cl_p2p'' then Inl BadLayers
      else if DurationEpochs fault \<noteq> 3 then Inl BadDuration
      else if length (Groups fault) \<noteq> 2 then Inl (GroupTotal (length (Groups fault)))
      else bindR (each (groupStep participants) (Groups fault) faultStart) (\<lambda>st.
        if fgt (fabs (fsub (fsShare st) (lit 1))) shareTolerance then Inl ShareSum
        else if length (fsParticipants st) \<noteq> length participants then Inl ParticipantMissing
        else if fsWeights st ! 0 \<noteq> fsWeights st ! 1
        then Inl (WeightsDiffer (fsWeights st ! 0) (fsWeights st ! 1))
        else Inr ()))"

definition Thresholds_validate :: "thresholds \<Rightarrow> thresholds_err + unit" where
  "Thresholds_validate t =
     (if HeadDivergenceToleranceSlots t \<noteq> 1 then Inl BadHeadTolerance
      else if \<not> feq (RealizedSplitTolerance t) (Fin 0) then Inl BadSplitTolerance
      else if ClientRecoveryDifferenceSlots t \<noteq> 1 then Inl BadRecoveryDifference
      else Inr ())"

subsection \<open>The run order\<close>

text \<open>The SHA-256 digest is a parameter; digests are compared byte by byte.\<close>

definition DeriveRunOrder :: "(string \<Rightarrow> string) \<Rightarrow> string \<Rightarrow> string list \<Rightarrow> string list" where
  "DeriveRunOrder sum256 seed runIDs =
     map fst (sort_key snd (map (\<lambda>runID. (runID, sum256 (seed @ '':'' @ runID))) runIDs))"

definition expectedRuns :: "string list" where
  "expectedRuns = [''control-1'', ''control-2'', ''control-3'', ''fault-1'', ''fault-2'', ''fault-3'']"

definition wantedStep :: "string \<Rightarrow> string list \<Rightarrow> methodology_err + string list" where
  "wantedStep runID wanted =
     (if runID \<notin> set wanted then Inl (UnexpectedRun runID) else Inr (removeAll runID wanted))"

text \<open>The first position at which two lists differ; the loop runs over the derived order.\<close>

fun orderCheck :: "nat \<Rightarrow> string list \<Rightarrow> string list \<Rightarrow> methodology_err + unit" where
  "orderCheck index (r # rs) (d # ds) =
     (if r \<noteq> d then Inl (OrderMismatch index) else orderCheck (Suc index) rs ds)"
| "orderCheck index rs ds = Inr ()"

definition Methodology_validate :: "(string \<Rightarrow> string) \<Rightarrow> methodology \<Rightarrow> methodology_err + unit" where
  "Methodology_validate sum256 m =
     (if ControlRepetitions m \<noteq> 3 \<or> FaultRepetitions m \<noteq> 3 then Inl BadRepetitions
      else if Pairing m \<noteq> ''by_repetition'' then Inl BadPairing
      else if blank (OrderSeed m) then Inl NoOrderSeed
      else if PostFaultObservationEpochs m \<noteq> 4 then Inl BadPostFault
      else if length (RunOrder m) \<noteq> length expectedRuns then Inl (RunTotal (length (RunOrder m)))
      else bindR (each wantedStep (RunOrder m) expectedRuns) (\<lambda>_.
        orderCheck 0 (RunOrder m) (DeriveRunOrder sum256 (OrderSeed m) expectedRuns)))"

definition Prediction_validate :: "prediction \<Rightarrow> prediction_err + unit" where
  "Prediction_validate p =
     (if PrimaryMetric p \<noteq> ''finalized_epoch_progress'' then Inl BadPrimaryMetric
      else if GateARule p \<noteq> ''max_fault_target_strictly_less_than_min_paired_control_target_all_repetitions''
      then Inl BadGateA
      else if GateBRule p \<noteq> ''zero_fault_progress_and_recovery_all_repetitions'' then Inl BadGateB
      else if blank (Explanation p) then Inl NoExplanation
      else Inr ())"

definition zeroParticipant :: participant where
  "zeroParticipant = \<lparr>pID = [], ELClient = [], CLClient = [], BeaconTarget = [], BeaconServiceID = [],
     ExecutionServiceID = [], ValidatorServiceID = [], ValidatorRangeName = [], ValidatorCount = 0\<rparr>"

text \<open>The clients of the participants, in the order the map is iterated.\<close>

definition mixedStep ::
  "(string, participant) gomap \<Rightarrow> string list \<Rightarrow> fault_group \<Rightarrow> scenario_err + unit" where
  "mixedStep participants allClients grp =
     (let clients = map (\<lambda>i. CLClient (mget zeroParticipant participants i)) (groupParticipants grp)
      in eachCheck (\<lambda>client. if client \<notin> set clients then Inl (ClientMissing (groupName grp) client)
                             else Inr ()) allClients)"

definition validateMixedGroups :: "fault_group list \<Rightarrow> (string, participant) gomap \<Rightarrow> scenario_err + unit" where
  "validateMixedGroups groups participants =
     (let allClients = remdups (map (\<lambda>(_, p). CLClient p) participants) in
      if length allClients < 2 then Inl OneClientFamily
      else eachCheck (mixedStep participants allClients) groups)"

definition Scenario_Validate :: "(string \<Rightarrow> string) \<Rightarrow> scenario \<Rightarrow> scenario_err + unit" where
  "Scenario_Validate sum256 s =
     (if scAPIVersion s \<noteq> ''ethquake.dev/v1alpha1'' then Inl UnsupportedAPIVersion
      else if scKind s \<noteq> ''Scenario'' then Inl UnsupportedKind
      else if \<not> dnsName (scName s) then Inl BadName
      else bindR (wrapE InTarget (Target_validate (scTarget s))) (\<lambda>_.
           bindR (wrapE InTopology (Topology_validate (scParticipants s))) (\<lambda>participants.
           bindR (wrapE InFault (Fault_validate (scFault s) participants)) (\<lambda>_.
           bindR (wrapE InThresholds (Thresholds_validate (scThresholds s))) (\<lambda>_.
           bindR (wrapE InMethodology (Methodology_validate sum256 (scMethodology s))) (\<lambda>_.
           bindR (wrapE InPrediction (Prediction_validate (scPrediction s))) (\<lambda>_.
             if blank (DoesNotProve s) then Inl NoLimitations
             else validateMixedGroups (Groups (scFault s)) participants)))))))"

text \<open>
  \<^verbatim>\<open>Parse\<close>: the YAML decoder, with unknown fields rejected, gives the first document, or an
  error, and says what follows it.
\<close>

datatype (plugins only: code size) yaml_rest = RestEOF | RestDocument | RestError

definition Scenario_Parse ::
  "(string \<Rightarrow> (scenario \<times> yaml_rest) option) \<Rightarrow> (string \<Rightarrow> string) \<Rightarrow> string \<Rightarrow> parse_err + scenario" where
  "Scenario_Parse yaml sum256 data =
     (if length data > maxScenarioBytes then Inl ScenarioTooLarge
      else (case yaml data of
        None \<Rightarrow> Inl DecodeYAML
      | Some (s, RestDocument) \<Rightarrow> Inl SecondDocument
      | Some (s, RestError) \<Rightarrow> Inl DecodeTrailing
      | Some (s, RestEOF) \<Rightarrow> bindR (wrapE Invalid (Scenario_Validate sum256 s)) (\<lambda>_. Inr s)))"

section \<open>The topology check\<close>

definition okParticipant :: "participant \<Rightarrow> bool" where
  "okParticipant p \<longleftrightarrow> list_all dnsName [pID p, ELClient p, CLClient p, BeaconTarget p,
       BeaconServiceID p, ExecutionServiceID p, ValidatorServiceID p] \<and>
     artifactName (ValidatorRangeName p) \<and> ValidatorCount p \<noteq> 0"

definition services :: "participant \<Rightarrow> string list" where
  "services p = [BeaconServiceID p, ExecutionServiceID p, ValidatorServiceID p]"

definition validParticipants :: "participant list \<Rightarrow> bool" where
  "validParticipants ps \<longleftrightarrow> length ps = 4 \<and> list_all okParticipant ps \<and> distinct (map pID ps) \<and>
     distinct (map BeaconTarget ps) \<and> distinct (concat (map services ps)) \<and>
     distinct (map ValidatorRangeName ps)"

lemma mput_new: "k \<notin> set (keys m) \<Longrightarrow> mput k v m = m @ [(k, v)]"
  by (induction m) auto

lemma each_serviceStep:
  "each (serviceStep n) xs ids = Inr ids' \<longleftrightarrow>
     (\<forall>(f, i) \<in> set xs. dnsName i) \<and> distinct (map snd xs) \<and> set (map snd xs) \<inter> set ids = {} \<and>
     ids' = rev (map snd xs) @ ids"
proof (induction xs arbitrary: ids)
  case Nil
  then show ?case by auto
next
  case (Cons x xs)
  obtain f i where x: "x = (f, i)" by (cases x)
  show ?case
  proof (cases "dnsName i \<and> i \<notin> set ids")
    case True
    then have "each (serviceStep n) (x # xs) ids = each (serviceStep n) xs (i # ids)"
      by (simp add: x serviceStep_def)
    then show ?thesis unfolding \<open>each _ (x # xs) _ = _\<close> Cons.IH using True by (auto simp: x)
  next
    case False
    then show ?thesis by (auto simp: x serviceStep_def)
  qed
qed

lemma serviceIDs_services: "map snd (serviceIDs p) = services p"
  by (simp add: serviceIDs_def services_def)

lemma participantStep_Inr:
  "participantStep p st = Inr st' \<longleftrightarrow>
     okParticipant p \<and> pID p \<notin> set (keys (tsParticipants st)) \<and>
     BeaconTarget p \<notin> set (tsBeaconTargets st) \<and> distinct (services p) \<and>
     set (services p) \<inter> set (tsServiceIDs st) = {} \<and> ValidatorRangeName p \<notin> set (tsRangeNames st) \<and>
     st' = \<lparr>tsParticipants = tsParticipants st @ [(pID p, p)],
            tsBeaconTargets = BeaconTarget p # tsBeaconTargets st,
            tsServiceIDs = rev (services p) @ tsServiceIDs st,
            tsRangeNames = ValidatorRangeName p # tsRangeNames st\<rparr>"
  unfolding participantStep_def if_Inl_Inr_iff bindR_Inr_iff each_serviceStep serviceIDs_services
  by (auto simp: okParticipant_def serviceIDs_def mput_new)

text \<open>The names of a list of elements are new: pairwise different and outside a set.\<close>

definition newNames :: "('a \<Rightarrow> string list) \<Rightarrow> 'a list \<Rightarrow> string set \<Rightarrow> bool" where
  "newNames f xs used \<longleftrightarrow> distinct (concat (map f xs)) \<and> set (concat (map f xs)) \<inter> used = {}"

lemma newNames_simps:
  "newNames f [] used"
  "newNames f (x # xs) used \<longleftrightarrow>
     distinct (f x) \<and> set (f x) \<inter> used = {} \<and> newNames f xs (set (f x) \<union> used)"
  by (auto simp: newNames_def)

lemma newNames_one: "newNames (\<lambda>x. [g x]) xs {} \<longleftrightarrow> distinct (map g xs)"
  by (simp add: newNames_def)

lemma each_participantStep:
  "each participantStep ps st = Inr st' \<longleftrightarrow>
     list_all okParticipant ps \<and>
     newNames (\<lambda>p. [pID p]) ps (set (keys (tsParticipants st))) \<and>
     newNames (\<lambda>p. [BeaconTarget p]) ps (set (tsBeaconTargets st)) \<and>
     newNames services ps (set (tsServiceIDs st)) \<and>
     newNames (\<lambda>p. [ValidatorRangeName p]) ps (set (tsRangeNames st)) \<and>
     st' = \<lparr>tsParticipants = tsParticipants st @ map (\<lambda>p. (pID p, p)) ps,
            tsBeaconTargets = rev (map BeaconTarget ps) @ tsBeaconTargets st,
            tsServiceIDs = rev (concat (map services ps)) @ tsServiceIDs st,
            tsRangeNames = rev (map ValidatorRangeName ps) @ tsRangeNames st\<rparr>"
proof (induction ps arbitrary: st)
  case Nil
  then show ?case by (cases st) (auto simp: newNames_simps)
next
  case (Cons p ps)
  let ?next = "\<lparr>tsParticipants = tsParticipants st @ [(pID p, p)],
            tsBeaconTargets = BeaconTarget p # tsBeaconTargets st,
            tsServiceIDs = rev (services p) @ tsServiceIDs st,
            tsRangeNames = ValidatorRangeName p # tsRangeNames st\<rparr>"
  have "each participantStep (p # ps) st = Inr st' \<longleftrightarrow>
      participantStep p st = Inr ?next \<and> each participantStep ps ?next = Inr st'"
    by (auto simp: bindR_Inr_iff participantStep_Inr)
  then show ?case unfolding Cons.IH participantStep_Inr
    by (simp add: newNames_simps conj_ac)
qed

lemma Topology_validate_form:
  "Topology_validate ps = Inr m \<longleftrightarrow> validParticipants ps \<and> m = map (\<lambda>p. (pID p, p)) ps"
  unfolding Topology_validate_def if_Inl_Inr_iff bindR_Inr_iff each_participantStep validParticipants_def
  by (auto simp: topologyStart_def newNames_one newNames_def)

text \<open>
  the topology is accepted exactly when there are four well-formed participants whose
  ids, beacon targets, twelve service ids and range names are each pairwise different, and
  the result maps every id to its participant.
\<close>

theorem Topology_validate_iff:
  "Topology_validate ps = Inr m \<longleftrightarrow> validParticipants ps \<and> m = map (\<lambda>p. (pID p, p)) ps"
  by (rule Topology_validate_form)

section \<open>The fault check\<close>

definition groupWeight :: "(string, participant) gomap \<Rightarrow> string list \<Rightarrow> u64" where
  "groupWeight m ids = sum_list (map (\<lambda>i. ValidatorCount (mget zeroParticipant m i)) ids)"

lemma each_memberStep:
  "each (memberStep m n) ids (seen, w) = Inr (seen', w') \<longleftrightarrow>
     set ids \<subseteq> set (keys m) \<and> distinct ids \<and> set ids \<inter> set seen = {} \<and>
     seen' = rev ids @ seen \<and> w' = w + groupWeight m ids"
proof (induction ids arbitrary: seen w)
  case Nil
  then show ?case by (auto simp: groupWeight_def)
next
  case (Cons i ids)
  show ?case
  proof (cases "map_of m i")
    case None
    then have "i \<notin> set (keys m)" by (simp add: map_of_eq_None_iff)
    with None show ?thesis by (simp add: memberStep_def)
  next
    case (Some p)
    then have k: "i \<in> set (keys m)" and g: "mget zeroParticipant m i = p"
      by (force dest: map_of_SomeD, simp add: mget_def)
    show ?thesis
    proof (cases "i \<in> set seen")
      case True
      with Some show ?thesis by (simp add: memberStep_def)
    next
      case False
      then have "each (memberStep m n) (i # ids) (seen, w) =
          each (memberStep m n) ids (i # seen, w + ValidatorCount p)"
        using Some by (simp add: memberStep_def)
      then show ?thesis unfolding \<open>each _ (i # ids) _ = _\<close> Cons.IH
        using False k g by (auto simp: groupWeight_def add.assoc)
    qed
  qed
qed

definition shareOk :: "f64 \<Rightarrow> bool" where
  "shareOk x \<longleftrightarrow> \<not> fgt (fabs (fsub x (lit (1/2)))) shareTolerance"

lemma groupStep_Inr:
  "groupStep m grp st = Inr st' \<longleftrightarrow>
     dnsName (groupName grp) \<and> groupName grp \<notin> set (fsGroups st) \<and> shareOk (Share grp) \<and>
     groupParticipants grp \<noteq> [] \<and> set (groupParticipants grp) \<subseteq> set (keys m) \<and>
     distinct (groupParticipants grp) \<and> set (groupParticipants grp) \<inter> set (fsParticipants st) = {} \<and>
     st' = \<lparr>fsGroups = groupName grp # fsGroups st,
            fsParticipants = rev (groupParticipants grp) @ fsParticipants st,
            fsShare = fadd (fsShare st) (Share grp),
            fsWeights = fsWeights st @ [groupWeight m (groupParticipants grp)]\<rparr>"
proof -
  have "bindR (each (memberStep m (groupName grp)) (groupParticipants grp) (fsParticipants st, 0)) f = Inr x \<longleftrightarrow>
      set (groupParticipants grp) \<subseteq> set (keys m) \<and> distinct (groupParticipants grp) \<and>
      set (groupParticipants grp) \<inter> set (fsParticipants st) = {} \<and>
      f (rev (groupParticipants grp) @ fsParticipants st, groupWeight m (groupParticipants grp)) = Inr x"
    for f :: "string list \<times> u64 \<Rightarrow> fault_err + fault_state" and x
    unfolding bindR_Inr_iff split_paired_Ex each_memberStep by simp
  then show ?thesis by (auto simp: groupStep_def shareOk_def)
qed

text \<open>What an accepted fault is, without the loops.\<close>

definition validFault :: "fault_spec \<Rightarrow> (string, participant) gomap \<Rightarrow> bool" where
  "validFault fault m \<longleftrightarrow>
     faultType fault = ''network_partition'' \<and> SplitBy fault = ''validator_weight'' \<and>
     Layers fault = [''cl_p2p''] \<and> DurationEpochs fault = 3 \<and>
     (case Groups fault of
        [g1, g2] \<Rightarrow>
          dnsName (groupName g1) \<and> dnsName (groupName g2) \<and> groupName g1 \<noteq> groupName g2 \<and>
          shareOk (Share g1) \<and> shareOk (Share g2) \<and>
          \<not> fgt (fabs (fsub (fadd (fadd (Fin 0) (Share g1)) (Share g2)) (lit 1))) shareTolerance \<and>
          groupParticipants g1 \<noteq> [] \<and> groupParticipants g2 \<noteq> [] \<and>
          distinct (groupParticipants g1 @ groupParticipants g2) \<and>
          set (groupParticipants g1 @ groupParticipants g2) = set (keys m) \<and>
          groupWeight m (groupParticipants g1) = groupWeight m (groupParticipants g2)
      | _ \<Rightarrow> False)"

lemma subset_card_eq:
  assumes "gomap m" "distinct xs" "set xs \<subseteq> set (keys m)"
  shows "length xs = length m \<longleftrightarrow> set xs = set (keys m)"
proof -
  have "card (set (keys m)) = length m" using assms(1) by (metis distinct_card gomap_def length_map)
  moreover have "card (set xs) = length xs" by (rule distinct_card [OF assms(2)])
  ultimately show ?thesis using assms(3) card_subset_eq [of "set (keys m)" "set xs"] by auto
qed

lemma Fault_validate_iff:
  assumes "gomap m"
  shows "Fault_validate fault m = Inr () \<longleftrightarrow> validFault fault m"
proof -
  have l: "length (Layers fault) = 1 \<and> Layers fault ! 0 = ''cl_p2p'' \<longleftrightarrow> Layers fault = [''cl_p2p'']"
    by (cases "Layers fault") auto
  show ?thesis
  proof (cases "length (Groups fault) = 2")
    case False
    then have "\<not> validFault fault m"
      by (auto simp: validFault_def split: list.splits)
    with False show ?thesis by (simp add: Fault_validate_def)
  next
    case True
    then obtain g1 g2 where g: "Groups fault = [g1, g2]"
      by (auto simp: length_Suc_conv eval_nat_numeral)
    let ?ps = "groupParticipants g1 @ groupParticipants g2"
    have cards: "distinct ?ps \<Longrightarrow> set ?ps \<subseteq> set (keys m) \<Longrightarrow>
        length (rev (groupParticipants g2) @ rev (groupParticipants g1)) = length m \<longleftrightarrow> set ?ps = set (keys m)"
      using subset_card_eq [OF assms, of ?ps] by (simp add: add.commute)
    have "Fault_validate fault m = Inr () \<longleftrightarrow>
        faultType fault = ''network_partition'' \<and> SplitBy fault = ''validator_weight'' \<and>
        Layers fault = [''cl_p2p''] \<and> DurationEpochs fault = 3 \<and>
        (\<exists>st1 st2. groupStep m g1 faultStart = Inr st1 \<and> groupStep m g2 st1 = Inr st2 \<and>
           \<not> fgt (fabs (fsub (fsShare st2) (lit 1))) shareTolerance \<and>
           length (fsParticipants st2) = length m \<and> fsWeights st2 ! 0 = fsWeights st2 ! 1)"
      using l by (auto simp: Fault_validate_def g bindR_Inr_iff)
    also have "\<dots> \<longleftrightarrow> validFault fault m"
      unfolding groupStep_Inr validFault_def g
      using cards by (simp add: faultStart_def) (auto simp: Int_commute)
    finally show ?thesis .
  qed
qed

section \<open>The run order\<close>

lemma DeriveRunOrder_mset: "mset (DeriveRunOrder sum256 seed runs) = mset runs"
  by (simp add: DeriveRunOrder_def multiset.map_comp comp_def)

text \<open>
  C37: the derived run order is a permutation of the runs, it does not depend on the order in
  which they are given, and any sorting routine gives the same one, as long as the digests
  of the seed with the run names differ.
\<close>

theorem DeriveRunOrder_canonical:
  assumes "inj_on (\<lambda>r. sum256 (seed @ '':'' @ r)) (set runs)" "mset runs = mset runs'" "slice_sort sortBy"
  shows "DeriveRunOrder sum256 seed runs = DeriveRunOrder sum256 seed runs' \<and>
     mset (DeriveRunOrder sum256 seed runs) = mset runs \<and>
     map fst (sortBy snd (map (\<lambda>r. (r, sum256 (seed @ '':'' @ r))) runs)) = DeriveRunOrder sum256 seed runs"
proof -
  let ?rank = "map (\<lambda>r. (r, sum256 (seed @ '':'' @ r)))"
  have inj: "inj_on snd (set (?rank runs))" using assms(1) by (auto simp: inj_on_def)
  have m: "mset (?rank runs) = mset (?rank runs')" using assms(2) by simp
  have "sort_key snd (?rank runs) = sort_key snd (?rank runs')"
    by (rule stable.sortBy_order [OF m inj])
  moreover have "sortBy snd (?rank runs) = sort_key snd (?rank runs)"
    by (rule slice_sort.sortBy_unique [OF assms(3) inj])
  ultimately show ?thesis by (simp add: DeriveRunOrder_mset) (simp add: DeriveRunOrder_def)
qed

lemma orderCheck_Inr: "orderCheck n rs ds = Inr u \<Longrightarrow> length rs = length ds \<Longrightarrow> rs = ds"
  by (induction n rs ds rule: orderCheck.induct) (auto split: if_splits)

lemma Methodology_validate_order:
  "Methodology_validate sum256 m = Inr () \<Longrightarrow>
     RunOrder m = DeriveRunOrder sum256 (OrderSeed m) expectedRuns"
proof -
  assume v: "Methodology_validate sum256 m = Inr ()"
  have "length (DeriveRunOrder sum256 (OrderSeed m) expectedRuns) = length expectedRuns"
    using DeriveRunOrder_mset by (rule mset_eq_length)
  moreover from v have "length (RunOrder m) = length expectedRuns"
    "orderCheck 0 (RunOrder m) (DeriveRunOrder sum256 (OrderSeed m) expectedRuns) = Inr ()"
    unfolding Methodology_validate_def if_Inl_Inr_iff bindR_Inr_iff by blast+
  ultimately show ?thesis using orderCheck_Inr by metis
qed

section \<open>What an accepted scenario is\<close>

definition participantMap :: "scenario \<Rightarrow> (string, participant) gomap" where
  "participantMap s = map (\<lambda>p. (pID p, p)) (scParticipants s)"

text \<open>The configured validators of a group, as a number.\<close>

definition configuredWeight :: "scenario \<Rightarrow> fault_group \<Rightarrow> nat" where
  "configuredWeight s g =
     sum_list (map (\<lambda>i. unat (ValidatorCount (mget zeroParticipant (participantMap s) i))) (groupParticipants g))"

definition totalValidators :: "scenario \<Rightarrow> nat" where
  "totalValidators s = sum_list (map (\<lambda>p. unat (ValidatorCount p)) (scParticipants s))"

text \<open>Every consensus client of the scenario runs in the group.\<close>

definition groupHasAllClients :: "scenario \<Rightarrow> fault_group \<Rightarrow> bool" where
  "groupHasAllClients s g \<longleftrightarrow>
     (\<forall>p \<in> set (scParticipants s). \<exists>q \<in> set (scParticipants s).
        pID q \<in> set (groupParticipants g) \<and> CLClient q = CLClient p)"

lemma participantMap_simps:
  assumes "distinct (map pID (scParticipants s))"
  shows "gomap (participantMap s)" "keys (participantMap s) = map pID (scParticipants s)"
    and "p \<in> set (scParticipants s) \<Longrightarrow> mget zeroParticipant (participantMap s) (pID p) = p"
proof -
  show g: "gomap (participantMap s)" "keys (participantMap s) = map pID (scParticipants s)"
    using assms by (simp_all add: participantMap_def gomap_def comp_def)
  assume "p \<in> set (scParticipants s)"
  then have "(pID p, p) \<in> set (participantMap s)" by (auto simp: participantMap_def)
  then have "map_of (participantMap s) (pID p) = Some p" by (simp add: map_of_Some_iff [OF g(1)])
  then show "mget zeroParticipant (participantMap s) (pID p) = p" by (simp add: mget_def)
qed

lemma Scenario_Validate_parts:
  assumes "Scenario_Validate sum256 s = Inr ()"
  shows "validParticipants (scParticipants s)" "validFault (scFault s) (participantMap s)"
    and "Methodology_validate sum256 (scMethodology s) = Inr ()"
    and "validateMixedGroups (Groups (scFault s)) (participantMap s) = Inr ()"
proof -
  from assms obtain m where m: "Topology_validate (scParticipants s) = Inr m"
    and f: "Fault_validate (scFault s) m = Inr ()"
    and r: "Methodology_validate sum256 (scMethodology s) = Inr ()"
      "validateMixedGroups (Groups (scFault s)) m = Inr ()"
    unfolding Scenario_Validate_def if_Inl_Inr_iff bindR_Inr_iff wrapE_Inr_iff by auto
  have v: "validParticipants (scParticipants s)" and pm: "m = participantMap s"
    using m unfolding Topology_validate_form participantMap_def by auto
  show "validParticipants (scParticipants s)" by (rule v)
  have "gomap m" using participantMap_simps(1) v pm by (simp add: validParticipants_def)
  then show "validFault (scFault s) (participantMap s)" using f Fault_validate_iff pm by simp
  show "Methodology_validate sum256 (scMethodology s) = Inr ()" by (rule r)
  show "validateMixedGroups (Groups (scFault s)) (participantMap s) = Inr ()" using r pm by simp
qed

lemma mixedGroups_clients:
  assumes "validateMixedGroups gs (participantMap s) = Inr ()" "g \<in> set gs"
    and "distinct (map pID (scParticipants s))" "set (groupParticipants g) \<subseteq> set (keys (participantMap s))"
  shows "groupHasAllClients s g"
proof -
  have all: "set (map (\<lambda>(_, p). CLClient p) (participantMap s)) = CLClient ` set (scParticipants s)"
    by (force simp: participantMap_def)
  have cl: "CLClient p \<in> set (map (\<lambda>i. CLClient (mget zeroParticipant (participantMap s) i)) (groupParticipants g))"
    if "p \<in> set (scParticipants s)" for p
  proof -
    have "CLClient p \<in> set (remdups (map (\<lambda>(_, p). CLClient p) (participantMap s)))"
      using that all by auto
    then show ?thesis using assms(1,2)
      unfolding validateMixedGroups_def Let_def if_Inl_Inr_iff eachCheck_Inr_iff mixedStep_def by fastforce
  qed
  show ?thesis unfolding groupHasAllClients_def
  proof
    fix p assume "p \<in> set (scParticipants s)"
    from cl [OF this] obtain i where i: "i \<in> set (groupParticipants g)"
      "CLClient p = CLClient (mget zeroParticipant (participantMap s) i)" by auto
    then obtain q where "q \<in> set (scParticipants s)" "i = pID q"
      using assms(4) participantMap_simps(2) [OF assms(3)] by auto
    with i participantMap_simps(3) [OF assms(3)]
    show "\<exists>q \<in> set (scParticipants s). pID q \<in> set (groupParticipants g) \<and> CLClient q = CLClient p"
      by auto
  qed
qed

text \<open>
  C10: an accepted scenario splits its participants: two groups that together hold every
  participant exactly once, each holds half of the configured validators (when their total
  fits 64 bits) and runs every consensus client of the scenario, of which there are at least
  two; and the run order is the derived one.
\<close>

theorem Scenario_Validate_split:
  assumes "Scenario_Validate sum256 s = Inr ()" "totalValidators s < 2 ^ 64"
  shows "\<exists>g1 g2. Groups (scFault s) = [g1, g2] \<and>
     mset (groupParticipants g1 @ groupParticipants g2) = mset (map pID (scParticipants s)) \<and>
     2 * configuredWeight s g1 = totalValidators s \<and> configuredWeight s g2 = configuredWeight s g1 \<and>
     groupHasAllClients s g1 \<and> groupHasAllClients s g2 \<and>
     2 \<le> card (CLClient ` set (scParticipants s)) \<and>
     RunOrder (scMethodology s) = DeriveRunOrder sum256 (OrderSeed (scMethodology s)) expectedRuns"
proof -
  note parts = Scenario_Validate_parts [OF assms(1)]
  have d: "distinct (map pID (scParticipants s))" using parts(1) by (simp add: validParticipants_def)
  note pm = participantMap_simps [OF d]
  from parts(2) obtain g1 g2 where g: "Groups (scFault s) = [g1, g2]"
    by (auto simp: validFault_def split: list.splits)
  with parts(2) have gd: "distinct (groupParticipants g1 @ groupParticipants g2)"
      "set (groupParticipants g1 @ groupParticipants g2) = set (map pID (scParticipants s))"
    and w: "groupWeight (participantMap s) (groupParticipants g1) =
            groupWeight (participantMap s) (groupParticipants g2)"
    unfolding validFault_def pm(2) by auto
  have ms: "mset (groupParticipants g1 @ groupParticipants g2) = mset (map pID (scParticipants s))"
    using gd d set_eq_iff_mset_eq_distinct by blast
  have total: "configuredWeight s g1 + configuredWeight s g2 = totalValidators s"
  proof -
    let ?f = "\<lambda>i. unat (ValidatorCount (mget zeroParticipant (participantMap s) i))"
    have "configuredWeight s g1 + configuredWeight s g2 =
        sum_mset (image_mset ?f (mset (groupParticipants g1 @ groupParticipants g2)))"
      by (simp only: configuredWeight_def mset_map [symmetric] sum_mset_sum_list map_append sum_list_append)
    also have "\<dots> = sum_list (map ?f (map pID (scParticipants s)))"
      unfolding ms by (simp only: mset_map [symmetric] sum_mset_sum_list)
    also have "\<dots> = totalValidators s"
      unfolding totalValidators_def map_map using pm(3) by (intro arg_cong [where f = sum_list]) auto
    finally show ?thesis .
  qed
  have exact: "unat (groupWeight (participantMap s) (groupParticipants g)) = configuredWeight s g"
    if "configuredWeight s g \<le> totalValidators s" for g
    using unat_sum_list64 [of "map (\<lambda>i. ValidatorCount (mget zeroParticipant (participantMap s) i)) (groupParticipants g)"]
      assms(2) that by (simp add: groupWeight_def configuredWeight_def comp_def)
  have eq: "configuredWeight s g1 = configuredWeight s g2"
    using exact [of g1] exact [of g2] total w by simp
  have cl: "groupHasAllClients s g1" "groupHasAllClients s g2"
    using mixedGroups_clients [OF parts(4) _ d] gd(2) g pm(2) by auto
  have "set (map (\<lambda>(_, p). CLClient p) (participantMap s)) = CLClient ` set (scParticipants s)"
    by (force simp: participantMap_def)
  moreover have "2 \<le> length (remdups (map (\<lambda>(_, p). CLClient p) (participantMap s)))"
    using parts(4) unfolding validateMixedGroups_def Let_def if_Inl_Inr_iff by simp
  ultimately have "2 \<le> card (CLClient ` set (scParticipants s))"
    by (metis card_set length_remdups_card_conv)
  with g ms total eq cl Methodology_validate_order [OF parts(3)] show ?thesis by auto
qed

section \<open>Shares that are not numbers\<close>

definition nanShares :: "scenario \<Rightarrow> scenario" where
  "nanShares s = s\<lparr>scFault := (scFault s)\<lparr>Groups := map (\<lambda>g. g\<lparr>Share := NaN\<rparr>) (Groups (scFault s))\<rparr>\<rparr>"

lemma nan_validFault:
  "validFault (scFault s) m \<Longrightarrow> validFault (scFault (nanShares s)) m"
  by (auto simp: validFault_def nanShares_def shareOk_def fsub_def split: list.splits)

lemma mixedStep_share: "mixedStep m cs (g\<lparr>Share := x\<rparr>) = mixedStep m cs g"
  by (simp add: mixedStep_def cong: if_cong)

text \<open>
  a share that is not a number passes every check: the shares of any accepted scenario
  can be replaced by NaN, because each comparison with a NaN is false.
\<close>

theorem NaN_shares_accepted:
  assumes "Scenario_Validate sum256 s = Inr ()"
  shows "Scenario_Validate sum256 (nanShares s) = Inr ()"
proof -
  let ?m = "map (\<lambda>p. (pID p, p)) (scParticipants s)"
  have v: "validParticipants (scParticipants s)" and f: "validFault (scFault s) ?m"
    using Scenario_Validate_parts(1,2) [OF assms] by (simp_all add: participantMap_def)
  have t: "Topology_validate (scParticipants s) = Inr ?m" using v by (simp add: Topology_validate_form)
  have g: "gomap ?m" using v by (simp add: validParticipants_def gomap_def comp_def)
  have "Fault_validate (scFault (nanShares s)) ?m = Inr ()"
    using f nan_validFault Fault_validate_iff [OF g] by blast
  moreover have "validateMixedGroups (Groups (scFault (nanShares s))) ?m =
      validateMixedGroups (Groups (scFault s)) ?m"
  proof -
    have "eachCheck (mixedStep ?m cs) (map (\<lambda>g. g\<lparr>Share := NaN\<rparr>) gs) = eachCheck (mixedStep ?m cs) gs" for cs gs
      by (induction gs) (simp_all add: mixedStep_share)
    then show ?thesis by (simp add: validateMixedGroups_def nanShares_def Let_def)
  qed
  moreover have "scAPIVersion (nanShares s) = scAPIVersion s" "scKind (nanShares s) = scKind s"
    "scName (nanShares s) = scName s" "scTarget (nanShares s) = scTarget s"
    "scParticipants (nanShares s) = scParticipants s" "scThresholds (nanShares s) = scThresholds s"
    "scMethodology (nanShares s) = scMethodology s" "scPrediction (nanShares s) = scPrediction s"
    "DoesNotProve (nanShares s) = DoesNotProve s"
    by (simp_all add: nanShares_def)
  ultimately show ?thesis using assms t
    unfolding Scenario_Validate_def if_Inl_Inr_iff bindR_Inr_iff wrapE_Inr_iff by auto
qed

end
