(* ===== verification/Shipped.thy ===== *)
theory Shipped
  imports Scenario
begin

text \<open>
  The scenario file of the repository, evaluated: it passes the validation, and the
  hypotheses of the scenario theorems hold of it.
\<close>

section \<open>The shipped scenario\<close>

text \<open>
  \<^verbatim>\<open>scenarios/cl-p2p-partition.yaml\<close> as the decoder reads it, and the two leading bytes of the
  SHA-256 digests of its seed with the six runs, which already tell the digests apart.
\<close>

definition shippedDigests :: "(string \<times> string) list" where
  "shippedDigests =
    [(''phase3-d:control-1'', [CHR 0xB2, CHR 0xAE]),
     (''phase3-d:control-2'', [CHR 0x7D, CHR 0xDE]),
     (''phase3-d:control-3'', [CHR 0xE3, CHR 0x3F]),
     (''phase3-d:fault-1'', [CHR 0xF4, CHR 0x99]),
     (''phase3-d:fault-2'', [CHR 0xC1, CHR 0x73]),
     (''phase3-d:fault-3'', [CHR 0x7C, CHR 0xF8])]"

definition shippedSum256 :: "string \<Rightarrow> string" where
  "shippedSum256 s = mget [] shippedDigests s"

definition shippedScenario :: scenario where
  "shippedScenario =
     \<lparr>scAPIVersion = ''ethquake.dev/v1alpha1'', scKind = ''Scenario'', scName = ''cl-p2p-partition'',
      scTarget = \<lparr>ChainID = 3151908, NamespacePrefix = ''kt-ethquake-phase3-''\<rparr>,
      scParticipants = [
      \<lparr>pID = ''lighthouse-geth-a'', ELClient = ''geth'', CLClient = ''lighthouse'', BeaconTarget = ''lighthouse-a'',
       BeaconServiceID = ''cl-1-lighthouse-geth'', ExecutionServiceID = ''el-1-geth-lighthouse'',
       ValidatorServiceID = ''vc-1-geth-lighthouse'', ValidatorRangeName = ''1-geth-lighthouse'', ValidatorCount = 32\<rparr>,
      \<lparr>pID = ''teku-reth-a'', ELClient = ''reth'', CLClient = ''teku'', BeaconTarget = ''teku-a'',
       BeaconServiceID = ''cl-2-teku-reth'', ExecutionServiceID = ''el-2-reth-teku'',
       ValidatorServiceID = ''vc-2-reth-teku'', ValidatorRangeName = ''2-reth-teku'', ValidatorCount = 32\<rparr>,
      \<lparr>pID = ''lighthouse-geth-b'', ELClient = ''geth'', CLClient = ''lighthouse'', BeaconTarget = ''lighthouse-b'',
       BeaconServiceID = ''cl-3-lighthouse-geth'', ExecutionServiceID = ''el-3-geth-lighthouse'',
       ValidatorServiceID = ''vc-3-geth-lighthouse'', ValidatorRangeName = ''3-geth-lighthouse'', ValidatorCount = 32\<rparr>,
      \<lparr>pID = ''teku-reth-b'', ELClient = ''reth'', CLClient = ''teku'', BeaconTarget = ''teku-b'',
       BeaconServiceID = ''cl-4-teku-reth'', ExecutionServiceID = ''el-4-reth-teku'',
       ValidatorServiceID = ''vc-4-reth-teku'', ValidatorRangeName = ''4-reth-teku'', ValidatorCount = 32\<rparr>],
      scFault = \<lparr>faultType = ''network_partition'', SplitBy = ''validator_weight'', Layers = [''cl_p2p''],
        DurationEpochs = 3, Groups = [
          \<lparr>groupName = ''a'', Share = lit (1/2), groupParticipants = [''lighthouse-geth-a'', ''teku-reth-a'']\<rparr>,
          \<lparr>groupName = ''b'', Share = lit (1/2), groupParticipants = [''lighthouse-geth-b'', ''teku-reth-b'']\<rparr>]\<rparr>,
      scThresholds = \<lparr>HeadDivergenceToleranceSlots = 1, RealizedSplitTolerance = Fin 0,
        ClientRecoveryDifferenceSlots = 1\<rparr>,
      scMethodology = \<lparr>ControlRepetitions = 3, FaultRepetitions = 3, Pairing = ''by_repetition'',
        OrderSeed = ''phase3-d'', RunOrder = [''fault-3'', ''control-2'', ''control-1'', ''fault-2'',
          ''control-3'', ''fault-1''], PostFaultObservationEpochs = 4\<rparr>,
      scPrediction = \<lparr>PrimaryMetric = ''finalized_epoch_progress'',
        GateARule = ''max_fault_target_strictly_less_than_min_paired_control_target_all_repetitions'',
        GateBRule = ''zero_fault_progress_and_recovery_all_repetitions'',
        Explanation = ''A three-epoch 50/50 split leaves neither side with two thirds.''\<rparr>,
      DoesNotProve = ''This experiment does not establish a client bug.''\<rparr>"

lemma shipped_valid: "Scenario_Validate shippedSum256 shippedScenario = Inr ()"
  by code_simp

text \<open>The hypotheses of the split theorem hold of the shipped scenario.\<close>

theorem Scenario_Validate_split_witness:
  "\<exists>g1 g2. Groups (scFault shippedScenario) = [g1, g2] \<and>
     mset (groupParticipants g1 @ groupParticipants g2) = mset (map pID (scParticipants shippedScenario)) \<and>
     2 * configuredWeight shippedScenario g1 = totalValidators shippedScenario \<and>
     configuredWeight shippedScenario g2 = configuredWeight shippedScenario g1 \<and>
     groupHasAllClients shippedScenario g1 \<and> groupHasAllClients shippedScenario g2 \<and>
     2 \<le> card (CLClient ` set (scParticipants shippedScenario)) \<and>
     RunOrder (scMethodology shippedScenario) =
       DeriveRunOrder shippedSum256 (OrderSeed (scMethodology shippedScenario)) expectedRuns"
proof (rule Scenario_Validate_split)
  show "Scenario_Validate shippedSum256 shippedScenario = Inr ()" by (rule shipped_valid)
  show "totalValidators shippedScenario < 2 ^ 64"
    by (simp add: totalValidators_def shippedScenario_def)
qed

theorem DeriveRunOrder_canonical_witness:
  "DeriveRunOrder shippedSum256 ''phase3-d'' expectedRuns =
     DeriveRunOrder shippedSum256 ''phase3-d'' (rev expectedRuns) \<and>
   mset (DeriveRunOrder shippedSum256 ''phase3-d'' expectedRuns) = mset expectedRuns \<and>
   map fst (sort_key snd (map (\<lambda>r. (r, shippedSum256 (''phase3-d'' @ '':'' @ r))) expectedRuns)) =
     DeriveRunOrder shippedSum256 ''phase3-d'' expectedRuns"
proof (rule DeriveRunOrder_canonical [OF _ _ stable.slice_sort_axioms])
  have "distinct (map (\<lambda>r. shippedSum256 (''phase3-d'' @ '':'' @ r)) expectedRuns)" by code_simp
  then show "inj_on (\<lambda>r. shippedSum256 (''phase3-d'' @ '':'' @ r)) (set expectedRuns)"
    by (simp add: distinct_map)
qed simp

theorem NaN_shares_accepted_witness:
  "Scenario_Validate shippedSum256 (nanShares shippedScenario) = Inr ()"
  by (rule NaN_shares_accepted [OF shipped_valid])

end
