(* ===== verification/Topology.thy ===== *)
theory Topology
  imports Scenario Beacon "HOL-Library.Product_Lexorder"
begin

text \<open>
  Validator ownership and the realized split (\<^verbatim>\<open>internal/topology/realized_split.go\<close>,
  \<^verbatim>\<open>internal/topology/validation.go\<close>): parsing the ranges, attributing the active validators
  with a binary search, the shares of the groups, and the checks of a stored split and of the
  placements.
\<close>

section \<open>Structs\<close>

record validator_range =
  rangeStart :: u64
  rangeEnd :: u64
  rangeOwner :: string

record placement =
  plParticipantID :: string
  plTarget :: string
  plPod :: string
  plNode :: string
  plNodePool :: string
  plMachineType :: string
  plResourcePolicy :: string

record participant_weight =
  pwParticipantID :: string
  pwValidatorCount :: u64
  pwEffectiveBalance :: u64

record group_weight =
  gwName :: string
  gwRequestedShare :: f64
  gwRealizedShare :: f64
  gwEffectiveBalance :: u64

record realized_split =
  rsSplitBy :: string
  rsTotal :: u64
  rsParticipants :: "participant_weight list"
  rsGroups :: "group_weight list"
  rsWithinTolerance :: bool
  rsTolerance :: f64

section \<open>Parsing the ranges\<close>

datatype (plugins only: code size) range_err =
    RangesTooLarge | DecodeRanges | SecondRangesDocument | DecodeTrailingRanges | EmptyRanges
  | RangeFormat string | RangeStart string num_err | RangeEnd string num_err
  | RangeReversed string | RangeOwner string | RangeOverlap u64

definition maxValidatorRangesBytes :: nat where "maxValidatorRangesBytes = 1048576"

definition rangeStep :: "string \<times> string \<Rightarrow> validator_range list \<Rightarrow> range_err + validator_range list" where
  "rangeStep = (\<lambda>(rawRange, owner) ranges.
     let (startText, endText, found) = Cut (CHR ''-'') rawRange in
     if \<not> found \<or> startText = [] \<or> endText = [] \<or> Contains endText ''-'' then Inl (RangeFormat rawRange)
     else bindR (wrapE (RangeStart rawRange) (ParseUint 10 startText)) (\<lambda>start.
          bindR (wrapE (RangeEnd rawRange) (ParseUint 10 endText)) (\<lambda>end'.
            if end' < start then Inl (RangeReversed rawRange)
            else if owner = [] then Inl (RangeOwner rawRange)
            else Inr (ranges @ [\<lparr>rangeStart = start, rangeEnd = end', rangeOwner = owner\<rparr>]))))"

text \<open>The overlap check compares each range with the one before it.\<close>

fun overlapCheck :: "validator_range list \<Rightarrow> range_err + unit" where
  "overlapCheck (a # b # rs) =
     (if rangeStart b \<le> rangeEnd a then Inl (RangeOverlap (rangeStart b)) else overlapCheck (b # rs))"
| "overlapCheck rs = Inr ()"

definition rangesOf :: "(string, string) gomap \<Rightarrow> range_err + validator_range list" where
  "rangesOf raw =
     (if length raw = 0 then Inl EmptyRanges
      else bindR (each rangeStep raw []) (\<lambda>ranges.
        let ordered = sort_key (\<lambda>r. (rangeStart r, rangeEnd r)) ranges in
        bindR (overlapCheck ordered) (\<lambda>_. Inr ordered)))"

definition ParseValidatorRanges ::
  "(string \<Rightarrow> ((string, string) gomap \<times> yaml_rest) option) \<Rightarrow> string \<Rightarrow> range_err + validator_range list" where
  "ParseValidatorRanges yaml data =
     (if length data > maxValidatorRangesBytes then Inl RangesTooLarge
      else (case yaml data of
        None \<Rightarrow> Inl DecodeRanges
      | Some (raw, RestDocument) \<Rightarrow> Inl SecondRangesDocument
      | Some (raw, RestError) \<Rightarrow> Inl DecodeTrailingRanges
      | Some (raw, RestEOF) \<Rightarrow> rangesOf raw))"

section \<open>The realized split\<close>

text \<open>\<^verbatim>\<open>sort.Search\<close>: binary search for the first index in \<open>[i, j)\<close> at which \<open>f\<close> holds.\<close>

function searchFrom :: "(nat \<Rightarrow> bool) \<Rightarrow> nat \<Rightarrow> nat \<Rightarrow> nat" where
  "searchFrom f i j =
     (if i < j then
        let h = (i + j) div 2 in if \<not> f h then searchFrom f (h + 1) j else searchFrom f i h
      else i)"
  by pat_completeness auto
termination by (relation "measure (\<lambda>(f, i, j). j - i)") auto

declare searchFrom.simps [simp del]

definition Search :: "nat \<Rightarrow> (nat \<Rightarrow> bool) \<Rightarrow> nat" where
  "Search n f = searchFrom f 0 n"

datatype (plugins only: code size) split_err =
    NoRanges | NoActiveValidators | UnknownOwner string | NoOwner u64 | BalanceOverflow | ZeroTotal
  | CountMismatch string u64 u64

definition participantsByRange :: "scenario \<Rightarrow> (string, participant) gomap" where
  "participantsByRange s = foldl (\<lambda>m p. mput (ValidatorRangeName p) p m) [] (scParticipants s)"

definition participantsByID :: "scenario \<Rightarrow> (string, participant) gomap" where
  "participantsByID s = foldl (\<lambda>m p. mput (pID p) p m) [] (scParticipants s)"

text \<open>A range with the participant that owns it.\<close>

definition ownStep ::
  "(string, participant) gomap \<Rightarrow> validator_range \<Rightarrow> (validator_range \<times> string) list
     \<Rightarrow> split_err + (validator_range \<times> string) list" where
  "ownStep byRange r owned =
     (case map_of byRange (rangeOwner r) of
        None \<Rightarrow> Inl (UnknownOwner (rangeOwner r))
      | Some p \<Rightarrow> Inr (owned @ [(r, pID p)]))"

definition ownerOf :: "(validator_range \<times> string) list \<Rightarrow> u64 \<Rightarrow> string" where
  "ownerOf owned index =
     (let position = Search (length owned) (\<lambda>i. rangeEnd (fst (owned ! i)) \<ge> index) in
      if position < length owned \<and> rangeStart (fst (owned ! position)) \<le> index
      then snd (owned ! position) else [])"

record weigh_state =
  wsWeights :: "(string, u64) gomap"
  wsCounts :: "(string, u64) gomap"
  wsTotal :: u64

definition weighStep ::
  "(validator_range \<times> string) list \<Rightarrow> beacon_validator \<Rightarrow> weigh_state \<Rightarrow> split_err + weigh_state" where
  "weighStep owned v st =
     (let participantID = ownerOf owned (validatorIndex v) in
      if participantID = [] then Inl (NoOwner (validatorIndex v))
      else if MaxUint64 - mget 0 (wsWeights st) participantID < EffectiveBalance v \<or>
              MaxUint64 - wsTotal st < EffectiveBalance v
      then Inl BalanceOverflow
      else Inr \<lparr>wsWeights = mput participantID (mget 0 (wsWeights st) participantID + EffectiveBalance v)
                              (wsWeights st),
                wsCounts = mput participantID (mget 0 (wsCounts st) participantID + 1) (wsCounts st),
                wsTotal = wsTotal st + EffectiveBalance v\<rparr>)"

definition weighStart :: weigh_state where
  "weighStart = \<lparr>wsWeights = [], wsCounts = [], wsTotal = 0\<rparr>"

definition participantWeight ::
  "weigh_state \<Rightarrow> participant \<Rightarrow> participant_weight list \<Rightarrow> split_err + participant_weight list" where
  "participantWeight st p acc =
     (let counted = mget 0 (wsCounts st) (pID p) in
      if counted \<noteq> ValidatorCount p then Inl (CountMismatch (pID p) counted (ValidatorCount p))
      else Inr (acc @ [\<lparr>pwParticipantID = pID p, pwValidatorCount = counted,
                        pwEffectiveBalance = mget 0 (wsWeights st) (pID p)\<rparr>]))"

definition groupBalance :: "(string, u64) gomap \<Rightarrow> string list \<Rightarrow> u64" where
  "groupBalance weights ids = foldl (\<lambda>b i. b + mget 0 weights i) 0 ids"

definition realizedShare :: "u64 \<Rightarrow> u64 \<Rightarrow> f64" where
  "realizedShare balance tot = fdiv (f64_of_u64 balance) (f64_of_u64 tot)"

definition groupWeightOf :: "weigh_state \<Rightarrow> fault_group \<Rightarrow> group_weight" where
  "groupWeightOf st g =
     (let balance = groupBalance (wsWeights st) (groupParticipants g) in
      \<lparr>gwName = groupName g, gwRequestedShare = Share g,
       gwRealizedShare = realizedShare balance (wsTotal st), gwEffectiveBalance = balance\<rparr>)"

definition outside :: "f64 \<Rightarrow> f64 \<Rightarrow> f64 \<Rightarrow> bool" where
  "outside tolerance share requested \<longleftrightarrow> fgt (fabs (fsub share requested)) tolerance"

definition CalculateRealizedSplit ::
  "scenario \<Rightarrow> validator_range list \<Rightarrow> beacon_validator list \<Rightarrow> split_err + realized_split" where
  "CalculateRealizedSplit s ranges validators =
     (if length ranges = 0 then Inl NoRanges
      else if length validators = 0 then Inl NoActiveValidators
      else bindR (each (ownStep (participantsByRange s)) ranges []) (\<lambda>owned.
           bindR (each (weighStep owned) validators weighStart) (\<lambda>st.
             if wsTotal st = 0 then Inl ZeroTotal
             else bindR (each (participantWeight st) (scParticipants s) []) (\<lambda>participants.
               let tolerance = RealizedSplitTolerance (scThresholds s);
                   groups = map (groupWeightOf st) (Groups (scFault s)) in
               Inr \<lparr>rsSplitBy = SplitBy (scFault s), rsTotal = wsTotal st,
                    rsParticipants = participants, rsGroups = groups,
                    rsWithinTolerance = \<not> list_ex (\<lambda>g.
                      outside tolerance (gwRealizedShare g) (gwRequestedShare g)) groups,
                    rsTolerance = tolerance\<rparr>))))"

section \<open>Checking a stored split\<close>

datatype (plugins only: code size) stored_err =
    SplitByMismatch | TotalNotPositive | ToleranceMismatch | ParticipantsMismatch nat
  | UnknownSplitParticipant string | DuplicateSplitParticipant string | InvalidSplitParticipant string
  | ParticipantSumOverflow | TotalMismatch u64 u64 | GroupsMismatch nat
  | UnknownSplitGroup string | DuplicateSplitGroup string | GroupLacks string string
  | GroupSumOverflow | AggregatesMismatch string | WithinToleranceMismatch

definition balanceStep ::
  "(string, participant) gomap \<Rightarrow> participant_weight \<Rightarrow> (string, u64) gomap \<times> u64
     \<Rightarrow> stored_err + (string, u64) gomap \<times> u64" where
  "balanceStep expected p = (\<lambda>(balances, tot).
     case map_of expected (pwParticipantID p) of
       None \<Rightarrow> Inl (UnknownSplitParticipant (pwParticipantID p))
     | Some e \<Rightarrow>
         if pwParticipantID p \<in> set (keys balances) then Inl (DuplicateSplitParticipant (pwParticipantID p))
         else if pwValidatorCount p \<noteq> ValidatorCount e \<or> pwEffectiveBalance p = 0
         then Inl (InvalidSplitParticipant (pwParticipantID p))
         else if MaxUint64 - tot < pwEffectiveBalance p then Inl ParticipantSumOverflow
         else Inr (mput (pwParticipantID p) (pwEffectiveBalance p) balances, tot + pwEffectiveBalance p))"

definition groupSumStep :: "string \<Rightarrow> (string, u64) gomap \<Rightarrow> string \<Rightarrow> u64 \<Rightarrow> stored_err + u64" where
  "groupSumStep name balances i acc =
     (case map_of balances i of
        None \<Rightarrow> Inl (GroupLacks name i)
      | Some b \<Rightarrow> if MaxUint64 - acc < b then Inl GroupSumOverflow else Inr (acc + b))"

definition storedGroupStep ::
  "(string, fault_group) gomap \<Rightarrow> (string, u64) gomap \<Rightarrow> u64 \<Rightarrow> f64 \<Rightarrow> group_weight
     \<Rightarrow> string list \<times> bool \<Rightarrow> stored_err + string list \<times> bool" where
  "storedGroupStep expected balances tot tolerance g = (\<lambda>(seen, inside).
     case map_of expected (gwName g) of
       None \<Rightarrow> Inl (UnknownSplitGroup (gwName g))
     | Some e \<Rightarrow>
         if gwName g \<in> set seen then Inl (DuplicateSplitGroup (gwName g))
         else bindR (each (groupSumStep (gwName g) balances) (groupParticipants e) 0) (\<lambda>acc.
           let share = realizedShare acc tot in
           if \<not> feq (gwRequestedShare g) (Share e) \<or> gwEffectiveBalance g \<noteq> acc \<or>
              fgt (fabs (fsub (gwRealizedShare g) share)) shareTolerance
           then Inl (AggregatesMismatch (gwName g))
           else Inr (gwName g # seen, inside \<and> \<not> outside tolerance share (Share e))))"

definition expectedGroups :: "scenario \<Rightarrow> (string, fault_group) gomap" where
  "expectedGroups s = foldl (\<lambda>m g. mput (groupName g) g m) [] (Groups (scFault s))"

definition ValidateRealizedSplit :: "scenario \<Rightarrow> realized_split \<Rightarrow> stored_err + unit" where
  "ValidateRealizedSplit s split =
     (if rsSplitBy split \<noteq> SplitBy (scFault s) then Inl SplitByMismatch
      else if rsTotal split = 0 then Inl TotalNotPositive
      else if \<not> feq (rsTolerance split) (RealizedSplitTolerance (scThresholds s)) then Inl ToleranceMismatch
      else if length (rsParticipants split) \<noteq> length (scParticipants s)
      then Inl (ParticipantsMismatch (length (rsParticipants split)))
      else bindR (each (balanceStep (participantsByID s)) (rsParticipants split) ([], 0)) (\<lambda>(balances, tot).
        if tot \<noteq> rsTotal split then Inl (TotalMismatch tot (rsTotal split))
        else if length (rsGroups split) \<noteq> length (Groups (scFault s))
        then Inl (GroupsMismatch (length (rsGroups split)))
        else bindR (each (storedGroupStep (expectedGroups s) balances tot (rsTolerance split))
                      (rsGroups split) ([], True)) (\<lambda>(seen, inside).
          if rsWithinTolerance split \<noteq> inside then Inl WithinToleranceMismatch else Inr ())))"

section \<open>Placements\<close>

datatype (plugins only: code size) placement_err =
    PlacementTotal nat | PlacementField | DuplicatePlacement string | SharedNode string
  | UnequalMachines | LacksPlacement string

text \<open>The placements and nodes seen, and the reference machine and policy.\<close>

record placement_state =
  psByParticipant :: "(string, placement) gomap"
  psNodes :: "string list"
  psMachine :: string
  psPolicy :: string

definition placementStep :: "placement \<Rightarrow> placement_state \<Rightarrow> placement_err + placement_state" where
  "placementStep p st =
     (if plParticipantID p = [] \<or> plTarget p = [] \<or> plPod p = [] \<or> plNode p = [] \<or> plNodePool p = [] \<or>
         plMachineType p = [] \<or> plResourcePolicy p = []
      then Inl PlacementField
      else if plParticipantID p \<in> set (keys (psByParticipant st))
      then Inl (DuplicatePlacement (plParticipantID p))
      else if plNode p \<in> set (psNodes st) then Inl (SharedNode (plNode p))
      else if psMachine st \<noteq> [] \<and>
              (plMachineType p \<noteq> psMachine st \<or> plResourcePolicy p \<noteq> psPolicy st)
      then Inl UnequalMachines
      else Inr \<lparr>psByParticipant = mput (plParticipantID p) p (psByParticipant st),
                psNodes = plNode p # psNodes st,
                psMachine = (if psMachine st = [] then plMachineType p else psMachine st),
                psPolicy = (if psMachine st = [] then plResourcePolicy p else psPolicy st)\<rparr>)"

definition placementStart :: placement_state where
  "placementStart = \<lparr>psByParticipant = [], psNodes = [], psMachine = [], psPolicy = []\<rparr>"

definition ValidatePlacements :: "scenario \<Rightarrow> placement list \<Rightarrow> placement_err + unit" where
  "ValidatePlacements s placements =
     (if length placements \<noteq> length (scParticipants s) then Inl (PlacementTotal (length placements))
      else bindR (each placementStep placements placementStart) (\<lambda>st.
        eachCheck (\<lambda>p.
          case map_of (psByParticipant st) (pID p) of
            None \<Rightarrow> Inl (LacksPlacement (pID p))
          | Some pl \<Rightarrow> if plTarget pl \<noteq> BeaconTarget p then Inl (LacksPlacement (pID p)) else Inr ())
          (scParticipants s)))"

section \<open>Binary search\<close>

lemma searchFrom_spec:
  assumes "i \<le> j" "\<And>a b. a \<le> b \<Longrightarrow> b < j \<Longrightarrow> f a \<Longrightarrow> f b"
  shows "i \<le> searchFrom f i j \<and> searchFrom f i j \<le> j \<and>
     (\<forall>x. i \<le> x \<and> x < searchFrom f i j \<longrightarrow> \<not> f x) \<and> (searchFrom f i j < j \<longrightarrow> f (searchFrom f i j))"
  using assms
proof (induction f i j rule: searchFrom.induct)
  case (1 f i j)
  show ?case
  proof (cases "i < j")
    case False
    then have "searchFrom f i j = i" by (subst searchFrom.simps) simp
    then show ?thesis using False "1.prems"(1) by auto
  next
    case True
    define h where "h = (i + j) div 2"
    have h: "i \<le> h" "h < j" using True by (auto simp: h_def)
    show ?thesis
    proof (cases "f h")
      case fh: True
      have IH: "i \<le> searchFrom f i h \<and> searchFrom f i h \<le> h \<and>
          (\<forall>x. i \<le> x \<and> x < searchFrom f i h \<longrightarrow> \<not> f x) \<and> (searchFrom f i h < h \<longrightarrow> f (searchFrom f i h))"
        by (rule "1.IH"(2) [OF True h_def]) (use fh h "1.prems"(2) in auto)
      moreover have "searchFrom f i j = searchFrom f i h"
        using True fh by (subst searchFrom.simps) (simp add: Let_def h_def [symmetric])
      ultimately show ?thesis using fh h by (cases "searchFrom f i h = h") auto
    next
      case nfh: False
      have IH: "h + 1 \<le> searchFrom f (h + 1) j \<and> searchFrom f (h + 1) j \<le> j \<and>
          (\<forall>x. h + 1 \<le> x \<and> x < searchFrom f (h + 1) j \<longrightarrow> \<not> f x) \<and>
          (searchFrom f (h + 1) j < j \<longrightarrow> f (searchFrom f (h + 1) j))"
        by (rule "1.IH"(1) [OF True h_def]) (use nfh h "1.prems"(2) in auto)
      moreover have "searchFrom f i j = searchFrom f (h + 1) j"
        using True nfh by (subst searchFrom.simps) (simp add: Let_def h_def [symmetric])
      moreover have "\<not> f x" if "x \<le> h" for x using that nfh h "1.prems"(2) by blast
      ultimately show ?thesis using h by (metis Suc_eq_plus1 Suc_leD Suc_leI le_trans not_less)
    qed
  qed
qed

text \<open>
  the binary search returns the least index at which a monotone test holds, or the
  length when it holds nowhere.
\<close>

theorem Search_least:
  assumes "\<And>a b. a \<le> b \<Longrightarrow> b < n \<Longrightarrow> f a \<Longrightarrow> f b"
  shows "Search n f \<le> n \<and> (\<forall>x < Search n f. \<not> f x) \<and> (Search n f < n \<longrightarrow> f (Search n f))"
  using searchFrom_spec [of 0 n f] assms by (auto simp: Search_def)

text \<open>Ranges in order that do not overlap.\<close>

definition disjointRanges :: "validator_range list \<Rightarrow> bool" where
  "disjointRanges rs \<longleftrightarrow> sorted_wrt (\<lambda>a b. rangeEnd a < rangeStart b) rs \<and>
     (\<forall>r \<in> set rs. rangeStart r \<le> rangeEnd r)"

definition covers :: "validator_range \<Rightarrow> u64 \<Rightarrow> bool" where
  "covers r index \<longleftrightarrow> rangeStart r \<le> index \<and> index \<le> rangeEnd r"

lemma disjointRanges_nth:
  "disjointRanges rs \<Longrightarrow> i < j \<Longrightarrow> j < length rs \<Longrightarrow> rangeEnd (rs ! i) < rangeStart (rs ! j)"
  by (auto simp: disjointRanges_def sorted_wrt_iff_nth_less)

lemma disjointRanges_ends:
  assumes "disjointRanges rs" "i \<le> j" "j < length rs"
  shows "rangeEnd (rs ! i) \<le> rangeEnd (rs ! j)"
proof (cases "i = j")
  case False
  then have "rangeEnd (rs ! i) < rangeStart (rs ! j)" using assms by (intro disjointRanges_nth) simp_all
  moreover have "rangeStart (rs ! j) \<le> rangeEnd (rs ! j)" using assms by (simp add: disjointRanges_def)
  ultimately show ?thesis by order
qed simp

lemma ownerOf_search:
  fixes owned :: "(validator_range \<times> string) list" and index :: u64
  assumes "disjointRanges (map fst owned)"
  defines "k \<equiv> Search (length owned) (\<lambda>i. rangeEnd (fst (owned ! i)) \<ge> index)"
  shows "\<forall>x < k. rangeEnd (fst (owned ! x)) < index"
    and "k < length owned \<Longrightarrow> index \<le> rangeEnd (fst (owned ! k))"
proof -
  have mono: "index \<le> rangeEnd (fst (owned ! b))"
    if "a \<le> b" "b < length owned" "index \<le> rangeEnd (fst (owned ! a))" for a b
    using disjointRanges_ends [OF assms(1), of a b] that by simp
  have "k \<le> length owned \<and> (\<forall>x < k. \<not> index \<le> rangeEnd (fst (owned ! x))) \<and>
      (k < length owned \<longrightarrow> index \<le> rangeEnd (fst (owned ! k)))"
    using searchFrom_spec [of 0 "length owned" "\<lambda>i. index \<le> rangeEnd (fst (owned ! i))"] mono
    by (simp add: k_def Search_def)
  then show "\<forall>x < k. rangeEnd (fst (owned ! x)) < index"
    "k < length owned \<Longrightarrow> index \<le> rangeEnd (fst (owned ! k))" by (auto simp: not_le)
qed

lemma ownerOf_covered:
  assumes "disjointRanges (map fst owned)" "(r, p) \<in> set owned" "covers r index"
  shows "ownerOf owned index = p"
proof -
  define k where "k = Search (length owned) (\<lambda>i. rangeEnd (fst (owned ! i)) \<ge> index)"
  note s = ownerOf_search [OF assms(1), of index, folded k_def]
  from assms(2) obtain m where m: "m < length owned" "owned ! m = (r, p)" by (metis in_set_conv_nth)
  have "\<not> m < k" using s(1) m assms(3) by (auto simp: covers_def)
  moreover have "\<not> k < m"
  proof
    assume "k < m"
    then have "rangeEnd (fst (owned ! k)) < rangeStart (fst (owned ! m))"
      using disjointRanges_nth [OF assms(1), of k m] m by simp
    with s(2) \<open>k < m\<close> m assms(3) show False by (auto simp: covers_def)
  qed
  ultimately have "k = m" by simp
  then show ?thesis using m assms(3) by (simp add: ownerOf_def k_def [symmetric] covers_def)
qed

lemma ownerOf_uncovered:
  assumes "disjointRanges (map fst owned)" "\<And>r p. (r, p) \<in> set owned \<Longrightarrow> \<not> covers r index"
  shows "ownerOf owned index = []"
proof -
  define k where "k = Search (length owned) (\<lambda>i. rangeEnd (fst (owned ! i)) \<ge> index)"
  note s = ownerOf_search [OF assms(1), of index, folded k_def]
  have "\<not> (k < length owned \<and> rangeStart (fst (owned ! k)) \<le> index)"
    using s(2) assms(2) [of "fst (owned ! k)" "snd (owned ! k)"] by (auto simp: covers_def)
  then show ?thesis by (auto simp: ownerOf_def k_def [symmetric])
qed

section \<open>Ranges\<close>

text \<open>One entry of the file, read on its own.\<close>

definition parseRange :: "string \<times> string \<Rightarrow> range_err + validator_range" where
  "parseRange e = map_sum id hd (rangeStep e [])"

lemma rangeStep_Inr:
  "rangeStep e acc = Inr out \<longleftrightarrow> (\<exists>r. parseRange e = Inr r \<and> out = acc @ [r])"
proof -
  obtain raw owner where e: "e = (raw, owner)" by (cases e)
  obtain a b found where c: "Cut (CHR ''-'') raw = (a, b, found)" by (cases "Cut (CHR ''-'') raw") auto
  show ?thesis
    by (cases "ParseUint 10 a"; cases "ParseUint 10 b")
      (auto simp: e c parseRange_def rangeStep_def Let_def)
qed

lemma each_rangeStep:
  "each rangeStep raw acc = Inr out \<longleftrightarrow>
     (\<forall>e \<in> set raw. \<exists>r. parseRange e = Inr r) \<and> out = acc @ map (projr \<circ> parseRange) raw"
proof (induction raw arbitrary: acc)
  case Nil
  then show ?case by auto
next
  case (Cons e raw)
  show ?case
  proof (cases "parseRange e")
    case (Inl x)
    then show ?thesis using rangeStep_Inr [of e acc] by (auto simp: bindR_Inr_iff)
  next
    case (Inr r)
    then have "rangeStep e acc = Inr (acc @ [r])" by (simp add: rangeStep_Inr)
    then show ?thesis using Inr by (simp add: Cons.IH)
  qed
qed

lemma parseRange_ok: "parseRange e = Inr r \<Longrightarrow> rangeStart r \<le> rangeEnd r \<and> rangeOwner r = snd e \<and> snd e \<noteq> []"
proof -
  obtain raw owner where e: "e = (raw, owner)" by (cases e)
  obtain a b found where c: "Cut (CHR ''-'') raw = (a, b, found)" by (cases "Cut (CHR ''-'') raw") auto
  show "parseRange e = Inr r \<Longrightarrow> rangeStart r \<le> rangeEnd r \<and> rangeOwner r = snd e \<and> snd e \<noteq> []"
    by (cases "ParseUint 10 a"; cases "ParseUint 10 b")
      (auto simp: e c parseRange_def rangeStep_def Let_def split: if_splits)
qed

lemma overlapCheck_sorted:
  "overlapCheck rs = Inr u \<Longrightarrow> \<forall>r \<in> set rs. rangeStart r \<le> rangeEnd r \<Longrightarrow>
     sorted_wrt (\<lambda>a b. rangeEnd a < rangeStart b) rs"
proof (induction rs rule: overlapCheck.induct)
  case (1 a b rs)
  from "1.prems" have ab: "rangeEnd a < rangeStart b" and r: "overlapCheck (b # rs) = Inr u"
    by (auto split: if_splits simp: not_le)
  have IH: "sorted_wrt (\<lambda>a b. rangeEnd a < rangeStart b) (b # rs)"
    using "1.IH" "1.prems"(2) ab r by (simp add: not_le)
  have "rangeStart b \<le> rangeEnd b" using "1.prems"(2) by simp
  have "rangeEnd a < rangeStart x" if "x \<in> set rs" for x
  proof -
    have "rangeEnd b < rangeStart x" using IH that by simp
    with ab \<open>rangeStart b \<le> rangeEnd b\<close> show ?thesis by order
  qed
  with ab IH show ?case by simp
qed simp_all

lemma sorted_overlapCheck:
  "sorted_wrt (\<lambda>a b. rangeEnd a < rangeStart b) rs \<Longrightarrow> overlapCheck rs = Inr ()"
  by (induction rs rule: overlapCheck.induct) auto

abbreviation rangeKey :: "validator_range \<Rightarrow> u64 \<times> u64" where
  "rangeKey r \<equiv> (rangeStart r, rangeEnd r)"

lemma rangesOf_Inr:
  "rangesOf raw = Inr rs \<longleftrightarrow> raw \<noteq> [] \<and> (\<forall>e \<in> set raw. \<exists>r. parseRange e = Inr r) \<and>
     rs = sort_key rangeKey (map (projr \<circ> parseRange) raw) \<and> disjointRanges rs"
proof -
  let ?rs = "sort_key rangeKey (map (projr \<circ> parseRange) raw)"
  have "disjointRanges ?rs \<longleftrightarrow> overlapCheck ?rs = Inr ()" if "\<forall>e \<in> set raw. \<exists>r. parseRange e = Inr r"
  proof -
    have ends: "\<forall>r \<in> set ?rs. rangeStart r \<le> rangeEnd r" using that parseRange_ok by fastforce
    then show ?thesis using overlapCheck_sorted sorted_overlapCheck by (auto simp: disjointRanges_def)
  qed
  then show ?thesis
    by (auto simp: rangesOf_def bindR_Inr_iff each_rangeStep Let_def)
qed

lemma disjointRanges_inj: "disjointRanges rs \<Longrightarrow> inj_on rangeKey (set rs)"
proof (rule inj_onI)
  fix a b assume d: "disjointRanges rs" and a: "a \<in> set rs" and b: "b \<in> set rs" and k: "rangeKey a = rangeKey b"
  obtain i j where ij: "i < length rs" "rs ! i = a" "j < length rs" "rs ! j = b"
    using a b by (metis in_set_conv_nth)
  have le: "rangeStart a \<le> rangeEnd a" "rangeStart b \<le> rangeEnd b" using d a b by (simp_all add: disjointRanges_def)
  have "\<not> i < j" using disjointRanges_nth [OF d, of i j] ij k le by auto
  moreover have "\<not> j < i" using disjointRanges_nth [OF d, of j i] ij k le by auto
  ultimately show "a = b" using ij by (metis linorder_neqE_nat)
qed

text \<open>
  accepted validator ranges are the entries of the file, in order and disjoint, and do not
  depend on the order in which the decoded map is iterated.
\<close>

theorem rangesOf_deterministic:
  assumes "rangesOf raw = Inr rs" "mset raw = mset raw'"
  shows "rangesOf raw' = Inr rs \<and> disjointRanges rs \<and>
     mset rs = image_mset (projr \<circ> parseRange) (mset raw)"
proof -
  from assms(1) have r: "raw \<noteq> []" "\<forall>e \<in> set raw. \<exists>r. parseRange e = Inr r"
    "rs = sort_key rangeKey (map (projr \<circ> parseRange) raw)" "disjointRanges rs"
    unfolding rangesOf_Inr by blast+
  have ms: "mset (map (projr \<circ> parseRange) raw) = mset (map (projr \<circ> parseRange) raw')"
    using assms(2) by (metis mset_map)
  have "inj_on rangeKey (set (map (projr \<circ> parseRange) raw))"
    using disjointRanges_inj [OF r(4)] r(3) by simp
  from stable.sortBy_order [OF ms this] r(3)
  have "rs = sort_key rangeKey (map (projr \<circ> parseRange) raw')" by simp
  moreover have "raw' \<noteq> []" using r(1) assms(2) by auto
  moreover have "set raw' = set raw" using assms(2) by (metis mset_eq_setD)
  ultimately show ?thesis using r assms(2) by (simp add: rangesOf_Inr)
qed

section \<open>Attribution of the balances\<close>

definition ownedBalance :: "(u64 \<Rightarrow> string) \<Rightarrow> beacon_validator list \<Rightarrow> string \<Rightarrow> nat" where
  "ownedBalance owner vs pid =
     sum_list (map (\<lambda>v. if owner (validatorIndex v) = pid then unat (EffectiveBalance v) else 0) vs)"

definition ownedCount :: "(u64 \<Rightarrow> string) \<Rightarrow> beacon_validator list \<Rightarrow> string \<Rightarrow> nat" where
  "ownedCount owner vs pid = length (filter (\<lambda>v. owner (validatorIndex v) = pid) vs)"

definition activeBalance :: "beacon_validator list \<Rightarrow> nat" where
  "activeBalance vs = sum_list (map (\<lambda>v. unat (EffectiveBalance v)) vs)"

lemma sum_list_one:
  "distinct ids \<Longrightarrow> sum_list (map (\<lambda>i. if x = i then b else (0::nat)) ids) = (if x \<in> set ids then b else 0)"
  by (induction ids) auto

text \<open>The balances of different participants add up to the balances they own together.\<close>

lemma ownedBalance_sum:
  assumes "distinct ids"
  shows "sum_list (map (ownedBalance owner vs) ids) =
     sum_list (map (\<lambda>v. if owner (validatorIndex v) \<in> set ids then unat (EffectiveBalance v) else 0) vs)"
proof (induction vs)
  case Nil
  then show ?case by (simp add: ownedBalance_def)
next
  case (Cons v vs)
  have "sum_list (map (ownedBalance owner (v # vs)) ids) =
      sum_list (map (\<lambda>i. (if owner (validatorIndex v) = i then unat (EffectiveBalance v) else 0) +
        ownedBalance owner vs i) ids)"
    by (intro arg_cong [where f = sum_list] map_cong refl) (simp add: ownedBalance_def)
  also have "\<dots> = sum_list (map (\<lambda>i. if owner (validatorIndex v) = i then unat (EffectiveBalance v) else 0) ids) +
      sum_list (map (ownedBalance owner vs) ids)"
    by (rule sum_list_addf)
  finally show ?case using sum_list_one [OF assms] Cons.IH by simp
qed

lemma ownedBalance_sum_le: "distinct ids \<Longrightarrow> sum_list (map (ownedBalance owner vs) ids) \<le> activeBalance vs"
  unfolding ownedBalance_sum activeBalance_def by (rule sum_list_mono) simp

lemma ownedBalance_sum_all:
  "distinct ids \<Longrightarrow> (\<And>v. v \<in> set vs \<Longrightarrow> owner (validatorIndex v) \<in> set ids) \<Longrightarrow>
   sum_list (map (ownedBalance owner vs) ids) = activeBalance vs"
  unfolding ownedBalance_sum activeBalance_def by (intro arg_cong [where f = sum_list]) simp

lemma sum_list_perm: "mset xs = mset ys \<Longrightarrow> sum_list (map f xs) = sum_list (map f ys)"
  for f :: "'a \<Rightarrow> nat"
  by (metis mset_map sum_mset_sum_list)

lemma activeBalance_perm: "mset vs = mset vs' \<Longrightarrow> activeBalance vs = activeBalance vs'"
  unfolding activeBalance_def by (metis mset_map sum_mset_sum_list)

lemma ownedBalance_le: "ownedBalance owner vs pid \<le> activeBalance vs"
  using ownedBalance_sum_le [of "[pid]" owner vs] by simp

text \<open>The loop over the validators computes these numbers, and fails when they do not fit.\<close>

definition weighed :: "(validator_range \<times> string) list \<Rightarrow> beacon_validator list \<Rightarrow> weigh_state \<Rightarrow> bool" where
  "weighed owned vs st \<longleftrightarrow>
     (\<forall>pid. unat (mget 0 (wsWeights st) pid) = ownedBalance (ownerOf owned) vs pid) \<and>
     (\<forall>pid. mget 0 (wsCounts st) pid = of_nat (ownedCount (ownerOf owned) vs pid)) \<and>
     unat (wsTotal st) = activeBalance vs"

lemma mget_mput: "mget z (mput k v m) k' = (if k' = k then v else mget z m k')"
  by (simp add: mget_def)

lemma weighed_unique:
  assumes "weighed owned vs st" "weighed owned vs st'"
  shows "wsTotal st = wsTotal st'" "mget 0 (wsWeights st) = mget 0 (wsWeights st')"
    "mget 0 (wsCounts st) = mget 0 (wsCounts st')"
  using assms by (auto simp: weighed_def fun_eq_iff word_unat_eq_iff)

lemma weighStep_weighed:
  assumes "weighed owned vs st"
  shows "weighStep owned v st = Inr st' \<longleftrightarrow>
     ownerOf owned (validatorIndex v) \<noteq> [] \<and> activeBalance (vs @ [v]) < 2 ^ 64 \<and>
     st' = \<lparr>wsWeights = mput (ownerOf owned (validatorIndex v))
              (mget 0 (wsWeights st) (ownerOf owned (validatorIndex v)) + EffectiveBalance v) (wsWeights st),
            wsCounts = mput (ownerOf owned (validatorIndex v))
              (mget 0 (wsCounts st) (ownerOf owned (validatorIndex v)) + 1) (wsCounts st),
            wsTotal = wsTotal st + EffectiveBalance v\<rparr>"
    and "weighStep owned v st = Inr st' \<Longrightarrow> weighed owned (vs @ [v]) st'"
proof -
  let ?p = "ownerOf owned (validatorIndex v)"
  have w: "unat (mget 0 (wsWeights st) ?p) = ownedBalance (ownerOf owned) vs ?p"
    and t: "unat (wsTotal st) = activeBalance vs" using assms by (simp_all add: weighed_def)
  have over: "(MaxUint64 - mget 0 (wsWeights st) ?p < EffectiveBalance v \<or>
      MaxUint64 - wsTotal st < EffectiveBalance v) \<longleftrightarrow> \<not> activeBalance (vs @ [v]) < 2 ^ 64"
    unfolding max_sub_less_iff w t using ownedBalance_le [of "ownerOf owned" vs ?p]
    by (auto simp: activeBalance_def)
  show iff: "weighStep owned v st = Inr st' \<longleftrightarrow>
     ?p \<noteq> [] \<and> activeBalance (vs @ [v]) < 2 ^ 64 \<and>
     st' = \<lparr>wsWeights = mput ?p (mget 0 (wsWeights st) ?p + EffectiveBalance v) (wsWeights st),
            wsCounts = mput ?p (mget 0 (wsCounts st) ?p + 1) (wsCounts st),
            wsTotal = wsTotal st + EffectiveBalance v\<rparr>"
    unfolding weighStep_def Let_def if_Inl_Inr_iff over by auto
  assume step: "weighStep owned v st = Inr st'"
  then have fit: "activeBalance vs + unat (EffectiveBalance v) < 2 ^ 64"
    unfolding iff by (simp add: activeBalance_def)
  then have "ownedBalance (ownerOf owned) vs ?p + unat (EffectiveBalance v) < 2 ^ 64"
    using ownedBalance_le [of "ownerOf owned" vs ?p] by simp
  then have "unat (mget 0 (wsWeights st) ?p + EffectiveBalance v) =
      ownedBalance (ownerOf owned) vs ?p + unat (EffectiveBalance v)"
    using w unat_add64 by metis
  moreover have "unat (wsTotal st + EffectiveBalance v) = activeBalance vs + unat (EffectiveBalance v)"
    using fit t unat_add64 by metis
  ultimately show "weighed owned (vs @ [v]) st'"
    using step assms unfolding iff
    by (auto simp: weighed_def mget_mput ownedBalance_def ownedCount_def activeBalance_def)
qed

lemma each_weighStep:
  "(\<exists>st. each (weighStep owned) vs weighStart = Inr st) \<longleftrightarrow>
     (\<forall>v \<in> set vs. ownerOf owned (validatorIndex v) \<noteq> []) \<and> activeBalance vs < 2 ^ 64"
  "each (weighStep owned) vs weighStart = Inr st \<Longrightarrow> weighed owned vs st"
proof -
  show w: "each (weighStep owned) vs weighStart = Inr st \<Longrightarrow> weighed owned vs st" for vs st
    by (erule each_inv)
      (simp add: weighed_def weighStart_def ownedBalance_def ownedCount_def activeBalance_def mget_def,
        rule weighStep_weighed(2))
  show "(\<exists>st. each (weighStep owned) vs weighStart = Inr st) \<longleftrightarrow>
     (\<forall>v \<in> set vs. ownerOf owned (validatorIndex v) \<noteq> []) \<and> activeBalance vs < 2 ^ 64"
  proof (induction vs rule: rev_induct)
    case Nil
    then show ?case by (simp add: activeBalance_def)
  next
    case (snoc v vs)
    have mono: "activeBalance (vs @ [v]) < 2 ^ 64 \<Longrightarrow> activeBalance vs < 2 ^ 64"
      by (simp add: activeBalance_def)
    have "(\<exists>st. each (weighStep owned) (vs @ [v]) weighStart = Inr st) \<longleftrightarrow>
        (\<exists>t. each (weighStep owned) vs weighStart = Inr t \<and> (\<exists>st. weighStep owned v t = Inr st))"
      by (auto simp: each_append bindR_Inr_iff)
    also have "\<dots> \<longleftrightarrow> (\<exists>t. each (weighStep owned) vs weighStart = Inr t) \<and>
        ownerOf owned (validatorIndex v) \<noteq> [] \<and> activeBalance (vs @ [v]) < 2 ^ 64"
      using w weighStep_weighed(1) by blast
    finally show ?case unfolding snoc.IH using mono by auto
  qed
qed

section \<open>The calculated split\<close>

text \<open>The owner of an index, by the ranges and the participants alone.\<close>

definition rangeOwnerID :: "scenario \<Rightarrow> validator_range list \<Rightarrow> u64 \<Rightarrow> string" where
  "rangeOwnerID s ranges index =
     (case find (\<lambda>r. covers r index) ranges of
        None \<Rightarrow> []
      | Some r \<Rightarrow> (case find (\<lambda>p. ValidatorRangeName p = rangeOwner r) (scParticipants s) of
                    None \<Rightarrow> [] | Some p \<Rightarrow> pID p))"

lemma each_ownStep:
  "each (ownStep m) rs acc = Inr out \<longleftrightarrow>
     (\<forall>r \<in> set rs. rangeOwner r \<in> set (keys m)) \<and>
     out = acc @ map (\<lambda>r. (r, pID (the (map_of m (rangeOwner r))))) rs"
proof (induction rs arbitrary: acc)
  case Nil
  then show ?case by auto
next
  case (Cons r rs)
  show ?case
  proof (cases "map_of m (rangeOwner r)")
    case None
    then have "rangeOwner r \<notin> set (keys m)" by (simp add: map_of_eq_None_iff)
    with None show ?thesis by (simp add: ownStep_def)
  next
    case (Some p)
    then have "rangeOwner r \<in> set (keys m)" by (force dest: map_of_SomeD)
    moreover have "ownStep m r acc = Inr (acc @ [(r, pID p)])" using Some by (simp add: ownStep_def)
    ultimately show ?thesis using Some Cons.IH [of "acc @ [(r, pID p)]"] by simp
  qed
qed

lemma foldl_mput_distinct:
  "distinct (map key xs) \<Longrightarrow> set (map key xs) \<inter> set (keys m) = {} \<Longrightarrow>
     foldl (\<lambda>m x. mput (key x) x m) m xs = m @ map (\<lambda>x. (key x, x)) xs"
proof (induction xs arbitrary: m)
  case (Cons x xs)
  then have "mput (key x) x m = m @ [(key x, x)]" by (intro mput_new) auto
  with Cons show ?case by auto
qed simp

lemma map_of_keyed:
  "distinct (map key xs) \<Longrightarrow> map_of (map (\<lambda>x. (key x, x)) xs) k = find (\<lambda>x. key x = k) xs"
  by (induction xs) auto

lemma participantsByRange_find:
  assumes "distinct (map ValidatorRangeName (scParticipants s))"
  shows "map_of (participantsByRange s) n = find (\<lambda>p. ValidatorRangeName p = n) (scParticipants s)"
  unfolding participantsByRange_def
  using foldl_mput_distinct [of ValidatorRangeName "scParticipants s" "[]"] map_of_keyed [OF assms] assms
  by simp

lemma participantsByID_find:
  assumes "distinct (map pID (scParticipants s))"
  shows "map_of (participantsByID s) i = find (\<lambda>p. pID p = i) (scParticipants s)"
  unfolding participantsByID_def
  using foldl_mput_distinct [of pID "scParticipants s" "[]"] map_of_keyed [OF assms] assms by simp

lemma find_Some_in: "find P xs = Some x \<Longrightarrow> x \<in> set xs \<and> P x"
  by (induction xs) (auto split: if_splits)

lemma find_distinct: "distinct (map key xs) \<Longrightarrow> x \<in> set xs \<Longrightarrow> find (\<lambda>y. key y = key x) xs = Some x"
  by (induction xs) auto

lemma ownerOf_owner:
  assumes "distinct (map ValidatorRangeName (scParticipants s))" "disjointRanges ranges"
    and "each (ownStep (participantsByRange s)) ranges [] = Inr owned"
  shows "ownerOf owned index = rangeOwnerID s ranges index"
proof -
  from assms(3) have ks: "\<forall>r \<in> set ranges. rangeOwner r \<in> set (keys (participantsByRange s))"
    and ow: "owned = map (\<lambda>r. (r, pID (the (map_of (participantsByRange s) (rangeOwner r))))) ranges"
    by (simp_all add: each_ownStep)
  have fst: "map fst owned = ranges" by (simp add: ow comp_def)
  show ?thesis
  proof (cases "find (\<lambda>r. covers r index) ranges")
    case None
    then have "\<not> covers r index" if "(r, p) \<in> set owned" for r p
      using that by (auto simp: ow find_None_iff)
    from ownerOf_uncovered [OF _ this, of owned] show ?thesis
      using fst assms(2) None by (simp add: rangeOwnerID_def)
  next
    case (Some r)
    from find_Some_in [OF Some] have r: "r \<in> set ranges" "covers r index" by simp_all
    then obtain p where p: "map_of (participantsByRange s) (rangeOwner r) = Some p"
      using ks by (metis map_of_eq_None_iff not_None_eq set_map)
    then have "(r, pID p) \<in> set owned" using r by (force simp: ow)
    from ownerOf_covered [OF _ this r(2)] have "ownerOf owned index = pID p" using fst assms(2) by simp
    then show ?thesis using Some p participantsByRange_find [OF assms(1)] by (simp add: rangeOwnerID_def)
  qed
qed

lemma each_participantWeight:
  "each (participantWeight st) ps acc = Inr out \<longleftrightarrow>
     (\<forall>p \<in> set ps. mget 0 (wsCounts st) (pID p) = ValidatorCount p) \<and>
     out = acc @ map (\<lambda>p. \<lparr>pwParticipantID = pID p, pwValidatorCount = ValidatorCount p,
                         pwEffectiveBalance = mget 0 (wsWeights st) (pID p)\<rparr>) ps"
proof (induction ps arbitrary: acc)
  case (Cons p ps)
  then show ?case by (auto simp: participantWeight_def Let_def)
qed auto

text \<open>The result, with the weights and the total named.\<close>

definition splitOf :: "scenario \<Rightarrow> weigh_state \<Rightarrow> realized_split" where
  "splitOf s st = \<lparr>rsSplitBy = SplitBy (scFault s), rsTotal = wsTotal st,
     rsParticipants = map (\<lambda>p. \<lparr>pwParticipantID = pID p, pwValidatorCount = ValidatorCount p,
                         pwEffectiveBalance = mget 0 (wsWeights st) (pID p)\<rparr>) (scParticipants s),
     rsGroups = map (groupWeightOf st) (Groups (scFault s)),
     rsWithinTolerance = \<not> list_ex (\<lambda>g. outside (RealizedSplitTolerance (scThresholds s))
        (gwRealizedShare g) (gwRequestedShare g)) (map (groupWeightOf st) (Groups (scFault s))),
     rsTolerance = RealizedSplitTolerance (scThresholds s)\<rparr>"

lemma Calculate_Inr:
  "CalculateRealizedSplit s ranges validators = Inr split \<longleftrightarrow>
     ranges \<noteq> [] \<and> validators \<noteq> [] \<and>
     (\<exists>owned st. each (ownStep (participantsByRange s)) ranges [] = Inr owned \<and>
        each (weighStep owned) validators weighStart = Inr st \<and> wsTotal st \<noteq> 0 \<and>
        (\<forall>p \<in> set (scParticipants s). mget 0 (wsCounts st) (pID p) = ValidatorCount p) \<and>
        split = splitOf s st)"
  by (auto simp: CalculateRealizedSplit_def bindR_Inr_iff each_participantWeight splitOf_def Let_def)

lemma foldl_plus: "foldl (\<lambda>b i. b + f i) (a :: 'a :: comm_monoid_add) xs = a + sum_list (map f xs)"
  by (induction xs arbitrary: a) (simp_all add: add.assoc)

lemma groupBalance_eq: "groupBalance weights ids = sum_list (map (mget 0 weights) ids)"
  unfolding groupBalance_def by (simp add: foldl_plus)

lemma groupBalance_weighed:
  assumes "weighed owned vs st" "distinct ids"
  shows "unat (groupBalance (wsWeights st) ids) = sum_list (map (ownedBalance (ownerOf owned) vs) ids)"
proof -
  have m: "map unat (map (mget 0 (wsWeights st)) ids) = map (ownedBalance (ownerOf owned) vs) ids"
    using assms(1) by (simp add: weighed_def)
  have "activeBalance vs < 2 ^ 64"
    using assms(1) unat_lt64 [of "wsTotal st"] by (simp add: weighed_def)
  with ownedBalance_sum_le [OF assms(2), of "ownerOf owned" vs]
  have "sum_list (map unat (map (mget 0 (wsWeights st)) ids)) < 2 ^ 64" unfolding m by simp
  from unat_sum_list64 [OF this] show ?thesis unfolding groupBalance_eq m by simp
qed

text \<open>
  C9: the calculated split is exact. Every active validator lies in the range of one of the
  participants; a participant's balance is the sum over the validators in its ranges, and it
  has the configured number of them; a group's balance is the sum over its members and the
  total is the sum over all validators; none of these sums wraps.
\<close>

theorem CalculateRealizedSplit_exact:
  assumes "CalculateRealizedSplit s ranges validators = Inr split" "disjointRanges ranges"
    and "distinct (map ValidatorRangeName (scParticipants s))"
    and "\<forall>g \<in> set (Groups (scFault s)). distinct (groupParticipants g)"
  defines "owner \<equiv> rangeOwnerID s ranges"
  shows "unat (rsTotal split) = activeBalance validators \<and>
     (\<forall>v \<in> set validators. owner (validatorIndex v) \<noteq> []) \<and>
     map (\<lambda>w. (pwParticipantID w, unat (pwEffectiveBalance w))) (rsParticipants split) =
       map (\<lambda>p. (pID p, ownedBalance owner validators (pID p))) (scParticipants s) \<and>
     (\<forall>p \<in> set (scParticipants s). of_nat (ownedCount owner validators (pID p)) = ValidatorCount p) \<and>
     map (\<lambda>g. (gwName g, unat (gwEffectiveBalance g))) (rsGroups split) =
       map (\<lambda>g. (groupName g, sum_list (map (ownedBalance owner validators) (groupParticipants g))))
         (Groups (scFault s))"
proof -
  from assms(1) obtain owned st where
    o: "each (ownStep (participantsByRange s)) ranges [] = Inr owned"
    and w: "each (weighStep owned) validators weighStart = Inr st"
    and n: "\<forall>p \<in> set (scParticipants s). mget 0 (wsCounts st) (pID p) = ValidatorCount p"
    and sp: "split = splitOf s st"
    unfolding Calculate_Inr by blast
  have ow: "ownerOf owned = owner"
    unfolding owner_def by (rule ext) (rule ownerOf_owner [OF assms(3,2) o])
  have W: "weighed owned validators st" by (rule each_weighStep(2) [OF w])
  have ne: "\<forall>v \<in> set validators. owner (validatorIndex v) \<noteq> []"
    using each_weighStep(1) [of owned validators] w ow by auto
  have "map (\<lambda>g. (gwName g, unat (gwEffectiveBalance g))) (rsGroups split) =
       map (\<lambda>g. (groupName g, sum_list (map (ownedBalance owner validators) (groupParticipants g))))
         (Groups (scFault s))"
    using groupBalance_weighed [OF W] assms(4) ow by (simp add: sp splitOf_def groupWeightOf_def Let_def)
  with W n ne show ?thesis by (auto simp: sp splitOf_def weighed_def ow)
qed

lemma splitOf_cong:
  "wsTotal st = wsTotal st' \<Longrightarrow> mget 0 (wsWeights st) = mget 0 (wsWeights st') \<Longrightarrow> splitOf s st = splitOf s st'"
  unfolding splitOf_def groupWeightOf_def groupBalance_eq by simp

lemma weighed_perm: "weighed owned vs st \<Longrightarrow> mset vs = mset vs' \<Longrightarrow> weighed owned vs' st"
proof -
  assume w: "weighed owned vs st" and m: "mset vs = mset vs'"
  have "ownedBalance f vs pid = ownedBalance f vs' pid" "ownedCount f vs pid = ownedCount f vs' pid" for f pid
    unfolding ownedBalance_def by (rule sum_list_perm [OF m])
      (metis m mset_filter ownedCount_def size_mset)
  with w activeBalance_perm [OF m] show ?thesis by (simp add: weighed_def)
qed

text \<open>
  the split does not depend on the order in which the Beacon node lists the validators.
\<close>

theorem CalculateRealizedSplit_order:
  assumes "CalculateRealizedSplit s ranges validators = Inr split" "mset validators = mset validators'"
  shows "CalculateRealizedSplit s ranges validators' = Inr split"
proof -
  from assms(1) obtain owned st where
    o: "ranges \<noteq> []" "validators \<noteq> []" "each (ownStep (participantsByRange s)) ranges [] = Inr owned"
    and w: "each (weighStep owned) validators weighStart = Inr st" "wsTotal st \<noteq> 0"
    and n: "\<forall>p \<in> set (scParticipants s). mget 0 (wsCounts st) (pID p) = ValidatorCount p"
    and sp: "split = splitOf s st"
    unfolding Calculate_Inr by blast
  have "set validators' = set validators" using assms(2) by (metis mset_eq_setD)
  then obtain st' where w': "each (weighStep owned) validators' weighStart = Inr st'"
    using each_weighStep(1) [of owned validators] each_weighStep(1) [of owned validators'] w(1)
      activeBalance_perm [OF assms(2)] by auto
  note eq = weighed_unique [OF weighed_perm [OF each_weighStep(2) [OF w(1)] assms(2)] each_weighStep(2) [OF w']]
  have "validators' \<noteq> []" using o(2) assms(2) by auto
  then show ?thesis unfolding Calculate_Inr
    using o(1,3) w' w(2) n sp eq splitOf_cong [OF eq(1,2)] by metis
qed

section \<open>The calculated split passes the check\<close>

lemma each_balanceStep:
  assumes "\<forall>w \<in> set ws. \<exists>p. map_of expected (pwParticipantID w) = Some p \<and>
      pwValidatorCount w = ValidatorCount p \<and> pwEffectiveBalance w \<noteq> 0"
    and "distinct (map pwParticipantID ws)" "set (map pwParticipantID ws) \<inter> set (keys balances) = {}"
    and "unat tot + sum_list (map (\<lambda>w. unat (pwEffectiveBalance w)) ws) < 2 ^ 64"
  shows "each (balanceStep expected) ws (balances, tot) =
     Inr (balances @ map (\<lambda>w. (pwParticipantID w, pwEffectiveBalance w)) ws,
          tot + sum_list (map pwEffectiveBalance ws))"
  using assms
proof (induction ws arbitrary: balances tot)
  case Nil
  then show ?case by simp
next
  case (Cons w ws)
  have fit: "unat tot + unat (pwEffectiveBalance w) < 2 ^ 64" using Cons.prems(4) by simp
  then have over: "\<not> MaxUint64 - tot < pwEffectiveBalance w" by (simp add: max_sub_less_iff)
  have new: "mput (pwParticipantID w) (pwEffectiveBalance w) balances =
      balances @ [(pwParticipantID w, pwEffectiveBalance w)]"
    by (rule mput_new) (use Cons.prems(3) in auto)
  obtain p where p: "map_of expected (pwParticipantID w) = Some p" "pwValidatorCount w = ValidatorCount p"
    "pwEffectiveBalance w \<noteq> 0" using Cons.prems(1) by auto
  have "balanceStep expected w (balances, tot) =
      Inr (balances @ [(pwParticipantID w, pwEffectiveBalance w)], tot + pwEffectiveBalance w)"
    using p over new Cons.prems(3) by (auto simp: balanceStep_def)
  moreover have "each (balanceStep expected) ws
      (balances @ [(pwParticipantID w, pwEffectiveBalance w)], tot + pwEffectiveBalance w) =
      Inr ((balances @ [(pwParticipantID w, pwEffectiveBalance w)]) @
             map (\<lambda>w. (pwParticipantID w, pwEffectiveBalance w)) ws,
           (tot + pwEffectiveBalance w) + sum_list (map pwEffectiveBalance ws))"
    using Cons.prems unat_add64 [OF fit] by (intro Cons.IH) auto
  ultimately show ?case by (simp add: add.assoc)
qed

lemma each_groupSumStep:
  assumes "\<forall>i \<in> set ids. map_of balances i = Some (f i)"
    and "unat acc + sum_list (map (\<lambda>i. unat (f i)) ids) < 2 ^ 64"
  shows "each (groupSumStep n balances) ids acc = Inr (acc + sum_list (map f ids))"
  using assms
proof (induction ids arbitrary: acc)
  case (Cons i ids)
  have fit: "unat acc + unat (f i) < 2 ^ 64" using Cons.prems(2) by simp
  then have "\<not> MaxUint64 - acc < f i" by (simp add: max_sub_less_iff)
  then have "groupSumStep n balances i acc = Inr (acc + f i)"
    using Cons.prems(1) by (simp add: groupSumStep_def)
  moreover have "each (groupSumStep n balances) ids (acc + f i) = Inr ((acc + f i) + sum_list (map f ids))"
    using Cons.prems unat_add64 [OF fit] by (intro Cons.IH) auto
  ultimately show ?case by (simp add: add.assoc)
qed simp

lemma realizedShare_Fin: "tot \<noteq> 0 \<Longrightarrow> \<exists>q. realizedShare b tot = Fin q"
proof -
  assume "tot \<noteq> 0"
  define d where "d = fl (of_int (uint tot))"
  have "(of_int (uint tot) :: rat) \<noteq> 0"
    using \<open>tot \<noteq> 0\<close> by (simp only: of_int_eq_0_iff uint_0_iff not_False_eq_True)
  then have "d \<noteq> 0" by (simp only: d_def fl_eq_0_iff not_False_eq_True)
  moreover have "f64_of_u64 tot = Fin d" by (simp only: f64_of_u64_def d_def)
  ultimately show ?thesis by (simp add: realizedShare_def f64_of_u64_def [of b] fdiv_def)
qed

lemma shareTolerance_pos: "\<not> fgt (Fin 0) shareTolerance"
  by code_simp

lemma each_storedGroupStep:
  assumes "\<forall>g \<in> set gs. map_of expected (groupName g) = Some g \<and> Share g \<noteq> NaN \<and>
      each (groupSumStep (groupName g) balances) (groupParticipants g) 0 = Inr (b g)"
    and "distinct (map groupName gs)" "set (map groupName gs) \<inter> set seen = {}" "tot \<noteq> 0"
  shows "each (storedGroupStep expected balances tot tol)
      (map (\<lambda>g. \<lparr>gwName = groupName g, gwRequestedShare = Share g,
                 gwRealizedShare = realizedShare (b g) tot, gwEffectiveBalance = b g\<rparr>) gs) (seen, ins) =
    Inr (rev (map groupName gs) @ seen,
         ins \<and> \<not> list_ex (\<lambda>g. outside tol (realizedShare (b g) tot) (Share g)) gs)"
  using assms(1-3)
proof (induction gs arbitrary: seen ins)
  case Nil
  then show ?case by simp
next
  case (Cons g gs)
  obtain q where q: "realizedShare (b g) tot = Fin q" using realizedShare_Fin [OF assms(4)] by blast
  have "\<not> fgt (fabs (fsub (realizedShare (b g) tot) (realizedShare (b g) tot))) shareTolerance"
    using fsub_self_abs [OF q] shareTolerance_pos by simp
  then have "storedGroupStep expected balances tot tol
      \<lparr>gwName = groupName g, gwRequestedShare = Share g,
       gwRealizedShare = realizedShare (b g) tot, gwEffectiveBalance = b g\<rparr> (seen, ins) =
      Inr (groupName g # seen, ins \<and> \<not> outside tol (realizedShare (b g) tot) (Share g))"
    using Cons.prems by (simp add: storedGroupStep_def feq_refl Let_def)
  then show ?case using Cons.prems Cons.IH [of "groupName g # seen"] by simp
qed

lemma expectedGroups_find:
  "distinct (map groupName (Groups (scFault s))) \<Longrightarrow>
   map_of (expectedGroups s) n = find (\<lambda>g. groupName g = n) (Groups (scFault s))"
  unfolding expectedGroups_def
  using foldl_mput_distinct [of groupName "Groups (scFault s)" "[]"]
    map_of_keyed [of groupName "Groups (scFault s)"] by simp

lemma rangeOwnerID_in:
  "rangeOwnerID s ranges i \<noteq> [] \<Longrightarrow> rangeOwnerID s ranges i \<in> pID ` set (scParticipants s)"
proof -
  assume a: "rangeOwnerID s ranges i \<noteq> []"
  then obtain r where r: "find (\<lambda>r. covers r i) ranges = Some r"
    by (auto simp: rangeOwnerID_def split: option.splits)
  with a obtain p where p: "find (\<lambda>p. ValidatorRangeName p = rangeOwner r) (scParticipants s) = Some p"
    by (auto simp: rangeOwnerID_def split: option.splits)
  then show ?thesis using r find_Some_in [OF p] by (simp add: rangeOwnerID_def)
qed

lemma ownedBalance_pos:
  assumes "ownedCount f vs pid \<noteq> 0" "\<forall>v \<in> set vs. EffectiveBalance v \<noteq> 0"
  shows "ownedBalance f vs pid \<noteq> 0"
proof -
  from assms(1) obtain v where v: "v \<in> set vs" "f (validatorIndex v) = pid"
    by (auto simp: ownedCount_def filter_empty_conv)
  then have "unat (EffectiveBalance v) \<in> set (map (\<lambda>v. if f (validatorIndex v) = pid
      then unat (EffectiveBalance v) else 0) vs)" by force
  then have "unat (EffectiveBalance v) \<le> ownedBalance f vs pid"
    unfolding ownedBalance_def by (rule member_le_sum_list) simp
  moreover have "unat (EffectiveBalance v) \<noteq> 0" using assms(2) v by (simp add: unat_eq_0)
  ultimately show ?thesis by simp
qed

lemma CalculateRealizedSplit_validates:
  assumes "Scenario_Validate sum256 s = Inr ()" "\<forall>g \<in> set (Groups (scFault s)). Share g \<noteq> NaN"
    and "disjointRanges ranges" "\<forall>v \<in> set validators. EffectiveBalance v \<noteq> 0"
    and "CalculateRealizedSplit s ranges validators = Inr split"
  shows "ValidateRealizedSplit s split = Inr ()"
proof -
  note parts = Scenario_Validate_parts [OF assms(1)]
  have dp: "distinct (map pID (scParticipants s))" and dr: "distinct (map ValidatorRangeName (scParticipants s))"
    and okp: "\<forall>p \<in> set (scParticipants s). ValidatorCount p \<noteq> 0"
    using parts(1) by (auto simp: validParticipants_def list_all_iff okParticipant_def)
  from parts(2) obtain g1 g2 where g: "Groups (scFault s) = [g1, g2]"
    by (auto simp: validFault_def split: list.splits)
  have gn: "distinct (map groupName (Groups (scFault s)))"
    and gp: "\<forall>g \<in> set (Groups (scFault s)). distinct (groupParticipants g) \<and>
       set (groupParticipants g) \<subseteq> pID ` set (scParticipants s)"
    using parts(2) participantMap_simps(2) [OF dp] by (auto simp: validFault_def g)
  have tol: "RealizedSplitTolerance (scThresholds s) = Fin 0"
    using assms(1) unfolding Scenario_Validate_def if_Inl_Inr_iff bindR_Inr_iff wrapE_Inr_iff
    by (auto simp: Thresholds_validate_def dest!: feq_eq split: if_splits)
  from assms(5) obtain owned st where
    o: "each (ownStep (participantsByRange s)) ranges [] = Inr owned"
    and w: "each (weighStep owned) validators weighStart = Inr st" "wsTotal st \<noteq> 0"
    and n: "\<forall>p \<in> set (scParticipants s). mget 0 (wsCounts st) (pID p) = ValidatorCount p"
    and sp: "split = splitOf s st"
    unfolding Calculate_Inr by blast
  define W where "W = (\<lambda>i. mget 0 (wsWeights st) i)"
  define ws where "ws = rsParticipants split"
  define balances where "balances = map (\<lambda>w. (pwParticipantID w, pwEffectiveBalance w)) ws"
  have ow: "ownerOf owned = rangeOwnerID s ranges"
    by (rule ext) (rule ownerOf_owner [OF dr assms(3) o])
  have weighed: "weighed owned validators st" by (rule each_weighStep(2) [OF w(1)])
  have W: "unat (W i) = ownedBalance (ownerOf owned) validators i" for i
    using weighed by (simp add: W_def weighed_def)
  have fit: "activeBalance validators < 2 ^ 64"
    using weighed unat_lt64 [of "wsTotal st"] by (simp add: weighed_def)
  have wsd: "ws = map (\<lambda>p. \<lparr>pwParticipantID = pID p, pwValidatorCount = ValidatorCount p,
      pwEffectiveBalance = W (pID p)\<rparr>) (scParticipants s)"
    by (simp add: ws_def sp splitOf_def W_def)
  have owners: "\<forall>v \<in> set validators. ownerOf owned (validatorIndex v) \<in> set (map pID (scParticipants s))"
    using each_weighStep(1) [of owned validators] w(1) rangeOwnerID_in ow by auto
  have sum_all: "sum_list (map (\<lambda>w. unat (pwEffectiveBalance w)) ws) = activeBalance validators"
    using ownedBalance_sum_all [OF dp, of validators "ownerOf owned"] owners W by (simp add: wsd comp_def)
  have Wpos: "W (pID p) \<noteq> 0" if "p \<in> set (scParticipants s)" for p
  proof -
    have eq: "of_nat (ownedCount (ownerOf owned) validators (pID p)) = ValidatorCount p"
      using n weighed that by (simp add: weighed_def)
    have "ownedCount (ownerOf owned) validators (pID p) \<noteq> 0"
    proof
      assume "ownedCount (ownerOf owned) validators (pID p) = 0"
      with eq have "ValidatorCount p = 0" by simp
      with okp that show False by simp
    qed
    then have "ownedBalance (ownerOf owned) validators (pID p) \<noteq> 0"
      using assms(4) by (rule ownedBalance_pos)
    then show ?thesis using W [of "pID p"] by auto
  qed
  have bal: "each (balanceStep (participantsByID s)) ws ([], 0) = Inr (balances, rsTotal split)"
  proof -
    have tot: "sum_list (map pwEffectiveBalance ws) = rsTotal split"
    proof (rule word_unat_eq_iff [THEN iffD2])
      have "unat (sum_list (map pwEffectiveBalance ws)) = activeBalance validators"
        using unat_sum_list64 [of "map pwEffectiveBalance ws"] fit sum_all by (simp add: comp_def)
      then show "unat (sum_list (map pwEffectiveBalance ws)) = unat (rsTotal split)"
        using weighed by (simp add: sp splitOf_def weighed_def)
    qed
    have "each (balanceStep (participantsByID s)) ws ([], 0) =
        Inr ([] @ map (\<lambda>w. (pwParticipantID w, pwEffectiveBalance w)) ws, 0 + sum_list (map pwEffectiveBalance ws))"
    proof (rule each_balanceStep)
      show "\<forall>w \<in> set ws. \<exists>p. map_of (participantsByID s) (pwParticipantID w) = Some p \<and>
          pwValidatorCount w = ValidatorCount p \<and> pwEffectiveBalance w \<noteq> 0"
        using Wpos find_distinct [OF dp] by (auto simp: wsd participantsByID_find [OF dp])
    qed (use dp sum_all fit in \<open>simp_all add: wsd comp_def\<close>)
    then show ?thesis by (simp add: balances_def tot)
  qed
  have mb: "map_of balances i = Some (W i)" if "i \<in> pID ` set (scParticipants s)" for i
  proof -
    have "gomap balances" using dp by (simp add: gomap_def balances_def wsd comp_def)
    moreover have "(i, W i) \<in> set balances" using that by (auto simp: balances_def wsd)
    ultimately show ?thesis by (simp add: map_of_Some_iff)
  qed
  define b where "b = (\<lambda>g :: fault_group. groupBalance (wsWeights st) (groupParticipants g))"
  have bW: "b g = 0 + sum_list (map W (groupParticipants g))" for g
    by (simp add: b_def groupBalance_eq W_def)
  have sums: "each (groupSumStep (groupName g) balances) (groupParticipants g) 0 = Inr (b g)"
    if "g \<in> set (Groups (scFault s))" for g
    unfolding bW
  proof (rule each_groupSumStep)
    show "\<forall>i \<in> set (groupParticipants g). map_of balances i = Some (W i)" using mb gp that by blast
    have "sum_list (map (ownedBalance (ownerOf owned) validators) (groupParticipants g)) < 2 ^ 64"
      using ownedBalance_sum_le [of "groupParticipants g" "ownerOf owned" validators] gp that fit by force
    then show "unat (0 :: u64) + sum_list (map (\<lambda>i. unat (W i)) (groupParticipants g)) < 2 ^ 64"
      by (simp add: W)
  qed
  have groups: "rsGroups split = map (\<lambda>g. \<lparr>gwName = groupName g, gwRequestedShare = Share g,
      gwRealizedShare = realizedShare (b g) (rsTotal split), gwEffectiveBalance = b g\<rparr>) (Groups (scFault s))"
    by (simp add: sp splitOf_def groupWeightOf_def Let_def b_def)
  have "each (storedGroupStep (expectedGroups s) balances (rsTotal split) (rsTolerance split))
      (rsGroups split) ([], True) =
    Inr (rev (map groupName (Groups (scFault s))) @ [],
         True \<and> \<not> list_ex (\<lambda>g. outside (rsTolerance split) (realizedShare (b g) (rsTotal split)) (Share g))
           (Groups (scFault s)))"
    unfolding groups
  proof (rule each_storedGroupStep)
    show "\<forall>g \<in> set (Groups (scFault s)). map_of (expectedGroups s) (groupName g) = Some g \<and> Share g \<noteq> NaN \<and>
      each (groupSumStep (groupName g) balances) (groupParticipants g) 0 = Inr (b g)"
      using sums assms(2) find_distinct [OF gn] by (simp add: expectedGroups_find [OF gn])
  qed (use gn w(2) in \<open>simp_all add: sp splitOf_def\<close>)
  moreover have "rsWithinTolerance split \<longleftrightarrow> \<not> list_ex (\<lambda>g. outside (rsTolerance split)
      (realizedShare (b g) (rsTotal split)) (Share g)) (Groups (scFault s))"
    by (simp add: sp splitOf_def groupWeightOf_def Let_def b_def list_ex_iff)
  ultimately show ?thesis
    using bal w(2) by (simp add: ValidateRealizedSplit_def ws_def [symmetric])
      (simp add: ws_def sp splitOf_def tol)
qed

text \<open>
  C23: a calculated split passes the check of a stored one, when the scenario is accepted and none of its
  shares is a NaN, the validator ranges are disjoint and every active validator has a balance: everything that
  the check recomputes from the stored participants agrees with what the calculation stored. Validation
  lets a NaN share pass, which is excluded here.
\<close>

theorem Calculated_split_validates:
  assumes "Scenario_Validate sum256 s = Inr ()" "\<forall>g \<in> set (Groups (scFault s)). Share g \<noteq> NaN"
    and "disjointRanges ranges" "\<forall>v \<in> set validators. EffectiveBalance v \<noteq> 0"
    and "CalculateRealizedSplit s ranges validators = Inr split"
  shows "ValidateRealizedSplit s split = Inr ()"
  using assms by (rule CalculateRealizedSplit_validates)

section \<open>The exact split\<close>

lemma realizedShare_half:
  assumes "unat b \<le> unat tot" "tot \<noteq> 0" "unat tot \<le> 2 ^ 53"
  shows "outside (Fin 0) (realizedShare b tot) (lit (1/2)) \<longleftrightarrow> 2 * unat b \<noteq> unat tot"
proof -
  define gb gt where "gb = int (unat b)" and "gt = int (unat tot)"
  have u: "uint b = gb" "uint tot = gt" by (simp_all add: gb_def gt_def)
  have "int (unat tot) \<le> int (2 ^ 53)" using assms(3) by (simp only: of_nat_le_iff)
  then have "gt \<le> 2 ^ 53" by (simp only: gt_def of_nat_power of_nat_numeral)
  moreover have "0 < unat tot" using assms(2) by (simp add: unat_gt_0)
  ultimately have t: "0 \<le> gb" "gb \<le> gt" "gt \<le> 2 ^ 53" "0 < gt"
    using assms(1) unfolding gb_def gt_def by linarith+
  then have f: "fl (of_int gb) = of_int gb" "fl (of_int gt) = of_int gt"
    by (auto intro!: fl_int_exact)
  have "realizedShare b tot = Fin (fl (of_int gb / of_int gt))"
    using t by (simp add: realizedShare_def f64_of_u64_def u f fdiv_def del: of_int_uint)
  then have "outside (Fin 0) (realizedShare b tot) (lit (1/2)) \<longleftrightarrow> fl (of_int gb / of_int gt) \<noteq> 1 / 2"
    by (simp only: outside_def lit_def fl_half abs_diff_gt_0)
  also have "fl (of_int gb / of_int gt) = 1 / 2 \<longleftrightarrow> 2 * gb = gt"
  proof
    assume "2 * gb = gt"
    then have "(of_int gb / of_int gt :: rat) = 1 / 2" using t by (auto simp: field_simps)
    then show "fl (of_int gb / of_int gt) = 1 / 2" by (simp only: fl_half)
  qed (rule fl_half_imp [OF t(1,2,4,3)])
  also have "2 * gb = gt \<longleftrightarrow> 2 * unat b = unat tot" unfolding gb_def gt_def by linarith
  finally show ?thesis .
qed

text \<open>
  with the zero tolerance and the shares of one half that an accepted scenario is meant
  to have, and a total balance of at most 2 to the 53, the floating-point test is exact: the
  split is within tolerance just when every group holds exactly half of the total.
\<close>

theorem WithinTolerance_exact:
  assumes "CalculateRealizedSplit s ranges validators = Inr split"
    and "\<forall>g \<in> set (Groups (scFault s)). Share g = lit (1/2) \<and> distinct (groupParticipants g)"
    and "RealizedSplitTolerance (scThresholds s) = Fin 0" "unat (rsTotal split) \<le> 2 ^ 53"
  shows "rsWithinTolerance split \<longleftrightarrow>
     (\<forall>g \<in> set (rsGroups split). 2 * unat (gwEffectiveBalance g) = unat (rsTotal split))"
proof -
  from assms(1) obtain owned st where
    w: "each (weighStep owned) validators weighStart = Inr st" "wsTotal st \<noteq> 0" and sp: "split = splitOf s st"
    unfolding Calculate_Inr by blast
  have weighed: "weighed owned validators st" by (rule each_weighStep(2) [OF w(1)])
  have le: "unat (groupBalance (wsWeights st) (groupParticipants g)) \<le> unat (wsTotal st)"
    if "g \<in> set (Groups (scFault s))" for g
  proof -
    have d: "distinct (groupParticipants g)" using assms(2) that by blast
    show ?thesis unfolding groupBalance_weighed [OF weighed d]
      using ownedBalance_sum_le [OF d, of "ownerOf owned" validators] weighed by (simp add: weighed_def)
  qed
  have "unat (wsTotal st) \<le> 2 ^ 53" using assms(4) by (simp add: sp splitOf_def)
  note half = realizedShare_half [OF le w(2) this]
  show ?thesis using half assms(2)
    by (auto simp: sp splitOf_def list_ex_iff groupWeightOf_def Let_def assms(3))
qed

text \<open>
  beyond 2 to the 53 it is not: balances that differ pass as an exact split, because
  their quotient with the total rounds to one half.
\<close>

theorem WithinTolerance_rounds:
  "\<exists>b1 b2 :: u64. b1 \<noteq> b2 \<and> unat b1 + unat b2 < 2 ^ 64 \<and>
     \<not> outside (Fin 0) (realizedShare b1 (b1 + b2)) (lit (1/2)) \<and>
     \<not> outside (Fin 0) (realizedShare b2 (b1 + b2)) (lit (1/2))"
proof (rule exI [of _ "4611686018427387904 :: u64"], rule exI [of _ "4611686018427387905 :: u64"], intro conjI)
  show "\<not> outside (Fin 0) (realizedShare 4611686018427387904 (4611686018427387904 + 4611686018427387905)) (lit (1/2))"
    "\<not> outside (Fin 0) (realizedShare 4611686018427387905 (4611686018427387904 + 4611686018427387905)) (lit (1/2))"
    by code_simp+
qed simp_all

section \<open>Placements\<close>

definition completePlacement :: "placement \<Rightarrow> bool" where
  "completePlacement p \<longleftrightarrow> [] \<notin> set [plParticipantID p, plTarget p, plPod p, plNode p, plNodePool p,
     plMachineType p, plResourcePolicy p]"

text \<open>The state after the placements of a list, and when they are all accepted.\<close>

definition placedState :: "placement list \<Rightarrow> placement_state" where
  "placedState ps = \<lparr>psByParticipant = map (\<lambda>p. (plParticipantID p, p)) ps, psNodes = rev (map plNode ps),
     psMachine = (if ps = [] then [] else plMachineType (hd ps)),
     psPolicy = (if ps = [] then [] else plResourcePolicy (hd ps))\<rparr>"

definition placedOk :: "placement list \<Rightarrow> bool" where
  "placedOk ps \<longleftrightarrow> list_all completePlacement ps \<and> distinct (map plParticipantID ps) \<and>
     distinct (map plNode ps) \<and>
     (\<forall>p \<in> set ps. plMachineType p = plMachineType (hd ps) \<and> plResourcePolicy p = plResourcePolicy (hd ps))"

lemma placementStep_placed:
  assumes "placedOk ps"
  shows "placementStep p (placedState ps) = Inr st \<longleftrightarrow> placedOk (ps @ [p]) \<and> st = placedState (ps @ [p])"
proof (cases ps)
  case Nil
  then show ?thesis
    by (auto simp: placementStep_def placedState_def placedOk_def completePlacement_def)
next
  case (Cons q qs)
  have m: "plMachineType q \<noteq> []" using assms Cons by (auto simp: placedOk_def completePlacement_def)
  have f: "psMachine (placedState ps) = plMachineType q" "psPolicy (placedState ps) = plResourcePolicy q"
    "set (psNodes (placedState ps)) = set (map plNode ps)"
    "set (keys (psByParticipant (placedState ps))) = set (map plParticipantID ps)"
    by (auto simp: placedState_def Cons comp_def)
  have c: "\<not> (plParticipantID p = [] \<or> plTarget p = [] \<or> plPod p = [] \<or> plNode p = [] \<or> plNodePool p = [] \<or>
      plMachineType p = [] \<or> plResourcePolicy p = []) \<longleftrightarrow> completePlacement p"
    by (auto simp: completePlacement_def)
  have st: "\<lparr>psByParticipant = mput (plParticipantID p) p (psByParticipant (placedState ps)),
      psNodes = plNode p # psNodes (placedState ps),
      psMachine = (if psMachine (placedState ps) = [] then plMachineType p else psMachine (placedState ps)),
      psPolicy = (if psMachine (placedState ps) = [] then plResourcePolicy p else psPolicy (placedState ps))\<rparr> =
      placedState (ps @ [p])" if "plParticipantID p \<notin> set (map plParticipantID ps)"
  proof -
    have "mput (plParticipantID p) p (psByParticipant (placedState ps)) =
        psByParticipant (placedState ps) @ [(plParticipantID p, p)]"
      by (rule mput_new) (use that f(4) in blast)
    then show ?thesis using f(1,2) m by (simp add: placedState_def Cons)
  qed
  have "placementStep p (placedState ps) = Inr st \<longleftrightarrow>
      completePlacement p \<and> plParticipantID p \<notin> set (map plParticipantID ps) \<and>
      plNode p \<notin> set (map plNode ps) \<and> plMachineType p = plMachineType q \<and>
      plResourcePolicy p = plResourcePolicy q \<and> st = placedState (ps @ [p])"
  proof (cases "plParticipantID p \<in> set (map plParticipantID ps)")
    case True
    then show ?thesis unfolding placementStep_def if_Inl_Inr_iff f(3,4) by blast
  next
    case False
    have g: "\<not> (psMachine (placedState ps) \<noteq> [] \<and> (plMachineType p \<noteq> psMachine (placedState ps) \<or>
        plResourcePolicy p \<noteq> psPolicy (placedState ps))) \<longleftrightarrow>
        plMachineType p = plMachineType q \<and> plResourcePolicy p = plResourcePolicy q"
      using m unfolding f(1,2) by blast
    show ?thesis unfolding placementStep_def if_Inl_Inr_iff c f(3,4) g st [OF False] sum.inject by blast
  qed
  moreover have "placedOk (ps @ [p]) \<longleftrightarrow>
      completePlacement p \<and> plParticipantID p \<notin> set (map plParticipantID ps) \<and>
      plNode p \<notin> set (map plNode ps) \<and> plMachineType p = plMachineType q \<and>
      plResourcePolicy p = plResourcePolicy q"
  proof -
    have "hd (ps @ [p]) = hd ps" "hd ps = q" by (simp_all add: Cons)
    then show ?thesis using assms unfolding placedOk_def by auto
  qed
  ultimately show ?thesis by blast
qed

lemma each_placementStep:
  "each placementStep ps placementStart = Inr st \<longleftrightarrow> placedOk ps \<and> st = placedState ps"
proof (induction ps arbitrary: st rule: rev_induct)
  case Nil
  then show ?case by (auto simp: placedOk_def placedState_def placementStart_def)
next
  case (snoc p ps)
  have shorter: "placedOk (ps @ [p]) \<Longrightarrow> placedOk ps" by (cases ps) (auto simp: placedOk_def)
  have "each placementStep (ps @ [p]) placementStart = Inr st \<longleftrightarrow>
      (\<exists>t. each placementStep ps placementStart = Inr t \<and> placementStep p t = Inr st)"
    by (simp add: each_append bindR_Inr_iff)
  also have "\<dots> \<longleftrightarrow> placedOk ps \<and> placementStep p (placedState ps) = Inr st"
    using snoc.IH by auto
  also have "\<dots> \<longleftrightarrow> placedOk (ps @ [p]) \<and> st = placedState (ps @ [p])"
    using placementStep_placed shorter by blast
  finally show ?case .
qed

lemma placements_iff:
  assumes "distinct (map pID (scParticipants s))"
  shows "ValidatePlacements s ps = Inr () \<longleftrightarrow>
     placedOk ps \<and> length ps = length (scParticipants s) \<and>
     (\<forall>p \<in> set (scParticipants s). \<exists>pl \<in> set ps. plParticipantID pl = pID p \<and> plTarget pl = BeaconTarget p)"
proof -
  have look: "(case map_of (psByParticipant (placedState ps)) (pID p) of None \<Rightarrow> Inl (LacksPlacement (pID p))
      | Some pl \<Rightarrow> if plTarget pl \<noteq> BeaconTarget p then Inl (LacksPlacement (pID p)) else Inr ()) = Inr () \<longleftrightarrow>
      (\<exists>pl \<in> set ps. plParticipantID pl = pID p \<and> plTarget pl = BeaconTarget p)" if "placedOk ps" for p
  proof -
    have d: "distinct (map plParticipantID ps)" using that by (simp add: placedOk_def)
    have f: "find (\<lambda>q. plParticipantID q = pID p) ps = Some pl \<longleftrightarrow>
        pl \<in> set ps \<and> plParticipantID pl = pID p" for pl
      using find_Some_in [of "\<lambda>q. plParticipantID q = pID p" ps pl] find_distinct [OF d, of pl] by auto
    have "map_of (psByParticipant (placedState ps)) (pID p) = find (\<lambda>q. plParticipantID q = pID p) ps"
      by (simp add: placedState_def map_of_keyed [OF d])
    moreover have "(\<exists>pl \<in> set ps. plParticipantID pl = pID p \<and> plTarget pl = BeaconTarget p) \<longleftrightarrow>
        (\<exists>pl. find (\<lambda>q. plParticipantID q = pID p) ps = Some pl \<and> plTarget pl = BeaconTarget p)"
      using f by auto
    ultimately show ?thesis
      by (cases "find (\<lambda>q. plParticipantID q = pID p) ps") simp_all
  qed
  show ?thesis
    unfolding ValidatePlacements_def if_Inl_Inr_iff bindR_Inr_iff each_placementStep eachCheck_Inr_iff
    using look by auto
qed

text \<open>
  C38: placements are accepted exactly when they are complete, on pairwise different nodes,
  with one machine type and one resource policy, one for each participant of the scenario and
  on that participant's Beacon target.
\<close>

theorem ValidatePlacements_iff:
  assumes "distinct (map pID (scParticipants s))"
  shows "ValidatePlacements s ps = Inr () \<longleftrightarrow>
     placedOk ps \<and> length ps = length (scParticipants s) \<and>
     (\<forall>p \<in> set (scParticipants s). \<exists>pl \<in> set ps. plParticipantID pl = pID p \<and> plTarget pl = BeaconTarget p)"
  using assms by (rule placements_iff)

end
