(* ===== verification/Dependency.thy ===== *)
theory Dependency
  imports GoStrings Json
begin

text \<open>
  The immutable dependency closure: internal/dependency/lock.go, and the dependency metadata of
  a run with its validation from internal/experiment/analysis.go.
\<close>

section \<open>Dependency metadata of a run\<close>

record dependency_metadata =
  EthereumPackageRevision :: string
  ImportedPackages :: "(string, string) gomap"
  RuntimeImages :: "(string, string) gomap"

datatype (plugins only: code size) metadata_err =
    RevisionNotCommit | ClosureEmpty | PackageNotPinned string | ImageNotPinned string

text \<open>The loops range over maps; which of several offending entries is reported is open.\<close>

definition checkPackage :: "string \<times> string \<Rightarrow> metadata_err + unit" where
  "checkPackage = (\<lambda>(name, revision).
     guardE (name = [] \<or> \<not> lowerHexN revision 40) (PackageNotPinned name))"

definition checkImage :: "string \<times> string \<Rightarrow> metadata_err + unit" where
  "checkImage = (\<lambda>(name, image).
     let parts = Split image ''@sha256:'' in
     guardE (name = [] \<or> length parts \<noteq> 2 \<or> parts ! 0 = [] \<or> \<not> lowerHexN (parts ! 1) 64)
       (ImageNotPinned name))"

definition ValidateDependencyMetadata :: "dependency_metadata \<Rightarrow> metadata_err + unit" where
  "ValidateDependencyMetadata m =
     (if \<not> lowerHexN (EthereumPackageRevision m) 40 then Inl RevisionNotCommit
      else if length (ImportedPackages m) = 0 \<or> length (RuntimeImages m) = 0 then Inl ClosureEmpty
      else bindR (eachCheck checkPackage (ImportedPackages m)) (\<lambda>_.
           eachCheck checkImage (RuntimeImages m)))"

definition dependencyMetadataEqual :: "dependency_metadata \<Rightarrow> dependency_metadata \<Rightarrow> bool" where
  "dependencyMetadataEqual l r =
     (if EthereumPackageRevision l \<noteq> EthereumPackageRevision r \<or>
         length (ImportedPackages l) \<noteq> length (ImportedPackages r) \<or>
         length (RuntimeImages l) \<noteq> length (RuntimeImages r) then False
      else if list_ex (\<lambda>(key, v). mget [] (ImportedPackages r) key \<noteq> v) (ImportedPackages l) then False
      else \<not> list_ex (\<lambda>(key, v). mget [] (RuntimeImages r) key \<noteq> v) (RuntimeImages l))"

section \<open>The lock\<close>

record source =
  Repository :: string
  Revision :: string
  OverlaySHA256 :: string

record fault_runtime =
  ChaosMeshRevision :: string
  ControllerImage :: string
  DaemonImage :: string

record lock =
  lockSchemaVersion :: string
  EthereumPackage :: source
  lockImportedPackages :: "(string, string) gomap"
  lockRuntimeImages :: "(string, string) gomap"
  FaultRuntime :: fault_runtime

text \<open>\<^verbatim>\<open>^[0-9a-f]{40}$\<close>\<close>

definition commitPattern :: "string \<Rightarrow> bool" where
  "commitPattern s = lowerHexN s 40"

text \<open>
  \<^verbatim>\<open>^[^@[:space:]]+(?::[^@[:space:]]+)?@sha256:[0-9a-f]{64}$\<close>: the optional tag is covered by the
  part before it, since that part may contain colons.
\<close>

definition nameOctet :: "char \<Rightarrow> bool" where
  "nameOctet c \<longleftrightarrow> c \<noteq> CHR ''@'' \<and> \<not> isAsciiSpace c"

definition digestPattern :: "string \<Rightarrow> bool" where
  "digestPattern s =
     (let rest = take (length s - 64) s; name = take (length rest - 8) rest in
      lowerHexN (drop (length s - 64) s) 64 \<and> HasSuffix rest ''@sha256:'' \<and> name \<noteq> [] \<and>
      list_all nameOctet name)"

definition hexDigest :: "string \<Rightarrow> bool" where
  "hexDigest v \<longleftrightarrow> length v = 64 \<and>
     dropWhile isHexLower (rev (dropWhile isHexLower v)) = []"

datatype (plugins only: code size) lock_err =
    LockSchema string | BadRepository | BadRevision | BadOverlay | LockEmpty
  | LockPackage string | LockImage string | BadChaosRevision | BadChaosImages

definition Lock_Validate :: "lock \<Rightarrow> lock_err + unit" where
  "Lock_Validate l =
     (if lockSchemaVersion l \<noteq> ''ethquake.dependencies/v1alpha1'' then Inl (LockSchema (lockSchemaVersion l))
      else if Repository (EthereumPackage l) \<noteq> ''https://github.com/ethpandaops/ethereum-package.git''
      then Inl BadRepository
      else if \<not> commitPattern (Revision (EthereumPackage l)) then Inl BadRevision
      else if \<not> hexDigest (OverlaySHA256 (EthereumPackage l)) then Inl BadOverlay
      else if length (lockImportedPackages l) = 0 \<or> length (lockRuntimeImages l) = 0 then Inl LockEmpty
      else bindR (eachCheck (\<lambda>(name, revision).
             guardE (name = [] \<or> \<not> commitPattern revision) (LockPackage name)) (lockImportedPackages l)) (\<lambda>_.
           bindR (eachCheck (\<lambda>(name, image).
             guardE (name = [] \<or> \<not> digestPattern image) (LockImage name)) (lockRuntimeImages l)) (\<lambda>_.
             if \<not> commitPattern (ChaosMeshRevision (FaultRuntime l)) then Inl BadChaosRevision
             else if \<not> digestPattern (ControllerImage (FaultRuntime l)) \<or>
                     \<not> digestPattern (DaemonImage (FaultRuntime l)) then Inl BadChaosImages
             else Inr ())))"

subsection \<open>Reading it\<close>

definition maxLockBytes :: nat where "maxLockBytes = 1048576"

definition emptyLock :: lock where
  "emptyLock = \<lparr>lockSchemaVersion = [], EthereumPackage = \<lparr>Repository = [], Revision = [], OverlaySHA256 = []\<rparr>,
     lockImportedPackages = [], lockRuntimeImages = [],
     FaultRuntime = \<lparr>ChaosMeshRevision = [], ControllerImage = [], DaemonImage = []\<rparr>\<rparr>"

definition lockDecoder :: "lock decoder" where
  "lockDecoder = decStrict
     [(''schema_version'', decString (\<lambda>v l. l\<lparr>lockSchemaVersion := v\<rparr>)),
      (''ethereum_package'', decStrict
        [(''repository'', decString (\<lambda>v l. l\<lparr>EthereumPackage := (EthereumPackage l)\<lparr>Repository := v\<rparr>\<rparr>)),
         (''revision'', decString (\<lambda>v l. l\<lparr>EthereumPackage := (EthereumPackage l)\<lparr>Revision := v\<rparr>\<rparr>)),
         (''overlay_sha256'', decString (\<lambda>v l. l\<lparr>EthereumPackage := (EthereumPackage l)\<lparr>OverlaySHA256 := v\<rparr>\<rparr>))]),
      (''imported_packages'', decStringMap lockImportedPackages (\<lambda>m l. l\<lparr>lockImportedPackages := m\<rparr>)),
      (''runtime_images'', decStringMap lockRuntimeImages (\<lambda>m l. l\<lparr>lockRuntimeImages := m\<rparr>)),
      (''fault_runtime'', decStrict
        [(''chaos_mesh_revision'', decString (\<lambda>v l. l\<lparr>FaultRuntime := (FaultRuntime l)\<lparr>ChaosMeshRevision := v\<rparr>\<rparr>)),
         (''controller_image'', decString (\<lambda>v l. l\<lparr>FaultRuntime := (FaultRuntime l)\<lparr>ControllerImage := v\<rparr>\<rparr>)),
         (''daemon_image'', decString (\<lambda>v l. l\<lparr>FaultRuntime := (FaultRuntime l)\<lparr>DaemonImage := v\<rparr>\<rparr>))])]"

datatype (plugins only: code size) lock_parse_err = LockTooLarge | LockDecode strict_err | LockInvalid lock_err

definition Lock_Parse :: "(string \<Rightarrow> (json \<times> json_rest) option) \<Rightarrow> string \<Rightarrow> lock_parse_err + lock" where
  "Lock_Parse decode data =
     (if length data > maxLockBytes then Inl LockTooLarge
      else bindR (wrapE LockDecode (decodeOnly decode lockDecoder emptyLock data)) (\<lambda>value.
           bindR (wrapE LockInvalid (Lock_Validate value)) (\<lambda>_. Inr value)))"

subsection \<open>The closure of a run\<close>

definition Lock_cloneMap :: "(string, string) gomap \<Rightarrow> (string, string) gomap" where
  "Lock_cloneMap input = foldl (\<lambda>output (k, v). mput k v output) [] input"

datatype (plugins only: code size) closure_err =
    LockRejected lock_err | ImagesRequired | EmptyWorkload | OutsideLock string string

definition allowedImages :: "lock \<Rightarrow> string set" where
  "allowedImages l = insert (DaemonImage (FaultRuntime l)) (insert (ControllerImage (FaultRuntime l))
     (set (map snd (lockRuntimeImages l))))"

definition workloadCheck :: "lock \<Rightarrow> string \<times> string \<Rightarrow> closure_err + unit" where
  "workloadCheck l = (\<lambda>(workload, image).
     if workload = [] then Inl EmptyWorkload
     else guardE (image \<notin> allowedImages l) (OutsideLock workload image))"

text \<open>The map with the images of the workloads and of the lock, in the order of the loops.\<close>

definition metadataImages :: "lock \<Rightarrow> (string, string) gomap \<Rightarrow> (string, string) gomap" where
  "metadataImages l resolved =
     mput ''lock/fault/daemon'' (DaemonImage (FaultRuntime l))
      (mput ''lock/fault/controller'' (ControllerImage (FaultRuntime l))
        (putAll (\<lambda>name. ''lock/runtime/'' @ name) (lockRuntimeImages l)
          (putAll (\<lambda>workload. ''workload/'' @ workload) resolved [])))"

definition ExperimentMetadata :: "lock \<Rightarrow> (string, string) gomap \<Rightarrow> closure_err + dependency_metadata" where
  "ExperimentMetadata l resolved =
     bindR (wrapE LockRejected (Lock_Validate l)) (\<lambda>_.
       if length resolved = 0 then Inl ImagesRequired
       else bindR (eachCheck (workloadCheck l) resolved) (\<lambda>_.
         Inr \<lparr>EthereumPackageRevision = Revision (EthereumPackage l),
              ImportedPackages = Lock_cloneMap (lockImportedPackages l),
              RuntimeImages = metadataImages l resolved\<rparr>))"

definition CanonicalImageList :: "lock \<Rightarrow> string list" where
  "CanonicalImageList l =
     sort (map snd (lockRuntimeImages l) @ [ControllerImage (FaultRuntime l), DaemonImage (FaultRuntime l)])"

section \<open>The closure that a lock vouches for is accepted\<close>

text \<open>A pinned image: a name, the digest algorithm and 64 digits, in one piece.\<close>

lemma digestPattern_iff:
  "digestPattern s \<longleftrightarrow> (\<exists>name h. s = name @ ''@sha256:'' @ h \<and> name \<noteq> [] \<and> list_all nameOctet name \<and> lowerHexN h 64)"
proof
  assume d: "digestPattern s"
  define rest where "rest = take (length s - 64) s"
  define h where "h = drop (length s - 64) s"
  define name where "name = take (length rest - 8) rest"
  from d have h: "lowerHexN h 64" and suf: "HasSuffix rest ''@sha256:''" and n: "name \<noteq> []" "list_all nameOctet name"
    unfolding digestPattern_def Let_def rest_def [symmetric] h_def [symmetric] name_def [symmetric] by blast+
  from suf obtain t where t: "rest = t @ ''@sha256:''"
    unfolding HasSuffix_def HasPrefix_iff by (metis rev_append rev_swap)
  then have "name = t" by (simp add: name_def)
  moreover have "s = rest @ h" by (simp add: rest_def h_def)
  ultimately show "\<exists>name h. s = name @ ''@sha256:'' @ h \<and> name \<noteq> [] \<and> list_all nameOctet name \<and> lowerHexN h 64"
    using t n h by auto
next
  assume "\<exists>name h. s = name @ ''@sha256:'' @ h \<and> name \<noteq> [] \<and> list_all nameOctet name \<and> lowerHexN h 64"
  then show "digestPattern s"
    by (auto simp: digestPattern_def lowerHexN_def HasSuffix_def HasPrefix_def)
qed

lemma isHexLower_no_at: "isHexLower c \<Longrightarrow> c \<noteq> CHR ''@''"
  by (auto simp: isHexLower_def isDigit_def code_def)

text \<open>A separator that starts with a byte which does not occur is not found.\<close>

lemma findSub_absent: "sep = c # cs \<Longrightarrow> c \<notin> set s \<Longrightarrow> findSub sep s = None"
  by (auto simp: findSub_None)

lemma findSub_first: "sep = c # cs \<Longrightarrow> c \<notin> set a \<Longrightarrow> findSub sep (a @ sep @ b) = Some (length a)"
proof (induction a)
  case Nil
  then show ?case by (cases "sep @ b") (auto simp: HasPrefix_def)
next
  case (Cons x a)
  then have "\<not> HasPrefix (x # a @ sep @ b) sep" by (auto simp: HasPrefix_def)
  with Cons show ?case by simp
qed

lemma digestPattern_Split:
  assumes "digestPattern s"
  shows "\<exists>name h. Split s ''@sha256:'' = [name, h] \<and> name \<noteq> [] \<and> lowerHexN h 64"
proof -
  from assms obtain name h where s: "s = name @ ''@sha256:'' @ h" and n: "name \<noteq> []" "list_all nameOctet name"
    and h: "lowerHexN h 64" unfolding digestPattern_iff by blast
  have "CHR ''@'' \<notin> set name" using n(2) by (auto simp: list_all_iff nameOctet_def)
  moreover have "CHR ''@'' \<notin> set h" using h by (auto simp: lowerHexN_def list_all_iff dest: isHexLower_no_at)
  ultimately have "Split s ''@sha256:'' = [name, h]"
    unfolding s by (intro Split_two_intro findSub_first findSub_absent) auto
  with n(1) h show ?thesis by blast
qed

lemma digestPattern_checkImage: "digestPattern img \<Longrightarrow> name \<noteq> [] \<Longrightarrow> checkImage (name, img) = Inr ()"
  using digestPattern_Split [of img] by (auto simp: checkImage_def)

lemma Lock_Validate_iff:
  "Lock_Validate l = Inr () \<longleftrightarrow>
     lockSchemaVersion l = ''ethquake.dependencies/v1alpha1'' \<and>
     Repository (EthereumPackage l) = ''https://github.com/ethpandaops/ethereum-package.git'' \<and>
     commitPattern (Revision (EthereumPackage l)) \<and> hexDigest (OverlaySHA256 (EthereumPackage l)) \<and>
     lockImportedPackages l \<noteq> [] \<and> lockRuntimeImages l \<noteq> [] \<and>
     (\<forall>(name, revision) \<in> set (lockImportedPackages l). name \<noteq> [] \<and> commitPattern revision) \<and>
     (\<forall>(name, img) \<in> set (lockRuntimeImages l). name \<noteq> [] \<and> digestPattern img) \<and>
     commitPattern (ChaosMeshRevision (FaultRuntime l)) \<and>
     digestPattern (ControllerImage (FaultRuntime l)) \<and> digestPattern (DaemonImage (FaultRuntime l))"
  unfolding Lock_Validate_def if_Inl_Inr_iff bindR_Inr_iff eachCheck_Inr_iff
  by (simp add: guardE_Inr_iff case_prod_unfold conj_ac)

lemma workloadCheck_Inr: "workloadCheck l p = Inr () \<longleftrightarrow> fst p \<noteq> [] \<and> snd p \<in> allowedImages l"
  by (cases p) (simp add: workloadCheck_def guardE_Inr_iff)

lemma ExperimentMetadata_Inr:
  "ExperimentMetadata l resolved = Inr md \<longleftrightarrow>
     Lock_Validate l = Inr () \<and> resolved \<noteq> [] \<and>
     (\<forall>(workload, img) \<in> set resolved. workload \<noteq> [] \<and> img \<in> allowedImages l) \<and>
     md = \<lparr>EthereumPackageRevision = Revision (EthereumPackage l),
           ImportedPackages = Lock_cloneMap (lockImportedPackages l),
           RuntimeImages = metadataImages l resolved\<rparr>"
  unfolding ExperimentMetadata_def bindR_Inr_iff if_Inl_Inr_iff eachCheck_Inr_iff wrapE_Inr_iff workloadCheck_Inr case_prod_unfold
  by auto

lemma Lock_cloneMap_id: "gomap m \<Longrightarrow> Lock_cloneMap m = m"
  using foldl_mput_map [of m "\<lambda>v. v"] by (simp add: Lock_cloneMap_def)

lemma allowed_pinned: "Lock_Validate l = Inr () \<Longrightarrow> img \<in> allowedImages l \<Longrightarrow> digestPattern img"
  by (auto simp: Lock_Validate_iff allowedImages_def)

lemma metadataImages_all:
  assumes "\<And>w i. (w, i) \<in> set resolved \<Longrightarrow> P (''workload/'' @ w) i"
    and "\<And>n i. (n, i) \<in> set (lockRuntimeImages l) \<Longrightarrow> P (''lock/runtime/'' @ n) i"
    and "P ''lock/fault/controller'' (ControllerImage (FaultRuntime l))"
    and "P ''lock/fault/daemon'' (DaemonImage (FaultRuntime l))"
  shows "\<forall>(k, v) \<in> set (metadataImages l resolved). P k v"
  unfolding metadataImages_def
  by (intro gomap_mput_all putAll_all) (use assms in auto)

text \<open>The three kinds of keys never meet.\<close>

lemma metadataImages_workload:
  assumes "gomap resolved" "map_of resolved w = Some img"
  shows "map_of (metadataImages l resolved) (''workload/'' @ w) = Some img"
proof -
  have "map_of (putAll (\<lambda>workload. ''workload/'' @ workload) resolved []) (''workload/'' @ w) = Some img"
    by (rule putAll_key [where key = "\<lambda>workload. ''workload/'' @ workload"]) (use assms in \<open>simp_all add: inj_def\<close>)
  then show ?thesis by (simp add: metadataImages_def putAll_other image_iff)
qed

lemma metadataImages_lock:
  assumes "gomap (lockRuntimeImages l)" "map_of (lockRuntimeImages l) n = Some img"
  shows "map_of (metadataImages l resolved) (''lock/runtime/'' @ n) = Some img"
proof -
  have "map_of (putAll (\<lambda>name. ''lock/runtime/'' @ name) (lockRuntimeImages l) m) (''lock/runtime/'' @ n) = Some img" for m
    by (rule putAll_key [where key = "\<lambda>name. ''lock/runtime/'' @ name"]) (use assms in \<open>simp_all add: inj_def\<close>)
  then show ?thesis by (simp add: metadataImages_def)
qed

text \<open>
  C36: The metadata that a lock produces for the images found at run time passes the validation of
  dependency metadata, and it lists every workload with its image and every image of the lock:
  no two of its entries have the same name.
\<close>

theorem ExperimentMetadata_closure:
  assumes "ExperimentMetadata l resolved = Inr md" "gomap resolved" "gomap (lockRuntimeImages l)"
    and "gomap (lockImportedPackages l)"
  shows "ValidateDependencyMetadata md = Inr () \<and>
     (\<forall>(workload, img) \<in> set resolved. img \<in> allowedImages l \<and>
        map_of (RuntimeImages md) (''workload/'' @ workload) = Some img) \<and>
     (\<forall>(name, img) \<in> set (lockRuntimeImages l).
        map_of (RuntimeImages md) (''lock/runtime/'' @ name) = Some img) \<and>
     map_of (RuntimeImages md) ''lock/fault/controller'' = Some (ControllerImage (FaultRuntime l)) \<and>
     map_of (RuntimeImages md) ''lock/fault/daemon'' = Some (DaemonImage (FaultRuntime l))"
proof (intro conjI)
  from assms(1) have v: "Lock_Validate l = Inr ()" and ne: "resolved \<noteq> []"
    and w: "\<forall>(workload, img) \<in> set resolved. workload \<noteq> [] \<and> img \<in> allowedImages l"
    and md: "md = \<lparr>EthereumPackageRevision = Revision (EthereumPackage l),
           ImportedPackages = lockImportedPackages l, RuntimeImages = metadataImages l resolved\<rparr>"
    by (simp_all add: ExperimentMetadata_Inr Lock_cloneMap_id assms(4))
  have "\<forall>(k, i) \<in> set (metadataImages l resolved). k \<noteq> [] \<and> digestPattern i"
    by (rule metadataImages_all) (use v w allowed_pinned [OF v] in \<open>auto simp: Lock_Validate_iff\<close>)
  then have "\<forall>p \<in> set (metadataImages l resolved). checkImage p = Inr ()"
    by (auto intro: digestPattern_checkImage)
  moreover have "\<forall>p \<in> set (lockImportedPackages l). checkPackage p = Inr ()"
    using v by (auto simp: Lock_Validate_iff checkPackage_def commitPattern_def)
  ultimately show "ValidateDependencyMetadata md = Inr ()"
    using v unfolding ValidateDependencyMetadata_def md
    by (simp add: eachCheck_Inr_iff bindR_Inr_iff Lock_Validate_iff commitPattern_def metadataImages_def)
  show "\<forall>(workload, img) \<in> set resolved. img \<in> allowedImages l \<and>
        map_of (RuntimeImages md) (''workload/'' @ workload) = Some img"
    using w metadataImages_workload [OF assms(2)] assms(2) by (auto simp: md map_of_Some_iff)
  show "\<forall>(name, img) \<in> set (lockRuntimeImages l).
        map_of (RuntimeImages md) (''lock/runtime/'' @ name) = Some img"
    using metadataImages_lock [OF assms(3)] assms(3) by (auto simp: md map_of_Some_iff)
  show "map_of (RuntimeImages md) ''lock/fault/controller'' = Some (ControllerImage (FaultRuntime l))"
    "map_of (RuntimeImages md) ''lock/fault/daemon'' = Some (DaemonImage (FaultRuntime l))"
    by (simp_all add: md metadataImages_def)
qed

end
