(* ===== verification/Discovery.thy ===== *)
theory Discovery
  imports Topology Dependency
begin

text \<open>
  Discovery of the running experiment (internal/topology/kubernetes.go): the namespace's
  ownership labels, the pods of the experiment and of Chaos Mesh, their images and placements.
  \<^verbatim>\<open>kubectl\<close> and the JSON parser are parameters; every command is issued once.
\<close>

section \<open>Resources\<close>

record kube_metadata =
  mdName :: string
  mdLabels :: "(string, string) gomap"

record resource_policy =
  rpRequests :: "(string, string) gomap option"
  rpLimits :: "(string, string) gomap option"

record container_spec =
  ctName :: string
  ctImage :: string
  ctResources :: resource_policy

record container_status =
  csName :: string
  csReady :: bool

record pod_resource =
  podMetadata :: kube_metadata
  NodeName :: string
  InitContainers :: "container_spec list"
  Containers :: "container_spec list"
  podPhase :: string
  ContainerStatuses :: "container_status list"

record node_resource =
  nodeMetadata :: kube_metadata

record discovery =
  dcPlacements :: "placement list"
  dcRuntimeImages :: "(string, string) gomap"

subsection \<open>Decoding\<close>

definition emptyMetadata :: kube_metadata where
  "emptyMetadata = \<lparr>mdName = [], mdLabels = []\<rparr>"

definition metadataDecoder :: "kube_metadata decoder" where
  "metadataDecoder = decStruct
     [(''name'', decString (\<lambda>v m. m\<lparr>mdName := v\<rparr>)),
      (''labels'', decStringMap mdLabels (\<lambda>v m. m\<lparr>mdLabels := v\<rparr>))]"

definition namespaceDecoder :: "kube_metadata decoder" where
  "namespaceDecoder = decStruct [(''metadata'', metadataDecoder)]"

definition policyDecoder :: "resource_policy decoder" where
  "policyDecoder = decStruct
     [(''requests'', decNilStringMap rpRequests (\<lambda>v p. p\<lparr>rpRequests := v\<rparr>)),
      (''limits'', decNilStringMap rpLimits (\<lambda>v p. p\<lparr>rpLimits := v\<rparr>))]"

definition emptyContainer :: container_spec where
  "emptyContainer = \<lparr>ctName = [], ctImage = [], ctResources = \<lparr>rpRequests = None, rpLimits = None\<rparr>\<rparr>"

definition containerDecoder :: "container_spec decoder" where
  "containerDecoder = decStruct
     [(''name'', decString (\<lambda>v c. c\<lparr>ctName := v\<rparr>)),
      (''image'', decString (\<lambda>v c. c\<lparr>ctImage := v\<rparr>)),
      (''resources'', decField ctResources (\<lambda>v c. c\<lparr>ctResources := v\<rparr>) policyDecoder)]"

definition statusDecoder :: "container_status decoder" where
  "statusDecoder = decStruct
     [(''name'', decString (\<lambda>v c. c\<lparr>csName := v\<rparr>)), (''ready'', decBool (\<lambda>v c. c\<lparr>csReady := v\<rparr>))]"

definition emptyPod :: pod_resource where
  "emptyPod = \<lparr>podMetadata = emptyMetadata, NodeName = [], InitContainers = [], Containers = [],
     podPhase = [], ContainerStatuses = []\<rparr>"

definition podDecoder :: "pod_resource decoder" where
  "podDecoder = decStruct
     [(''metadata'', decField podMetadata (\<lambda>v p. p\<lparr>podMetadata := v\<rparr>) metadataDecoder),
      (''spec'', decStruct
        [(''nodeName'', decString (\<lambda>v p. p\<lparr>NodeName := v\<rparr>)),
         (''initContainers'', decSlice emptyContainer containerDecoder (\<lambda>v p. p\<lparr>InitContainers := v\<rparr>)),
         (''containers'', decSlice emptyContainer containerDecoder (\<lambda>v p. p\<lparr>Containers := v\<rparr>))]),
      (''status'', decStruct
        [(''phase'', decString (\<lambda>v p. p\<lparr>podPhase := v\<rparr>)),
         (''containerStatuses'', decSlice \<lparr>csName = [], csReady = False\<rparr> statusDecoder
            (\<lambda>v p. p\<lparr>ContainerStatuses := v\<rparr>))])]"

definition podListDecoder :: "pod_resource list decoder" where
  "podListDecoder = decStruct [(''items'', decSlice emptyPod podDecoder (\<lambda>v _. v))]"

definition nodeDecoder :: "node_resource decoder" where
  "nodeDecoder = decStruct [(''metadata'', decField nodeMetadata (\<lambda>v n. n\<lparr>nodeMetadata := v\<rparr>) metadataDecoder)]"

section \<open>Checks on pods\<close>

datatype (plugins only: code size) pod_err =
    NotRunning string | ContainerNotReady string string | NotScheduled string

definition requireReady :: "pod_resource \<Rightarrow> pod_err + unit" where
  "requireReady pod =
     (if podPhase pod \<noteq> ''Running'' \<or> length (ContainerStatuses pod) \<noteq> length (Containers pod)
      then Inl (NotRunning (mdName (podMetadata pod)))
      else bindR (eachCheck (\<lambda>status.
             guardE (\<not> csReady status) (ContainerNotReady (mdName (podMetadata pod)) (csName status)))
             (ContainerStatuses pod)) (\<lambda>_.
        if NodeName pod = [] then Inl (NotScheduled (mdName (podMetadata pod))) else Inr ()))"

definition digestPinned :: "string \<Rightarrow> bool" where
  "digestPinned img =
     (let parts = Split img ''@sha256:'' in
      if length parts \<noteq> 2 \<or> parts ! 0 = [] \<or> length (parts ! 1) \<noteq> 64 then False
      else hexDecodes (parts ! 1) \<and> ToLower (parts ! 1) = parts ! 1)"

definition isKurtosisFilesArtifactExpander :: "string \<Rightarrow> string \<Rightarrow> bool" where
  "isKurtosisFilesArtifactExpander name img \<longleftrightarrow>
     name = ''files-artifact-expander'' \<and> HasPrefix img ''kurtosistech/files-artifacts-expander:''"

section \<open>Building the discovery\<close>

datatype (plugins only: code size) discovery_err =
    PodIncomplete
  | PodNotReady pod_err
  | NoServiceID string
  | UnexpectedService string string
  | NotDigestPinned string string string
  | ConflictingImages string
datatype (plugins only: code size) placing_err =
    ServicePods string nat
  | ServiceNotReady pod_err
  | NotColocated string
  | ContainerTotal string nat
  | NodeMissing string

record discovery_state =
  dyPods :: "(string, pod_resource list) gomap"
  dyImages :: "(string, string) gomap"

definition expectedServices :: "scenario \<Rightarrow> string set" where
  "expectedServices s = set (concat (map (\<lambda>p. [ExecutionServiceID p, BeaconServiceID p, ValidatorServiceID p])
     (scParticipants s)))"

text \<open>One container of a pod: its image must be pinned (or exempt) and agree with the one known.\<close>

definition containerStep ::
  "string \<Rightarrow> string \<Rightarrow> string \<Rightarrow> container_spec \<Rightarrow> (string, string) gomap
     \<Rightarrow> discovery_err + (string, string) gomap" where
  "containerStep namespace workloadID podName container images =
     (if \<not> digestPinned (ctImage container) \<and>
         \<not> isKurtosisFilesArtifactExpander (ctName container) (ctImage container)
      then Inl (NotDigestPinned podName (ctName container) (ctImage container))
      else let key = namespace @ ''/'' @ workloadID @ ''/'' @ ctName container in
        if map_of images key \<noteq> None \<and> map_of images key \<noteq> Some (ctImage container)
        then Inl (ConflictingImages key)
        else Inr (mput key (ctImage container) images))"

text \<open>The workload of a pod: its service in the experiment's namespace.\<close>

definition workloadOf :: "scenario \<Rightarrow> string \<Rightarrow> pod_resource \<Rightarrow> discovery_err + string" where
  "workloadOf s namespace pod =
     (if namespace = ''experiment'' then
        let serviceID = mget [] (mdLabels (podMetadata pod)) ''kurtosistech.com/id'' in
        if serviceID = [] then Inl (NoServiceID (mdName (podMetadata pod)))
        else if serviceID \<notin> expectedServices s
        then Inl (UnexpectedService (mdName (podMetadata pod)) serviceID)
        else Inr serviceID
      else Inr ''runtime'')"

definition podStep :: "scenario \<Rightarrow> string \<times> pod_resource \<Rightarrow> discovery_state \<Rightarrow> discovery_err + discovery_state" where
  "podStep s = (\<lambda>(namespace, pod) st.
     if mdName (podMetadata pod) = [] \<or> length (Containers pod) = 0 then Inl PodIncomplete
     else bindR (wrapE PodNotReady (requireReady pod)) (\<lambda>_.
          bindR (workloadOf s namespace pod) (\<lambda>workloadID.
            let pods = (if namespace = ''experiment''
                        then mput workloadID (mget [] (dyPods st) workloadID @ [pod]) (dyPods st)
                        else dyPods st) in
            bindR (each (containerStep namespace workloadID (mdName (podMetadata pod)))
                     (InitContainers pod @ Containers pod) (dyImages st)) (\<lambda>images.
              Inr \<lparr>dyPods = pods, dyImages = images\<rparr>))))"

definition discoveryStart :: discovery_state where
  "discoveryStart = \<lparr>dyPods = [], dyImages = []\<rparr>"

subsection \<open>Placements\<close>

text \<open>The services of a participant: the policies by role, the common node and the beacon pod.\<close>

record placing_state =
  pgPolicies :: "(string, resource_policy) gomap"
  pgNode :: string
  pgBeaconPod :: string

definition placeServiceStep ::
  "(string, pod_resource list) gomap \<Rightarrow> string \<Rightarrow> string \<times> string \<Rightarrow> placing_state
     \<Rightarrow> placing_err + placing_state" where
  "placeServiceStep podsByService participantID = (\<lambda>(role, serviceID) st.
     case mget [] podsByService serviceID of
       [pod] \<Rightarrow>
         bindR (wrapE ServiceNotReady (requireReady pod)) (\<lambda>_.
           if pgNode st \<noteq> [] \<and> NodeName pod \<noteq> pgNode st then Inl (NotColocated participantID)
           else if length (Containers pod) \<noteq> 1 then Inl (ContainerTotal serviceID (length (Containers pod)))
           else Inr \<lparr>pgPolicies = mput role (ctResources (Containers pod ! 0)) (pgPolicies st),
                     pgNode = (if pgNode st = [] then NodeName pod else pgNode st),
                     pgBeaconPod = (if role = ''beacon'' then mdName (podMetadata pod) else pgBeaconPod st)\<rparr>)
     | matches \<Rightarrow> Inl (ServicePods serviceID (length matches)))"

definition policyValue :: "resource_policy \<Rightarrow> json" where
  "policyValue p = JObj [(''requests'', jsonNilMap JStr (rpRequests p)), (''limits'', jsonNilMap JStr (rpLimits p))]"

definition policyJSON :: "(string, resource_policy) gomap \<Rightarrow> string" where
  "policyJSON policies = marshal (jsonMap policyValue policies)"

definition participantServices :: "participant \<Rightarrow> (string \<times> string) list" where
  "participantServices p = [(''execution'', ExecutionServiceID p), (''beacon'', BeaconServiceID p),
     (''validator'', ValidatorServiceID p)]"

definition placeParticipant ::
  "(string, pod_resource list) gomap \<Rightarrow> (string, node_resource) gomap \<Rightarrow> participant \<Rightarrow> placement list
     \<Rightarrow> placing_err + placement list" where
  "placeParticipant podsByService nodes p acc =
     bindR (each (placeServiceStep podsByService (pID p)) (participantServices p)
              \<lparr>pgPolicies = [], pgNode = [], pgBeaconPod = []\<rparr>) (\<lambda>st.
       case map_of nodes (pgNode st) of
         None \<Rightarrow> Inl (NodeMissing (pgNode st))
       | Some node \<Rightarrow>
           Inr (acc @ [\<lparr>plParticipantID = pID p, plTarget = BeaconTarget p, plPod = pgBeaconPod st,
             plNode = pgNode st,
             plNodePool = mget [] (mdLabels (nodeMetadata node)) ''dev.ethquake.participant'',
             plMachineType = mget [] (mdLabels (nodeMetadata node)) ''node.kubernetes.io/instance-type'',
             plResourcePolicy = policyJSON (pgPolicies st)\<rparr>]))"

datatype (plugins only: code size) build_err = Workloads discovery_err | Placing placing_err

definition buildDiscovery ::
  "scenario \<Rightarrow> pod_resource list \<Rightarrow> pod_resource list \<Rightarrow> (string, node_resource) gomap \<Rightarrow> build_err + discovery" where
  "buildDiscovery s userPods chaosPods nodes =
     bindR (wrapE Workloads (each (podStep s)
        (map (Pair ''experiment'') userPods @ map (Pair ''chaos-mesh'') chaosPods) discoveryStart)) (\<lambda>st.
     bindR (wrapE Placing (each (placeParticipant (dyPods st) nodes) (scParticipants s) [])) (\<lambda>placements.
       Inr \<lparr>dcPlacements = placements, dcRuntimeImages = dyImages st\<rparr>))"

section \<open>Reading the cluster\<close>

datatype (plugins only: code size) kube_err =
    NamespaceMismatch string
  | ReadNamespace
  | DecodeNamespace
  | NotOwned
  | ListFailed string
  | DecodePods string
  | NoPods string
  | ReadNode string
  | DecodeNode string
  | Build build_err

text \<open>A command of \<^verbatim>\<open>kubectl\<close> by its arguments: its output, or \<open>None\<close> when it failed.\<close>

type_synonym kubectl = "string list \<Rightarrow> string option"

definition verifyNamespace ::
  "kubectl \<Rightarrow> (string \<Rightarrow> json option) \<Rightarrow> string \<Rightarrow> string \<Rightarrow> kube_err + unit" where
  "verifyNamespace run parse runID namespace =
     (case run [''get'', ''namespace'', namespace, ''--output=json''] of
        None \<Rightarrow> Inl ReadNamespace
      | Some output \<Rightarrow>
          (case Option.bind (parse output) (unmarshal namespaceDecoder emptyMetadata) of
             None \<Rightarrow> Inl DecodeNamespace
           | Some m \<Rightarrow>
               if mget [] (mdLabels m) ''dev.ethquake.managed'' \<noteq> ''true'' \<or>
                  mget [] (mdLabels m) ''dev.ethquake.phase'' \<noteq> ''3'' \<or>
                  mget [] (mdLabels m) ''dev.ethquake.run-id'' \<noteq> runID
               then Inl NotOwned else Inr ()))"

definition listPods ::
  "kubectl \<Rightarrow> (string \<Rightarrow> json option) \<Rightarrow> string \<Rightarrow> string \<Rightarrow> kube_err + pod_resource list" where
  "listPods run parse namespace selector =
     (case run ([''--namespace'', namespace, ''get'', ''pods''] @
                (if selector \<noteq> [] then [''--selector'', selector] else []) @ [''--output=json'']) of
        None \<Rightarrow> Inl (ListFailed namespace)
      | Some output \<Rightarrow>
          (case Option.bind (parse output) (unmarshal podListDecoder []) of
             None \<Rightarrow> Inl (DecodePods namespace)
           | Some items \<Rightarrow> if length items = 0 then Inl (NoPods namespace) else Inr items))"

definition getNode :: "kubectl \<Rightarrow> (string \<Rightarrow> json option) \<Rightarrow> string \<Rightarrow> kube_err + node_resource" where
  "getNode run parse name =
     (case run [''get'', ''node'', name, ''--output=json''] of
        None \<Rightarrow> Inl (ReadNode name)
      | Some output \<Rightarrow>
          (case Option.bind (parse output) (unmarshal nodeDecoder \<lparr>nodeMetadata = emptyMetadata\<rparr>) of
             None \<Rightarrow> Inl (DecodeNode name)
           | Some node \<Rightarrow> Inr node))"

text \<open>The names of the nodes, each once, in some order; the nodes in that order.\<close>

definition nodeNames :: "pod_resource list \<Rightarrow> string list" where
  "nodeNames pods = remdups (filter (\<lambda>n. n \<noteq> []) (map NodeName pods))"

definition nodeStep ::
  "kubectl \<Rightarrow> (string \<Rightarrow> json option) \<Rightarrow> string \<Rightarrow> (string, node_resource) gomap
     \<Rightarrow> kube_err + (string, node_resource) gomap" where
  "nodeStep run parse name nodes = bindR (getNode run parse name) (\<lambda>node. Inr (mput name node nodes))"

definition Discover ::
  "kubectl \<Rightarrow> (string \<Rightarrow> json option) \<Rightarrow> scenario \<Rightarrow> string \<Rightarrow> string \<Rightarrow> kube_err + discovery" where
  "Discover run parse s runID namespace =
     (if namespace \<noteq> NamespacePrefix (scTarget s) @ runID then Inl (NamespaceMismatch namespace)
      else bindR (verifyNamespace run parse runID namespace) (\<lambda>_.
           bindR (listPods run parse namespace ''kurtosistech.com/resource-type=user-service'') (\<lambda>userPods.
           bindR (listPods run parse ''chaos-mesh'' []) (\<lambda>chaosPods.
           bindR (each (nodeStep run parse) (nodeNames userPods) []) (\<lambda>nodes.
             wrapE Build (buildDiscovery s userPods chaosPods nodes))))))"

datatype (plugins only: code size) new_kube_err = KubePathsRequired | KubeconfigAbs | KubeContext string

text \<open>The runner of a \<^verbatim>\<open>Kubernetes\<close> is its binary with the arguments that come before a command's.\<close>

definition NewKubernetes ::
  "(string \<Rightarrow> string option) \<Rightarrow> string \<Rightarrow> string \<Rightarrow> string \<Rightarrow> new_kube_err + string \<times> string list" where
  "NewKubernetes filepathAbs kubectlPath kubeconfigPath contextName =
     (if kubectlPath = [] \<or> kubeconfigPath = [] then Inl KubePathsRequired
      else case filepathAbs kubeconfigPath of
        None \<Rightarrow> Inl KubeconfigAbs
      | Some absoluteKubeconfig \<Rightarrow>
          if contextName \<noteq> ''gke-ethquake-phase3'' then Inl (KubeContext contextName)
          else Inr (kubectlPath, [''--kubeconfig'', absoluteKubeconfig, ''--context'', contextName]))"

section \<open>What a discovery has checked\<close>

definition serviceLabel :: "pod_resource \<Rightarrow> string" where
  "serviceLabel pod = mget [] (mdLabels (podMetadata pod)) ''kurtosistech.com/id''"

definition servicePods :: "pod_resource list \<Rightarrow> string \<Rightarrow> pod_resource list" where
  "servicePods userPods serviceID = filter (\<lambda>pod. serviceLabel pod = serviceID) userPods"

definition imageKey :: "string \<Rightarrow> string \<Rightarrow> container_spec \<Rightarrow> string" where
  "imageKey namespace workloadID container = namespace @ ''/'' @ workloadID @ ''/'' @ ctName container"

definition imageAllowed :: "container_spec \<Rightarrow> bool" where
  "imageAllowed c \<longleftrightarrow> digestPinned (ctImage c) \<or> isKurtosisFilesArtifactExpander (ctName c) (ctImage c)"

definition podContainers :: "pod_resource \<Rightarrow> container_spec list" where
  "podContainers pod = InitContainers pod @ Containers pod"

lemma each_containerStep:
  assumes "each (containerStep ns w pn) cs images = Inr images'"
  shows "(\<forall>k v. map_of images k = Some v \<longrightarrow> map_of images' k = Some v) \<and>
     (\<forall>c \<in> set cs. imageAllowed c \<and> map_of images' (imageKey ns w c) = Some (ctImage c))"
  using assms
proof (rule each_inv [where I = "\<lambda>cs m. (\<forall>k v. map_of images k = Some v \<longrightarrow> map_of m k = Some v) \<and>
     (\<forall>c \<in> set cs. imageAllowed c \<and> map_of m (imageKey ns w c) = Some (ctImage c))"])
  fix ys c zs m m'
  assume I: "(\<forall>k v. map_of images k = Some v \<longrightarrow> map_of m k = Some v) \<and>
     (\<forall>c \<in> set ys. imageAllowed c \<and> map_of m (imageKey ns w c) = Some (ctImage c))"
    and step: "containerStep ns w pn c m = Inr m'"
  from step have a: "imageAllowed c" and known: "map_of m (imageKey ns w c) \<in> {None, Some (ctImage c)}"
    and m': "m' = mput (imageKey ns w c) (ctImage c) m"
    by (auto simp: containerStep_def imageAllowed_def imageKey_def Let_def split: if_splits)
  have keep: "map_of m' k = Some v" if "map_of m k = Some v" for k v
    using that known by (auto simp: m')
  show "(\<forall>k v. map_of images k = Some v \<longrightarrow> map_of m' k = Some v) \<and>
     (\<forall>c \<in> set (ys @ [c]). imageAllowed c \<and> map_of m' (imageKey ns w c) = Some (ctImage c))"
    using I a keep by (auto simp: m')
qed auto

text \<open>What the loop over the pods has established for the pods it has seen.\<close>

definition seenPod :: "scenario \<Rightarrow> discovery_state \<Rightarrow> string \<times> pod_resource \<Rightarrow> bool" where
  "seenPod s st = (\<lambda>(ns, pod). requireReady pod = Inr () \<and> Containers pod \<noteq> [] \<and>
     (\<exists>w. workloadOf s ns pod = Inr w \<and>
        (\<forall>c \<in> set (podContainers pod). imageAllowed c \<and>
           map_of (dyImages st) (imageKey ns w c) = Some (ctImage c))))"

lemma podStep_Inr:
  assumes "podStep s (ns, pod) st = Inr st'"
  shows "(\<forall>k v. map_of (dyImages st) k = Some v \<longrightarrow> map_of (dyImages st') k = Some v) \<and>
     seenPod s st' (ns, pod) \<and>
     dyPods st' = (if ns = ''experiment''
       then mput (serviceLabel pod) (mget [] (dyPods st) (serviceLabel pod) @ [pod]) (dyPods st) else dyPods st)"
proof -
  from assms obtain w images where r: "requireReady pod = Inr ()" "Containers pod \<noteq> []"
    and w: "workloadOf s ns pod = Inr w"
    and cs: "each (containerStep ns w (mdName (podMetadata pod))) (podContainers pod) (dyImages st) = Inr images"
    and st': "dyImages st' = images" "dyPods st' = (if ns = ''experiment''
       then mput w (mget [] (dyPods st) w @ [pod]) (dyPods st) else dyPods st)"
    by (auto simp: podStep_def result_simps podContainers_def Let_def split: if_splits)
  have "w = serviceLabel pod" if "ns = ''experiment''"
    using w that by (auto simp: workloadOf_def serviceLabel_def Let_def split: if_splits)
  then show ?thesis using r w st' each_containerStep [OF cs] by (auto simp: seenPod_def)
qed

definition seenPods :: "scenario \<Rightarrow> (string \<times> pod_resource) list \<Rightarrow> discovery_state \<Rightarrow> bool" where
  "seenPods s ys st \<longleftrightarrow> (\<forall>p \<in> set ys. seenPod s st p) \<and>
     (\<forall>sid. mget [] (dyPods st) sid =
        servicePods (map snd (filter (\<lambda>(ns, pod). ns = ''experiment'') ys)) sid)"

lemma each_podStep:
  assumes "each (podStep s) pods discoveryStart = Inr st"
  shows "seenPods s pods st"
  using assms
proof (rule each_inv [where I = "seenPods s"])
  show "seenPods s [] discoveryStart"
    by (simp add: seenPods_def discoveryStart_def servicePods_def mget_def)
next
  fix ys p zs st st'
  assume I: "seenPods s ys st" and step: "podStep s p st = Inr st'"
  obtain ns pod where p: "p = (ns, pod)" by (cases p)
  note st' = podStep_Inr [OF step [unfolded p]]
  have "seenPod s st' q" if "seenPod s st q" for q
    using that st' by (cases q) (fastforce simp: seenPod_def)
  moreover have "mget [] (dyPods st') sid =
      servicePods (map snd (filter (\<lambda>(ns, pod). ns = ''experiment'') (ys @ [p]))) sid" for sid
    using I st' by (auto simp: seenPods_def servicePods_def p mget_def split: option.splits)
  ultimately show "seenPods s (ys @ [p]) st'" using I st' by (auto simp: seenPods_def p)
qed

text \<open>
  A placement states what runs where: each of the three services of the participant is one
  ready pod with one container, all three are on the placement's node, and the placement's
  pod is the beacon pod.
\<close>

definition placedOn :: "pod_resource list \<Rightarrow> (string, node_resource) gomap \<Rightarrow> participant \<Rightarrow> placement \<Rightarrow> bool" where
  "placedOn userPods nodes p pl \<longleftrightarrow>
     (\<exists>execution beacon validator node.
        servicePods userPods (ExecutionServiceID p) = [execution] \<and>
        servicePods userPods (BeaconServiceID p) = [beacon] \<and>
        servicePods userPods (ValidatorServiceID p) = [validator] \<and>
        (\<forall>pod \<in> {execution, beacon, validator}. requireReady pod = Inr () \<and> NodeName pod = plNode pl \<and>
           length (Containers pod) = 1) \<and>
        map_of nodes (plNode pl) = Some node \<and>
        pl = \<lparr>plParticipantID = pID p, plTarget = BeaconTarget p, plPod = mdName (podMetadata beacon),
          plNode = plNode pl,
          plNodePool = mget [] (mdLabels (nodeMetadata node)) ''dev.ethquake.participant'',
          plMachineType = mget [] (mdLabels (nodeMetadata node)) ''node.kubernetes.io/instance-type'',
          plResourcePolicy = policyJSON
            [(''execution'', ctResources (hd (Containers execution))),
             (''beacon'', ctResources (hd (Containers beacon))),
             (''validator'', ctResources (hd (Containers validator)))]\<rparr>)"

lemma requireReady_node: "requireReady pod = Inr () \<Longrightarrow> NodeName pod \<noteq> []"
  by (auto simp: requireReady_def result_simps split: if_splits)

lemma placeServiceStep_Inr:
  "placeServiceStep m i (role, sid) st = Inr st' \<longleftrightarrow>
     (\<exists>pod. mget [] m sid = [pod] \<and> requireReady pod = Inr () \<and>
        (pgNode st = [] \<or> NodeName pod = pgNode st) \<and> length (Containers pod) = 1 \<and>
        st' = \<lparr>pgPolicies = mput role (ctResources (hd (Containers pod))) (pgPolicies st),
               pgNode = NodeName pod,
               pgBeaconPod = (if role = ''beacon'' then mdName (podMetadata pod) else pgBeaconPod st)\<rparr>)"
proof -
  have hd: "Containers pod ! 0 = hd (Containers pod)" if "length (Containers pod) = 1" for pod
    using that by (cases "Containers pod") auto
  show ?thesis
    by (cases "mget [] m sid"; cases "tl (mget [] m sid)")
      (auto simp: placeServiceStep_def result_simps hd)
qed

lemma placeParticipant_placedOn:
  assumes "placeParticipant m nodes p acc = Inr out" "\<And>sid. mget [] m sid = servicePods userPods sid"
  shows "\<exists>pl. out = acc @ [pl] \<and> placedOn userPods nodes p pl"
proof -
  from assms(1) obtain st node where
    each: "each (placeServiceStep m (pID p)) (participantServices p) \<lparr>pgPolicies = [], pgNode = [], pgBeaconPod = []\<rparr> = Inr st"
    and node: "map_of nodes (pgNode st) = Some node"
    and out: "out = acc @ [\<lparr>plParticipantID = pID p, plTarget = BeaconTarget p, plPod = pgBeaconPod st,
             plNode = pgNode st,
             plNodePool = mget [] (mdLabels (nodeMetadata node)) ''dev.ethquake.participant'',
             plMachineType = mget [] (mdLabels (nodeMetadata node)) ''node.kubernetes.io/instance-type'',
             plResourcePolicy = policyJSON (pgPolicies st)\<rparr>]"
    by (auto simp: placeParticipant_def result_simps split: option.splits)
  from each obtain e b v where
    e: "servicePods userPods (ExecutionServiceID p) = [e]" "requireReady e = Inr ()" "length (Containers e) = 1"
    and b: "servicePods userPods (BeaconServiceID p) = [b]" "requireReady b = Inr ()" "length (Containers b) = 1"
    and v: "servicePods userPods (ValidatorServiceID p) = [v]" "requireReady v = Inr ()" "length (Containers v) = 1"
    and n: "NodeName b = NodeName e" "NodeName v = NodeName e"
    and st: "st = \<lparr>pgPolicies = [(''execution'', ctResources (hd (Containers e))),
             (''beacon'', ctResources (hd (Containers b))), (''validator'', ctResources (hd (Containers v)))],
             pgNode = NodeName e, pgBeaconPod = mdName (podMetadata b)\<rparr>"
    by (auto simp: participantServices_def bindR_Inr_iff placeServiceStep_Inr assms(2) requireReady_node)
  show ?thesis unfolding out
    by (rule exI, rule conjI, rule refl, unfold placedOn_def,
        rule exI [of _ e], rule exI [of _ b], rule exI [of _ v], rule exI [of _ node])
      (use e b v n st node in simp)
qed

section \<open>What a discovery says\<close>

lemma buildDiscovery_Inr:
  assumes "buildDiscovery s userPods chaosPods nodes = Inr d"
  obtains st where
    "seenPods s (map (Pair ''experiment'') userPods @ map (Pair ''chaos-mesh'') chaosPods) st"
    "each (placeParticipant (dyPods st) nodes) (scParticipants s) [] = Inr (dcPlacements d)"
    "dcRuntimeImages d = dyImages st"
proof -
  from assms obtain st placements where
    "each (podStep s) (map (Pair ''experiment'') userPods @ map (Pair ''chaos-mesh'') chaosPods) discoveryStart = Inr st"
    "each (placeParticipant (dyPods st) nodes) (scParticipants s) [] = Inr placements"
    "d = \<lparr>dcPlacements = placements, dcRuntimeImages = dyImages st\<rparr>"
    unfolding buildDiscovery_def bindR_Inr_iff wrapE_Inr_iff by auto
  then show thesis using that [of st] each_podStep [of s _ st] by simp
qed

lemma seenPods_services:
  assumes "seenPods s (map (Pair ''experiment'') userPods @ map (Pair ''chaos-mesh'') chaosPods) st"
  shows "mget [] (dyPods st) sid = servicePods userPods sid"
  using assms by (simp add: seenPods_def filter_map comp_def)

lemma each_placeParticipant:
  assumes "\<And>sid. mget [] m sid = servicePods userPods sid"
    and "each (placeParticipant m nodes) ps [] = Inr out"
  shows "list_all2 (placedOn userPods nodes) ps out"
  using assms(2)
proof (rule each_inv [where I = "\<lambda>ps out. list_all2 (placedOn userPods nodes) ps out"])
  fix ys p zs t t'
  assume "list_all2 (placedOn userPods nodes) ys t" "placeParticipant m nodes p t = Inr t'"
  with placeParticipant_placedOn [OF this(2) assms(1)]
  show "list_all2 (placedOn userPods nodes) (ys @ [p]) t'"
    by (auto intro: list_all2_appendI)
qed simp

text \<open>
  C19: The placements of a discovery are the participants of the scenario in their order, each with
  the three services it names: every service is exactly one pod, which is running, ready and
  has one container, the three pods share the placement's node, and the node's labels and the
  three resource policies are what the placement carries.
\<close>

theorem Discovery_placements:
  assumes "buildDiscovery s userPods chaosPods nodes = Inr d"
  shows "list_all2 (placedOn userPods nodes) (scParticipants s) (dcPlacements d)"
proof -
  from buildDiscovery_Inr [OF assms] obtain st where
    st: "seenPods s (map (Pair ''experiment'') userPods @ map (Pair ''chaos-mesh'') chaosPods) st"
    "each (placeParticipant (dyPods st) nodes) (scParticipants s) [] = Inr (dcPlacements d)" by blast
  show ?thesis by (rule each_placeParticipant [OF seenPods_services [OF st(1)] st(2)])
qed

text \<open>The containers that a discovery has to vouch for, with the name each is listed under.\<close>

definition discoveredContainers ::
  "pod_resource list \<Rightarrow> pod_resource list \<Rightarrow> (string \<times> container_spec) list" where
  "discoveredContainers userPods chaosPods =
     concat (map (\<lambda>pod. map (\<lambda>c. (imageKey ''experiment'' (serviceLabel pod) c, c)) (podContainers pod)) userPods) @
     concat (map (\<lambda>pod. map (\<lambda>c. (imageKey ''chaos-mesh'' ''runtime'' c, c)) (podContainers pod)) chaosPods)"

lemma discovered_image:
  assumes "buildDiscovery s userPods chaosPods nodes = Inr d"
    and "(key, c) \<in> set (discoveredContainers userPods chaosPods)"
  shows "imageAllowed c \<and> map_of (dcRuntimeImages d) key = Some (ctImage c)"
proof -
  from buildDiscovery_Inr [OF assms(1)] obtain st where
    st: "seenPods s (map (Pair ''experiment'') userPods @ map (Pair ''chaos-mesh'') chaosPods) st"
    "dcRuntimeImages d = dyImages st" by blast
  have user: "imageAllowed c \<and> map_of (dyImages st) (imageKey ''experiment'' (serviceLabel pod) c) = Some (ctImage c)"
    if pod: "pod \<in> set userPods" "c \<in> set (podContainers pod)" for pod c
  proof -
    have "seenPod s st (''experiment'', pod)" using st(1) pod(1) by (auto simp: seenPods_def)
    then obtain w where w: "workloadOf s ''experiment'' pod = Inr w"
      "imageAllowed c" "map_of (dyImages st) (imageKey ''experiment'' w c) = Some (ctImage c)"
      using pod(2) by (auto simp: seenPod_def)
    moreover have "w = serviceLabel pod"
      using w(1) by (auto simp: workloadOf_def serviceLabel_def Let_def split: if_splits)
    ultimately show ?thesis by simp
  qed
  have chaos: "imageAllowed c \<and> map_of (dyImages st) (imageKey ''chaos-mesh'' ''runtime'' c) = Some (ctImage c)"
    if "pod \<in> set chaosPods" "c \<in> set (podContainers pod)" for pod c
  proof -
    have "seenPod s st (''chaos-mesh'', pod)" using st(1) that(1) by (auto simp: seenPods_def)
    then show ?thesis using that(2) by (auto simp: seenPod_def workloadOf_def)
  qed
  show ?thesis using user chaos assms(2) by (auto simp: discoveredContainers_def st(2))
qed

text \<open>
  Every container and init container of every discovered pod has an image that is pinned by a
  digest, or is the exempt artifact expander, and the image is listed under the name of its
  workload: no two containers of a name run different images.
\<close>

theorem Discovery_images:
  assumes "buildDiscovery s userPods chaosPods nodes = Inr d"
  shows "\<forall>(key, c) \<in> set (discoveredContainers userPods chaosPods).
     imageAllowed c \<and> map_of (dcRuntimeImages d) key = Some (ctImage c)"
  using discovered_image [OF assms] by blast

subsection \<open>The exemption of the artifact expander\<close>

lemma lowerHexN_digest: "lowerHexN h 64 \<Longrightarrow> length h = 64 \<and> hexDecodes h \<and> ToLower h = h"
  by (auto simp: lowerHexN_def hexDecodes_def ToLower_def list_all_iff lowerChar_id isHexLower_isHex
      intro: map_idI)

lemma digestPattern_digestPinned: "digestPattern img \<Longrightarrow> digestPinned img"
  using digestPattern_Split [of img] lowerHexN_digest by (fastforce simp: digestPinned_def)

text \<open>
  The exemption of the artifact expander from pinning has no effect on a run: a discovery that
  accepted a container by it, and by no digest, has images that no lock's closure admits, so the
  metadata of the run cannot be built from it.
\<close>

theorem Expander_exemption_rejected:
  assumes "buildDiscovery s userPods chaosPods nodes = Inr d"
    and "(key, c) \<in> set (discoveredContainers userPods chaosPods)" "\<not> digestPinned (ctImage c)"
  shows "\<nexists>md. ExperimentMetadata l (dcRuntimeImages d) = Inr md"
proof
  assume "\<exists>md. ExperimentMetadata l (dcRuntimeImages d) = Inr md"
  then obtain md where md: "ExperimentMetadata l (dcRuntimeImages d) = Inr md" by blast
  from assms have "map_of (dcRuntimeImages d) key = Some (ctImage c)"
    using discovered_image [OF assms(1,2)] by simp
  then have "(key, ctImage c) \<in> set (dcRuntimeImages d)" by (rule map_of_SomeD)
  with md have "ctImage c \<in> allowedImages l" "Lock_Validate l = Inr ()" by (auto simp: ExperimentMetadata_Inr)
  then show False using allowed_pinned digestPattern_digestPinned assms(3) by blast
qed

end
