(* ===== verification/Analysis.thy ===== *)
theory Analysis
  imports Topology Dependency
begin

text \<open>
  The analysis of the preregistered runs (internal/experiment/analysis.go and the structs of
  contracts.go): which runs are accepted, the three gates and the statistics. An index or a
  pointer that Go would panic on is the error \<open>Panicked\<close>, which is proved not to occur.
\<close>

section \<open>Structs\<close>

definition RunSchemaVersion :: string where "RunSchemaVersion = ''ethquake.run/v1alpha1''"

definition ReportSchemaVersion :: string where "ReportSchemaVersion = ''ethquake.report/v1alpha1''"

definition ConditionControl :: string where "ConditionControl = ''control''"

definition ConditionFault :: string where "ConditionFault = ''fault''"

record confounders =
  ResourcesEqual :: bool
  NodePlacementControlled :: bool
  DependencyClosurePinned :: bool

record window =
  StartedAt :: time
  EndedAt :: time
  StartSlot :: u64
  EndSlot :: u64

record target_result =
  resTarget :: string
  resCLClient :: string
  resGroup :: string
  StartFinalizedEpoch :: u64
  EndFinalizedEpoch :: u64
  FinalizedEpochProgress :: u64
  RecoverySlots :: "u64 option"
  DivergenceExceeded :: bool

record run_summary =
  rnSchemaVersion :: string
  RunID :: string
  Condition :: string
  Repetition :: u64
  rnWindow :: window
  PrimaryMeasurementComplete :: bool
  RecoveryMeasurementComplete :: bool
  MeasurementGaps :: "string list"
  rnTargets :: "target_result list"
  RealizedSplit :: realized_split
  Dependencies :: dependency_metadata
  Confounders :: confounders

record statistic =
  statValues :: "u64 list"
  Median :: f64
  statMin :: u64
  statMax :: u64

record pair_evidence =
  peRepetition :: u64
  peControlMinimumProgress :: u64
  peFaultMaximumProgress :: u64
  ConservativeDifference :: u64

record gate =
  Outcome :: string
  Classification :: string
  Reason :: string

record analysis =
  anSchemaVersion :: string
  ScenarioName :: string
  GeneratedAt :: time
  Runs :: "run_summary list"
  Pairs :: "pair_evidence list"
  ControlMinimumProgress :: statistic
  FaultMaximumProgress :: statistic
  RecoveryByClient :: "(string, statistic) gomap"
  GateA :: gate
  GateB :: gate
  GateC :: gate
  Conclusion :: string

definition zeroMetadata :: dependency_metadata where
  "zeroMetadata = \<lparr>EthereumPackageRevision = [], ImportedPackages = [], RuntimeImages = []\<rparr>"

definition zeroRun :: run_summary where
  "zeroRun = \<lparr>rnSchemaVersion = [], RunID = [], Condition = [], Repetition = 0,
     rnWindow = \<lparr>StartedAt = zeroTime, EndedAt = zeroTime, StartSlot = 0, EndSlot = 0\<rparr>,
     PrimaryMeasurementComplete = False, RecoveryMeasurementComplete = False, MeasurementGaps = [],
     rnTargets = [],
     RealizedSplit = \<lparr>rsSplitBy = [], rsTotal = 0, rsParticipants = [], rsGroups = [],
       rsWithinTolerance = False, rsTolerance = Fin 0\<rparr>,
     Dependencies = zeroMetadata,
     Confounders = \<lparr>ResourcesEqual = False, NodePlacementControlled = False, DependencyClosurePinned = False\<rparr>\<rparr>"

section \<open>Accepting the runs\<close>

datatype (plugins only: code size) run_id_err = BadRunID string | BadRepetition string

definition parseRunID :: "string \<Rightarrow> run_id_err + string \<times> u64" where
  "parseRunID runID =
     (case Cut (CHR ''-'') runID of (conditionText, repetitionText, found) \<Rightarrow>
        if \<not> found \<or> conditionText \<noteq> ConditionControl \<and> conditionText \<noteq> ConditionFault
        then Inl (BadRunID runID)
        else if length repetitionText \<noteq> 1 \<or> code (repetitionText ! 0) < code (CHR ''1'') \<or>
                code (repetitionText ! 0) > code (CHR ''3'')
        then Inl (BadRepetition runID)
        else Inr (conditionText, of_nat (code (repetitionText ! 0) - code (CHR ''0''))))"

datatype (plugins only: code size) runs_err =
    RunsTotal nat nat | RunSchema string string | DuplicateRun string | RunIDRejected run_id_err
  | RunMismatch string | RunClosure string metadata_err | RunSplit string stored_err
  | ClosureDiffers string | RunMissing string

record runs_state =
  byID :: "(string, run_summary) gomap"
  referenceDependencies :: "dependency_metadata option"

definition runStep :: "scenario \<Rightarrow> run_summary \<Rightarrow> runs_state \<Rightarrow> runs_err + runs_state" where
  "runStep s run st =
     (if rnSchemaVersion run \<noteq> RunSchemaVersion then Inl (RunSchema (RunID run) (rnSchemaVersion run))
      else if map_of (byID st) (RunID run) \<noteq> None then Inl (DuplicateRun (RunID run))
      else bindR (wrapE RunIDRejected (parseRunID (RunID run))) (\<lambda>(condition, repetition).
        if Condition run \<noteq> condition \<or> Repetition run \<noteq> repetition then Inl (RunMismatch (RunID run))
        else bindR (wrapE (RunClosure (RunID run)) (ValidateDependencyMetadata (Dependencies run))) (\<lambda>_.
             bindR (wrapE (RunSplit (RunID run)) (ValidateRealizedSplit s (RealizedSplit run))) (\<lambda>_.
               let add = (\<lambda>reference. Inr \<lparr>byID = mput (RunID run) run (byID st),
                                           referenceDependencies = Some reference\<rparr>) in
               case referenceDependencies st of
                 None \<Rightarrow> add (Dependencies run)
               | Some reference \<Rightarrow>
                   if \<not> dependencyMetadataEqual reference (Dependencies run)
                   then Inl (ClosureDiffers (RunID run)) else add reference))))"

record ordered_runs =
  orRuns :: "run_summary list"
  orControls :: "(u64, run_summary) gomap"
  orFaults :: "(u64, run_summary) gomap"

definition orderStep :: "(string, run_summary) gomap \<Rightarrow> string \<Rightarrow> ordered_runs \<Rightarrow> runs_err + ordered_runs" where
  "orderStep runsByID runID st =
     (case map_of runsByID runID of
        None \<Rightarrow> Inl (RunMissing runID)
      | Some run \<Rightarrow>
          let st = st\<lparr>orRuns := orRuns st @ [run]\<rparr> in
          Inr (if Condition run = ConditionControl
               then st\<lparr>orControls := mput (Repetition run) run (orControls st)\<rparr>
               else st\<lparr>orFaults := mput (Repetition run) run (orFaults st)\<rparr>))"

definition validateRuns :: "scenario \<Rightarrow> run_summary list \<Rightarrow> runs_err + ordered_runs" where
  "validateRuns s runs =
     (if length runs \<noteq> length (RunOrder (scMethodology s))
      then Inl (RunsTotal (length runs) (length (RunOrder (scMethodology s))))
      else bindR (each (runStep s) runs \<lparr>byID = [], referenceDependencies = None\<rparr>) (\<lambda>st.
           each (orderStep (byID st)) (RunOrder (scMethodology s))
             \<lparr>orRuns = [], orControls = [], orFaults = []\<rparr>))"

section \<open>Windows, progress, statistics\<close>

fun windowTargets ::
  "(string, participant) gomap \<Rightarrow> (string, string) gomap \<Rightarrow> string list \<Rightarrow> target_result list \<Rightarrow> bool" where
  "windowTargets participantByTarget groupByParticipant seen [] = True"
| "windowTargets participantByTarget groupByParticipant seen (t # ts) =
     (case map_of participantByTarget (resTarget t) of
        None \<Rightarrow> False
      | Some p \<Rightarrow>
          if resCLClient t \<noteq> CLClient p \<or> resGroup t \<noteq> mget [] groupByParticipant (pID p) then False
          else if resTarget t \<in> set seen then False
          else if EndFinalizedEpoch t < StartFinalizedEpoch t \<or>
                  FinalizedEpochProgress t \<noteq> EndFinalizedEpoch t - StartFinalizedEpoch t then False
          else windowTargets participantByTarget groupByParticipant (resTarget t # seen) ts)"

definition primaryWindowValid ::
  "(string, participant) gomap \<Rightarrow> (string, string) gomap \<Rightarrow> run_summary \<Rightarrow> bool" where
  "primaryWindowValid participantByTarget groupByParticipant run =
     (if \<not> PrimaryMeasurementComplete run \<or> length (rnTargets run) \<noteq> 4 \<or>
         \<not> rsWithinTolerance (RealizedSplit run) then False
      else if \<not> ResourcesEqual (Confounders run) \<or> \<not> NodePlacementControlled (Confounders run) \<or>
              \<not> DependencyClosurePinned (Confounders run) then False
      else windowTargets participantByTarget groupByParticipant [] (rnTargets run))"

definition maximumProgress :: "target_result list \<Rightarrow> u64" where
  "maximumProgress targets =
     foldl (\<lambda>maximum t. if FinalizedEpochProgress t > maximum then FinalizedEpochProgress t else maximum) 0 targets"

text \<open>\<open>None\<close> is the panic of \<^verbatim>\<open>targets[0]\<close>.\<close>

fun minimumProgress :: "target_result list \<Rightarrow> u64 option" where
  "minimumProgress [] = None"
| "minimumProgress (t # ts) = Some (foldl (\<lambda>minimum t.
     if FinalizedEpochProgress t < minimum then FinalizedEpochProgress t else minimum)
     (FinalizedEpochProgress t) ts)"

definition summarize :: "u64 list \<Rightarrow> statistic" where
  "summarize input =
     (if length input = 0 then \<lparr>statValues = [], Median = Fin 0, statMin = 0, statMax = 0\<rparr>
      else let values = sort input; half = length values div 2 in
        \<lparr>statValues = values,
         Median = (if length values mod 2 = 0
                   then fdiv (f64_of_u64 (values ! (half - 1) + values ! half)) (lit 2)
                   else f64_of_u64 (values ! half)),
         statMin = values ! 0, statMax = values ! (length values - 1)\<rparr>)"

section \<open>Gate C\<close>

fun uniformProgress :: "target_result list \<Rightarrow> bool" where
  "uniformProgress [] = False"
| "uniformProgress (t # ts) =
     list_all (\<lambda>u. FinalizedEpochProgress u = FinalizedEpochProgress t) ts"

type_synonym recovery_map = "(string, (string, u64) gomap) gomap"

text \<open>\<open>None\<close> is the result \<^verbatim>\<open>false\<close>.\<close>

fun recoveryFrom :: "recovery_map \<Rightarrow> target_result list \<Rightarrow> recovery_map option" where
  "recoveryFrom result [] = Some result"
| "recoveryFrom result (t # ts) =
     (case RecoverySlots t of
        None \<Rightarrow> None
      | Some slots \<Rightarrow>
          let byClient = mget [] result (resGroup t) in
          if map_of byClient (resCLClient t) \<noteq> None then None
          else recoveryFrom (mput (resGroup t) (mput (resCLClient t) slots byClient) result) ts)"

definition recoveryByGroupAndClient :: "target_result list \<Rightarrow> recovery_map option" where
  "recoveryByGroupAndClient targets = recoveryFrom [] targets"

definition differenceDirection :: "u64 \<Rightarrow> u64 \<Rightarrow> u64 \<Rightarrow> int \<times> bool" where
  "differenceDirection left right threshold =
     (if left \<ge> right then (1, left - right \<ge> threshold) else (-1, right - left \<ge> threshold))"

definition FormatInt64 :: "u64 \<Rightarrow> string" where
  "FormatInt64 w = (if sint w < 0 then ''-'' @ formatDigits (- sint w) else formatDigits (sint w))"

definition reasonClients :: string where
  "reasonClients = ''Gate C requires exactly two preregistered CL client families.''"

definition reasonSkew :: string where
  "reasonSkew = ''Control runs contain a client-family finality-progress skew, so attribution is confounded.''"

definition reasonCensored :: string where
  "reasonCensored = ''Recovery is right-censored, missing, or duplicated for at least one client family and partition side.''"

definition reasonThreshold :: string where
  "reasonThreshold = ''The preregistered one-slot client recovery difference was not present on both partition sides in every fault repetition.''"

definition reasonDirection :: string where
  "reasonDirection = ''The direction of the client recovery difference was not reproducible across sides and repetitions.''"

definition reasonSlower :: "string \<Rightarrow> u64 \<Rightarrow> string" where
  "reasonSlower slower threshold = slower @ '' recovered at least '' @ FormatInt64 threshold @
     '' slot later on both partition sides across all three fault repetitions, without matching control skew.''"

text \<open>One partition side in one repetition, with the direction found so far (0 at the start).\<close>

definition sideStep ::
  "string \<Rightarrow> string \<Rightarrow> u64 \<Rightarrow> recovery_map \<Rightarrow> fault_group \<Rightarrow> int \<Rightarrow> string + int" where
  "sideStep client0 client1 threshold byGroupAndClient grp direction =
     (let left = mget 0 (mget [] byGroupAndClient (groupName grp)) client0;
          right = mget 0 (mget [] byGroupAndClient (groupName grp)) client1;
          (currentDirection, meetsThreshold) = differenceDirection left right threshold in
      if \<not> meetsThreshold then Inl reasonThreshold
      else if direction = 0 then Inr currentDirection
      else if direction \<noteq> currentDirection then Inl reasonDirection
      else Inr direction)"

definition repetitionStep ::
  "scenario \<Rightarrow> string \<Rightarrow> string \<Rightarrow> (u64, run_summary) gomap \<Rightarrow> (u64, run_summary) gomap
     \<Rightarrow> u64 \<Rightarrow> int \<Rightarrow> string + int" where
  "repetitionStep s client0 client1 controls faults repetition direction =
     (if \<not> uniformProgress (rnTargets (mget zeroRun controls repetition)) then Inl reasonSkew
      else case recoveryByGroupAndClient (rnTargets (mget zeroRun faults repetition)) of
        None \<Rightarrow> Inl reasonCensored
      | Some byGroupAndClient \<Rightarrow>
          each (sideStep client0 client1 (ClientRecoveryDifferenceSlots (scThresholds s)) byGroupAndClient)
            (Groups (scFault s)) direction)"

definition repetitions :: "u64 list" where "repetitions = [1, 2, 3]"

definition CLClients :: "scenario \<Rightarrow> string list" where
  "CLClients s = sort (remdups (map CLClient (scParticipants s)))"

definition evaluateGateC ::
  "scenario \<Rightarrow> (u64, run_summary) gomap \<Rightarrow> (u64, run_summary) gomap \<Rightarrow> bool \<times> string" where
  "evaluateGateC s controls faults =
     (let clients = CLClients s in
      if length clients \<noteq> 2 then (False, reasonClients)
      else case each (repetitionStep s (clients ! 0) (clients ! 1) controls faults) repetitions 0 of
        Inl reason \<Rightarrow> (False, reason)
      | Inr direction \<Rightarrow>
          (True, reasonSlower (if direction < 0 then clients ! 1 else clients ! 0)
             (ClientRecoveryDifferenceSlots (scThresholds s))))"

section \<open>The analysis\<close>

datatype (plugins only: code size) analyze_err = ScenarioInvalid scenario_err | RunsInvalid runs_err | Panicked

record pairing =
  controlProgress :: "u64 list"
  faultProgress :: "u64 list"
  gateAValid :: bool
  paPairs :: "pair_evidence list"

definition pairStep ::
  "(run_summary \<Rightarrow> bool) \<Rightarrow> (u64, run_summary) gomap \<Rightarrow> (u64, run_summary) gomap \<Rightarrow> u64
     \<Rightarrow> pairing \<Rightarrow> analyze_err + pairing" where
  "pairStep valid controls faults repetition st =
     (let control = mget zeroRun controls repetition; faultRun = mget zeroRun faults repetition in
      if \<not> valid control \<or> \<not> valid faultRun then Inr (st\<lparr>gateAValid := False\<rparr>)
      else case minimumProgress (rnTargets control) of
        None \<Rightarrow> Inl Panicked
      | Some controlValue \<Rightarrow>
          let faultValue = maximumProgress (rnTargets faultRun) in
          Inr \<lparr>controlProgress = controlProgress st @ [controlValue],
               faultProgress = faultProgress st @ [faultValue],
               gateAValid = (gateAValid st \<and> controlValue > faultValue),
               paPairs = paPairs st @ [\<lparr>peRepetition = repetition, peControlMinimumProgress = controlValue,
                 peFaultMaximumProgress = faultValue,
                 ConservativeDifference = (if controlValue > faultValue then controlValue - faultValue else 0)\<rparr>]\<rparr>)"

text \<open>The largest recovery of each client in a run; a missing recovery would be a panic.\<close>

definition clientStep :: "target_result \<Rightarrow> (string, u64) gomap \<Rightarrow> analyze_err + (string, u64) gomap" where
  "clientStep t maximumByClient =
     (case (map_of maximumByClient (resCLClient t), RecoverySlots t) of
        (_, None) \<Rightarrow> Inl Panicked
      | (None, Some slots) \<Rightarrow> Inr (mput (resCLClient t) slots maximumByClient)
      | (Some current, Some slots) \<Rightarrow>
          Inr (if slots > current then mput (resCLClient t) slots maximumByClient else maximumByClient))"

definition recoveryStep ::
  "u64 \<times> run_summary \<Rightarrow> (string, u64 list) gomap \<Rightarrow> analyze_err + (string, u64 list) gomap" where
  "recoveryStep = (\<lambda>(_, run) recoveryValues.
     bindR (each clientStep (rnTargets run) []) (\<lambda>maximumByClient.
       Inr (foldl (\<lambda>values (client, maximum). mput client (mget [] values client @ [maximum]) values)
              recoveryValues maximumByClient)))"

definition recoveryStatistics :: "(u64, run_summary) gomap \<Rightarrow> analyze_err + (string, statistic) gomap" where
  "recoveryStatistics faults =
     bindR (each recoveryStep faults []) (\<lambda>recoveryValues.
       Inr (foldl (\<lambda>out (client, values). mput client (summarize values) out) [] recoveryValues))"

definition participantByTarget :: "scenario \<Rightarrow> (string, participant) gomap" where
  "participantByTarget s = foldl (\<lambda>m p. mput (BeaconTarget p) p m) [] (scParticipants s)"

definition groupByParticipant :: "scenario \<Rightarrow> (string, string) gomap" where
  "groupByParticipant s =
     foldl (\<lambda>m grp. foldl (\<lambda>m participantID. mput participantID (groupName grp) m) m (groupParticipants grp))
       [] (Groups (scFault s))"

definition gateANo :: gate where
  "gateANo = \<lparr>Outcome = ''no'', Classification = ''invalid_experiment'',
     Reason = ''The maximum fault-target finality progress was not strictly lower than the minimum paired control-target progress in every complete repetition.''\<rparr>"

definition gateAYes :: gate where
  "gateAYes = \<lparr>Outcome = ''yes'', Classification = ''valid_experiment'',
     Reason = ''The maximum fault-target finality progress was strictly lower than the minimum paired control-target progress across three complete repetitions.''\<rparr>"

definition gateBAfterNo :: gate where
  "gateBAfterNo = \<lparr>Outcome = ''not_evaluated'', Classification = ''not_evaluated'',
     Reason = ''Gate B cannot be interpreted after Gate A:NO.''\<rparr>"

definition gateBIncomplete :: gate where
  "gateBIncomplete = \<lparr>Outcome = ''not_evaluated'', Classification = ''invalid_measurement'',
     Reason = ''Recovery measurement was incomplete in at least one fault repetition, so the preregistered prediction cannot be evaluated.''\<rparr>"

definition gateBNo :: gate where
  "gateBNo = \<lparr>Outcome = ''no'', Classification = ''network_level_finding'',
     Reason = ''The valid network-level effect did not match the preregistered zero-progress-and-recovery prediction in every repetition.''\<rparr>"

definition gateBYes :: gate where
  "gateBYes = \<lparr>Outcome = ''yes'', Classification = ''prediction_matched'',
     Reason = ''Every fault run had zero finalized-epoch progress and every target recovered inside the observation window.''\<rparr>"

definition gateCPending :: gate where
  "gateCPending = \<lparr>Outcome = ''not_evaluated'', Classification = ''not_evaluated'',
     Reason = ''Gate C is evaluated only after Gate A:YES and Gate B:YES.''\<rparr>"

definition zeroGate :: gate where "zeroGate = \<lparr>Outcome = [], Classification = [], Reason = []\<rparr>"

definition gateBMatched :: "(u64, run_summary) gomap \<Rightarrow> bool" where
  "gateBMatched faults = list_all (\<lambda>(_, run). list_all (\<lambda>t.
     \<not> (FinalizedEpochProgress t \<noteq> 0 \<or> RecoverySlots t = None)) (rnTargets run)) faults"

text \<open>What follows the pairing: the gates in their order, each with its early return.\<close>

definition judge ::
  "scenario \<Rightarrow> (u64, run_summary) gomap \<Rightarrow> (u64, run_summary) gomap \<Rightarrow> bool \<Rightarrow> analysis \<Rightarrow> analyze_err + analysis" where
  "judge s controls faults aValid a =
     (if \<not> aValid \<or> length (Pairs a) \<noteq> 3
      then Inr (a\<lparr>GateA := gateANo, GateB := gateBAfterNo, Conclusion := ''invalid_experiment''\<rparr>)
      else let a = a\<lparr>GateA := gateAYes\<rparr> in
      if list_ex (\<lambda>(_, run). \<not> RecoveryMeasurementComplete run) faults
      then Inr (a\<lparr>GateB := gateBIncomplete, Conclusion := ''invalid_experiment''\<rparr>)
      else if \<not> gateBMatched faults
      then Inr (a\<lparr>GateB := gateBNo, Conclusion := ''network_level_finding''\<rparr>)
      else bindR (recoveryStatistics faults) (\<lambda>recovery.
        let a = a\<lparr>GateB := gateBYes, RecoveryByClient := recovery\<rparr>;
            (differentiated, reason) = evaluateGateC s controls faults in
        Inr (if differentiated
             then a\<lparr>GateC := \<lparr>Outcome = ''yes'', Classification = ''client_specific_differentiation'', Reason = reason\<rparr>,
                    Conclusion := ''client_specific_differentiation''\<rparr>
             else a\<lparr>GateC := \<lparr>Outcome = ''no'', Classification = ''no_client_differentiation'', Reason = reason\<rparr>,
                    Conclusion := ''valid_predicted_uniform_effect''\<rparr>)))"

definition pairingStart :: pairing where
  "pairingStart = \<lparr>controlProgress = [], faultProgress = [], gateAValid = True, paPairs = []\<rparr>"

definition Analyze ::
  "(string \<Rightarrow> string) \<Rightarrow> scenario \<Rightarrow> run_summary list \<Rightarrow> time \<Rightarrow> analyze_err + analysis" where
  "Analyze sum256 s runs generatedAt =
     bindR (wrapE ScenarioInvalid (Scenario_Validate sum256 s)) (\<lambda>_.
     bindR (wrapE RunsInvalid (validateRuns s runs)) (\<lambda>v.
     bindR (each (pairStep (primaryWindowValid (participantByTarget s) (groupByParticipant s))
                    (orControls v) (orFaults v)) repetitions pairingStart) (\<lambda>p.
       judge s (orControls v) (orFaults v) (gateAValid p)
         \<lparr>anSchemaVersion = ReportSchemaVersion, ScenarioName = scName s, GeneratedAt = generatedAt,
          Runs = orRuns v, Pairs = paPairs p,
          ControlMinimumProgress = summarize (controlProgress p),
          FaultMaximumProgress = summarize (faultProgress p),
          RecoveryByClient = [], GateA = zeroGate, GateB = zeroGate, GateC = gateCPending,
          Conclusion = []\<rparr>)))"

section \<open>The accepted runs\<close>

text \<open>What is asked of one run, and the runs of a condition by their number.\<close>

definition acceptable :: "scenario \<Rightarrow> run_summary \<Rightarrow> bool" where
  "acceptable s run \<longleftrightarrow> rnSchemaVersion run = RunSchemaVersion \<and>
     parseRunID (RunID run) = Inr (Condition run, Repetition run) \<and>
     ValidateDependencyMetadata (Dependencies run) = Inr () \<and>
     ValidateRealizedSplit s (RealizedSplit run) = Inr ()"

lemma runStep_Inr:
  "runStep s run st = Inr st' \<longleftrightarrow>
     acceptable s run \<and> map_of (byID st) (RunID run) = None \<and>
     (\<forall>reference. referenceDependencies st = Some reference \<longrightarrow> dependencyMetadataEqual reference (Dependencies run)) \<and>
     st' = \<lparr>byID = mput (RunID run) run (byID st),
            referenceDependencies = Some (case referenceDependencies st of None \<Rightarrow> Dependencies run | Some r \<Rightarrow> r)\<rparr>"
  by (cases "parseRunID (RunID run)")
    (auto simp: runStep_def acceptable_def result_simps Let_def split: option.splits prod.splits if_splits)

lemma each_runStep:
  "each (runStep s) runs \<lparr>byID = [], referenceDependencies = None\<rparr> = Inr st \<longleftrightarrow>
     list_all (acceptable s) runs \<and> distinct (map RunID runs) \<and>
     list_all (\<lambda>r. dependencyMetadataEqual (Dependencies (hd runs)) (Dependencies r)) (tl runs) \<and>
     st = \<lparr>byID = map (\<lambda>r. (RunID r, r)) runs,
           referenceDependencies = (if runs = [] then None else Some (Dependencies (hd runs)))\<rparr>"
proof (induction runs arbitrary: st rule: rev_induct)
  case Nil
  then show ?case by auto
next
  case (snoc x xs)
  have "each (runStep s) (xs @ [x]) \<lparr>byID = [], referenceDependencies = None\<rparr> = Inr st \<longleftrightarrow>
      (\<exists>t. each (runStep s) xs \<lparr>byID = [], referenceDependencies = None\<rparr> = Inr t \<and> runStep s x t = Inr st)"
    by (auto simp: each_append result_simps)
  also have "\<dots> \<longleftrightarrow> list_all (acceptable s) xs \<and> distinct (map RunID xs) \<and>
     list_all (\<lambda>r. dependencyMetadataEqual (Dependencies (hd xs)) (Dependencies r)) (tl xs) \<and>
     runStep s x \<lparr>byID = map (\<lambda>r. (RunID r, r)) xs,
           referenceDependencies = (if xs = [] then None else Some (Dependencies (hd xs)))\<rparr> = Inr st"
    unfolding snoc.IH by blast
  also have "\<dots> \<longleftrightarrow> list_all (acceptable s) (xs @ [x]) \<and> distinct (map RunID (xs @ [x])) \<and>
     list_all (\<lambda>r. dependencyMetadataEqual (Dependencies (hd (xs @ [x]))) (Dependencies r)) (tl (xs @ [x])) \<and>
     st = \<lparr>byID = map (\<lambda>r. (RunID r, r)) (xs @ [x]),
           referenceDependencies = Some (Dependencies (hd (xs @ [x])))\<rparr>"
    unfolding runStep_Inr by (cases xs) (auto simp: map_of_eq_None_iff comp_def mput_new image_image)
  finally show ?case by simp
qed

text \<open>A run's identifier spells its condition and its repetition, which is 1, 2 or 3.\<close>

lemma digit_1_3:
  assumes "code c \<ge> code (CHR ''1'')" "code c \<le> code (CHR ''3'')"
  shows "c = CHR ''1'' \<or> c = CHR ''2'' \<or> c = CHR ''3''"
proof -
  have "code c = 49 \<or> code c = 50 \<or> code c = 51" using assms by (auto simp: code_def)
  then have "of_char c = (of_char (CHR ''1'') :: nat) \<or> of_char c = (of_char (CHR ''2'') :: nat) \<or>
      of_char c = (of_char (CHR ''3'') :: nat)" by (simp add: code_def)
  then show ?thesis by (simp only: of_char_eq_iff)
qed

lemma digit_chars: "char_of (49 :: nat) = CHR ''1''" "char_of (50 :: nat) = CHR ''2''" "char_of (51 :: nat) = CHR ''3''"
  by code_simp+

definition runName :: "string \<Rightarrow> u64 \<Rightarrow> string" where
  "runName condition repetition = condition @ ''-'' @ [char_of (48 + unat repetition)]"

lemma parseRunID_Inr:
  assumes "parseRunID i = Inr (c, r)"
  shows "i = runName c r \<and> c \<in> {ConditionControl, ConditionFault} \<and> r \<in> set repetitions"
proof -
  obtain a b f where cut: "Cut (CHR ''-'') i = (a, b, f)" by (cases "Cut (CHR ''-'') i")
  with assms have f: "f" and a: "a = c" "c \<in> {ConditionControl, ConditionFault}"
    and b: "length b = 1" "code (b ! 0) \<ge> code (CHR ''1'')" "code (b ! 0) \<le> code (CHR ''3'')"
    and r: "r = of_nat (code (b ! 0) - code (CHR ''0''))"
    by (auto simp: parseRunID_def split: if_splits)
  obtain d where bd: "b = [d]" using b(1) by (cases b) auto
  from cut f have i: "i = a @ CHR ''-'' # b" using Cut_True by simp
  have "d = CHR ''1'' \<or> d = CHR ''2'' \<or> d = CHR ''3''" using b(2,3) bd by (intro digit_1_3) simp_all
  then show ?thesis using a i bd r by (auto simp: runName_def repetitions_def code_def digit_chars)
qed

lemma runName_inj:
  assumes "runName c r = runName c' r'" "r \<in> set repetitions" "r' \<in> set repetitions"
  shows "c = c' \<and> r = r'"
  using assms by (auto simp: runName_def repetitions_def digit_chars)

lemma acceptable_name:
  assumes "acceptable s run"
  shows "RunID run = runName (Condition run) (Repetition run) \<and>
     Condition run \<in> {ConditionControl, ConditionFault} \<and> Repetition run \<in> set repetitions"
  using assms parseRunID_Inr by (auto simp: acceptable_def)

definition runsWith :: "string \<Rightarrow> run_summary list \<Rightarrow> (u64, run_summary) gomap" where
  "runsWith condition runs = map (\<lambda>run. (Repetition run, run)) (filter (\<lambda>run. Condition run = condition) runs)"

definition namedRun :: "run_summary list \<Rightarrow> string \<Rightarrow> run_summary" where
  "namedRun runs i = the (map_of (map (\<lambda>r. (RunID r, r)) runs) i)"

lemma each_orderStep:
  assumes "\<And>i run. map_of m i = Some run \<Longrightarrow> RunID run = i \<and> acceptable s run" "distinct ids"
  shows "each (orderStep m) ids \<lparr>orRuns = [], orControls = [], orFaults = []\<rparr> = Inr v \<longleftrightarrow>
     set ids \<subseteq> dom (map_of m) \<and>
     (let out = map (\<lambda>i. the (map_of m i)) ids in
      v = \<lparr>orRuns = out, orControls = runsWith ConditionControl out, orFaults = runsWith ConditionFault out\<rparr>)"
  using assms(2)
proof (induction ids arbitrary: v rule: rev_induct)
  case Nil
  then show ?case by (auto simp: runsWith_def)
next
  case (snoc x xs)
  let ?out = "map (\<lambda>i. the (map_of m i)) xs"
  have new: "Repetition run \<notin> set (keys (runsWith (Condition run) ?out))"
    if run: "map_of m x = Some run" "set xs \<subseteq> dom (map_of m)" for run
  proof
    assume "Repetition run \<in> set (keys (runsWith (Condition run) ?out))"
    then obtain i r where i: "i \<in> set xs" "map_of m i = Some r" "Condition r = Condition run" "Repetition r = Repetition run"
      using run(2) by (auto simp: runsWith_def)
    from assms(1) [OF i(2)] assms(1) [OF run(1)] i(3,4) have "i = x" by (metis acceptable_name)
    with i(1) snoc.prems show False by simp
  qed
  have "each (orderStep m) (xs @ [x]) \<lparr>orRuns = [], orControls = [], orFaults = []\<rparr> = Inr v \<longleftrightarrow>
      (\<exists>t. each (orderStep m) xs \<lparr>orRuns = [], orControls = [], orFaults = []\<rparr> = Inr t \<and> orderStep m x t = Inr v)"
    by (auto simp: each_append result_simps)
  also have "\<dots> \<longleftrightarrow> set xs \<subseteq> dom (map_of m) \<and>
      orderStep m x \<lparr>orRuns = ?out, orControls = runsWith ConditionControl ?out, orFaults = runsWith ConditionFault ?out\<rparr> = Inr v"
    using snoc by (auto simp: Let_def)
  also have "\<dots> \<longleftrightarrow> set (xs @ [x]) \<subseteq> dom (map_of m) \<and>
      (let out = map (\<lambda>i. the (map_of m i)) (xs @ [x]) in
      v = \<lparr>orRuns = out, orControls = runsWith ConditionControl out, orFaults = runsWith ConditionFault out\<rparr>)"
  proof (cases "map_of m x")
    case None
    then show ?thesis by (auto simp: orderStep_def)
  next
    case (Some run)
    have "Condition run = ConditionControl \<or> Condition run = ConditionFault"
      using assms(1) [OF Some] acceptable_name by blast
    then show ?thesis using new [OF Some] Some
      by (auto simp: orderStep_def Let_def runsWith_def mput_new ConditionControl_def ConditionFault_def)
  qed
  finally show ?case .
qed

section \<open>What the analysis knows of an accepted scenario\<close>

text \<open>
  Four participants on two sides, each side with exactly one participant of each of exactly two
  consensus clients; six runs.
\<close>

definition sides :: "scenario \<Rightarrow> fault_group \<Rightarrow> fault_group \<Rightarrow> bool" where
  "sides s g1 g2 \<longleftrightarrow> Groups (scFault s) = [g1, g2] \<and> groupName g1 \<noteq> groupName g2 \<and>
     distinct (groupParticipants g1 @ groupParticipants g2) \<and>
     set (groupParticipants g1 @ groupParticipants g2) = pID ` set (scParticipants s)"

definition adjudicable :: "scenario \<Rightarrow> bool" where
  "adjudicable s \<longleftrightarrow> length (scParticipants s) = 4 \<and> distinct (map pID (scParticipants s)) \<and>
     distinct (map BeaconTarget (scParticipants s)) \<and> (\<exists>g1 g2. sides s g1 g2) \<and>
     list_all (groupHasAllClients s) (Groups (scFault s)) \<and>
     2 \<le> card (CLClient ` set (scParticipants s)) \<and>
     ClientRecoveryDifferenceSlots (scThresholds s) = 1 \<and>
     mset (RunOrder (scMethodology s)) = mset expectedRuns"

lemma allClients_length:
  "validateMixedGroups gs (participantMap s) = Inr () \<Longrightarrow> 2 \<le> card (CLClient ` set (scParticipants s))"
proof -
  assume "validateMixedGroups gs (participantMap s) = Inr ()"
  then have "2 \<le> length (remdups (map (\<lambda>(_, p). CLClient p) (participantMap s)))"
    unfolding validateMixedGroups_def Let_def if_Inl_Inr_iff by simp
  moreover have "set (map (\<lambda>(_, p). CLClient p) (participantMap s)) = CLClient ` set (scParticipants s)"
    by (force simp: participantMap_def)
  ultimately show ?thesis by (simp add: length_remdups_card_conv)
qed

lemma Scenario_adjudicable:
  assumes "Scenario_Validate sum256 s = Inr ()"
  shows "adjudicable s"
proof -
  note parts = Scenario_Validate_parts [OF assms]
  have d: "distinct (map pID (scParticipants s))" using parts(1) by (simp add: validParticipants_def)
  from parts(2) obtain g1 g2 where g: "Groups (scFault s) = [g1, g2]"
    by (auto simp: validFault_def split: list.splits)
  have keys: "set (keys (participantMap s)) = pID ` set (scParticipants s)"
    by (simp add: participantMap_simps(2) [OF d])
  have sd: "sides s g1 g2" using parts(2) unfolding validFault_def g keys sides_def by simp
  have "groupHasAllClients s g" if "g \<in> {g1, g2}" for g
    by (rule mixedGroups_clients [OF parts(4) _ d]) (use that sd g keys in \<open>auto simp: sides_def\<close>)
  then have "list_all (groupHasAllClients s) (Groups (scFault s))" by (simp add: g)
  moreover have "ClientRecoveryDifferenceSlots (scThresholds s) = 1"
    using assms unfolding Scenario_Validate_def if_Inl_Inr_iff bindR_Inr_iff wrapE_Inr_iff Thresholds_validate_def
    by auto
  moreover have "mset (RunOrder (scMethodology s)) = mset expectedRuns"
    using Methodology_validate_order [OF parts(3)] DeriveRunOrder_mset by simp
  ultimately show ?thesis
    using parts(1) sd allClients_length [OF parts(4)] by (auto simp: adjudicable_def validParticipants_def)
qed

lemma participantByTarget_find:
  assumes "distinct (map BeaconTarget (scParticipants s))"
  shows "map_of (participantByTarget s) i = find (\<lambda>p. BeaconTarget p = i) (scParticipants s)"
  unfolding participantByTarget_def
  using foldl_mput_distinct [of BeaconTarget "scParticipants s" "[]"] map_of_keyed [OF assms] assms by simp

lemma groupByParticipant_sides:
  assumes "sides s g1 g2"
  shows "groupByParticipant s = map (\<lambda>i. (i, groupName g1)) (groupParticipants g1) @
     map (\<lambda>i. (i, groupName g2)) (groupParticipants g2)" (is "_ = ?pairs")
proof -
  have flat: "foldl (\<lambda>m i. mput i n m) m xs = foldl (\<lambda>m (k, v). mput k v m) m (map (\<lambda>i. (i, n)) xs)"
    for n m xs by (induction xs arbitrary: m) simp_all
  have "Groups (scFault s) = [g1, g2]" using assms by (simp add: sides_def)
  then have "groupByParticipant s = foldl (\<lambda>m (k, v). mput k v m) [] ?pairs"
    unfolding groupByParticipant_def foldl_append flat [symmetric] by simp
  moreover have "gomap ?pairs" using assms by (auto simp: gomap_def sides_def comp_def)
  ultimately show ?thesis using foldl_mput_map [of ?pairs "\<lambda>v. v"] by simp
qed

lemma groupByParticipant_get:
  assumes "sides s g1 g2" "i \<in> pID ` set (scParticipants s)"
  shows "mget [] (groupByParticipant s) i = n \<longleftrightarrow>
     (\<exists>g \<in> set (Groups (scFault s)). i \<in> set (groupParticipants g) \<and> groupName g = n)"
proof -
  have "map_of (map (\<lambda>i. (i, c)) xs) i = (if i \<in> set xs then Some c else None)" for c :: string and xs
    by (induction xs) auto
  then show ?thesis using assms
    by (auto simp: groupByParticipant_sides [OF assms(1)] mget_def map_add_def sides_def split: if_splits)
qed

section \<open>A valid window\<close>

definition validTarget :: "scenario \<Rightarrow> target_result \<Rightarrow> bool" where
  "validTarget s t \<longleftrightarrow> (\<exists>p \<in> set (scParticipants s). \<exists>g \<in> set (Groups (scFault s)).
     BeaconTarget p = resTarget t \<and> CLClient p = resCLClient t \<and>
     pID p \<in> set (groupParticipants g) \<and> groupName g = resGroup t \<and>
     unat (EndFinalizedEpoch t) = unat (StartFinalizedEpoch t) + unat (FinalizedEpochProgress t))"

definition validWindow :: "scenario \<Rightarrow> run_summary \<Rightarrow> bool" where
  "validWindow s run \<longleftrightarrow> PrimaryMeasurementComplete run \<and> rsWithinTolerance (RealizedSplit run) \<and>
     ResourcesEqual (Confounders run) \<and> NodePlacementControlled (Confounders run) \<and>
     DependencyClosurePinned (Confounders run) \<and>
     mset (map resTarget (rnTargets run)) = mset (map BeaconTarget (scParticipants s)) \<and>
     list_all (validTarget s) (rnTargets run)"

lemma exact_progress:
  "\<not> (e < st \<or> pr \<noteq> e - st) \<longleftrightarrow> unat (e :: u64) = unat st + unat (pr :: u64)"
proof
  assume "\<not> (e < st \<or> pr \<noteq> e - st)"
  then show "unat e = unat st + unat pr" by (auto simp: unat_sub64 word_le_nat_alt not_less)
next
  assume u: "unat e = unat st + unat pr"
  then have "st \<le> e" by (simp add: word_le_nat_alt)
  moreover from this u have "unat (e - st) = unat pr" by (simp add: unat_sub64)
  ultimately show "\<not> (e < st \<or> pr \<noteq> e - st)" by (simp add: not_less word_unat_eq_iff)
qed

lemma windowTargets_iff:
  assumes "adjudicable s"
  shows "windowTargets (participantByTarget s) (groupByParticipant s) seen ts \<longleftrightarrow>
     list_all (validTarget s) ts \<and> distinct (map resTarget ts) \<and> set (map resTarget ts) \<inter> set seen = {}"
proof (induction ts arbitrary: seen)
  case Nil
  then show ?case by simp
next
  case (Cons t ts)
  from assms obtain g1 g2 where sd: "sides s g1 g2" by (auto simp: adjudicable_def)
  have bt: "distinct (map BeaconTarget (scParticipants s))" using assms by (simp add: adjudicable_def)
  note find = participantByTarget_find [OF bt, of "resTarget t"]
  show ?case
  proof (cases "map_of (participantByTarget s) (resTarget t)")
    case None
    then have "\<not> validTarget s t" unfolding find by (auto simp: find_None_iff validTarget_def)
    with None show ?thesis by simp
  next
    case (Some p)
    then have p: "p \<in> set (scParticipants s)" "BeaconTarget p = resTarget t"
      unfolding find by (auto simp: find_Some_iff)
    then have only: "q = p" if "q \<in> set (scParticipants s)" "BeaconTarget q = resTarget t" for q
      using that bt by (metis distinct_map inj_on_def)
    define Q where "Q q \<longleftrightarrow> CLClient q = resCLClient t \<and>
        (\<exists>g \<in> set (Groups (scFault s)). pID q \<in> set (groupParticipants g) \<and> groupName g = resGroup t) \<and>
        unat (EndFinalizedEpoch t) = unat (StartFinalizedEpoch t) + unat (FinalizedEpochProgress t)" for q :: participant
    have "validTarget s t \<longleftrightarrow> (\<exists>q \<in> set (scParticipants s). BeaconTarget q = resTarget t \<and> Q q)"
      unfolding validTarget_def Q_def by (rule bex_cong) auto
    also have "\<dots> \<longleftrightarrow> Q p" using only p by blast
    also have "\<dots> \<longleftrightarrow> resCLClient t = CLClient p \<and> mget [] (groupByParticipant s) (pID p) = resGroup t \<and>
        \<not> (EndFinalizedEpoch t < StartFinalizedEpoch t \<or>
           FinalizedEpochProgress t \<noteq> EndFinalizedEpoch t - StartFinalizedEpoch t)"
      unfolding exact_progress groupByParticipant_get [OF sd imageI [OF p(1)]] Q_def by auto
    finally have vt: "validTarget s t \<longleftrightarrow> \<not> (resCLClient t \<noteq> CLClient p \<or>
          resGroup t \<noteq> mget [] (groupByParticipant s) (pID p)) \<and>
        \<not> (EndFinalizedEpoch t < StartFinalizedEpoch t \<or>
           FinalizedEpochProgress t \<noteq> EndFinalizedEpoch t - StartFinalizedEpoch t)"
      by auto
    have "windowTargets (participantByTarget s) (groupByParticipant s) seen (t # ts) \<longleftrightarrow>
        validTarget s t \<and> resTarget t \<notin> set seen \<and>
        windowTargets (participantByTarget s) (groupByParticipant s) (resTarget t # seen) ts"
      unfolding vt by (auto simp: Some)
    then show ?thesis by (auto simp: Cons.IH)
  qed
qed

lemma primaryWindowValid_iff:
  assumes "adjudicable s"
  shows "primaryWindowValid (participantByTarget s) (groupByParticipant s) run \<longleftrightarrow> validWindow s run"
proof -
  let ?ts = "map resTarget (rnTargets run)" and ?bt = "map BeaconTarget (scParticipants s)"
  have d: "distinct ?bt" "length ?bt = 4" using assms by (simp_all add: adjudicable_def)
  have "list_all (validTarget s) (rnTargets run) \<Longrightarrow>
      (length ?ts = 4 \<and> distinct ?ts \<longleftrightarrow> mset ?ts = mset ?bt)"
  proof
    assume v: "list_all (validTarget s) (rnTargets run)" and l: "length ?ts = 4 \<and> distinct ?ts"
    have "resTarget t \<in> BeaconTarget ` set (scParticipants s)" if "validTarget s t" for t
      using that by (force simp: validTarget_def)
    then have "set ?ts \<subseteq> set ?bt" using v by (auto simp: list_all_iff)
    moreover have "card (set ?ts) = card (set ?bt)" using l d by (simp only: distinct_card)
    ultimately have "set ?ts = set ?bt" by (intro card_subset_eq) simp_all
    then show "mset ?ts = mset ?bt" using l d by (simp only: set_eq_iff_mset_eq_distinct)
  next
    assume m: "mset ?ts = mset ?bt"
    then have "length ?ts = length ?bt" by (rule mset_eq_length)
    moreover have "distinct ?ts" using m d(1) using mset_eq_imp_distinct_iff by blast
    ultimately show "length ?ts = 4 \<and> distinct ?ts" using d(2) by simp
  qed
  then show ?thesis
    unfolding primaryWindowValid_def validWindow_def windowTargets_iff [OF assms] by auto
qed

section \<open>The runs by name\<close>

lemma expectedRuns_names:
  "expectedRuns = map (runName ConditionControl) repetitions @ map (runName ConditionFault) repetitions"
  by code_simp

lemma set_expectedRuns:
  "set expectedRuns = {runName c r | c r. c \<in> {ConditionControl, ConditionFault} \<and> r \<in> set repetitions}"
  unfolding expectedRuns_names by auto

lemma runOrder_facts:
  assumes "adjudicable s"
  shows "distinct (RunOrder (scMethodology s))"
    "set (RunOrder (scMethodology s)) = {runName c r | c r. c \<in> {ConditionControl, ConditionFault} \<and> r \<in> set repetitions}"
    "length (RunOrder (scMethodology s)) = 6"
proof -
  have m: "mset (RunOrder (scMethodology s)) = mset expectedRuns" using assms by (simp add: adjudicable_def)
  have "distinct expectedRuns" by (simp add: expectedRuns_def)
  then show "distinct (RunOrder (scMethodology s))" using mset_eq_imp_distinct_iff [OF m] by blast
  show "set (RunOrder (scMethodology s)) = {runName c r | c r. c \<in> {ConditionControl, ConditionFault} \<and> r \<in> set repetitions}"
    using mset_eq_setD [OF m] by (simp only: set_expectedRuns)
  show "length (RunOrder (scMethodology s)) = 6" using mset_eq_length [OF m] by (simp add: expectedRuns_def)
qed

text \<open>The runs that an analysis accepts: one for each name, acceptable, with one closure.\<close>

definition acceptedRuns :: "scenario \<Rightarrow> run_summary list \<Rightarrow> bool" where
  "acceptedRuns s runs \<longleftrightarrow> mset (map RunID runs) = mset expectedRuns \<and> list_all (acceptable s) runs \<and>
     list_all (\<lambda>r. dependencyMetadataEqual (Dependencies (hd runs)) (Dependencies r)) (tl runs)"

lemma namedRun_in:
  assumes "i \<in> RunID ` set runs"
  shows "namedRun runs i \<in> set runs \<and> RunID (namedRun runs i) = i"
proof -
  from assms have "i \<in> dom (map_of (map (\<lambda>r. (RunID r, r)) runs))"
    by (simp add: dom_map_of_conv_image_fst image_image)
  then obtain r where r: "map_of (map (\<lambda>r. (RunID r, r)) runs) i = Some r" by blast
  from map_of_SomeD [OF this] show ?thesis by (auto simp: namedRun_def r)
qed

lemma validateRuns_Inr:
  assumes "adjudicable s"
  shows "validateRuns s runs = Inr v \<longleftrightarrow> acceptedRuns s runs \<and>
     (let out = map (namedRun runs) (RunOrder (scMethodology s)) in
      v = \<lparr>orRuns = out, orControls = runsWith ConditionControl out, orFaults = runsWith ConditionFault out\<rparr>)"
proof -
  let ?order = "RunOrder (scMethodology s)" and ?m = "map (\<lambda>r. (RunID r, r)) runs"
  have m: "mset ?order = mset expectedRuns" using assms by (simp add: adjudicable_def)
  have dom: "dom (map_of ?m) = RunID ` set runs" by (simp add: dom_map_of_conv_image_fst image_image)
  have perm: "length runs = length ?order \<and> distinct (map RunID runs) \<and> set ?order \<subseteq> dom (map_of ?m) \<longleftrightarrow>
      mset (map RunID runs) = mset expectedRuns"
  proof
    assume a: "length runs = length ?order \<and> distinct (map RunID runs) \<and> set ?order \<subseteq> dom (map_of ?m)"
    then have sub: "set ?order \<subseteq> set (map RunID runs)" by (simp add: dom)
    have "card (set ?order) = card (set (map RunID runs))"
      using a runOrder_facts(1) [OF assms] by (simp add: distinct_card del: set_map)
    then have "set ?order = set (map RunID runs)" using sub by (intro card_subset_eq) simp_all
    then have "mset ?order = mset (map RunID runs)"
      using a runOrder_facts(1) [OF assms] set_eq_iff_mset_eq_distinct by blast
    then show "mset (map RunID runs) = mset expectedRuns" using m by simp
  next
    assume a: "mset (map RunID runs) = mset expectedRuns"
    then have e: "mset (map RunID runs) = mset ?order" using m by simp
    show "length runs = length ?order \<and> distinct (map RunID runs) \<and> set ?order \<subseteq> dom (map_of ?m)"
      using mset_eq_length [OF e] mset_eq_imp_distinct_iff [OF e] runOrder_facts(1) [OF assms] mset_eq_setD [OF e]
      by (simp add: dom)
  qed
  have known: "RunID run = i \<and> acceptable s run"
    if "list_all (acceptable s) runs" "map_of ?m i = Some run" for i run
    using map_of_SomeD [OF that(2)] that(1) by (auto simp: list_all_iff)
  have step: "each (orderStep ?m) ?order \<lparr>orRuns = [], orControls = [], orFaults = []\<rparr> = Inr v \<longleftrightarrow>
     set ?order \<subseteq> dom (map_of ?m) \<and>
     (let out = map (namedRun runs) ?order in
      v = \<lparr>orRuns = out, orControls = runsWith ConditionControl out, orFaults = runsWith ConditionFault out\<rparr>)"
    if "list_all (acceptable s) runs"
    using each_orderStep [of ?m s ?order v, OF known [OF that] runOrder_facts(1) [OF assms]]
    by (simp only: namedRun_def [abs_def])
  show ?thesis
    unfolding validateRuns_def if_Inl_Inr_iff bindR_Inr_iff each_runStep acceptedRuns_def perm [symmetric]
    using step by auto
qed

lemma acceptedRuns_named:
  assumes "acceptedRuns s runs" "c \<in> {ConditionControl, ConditionFault}" "r \<in> set repetitions"
  shows "namedRun runs (runName c r) \<in> set runs" "acceptable s (namedRun runs (runName c r))"
    "RunID (namedRun runs (runName c r)) = runName c r"
    "Condition (namedRun runs (runName c r)) = c" "Repetition (namedRun runs (runName c r)) = r"
proof -
  have "set expectedRuns = set (map RunID runs)" using assms(1) by (metis acceptedRuns_def mset_eq_setD)
  moreover have "runName c r \<in> set expectedRuns"
    using assms(2,3) unfolding set_expectedRuns by blast
  ultimately have i: "runName c r \<in> RunID ` set runs" by simp
  note n = namedRun_in [OF i]
  then show a: "namedRun runs (runName c r) \<in> set runs" "acceptable s (namedRun runs (runName c r))"
      "RunID (namedRun runs (runName c r)) = runName c r"
    using assms(1) by (auto simp: acceptedRuns_def list_all_iff)
  from acceptable_name [OF a(2)] a(3) assms(3) runName_inj
  show "Condition (namedRun runs (runName c r)) = c" "Repetition (namedRun runs (runName c r)) = r" by metis+
qed

text \<open>The maps of the controls and of the faults hold the runs of the three repetitions.\<close>

lemma runsWith_named:
  assumes "adjudicable s" "acceptedRuns s runs" "c \<in> {ConditionControl, ConditionFault}"
  defines "m \<equiv> runsWith c (map (namedRun runs) (RunOrder (scMethodology s)))"
  shows "set m = (\<lambda>r. (r, namedRun runs (runName c r))) ` set repetitions" "distinct (keys m)"
    and "r \<in> set repetitions \<Longrightarrow> mget zeroRun m r = namedRun runs (runName c r)"
proof -
  note order = runOrder_facts [OF assms(1)]
  note named = acceptedRuns_named [OF assms(2)]
  show sm: "set m = (\<lambda>r. (r, namedRun runs (runName c r))) ` set repetitions"
  proof (intro set_eqI iffI)
    fix p assume "p \<in> set m"
    then obtain i where i: "i \<in> set (RunOrder (scMethodology s))" "Condition (namedRun runs i) = c"
      "p = (Repetition (namedRun runs i), namedRun runs i)" by (auto simp: m_def runsWith_def)
    then obtain c' r where "i = runName c' r" "c' \<in> {ConditionControl, ConditionFault}" "r \<in> set repetitions"
      unfolding order(2) by blast
    with i named(4,5) [OF this(2,3)] show "p \<in> (\<lambda>r. (r, namedRun runs (runName c r))) ` set repetitions" by auto
  next
    fix p assume "p \<in> (\<lambda>r. (r, namedRun runs (runName c r))) ` set repetitions"
    then obtain r where r: "r \<in> set repetitions" "p = (r, namedRun runs (runName c r))" by blast
    with named(4,5) [OF assms(3) r(1)] assms(3) order(2) show "p \<in> set m"
      by (auto simp: m_def runsWith_def image_iff)
  qed
  have "inj_on (\<lambda>i. Repetition (namedRun runs i)) (set (filter (\<lambda>i. Condition (namedRun runs i) = c) (RunOrder (scMethodology s))))"
    unfolding inj_on_def using named(4,5) by (auto simp: order(2))
  then show d: "distinct (keys m)"
    using order(1) by (simp add: m_def runsWith_def filter_map comp_def distinct_map)
  show "mget zeroRun m r = namedRun runs (runName c r)" if "r \<in> set repetitions"
  proof -
    have "(r, namedRun runs (runName c r)) \<in> set m" using sm that by auto
    then have "map_of m r = Some (namedRun runs (runName c r))" using d by simp
    then show ?thesis by (simp add: mget_def)
  qed
qed

section \<open>The pairs\<close>

lemma minimumProgress_Min:
  "ts \<noteq> [] \<Longrightarrow> minimumProgress ts = Some (Min (FinalizedEpochProgress ` set ts))"
proof -
  have "foldl (\<lambda>m t. if FinalizedEpochProgress t < m then FinalizedEpochProgress t else m) a us =
      Min (insert a (FinalizedEpochProgress ` set us))" for a and us :: "target_result list"
  proof (induction us arbitrary: a)
    case (Cons u us)
    have "(if FinalizedEpochProgress u < a then FinalizedEpochProgress u else a) = min a (FinalizedEpochProgress u)"
      by (auto simp: min_def not_less not_le)
    then show ?case using Cons by (cases "us = []") (simp_all add: insert_commute ac_simps)
  qed simp
  then show "ts \<noteq> [] \<Longrightarrow> ?thesis" by (cases ts) simp_all
qed

lemma maximumProgress_Max:
  "ts \<noteq> [] \<Longrightarrow> maximumProgress ts = Max (FinalizedEpochProgress ` set ts)"
proof -
  have "foldl (\<lambda>m t. if FinalizedEpochProgress t > m then FinalizedEpochProgress t else m) a us =
      Max (insert a (FinalizedEpochProgress ` set us))" for a and us :: "target_result list"
  proof (induction us arbitrary: a)
    case (Cons u us)
    have "(if FinalizedEpochProgress u > a then FinalizedEpochProgress u else a) = max a (FinalizedEpochProgress u)"
      by (auto simp: max_def not_less not_le)
    then show ?case using Cons by (cases "us = []") (simp_all add: insert_commute ac_simps)
  qed simp
  then have "maximumProgress ts = Max (insert 0 (FinalizedEpochProgress ` set ts))"
    by (simp add: maximumProgress_def)
  also assume "ts \<noteq> []"
  then have "Max (insert 0 (FinalizedEpochProgress ` set ts)) = Max (FinalizedEpochProgress ` set ts)"
    by (simp add: max_def)
  finally show ?thesis .
qed

definition pairOf :: "(u64 \<Rightarrow> run_summary) \<Rightarrow> (u64 \<Rightarrow> run_summary) \<Rightarrow> u64 \<Rightarrow> pair_evidence" where
  "pairOf control faulty r =
     (let c = Min (FinalizedEpochProgress ` set (rnTargets (control r)));
          f = Max (FinalizedEpochProgress ` set (rnTargets (faulty r))) in
      \<lparr>peRepetition = r, peControlMinimumProgress = c, peFaultMaximumProgress = f,
       ConservativeDifference = (if f < c then c - f else 0)\<rparr>)"

text \<open>Every target of the control run has made more progress than every target of the faulty run.\<close>

definition separated :: "run_summary \<Rightarrow> run_summary \<Rightarrow> bool" where
  "separated control faultRun \<longleftrightarrow> (\<forall>t \<in> set (rnTargets control). \<forall>u \<in> set (rnTargets faultRun).
     FinalizedEpochProgress u < FinalizedEpochProgress t)"

lemma separated_iff:
  "rnTargets c \<noteq> [] \<Longrightarrow> rnTargets f \<noteq> [] \<Longrightarrow>
   Max (FinalizedEpochProgress ` set (rnTargets f)) < Min (FinalizedEpochProgress ` set (rnTargets c)) \<longleftrightarrow> separated c f"
  by (auto simp: separated_def)

lemma each_pairStep:
  fixes cs fs :: "(u64, run_summary) gomap"
  assumes "\<And>run. valid run \<Longrightarrow> rnTargets run \<noteq> []"
  defines "ok \<equiv> \<lambda>r. valid (mget zeroRun cs r) \<and> valid (mget zeroRun fs r)"
  defines "ev \<equiv> pairOf (mget zeroRun cs) (mget zeroRun fs)"
  shows "each (pairStep valid cs fs) rs pairingStart = Inr
    \<lparr>controlProgress = map (\<lambda>r. peControlMinimumProgress (ev r)) (filter ok rs),
     faultProgress = map (\<lambda>r. peFaultMaximumProgress (ev r)) (filter ok rs),
     gateAValid = (\<forall>r \<in> set rs. ok r \<and> separated (mget zeroRun cs r) (mget zeroRun fs r)),
     paPairs = map ev (filter ok rs)\<rparr>"
proof -
  have step: "pairStep valid cs fs r st = Inr (if ok r then
      \<lparr>controlProgress = controlProgress st @ [peControlMinimumProgress (ev r)],
       faultProgress = faultProgress st @ [peFaultMaximumProgress (ev r)],
       gateAValid = (gateAValid st \<and> separated (mget zeroRun cs r) (mget zeroRun fs r)),
       paPairs = paPairs st @ [ev r]\<rparr> else st\<lparr>gateAValid := False\<rparr>)" for r st
  proof (cases "ok r")
    case False
    then show ?thesis by (auto simp: pairStep_def ok_def Let_def)
  next
    case True
    then have ne: "rnTargets (mget zeroRun cs r) \<noteq> []" "rnTargets (mget zeroRun fs r) \<noteq> []"
      using assms(1) by (simp_all add: ok_def)
    show ?thesis using True separated_iff [OF ne]
      by (simp add: pairStep_def ok_def Let_def minimumProgress_Min [OF ne(1)]
          maximumProgress_Max [OF ne(2)] ev_def pairOf_def)
  qed
  show ?thesis
    by (induction rs rule: rev_induct) (auto simp: pairingStart_def each_append step)
qed

section \<open>Recovery by client\<close>

definition clientMaximum :: "target_result list \<Rightarrow> string \<Rightarrow> u64" where
  "clientMaximum ts c = Max ((\<lambda>t. the (RecoverySlots t)) ` {t \<in> set ts. resCLClient t = c})"

lemma clientMaximum_snoc:
  "clientMaximum (ts @ [t]) c =
     (if resCLClient t \<noteq> c then clientMaximum ts c
      else if c \<in> resCLClient ` set ts then max (the (RecoverySlots t)) (clientMaximum ts c)
      else the (RecoverySlots t))"
proof (cases "resCLClient t = c")
  case False
  then have "{u \<in> set (ts @ [t]). resCLClient u = c} = {u \<in> set ts. resCLClient u = c}" by auto
  with False show ?thesis by (simp add: clientMaximum_def)
next
  case True
  then have e: "{u \<in> set (ts @ [t]). resCLClient u = c} = insert t {u \<in> set ts. resCLClient u = c}" by auto
  have ne: "{u \<in> set ts. resCLClient u = c} = {} \<longleftrightarrow> c \<notin> resCLClient ` set ts" by auto
  show ?thesis
  proof (cases "c \<in> resCLClient ` set ts")
    case False
    then have z: "{u \<in> set ts. resCLClient u = c} = {}" using ne by blast
    show ?thesis unfolding clientMaximum_def e z using True False by simp
  next
    case c: True
    then have "{u \<in> set ts. resCLClient u = c} \<noteq> {}" using ne by blast
    then show ?thesis unfolding clientMaximum_def e using True c by simp
  qed
qed

lemma clientStep_Some:
  "RecoverySlots t = Some x \<Longrightarrow> clientStep t m = Inr (case map_of m (resCLClient t) of
     None \<Rightarrow> mput (resCLClient t) x m
   | Some y \<Rightarrow> if y < x then mput (resCLClient t) x m else m)"
  by (simp add: clientStep_def split: option.splits)

lemma each_clientStep:
  assumes "\<forall>t \<in> set ts. RecoverySlots t \<noteq> None"
  shows "\<exists>m. each clientStep ts [] = Inr m \<and> gomap m \<and>
     (\<forall>c. map_of m c = (if c \<in> resCLClient ` set ts then Some (clientMaximum ts c) else None))"
  using assms
proof (induction ts rule: rev_induct)
  case Nil
  then show ?case by simp
next
  case (snoc t ts)
  then obtain m where m: "each clientStep ts [] = Inr m" "gomap m"
    "\<And>c. map_of m c = (if c \<in> resCLClient ` set ts then Some (clientMaximum ts c) else None)"
    by auto
  obtain x where x: "RecoverySlots t = Some x" using snoc.prems by auto
  have "each clientStep (ts @ [t]) [] = clientStep t m"
    by (cases "clientStep t m") (simp_all add: each_append m(1))
  then show ?case
    by (cases "resCLClient t \<in> resCLClient ` set ts")
      (auto simp: clientStep_Some [OF x] m(2,3) clientMaximum_snoc max_def x)
qed

lemma appendValues:
  assumes "gomap m"
  shows "map_of (foldl (\<lambda>values (c, x). mput c (mget [] values c @ [x]) values) rv m) c =
     (case map_of m c of None \<Rightarrow> map_of rv c | Some x \<Rightarrow> Some (mget [] rv c @ [x]))"
  using assms
proof (induction m arbitrary: rv)
  case Nil
  then show ?case by simp
next
  case (Cons p m)
  obtain k x where p: "p = (k, x)" by (cases p)
  from Cons.prems have "gomap m" "map_of m k = None" by (auto simp: gomap_def p map_of_eq_None_iff)
  then show ?case using Cons.IH by (auto simp: p mget_def split: option.splits)
qed

lemma gomap_appendValues:
  "gomap rv \<Longrightarrow> gomap (foldl (\<lambda>values (c, x). mput c (mget [] values c @ [x]) values) rv m)"
  by (induction m arbitrary: rv) (auto split: prod.splits)

text \<open>The values of a client: the largest recovery in each faulty run that has the client.\<close>

definition clientValues :: "run_summary list \<Rightarrow> string \<Rightarrow> u64 list" where
  "clientValues runs c = map (\<lambda>run. clientMaximum (rnTargets run) c)
     (filter (\<lambda>run. c \<in> resCLClient ` set (rnTargets run)) runs)"

lemma each_recoveryStep:
  assumes "\<forall>run \<in> snd ` set faults. \<forall>t \<in> set (rnTargets run). RecoverySlots t \<noteq> None"
  shows "\<exists>m. each recoveryStep faults [] = Inr m \<and> gomap m \<and>
     (\<forall>c. map_of m c = (if clientValues (map snd faults) c = [] then None else Some (clientValues (map snd faults) c)))"
  using assms
proof (induction faults rule: rev_induct)
  case Nil
  then show ?case by (simp add: clientValues_def)
next
  case (snoc f fs)
  then obtain m where m: "each recoveryStep fs [] = Inr m" "gomap m"
    "\<And>c. map_of m c = (if clientValues (map snd fs) c = [] then None else Some (clientValues (map snd fs) c))"
    by auto
  from snoc.prems have "\<forall>t \<in> set (rnTargets (snd f)). RecoverySlots t \<noteq> None" by simp
  from each_clientStep [OF this] obtain k where k: "each clientStep (rnTargets (snd f)) [] = Inr k" "gomap k"
    "\<And>c. map_of k c = (if c \<in> resCLClient ` set (rnTargets (snd f)) then Some (clientMaximum (rnTargets (snd f)) c) else None)"
    by auto
  have "each recoveryStep (fs @ [f]) [] =
      Inr (foldl (\<lambda>values (c, x). mput c (mget [] values c @ [x]) values) m k)"
    using m(1) k(1) by (cases f) (simp add: each_append recoveryStep_def)
  moreover have "mget [] m c = clientValues (map snd fs) c" for c by (simp add: mget_def m(3))
  moreover have "clientValues (map snd (fs @ [f])) c = clientValues (map snd fs) c @
      (if c \<in> resCLClient ` set (rnTargets (snd f)) then [clientMaximum (rnTargets (snd f)) c] else [])" for c
    by (simp add: clientValues_def)
  ultimately show ?case
    by (simp add: m(2,3) k(2,3) appendValues gomap_appendValues)
qed

lemma summarize_mset: "mset xs = mset ys \<Longrightarrow> summarize xs = summarize ys"
proof -
  assume m: "mset xs = mset ys"
  have "sort xs = sort ys" using m by (metis mset_sort sorted_sort properties_for_sort)
  then show ?thesis using mset_eq_length [OF m] by (simp add: summarize_def)
qed

lemma recoveryStatistics_values:
  assumes "\<forall>run \<in> snd ` set faults. \<forall>t \<in> set (rnTargets run). RecoverySlots t \<noteq> None"
  shows "\<exists>out. recoveryStatistics faults = Inr out \<and> (\<forall>c. map_of out c =
     (if clientValues (map snd faults) c = [] then None else Some (summarize (clientValues (map snd faults) c))))"
proof -
  from each_recoveryStep [OF assms] obtain m where m: "each recoveryStep faults [] = Inr m" "gomap m"
    "\<And>c. map_of m c = (if clientValues (map snd faults) c = [] then None else Some (clientValues (map snd faults) c))"
    by auto
  have "foldl (\<lambda>out (client, values). mput client (summarize values) out) [] m = map (\<lambda>(k, v). (k, summarize v)) m"
    by (rule foldl_mput_map [OF m(2)])
  then show ?thesis using m(1,3) by (auto simp: recoveryStatistics_def map_of_map)
qed

section \<open>Gate C\<close>

definition recoveryAt :: "recovery_map \<Rightarrow> string \<Rightarrow> string \<Rightarrow> u64 option" where
  "recoveryAt m g c = map_of (mget [] m g) c"

abbreviation sideOf :: "target_result \<Rightarrow> string \<times> string" where
  "sideOf t \<equiv> (resGroup t, resCLClient t)"

lemma find_fresh: "f t \<notin> f ` set ts \<Longrightarrow> find (\<lambda>u. f u = f t) ts = None"
  by (auto simp: find_None_iff image_iff)

lemma recoveryFrom_at:
  assumes "\<forall>t \<in> set ts. RecoverySlots t \<noteq> None" "distinct (map sideOf ts)"
    and "\<forall>t \<in> set ts. recoveryAt m (resGroup t) (resCLClient t) = None"
  shows "\<exists>m'. recoveryFrom m ts = Some m' \<and> (\<forall>g c. recoveryAt m' g c =
     (case find (\<lambda>t. sideOf t = (g, c)) ts of None \<Rightarrow> recoveryAt m g c | Some t \<Rightarrow> RecoverySlots t))"
  using assms
proof (induction ts arbitrary: m)
  case Nil
  then show ?case by simp
next
  case (Cons t ts)
  obtain x where x: "RecoverySlots t = Some x" using Cons.prems(1) by auto
  let ?m = "mput (resGroup t) (mput (resCLClient t) x (mget [] m (resGroup t))) m"
  have at: "recoveryAt ?m g c = (if sideOf t = (g, c) then Some x else recoveryAt m g c)" for g c
    by (auto simp: recoveryAt_def mget_def)
  have fresh: "recoveryAt ?m (resGroup u) (resCLClient u) = None" if "u \<in> set ts" for u
    using Cons.prems(2,3) that by (force simp: at)
  have "\<exists>m'. recoveryFrom ?m ts = Some m' \<and> (\<forall>g c. recoveryAt m' g c =
     (case find (\<lambda>t. sideOf t = (g, c)) ts of None \<Rightarrow> recoveryAt ?m g c | Some t \<Rightarrow> RecoverySlots t))"
    by (rule Cons.IH) (use Cons.prems fresh in auto)
  then obtain m' where m': "recoveryFrom ?m ts = Some m'"
    "\<And>g c. recoveryAt m' g c =
     (case find (\<lambda>t. sideOf t = (g, c)) ts of None \<Rightarrow> recoveryAt ?m g c | Some t \<Rightarrow> RecoverySlots t)" by blast
  have none: "find (\<lambda>u. sideOf u = sideOf t) ts = None"
    by (rule find_fresh) (use Cons.prems(2) in simp)
  have "recoveryFrom m (t # ts) = Some m'"
    using m'(1) Cons.prems(3) by (simp add: x recoveryAt_def)
  moreover have "recoveryAt m' g c =
     (case find (\<lambda>t. sideOf t = (g, c)) (t # ts) of None \<Rightarrow> recoveryAt m g c | Some t \<Rightarrow> RecoverySlots t)" for g c
    using none at [of g c] by (cases "sideOf t = (g, c)") (auto simp: m'(2) x split: option.splits)
  ultimately show ?case by blast
qed

text \<open>The sign of a difference that reaches the threshold of one slot.\<close>

definition sign :: "u64 \<Rightarrow> u64 \<Rightarrow> int" where
  "sign left right = (if right < left then 1 else if left < right then -1 else 0)"

lemma differenceDirection_1:
  "differenceDirection left right 1 = (if sign left right = -1 then -1 else 1, sign left right \<noteq> 0)"
proof -
  have pos: "(1 \<le> x) \<longleftrightarrow> x \<noteq> 0" for x :: u64
    using word_gt_0 [of x] inc_le [of 0 x] by auto
  show ?thesis by (auto simp: differenceDirection_def sign_def pos not_le)
qed

definition sideSign :: "string \<Rightarrow> string \<Rightarrow> recovery_map \<Rightarrow> fault_group \<Rightarrow> int" where
  "sideSign c0 c1 m g = sign (mget 0 (mget [] m (groupName g)) c0) (mget 0 (mget [] m (groupName g)) c1)"

lemma sideStep_Inr:
  assumes "d' \<in> {1, -1}" "d \<in> {0, 1, -1}"
  shows "sideStep c0 c1 1 m g d = Inr d' \<longleftrightarrow> sideSign c0 c1 m g = d' \<and> (d = 0 \<or> d = d')"
  using assms by (auto simp: sideStep_def differenceDirection_1 sideSign_def sign_def Let_def)

lemma sideStep_range: "d \<in> {0, 1, -1} \<Longrightarrow> sideStep c0 c1 1 m g d = Inr d' \<Longrightarrow> d' \<in> {1, -1}"
  by (auto simp: sideStep_def differenceDirection_1 Let_def split: if_splits)

text \<open>
  A loop that fixes a direction in its first step and keeps it: it ends in a direction exactly
  when all steps have it.
\<close>

lemma each_direction:
  assumes step: "\<And>x d d'. d' \<in> {1, -1} \<Longrightarrow> d \<in> {0, 1, -1} \<Longrightarrow>
      f x d = Inr d' \<longleftrightarrow> P x d' \<and> (d = 0 \<or> d = d')"
    and range: "\<And>x d d'. d \<in> {0, 1, -1} \<Longrightarrow> f x d = Inr d' \<Longrightarrow> d' \<in> {1, -1 :: int}"
    and d: "d \<in> {0, 1, -1}" and d': "d' \<in> {1, -1}" and ne: "xs \<noteq> []"
  shows "each f xs d = Inr d' \<longleftrightarrow> (\<forall>x \<in> set xs. P x d') \<and> (d = 0 \<or> d = d')"
  using d ne
proof (induction xs arbitrary: d)
  case (Cons x xs)
  show ?case
  proof (cases "xs = []")
    case True
    then show ?thesis using step [OF d' Cons.prems(1), of x] by (auto simp: bindR_Inr_iff)
  next
    case False
    have "each f (x # xs) d = Inr d' \<longleftrightarrow> (\<exists>e. f x d = Inr e \<and> each f xs e = Inr d')"
      by (simp add: bindR_Inr_iff)
    also have "\<dots> \<longleftrightarrow> (\<exists>e \<in> {1, -1}. f x d = Inr e \<and> (\<forall>x \<in> set xs. P x d') \<and> e = d')"
    proof (intro iffI; elim exE conjE bexE)
      fix e assume e: "f x d = Inr e" "each f xs e = Inr d'"
      have "e \<in> {1, -1}" by (rule range [OF Cons.prems(1) e(1)])
      with e Cons.IH [of e, OF _ False] show "\<exists>e \<in> {1, -1}. f x d = Inr e \<and> (\<forall>x \<in> set xs. P x d') \<and> e = d'"
        by auto
    next
      fix e assume "e \<in> {1, -1}" "f x d = Inr e" "\<forall>x \<in> set xs. P x d'" "e = d'"
      with Cons.IH [of e, OF _ False] show "\<exists>e. f x d = Inr e \<and> each f xs e = Inr d'" by auto
    qed
    also have "\<dots> \<longleftrightarrow> f x d = Inr d' \<and> (\<forall>x \<in> set xs. P x d')" using d' by auto
    finally show ?thesis using step [OF d' Cons.prems(1), of x] by auto
  qed
qed simp

lemma each_range:
  assumes "\<And>x d d'. d \<in> D \<Longrightarrow> f x d = Inr d' \<Longrightarrow> d' \<in> E" "E \<subseteq> D" "xs \<noteq> []" "d \<in> D" "each f xs d = Inr d'"
  shows "d' \<in> E"
  using assms(3-5)
proof (induction xs arbitrary: d)
  case (Cons x xs)
  then obtain e where e: "f x d = Inr e" "each f xs e = Inr d'" by (auto simp: bindR_Inr_iff)
  with assms(1) [OF Cons.prems(2) e(1)] assms(2) Cons.IH [of e] show ?case by (cases "xs = []") auto
qed simp

lemma repetitionStep_Inr:
  assumes "adjudicable s" "d' \<in> {1, -1}" "d \<in> {0, 1, -1}"
  shows "repetitionStep s c0 c1 cs fs r d = Inr d' \<longleftrightarrow>
     (uniformProgress (rnTargets (mget zeroRun cs r)) \<and>
      (\<exists>m. recoveryByGroupAndClient (rnTargets (mget zeroRun fs r)) = Some m \<and>
         (\<forall>g \<in> set (Groups (scFault s)). sideSign c0 c1 m g = d'))) \<and> (d = 0 \<or> d = d')"
proof -
  have th: "ClientRecoveryDifferenceSlots (scThresholds s) = 1" using assms(1) by (simp add: adjudicable_def)
  have ne: "Groups (scFault s) \<noteq> []" using assms(1) by (auto simp: adjudicable_def sides_def)
  have "each (sideStep c0 c1 1 m) (Groups (scFault s)) d = Inr d' \<longleftrightarrow>
      (\<forall>g \<in> set (Groups (scFault s)). sideSign c0 c1 m g = d') \<and> (d = 0 \<or> d = d')" for m
    by (rule each_direction [OF sideStep_Inr sideStep_range assms(3,2) ne])
  then show ?thesis
    by (auto simp: repetitionStep_def th split: option.splits)
qed

lemma repetitionStep_range:
  assumes "adjudicable s" "d \<in> {0, 1, -1}" "repetitionStep s c0 c1 cs fs r d = Inr d'"
  shows "d' \<in> {1, -1}"
proof -
  have th: "ClientRecoveryDifferenceSlots (scThresholds s) = 1" using assms(1) by (simp add: adjudicable_def)
  have ne: "Groups (scFault s) \<noteq> []" using assms(1) by (auto simp: adjudicable_def sides_def)
  from assms(3) obtain m where "each (sideStep c0 c1 1 m) (Groups (scFault s)) d = Inr d'"
    by (auto simp: repetitionStep_def th split: if_splits option.splits)
  from each_range [OF sideStep_range _ ne assms(2) this] show ?thesis by auto
qed

subsection \<open>Two clients, one of each on both sides\<close>

definition inGroup :: "scenario \<Rightarrow> fault_group \<Rightarrow> participant set" where
  "inGroup s g = {p \<in> set (scParticipants s). pID p \<in> set (groupParticipants g)}"

lemma two_clients:
  assumes "adjudicable s"
  shows "card (CLClient ` set (scParticipants s)) = 2"
    and "g \<in> set (Groups (scFault s)) \<Longrightarrow> inj_on CLClient (inGroup s g)"
    and "g \<in> set (Groups (scFault s)) \<Longrightarrow> CLClient ` inGroup s g = CLClient ` set (scParticipants s)"
proof -
  let ?P = "set (scParticipants s)" and ?C = "CLClient ` set (scParticipants s)"
  from assms obtain g1 g2 where sd: "sides s g1 g2" and g: "Groups (scFault s) = [g1, g2]"
    by (auto simp: adjudicable_def sides_def)
  have img: "CLClient ` inGroup s g = ?C" if "g \<in> {g1, g2}" for g
  proof
    show "CLClient ` inGroup s g \<subseteq> ?C" by (auto simp: inGroup_def)
    have "groupHasAllClients s g" using that assms g by (auto simp: adjudicable_def)
    then have has: "\<exists>q \<in> inGroup s g. CLClient q = CLClient p" if "p \<in> ?P" for p
      using that by (auto simp: groupHasAllClients_def inGroup_def)
    show "?C \<subseteq> CLClient ` inGroup s g"
    proof
      fix c assume "c \<in> ?C"
      then obtain p where "p \<in> ?P" "CLClient p = c" by auto
      with has [of p] show "c \<in> CLClient ` inGroup s g" by (metis imageI)
    qed
  qed
  then show "g \<in> set (Groups (scFault s)) \<Longrightarrow> CLClient ` inGroup s g = ?C" by (simp add: g)
  have fin: "finite (inGroup s g)" for g by (simp add: inGroup_def)
  have "distinct (scParticipants s)" using assms by (simp add: adjudicable_def distinct_map)
  then have c4: "card ?P = 4" using assms by (simp add: adjudicable_def distinct_card)
  have "?P = inGroup s g1 \<union> inGroup s g2" "inGroup s g1 \<inter> inGroup s g2 = {}"
    using sd by (auto simp: sides_def inGroup_def)
  then have sum: "card (inGroup s g1) + card (inGroup s g2) = 4"
    using c4 card_Un_disjoint [OF fin fin, of g1 g2] by simp
  have le: "card ?C \<le> card (inGroup s g)" if "g \<in> {g1, g2}" for g
    using card_image_le [OF fin, of CLClient g] img [OF that] by simp
  have two: "2 \<le> card ?C" using assms by (simp add: adjudicable_def)
  show c2: "card ?C = 2" using sum le [of g1] le [of g2] two by simp
  have cards: "card (CLClient ` inGroup s g) = card (inGroup s g)" if "g \<in> {g1, g2}" for g
    using that sum le [of g1] le [of g2] c2 img [OF that] by auto
  show "inj_on CLClient (inGroup s g)" if "g \<in> set (Groups (scFault s))"
    by (rule eq_card_imp_inj_on [OF fin cards]) (use that g in simp)
qed

lemma clients_pair:
  assumes "adjudicable s"
  obtains c0 c1 where "CLClients s = [c0, c1]" "c0 \<noteq> c1" "CLClient ` set (scParticipants s) = {c0, c1}"
proof -
  have set_eq: "set (CLClients s) = CLClient ` set (scParticipants s)" by (simp add: CLClients_def)
  have d: "distinct (CLClients s)" by (simp add: CLClients_def)
  then have "length (CLClients s) = 2" using two_clients(1) [OF assms] set_eq by (metis distinct_card)
  then obtain c0 c1 where "CLClients s = [c0, c1]" by (auto simp: length_Suc_conv eval_nat_numeral)
  with d set_eq that show thesis by simp
qed

lemma window_sides:
  assumes "adjudicable s" "validWindow s run"
  shows "distinct (map sideOf (rnTargets run))"
    and "set (map sideOf (rnTargets run)) = groupName ` set (Groups (scFault s)) \<times> CLClient ` set (scParticipants s)"
proof -
  let ?ts = "rnTargets run"
  from assms(1) obtain g1 g2 where sd: "sides s g1 g2" and g: "Groups (scFault s) = [g1, g2]"
    by (auto simp: adjudicable_def sides_def)
  have db: "distinct (map BeaconTarget (scParticipants s))" using assms(1) by (simp add: adjudicable_def)
  have m: "mset (map resTarget ?ts) = mset (map BeaconTarget (scParticipants s))"
    using assms(2) by (simp add: validWindow_def)
  have dt: "distinct (map resTarget ?ts)" using m db mset_eq_imp_distinct_iff by blast
  have grp: "h = h'" if "h \<in> {g1, g2}" "h' \<in> {g1, g2}"
      "groupName h = groupName h' \<or> i \<in> set (groupParticipants h) \<inter> set (groupParticipants h')" for h h' i
    using that sd by (auto simp: sides_def)
  have at: "\<exists>p h. h \<in> {g1, g2} \<and> p \<in> inGroup s h \<and> BeaconTarget p = resTarget t \<and>
      sideOf t = (groupName h, CLClient p)" if "t \<in> set ?ts" for t
    using assms(2) that unfolding validWindow_def list_all_iff validTarget_def g inGroup_def by fastforce
  have "inj_on sideOf (set ?ts)"
  proof (rule inj_onI)
    fix t u assume t: "t \<in> set ?ts" and u: "u \<in> set ?ts" and eq: "sideOf t = sideOf u"
    from at [OF t] obtain p h where p: "h \<in> {g1, g2}" "p \<in> inGroup s h" "BeaconTarget p = resTarget t"
      "sideOf t = (groupName h, CLClient p)" by blast
    from at [OF u] obtain q h' where q: "h' \<in> {g1, g2}" "q \<in> inGroup s h'" "BeaconTarget q = resTarget u"
      "sideOf u = (groupName h', CLClient q)" by blast
    have cl: "groupName h = groupName h'" "CLClient p = CLClient q" using eq p(4) q(4) by simp_all
    then have "h = h'" using grp p(1) q(1) by blast
    moreover have "inj_on CLClient (inGroup s h)" using two_clients(2) [OF assms(1)] p(1) g by auto
    ultimately have "p = q" using p(2) q(2) cl(2) by (auto dest: inj_onD)
    then have "resTarget t = resTarget u" using p(3) q(3) by simp
    then show "t = u" using dt t u by (auto simp: distinct_map dest: inj_onD)
  qed
  moreover have "distinct ?ts" using dt by (simp add: distinct_map)
  ultimately show "distinct (map sideOf ?ts)" by (simp add: distinct_map)
  show "set (map sideOf ?ts) = groupName ` set (Groups (scFault s)) \<times> CLClient ` set (scParticipants s)"
  proof (intro equalityI subsetI)
    fix x assume "x \<in> set (map sideOf ?ts)"
    then obtain t where t: "t \<in> set ?ts" "x = sideOf t" by auto
    from at [OF t(1)] obtain p h where p: "h \<in> {g1, g2}" "p \<in> inGroup s h" "sideOf t = (groupName h, CLClient p)" by blast
    show "x \<in> groupName ` set (Groups (scFault s)) \<times> CLClient ` set (scParticipants s)"
      unfolding t(2) p(3) g using p(1,2) by (auto simp: inGroup_def)
  next
    fix x assume "x \<in> groupName ` set (Groups (scFault s)) \<times> CLClient ` set (scParticipants s)"
    then obtain h c where h: "h \<in> {g1, g2}" "x = (groupName h, c)" "c \<in> CLClient ` inGroup s h"
      using two_clients(3) [OF assms(1)] by (auto simp: g)
    then obtain p where p: "p \<in> inGroup s h" "CLClient p = c" by auto
    then have "BeaconTarget p \<in> set (map resTarget ?ts)" using mset_eq_setD [OF m] by (auto simp: inGroup_def)
    then obtain t where t: "t \<in> set ?ts" "resTarget t = BeaconTarget p" by auto
    from at [OF t(1)] obtain q h' where q: "h' \<in> {g1, g2}" "q \<in> inGroup s h'" "BeaconTarget q = BeaconTarget p"
      "sideOf t = (groupName h', CLClient q)" unfolding t(2) by blast
    have "q = p" using q(2,3) p(1) db by (auto simp: inGroup_def distinct_map dest: inj_onD)
    moreover from this have "h' = h" using grp [OF q(1) h(1), of "pID p"] q(2) p(1) by (auto simp: inGroup_def)
    ultimately have "sideOf t = x" using q(4) h(2) p(2) by simp
    then show "x \<in> set (map sideOf ?ts)" using t(1) by force
  qed
qed

lemma recovery_sides:
  assumes "adjudicable s" "validWindow s run" "\<forall>t \<in> set (rnTargets run). RecoverySlots t \<noteq> None"
  shows "\<exists>m. recoveryByGroupAndClient (rnTargets run) = Some m \<and>
     (\<forall>t \<in> set (rnTargets run). mget 0 (mget [] m (resGroup t)) (resCLClient t) = the (RecoverySlots t))"
proof -
  have d: "distinct (map sideOf (rnTargets run))" by (rule window_sides(1) [OF assms(1,2)])
  have "\<exists>m. recoveryFrom [] (rnTargets run) = Some m \<and> (\<forall>g c. recoveryAt m g c =
     (case find (\<lambda>t. sideOf t = (g, c)) (rnTargets run) of None \<Rightarrow> recoveryAt [] g c | Some t \<Rightarrow> RecoverySlots t))"
    by (rule recoveryFrom_at [OF assms(3) d]) (simp add: recoveryAt_def mget_def)
  then obtain m where m: "recoveryFrom [] (rnTargets run) = Some m" "\<And>g c. recoveryAt m g c =
     (case find (\<lambda>t. sideOf t = (g, c)) (rnTargets run) of None \<Rightarrow> recoveryAt [] g c | Some t \<Rightarrow> RecoverySlots t)"
    by blast
  have "mget 0 (mget [] m (resGroup t)) (resCLClient t) = the (RecoverySlots t)" if "t \<in> set (rnTargets run)" for t
  proof -
    have "find (\<lambda>u. sideOf u = sideOf t) (rnTargets run) = Some t" by (rule find_distinct [OF d that])
    then have "recoveryAt m (resGroup t) (resCLClient t) = RecoverySlots t" by (simp add: m(2))
    then show ?thesis using assms(3) that by (auto simp: recoveryAt_def mget_def split: option.splits)
  qed
  then show ?thesis using m(1) by (auto simp: recoveryByGroupAndClient_def)
qed

text \<open>On both sides the target of one client recovered later than the target of the other.\<close>

definition laterOnBothSides :: "run_summary \<Rightarrow> string \<Rightarrow> string \<Rightarrow> bool" where
  "laterOnBothSides run slow fast \<longleftrightarrow> (\<forall>t \<in> set (rnTargets run). \<forall>u \<in> set (rnTargets run).
     resGroup t = resGroup u \<and> resCLClient t = slow \<and> resCLClient u = fast \<longrightarrow>
     the (RecoverySlots u) < the (RecoverySlots t))"

lemma sideSigns:
  assumes "adjudicable s" "validWindow s run" "\<forall>t \<in> set (rnTargets run). RecoverySlots t \<noteq> None"
    and c: "c0 \<in> CLClient ` set (scParticipants s)" "c1 \<in> CLClient ` set (scParticipants s)"
    and m: "recoveryByGroupAndClient (rnTargets run) = Some m"
  shows "(\<forall>g \<in> set (Groups (scFault s)). sideSign c0 c1 m g = 1) \<longleftrightarrow> laterOnBothSides run c0 c1"
    and "(\<forall>g \<in> set (Groups (scFault s)). sideSign c0 c1 m g = -1) \<longleftrightarrow> laterOnBothSides run c1 c0"
proof -
  let ?ts = "rnTargets run"
  from recovery_sides [OF assms(1-3)] m
  have at: "mget 0 (mget [] m (resGroup t)) (resCLClient t) = the (RecoverySlots t)" if "t \<in> set ?ts" for t
    using that by auto
  note all = window_sides(2) [OF assms(1,2)]
  have ex: "\<exists>t \<in> set ?ts. resGroup t = groupName g \<and> resCLClient t = c"
    if "g \<in> set (Groups (scFault s))" "c \<in> CLClient ` set (scParticipants s)" for g c
  proof -
    have "(groupName g, c) \<in> set (map sideOf ?ts)" unfolding all using that by blast
    then show ?thesis by auto
  qed
  have sign1: "sign a b = 1 \<longleftrightarrow> b < a" "sign a b = -1 \<longleftrightarrow> a < b" for a b by (auto simp: sign_def)
  have grp: "resGroup t \<in> groupName ` set (Groups (scFault s))" if "t \<in> set ?ts" for t
  proof -
    have "sideOf t \<in> set (map sideOf ?ts)" using that by simp
    then show ?thesis unfolding all by blast
  qed
  have main: "(\<forall>g \<in> set (Groups (scFault s)). R (mget 0 (mget [] m (groupName g)) a) (mget 0 (mget [] m (groupName g)) b)) \<longleftrightarrow>
      (\<forall>t \<in> set ?ts. \<forall>u \<in> set ?ts. resGroup t = resGroup u \<and> resCLClient t = a \<and> resCLClient u = b \<longrightarrow>
        R (the (RecoverySlots t)) (the (RecoverySlots u)))"
    if ab: "a \<in> CLClient ` set (scParticipants s)" "b \<in> CLClient ` set (scParticipants s)" for R a b
  proof (intro iffI ballI impI)
    fix t u assume *: "\<forall>g \<in> set (Groups (scFault s)). R (mget 0 (mget [] m (groupName g)) a) (mget 0 (mget [] m (groupName g)) b)"
      and t: "t \<in> set ?ts" "u \<in> set ?ts" "resGroup t = resGroup u \<and> resCLClient t = a \<and> resCLClient u = b"
    from grp [OF t(1)] obtain g where "g \<in> set (Groups (scFault s))" "resGroup t = groupName g" by blast
    with * at [OF t(1)] at [OF t(2)] t(3) show "R (the (RecoverySlots t)) (the (RecoverySlots u))" by auto
  next
    fix g assume *: "\<forall>t \<in> set ?ts. \<forall>u \<in> set ?ts. resGroup t = resGroup u \<and> resCLClient t = a \<and> resCLClient u = b \<longrightarrow>
        R (the (RecoverySlots t)) (the (RecoverySlots u))" and g: "g \<in> set (Groups (scFault s))"
    from ex [OF g ab(1)] obtain t where t: "t \<in> set ?ts" "resGroup t = groupName g" "resCLClient t = a" by blast
    from ex [OF g ab(2)] obtain u where u: "u \<in> set ?ts" "resGroup u = groupName g" "resCLClient u = b" by blast
    from * t u have "R (the (RecoverySlots t)) (the (RecoverySlots u))" by simp
    then show "R (mget 0 (mget [] m (groupName g)) a) (mget 0 (mget [] m (groupName g)) b)"
      using at [OF t(1)] at [OF u(1)] t u by simp
  qed
  show "(\<forall>g \<in> set (Groups (scFault s)). sideSign c0 c1 m g = 1) \<longleftrightarrow> laterOnBothSides run c0 c1"
    unfolding sideSign_def sign1 laterOnBothSides_def by (rule main [OF c, of "\<lambda>x y. y < x"])
  show "(\<forall>g \<in> set (Groups (scFault s)). sideSign c0 c1 m g = -1) \<longleftrightarrow> laterOnBothSides run c1 c0"
    unfolding sideSign_def sign1 laterOnBothSides_def main [OF c, of "\<lambda>x y. x < y"] by auto
qed

section \<open>The verdict\<close>

abbreviation controlRun :: "run_summary list \<Rightarrow> u64 \<Rightarrow> run_summary" where
  "controlRun runs r \<equiv> namedRun runs (runName ConditionControl r)"

abbreviation faultRun :: "run_summary list \<Rightarrow> u64 \<Rightarrow> run_summary" where
  "faultRun runs r \<equiv> namedRun runs (runName ConditionFault r)"

definition effectShown :: "scenario \<Rightarrow> run_summary list \<Rightarrow> bool" where
  "effectShown s runs \<longleftrightarrow> (\<forall>r \<in> set repetitions. validWindow s (controlRun runs r) \<and>
     validWindow s (faultRun runs r) \<and> separated (controlRun runs r) (faultRun runs r))"

definition recoveryComplete :: "run_summary list \<Rightarrow> bool" where
  "recoveryComplete runs \<longleftrightarrow> (\<forall>r \<in> set repetitions. RecoveryMeasurementComplete (faultRun runs r))"

definition predictionMatched :: "run_summary list \<Rightarrow> bool" where
  "predictionMatched runs \<longleftrightarrow> (\<forall>r \<in> set repetitions. \<forall>t \<in> set (rnTargets (faultRun runs r)).
     FinalizedEpochProgress t = 0 \<and> RecoverySlots t \<noteq> None)"

text \<open>One client recovered later than the other, everywhere, and the controls show no skew.\<close>

definition clientLater :: "scenario \<Rightarrow> run_summary list \<Rightarrow> string \<Rightarrow> string \<Rightarrow> bool" where
  "clientLater s runs slow fast \<longleftrightarrow> slow \<noteq> fast \<and> CLClient ` set (scParticipants s) = {slow, fast} \<and>
     (\<forall>r \<in> set repetitions. uniformProgress (rnTargets (controlRun runs r)) \<and>
        laterOnBothSides (faultRun runs r) slow fast)"

text \<open>The records of the runs by condition, as the analysis keeps them.\<close>

definition conditionRuns :: "string \<Rightarrow> scenario \<Rightarrow> run_summary list \<Rightarrow> (u64, run_summary) gomap" where
  "conditionRuns c s runs = runsWith c (map (namedRun runs) (RunOrder (scMethodology s)))"

lemma conditionRuns_get:
  assumes "adjudicable s" "acceptedRuns s runs" "r \<in> set repetitions"
  shows "mget zeroRun (conditionRuns ConditionControl s runs) r = controlRun runs r"
    "mget zeroRun (conditionRuns ConditionFault s runs) r = faultRun runs r"
  using runsWith_named(3) [OF assms(1,2)] assms(3) by (simp_all add: conditionRuns_def)

lemma snd_faults:
  assumes "adjudicable s" "acceptedRuns s runs"
  shows "snd ` set (conditionRuns ConditionFault s runs) = faultRun runs ` set repetitions"
  using runsWith_named(1) [OF assms, of ConditionFault] by (simp add: conditionRuns_def image_image)

lemma evaluateGateC_True:
  assumes "adjudicable s" "acceptedRuns s runs"
    and v: "\<And>r. r \<in> set repetitions \<Longrightarrow> validWindow s (faultRun runs r)" and p: "predictionMatched runs"
  shows "evaluateGateC s (conditionRuns ConditionControl s runs) (conditionRuns ConditionFault s runs) = (True, reason) \<longleftrightarrow>
     (\<exists>slow fast. clientLater s runs slow fast \<and> reason = reasonSlower slow 1)"
proof -
  let ?cs = "conditionRuns ConditionControl s runs" and ?fs = "conditionRuns ConditionFault s runs"
  from clients_pair [OF assms(1)] obtain c0 c1 where c: "CLClients s = [c0, c1]" "c0 \<noteq> c1"
    "CLClient ` set (scParticipants s) = {c0, c1}" by blast
  have th: "ClientRecoveryDifferenceSlots (scThresholds s) = 1" using assms(1) by (simp add: adjudicable_def)
  have ne: "repetitions \<noteq> []" by (simp add: repetitions_def)
  have signs: "(\<exists>m. recoveryByGroupAndClient (rnTargets (faultRun runs r)) = Some m \<and>
         (\<forall>g \<in> set (Groups (scFault s)). sideSign c0 c1 m g = d)) \<longleftrightarrow>
      (if d = 1 then laterOnBothSides (faultRun runs r) c0 c1 else laterOnBothSides (faultRun runs r) c1 c0)"
    if "r \<in> set repetitions" "d \<in> {1, -1}" for r d
  proof -
    have rec: "\<forall>t \<in> set (rnTargets (faultRun runs r)). RecoverySlots t \<noteq> None"
      using p that(1) by (auto simp: predictionMatched_def)
    from recovery_sides [OF assms(1) v [OF that(1)] rec] obtain m where
      m: "recoveryByGroupAndClient (rnTargets (faultRun runs r)) = Some m" by blast
    from sideSigns [OF assms(1) v [OF that(1)] rec _ _ m, of c0 c1] show ?thesis
      using that(2) m by (auto simp: c(3))
  qed
  have dir: "each (repetitionStep s c0 c1 ?cs ?fs) repetitions 0 = Inr d \<longleftrightarrow>
      (if d = 1 then clientLater s runs c0 c1 else clientLater s runs c1 c0)" if d: "d \<in> {1, -1}" for d
  proof -
    have "each (repetitionStep s c0 c1 ?cs ?fs) repetitions 0 = Inr d \<longleftrightarrow>
        (\<forall>r \<in> set repetitions. uniformProgress (rnTargets (mget zeroRun ?cs r)) \<and>
          (\<exists>m. recoveryByGroupAndClient (rnTargets (mget zeroRun ?fs r)) = Some m \<and>
            (\<forall>g \<in> set (Groups (scFault s)). sideSign c0 c1 m g = d))) \<and> (0 = (0 :: int) \<or> 0 = d)"
      by (rule each_direction [OF repetitionStep_Inr [OF assms(1)] repetitionStep_range [OF assms(1)] _ d ne]) simp_all
    also have "\<dots> \<longleftrightarrow> (\<forall>r \<in> set repetitions. uniformProgress (rnTargets (controlRun runs r)) \<and>
        (if d = 1 then laterOnBothSides (faultRun runs r) c0 c1 else laterOnBothSides (faultRun runs r) c1 c0))"
      using signs [OF _ d] conditionRuns_get [OF assms(1,2)] by auto
    finally show ?thesis using c(2,3) by (auto simp: clientLater_def)
  qed
  have only: "clientLater s runs slow fast \<Longrightarrow> (slow = c0 \<and> fast = c1) \<or> (slow = c1 \<and> fast = c0)" for slow fast
    using c(2,3) by (auto simp: clientLater_def doubleton_eq_iff)
  have eval: "evaluateGateC s ?cs ?fs = (case each (repetitionStep s c0 c1 ?cs ?fs) repetitions 0 of
      Inl reason \<Rightarrow> (False, reason) | Inr d \<Rightarrow> (True, reasonSlower (if d < 0 then c1 else c0) 1))"
    unfolding evaluateGateC_def Let_def c(1) th by (simp split: sum.split)
  have rng: "d \<in> {1, -1}" if "each (repetitionStep s c0 c1 ?cs ?fs) repetitions 0 = Inr d" for d
  proof (rule each_range [where D = "{0, 1, -1}" and d = 0 and xs = repetitions and f = "repetitionStep s c0 c1 ?cs ?fs"])
    show "d' \<in> {1, -1}" if "d \<in> {0, 1, -1}" "repetitionStep s c0 c1 ?cs ?fs x d = Inr d'" for x d d'
      by (rule repetitionStep_range [OF assms(1) that])
  qed (use ne that in auto)
  show ?thesis
  proof
    assume "evaluateGateC s ?cs ?fs = (True, reason)"
    then obtain d where d: "each (repetitionStep s c0 c1 ?cs ?fs) repetitions 0 = Inr d"
      "reason = reasonSlower (if d < 0 then c1 else c0) 1" unfolding eval by (auto split: sum.splits)
    from dir [OF rng [OF d(1)]] rng [OF d(1)] d show "\<exists>slow fast. clientLater s runs slow fast \<and> reason = reasonSlower slow 1"
      by (auto split: if_splits)
  next
    assume "\<exists>slow fast. clientLater s runs slow fast \<and> reason = reasonSlower slow 1"
    then obtain slow fast where l: "clientLater s runs slow fast" "reason = reasonSlower slow 1" by blast
    define d :: int where "d = (if slow = c0 then 1 else -1)"
    have "each (repetitionStep s c0 c1 ?cs ?fs) repetitions 0 = Inr d"
      using dir [of d] l(1) only [OF l(1)] c(2) by (auto simp: d_def)
    then show "evaluateGateC s ?cs ?fs = (True, reason)"
      unfolding eval using l(2) only [OF l(1)] c(2) by (auto simp: d_def)
  qed
qed


subsection \<open>What an analysis has established\<close>

definition pairRecord :: "scenario \<Rightarrow> run_summary list \<Rightarrow> analysis \<Rightarrow> bool" where
  "pairRecord s runs a \<longleftrightarrow>
     (let valid = filter (\<lambda>r. validWindow s (controlRun runs r) \<and> validWindow s (faultRun runs r)) repetitions;
          pair = pairOf (controlRun runs) (faultRun runs) in
      Pairs a = map pair valid \<and>
      ControlMinimumProgress a = summarize (map (\<lambda>r. peControlMinimumProgress (pair r)) valid) \<and>
      FaultMaximumProgress a = summarize (map (\<lambda>r. peFaultMaximumProgress (pair r)) valid))"

lemma validWindow_targets: "adjudicable s \<Longrightarrow> validWindow s run \<Longrightarrow> rnTargets run \<noteq> []"
  by (auto simp: validWindow_def adjudicable_def)

lemma pairing_result:
  assumes "adjudicable s" "acceptedRuns s runs"
  shows "\<exists>p. each (pairStep (primaryWindowValid (participantByTarget s) (groupByParticipant s))
       (conditionRuns ConditionControl s runs) (conditionRuns ConditionFault s runs)) repetitions pairingStart = Inr p \<and>
     (gateAValid p \<longleftrightarrow> effectShown s runs) \<and> (effectShown s runs \<longrightarrow> length (paPairs p) = 3) \<and>
     pairRecord s runs (a\<lparr>Pairs := paPairs p, ControlMinimumProgress := summarize (controlProgress p),
       FaultMaximumProgress := summarize (faultProgress p)\<rparr>)"
proof -
  let ?cs = "conditionRuns ConditionControl s runs" and ?fs = "conditionRuns ConditionFault s runs"
  define ok where "ok r \<longleftrightarrow> validWindow s (mget zeroRun ?cs r) \<and> validWindow s (mget zeroRun ?fs r)" for r
  define ev where "ev = pairOf (mget zeroRun ?cs) (mget zeroRun ?fs)"
  have "primaryWindowValid (participantByTarget s) (groupByParticipant s) = validWindow s"
    using primaryWindowValid_iff [OF assms(1)] by blast
  then have each: "each (pairStep (primaryWindowValid (participantByTarget s) (groupByParticipant s)) ?cs ?fs)
      repetitions pairingStart = Inr
    \<lparr>controlProgress = map (\<lambda>r. peControlMinimumProgress (ev r)) (filter ok repetitions),
     faultProgress = map (\<lambda>r. peFaultMaximumProgress (ev r)) (filter ok repetitions),
     gateAValid = (\<forall>r \<in> set repetitions. ok r \<and> separated (mget zeroRun ?cs r) (mget zeroRun ?fs r)),
     paPairs = map ev (filter ok repetitions)\<rparr>"
    unfolding ok_def [abs_def] ev_def
    by (simp only: each_pairStep [OF validWindow_targets [OF assms(1)]])
  note get = conditionRuns_get [OF assms]
  have ok: "ok r \<longleftrightarrow> validWindow s (controlRun runs r) \<and> validWindow s (faultRun runs r)"
    and ev: "ev r = pairOf (controlRun runs) (faultRun runs) r" if "r \<in> set repetitions" for r
    using get [OF that] by (simp_all add: ok_def ev_def pairOf_def)
  let ?valid = "filter (\<lambda>r. validWindow s (controlRun runs r) \<and> validWindow s (faultRun runs r)) repetitions"
  have f: "filter ok repetitions = ?valid" using ok by (rule filter_cong [OF refl])
  have m: "map (\<lambda>r. h (ev r)) (filter ok repetitions) =
      map (\<lambda>r. h (pairOf (controlRun runs) (faultRun runs) r)) ?valid" for h :: "pair_evidence \<Rightarrow> 'x"
    unfolding f using ev by (intro map_cong refl) auto
  have three: "effectShown s runs \<longrightarrow> length (map ev (filter ok repetitions)) = 3"
  proof
    assume "effectShown s runs"
    then have "?valid = repetitions" unfolding filter_id_conv by (simp add: effectShown_def)
    then show "length (map ev (filter ok repetitions)) = 3" unfolding f length_map
      by (simp only:) (simp add: repetitions_def)
  qed
  have a: "(\<forall>r \<in> set repetitions. ok r \<and> separated (mget zeroRun ?cs r) (mget zeroRun ?fs r)) \<longleftrightarrow> effectShown s runs"
    unfolding effectShown_def using ok get by (intro ball_cong refl) auto
  show ?thesis unfolding each
    by (intro exI conjI, rule refl)
      (simp_all add: a three [unfolded length_map f] pairRecord_def Let_def m m [of "\<lambda>x. x", simplified])
qed

lemma faults_all:
  assumes "adjudicable s" "acceptedRuns s runs"
  shows "list_ex (\<lambda>(_, run). \<not> RecoveryMeasurementComplete run) (conditionRuns ConditionFault s runs) \<longleftrightarrow> \<not> recoveryComplete runs"
    and "gateBMatched (conditionRuns ConditionFault s runs) \<longleftrightarrow> predictionMatched runs"
proof -
  have all: "(\<forall>p \<in> set (conditionRuns ConditionFault s runs). P (snd p)) \<longleftrightarrow> (\<forall>r \<in> set repetitions. P (faultRun runs r))" for P
    using snd_faults [OF assms] by (metis (no_types, lifting) image_iff)
  show "list_ex (\<lambda>(_, run). \<not> RecoveryMeasurementComplete run) (conditionRuns ConditionFault s runs) \<longleftrightarrow> \<not> recoveryComplete runs"
    using all [of RecoveryMeasurementComplete] by (auto simp: recoveryComplete_def list_ex_iff case_prod_unfold)
  show "gateBMatched (conditionRuns ConditionFault s runs) \<longleftrightarrow> predictionMatched runs"
    using all [of "\<lambda>run. \<forall>t \<in> set (rnTargets run). FinalizedEpochProgress t = 0 \<and> RecoverySlots t \<noteq> None"]
    by (auto simp: predictionMatched_def gateBMatched_def list_all_iff case_prod_unfold)
qed

definition analysisBase :: "scenario \<Rightarrow> run_summary list \<Rightarrow> time \<Rightarrow> pairing \<Rightarrow> analysis" where
  "analysisBase s runs now p =
     \<lparr>anSchemaVersion = ReportSchemaVersion, ScenarioName = scName s, GeneratedAt = now,
      Runs = map (namedRun runs) (RunOrder (scMethodology s)), Pairs = paPairs p,
      ControlMinimumProgress = summarize (controlProgress p),
      FaultMaximumProgress = summarize (faultProgress p),
      RecoveryByClient = [], GateA = zeroGate, GateB = zeroGate, GateC = gateCPending, Conclusion = []\<rparr>"

lemma Analyze_eq:
  assumes "Scenario_Validate sum256 s = Inr ()" "acceptedRuns s runs"
  obtains p where "(gateAValid p \<longleftrightarrow> effectShown s runs)" "effectShown s runs \<Longrightarrow> length (paPairs p) = 3"
    "pairRecord s runs (analysisBase s runs now p)"
    "Analyze sum256 s runs now = judge s (conditionRuns ConditionControl s runs) (conditionRuns ConditionFault s runs)
       (effectShown s runs) (analysisBase s runs now p)"
proof -
  note adj = Scenario_adjudicable [OF assms(1)]
  define v where "v = \<lparr>orRuns = map (namedRun runs) (RunOrder (scMethodology s)),
    orControls = conditionRuns ConditionControl s runs, orFaults = conditionRuns ConditionFault s runs\<rparr>"
  have v: "validateRuns s runs = Inr v"
    using validateRuns_Inr [OF adj, of runs v] assms(2) by (simp add: v_def conditionRuns_def Let_def)
  from pairing_result [OF adj assms(2), of "analysisBase s runs now pairingStart"] obtain p where
    p: "each (pairStep (primaryWindowValid (participantByTarget s) (groupByParticipant s))
       (conditionRuns ConditionControl s runs) (conditionRuns ConditionFault s runs)) repetitions pairingStart = Inr p"
     "gateAValid p \<longleftrightarrow> effectShown s runs" "effectShown s runs \<longrightarrow> length (paPairs p) = 3"
     "pairRecord s runs (analysisBase s runs now p)"
    by (auto simp: analysisBase_def)
  have "Analyze sum256 s runs now = judge s (conditionRuns ConditionControl s runs) (conditionRuns ConditionFault s runs)
       (effectShown s runs) (analysisBase s runs now p)"
    using p(2) by (simp add: Analyze_def assms(1) v p(1) v_def analysisBase_def)
  with p that show thesis by blast
qed

lemma Analyze_accepted:
  assumes "Analyze sum256 s runs now = Inr a"
  shows "Scenario_Validate sum256 s = Inr ()" "acceptedRuns s runs"
proof -
  from assms show s: "Scenario_Validate sum256 s = Inr ()"
    unfolding Analyze_def bindR_Inr_iff wrapE_Inr_iff by auto
  from assms obtain v where "validateRuns s runs = Inr v"
    unfolding Analyze_def bindR_Inr_iff wrapE_Inr_iff by auto
  then show "acceptedRuns s runs" using validateRuns_Inr [OF Scenario_adjudicable [OF s]] by simp
qed


lemma recoveryStatistics_faults:
  assumes "adjudicable s" "acceptedRuns s runs" "predictionMatched runs"
    and "mset faults = mset (conditionRuns ConditionFault s runs)"
  shows "\<exists>out. recoveryStatistics faults = Inr out \<and> (\<forall>c. map_of out c =
     (if clientValues (map (faultRun runs) repetitions) c = [] then None
      else Some (summarize (clientValues (map (faultRun runs) repetitions) c))))"
proof -
  have some: "\<forall>run \<in> snd ` set faults. \<forall>t \<in> set (rnTargets run). RecoverySlots t \<noteq> None"
    unfolding mset_eq_setD [OF assms(4)] snd_faults [OF assms(1,2)] using assms(3) by (auto simp: predictionMatched_def)
  let ?named = "map (\<lambda>r. (r, faultRun runs r)) repetitions"
  have "set (conditionRuns ConditionFault s runs) = set ?named" "distinct (conditionRuns ConditionFault s runs)"
    using runsWith_named(1,2) [OF assms(1,2), of ConditionFault] by (auto simp: conditionRuns_def distinct_map)
  moreover have "distinct ?named" by (simp add: distinct_map inj_on_def repetitions_def)
  ultimately have "mset (conditionRuns ConditionFault s runs) = mset ?named"
    using set_eq_iff_mset_eq_distinct by blast
  then have "mset (map snd faults) = mset (map (faultRun runs) repetitions)"
    using assms(4) by (simp add: image_mset.compositionality comp_def)
  then have "mset (clientValues (map snd faults) c) = mset (clientValues (map (faultRun runs) repetitions) c)" for c
    by (simp only: clientValues_def mset_map mset_filter)
  then have same: "summarize (clientValues (map snd faults) c) = summarize (clientValues (map (faultRun runs) repetitions) c)"
    "clientValues (map snd faults) c = [] \<longleftrightarrow> clientValues (map (faultRun runs) repetitions) c = []" for c
    by (metis summarize_mset, metis mset_zero_iff)
  from recoveryStatistics_values [OF some] show ?thesis by (simp only: same)
qed

text \<open>The result of a whole analysis, gate by gate, with the recovery statistics \<open>out\<close>.\<close>

definition settled :: "scenario \<Rightarrow> run_summary list \<Rightarrow> (string, statistic) gomap \<Rightarrow> analysis \<Rightarrow> analysis" where
  "settled s runs out a0 =
     (let (yes, reason) = evaluateGateC s (conditionRuns ConditionControl s runs) (conditionRuns ConditionFault s runs) in
      if \<not> effectShown s runs
      then a0\<lparr>GateA := gateANo, GateB := gateBAfterNo, Conclusion := ''invalid_experiment''\<rparr>
      else if \<not> recoveryComplete runs
      then a0\<lparr>GateA := gateAYes, GateB := gateBIncomplete, Conclusion := ''invalid_experiment''\<rparr>
      else if \<not> predictionMatched runs
      then a0\<lparr>GateA := gateAYes, GateB := gateBNo, Conclusion := ''network_level_finding''\<rparr>
      else if yes
      then a0\<lparr>GateA := gateAYes, GateB := gateBYes, RecoveryByClient := out,
        GateC := \<lparr>Outcome = ''yes'', Classification = ''client_specific_differentiation'', Reason = reason\<rparr>,
        Conclusion := ''client_specific_differentiation''\<rparr>
      else a0\<lparr>GateA := gateAYes, GateB := gateBYes, RecoveryByClient := out,
        GateC := \<lparr>Outcome = ''no'', Classification = ''no_client_differentiation'', Reason = reason\<rparr>,
        Conclusion := ''valid_predicted_uniform_effect''\<rparr>)"

lemma judge_settled:
  assumes "adjudicable s" "acceptedRuns s runs" "effectShown s runs \<Longrightarrow> length (Pairs a0) = 3"
  obtains out where "predictionMatched runs \<Longrightarrow> recoveryStatistics (conditionRuns ConditionFault s runs) = Inr out"
    "judge s (conditionRuns ConditionControl s runs) (conditionRuns ConditionFault s runs) (effectShown s runs) a0 =
       Inr (settled s runs out a0)"
proof -
  obtain out where out: "predictionMatched runs \<Longrightarrow> recoveryStatistics (conditionRuns ConditionFault s runs) = Inr out"
    using recoveryStatistics_faults [OF assms(1,2) _ refl] by blast
  obtain yes reason where gc:
    "evaluateGateC s (conditionRuns ConditionControl s runs) (conditionRuns ConditionFault s runs) = (yes, reason)"
    by fastforce
  have "judge s (conditionRuns ConditionControl s runs) (conditionRuns ConditionFault s runs) (effectShown s runs) a0 =
       Inr (settled s runs out a0)"
    by (cases "effectShown s runs"; cases "recoveryComplete runs"; cases "predictionMatched runs"; cases yes)
      (simp_all add: judge_def settled_def Let_def gc out assms(3) faults_all [OF assms(1,2)])
  with out that show thesis by blast
qed

lemma Analyze_settled:
  assumes "Scenario_Validate sum256 s = Inr ()" "acceptedRuns s runs"
  obtains p out where "predictionMatched runs \<Longrightarrow> recoveryStatistics (conditionRuns ConditionFault s runs) = Inr out"
    "pairRecord s runs (analysisBase s runs now p)"
    "Analyze sum256 s runs now = Inr (settled s runs out (analysisBase s runs now p))"
proof -
  note adj = Scenario_adjudicable [OF assms(1)]
  from Analyze_eq [OF assms, of now] obtain p where p: "effectShown s runs \<Longrightarrow> length (paPairs p) = 3"
    "pairRecord s runs (analysisBase s runs now p)"
    "Analyze sum256 s runs now = judge s (conditionRuns ConditionControl s runs) (conditionRuns ConditionFault s runs)
       (effectShown s runs) (analysisBase s runs now p)"
    by blast
  have "effectShown s runs \<Longrightarrow> length (Pairs (analysisBase s runs now p)) = 3" using p(1) by (simp add: analysisBase_def)
  from judge_settled [OF adj assms(2) this] obtain out where
    "predictionMatched runs \<Longrightarrow> recoveryStatistics (conditionRuns ConditionFault s runs) = Inr out"
    "judge s (conditionRuns ConditionControl s runs) (conditionRuns ConditionFault s runs) (effectShown s runs)
       (analysisBase s runs now p) = Inr (settled s runs out (analysisBase s runs now p))" by blast
  with p(2,3) that show thesis by simp
qed

lemma Analyze_Inr:
  assumes "Analyze sum256 s runs now = Inr a"
  obtains p out where "predictionMatched runs \<Longrightarrow> recoveryStatistics (conditionRuns ConditionFault s runs) = Inr out"
    "pairRecord s runs (analysisBase s runs now p)" "a = settled s runs out (analysisBase s runs now p)"
proof -
  from Analyze_settled [OF Analyze_accepted [OF assms], of now] obtain p out where *:
    "predictionMatched runs \<Longrightarrow> recoveryStatistics (conditionRuns ConditionFault s runs) = Inr out"
    "pairRecord s runs (analysisBase s runs now p)"
    "Analyze sum256 s runs now = Inr (settled s runs out (analysisBase s runs now p))" by blast
  from *(3) assms have "a = settled s runs out (analysisBase s runs now p)" by simp
  with *(1,2) that show thesis by blast
qed

section \<open>What an analysis says\<close>

text \<open>
  C4: The verdict of an analysis, as the preregistration asks for it. Gate A is YES exactly when in
  each of the three repetitions both windows are valid and every target of the control run
  progressed strictly more than every target of the faulty run. Gate B is decided only after
  Gate A:YES with complete recovery measurements, and is YES exactly when no target of a faulty
  run finalized an epoch and all recovered. Gate C is decided only after Gate B:YES, and is YES
  exactly when one client recovered later than the other on both sides in all repetitions while
  the control targets progressed alike; the reason then names that client. The conclusion follows.
\<close>

theorem Analyze_verdict:
  assumes "Analyze sum256 s runs now = Inr a"
  shows "Outcome (GateA a) = (if effectShown s runs then ''yes'' else ''no'') \<and>
     Outcome (GateB a) = (if \<not> effectShown s runs \<or> \<not> recoveryComplete runs then ''not_evaluated''
        else if predictionMatched runs then ''yes'' else ''no'') \<and>
     Outcome (GateC a) = (if Outcome (GateB a) \<noteq> ''yes'' then ''not_evaluated''
        else if \<exists>slow fast. clientLater s runs slow fast then ''yes'' else ''no'') \<and>
     (Outcome (GateC a) = ''yes'' \<longrightarrow>
        (\<exists>slow fast. clientLater s runs slow fast \<and> Reason (GateC a) = reasonSlower slow 1)) \<and>
     Conclusion a = (if \<not> effectShown s runs \<or> \<not> recoveryComplete runs then ''invalid_experiment''
        else if \<not> predictionMatched runs then ''network_level_finding''
        else if Outcome (GateC a) = ''yes'' then ''client_specific_differentiation''
        else ''valid_predicted_uniform_effect'')"
proof -
  note acc = Analyze_accepted [OF assms]
  note adj = Scenario_adjudicable [OF acc(1)]
  let ?cs = "conditionRuns ConditionControl s runs" and ?fs = "conditionRuns ConditionFault s runs"
  obtain yes reason where gc: "evaluateGateC s ?cs ?fs = (yes, reason)" by (cases "evaluateGateC s ?cs ?fs")
  have yes: "yes \<longleftrightarrow> (\<exists>slow fast. clientLater s runs slow fast)"
      "yes \<Longrightarrow> \<exists>slow fast. clientLater s runs slow fast \<and> reason = reasonSlower slow 1"
    if e: "effectShown s runs" and m: "predictionMatched runs"
  proof -
    have C: "evaluateGateC s ?cs ?fs = (True, reason) \<longleftrightarrow> (\<exists>slow fast. clientLater s runs slow fast \<and> reason = reasonSlower slow 1)"
      for reason by (rule evaluateGateC_True [OF adj acc(2) _ m]) (use e in \<open>simp add: effectShown_def\<close>)
    show "yes \<longleftrightarrow> (\<exists>slow fast. clientLater s runs slow fast)" using C unfolding gc by blast
    show "yes \<Longrightarrow> \<exists>slow fast. clientLater s runs slow fast \<and> reason = reasonSlower slow 1"
      using C [of reason] unfolding gc by blast
  qed
  note gates = gateAYes_def gateANo_def gateBAfterNo_def gateBIncomplete_def gateBNo_def gateBYes_def gateCPending_def
  from Analyze_Inr [OF assms] obtain p out where a: "a = settled s runs out (analysisBase s runs now p)"
    by blast
  show ?thesis unfolding a
    by (cases "effectShown s runs"; cases "recoveryComplete runs"; cases "predictionMatched runs"; cases yes)
      (use yes in \<open>simp_all add: settled_def Let_def gc gates analysisBase_def\<close>)
qed

lemma Analyze_decides:
  "((\<exists>a. Analyze sum256 s runs now = Inr a) \<longleftrightarrow> Scenario_Validate sum256 s = Inr () \<and> acceptedRuns s runs) \<and>
   Analyze sum256 s runs now \<noteq> Inl Panicked"
proof (cases "Scenario_Validate sum256 s = Inr () \<and> acceptedRuns s runs")
  case True
  then obtain a where "Analyze sum256 s runs now = Inr a" using Analyze_settled [of sum256 s runs now] by blast
  with True show ?thesis by simp
next
  case False
  then have "\<nexists>a. Analyze sum256 s runs now = Inr a" using Analyze_accepted by blast
  moreover have "Analyze sum256 s runs now \<noteq> Inl Panicked"
  proof (cases "Scenario_Validate sum256 s")
    case (Inl e)
    then show ?thesis by (simp add: Analyze_def)
  next
    case (Inr u)
    then have "\<nexists>v. validateRuns s runs = Inr v"
      using False validateRuns_Inr [OF Scenario_adjudicable [of sum256 s]] by simp
    then obtain e where "validateRuns s runs = Inl e" by (cases "validateRuns s runs") auto
    then show ?thesis using Inr by (simp add: Analyze_def)
  qed
  ultimately show ?thesis using False by blast
qed

text \<open>
  C20: An analysis is made exactly of an accepted scenario and accepted runs, whatever their
  measurements say, and no index or pointer it uses is out of range.
\<close>

theorem Analyze_total:
  "((\<exists>a. Analyze sum256 s runs now = Inr a) \<longleftrightarrow> Scenario_Validate sum256 s = Inr () \<and> acceptedRuns s runs) \<and>
   Analyze sum256 s runs now \<noteq> Inl Panicked"
  by (rule Analyze_decides)

text \<open>
  C34: The numbers of an analysis are exact. The pairs are the repetitions with two valid windows,
  with the least control and the greatest fault progress, and their statistics are taken of
  these numbers. After Gate B:YES the recovery of a client is summarized over the largest
  recovery in each faulty run, and whatever order Go iterates the map of the faulty runs in.
\<close>

theorem Analyze_statistics:
  assumes "Analyze sum256 s runs now = Inr a"
  shows "pairRecord s runs a \<and>
     (Outcome (GateB a) = ''yes'' \<longrightarrow>
       (\<forall>faults. mset faults = mset (conditionRuns ConditionFault s runs) \<longrightarrow>
         (\<exists>out. recoveryStatistics faults = Inr out \<and> map_of out = map_of (RecoveryByClient a))) \<and>
       (\<forall>c. map_of (RecoveryByClient a) c =
         (if clientValues (map (faultRun runs) repetitions) c = [] then None
          else Some (summarize (clientValues (map (faultRun runs) repetitions) c)))))"
proof -
  note acc = Analyze_accepted [OF assms]
  note adj = Scenario_adjudicable [OF acc(1)]
  from Analyze_Inr [OF assms] obtain p out where
    out: "predictionMatched runs \<Longrightarrow> recoveryStatistics (conditionRuns ConditionFault s runs) = Inr out"
    and pr: "pairRecord s runs (analysisBase s runs now p)"
    and a: "a = settled s runs out (analysisBase s runs now p)" by blast
  have "pairRecord s runs a" using pr by (simp add: a settled_def pairRecord_def Let_def split: prod.splits)
  moreover have "predictionMatched runs \<and> RecoveryByClient a = out" if "Outcome (GateB a) = ''yes''"
    using that by (auto simp: a settled_def gateBAfterNo_def gateBIncomplete_def gateBNo_def
        split: prod.splits if_splits)
  moreover have "(\<forall>faults. mset faults = mset (conditionRuns ConditionFault s runs) \<longrightarrow>
      (\<exists>out'. recoveryStatistics faults = Inr out' \<and> map_of out' = map_of out)) \<and>
      (\<forall>c. map_of out c = (if clientValues (map (faultRun runs) repetitions) c = [] then None
          else Some (summarize (clientValues (map (faultRun runs) repetitions) c))))"
    if "predictionMatched runs"
  proof -
    define F where "F c = (if clientValues (map (faultRun runs) repetitions) c = [] then None
          else Some (summarize (clientValues (map (faultRun runs) repetitions) c)))" for c
    have any: "\<exists>out'. recoveryStatistics faults = Inr out' \<and> map_of out' = F"
      if "mset faults = mset (conditionRuns ConditionFault s runs)" for faults
      using recoveryStatistics_faults [OF adj acc(2) \<open>predictionMatched runs\<close> that]
      unfolding F_def [symmetric] by (auto simp: fun_eq_iff)
    from any [OF refl] out [OF that] have "map_of out = F" by simp
    with any show ?thesis unfolding F_def [symmetric] by simp
  qed
  ultimately show ?thesis by blast
qed

subsection \<open>The order of the runs\<close>

lemma gomap_sub_eq:
  assumes "gomap l" "gomap r" "length l = length r" "\<forall>(k, v) \<in> set l. map_of r k = Some v"
  shows "map_of l = map_of r"
proof -
  have sub: "map_of l \<subseteq>\<^sub>m map_of r" using assms(4) by (fastforce simp: map_le_def dest: map_of_SomeD)
  then have "dom (map_of l) \<subseteq> dom (map_of r)" by (rule map_le_implies_dom_le)
  moreover have "card (dom (map_of l)) = card (dom (map_of r))"
    using gomap_length [OF assms(1)] gomap_length [OF assms(2)] assms(3) by simp
  ultimately have "dom (map_of l) = dom (map_of r)" by (intro card_subset_eq finite_dom_map_of)
  with sub show ?thesis by (metis map_le_antisym map_le_def)
qed

lemma allEntries_eq:
  assumes "gomap l" "gomap r" "\<forall>(k, v) \<in> set l. v \<noteq> []"
  shows "length l = length r \<and> \<not> list_ex (\<lambda>(k, v). mget [] r k \<noteq> v) l \<longleftrightarrow> map_of l = map_of r"
proof -
  have get: "mget [] r k = v \<longleftrightarrow> map_of r k = Some v" if "(k, v) \<in> set l" for k v
    using assms(3) that by (auto simp: mget_def split: option.splits)
  have "\<not> list_ex (\<lambda>(k, v). mget [] r k \<noteq> v) l \<longleftrightarrow> (\<forall>(k, v) \<in> set l. map_of r k = Some v)"
    using get by (auto simp: list_ex_iff)
  moreover have "length l = length r" if "map_of l = map_of r"
    using that gomap_length [OF assms(1)] gomap_length [OF assms(2)] by simp
  moreover have "\<forall>(k, v) \<in> set l. map_of r k = Some v" if "map_of l = map_of r"
    using assms(1) that by (auto simp: map_of_Some_iff [symmetric])
  ultimately show ?thesis using gomap_sub_eq [OF assms(1,2)] by blast
qed

definition gomapMetadata :: "dependency_metadata \<Rightarrow> bool" where
  "gomapMetadata m \<longleftrightarrow> gomap (ImportedPackages m) \<and> gomap (RuntimeImages m)"

definition sameMetadata :: "dependency_metadata \<Rightarrow> dependency_metadata \<Rightarrow> bool" where
  "sameMetadata l r \<longleftrightarrow> EthereumPackageRevision l = EthereumPackageRevision r \<and>
     map_of (ImportedPackages l) = map_of (ImportedPackages r) \<and> map_of (RuntimeImages l) = map_of (RuntimeImages r)"

lemma Split_Nil: "sep \<noteq> [] \<Longrightarrow> Split [] sep = [[]]"
  by (rule Split_None) (cases sep; simp add: findSub_None)

lemma dependencyMetadataEqual_iff:
  assumes "ValidateDependencyMetadata l = Inr ()" "gomapMetadata l" "gomapMetadata r"
  shows "dependencyMetadataEqual l r \<longleftrightarrow> sameMetadata l r"
proof -
  have v: "\<forall>p \<in> set (ImportedPackages l). checkPackage p = Inr ()" "\<forall>p \<in> set (RuntimeImages l). checkImage p = Inr ()"
    using assms(1) unfolding ValidateDependencyMetadata_def if_Inl_Inr_iff bindR_Inr_iff eachCheck_Inr_iff by auto
  have i: "\<forall>(k, v) \<in> set (ImportedPackages l). v \<noteq> []"
    using v(1) by (fastforce simp: checkPackage_def guardE_Inr_iff lowerHexN_def)
  have r: "\<forall>(k, v) \<in> set (RuntimeImages l). v \<noteq> []"
    using v(2) by (fastforce simp: checkImage_def guardE_Inr_iff Let_def Split_Nil)
  show ?thesis using allEntries_eq [OF _ _ i] allEntries_eq [OF _ _ r] assms(2,3)
    by (auto simp: dependencyMetadataEqual_def gomapMetadata_def sameMetadata_def)
qed

lemma acceptedRuns_iff:
  assumes "\<forall>r \<in> set runs. gomapMetadata (Dependencies r)"
  shows "acceptedRuns s runs \<longleftrightarrow> mset (map RunID runs) = mset expectedRuns \<and> list_all (acceptable s) runs \<and>
     (\<forall>r \<in> set runs. \<forall>r' \<in> set runs. sameMetadata (Dependencies r) (Dependencies r'))"
proof (cases runs)
  case Nil
  then show ?thesis by (simp add: acceptedRuns_def)
next
  case (Cons x xs)
  have "list_all (\<lambda>r. dependencyMetadataEqual (Dependencies x) (Dependencies r)) xs \<longleftrightarrow>
      (\<forall>r \<in> set runs. sameMetadata (Dependencies x) (Dependencies r))"
    if "list_all (acceptable s) runs"
  proof -
    have "dependencyMetadataEqual (Dependencies x) (Dependencies r) \<longleftrightarrow> sameMetadata (Dependencies x) (Dependencies r)"
      if "r \<in> set runs" for r
      by (rule dependencyMetadataEqual_iff) (use assms that \<open>list_all (acceptable s) runs\<close> Cons in \<open>auto simp: acceptable_def\<close>)
    then show ?thesis using Cons by (auto simp: list_all_iff sameMetadata_def)
  qed
  moreover have "(\<forall>r \<in> set runs. sameMetadata (Dependencies x) (Dependencies r)) \<longleftrightarrow>
      (\<forall>r \<in> set runs. \<forall>r' \<in> set runs. sameMetadata (Dependencies r) (Dependencies r'))"
  proof
    assume *: "\<forall>r \<in> set runs. sameMetadata (Dependencies x) (Dependencies r)"
    have "sameMetadata l r" if "sameMetadata m l" "sameMetadata m r" for l m r :: dependency_metadata
      using that by (simp add: sameMetadata_def)
    with * show "\<forall>r \<in> set runs. \<forall>r' \<in> set runs. sameMetadata (Dependencies r) (Dependencies r')" by blast
  qed (simp add: Cons)
  ultimately show ?thesis by (auto simp: acceptedRuns_def Cons)
qed

text \<open>C35: The order in which the runs are given does not matter.\<close>

theorem Analyze_order:
  assumes "Analyze sum256 s runs now = Inr a" "mset runs' = mset runs"
    and "\<forall>r \<in> set runs. gomapMetadata (Dependencies r)"
  shows "Analyze sum256 s runs' now = Inr a"
proof -
  note acc = Analyze_accepted [OF assms(1)]
  note adj = Scenario_adjudicable [OF acc(1)]
  have se: "set runs' = set runs" using assms(2) by (rule mset_eq_setD)
  have "mset (map RunID runs') = mset (map RunID runs)" using assms(2) by simp
  then have acc': "acceptedRuns s runs'"
    using acc(2) assms(3) by (simp add: acceptedRuns_iff se list_all_iff del: mset_map)
  have "mset (map RunID runs) = mset expectedRuns" "distinct expectedRuns"
    using acc(2) by (simp_all add: acceptedRuns_def expectedRuns_def)
  then have d: "distinct (map RunID runs)" "distinct (map RunID runs')"
    using \<open>mset (map RunID runs') = _\<close> by (metis mset_eq_imp_distinct_iff)+
  have "map_of (map (\<lambda>r. (RunID r, r)) runs') = map_of (map (\<lambda>r. (RunID r, r)) runs)"
    using d by (intro map_of_inject_set [THEN iffD2]) (simp_all add: comp_def se)
  then have "namedRun runs' i = namedRun runs i" for i by (simp add: namedRun_def)
  then have n: "namedRun runs' = namedRun runs" by blast
  have "validateRuns s runs' = Inr v \<longleftrightarrow> validateRuns s runs = Inr v" for v
    using validateRuns_Inr [OF adj] acc(2) acc' n by simp
  moreover from assms(1) obtain v where "validateRuns s runs = Inr v"
    unfolding Analyze_def bindR_Inr_iff wrapE_Inr_iff by auto
  ultimately have "validateRuns s runs' = validateRuns s runs" by simp
  then show ?thesis using assms(1) by (simp add: Analyze_def)
qed

end
