(* ===== verification/Examples.thy ===== *)
theory Examples
  imports Shipped Topology Timeseries Observer
begin

text \<open>
  The hypotheses of the component theorems hold of concrete inputs: one Beacon endpoint and
  one execution endpoint with their responses, a tracker that sees a reorg, two observed
  targets, and the shipped topology with one validator for each participant.
\<close>

section \<open>A Beacon endpoint\<close>

definition exRoot :: string where
  "exRoot = ''0x'' @ replicate 64 (CHR ''a'')"

definition exClient :: beacon_client where
  "exClient = \<lparr>base = \<lparr>urlScheme = ''http'', urlHost = ''localhost:5052'', urlHasUser = False,
     urlPath = ''/'', urlRawQuery = [], urlFragment = []\<rparr>, requestTimeout = second\<rparr>"

text \<open>The transport returns the path as the body, and the parser knows the bodies.\<close>

definition exHttp :: "string \<Rightarrow> http_result" where
  "exHttp path = Response \<lparr>StatusCode = 200, bodyBytes = path, bodyReadFails = False, closeFails = False\<rparr>"

definition exParse :: "string \<Rightarrow> json option" where
  "exParse body =
     (if body = ''/eth/v1/config/spec'' then
        Some (JObj [(''data'', JObj [(''SECONDS_PER_SLOT'', JStr ''12''), (''SLOTS_PER_EPOCH'', JStr ''32''),
          (''DEPOSIT_CHAIN_ID'', JStr ''1''), (''ALTAIR_FORK_EPOCH'', JStr ''007'')])])
      else if body = ''/eth/v1/beacon/headers/head'' then
        Some (JObj [(''execution_optimistic'', JBool False), (''data'', JObj [
          (''root'', JStr (''0x'' @ replicate 64 (CHR ''A''))), (''canonical'', JBool True),
          (''header'', JObj [(''message'', JObj [(''slot'', JStr ''77''), (''parent_root'', JStr exRoot),
             (''state_root'', JStr exRoot)])])])])
      else if body = ''/eth/v1/beacon/states/head/validators'' then
        Some (JObj [(''data'', JArr [
          JObj [(''index'', JStr ''0''), (''status'', JStr ''active_ongoing''),
            (''validator'', JObj [(''effective_balance'', JStr ''32000000000'')])],
          JObj [(''index'', JStr ''1''), (''status'', JStr ''active_exiting''),
            (''validator'', JObj [(''effective_balance'', JStr ''31000000000'')])]])])
      else None)"

definition exSpec :: beacon_spec where
  "exSpec = \<lparr>SecondsPerSlot = 12, SlotsPerEpoch = 32, ForkEpochs = [(''ALTAIR_FORK_EPOCH'', ''7'')]\<rparr>"

definition exHead :: beacon_head where
  "exHead = \<lparr>headSlot = 77, headRoot = exRoot, ParentRoot = exRoot, StateRoot = exRoot,
     Canonical = True, headOptimistic = False\<rparr>"

definition exValidators :: "beacon_validator list" where
  "exValidators =
     [\<lparr>validatorIndex = 0, EffectiveBalance = 32000000000, validatorStatus = ''active_ongoing''\<rparr>,
      \<lparr>validatorIndex = 1, EffectiveBalance = 31000000000, validatorStatus = ''active_exiting''\<rparr>]"

lemma exHttp_getJSON:
  assumes "exParse endpointPath = Some j" "unmarshal dec z j = Some r" "length endpointPath < 100"
  shows "getJSON exHttp exParse exClient endpointPath dec z = Inr r"
proof -
  have "trimSlashes (urlPath (base exClient)) @ endpointPath = endpointPath"
    by (simp add: exClient_def trimSlashes_def)
  then show ?thesis using assms by (simp add: getJSON_def exHttp_def maxResponseBytes_def)
qed

lemma exSpec_read: "Client_Spec exHttp exParse exClient = Inr exSpec"
proof -
  define data where "data = [(''SECONDS_PER_SLOT'', JStr ''12''), (''SLOTS_PER_EPOCH'', JStr ''32''),
      (''DEPOSIT_CHAIN_ID'', JStr ''1''), (''ALTAIR_FORK_EPOCH'', JStr ''007'')]"
  have "getJSON exHttp exParse exClient ''/eth/v1/config/spec'' specDecoder \<lparr>specData = []\<rparr> =
      Inr \<lparr>specData = data\<rparr>"
    by (rule exHttp_getJSON [where j = "JObj [(''data'', JObj data)]"])
      (simp add: exParse_def data_def, (unfold data_def, code_simp), simp)
  moreover have "specOfResponse data = Inr exSpec" unfolding data_def by code_simp
  ultimately show ?thesis by (simp add: Client_Spec_def)
qed

lemma exHead_read: "Client_Head exHttp exParse exClient = Inr exHead"
proof -
  define r where "r = \<lparr>rawHeadOptimistic = False, rawHeadRoot = ''0x'' @ replicate 64 (CHR ''A''),
    rawHeadCanonical = True, rawHeadSlot = ''77'', rawParentRoot = exRoot, rawStateRoot = exRoot\<rparr>"
  define z where "z = \<lparr>rawHeadOptimistic = False, rawHeadRoot = [], rawHeadCanonical = False,
            rawHeadSlot = [], rawParentRoot = [], rawStateRoot = []\<rparr>"
  have "getJSON exHttp exParse exClient ''/eth/v1/beacon/headers/head'' headDecoder z = Inr r"
    by (rule exHttp_getJSON) (simp add: exParse_def, (unfold r_def z_def, code_simp), simp)
  moreover have "headOfResponse r = Inr exHead" unfolding r_def by code_simp
  ultimately show ?thesis by (simp add: Client_Head_def z_def)
qed

lemma exValidators_read: "Client_Validators exHttp exParse exClient = Inr exValidators"
proof -
  define items where "items =
     [\<lparr>rawIndex = ''0'', rawStatus = ''active_ongoing'', rawBalance = ''32000000000''\<rparr>,
      \<lparr>rawIndex = ''1'', rawStatus = ''active_exiting'', rawBalance = ''31000000000''\<rparr>]"
  have "getJSON exHttp exParse exClient ''/eth/v1/beacon/states/head/validators'' validatorsDecoder [] = Inr items"
    by (rule exHttp_getJSON) (simp add: exParse_def, (unfold items_def, code_simp), simp)
  moreover have "each validatorStep items [] = Inr exValidators" unfolding items_def by code_simp
  ultimately show ?thesis by (simp add: Client_Validators_def items_def)
qed

theorem Client_Spec_ok_witness:
  "0 < SecondsPerSlot exSpec \<and> 0 < SlotsPerEpoch exSpec \<and> ForkEpochs exSpec \<noteq> [] \<and>
   forkEpochsOk (ForkEpochs exSpec)"
  by (rule Client_Spec_ok [OF exSpec_read])

theorem Client_Head_ok_witness:
  "Canonical exHead \<and> canonicalHex (headRoot exHead) 64 \<and> canonicalHex (ParentRoot exHead) 64 \<and>
   canonicalHex (StateRoot exHead) 64 \<and>
   parseRoot ''finality state root'' (StateRoot exHead) = Inr (StateRoot exHead)"
  by (rule Client_Head_ok [OF exHead_read])

theorem Client_Validators_ok_witness: "exValidators \<noteq> [] \<and> validatorsOk exValidators"
  by (rule Client_Validators_ok [OF exValidators_read])

section \<open>Execution heads\<close>

definition exBlock :: "u64 \<Rightarrow> char \<Rightarrow> char \<Rightarrow> exec_head" where
  "exBlock n h p = \<lparr>headNumber = n, headHash = ''0x'' @ replicate 64 h, headParentHash = ''0x'' @ replicate 64 p\<rparr>"

text \<open>A chain of three blocks, and a sibling of the last two on top of the first.\<close>

definition exChain :: "exec_head list" where
  "exChain = [exBlock 10 (CHR ''a'') (CHR ''0''), exBlock 11 (CHR ''b'') (CHR ''a''), exBlock 12 (CHR ''c'') (CHR ''b'')]"

definition exSibling :: exec_head where
  "exSibling = exBlock 11 (CHR ''d'') (CHR ''a'')"

definition exNewTracker :: reorg_tracker where
  "exNewTracker = \<lparr>trTarget = ''geth'', trHistoryLimit = 2, canonical = []\<rparr>"

definition exTracker3 :: reorg_tracker where
  "exTracker3 = \<lparr>trTarget = ''geth'', trHistoryLimit = 128, canonical = exChain\<rparr>"

lemma exTracker3_inv: "tracker_inv exTracker3"
  by code_simp

theorem tracker_history_witness:
  "chained (canonical (observeAll (exChain @ [exSibling]) exNewTracker)) \<and>
   int (length (canonical (observeAll (exChain @ [exSibling]) exNewTracker))) \<le> 2 \<and>
   trTarget (observeAll (exChain @ [exSibling]) exNewTracker) = ''geth''"
  by (rule tracker_history) (simp add: NewReorgTracker_def exNewTracker_def)

lemma exSibling_depth:
  "map_option Depth (rrReorg (fst (Tracker_Observe exSibling exTracker3))) = Some (Some 2)"
  by code_simp

theorem Observe_depth_witness:
  "\<exists>r. rrReorg (fst (Tracker_Observe exSibling exTracker3)) = Some r \<and>
     (\<exists>i. canonicalIndex exTracker3 (headParentHash exSibling) = Some i \<and>
        unat (2 :: u64) = length (canonical exTracker3) - 1 - i \<and> PreviousHead r = last (canonical exTracker3) \<and>
        NewHead r = exSibling \<and>
        unat (headNumber exSibling) = unat (headNumber (last (canonical exTracker3))) - unat (2 :: u64) + 1)"
proof -
  from exSibling_depth obtain r where r: "rrReorg (fst (Tracker_Observe exSibling exTracker3)) = Some r" "Depth r = Some 2"
    by auto
  from Observe_depth [OF exTracker3_inv r] r(1) show ?thesis by blast
qed

theorem Observe_tip_witness:
  "canonical (snd (Tracker_Observe exSibling exTracker3)) \<noteq> [] \<and>
     (last (canonical (snd (Tracker_Observe exSibling exTracker3))) = exSibling \<or>
      snd (Tracker_Observe exSibling exTracker3) = exTracker3 \<and>
      headHash (last (canonical exTracker3)) = headHash exSibling)"
  by (rule Observe_tip [OF exTracker3_inv])

theorem Observe_classifies_witness:
  "resultVerdict (fst (Tracker_Observe exSibling exTracker3)) = verdict (classify (canonical exTracker3) exSibling) \<and>
   classify (canonical exTracker3) exSibling = KnownReorg 2"
  using Observe_classifies [OF exTracker3_inv, of exSibling] by (simp, code_simp)

section \<open>Two observed targets\<close>

definition exComparator :: head_comparator where
  "exComparator = \<lparr>cmpTargets = [''lighthouse'', ''teku''], cmpHistoryLimit = 2,
     slots = [(78, \<lparr>roots = [(''teku'', exRoot)], lastSignature = []\<rparr>),
              (79, \<lparr>roots = [(''teku'', exRoot)], lastSignature = []\<rparr>)]\<rparr>"

lemma exComparator_wf: "wf_comparator exComparator"
  by (simp add: wf_comparator_def gomap_def exComparator_def)

theorem Comparator_bounded_witness:
  "int (length (slots (snd (Comparator_Observe 0 ''lighthouse'' exHead exComparator)))) \<le> cmpHistoryLimit exComparator"
  by (rule Comparator_bounded [OF exComparator_wf]) (simp add: exComparator_def)

lemma exComparator_stale: "stale exComparator 77"
  by (simp add: stale_def slotSet_def exComparator_def)

theorem stale_forever_witness:
  "stale (snd (Comparator_Observe 0 ''lighthouse'' exHead exComparator)) 77 \<and>
   fst (Comparator_Observe 0 ''lighthouse'' exHead exComparator) = None"
  using stale_forever [OF exComparator_wf exComparator_stale, of 0 "''lighthouse''" exHead] by (simp add: exHead_def)

definition exSpecSlots :: "(u64, spec_slot) gomap" where
  "exSpecSlots = [(77, \<lparr>spRoots = [(''teku'', exRoot)], spLast = None\<rparr>)]"

lemma exRoot_ok: "rootOk exRoot"
  by (simp add: rootOk_def exRoot_def)

theorem Comparator_refines_witness:
  "map_option (\<lambda>r. (hcSlot r, hcAgreement r)) (fst (Comparator_Observe 0 ''lighthouse'' exHead
       (exComparator\<lparr>slots := concSlots [''lighthouse'', ''teku''] exSpecSlots\<rparr>))) =
     map_option (\<lambda>(s, vec, agree). (s, agree)) (fst (spec_Observe [''lighthouse'', ''teku''] 2 ''lighthouse'' exHead exSpecSlots)) \<and>
   fst (spec_Observe [''lighthouse'', ''teku''] 2 ''lighthouse'' exHead exSpecSlots) = Some (77, [exRoot, exRoot], True)"
proof
  let ?c = "exComparator\<lparr>slots := concSlots [''lighthouse'', ''teku''] exSpecSlots\<rparr>"
  have "spec_inv [''lighthouse'', ''teku''] exSpecSlots"
    using exRoot_ok by (simp add: spec_inv_def exSpecSlots_def)
  from Comparator_refines [of ?c, OF _ _ this, of exHead 0 "''lighthouse''"]
  show "map_option (\<lambda>r. (hcSlot r, hcAgreement r)) (fst (Comparator_Observe 0 ''lighthouse'' exHead ?c)) =
     map_option (\<lambda>(s, vec, agree). (s, agree)) (fst (spec_Observe [''lighthouse'', ''teku''] 2 ''lighthouse'' exHead exSpecSlots))"
    by (simp add: exComparator_def exHead_def exRoot_ok)
  show "fst (spec_Observe [''lighthouse'', ''teku''] 2 ''lighthouse'' exHead exSpecSlots) = Some (77, [exRoot, exRoot], True)"
    by (simp add: spec_Observe_def exSpecSlots_def exHead_def rootVec_def allEqual_def Let_def mget_def)
qed

theorem Snapshot_exact_witness:
  "Snapshot (snd (Dataset_RecordHeadComparison
       \<lparr>hcTimestamp = 0, hcSlot = 77, hcRoots = [(''teku'', exRoot)], hcAgreement = True\<rparr> NewDatasetRecorder)) =
     \<lparr>snapSpecs = [], snapGenesis = [], snapBeacon = [],
      snapComparisons = [\<lparr>hcTimestamp = 0, hcSlot = 77, hcRoots = [(''teku'', exRoot)], hcAgreement = True\<rparr>],
      snapGaps = []\<rparr>"
proof -
  have "wf_dataset NewDatasetRecorder" by (simp add: wf_dataset_def NewDatasetRecorder_def gomap_def)
  from Snapshot_exact [OF wf_dataset_snoc(1) [OF this], of
      "\<lparr>hcTimestamp = 0, hcSlot = 77, hcRoots = [(''teku'', exRoot)], hcAgreement = True\<rparr>"]
  show ?thesis
    by (simp add: Dataset_RecordHeadComparison_def NewDatasetRecorder_def notify_def cloneMap_def gomap_def)
qed

definition exTime :: time where "exTime = 1000 * second"

definition exGenesis :: beacon_genesis where
  "exGenesis = \<lparr>genesisTime = 76, genesisSlot = 0, ValidatorsRoot = exRoot, ForkVersion = ''0x10000000''\<rparr>"

theorem CurrentSlotAt_exact_witness: "CurrentSlotAt exTime 76 12 0 = Inr 77"
proof -
  have "UnixSeconds exTime = 1000" by (simp add: exTime_def UnixSeconds_def second_def)
  then show ?thesis using CurrentSlotAt_exact [of exTime 76 12 0 77] by simp
qed

text \<open>A client that answers every call, and one that answers with another genesis.\<close>

definition exApi :: beacon_api where
  "exApi = \<lparr>apiSpec = Inr exSpec, apiGenesis = Inr exGenesis, apiHead = Inr exHead,
     apiFinality = (\<lambda>_. Inr \<lparr>finalityEpoch = 1, finalityRoot = exRoot, finalityOptimistic = False\<rparr>)\<rparr>"

definition exObserver :: "beacon_api observer" where
  "exObserver = \<lparr>obsTargets = [\<lparr>tgtName = ''lighthouse'', tgtClient = Some exApi\<rparr>, \<lparr>tgtName = ''teku'', tgtClient = Some exApi\<rparr>],
     obsPollInterval = second,
     headComparator = Some \<lparr>cmpTargets = [''lighthouse'', ''teku''], cmpHistoryLimit = 2, slots = []\<rparr>,
     initialized = False, obsSpec = zeroSpec, obsGenesis = zeroGenesis, initializeErr = None\<rparr>"

lemma exObserver_new:
  "New [\<lparr>tgtName = ''teku'', tgtClient = Some exApi\<rparr>, \<lparr>tgtName = ''lighthouse'', tgtClient = Some exApi\<rparr>]
     (Some DatasetRecorder) \<lparr>PollInterval = second, HeadHistoryLimit = 2\<rparr> = Inr exObserver"
  by (simp add: New_def exObserver_def second_def NewHeadComparator_def Let_def)

theorem New_sound_witness:
  "sorted (map tgtName (obsTargets exObserver)) \<and> distinct (map tgtName (obsTargets exObserver)) \<and>
   0 < obsPollInterval exObserver \<and> \<not> initialized exObserver"
  using New_sound [OF exObserver_new] by simp

lemma exObserver_initialized:
  "initialize DatasetRecorder [1, 0] [exTime, exTime] exObserver NewDatasetRecorder =
     (None, exObserver\<lparr>initialized := True, obsSpec := exSpec, obsGenesis := exGenesis\<rparr>,
      snd (Dataset_RecordSpec \<lparr>soTimestamp = exTime, soTarget = ''teku'', soSpec = exSpec, soGenesis = exGenesis\<rparr>
        (snd (Dataset_RecordSpec \<lparr>soTimestamp = exTime, soTarget = ''lighthouse'', soSpec = exSpec, soGenesis = exGenesis\<rparr>
           NewDatasetRecorder))))"
  by (simp add: initialize_def exObserver_def fetchTarget_def exApi_def groupWait_def errOf_def
      Spec_Compatible_def Genesis_Compatible_def exSpec_def DatasetRecorder_def Dataset_RecordSpec_def)

theorem initialize_agreement_witness:
  "fetchTarget (hd (obsTargets exObserver)) = Inr (exSpec, exGenesis) \<and>
   (\<exists>sp. fetchTarget (obsTargets exObserver ! 1) = Inr (sp, exGenesis) \<and> Spec_Compatible sp exSpec)"
  using initialize_agreement [OF _ _ _ exObserver_initialized]
  by (simp add: exObserver_def lessThan_Suc)

theorem initialize_once_witness:
  "initialize DatasetRecorder [0, 1] [] (exObserver\<lparr>initialized := True, obsSpec := exSpec, obsGenesis := exGenesis\<rparr>)
       NewDatasetRecorder =
     (None, exObserver\<lparr>initialized := True, obsSpec := exSpec, obsGenesis := exGenesis\<rparr>, NewDatasetRecorder)"
  by (rule initialize_once [OF _ _ exObserver_initialized]) (simp_all add: exObserver_def)

definition exRun :: "(jsonl \<times> dataset) run_state" where
  "exRun = run_start (\<lparr>jlLines = [], jlFaults = []\<rparr>, NewDatasetRecorder) (headComparator exObserver)"

lemma exRun_ready: "rsPhase exRun name = Ready"
  by (simp add: exRun_def run_start_def)

theorem pollAndRecord_steps_witness:
  "observer_run (fileAndDataset JSONLRecorder) exSpec exGenesis [''lighthouse'', ''teku''] exRun
     (after_poll ''teku'' (pollAndRecord (fileAndDataset JSONLRecorder) exSpec exGenesis ''teku'' exApi exTime exTime
        (rsComparator exRun, rsRecorder exRun)) exRun)"
  by (rule pollAndRecord_steps [OF _ exRun_ready]) simp

text \<open>One poll of the first target, whose observation is recorded.\<close>

definition exObservation :: beacon_observation where
  "exObservation = \<lparr>boTimestamp = exTime, boTarget = ''teku'', boCurrentSlot = 77, boHead = exHead,
     boFinality = \<lparr>finalityEpoch = 1, finalityRoot = exRoot, finalityOptimistic = False\<rparr>,
     boFinalityLag = 45, boPollDuration = 0\<rparr>"

lemma exMeasurement: "takeMeasurement exSpec exGenesis ''teku'' exApi exTime exTime = Inr exObservation"
  by (simp add: takeMeasurement_def pollBeacon_def exApi_def CurrentSlotAt_def FinalityLag_def exSpec_def
      exGenesis_def exTime_def UnixSeconds_def second_def durationSub_def exObservation_def Let_def)

lemma exRun_step:
  "\<exists>st. observer_run (fileAndDataset JSONLRecorder) exSpec exGenesis [''lighthouse'', ''teku''] exRun st \<and>
     dsBeacon (snd (rsRecorder st)) = [exObservation]"
proof -
  have "observer_step (fileAndDataset JSONLRecorder) exSpec exGenesis [''lighthouse'', ''teku''] exRun
     (settle ''teku'' (RecordBeaconFailed ''teku'')
         (if rsComparator exRun = None then Ready else Observed exObservation)
         (RecordBeacon (fileAndDataset JSONLRecorder) exObservation (rsRecorder exRun)) exRun)"
    by (rule observer_step.observed [OF _ exRun_ready exMeasurement]) simp
  moreover have "dsBeacon (snd (rsRecorder (settle ''teku'' (RecordBeaconFailed ''teku'')
         (if rsComparator exRun = None then Ready else Observed exObservation)
         (RecordBeacon (fileAndDataset JSONLRecorder) exObservation (rsRecorder exRun)) exRun))) = [exObservation]"
    by (simp add: exRun_def run_start_def fileAndDataset_def MultiRecorder_def onFst_def onSnd_def
        recorderFst_def recorderSnd_def JSONLRecorder_def DatasetRecorder_def JSONL_RecordBeacon_def
        writeLine_def Dataset_RecordBeacon_def notify_def NewDatasetRecorder_def settle_def)
  ultimately show ?thesis by blast
qed

theorem Observer_run_dataset_witness:
  "\<exists>st. observer_run (fileAndDataset JSONLRecorder) exSpec exGenesis [''lighthouse'', ''teku''] exRun st \<and>
     dsBeacon (snd (rsRecorder st)) = [exObservation] \<and>
     exactObservation exSpec exGenesis [''lighthouse'', ''teku''] exObservation"
proof -
  from exRun_step obtain st where
    st: "observer_run (fileAndDataset JSONLRecorder) exSpec exGenesis [''lighthouse'', ''teku''] exRun st"
      "dsBeacon (snd (rsRecorder st)) = [exObservation]" by blast
  have "set (cmpTargets c) = set [''lighthouse'', ''teku''] \<and> slots c = []"
    if "headComparator exObserver = Some c" for c
    using that by (auto simp: exObserver_def)
  from Observer_run_dataset [OF st(1) [unfolded exRun_def] this] st show ?thesis by auto
qed

section \<open>Two subscriptions\<close>

text \<open>The first connection is refused; the second delivers a head and closes.\<close>

definition exWsParse :: "string \<Rightarrow> json option" where
  "exWsParse m =
     (if m = ''ok'' then Some (JObj [(''jsonrpc'', JStr ''2.0''), (''id'', JNum ''1''), (''result'', JStr ''sub'')])
      else if m = ''head'' then Some (JObj [(''jsonrpc'', JStr ''2.0''), (''method'', JStr ''eth_subscription''),
        (''params'', JObj [(''subscription'', JStr ''sub''), (''result'', JObj [(''number'', JStr ''0xa''),
          (''hash'', JStr exRoot), (''parentHash'', JStr exRoot)])])])
      else None)"

definition exTurns :: "(ws_session \<times> bool \<times> bool) list" where
  "exTurns =
     [(\<lparr>dialFails = Some False, writeFails = False, messages = [], wsCloseFails = False\<rparr>, False, False),
      (\<lparr>dialFails = Some False, writeFails = False, messages = [], wsCloseFails = False\<rparr>, False, False),
      (\<lparr>dialFails = None, writeFails = False, messages = [''ok'', ''head''], wsCloseFails = False\<rparr>, False, False)]"

definition exExecObserver :: "unit exec_observer" where
  "exExecObserver = \<lparr>exoTargets = [\<lparr>etName = ''geth'', etClient = Some ()\<rparr>], exoHistoryLimit = 128,
     reconnectInitial = second, reconnectMaximum = 30 * second\<rparr>"

definition exExecStart :: "jsonl exec_state" where
  "exExecStart = \<lparr>exRecorder = \<lparr>jlLines = [], jlFaults = []\<rparr>, exTracker = exNewTracker, exReceived = False,
     exTick = 0, exTimers = []\<rparr>"

lemma exExecObserver_new:
  "NewExecutionObserver [\<lparr>etName = ''geth'', etClient = Some ()\<rparr>] (Some JSONLExecRecorder)
     \<lparr>HistoryLimit = 128, ReconnectInitial = second, ReconnectMaximum = 30 * second\<rparr> = Inr exExecObserver"
  by (simp add: NewExecutionObserver_def exExecObserver_def second_def)

lemma exTurns_delivered: "map (\<lambda>(ws, _). deliveredHeads exWsParse ws \<noteq> []) exTurns = [False, False, True]"
  by code_simp

lemma exTurns_running:
  "fst (Exec_runTarget JSONLExecRecorder (\<lambda>_. exTime) ''geth'' exExecObserver
     (map (clientTurn exWsParse) exTurns) exExecStart) = Running"
  by code_simp

theorem reconnect_backoff_witness:
  "\<exists>st. Exec_runTarget JSONLExecRecorder (\<lambda>_. exTime) ''geth'' exExecObserver
        (map (clientTurn exWsParse) exTurns) exExecStart = (Running, st) \<and>
     map snd (exTimers st) = [second, 2 * second, second]"
proof -
  obtain st where st: "Exec_runTarget JSONLExecRecorder (\<lambda>_. exTime) ''geth'' exExecObserver
        (map (clientTurn exWsParse) exTurns) exExecStart = (Running, st)"
    using exTurns_running by (metis prod.collapse)
  have start: "exTimers exExecStart = []" by (simp add: exExecStart_def)
  have limit: "ReconnectMaximum \<lparr>HistoryLimit = 128, ReconnectInitial = second, ReconnectMaximum = 30 * second\<rparr> < 2 ^ 63"
    by (simp add: second_def)
  note backoff = reconnect_backoff [OF exExecObserver_new limit start st]
  have "length (exTimers st) = length exTurns" using backoff by blast
  then have "take (length (exTimers st)) exTurns = exTurns" by simp
  with backoff have "map snd (exTimers st) = backoffSpec second (30 * second) 0
      (map (\<lambda>(ws, _). deliveredHeads exWsParse ws \<noteq> []) exTurns)"
    by (simp only: exec_options.simps)
  also have "\<dots> = [second, 2 * second, second]"
    unfolding exTurns_delivered by (simp add: second_def)
  finally have delays: "map snd (exTimers st) = [second, 2 * second, second]" .
  show ?thesis by (intro exI conjI) (rule st, rule delays)
qed


theorem validHeads_canonical_witness:
  "\<exists>h. validHeads exWsParse ''sub'' [''head''] = [h] \<and> canonicalHex (headHash h) 64 \<and>
     canonicalHex (headParentHash h) 64"
proof -
  have e: "validHeads exWsParse ''sub'' [''head''] =
      [\<lparr>headNumber = 10, headHash = exRoot, headParentHash = exRoot\<rparr>]" by code_simp
  show ?thesis
    by (rule exI, rule conjI [OF e], rule validHeads_canonical [where parse = exWsParse and sid = "''sub''" and msgs = "[''head'']"])
      (simp only: e, simp)
qed

section \<open>The shipped topology, scaled down\<close>

text \<open>The shipped scenario with one validator for each participant, their ranges, validators and placements.\<close>

definition exScenario :: scenario where
  "exScenario = shippedScenario\<lparr>scParticipants :=
     map (\<lambda>p. p\<lparr>ValidatorCount := 1\<rparr>) (scParticipants shippedScenario)\<rparr>"

definition exRawRanges :: "(string, string) gomap" where
  "exRawRanges = [(''1-1'', ''2-reth-teku''), (''0-0'', ''1-geth-lighthouse''),
     (''3-3'', ''4-reth-teku''), (''2-2'', ''3-geth-lighthouse'')]"

definition exRanges :: "validator_range list" where
  "exRanges = [\<lparr>rangeStart = 0, rangeEnd = 0, rangeOwner = ''1-geth-lighthouse''\<rparr>,
     \<lparr>rangeStart = 1, rangeEnd = 1, rangeOwner = ''2-reth-teku''\<rparr>,
     \<lparr>rangeStart = 2, rangeEnd = 2, rangeOwner = ''3-geth-lighthouse''\<rparr>,
     \<lparr>rangeStart = 3, rangeEnd = 3, rangeOwner = ''4-reth-teku''\<rparr>]"

definition exActive :: "u64 \<Rightarrow> beacon_validator" where
  "exActive i = \<lparr>validatorIndex = i, EffectiveBalance = 32000000000, validatorStatus = ''active_ongoing''\<rparr>"

definition exActives :: "beacon_validator list" where
  "exActives = map exActive [0, 1, 2, 3]"

definition exSplit :: realized_split where
  "exSplit = \<lparr>rsSplitBy = ''validator_weight'', rsTotal = 128000000000,
     rsParticipants = map (\<lambda>i. \<lparr>pwParticipantID = i, pwValidatorCount = 1, pwEffectiveBalance = 32000000000\<rparr>)
       [''lighthouse-geth-a'', ''teku-reth-a'', ''lighthouse-geth-b'', ''teku-reth-b''],
     rsGroups = map (\<lambda>n. \<lparr>gwName = n, gwRequestedShare = lit (1/2), gwRealizedShare = lit (1/2),
       gwEffectiveBalance = 64000000000\<rparr>) [''a'', ''b''],
     rsWithinTolerance = True, rsTolerance = Fin 0\<rparr>"

lemma exScenario_valid: "Scenario_Validate shippedSum256 exScenario = Inr ()"
  by code_simp

lemma exRanges_parsed: "rangesOf exRawRanges = Inr exRanges"
  by code_simp

lemma exRanges_disjoint: "disjointRanges exRanges"
  by code_simp

lemma exSplit_calculated: "CalculateRealizedSplit exScenario exRanges exActives = Inr exSplit"
  by code_simp

lemma exScenario_distinct:
  "distinct (map ValidatorRangeName (scParticipants exScenario))" "distinct (map pID (scParticipants exScenario))"
  "\<forall>g \<in> set (Groups (scFault exScenario)). distinct (groupParticipants g)"
  by code_simp+

theorem Search_least_witness: "Search 5 (\<lambda>i. 3 \<le> i) = 3"
proof -
  define n where "n = Search 5 (\<lambda>i. 3 \<le> i)"
  have n: "n \<le> 5 \<and> (\<forall>x < n. \<not> 3 \<le> x) \<and> (n < 5 \<longrightarrow> 3 \<le> n)"
    unfolding n_def by (rule Search_least [of 5 "\<lambda>i. 3 \<le> i"]) (rule order_trans)
  then have "\<not> 3 < n" by blast
  with n show "Search 5 (\<lambda>i. 3 \<le> i) = 3" unfolding n_def [symmetric] by linarith
qed

theorem rangesOf_deterministic_witness:
  "rangesOf (rev exRawRanges) = Inr exRanges \<and> disjointRanges exRanges \<and>
     mset exRanges = image_mset (projr \<circ> parseRange) (mset exRawRanges)"
  by (rule rangesOf_deterministic [OF exRanges_parsed]) simp

theorem CalculateRealizedSplit_exact_witness:
  "unat (rsTotal exSplit) = activeBalance exActives \<and>
   map (\<lambda>w. (pwParticipantID w, unat (pwEffectiveBalance w))) (rsParticipants exSplit) =
     map (\<lambda>p. (pID p, ownedBalance (rangeOwnerID exScenario exRanges) exActives (pID p))) (scParticipants exScenario)"
  using CalculateRealizedSplit_exact [OF exSplit_calculated exRanges_disjoint exScenario_distinct(1,3)] by blast

theorem CalculateRealizedSplit_order_witness:
  "CalculateRealizedSplit exScenario exRanges (rev exActives) = Inr exSplit"
  by (rule CalculateRealizedSplit_order [OF exSplit_calculated]) simp

theorem Calculated_split_validates_witness: "ValidateRealizedSplit exScenario exSplit = Inr ()"
  by (rule Calculated_split_validates [OF exScenario_valid _ exRanges_disjoint _ exSplit_calculated])
    (simp_all add: exScenario_def shippedScenario_def lit_def exActives_def exActive_def)

theorem WithinTolerance_exact_witness: "rsWithinTolerance exSplit"
proof -
  have "rsWithinTolerance exSplit \<longleftrightarrow>
      (\<forall>g \<in> set (rsGroups exSplit). 2 * unat (gwEffectiveBalance g) = unat (rsTotal exSplit))"
    by (rule WithinTolerance_exact [OF exSplit_calculated])
      (simp_all add: exScenario_def shippedScenario_def exSplit_def)
  then show ?thesis by (simp add: exSplit_def)
qed

definition exPlacement :: "participant \<Rightarrow> placement" where
  "exPlacement p = \<lparr>plParticipantID = pID p, plTarget = BeaconTarget p, plPod = BeaconServiceID p,
     plNode = pID p, plNodePool = ''pool'', plMachineType = ''n2'', plResourcePolicy = ''policy''\<rparr>"

theorem ValidatePlacements_iff_witness:
  "ValidatePlacements exScenario (map exPlacement (scParticipants exScenario)) = Inr ()"
  by (subst ValidatePlacements_iff [OF exScenario_distinct(2)])
    (simp add: placedOk_def completePlacement_def exPlacement_def exScenario_def shippedScenario_def)

end
