(* ===== verification/ExperimentExamples.thy ===== *)
theory ExperimentExamples
  imports Examples Discovery Analysis
begin

text \<open>
  Concrete inputs for the experiment's own parts: a lock with the images of a small cluster, the
  cluster's pods and nodes, and six runs that end in every gate answering YES.
\<close>

section \<open>A lock and a cluster\<close>

definition exDigest :: string where "exDigest = replicate 64 (CHR ''e'')"

definition exCommit :: string where "exCommit = replicate 40 (CHR ''c'')"

definition exImage :: "string \<Rightarrow> string" where "exImage name = name @ ''@sha256:'' @ exDigest"

definition exLock :: lock where
  "exLock = \<lparr>lockSchemaVersion = ''ethquake.dependencies/v1alpha1'',
     EthereumPackage = \<lparr>Repository = ''https://github.com/ethpandaops/ethereum-package.git'',
       Revision = exCommit, OverlaySHA256 = exDigest\<rparr>,
     lockImportedPackages = [(''kurtosis'', exCommit)],
     lockRuntimeImages = [(''geth'', exImage ''geth:1''), (''teku'', exImage ''teku:1'')],
     FaultRuntime = \<lparr>ChaosMeshRevision = exCommit, ControllerImage = exImage ''chaos'', DaemonImage = exImage ''daemon''\<rparr>\<rparr>"

definition exResolved :: "(string, string) gomap" where
  "exResolved = [(''experiment/el-1/geth'', exImage ''geth:1'')]"

definition exMetadata :: dependency_metadata where
  "exMetadata = \<lparr>EthereumPackageRevision = exCommit, ImportedPackages = [(''kurtosis'', exCommit)],
     RuntimeImages = [(''workload/experiment/el-1/geth'', exImage ''geth:1''),
       (''lock/runtime/geth'', exImage ''geth:1''), (''lock/runtime/teku'', exImage ''teku:1''),
       (''lock/fault/controller'', exImage ''chaos''), (''lock/fault/daemon'', exImage ''daemon'')]\<rparr>"

lemma exMetadata_built: "ExperimentMetadata exLock exResolved = Inr exMetadata"
  by code_simp

theorem ExperimentMetadata_closure_witness:
  "ValidateDependencyMetadata exMetadata = Inr () \<and>
   map_of (RuntimeImages exMetadata) ''workload/experiment/el-1/geth'' = Some (exImage ''geth:1'')"
proof -
  have "gomap exResolved" "gomap (lockRuntimeImages exLock)" "gomap (lockImportedPackages exLock)"
    by (simp_all add: gomap_def exResolved_def exLock_def)
  from ExperimentMetadata_closure [OF exMetadata_built this] show ?thesis by (simp add: exResolved_def)
qed

text \<open>
  The first participant of the topology: one ready pod for each of its services, with the given
  init containers, on one node.
\<close>

definition exSmall :: scenario where
  "exSmall = exScenario\<lparr>scParticipants := [hd (scParticipants exScenario)]\<rparr>"

definition exContainer :: "string \<Rightarrow> container_spec" where
  "exContainer name = \<lparr>ctName = name, ctImage = exImage ''geth:1'',
     ctResources = \<lparr>rpRequests = Some [(''cpu'', ''1'')], rpLimits = None\<rparr>\<rparr>"

definition exPod :: "container_spec list \<Rightarrow> string \<Rightarrow> string \<Rightarrow> pod_resource" where
  "exPod inits node sid = \<lparr>podMetadata = \<lparr>mdName = sid @ ''-0'', mdLabels = [(''kurtosistech.com/id'', sid)]\<rparr>,
     NodeName = node, InitContainers = inits, Containers = [exContainer ''main''], podPhase = ''Running'',
     ContainerStatuses = [\<lparr>csName = ''main'', csReady = True\<rparr>]\<rparr>"

definition exExpander :: container_spec where
  "exExpander = (exContainer ''files-artifact-expander'')\<lparr>ctImage := ''kurtosistech/files-artifacts-expander:1''\<rparr>"

definition exUserPods :: "container_spec list \<Rightarrow> pod_resource list" where
  "exUserPods inits = concat (map (\<lambda>p. map (exPod inits (pID p))
     [ExecutionServiceID p, BeaconServiceID p, ValidatorServiceID p]) (scParticipants exSmall))"

definition exChaosPods :: "pod_resource list" where
  "exChaosPods = [exPod [] ''system'' ''chaos-daemon'']"

definition exNodes :: "(string, node_resource) gomap" where
  "exNodes = map (\<lambda>p. (pID p, \<lparr>nodeMetadata = \<lparr>mdName = pID p,
     mdLabels = [(''dev.ethquake.participant'', pID p), (''node.kubernetes.io/instance-type'', ''n2'')]\<rparr>\<rparr>))
     (scParticipants exSmall)"

definition exDiscovery :: "container_spec list \<Rightarrow> discovery" where
  "exDiscovery inits = projr (buildDiscovery exSmall (exUserPods inits) exChaosPods exNodes)"

lemma exDiscovery_built:
  "buildDiscovery exSmall (exUserPods []) exChaosPods exNodes = Inr (exDiscovery [])"
  "buildDiscovery exSmall (exUserPods [exExpander]) exChaosPods exNodes = Inr (exDiscovery [exExpander])"
proof -
  have "\<not> isl (buildDiscovery exSmall (exUserPods []) exChaosPods exNodes)"
    "\<not> isl (buildDiscovery exSmall (exUserPods [exExpander]) exChaosPods exNodes)" by code_simp+
  then show "buildDiscovery exSmall (exUserPods []) exChaosPods exNodes = Inr (exDiscovery [])"
    "buildDiscovery exSmall (exUserPods [exExpander]) exChaosPods exNodes = Inr (exDiscovery [exExpander])"
    by (auto simp: exDiscovery_def isl_def split: sum.splits)
qed

theorem Discovery_placements_witness:
  "list_all2 (placedOn (exUserPods []) exNodes) (scParticipants exSmall) (dcPlacements (exDiscovery []))"
  by (rule Discovery_placements [OF exDiscovery_built(1)])

theorem Discovery_images_witness:
  "map_of (dcRuntimeImages (exDiscovery [])) ''chaos-mesh/runtime/main'' = Some (exImage ''geth:1'')"
proof -
  have "(''chaos-mesh/runtime/main'', exContainer ''main'') \<in> set (discoveredContainers (exUserPods []) exChaosPods)"
    by (simp add: discoveredContainers_def exChaosPods_def exPod_def podContainers_def imageKey_def exContainer_def)
  with Discovery_images [OF exDiscovery_built(1)] show ?thesis by (auto simp: exContainer_def)
qed

theorem Expander_exemption_rejected_witness:
  "\<nexists>md. ExperimentMetadata exLock (dcRuntimeImages (exDiscovery [exExpander])) = Inr md"
proof -
  obtain key where key: "(key, exExpander) \<in> set (discoveredContainers (exUserPods [exExpander]) exChaosPods)"
    by (auto simp: discoveredContainers_def exUserPods_def exSmall_def exScenario_def shippedScenario_def exPod_def podContainers_def)
  have "\<not> digestPinned (ctImage exExpander)" by code_simp
  from Expander_exemption_rejected [OF exDiscovery_built(2) key this] show ?thesis .
qed

section \<open>Six runs\<close>

definition exTargetResult :: "u64 \<Rightarrow> u64 option \<Rightarrow> participant \<Rightarrow> string \<Rightarrow> target_result" where
  "exTargetResult progress recovery p grp = \<lparr>resTarget = BeaconTarget p, resCLClient = CLClient p, resGroup = grp,
     StartFinalizedEpoch = 10, EndFinalizedEpoch = 10 + progress, FinalizedEpochProgress = progress,
     RecoverySlots = recovery, DivergenceExceeded = False\<rparr>"

definition exGroupOf :: "participant \<Rightarrow> string" where
  "exGroupOf p = mget [] (groupByParticipant exScenario) (pID p)"

definition exRunOf :: "string \<Rightarrow> u64 \<Rightarrow> run_summary" where
  "exRunOf condition r = \<lparr>rnSchemaVersion = RunSchemaVersion, RunID = runName condition r, Condition = condition,
     Repetition = r,
     rnWindow = \<lparr>StartedAt = exTime, EndedAt = exTime, StartSlot = 320, EndSlot = 416\<rparr>,
     PrimaryMeasurementComplete = True, RecoveryMeasurementComplete = True, MeasurementGaps = [],
     rnTargets = map (\<lambda>p. if condition = ConditionControl then exTargetResult 3 None p (exGroupOf p)
        else exTargetResult 0 (Some (if CLClient p = ''teku'' then 5 + r else 3 + r)) p (exGroupOf p)) (scParticipants exScenario),
     RealizedSplit = exSplit, Dependencies = exMetadata,
     Confounders = \<lparr>ResourcesEqual = True, NodePlacementControlled = True, DependencyClosurePinned = True\<rparr>\<rparr>"

definition exRuns :: "run_summary list" where
  "exRuns = map (exRunOf ConditionFault) repetitions @ map (exRunOf ConditionControl) repetitions"

lemma exRuns_accepted: "acceptedRuns exScenario exRuns"
proof -
  have "ValidateDependencyMetadata exMetadata = Inr ()" "ValidateRealizedSplit exScenario exSplit = Inr ()"
    by code_simp+
  moreover have "parseRunID (runName c r) = Inr (c, r)" if "c \<in> {ConditionControl, ConditionFault}" "r \<in> set repetitions" for c r
  proof -
    have "list_all (\<lambda>c. list_all (\<lambda>r. parseRunID (runName c r) = Inr (c, r)) repetitions) [ConditionControl, ConditionFault]"
      by code_simp
    then show ?thesis using that by (auto simp: list_all_iff)
  qed
  ultimately have "acceptable exScenario (exRunOf c r)"
    if "c \<in> {ConditionControl, ConditionFault}" "r \<in> set repetitions" for c r
    using that by (simp add: acceptable_def exRunOf_def)
  then have "list_all (acceptable exScenario) exRuns" by (auto simp: exRuns_def list_all_iff)
  moreover have "mset (map RunID exRuns) = mset expectedRuns"
    by (simp add: exRuns_def exRunOf_def expectedRuns_names comp_def)
  moreover have "list_all (\<lambda>r. dependencyMetadataEqual exMetadata (Dependencies r)) exRuns"
  proof -
    have "dependencyMetadataEqual exMetadata exMetadata" by code_simp
    then show ?thesis by (auto simp: list_all_iff exRuns_def exRunOf_def)
  qed
  ultimately show ?thesis
    by (simp add: acceptedRuns_def exRuns_def repetitions_def exRunOf_def)
qed

definition exAnalysis :: analysis where
  "exAnalysis = projr (Analyze shippedSum256 exScenario exRuns exTime)"

lemma exAnalysis_made: "Analyze shippedSum256 exScenario exRuns exTime = Inr exAnalysis"
  unfolding exAnalysis_def by (rule Analyze_settled [OF exScenario_valid exRuns_accepted, of exTime]) simp

lemma exNamed:
  assumes "c \<in> {ConditionControl, ConditionFault}" "r \<in> set repetitions"
  shows "namedRun exRuns (runName c r) = exRunOf c r"
proof -
  note n = acceptedRuns_named [OF exRuns_accepted assms]
  from n(1) obtain c' r' where "namedRun exRuns (runName c r) = exRunOf c' r'" by (auto simp: exRuns_def)
  with n(4,5) show ?thesis by (simp add: exRunOf_def)
qed

lemma exWindows:
  assumes "c \<in> {ConditionControl, ConditionFault}" "r \<in> set repetitions"
  shows "validWindow exScenario (exRunOf c r)"
proof -
  have "list_all (\<lambda>c. list_all (\<lambda>r. primaryWindowValid (participantByTarget exScenario)
      (groupByParticipant exScenario) (exRunOf c r)) repetitions) [ConditionControl, ConditionFault]"
    by code_simp
  then show ?thesis
    using assms primaryWindowValid_iff [OF Scenario_adjudicable [OF exScenario_valid]] by (auto simp: list_all_iff)
qed

lemma exMeasured:
  "list_all (\<lambda>r. separated (exRunOf ConditionControl r) (exRunOf ConditionFault r)) repetitions"
  "list_all (\<lambda>r. RecoveryMeasurementComplete (exRunOf ConditionFault r)) repetitions"
  "list_all (\<lambda>r. list_all (\<lambda>t. FinalizedEpochProgress t = 0 \<and> RecoverySlots t \<noteq> None)
     (rnTargets (exRunOf ConditionFault r))) repetitions"
  "list_all (\<lambda>r. uniformProgress (rnTargets (exRunOf ConditionControl r)) \<and>
     laterOnBothSides (exRunOf ConditionFault r) ''teku'' ''lighthouse'') repetitions"
  by code_simp+

lemma exRuns_shown:
  "effectShown exScenario exRuns" "recoveryComplete exRuns" "predictionMatched exRuns"
  "clientLater exScenario exRuns ''teku'' ''lighthouse''"
proof -
  show "effectShown exScenario exRuns" "recoveryComplete exRuns" "predictionMatched exRuns"
    using exMeasured exWindows
    by (auto simp: effectShown_def recoveryComplete_def predictionMatched_def exNamed list_all_iff)
  have "CLClient ` set (scParticipants exScenario) = {''teku'', ''lighthouse''}"
    by (auto simp: exScenario_def shippedScenario_def)
  then show "clientLater exScenario exRuns ''teku'' ''lighthouse''"
    using exMeasured(4) by (simp add: clientLater_def exNamed list_all_iff)
qed

lemma exAnalysis_yes: "Outcome (GateB exAnalysis) = ''yes''"
proof -
  from Analyze_Inr [OF exAnalysis_made] obtain p out where
    a: "exAnalysis = settled exScenario exRuns out (analysisBase exScenario exRuns exTime p)" by blast
  show ?thesis unfolding a by (simp add: settled_def exRuns_shown gateBYes_def split: prod.splits)
qed

theorem Analyze_verdict_witness:
  "Outcome (GateA exAnalysis) = ''yes'' \<and> Outcome (GateB exAnalysis) = ''yes'' \<and> Outcome (GateC exAnalysis) = ''yes'' \<and>
   Conclusion exAnalysis = ''client_specific_differentiation''"
  using Analyze_verdict [OF exAnalysis_made] exRuns_shown by auto

lemma exStatistics:
  "map (\<lambda>r. ConservativeDifference (pairOf (exRunOf ConditionControl) (exRunOf ConditionFault) r)) repetitions = [3, 3, 3]"
  "clientValues (map (exRunOf ConditionFault) repetitions) ''teku'' = [6, 7, 8]"
  "summarize [6, 7, 8] = \<lparr>statValues = [6, 7, 8], Median = Fin 7, statMin = 6, statMax = 8\<rparr>"
  by code_simp+

lemma exNamed_maps:
  "filter (\<lambda>r. validWindow exScenario (controlRun exRuns r) \<and> validWindow exScenario (faultRun exRuns r)) repetitions = repetitions"
  "map (\<lambda>r. ConservativeDifference (pairOf (controlRun exRuns) (faultRun exRuns) r)) repetitions = [3, 3, 3]"
  "map (faultRun exRuns) repetitions = map (exRunOf ConditionFault) repetitions"
proof -
  show "filter (\<lambda>r. validWindow exScenario (controlRun exRuns r) \<and> validWindow exScenario (faultRun exRuns r)) repetitions = repetitions"
    unfolding filter_id_conv using exWindows by (simp add: exNamed)
  show "map (\<lambda>r. ConservativeDifference (pairOf (controlRun exRuns) (faultRun exRuns) r)) repetitions = [3, 3, 3]"
    unfolding exStatistics(1) [symmetric] by (intro map_cong refl) (simp add: pairOf_def exNamed)
  show "map (faultRun exRuns) repetitions = map (exRunOf ConditionFault) repetitions"
    by (intro map_cong refl) (simp add: exNamed)
qed

theorem Analyze_statistics_witness:
  "map ConservativeDifference (Pairs exAnalysis) = [3, 3, 3] \<and>
   map_of (RecoveryByClient exAnalysis) ''teku'' =
     Some \<lparr>statValues = [6, 7, 8], Median = Fin 7, statMin = 6, statMax = 8\<rparr>"
  using Analyze_statistics [OF exAnalysis_made] exAnalysis_yes
  by (simp add: pairRecord_def Let_def comp_def exNamed_maps exStatistics)

theorem Analyze_order_witness: "Analyze shippedSum256 exScenario (rev exRuns) exTime = Inr exAnalysis"
proof -
  have "gomapMetadata exMetadata" by (simp add: gomapMetadata_def gomap_def exMetadata_def)
  then show ?thesis
    by (intro Analyze_order [OF exAnalysis_made]) (auto simp: exRuns_def exRunOf_def)
qed

end
