(* ===== verification/Files.thy ===== *)
theory Files
  imports GoStrings
begin

text \<open>
  The file system as the program sees it: lexical path operations of \<^verbatim>\<open>path/filepath\<close> on Unix,
  and the answers of the operating system to the inspections and reads the program makes.
\<close>

section \<open>Paths\<close>

abbreviation slash :: char where "slash \<equiv> CHR ''/''"

text \<open>The elements of a path that survive \<^verbatim>\<open>filepath.Clean\<close>, kept in reverse while they are read.\<close>

fun cleanParts :: "bool \<Rightarrow> string list \<Rightarrow> string list \<Rightarrow> string list" where
  "cleanParts rooted out [] = rev out"
| "cleanParts rooted out (p # ps) =
     (if p = [] \<or> p = ''.'' then cleanParts rooted out ps
      else if p = ''..'' then
        (case out of
           [] \<Rightarrow> cleanParts rooted (if rooted then [] else [p]) ps
         | q # qs \<Rightarrow> cleanParts rooted (if q = ''..'' then p # out else qs) ps)
      else cleanParts rooted (p # out) ps)"

fun joinSlash :: "string list \<Rightarrow> string" where
  "joinSlash [] = []"
| "joinSlash [p] = p"
| "joinSlash (p # q # ps) = p @ [slash] @ joinSlash (q # ps)"

definition IsAbs :: "string \<Rightarrow> bool" where
  "IsAbs p \<longleftrightarrow> HasPrefix p [slash]"

definition Clean :: "string \<Rightarrow> string" where
  "Clean p =
     (let joined = joinSlash (cleanParts (IsAbs p) [] (Split p [slash])) in
      if IsAbs p then slash # joined else if joined = [] then ''.'' else joined)"

text \<open>\<^verbatim>\<open>filepath.Join\<close> of two elements; empty elements are ignored.\<close>

definition Join :: "string \<Rightarrow> string \<Rightarrow> string" where
  "Join a b = (if a = [] then if b = [] then [] else Clean b
     else if b = [] then Clean a else Clean (a @ [slash] @ b))"

text \<open>\<^verbatim>\<open>filepath.Base\<close> and \<^verbatim>\<open>filepath.Dir\<close>.\<close>

definition trimTrailing :: "string \<Rightarrow> string" where
  "trimTrailing p = rev (dropWhile (\<lambda>c. c = slash) (rev p))"

definition Base :: "string \<Rightarrow> string" where
  "Base p = (if p = [] then ''.''
     else (let t = trimTrailing p in if t = [] then [slash] else rev (takeWhile (\<lambda>c. c \<noteq> slash) (rev t))))"

definition Dir :: "string \<Rightarrow> string" where
  "Dir p = Clean (rev (dropWhile (\<lambda>c. c \<noteq> slash) (rev p)))"

lemma Clean_examples:
  "Clean ''/a//b/./c/../d/'' = ''/a/b/d''"
  "Clean ''/../x'' = ''/x''" "Clean ''../../a'' = ''../../a''" "Clean ''a/..'' = ''.''" "Clean [] = ''.''"
  "Join ''/runs'' ''fault-1'' = ''/runs/fault-1''" "Base ''/a/b/'' = ''b''" "Dir ''/a/b'' = ''/a''"
  by code_simp+

section \<open>The operating system\<close>

text \<open>What \<^verbatim>\<open>os.Lstat\<close> finds at a path: links are not followed, a file comes with its content.\<close>

datatype (plugins only: code size) fs_node = FileNode string | DirNode | LinkNode | OtherNode

record host =
  serviceHost :: string
  workingDir :: "string option"
  evalSymlinks :: "string \<Rightarrow> string option"
  Lstat :: "string \<Rightarrow> fs_node option"
  readable :: "string \<Rightarrow> bool"

definition Abs :: "host \<Rightarrow> string \<Rightarrow> string option" where
  "Abs h p = (if IsAbs p then Some (Clean p)
     else (case workingDir h of None \<Rightarrow> None | Some wd \<Rightarrow> Some (Join wd p)))"

text \<open>The storage of the cluster lifecycle, which both ends of the evidence chain refuse.\<close>

definition clusterStorage :: "string \<Rightarrow> bool" where
  "clusterStorage p \<longleftrightarrow> Contains p ''/.kurtosis/'' \<or> HasSuffix p ''/.kurtosis''"

end
