(* ===== verification/Codec.thy ===== *)
theory Codec
  imports Files Analysis
begin

text \<open>
  Reading stored evidence: the standard library's parsing of RFC 3339 instants and of the
  numbers of a JSON text as \<^verbatim>\<open>float64\<close>, the decoders for the kinds of fields the evidence has, and
  the strict decoders of the structs of analysis.go, contracts.go, realized_split.go and
  beacon/client.go, by their tags. A nil slice or map is the empty one: what compares them
  deeply has compared a length with a positive number. A repeated member decodes a slice
  afresh.
\<close>

section \<open>Instants\<close>

definition digitsIn :: "nat \<Rightarrow> nat \<Rightarrow> string \<Rightarrow> int" where
  "digitsIn start len s = decimalValue 0 (take len (drop start s))"

definition leapYear :: "int \<Rightarrow> bool" where
  "leapYear y \<longleftrightarrow> 4 dvd y \<and> (\<not> 100 dvd y \<or> 400 dvd y)"

definition daysIn :: "int \<Rightarrow> int \<Rightarrow> int" where
  "daysIn year month =
     (if month = 2 then if leapYear year then 29 else 28
      else if month \<in> {4, 6, 9, 11} then 30 else 31)"

text \<open>Days from the Unix epoch to a date of the proleptic Gregorian calendar.\<close>

definition daysFromCivil :: "int \<Rightarrow> int \<Rightarrow> int \<Rightarrow> int" where
  "daysFromCivil year month day =
     (let y = (if month \<le> 2 then year - 1 else year); era = y div 400; yoe = y - era * 400;
          doy = (153 * (month + (if 2 < month then -3 else 9)) + 2) div 5 + day - 1;
          doe = yoe * 365 + yoe div 4 - yoe div 100 + doy
      in era * 146097 + doe - 719468)"

definition zoneOffset :: "string \<Rightarrow> int option" where
  "zoneOffset z =
     (if z = ''Z'' then Some 0
      else if length z = 6 \<and> (z ! 0 = CHR ''+'' \<or> z ! 0 = CHR ''-'') \<and> z ! 3 = CHR '':'' \<and>
              list_all isDigit [z ! 1, z ! 2, z ! 4, z ! 5] \<and> digitsIn 1 2 z < 24 \<and> digitsIn 4 2 z < 60
      then Some ((if z ! 0 = CHR ''-'' then -1 else 1) * (digitsIn 1 2 z * 3600 + digitsIn 4 2 z * 60))
      else None)"

definition dateShape :: "string \<Rightarrow> bool" where
  "dateShape s \<longleftrightarrow> length s \<ge> 20 \<and> s ! 4 = CHR ''-'' \<and> s ! 7 = CHR ''-'' \<and> s ! 10 = CHR ''T'' \<and>
     s ! 13 = CHR '':'' \<and> s ! 16 = CHR '':'' \<and>
     list_all (\<lambda>i. isDigit (s ! i)) [0, 1, 2, 3, 5, 6, 8, 9, 11, 12, 14, 15, 17, 18]"

text \<open>\<^verbatim>\<open>time.Time\<close>'s strict RFC 3339; more than nine fractional digits are cut off.\<close>

definition ParseRFC3339 :: "string \<Rightarrow> time option" where
  "ParseRFC3339 s =
     (if \<not> dateShape s then None
      else let year = digitsIn 0 4 s; month = digitsIn 5 2 s; day = digitsIn 8 2 s;
               hour = digitsIn 11 2 s; minute = digitsIn 14 2 s; sec = digitsIn 17 2 s;
               rest = drop 19 s; dotted = (rest ! 0 = CHR ''.'');
               frac = (if dotted then takeWhile isDigit (tl rest) else []);
               zone = (if dotted then dropWhile isDigit (tl rest) else rest)
           in if month < 1 \<or> 12 < month \<or> day < 1 \<or> daysIn year month < day \<or> 23 < hour \<or> 59 < minute \<or>
                 59 < sec \<or> dotted \<and> frac = [] then None
              else map_option (\<lambda>offset.
                (daysFromCivil year month day * 86400 + hour * 3600 + minute * 60 + sec - offset) * second +
                decimalValue 0 (take 9 (frac @ replicate 9 CHR ''0''))) (zoneOffset zone))"

lemma ParseRFC3339_examples:
  "ParseRFC3339 ''2024-02-29T12:34:56.000000005Z'' = Some (1709210096 * second + 5)"
  "ParseRFC3339 ''1970-01-01T01:00:00+01:00'' = Some 0"
  "ParseRFC3339 ''1969-12-31T23:59:59.5Z'' = Some (- (second div 2))"
  "ParseRFC3339 ''0001-01-01T00:00:00Z'' = Some zeroTime"
  "ParseRFC3339 ''2023-02-29T00:00:00Z'' = None" "ParseRFC3339 ''2024-01-01T24:00:00Z'' = None"
  "ParseRFC3339 ''2024-01-01T00:00:00.Z'' = None" "ParseRFC3339 ''2024-01-01T00:00:00'' = None"
  by code_simp+

section \<open>Floating-point numbers\<close>

definition pow10 :: "int \<Rightarrow> rat" where
  "pow10 k = (if 0 \<le> k then 10 ^ nat k else 1 / 10 ^ nat (- k))"

text \<open>The rational number that the literal of a JSON number denotes.\<close>

definition exponentValue :: "string \<Rightarrow> int" where
  "exponentValue s = (case s of [] \<Rightarrow> 0
     | c # cs \<Rightarrow> if c = CHR ''-'' then - decimalValue 0 cs
        else if c = CHR ''+'' then decimalValue 0 cs else decimalValue 0 s)"

definition numberValue :: "string \<Rightarrow> rat" where
  "numberValue s =
     (let negative = HasPrefix s ''-''; body = (if negative then tl s else s);
          mantissa = takeWhile (\<lambda>c. c \<noteq> CHR ''e'' \<and> c \<noteq> CHR ''E'') body;
          (whole, frac, found) = Cut (CHR ''.'') mantissa;
          magnitude = of_int (decimalValue 0 (whole @ frac)) *
            pow10 (exponentValue (drop (Suc (length mantissa)) body) - int (length frac))
      in if negative then - magnitude else magnitude)"

text \<open>
  \<^verbatim>\<open>strconv.ParseFloat\<close>: the nearest \<^verbatim>\<open>float64\<close>, subnormal ones included; an error when that is
  infinite.
\<close>

definition ParseFloat :: "string \<Rightarrow> f64 option" where
  "ParseFloat s =
     (let x = numberValue s in
      if x = 0 then Some (Fin 0)
      else let u = pow2 (max (expo \<bar>x\<bar>) (-1022) - 52); r = of_int (rne (\<bar>x\<bar> / u)) * u in
        if 0 < r \<and> 1024 \<le> expo r then None
        else Some (Fin (if x < 0 then - r else r)))"

lemma ParseFloat_examples:
  "ParseFloat ''0.5'' = Some (Fin (1 / 2))" "ParseFloat ''-12.5e-1'' = Some (Fin (-5 / 4))"
  "ParseFloat ''0.1'' = Some (lit (1 / 10))" "ParseFloat ''1e3'' = Some (Fin 1000)" "ParseFloat ''-0'' = Some (Fin 0)"
  by code_simp+

section \<open>Decoders of fields\<close>

definition decFloat :: "(f64 \<Rightarrow> 's \<Rightarrow> 's) \<Rightarrow> 's decoder" where
  "decFloat put j s = (case j of
      JNum n \<Rightarrow> (case ParseFloat n of None \<Rightarrow> (False, s) | Some v \<Rightarrow> (True, put v s))
    | JNull \<Rightarrow> (True, s)
    | _ \<Rightarrow> (False, s))"

definition decTime :: "(time \<Rightarrow> 's \<Rightarrow> 's) \<Rightarrow> 's decoder" where
  "decTime put j s = (case j of
      JStr v \<Rightarrow> (case ParseRFC3339 v of None \<Rightarrow> (False, s) | Some t \<Rightarrow> (True, put t s))
    | JNull \<Rightarrow> (True, s)
    | _ \<Rightarrow> (False, s))"

text \<open>A pointer: \<^verbatim>\<open>null\<close> makes it nil.\<close>

definition decUint64Ptr :: "(u64 option \<Rightarrow> 's \<Rightarrow> 's) \<Rightarrow> 's decoder" where
  "decUint64Ptr put j s = (case j of
      JNull \<Rightarrow> (True, put None s)
    | _ \<Rightarrow> decUint64 (\<lambda>v. put (Some v)) j s)"

definition decStrings :: "(string list \<Rightarrow> 's \<Rightarrow> 's) \<Rightarrow> 's decoder" where
  "decStrings = decSlice [] (decString (\<lambda>v _. v))"

text \<open>A map of structs; every value starts from the zero struct.\<close>

fun decStructMembers ::
  "'v \<Rightarrow> 'v decoder \<Rightarrow> (string \<times> json) list \<Rightarrow> (string, 'v) gomap \<Rightarrow> bool \<times> (string, 'v) gomap" where
  "decStructMembers z d [] m = (True, m)"
| "decStructMembers z d ((k, j) # kvs) m =
     (case d j z of (ok, v) \<Rightarrow> case decStructMembers z d kvs (mput k v m) of (oks, m') \<Rightarrow> (ok \<and> oks, m'))"

definition decStructMap ::
  "'v \<Rightarrow> 'v decoder \<Rightarrow> ('s \<Rightarrow> (string, 'v) gomap) \<Rightarrow> ((string, 'v) gomap \<Rightarrow> 's \<Rightarrow> 's) \<Rightarrow> 's decoder" where
  "decStructMap z d get put j s = (case j of
      JObj kvs \<Rightarrow> (case decStructMembers z d kvs (get s) of (ok, m) \<Rightarrow> (ok, put m s))
    | JNull \<Rightarrow> (True, put [] s)
    | _ \<Rightarrow> (False, s))"

section \<open>Decoders of the structs\<close>

definition participantWeightDecoder :: "participant_weight decoder" where
  "participantWeightDecoder = decStrict
     [(''participant_id'', decString (\<lambda>v p. p\<lparr>pwParticipantID := v\<rparr>)),
      (''validator_count'', decUint64 (\<lambda>v p. p\<lparr>pwValidatorCount := v\<rparr>)),
      (''effective_balance'', decUint64 (\<lambda>v p. p\<lparr>pwEffectiveBalance := v\<rparr>))]"

definition groupWeightDecoder :: "group_weight decoder" where
  "groupWeightDecoder = decStrict
     [(''name'', decString (\<lambda>v g. g\<lparr>gwName := v\<rparr>)),
      (''requested_share'', decFloat (\<lambda>v g. g\<lparr>gwRequestedShare := v\<rparr>)),
      (''realized_share'', decFloat (\<lambda>v g. g\<lparr>gwRealizedShare := v\<rparr>)),
      (''effective_balance'', decUint64 (\<lambda>v g. g\<lparr>gwEffectiveBalance := v\<rparr>))]"

definition zeroSplit :: realized_split where
  "zeroSplit = RealizedSplit zeroRun"

definition splitDecoder :: "realized_split decoder" where
  "splitDecoder = decStrict
     [(''split_by'', decString (\<lambda>v r. r\<lparr>rsSplitBy := v\<rparr>)),
      (''total_active_balance'', decUint64 (\<lambda>v r. r\<lparr>rsTotal := v\<rparr>)),
      (''participants'', decSlice \<lparr>pwParticipantID = [], pwValidatorCount = 0, pwEffectiveBalance = 0\<rparr>
        participantWeightDecoder (\<lambda>v r. r\<lparr>rsParticipants := v\<rparr>)),
      (''groups'', decSlice \<lparr>gwName = [], gwRequestedShare = Fin 0, gwRealizedShare = Fin 0, gwEffectiveBalance = 0\<rparr>
        groupWeightDecoder (\<lambda>v r. r\<lparr>rsGroups := v\<rparr>)),
      (''within_tolerance'', decBool (\<lambda>v r. r\<lparr>rsWithinTolerance := v\<rparr>)),
      (''tolerance_fraction'', decFloat (\<lambda>v r. r\<lparr>rsTolerance := v\<rparr>))]"

definition dependencyDecoder :: "dependency_metadata decoder" where
  "dependencyDecoder = decStrict
     [(''ethereum_package_revision'', decString (\<lambda>v d. d\<lparr>EthereumPackageRevision := v\<rparr>)),
      (''imported_packages'', decStringMap ImportedPackages (\<lambda>v d. d\<lparr>ImportedPackages := v\<rparr>)),
      (''runtime_images'', decStringMap RuntimeImages (\<lambda>v d. d\<lparr>RuntimeImages := v\<rparr>))]"

definition confoundersDecoder :: "confounders decoder" where
  "confoundersDecoder = decStrict
     [(''resources_equal'', decBool (\<lambda>v c. c\<lparr>ResourcesEqual := v\<rparr>)),
      (''node_placement_controlled'', decBool (\<lambda>v c. c\<lparr>NodePlacementControlled := v\<rparr>)),
      (''dependency_closure_pinned'', decBool (\<lambda>v c. c\<lparr>DependencyClosurePinned := v\<rparr>))]"

definition windowDecoder :: "window decoder" where
  "windowDecoder = decStrict
     [(''started_at'', decTime (\<lambda>v w. w\<lparr>StartedAt := v\<rparr>)),
      (''ended_at'', decTime (\<lambda>v w. w\<lparr>EndedAt := v\<rparr>)),
      (''start_slot'', decUint64 (\<lambda>v w. w\<lparr>StartSlot := v\<rparr>)),
      (''end_slot'', decUint64 (\<lambda>v w. w\<lparr>EndSlot := v\<rparr>))]"

definition zeroTarget :: target_result where
  "zeroTarget = \<lparr>resTarget = [], resCLClient = [], resGroup = [], StartFinalizedEpoch = 0, EndFinalizedEpoch = 0,
     FinalizedEpochProgress = 0, RecoverySlots = None, DivergenceExceeded = False\<rparr>"

definition targetDecoder :: "target_result decoder" where
  "targetDecoder = decStrict
     [(''target'', decString (\<lambda>v t. t\<lparr>resTarget := v\<rparr>)),
      (''cl_client'', decString (\<lambda>v t. t\<lparr>resCLClient := v\<rparr>)),
      (''group'', decString (\<lambda>v t. t\<lparr>resGroup := v\<rparr>)),
      (''start_finalized_epoch'', decUint64 (\<lambda>v t. t\<lparr>StartFinalizedEpoch := v\<rparr>)),
      (''end_finalized_epoch'', decUint64 (\<lambda>v t. t\<lparr>EndFinalizedEpoch := v\<rparr>)),
      (''finalized_epoch_progress'', decUint64 (\<lambda>v t. t\<lparr>FinalizedEpochProgress := v\<rparr>)),
      (''recovery_slots'', decUint64Ptr (\<lambda>v t. t\<lparr>RecoverySlots := v\<rparr>)),
      (''head_divergence_exceeded'', decBool (\<lambda>v t. t\<lparr>DivergenceExceeded := v\<rparr>))]"

definition runDecoder :: "run_summary decoder" where
  "runDecoder = decStrict
     [(''schema_version'', decString (\<lambda>v r. r\<lparr>rnSchemaVersion := v\<rparr>)),
      (''run_id'', decString (\<lambda>v r. r\<lparr>RunID := v\<rparr>)),
      (''condition'', decString (\<lambda>v r. r\<lparr>Condition := v\<rparr>)),
      (''repetition'', decUint64 (\<lambda>v r. r\<lparr>Repetition := v\<rparr>)),
      (''window'', decField rnWindow (\<lambda>v r. r\<lparr>rnWindow := v\<rparr>) windowDecoder),
      (''primary_measurement_complete'', decBool (\<lambda>v r. r\<lparr>PrimaryMeasurementComplete := v\<rparr>)),
      (''recovery_measurement_complete'', decBool (\<lambda>v r. r\<lparr>RecoveryMeasurementComplete := v\<rparr>)),
      (''measurement_gaps'', decStrings (\<lambda>v r. r\<lparr>MeasurementGaps := v\<rparr>)),
      (''targets'', decSlice zeroTarget targetDecoder (\<lambda>v r. r\<lparr>rnTargets := v\<rparr>)),
      (''realized_split'', decField RealizedSplit (\<lambda>v r. r\<lparr>RealizedSplit := v\<rparr>) splitDecoder),
      (''dependencies'', decField Dependencies (\<lambda>v r. r\<lparr>Dependencies := v\<rparr>) dependencyDecoder),
      (''confounders'', decField Confounders (\<lambda>v r. r\<lparr>Confounders := v\<rparr>) confoundersDecoder)]"

section \<open>Metadata of a run\<close>

definition MetadataSchemaVersion :: string where "MetadataSchemaVersion = ''ethquake.metadata/v1alpha1''"

record run_metadata =
  mtSchemaVersion :: string
  mtRunID :: string
  ScenarioSHA256 :: string
  mtChainID :: u64
  RuntimeSpecs :: "(string, beacon_spec) gomap"
  RuntimeGenesis :: "(string, beacon_genesis) gomap"
  mtPlacements :: "placement list"
  mtDependencies :: dependency_metadata
  mtOrderSeed :: string
  mtRunOrder :: "string list"
  FaultDeadmanSeconds :: u64

definition zeroRunMetadata :: run_metadata where
  "zeroRunMetadata = \<lparr>mtSchemaVersion = [], mtRunID = [], ScenarioSHA256 = [], mtChainID = 0, RuntimeSpecs = [],
     RuntimeGenesis = [], mtPlacements = [], mtDependencies = zeroMetadata, mtOrderSeed = [], mtRunOrder = [],
     FaultDeadmanSeconds = 0\<rparr>"

definition beaconSpecDecoder :: "beacon_spec decoder" where
  "beaconSpecDecoder = decStrict
     [(''seconds_per_slot'', decUint64 (\<lambda>v p. p\<lparr>SecondsPerSlot := v\<rparr>)),
      (''slots_per_epoch'', decUint64 (\<lambda>v p. p\<lparr>SlotsPerEpoch := v\<rparr>)),
      (''fork_epochs'', decStringMap ForkEpochs (\<lambda>v p. p\<lparr>ForkEpochs := v\<rparr>))]"

definition beaconGenesisDecoder :: "beacon_genesis decoder" where
  "beaconGenesisDecoder = decStrict
     [(''time'', decUint64 (\<lambda>v g. g\<lparr>genesisTime := v\<rparr>)),
      (''slot'', decUint64 (\<lambda>v g. g\<lparr>genesisSlot := v\<rparr>)),
      (''validators_root'', decString (\<lambda>v g. g\<lparr>ValidatorsRoot := v\<rparr>)),
      (''fork_version'', decString (\<lambda>v g. g\<lparr>ForkVersion := v\<rparr>))]"

definition placementDecoder :: "placement decoder" where
  "placementDecoder = decStrict
     [(''participant_id'', decString (\<lambda>v p. p\<lparr>plParticipantID := v\<rparr>)),
      (''target'', decString (\<lambda>v p. p\<lparr>plTarget := v\<rparr>)),
      (''pod'', decString (\<lambda>v p. p\<lparr>plPod := v\<rparr>)),
      (''node'', decString (\<lambda>v p. p\<lparr>plNode := v\<rparr>)),
      (''node_pool'', decString (\<lambda>v p. p\<lparr>plNodePool := v\<rparr>)),
      (''machine_type'', decString (\<lambda>v p. p\<lparr>plMachineType := v\<rparr>)),
      (''resource_policy'', decString (\<lambda>v p. p\<lparr>plResourcePolicy := v\<rparr>))]"

definition zeroPlacement :: placement where
  "zeroPlacement = \<lparr>plParticipantID = [], plTarget = [], plPod = [], plNode = [], plNodePool = [],
     plMachineType = [], plResourcePolicy = []\<rparr>"

definition runMetadataDecoder :: "run_metadata decoder" where
  "runMetadataDecoder = decStrict
     [(''schema_version'', decString (\<lambda>v m. m\<lparr>mtSchemaVersion := v\<rparr>)),
      (''run_id'', decString (\<lambda>v m. m\<lparr>mtRunID := v\<rparr>)),
      (''scenario_sha256'', decString (\<lambda>v m. m\<lparr>ScenarioSHA256 := v\<rparr>)),
      (''chain_id'', decUint64 (\<lambda>v m. m\<lparr>mtChainID := v\<rparr>)),
      (''runtime_specs'', decStructMap \<lparr>SecondsPerSlot = 0, SlotsPerEpoch = 0, ForkEpochs = []\<rparr> beaconSpecDecoder
        RuntimeSpecs (\<lambda>v m. m\<lparr>RuntimeSpecs := v\<rparr>)),
      (''runtime_genesis'', decStructMap
        \<lparr>genesisTime = 0, genesisSlot = 0, ValidatorsRoot = [], ForkVersion = []\<rparr> beaconGenesisDecoder
        RuntimeGenesis (\<lambda>v m. m\<lparr>RuntimeGenesis := v\<rparr>)),
      (''placements'', decSlice zeroPlacement placementDecoder (\<lambda>v m. m\<lparr>mtPlacements := v\<rparr>)),
      (''dependencies'', decField mtDependencies (\<lambda>v m. m\<lparr>mtDependencies := v\<rparr>) dependencyDecoder),
      (''order_seed'', decString (\<lambda>v m. m\<lparr>mtOrderSeed := v\<rparr>)),
      (''run_order'', decStrings (\<lambda>v m. m\<lparr>mtRunOrder := v\<rparr>)),
      (''fault_deadman_seconds'', decUint64 (\<lambda>v m. m\<lparr>FaultDeadmanSeconds := v\<rparr>))]"

end
