(* ===== verification/Evidence.thy ===== *)
theory Evidence
  imports Codec
begin

text \<open>
  Loading the stored runs (internal/experiment/io.go): the checksums, the manifest, the executed
  scenario, the metadata and the realized split of every run directory, and their agreement
  with the scenario that is analysed. The JSON and YAML decoders, SHA-256 and the file
  system are parameters; a file does not change while it is read.
\<close>

section \<open>Parameters\<close>

record codec =
  decodeStream :: "string \<Rightarrow> (json \<times> json_rest) option"
  decodeYAML :: "string \<Rightarrow> (scenario \<times> yaml_rest) option"
  Sum256 :: "string \<Rightarrow> string"

text \<open>\<^verbatim>\<open>fmt.Sprintf("%x", digest)\<close>\<close>

definition hexOf :: "string \<Rightarrow> string" where
  "hexOf bs = concat (map (\<lambda>b. [hexDigit (code b div 16), hexDigit (code b mod 16)]) bs)"

definition checksummedRunArtifacts :: "string list" where
  "checksummedRunArtifacts =
     [''manifest.json'', ''metadata.json'', ''raw-timeseries.jsonl'', ''realized-split.json'', ''scenario.yaml'']"

section \<open>Reading artifacts\<close>

datatype (plugins only: code size) artifact_err =
    ArtifactMissing string | ArtifactNotRegular string | ArtifactUnreadable string | ArtifactEmpty string

definition readRegularArtifact :: "host \<Rightarrow> string \<Rightarrow> string \<Rightarrow> artifact_err + string" where
  "readRegularArtifact h dir name =
     (let path = Join dir name in
      case Lstat h path of
        None \<Rightarrow> Inl (ArtifactMissing name)
      | Some (FileNode content) \<Rightarrow> if readable h path then Inr content else Inl (ArtifactUnreadable name)
      | Some _ \<Rightarrow> Inl (ArtifactNotRegular name))"

definition requireNonemptyRegularArtifact :: "host \<Rightarrow> string \<Rightarrow> string \<Rightarrow> artifact_err + unit" where
  "requireNonemptyRegularArtifact h dir name =
     (case Lstat h (Join dir name) of
        None \<Rightarrow> Inl (ArtifactMissing name)
      | Some (FileNode content) \<Rightarrow> if length content = 0 then Inl (ArtifactEmpty name) else Inr ()
      | Some _ \<Rightarrow> Inl (ArtifactNotRegular name))"

section \<open>Checksums\<close>

datatype (plugins only: code size) checksum_err =
    ChecksumsFile artifact_err | ChecksumsDecode strict_err | ChecksumEntries nat
  | NoValidChecksum string | ChecksumArtifact artifact_err | ChecksumMismatch string

definition checksumStep :: "codec \<Rightarrow> host \<Rightarrow> string \<Rightarrow> (string, string) gomap \<Rightarrow> string \<Rightarrow> checksum_err + unit" where
  "checksumStep cd h dir checksums name =
     (case map_of checksums name of
        None \<Rightarrow> Inl (NoValidChecksum name)
      | Some expected \<Rightarrow>
          if \<not> lowerHexN expected 64 then Inl (NoValidChecksum name)
          else bindR (wrapE ChecksumArtifact (readRegularArtifact h dir name)) (\<lambda>data.
            if hexOf (Sum256 cd data) \<noteq> expected then Inl (ChecksumMismatch name) else Inr ()))"

definition verifyRunChecksums :: "codec \<Rightarrow> host \<Rightarrow> string \<Rightarrow> checksum_err + unit" where
  "verifyRunChecksums cd h dir =
     bindR (wrapE ChecksumsFile (readRegularArtifact h dir ''checksums.json'')) (\<lambda>data.
     bindR (wrapE ChecksumsDecode (decodeOnly (decodeStream cd) (decStringMap (\<lambda>m. m) (\<lambda>m _. m)) [] data)) (\<lambda>checksums.
       if length checksums \<noteq> length checksummedRunArtifacts then Inl (ChecksumEntries (length checksums))
       else eachCheck (checksumStep cd h dir checksums) checksummedRunArtifacts))"

section \<open>Run metadata\<close>

definition multiplyUint64 :: "u64 \<Rightarrow> u64 \<Rightarrow> u64 \<times> bool" where
  "multiplyUint64 left right =
     (if left \<noteq> 0 \<and> MaxUint64 div left < right then (0, True) else (left * right, False))"

definition isPrefixedLowerHex :: "string \<Rightarrow> nat \<Rightarrow> bool" where
  "isPrefixedLowerHex v n \<longleftrightarrow> HasPrefix v ''0x'' \<and> lowerHexN (drop 2 v) n"

datatype (plugins only: code size) runtime_err =
    RuntimeCoverage | RuntimeTarget string | SpecIncomplete string | ForkEpochInvalid string string string
  | GenesisIncomplete string | SpecConflict string | GenesisConflict string

definition forkEpochCheck :: "string \<Rightarrow> string \<times> string \<Rightarrow> runtime_err + unit" where
  "forkEpochCheck target = (\<lambda>(name, epoch).
     if name = [] then Inl (ForkEpochInvalid target name epoch)
     else (case ParseUint 10 epoch of
             Inl _ \<Rightarrow> Inl (ForkEpochInvalid target name epoch)
           | Inr parsed \<Rightarrow> guardE (FormatUint parsed \<noteq> epoch) (ForkEpochInvalid target name epoch)))"

definition runtimeStep ::
  "run_metadata \<Rightarrow> participant \<Rightarrow> (beacon_spec \<times> beacon_genesis) option \<Rightarrow>
   runtime_err + (beacon_spec \<times> beacon_genesis) option" where
  "runtimeStep m p ref =
     (let target = BeaconTarget p in
      case (map_of (RuntimeSpecs m) target, map_of (RuntimeGenesis m) target) of
        (Some spec, Some genesis) \<Rightarrow>
          if SecondsPerSlot spec = 0 \<or> SlotsPerEpoch spec = 0 \<or> length (ForkEpochs spec) = 0
          then Inl (SpecIncomplete target)
          else bindR (eachCheck (forkEpochCheck target) (ForkEpochs spec)) (\<lambda>_.
            if genesisTime genesis = 0 \<or> \<not> isPrefixedLowerHex (ValidatorsRoot genesis) 64 \<or>
               \<not> isPrefixedLowerHex (ForkVersion genesis) 8
            then Inl (GenesisIncomplete target)
            else (case ref of
                    None \<Rightarrow> Inr (Some (spec, genesis))
                  | Some (rspec, rgenesis) \<Rightarrow>
                      if \<not> Spec_Compatible spec rspec \<or> \<not> Spec_Compatible rspec spec then Inl (SpecConflict target)
                      else if \<not> Genesis_Compatible genesis rgenesis then Inl (GenesisConflict target)
                      else Inr ref))
      | _ \<Rightarrow> Inl (RuntimeTarget target))"

definition validateRuntimeMetadata :: "run_metadata \<Rightarrow> scenario \<Rightarrow> runtime_err + beacon_spec" where
  "validateRuntimeMetadata m s =
     (if length (RuntimeSpecs m) \<noteq> length (scParticipants s) \<or>
         length (RuntimeGenesis m) \<noteq> length (scParticipants s)
      then Inl RuntimeCoverage
      else bindR (each (runtimeStep m) (scParticipants s) None) (\<lambda>ref.
        Inr (case ref of None \<Rightarrow> \<lparr>SecondsPerSlot = 0, SlotsPerEpoch = 0, ForkEpochs = []\<rparr> | Some (spec, _) \<Rightarrow> spec)))"

datatype (plugins only: code size) run_metadata_err =
    MetadataSchema string | MetadataRunID string string | MetadataDigest | MetadataChain u64 u64
  | MetadataOrder | MetadataDependencies | MetadataClosure metadata_err | MetadataPlacements placement_err
  | MetadataRuntime runtime_err | MetadataName run_id_err | ControlDeadman | DeadmanOverflow
  | DeadmanMismatch u64 u64

definition checkDeadman :: "run_metadata \<Rightarrow> scenario \<Rightarrow> beacon_spec \<Rightarrow> string \<Rightarrow> run_metadata_err + unit" where
  "checkDeadman m s spec condition =
     (if condition = ConditionControl
      then (if FaultDeadmanSeconds m \<noteq> 0 then Inl ControlDeadman else Inr ())
      else let deadmanEpochs = DurationEpochs (scFault s) + 2;
               (deadmanSlots, overflow) = multiplyUint64 deadmanEpochs (SlotsPerEpoch spec) in
        if overflow then Inl DeadmanOverflow
        else let (expectedSeconds, overflow') = multiplyUint64 deadmanSlots (SecondsPerSlot spec) in
          if overflow' \<or> FaultDeadmanSeconds m \<noteq> expectedSeconds
          then Inl (DeadmanMismatch (FaultDeadmanSeconds m) expectedSeconds) else Inr ())"

definition validateRunMetadata ::
  "codec \<Rightarrow> run_metadata \<Rightarrow> run_summary \<Rightarrow> scenario \<Rightarrow> string \<Rightarrow> run_metadata_err + unit" where
  "validateRunMetadata cd m run s scenarioData =
     (if mtSchemaVersion m \<noteq> MetadataSchemaVersion then Inl (MetadataSchema (mtSchemaVersion m))
      else if mtRunID m \<noteq> RunID run then Inl (MetadataRunID (mtRunID m) (RunID run))
      else if ScenarioSHA256 m \<noteq> hexOf (Sum256 cd scenarioData) then Inl MetadataDigest
      else if mtChainID m \<noteq> ChainID (scTarget s) then Inl (MetadataChain (mtChainID m) (ChainID (scTarget s)))
      else if mtOrderSeed m \<noteq> OrderSeed (scMethodology s) \<or> mtRunOrder m \<noteq> RunOrder (scMethodology s)
      then Inl MetadataOrder
      else if \<not> dependencyMetadataEqual (mtDependencies m) (Dependencies run) then Inl MetadataDependencies
      else bindR (wrapE MetadataClosure (ValidateDependencyMetadata (mtDependencies m))) (\<lambda>_.
           bindR (wrapE MetadataPlacements (ValidatePlacements s (mtPlacements m))) (\<lambda>_.
           bindR (wrapE MetadataRuntime (validateRuntimeMetadata m s)) (\<lambda>spec.
           bindR (wrapE MetadataName (parseRunID (RunID run))) (\<lambda>(condition, _).
             checkDeadman m s spec condition)))))"

section \<open>A run\<close>

text \<open>
  \<^verbatim>\<open>reflect.DeepEqual\<close> compares floating-point fields with \<^verbatim>\<open>==\<close>, so a value that holds a
  not-a-number is not deeply equal to anything.
\<close>

definition scenarioFloats :: "scenario \<Rightarrow> f64 list" where
  "scenarioFloats s = RealizedSplitTolerance (scThresholds s) # map Share (Groups (scFault s))"

definition DeepEqual_scenario :: "scenario \<Rightarrow> scenario \<Rightarrow> bool" where
  "DeepEqual_scenario a b \<longleftrightarrow> a = b \<and> NaN \<notin> set (scenarioFloats a)"

definition splitFloats :: "realized_split \<Rightarrow> f64 list" where
  "splitFloats r = rsTolerance r # concat (map (\<lambda>g. [gwRequestedShare g, gwRealizedShare g]) (rsGroups r))"

definition DeepEqual_split :: "realized_split \<Rightarrow> realized_split \<Rightarrow> bool" where
  "DeepEqual_split a b \<longleftrightarrow> a = b \<and> NaN \<notin> set (splitFloats a)"

datatype (plugins only: code size) evidence_err =
    EvidenceFile artifact_err | ManifestFile strict_err | ManifestRunID string string | ScenarioFile parse_err
  | ScenarioDiffers | MetadataFile strict_err | MetadataInvalid run_metadata_err | SplitFile strict_err
  | SplitDiffers | SplitInvalid stored_err

definition parseRunSummary :: "codec \<Rightarrow> string \<Rightarrow> strict_err + run_summary" where
  "parseRunSummary cd data = decodeOnly (decodeStream cd) runDecoder zeroRun data"

definition loadRunEvidence :: "codec \<Rightarrow> host \<Rightarrow> string \<Rightarrow> string \<Rightarrow> scenario \<Rightarrow> evidence_err + run_summary" where
  "loadRunEvidence cd h dir expectedRunID s =
     bindR (wrapE EvidenceFile (readRegularArtifact h dir ''manifest.json'')) (\<lambda>manifestData.
     bindR (wrapE ManifestFile (parseRunSummary cd manifestData)) (\<lambda>run.
       if RunID run \<noteq> expectedRunID then Inl (ManifestRunID (RunID run) expectedRunID)
       else
     bindR (wrapE EvidenceFile (readRegularArtifact h dir ''scenario.yaml'')) (\<lambda>scenarioData.
     bindR (wrapE ScenarioFile (Scenario_Parse (decodeYAML cd) (Sum256 cd) scenarioData)) (\<lambda>executed.
       if \<not> DeepEqual_scenario executed s then Inl ScenarioDiffers
       else
     bindR (wrapE EvidenceFile (readRegularArtifact h dir ''metadata.json'')) (\<lambda>metadataData.
     bindR (wrapE MetadataFile (decodeOnly (decodeStream cd) runMetadataDecoder zeroRunMetadata metadataData)) (\<lambda>m.
     bindR (wrapE MetadataInvalid (validateRunMetadata cd m run s scenarioData)) (\<lambda>_.
     bindR (wrapE EvidenceFile (readRegularArtifact h dir ''realized-split.json'')) (\<lambda>splitData.
     bindR (wrapE SplitFile (decodeOnly (decodeStream cd) splitDecoder zeroSplit splitData)) (\<lambda>split.
       if \<not> DeepEqual_split split (RealizedSplit run) then Inl SplitDiffers
       else
     bindR (wrapE SplitInvalid (ValidateRealizedSplit s split)) (\<lambda>_.
     bindR (wrapE EvidenceFile (requireNonemptyRegularArtifact h dir ''raw-timeseries.jsonl'')) (\<lambda>_.
       Inr run)))))))))))"

section \<open>The runs root\<close>

datatype (plugins only: code size) load_err =
    InsideKubernetes | RootUnresolved | RootMissing | RootNotDirectory | RootLinks | RootIsClusterStorage
  | DirectoryMissing string | DirectoryNotReal string | ChecksumsRejected string checksum_err
  | EvidenceRejected string evidence_err

definition loadStep :: "codec \<Rightarrow> host \<Rightarrow> string \<Rightarrow> scenario \<Rightarrow> string \<Rightarrow> load_err + run_summary" where
  "loadStep cd h rt s runID =
     (let dir = Join rt runID in
      case Lstat h dir of
        None \<Rightarrow> Inl (DirectoryMissing runID)
      | Some DirNode \<Rightarrow>
          bindR (wrapE (ChecksumsRejected runID) (verifyRunChecksums cd h dir)) (\<lambda>_.
            wrapE (EvidenceRejected runID) (loadRunEvidence cd h dir runID s))
      | Some _ \<Rightarrow> Inl (DirectoryNotReal runID))"

definition LoadRunSummaries :: "codec \<Rightarrow> host \<Rightarrow> string \<Rightarrow> scenario \<Rightarrow> load_err + run_summary list" where
  "LoadRunSummaries cd h rt s =
     (if serviceHost h \<noteq> [] then Inl InsideKubernetes
      else case Abs h rt of
        None \<Rightarrow> Inl RootUnresolved
      | Some absoluteRoot \<Rightarrow>
          (case Lstat h absoluteRoot of
             None \<Rightarrow> Inl RootMissing
           | Some DirNode \<Rightarrow>
               (case evalSymlinks h absoluteRoot of
                  None \<Rightarrow> Inl RootLinks
                | Some resolvedRoot \<Rightarrow>
                    if clusterStorage resolvedRoot then Inl RootIsClusterStorage
                    else each (\<lambda>runID runs. bindR (loadStep cd h resolvedRoot s runID) (\<lambda>run. Inr (runs @ [run])))
                           (RunOrder (scMethodology s)) [])
           | Some _ \<Rightarrow> Inl RootNotDirectory))"

section \<open>What decoding keeps\<close>

definition keeps :: "('s \<Rightarrow> bool) \<Rightarrow> 's decoder \<Rightarrow> bool" where
  "keeps P d \<longleftrightarrow> (\<forall>j s. P s \<longrightarrow> P (snd (d j s)))"

named_theorems keeps_rules \<open>decoders that keep a property of the state\<close>

lemma fieldFor_in: "fieldFor fs k = Some d \<Longrightarrow> d \<in> snd ` set fs"
proof -
  assume "fieldFor fs k = Some d"
  then consider "map_of fs k = Some d" | p where "find (\<lambda>(n, _). foldName n = foldName k) fs = Some p" "snd p = d"
    by (auto split: option.splits)
  then show ?thesis
    by cases (force dest: map_of_SomeD simp: find_Some_iff in_set_conv_nth)+
qed

lemma keeps_members:
  assumes "\<forall>d \<in> snd ` set fs. keeps P d" "P s"
  shows "P (snd (decMembersStrict fs kvs s))"
  using assms(2)
proof (induction kvs arbitrary: s)
  case (Cons kv kvs)
  obtain k v where kv: "kv = (k, v)" by (cases kv)
  show ?case
  proof (cases "fieldFor fs k")
    case None
    then show ?thesis using Cons by (simp add: kv)
  next
    case (Some d)
    then have "keeps P d" using assms(1) fieldFor_in by metis
    then have "P (snd (d v s))" using Cons.prems by (simp add: keeps_def)
    then show ?thesis using Cons.IH Some by (simp add: kv case_prod_unfold Let_def)
  qed
qed simp

lemma keeps_decStrict [keeps_rules]: "\<forall>d \<in> snd ` set fs. keeps P d \<Longrightarrow> keeps P (decStrict fs)"
  using keeps_members [of fs P] by (auto simp: keeps_def decStrict_def split: json.splits)

lemma keeps_fields [keeps_rules]:
  "(\<And>v s. P s \<Longrightarrow> P (put v s)) \<Longrightarrow> keeps P (decString put)"
  "(\<And>v s. P s \<Longrightarrow> P (put' v s)) \<Longrightarrow> keeps P (decBool put')"
  "(\<And>v s. P s \<Longrightarrow> P (put'' v s)) \<Longrightarrow> keeps P (decUint64 put'')"
  "(\<And>v s. P s \<Longrightarrow> P (putS v s)) \<Longrightarrow> keeps P (decSlice z d putS)"
  "(\<And>v s. P s \<Longrightarrow> P (putT v s)) \<Longrightarrow> keeps P (decTime putT)"
  "(\<And>v s. P s \<Longrightarrow> P (putL v s)) \<Longrightarrow> keeps P (decStrings putL)"
  by (auto simp: keeps_def decString_def decBool_def decUint64_def decSlice_def decTime_def decStrings_def Let_def
      split: json.splits sum.splits option.splits)

lemma keeps_decField [keeps_rules]:
  "keeps Q d \<Longrightarrow> (\<And>s. P s \<Longrightarrow> Q (get s)) \<Longrightarrow> (\<And>v s. P s \<Longrightarrow> Q v \<Longrightarrow> P (put v s)) \<Longrightarrow>
   keeps P (decField get put d)"
  by (auto simp: keeps_def decField_def case_prod_unfold Let_def)

lemma gomap_decStringMembers: "gomap m \<Longrightarrow> gomap (snd (decStringMembers kvs m))"
  by (induction kvs m rule: decStringMembers.induct) simp_all

lemma keeps_decStringMap [keeps_rules]:
  "(\<And>s. P s \<Longrightarrow> gomap (get s)) \<Longrightarrow> (\<And>m s. P s \<Longrightarrow> gomap m \<Longrightarrow> P (put m s)) \<Longrightarrow> keeps P (decStringMap get put)"
  using gomap_decStringMembers
  by (auto simp: keeps_def decStringMap_def case_prod_unfold Let_def split: json.splits)

lemma keeps_decStructMap [keeps_rules]:
  "(\<And>m s. P s \<Longrightarrow> P (put m s)) \<Longrightarrow> keeps P (decStructMap z d get put)"
  by (auto simp: keeps_def decStructMap_def split: json.splits prod.splits)

lemma decodeOnly_keeps: "keeps P d \<Longrightarrow> P z \<Longrightarrow> decodeOnly decode d z data = Inr v \<Longrightarrow> P v"
  by (auto simp: keeps_def decodeOnly_def unmarshal_def split: option.splits prod.splits bool.splits json_rest.splits)
     (metis snd_conv)

lemma keeps_dependencyDecoder: "keeps gomapMetadata dependencyDecoder"
  unfolding dependencyDecoder_def
  by (rule keeps_decStrict) (auto simp: gomapMetadata_def intro!: keeps_rules)

lemma parseRunSummary_gomap:
  assumes "parseRunSummary cd data = Inr run"
  shows "gomapMetadata (Dependencies run)"
proof -
  have "keeps (\<lambda>r. gomapMetadata (Dependencies r)) runDecoder"
    unfolding runDecoder_def
    by (intro keeps_decStrict) (auto intro!: keeps_fields keeps_decField [where Q = "\<lambda>_. True"]
        keeps_decField [where Q = gomapMetadata and d = dependencyDecoder] keeps_dependencyDecoder simp: keeps_def [of "\<lambda>_. True"])
  from decodeOnly_keeps [OF this _ assms [unfolded parseRunSummary_def]] show ?thesis
    by (simp add: zeroRun_def zeroMetadata_def gomapMetadata_def)
qed

lemma runMetadata_gomap:
  assumes "decodeOnly decode runMetadataDecoder zeroRunMetadata data = Inr m"
  shows "gomapMetadata (mtDependencies m)"
proof -
  have "keeps (\<lambda>m. gomapMetadata (mtDependencies m)) runMetadataDecoder"
    unfolding runMetadataDecoder_def
    by (intro keeps_decStrict) (auto intro!: keeps_fields keeps_decStructMap
        keeps_decField [where Q = gomapMetadata] keeps_dependencyDecoder)
  from decodeOnly_keeps [OF this _ assms] show ?thesis
    by (simp add: zeroRunMetadata_def zeroMetadata_def gomapMetadata_def)
qed

section \<open>What a stored run has to be\<close>

lemma hexDigit_lower: "n < 16 \<Longrightarrow> isHexLower (hexDigit n)"
  by (auto simp: hexDigit_def isHexLower_def isDigit_def code_char_of)

lemma lowerHexN_hexOf: "lowerHexN (hexOf bs) (2 * length bs)"
proof -
  have "code c div 16 < 16" for c :: char
    by (rule less_mult_imp_div_less) (simp add: code_def)
  then show ?thesis by (induction bs) (auto simp: hexOf_def lowerHexN_def intro!: hexDigit_lower)
qed

text \<open>A regular, readable file, and the files that the recorded checksums cover.\<close>

definition artifactFile :: "host \<Rightarrow> string \<Rightarrow> string \<Rightarrow> string \<Rightarrow> bool" where
  "artifactFile h dir name content \<longleftrightarrow>
     Lstat h (Join dir name) = Some (FileNode content) \<and> readable h (Join dir name)"

definition checksummed :: "codec \<Rightarrow> host \<Rightarrow> string \<Rightarrow> bool" where
  "checksummed cd h dir \<longleftrightarrow> (\<exists>data checksums.
     artifactFile h dir ''checksums.json'' data \<and>
     decodeOnly (decodeStream cd) (decStringMap (\<lambda>m. m) (\<lambda>m _. m)) [] data = Inr checksums \<and>
     set (keys checksums) = set checksummedRunArtifacts \<and>
     (\<forall>name \<in> set checksummedRunArtifacts. \<exists>content.
        artifactFile h dir name content \<and> lowerHexN (hexOf (Sum256 cd content)) 64 \<and>
        map_of checksums name = Some (hexOf (Sum256 cd content))))"

text \<open>One target's runtime metadata, and the agreement of all targets with the first participant's.\<close>

definition runtimeTarget :: "run_metadata \<Rightarrow> string \<Rightarrow> beacon_spec \<Rightarrow> beacon_genesis \<Rightarrow> bool" where
  "runtimeTarget m target spec genesis \<longleftrightarrow>
     map_of (RuntimeSpecs m) target = Some spec \<and> map_of (RuntimeGenesis m) target = Some genesis \<and>
     0 < SecondsPerSlot spec \<and> 0 < SlotsPerEpoch spec \<and> ForkEpochs spec \<noteq> [] \<and>
     (\<forall>(name, epoch) \<in> set (ForkEpochs spec). name \<noteq> [] \<and> (\<exists>x. epoch = FormatUint x)) \<and>
     0 < genesisTime genesis \<and> isPrefixedLowerHex (ValidatorsRoot genesis) 64 \<and>
     isPrefixedLowerHex (ForkVersion genesis) 8"

definition runtimeAgrees :: "run_metadata \<Rightarrow> scenario \<Rightarrow> beacon_spec \<Rightarrow> bool" where
  "runtimeAgrees m s reference \<longleftrightarrow>
     length (RuntimeSpecs m) = length (scParticipants s) \<and> length (RuntimeGenesis m) = length (scParticipants s) \<and>
     (\<exists>genesis. runtimeTarget m (BeaconTarget (hd (scParticipants s))) reference genesis \<and>
       (\<forall>p \<in> set (tl (scParticipants s)). \<exists>spec. runtimeTarget m (BeaconTarget p) spec genesis \<and>
          Spec_Compatible spec reference \<and> Spec_Compatible reference spec))"

text \<open>The deadman of a fault run as a number, without a bound on it.\<close>

definition deadmanSeconds :: "scenario \<Rightarrow> beacon_spec \<Rightarrow> nat" where
  "deadmanSeconds s spec = (unat (DurationEpochs (scFault s)) + 2) * unat (SlotsPerEpoch spec) * unat (SecondsPerSlot spec)"

definition metadataAgrees :: "codec \<Rightarrow> run_metadata \<Rightarrow> run_summary \<Rightarrow> scenario \<Rightarrow> string \<Rightarrow> bool" where
  "metadataAgrees cd m run s scenarioData \<longleftrightarrow>
     mtSchemaVersion m = MetadataSchemaVersion \<and> mtRunID m = RunID run \<and>
     ScenarioSHA256 m = hexOf (Sum256 cd scenarioData) \<and> mtChainID m = ChainID (scTarget s) \<and>
     mtOrderSeed m = OrderSeed (scMethodology s) \<and> mtRunOrder m = RunOrder (scMethodology s) \<and>
     dependencyMetadataEqual (mtDependencies m) (Dependencies run) \<and>
     ValidateDependencyMetadata (mtDependencies m) = Inr () \<and> ValidatePlacements s (mtPlacements m) = Inr () \<and>
     (\<exists>spec condition repetition. runtimeAgrees m s spec \<and> parseRunID (RunID run) = Inr (condition, repetition) \<and>
        unat (FaultDeadmanSeconds m) = (if condition = ConditionControl then 0 else deadmanSeconds s spec))"

definition storedRun :: "codec \<Rightarrow> host \<Rightarrow> scenario \<Rightarrow> string \<Rightarrow> run_summary \<Rightarrow> bool" where
  "storedRun cd h s dir run \<longleftrightarrow> Lstat h dir = Some DirNode \<and> checksummed cd h dir \<and>
     (\<exists>manifest scen meta split series m.
        artifactFile h dir ''manifest.json'' manifest \<and> parseRunSummary cd manifest = Inr run \<and>
        artifactFile h dir ''scenario.yaml'' scen \<and> Scenario_Parse (decodeYAML cd) (Sum256 cd) scen = Inr s \<and>
        artifactFile h dir ''metadata.json'' meta \<and>
        decodeOnly (decodeStream cd) runMetadataDecoder zeroRunMetadata meta = Inr m \<and>
        metadataAgrees cd m run s scen \<and>
        artifactFile h dir ''realized-split.json'' split \<and>
        decodeOnly (decodeStream cd) splitDecoder zeroSplit split = Inr (RealizedSplit run) \<and>
        ValidateRealizedSplit s (RealizedSplit run) = Inr () \<and>
        Lstat h (Join dir ''raw-timeseries.jsonl'') = Some (FileNode series) \<and> series \<noteq> [] \<and>
        NaN \<notin> set (scenarioFloats s) \<and> NaN \<notin> set (splitFloats (RealizedSplit run)))"

section \<open>The loader decides exactly that\<close>

lemma readRegularArtifact_Inr: "readRegularArtifact h dir name = Inr c \<longleftrightarrow> artifactFile h dir name c"
  by (auto simp: readRegularArtifact_def artifactFile_def Let_def split: option.splits fs_node.splits)

lemma requireNonempty_Inr:
  "requireNonemptyRegularArtifact h dir name = Inr u \<longleftrightarrow>
     (\<exists>c. Lstat h (Join dir name) = Some (FileNode c) \<and> c \<noteq> [])"
  by (auto simp: requireNonemptyRegularArtifact_def split: option.splits fs_node.splits)

lemma checksumStep_Inr:
  "checksumStep cd h dir checksums name = Inr u \<longleftrightarrow> (\<exists>content. artifactFile h dir name content \<and>
     lowerHexN (hexOf (Sum256 cd content)) 64 \<and> map_of checksums name = Some (hexOf (Sum256 cd content)))"
  by (auto simp: checksumStep_def result_simps readRegularArtifact_Inr split: option.splits)

lemma verifyRunChecksums_Inr: "verifyRunChecksums cd h dir = Inr () \<longleftrightarrow> checksummed cd h dir"
proof -
  let ?dec = "decodeOnly (decodeStream cd) (decStringMap (\<lambda>m. m) (\<lambda>m _. m)) []"
  have "length checksums = length checksummedRunArtifacts \<longleftrightarrow> set (keys checksums) = set checksummedRunArtifacts"
    if dec: "?dec data = Inr checksums" and all: "\<forall>name \<in> set checksummedRunArtifacts. map_of checksums name \<noteq> None"
    for data checksums
  proof -
    have "gomap checksums"
      by (rule decodeOnly_keeps [OF _ _ dec]) (auto intro!: keeps_decStringMap)
    then have "length checksums = card (set (keys checksums))"
      by (metis distinct_card gomap_def length_map)
    moreover have "distinct checksummedRunArtifacts" by (simp add: checksummedRunArtifacts_def)
    then have "length checksummedRunArtifacts = card (set checksummedRunArtifacts)" by (simp add: distinct_card)
    moreover have "set checksummedRunArtifacts \<subseteq> set (keys checksums)"
      using all by (auto simp: map_of_eq_None_iff)
    ultimately show ?thesis by (metis List.finite_set card_subset_eq)
  qed
  then show ?thesis
    unfolding verifyRunChecksums_def checksummed_def bindR_Inr_iff wrapE_Inr_iff if_Inl_Inr_iff eachCheck_Inr_iff
      readRegularArtifact_Inr checksumStep_Inr
    by (metis not_None_eq)
qed

lemma forkEpochCheck_Inr:
  "forkEpochCheck target p = Inr u \<longleftrightarrow> (case p of (name, epoch) \<Rightarrow> name \<noteq> [] \<and> (\<exists>x. epoch = FormatUint x))"
  by (auto simp: forkEpochCheck_def guardE_Inr_iff ParseUint_FormatUint split: sum.splits prod.splits)

lemma runtimeStep_first:
  "runtimeStep m p None = Inr r \<longleftrightarrow> (\<exists>spec genesis. r = Some (spec, genesis) \<and> runtimeTarget m (BeaconTarget p) spec genesis)"
  by (auto simp: runtimeStep_def runtimeTarget_def Let_def result_simps forkEpochCheck_Inr word_gt_0
      split: option.splits)

lemma runtimeStep_next:
  "runtimeStep m p (Some (rspec, rgenesis)) = Inr r \<longleftrightarrow> r = Some (rspec, rgenesis) \<and>
     (\<exists>spec. runtimeTarget m (BeaconTarget p) spec rgenesis \<and> Spec_Compatible spec rspec \<and> Spec_Compatible rspec spec)"
  by (auto simp: runtimeStep_def runtimeTarget_def Let_def result_simps forkEpochCheck_Inr word_gt_0
      Genesis_Compatible_def split: option.splits)

lemma each_runtimeStep_next:
  "each (runtimeStep m) ps (Some (rspec, rgenesis)) = Inr r \<longleftrightarrow> r = Some (rspec, rgenesis) \<and>
     (\<forall>p \<in> set ps. \<exists>spec. runtimeTarget m (BeaconTarget p) spec rgenesis \<and>
        Spec_Compatible spec rspec \<and> Spec_Compatible rspec spec)"
  by (induction ps) (auto simp: bindR_Inr_iff runtimeStep_next)

lemma each_runtimeStep:
  "each (runtimeStep m) (p # ps) None = Inr r \<longleftrightarrow> (\<exists>rspec rgenesis. r = Some (rspec, rgenesis) \<and>
     runtimeTarget m (BeaconTarget p) rspec rgenesis \<and>
     (\<forall>p \<in> set ps. \<exists>spec. runtimeTarget m (BeaconTarget p) spec rgenesis \<and>
        Spec_Compatible spec rspec \<and> Spec_Compatible rspec spec))"
  (is "_ = ?R")
proof
  assume "each (runtimeStep m) (p # ps) None = Inr r"
  then show "?R" by (auto simp: bindR_Inr_iff runtimeStep_first each_runtimeStep_next)
next
  assume ?R
  then obtain rspec rgenesis where r: "r = Some (rspec, rgenesis)" "runtimeTarget m (BeaconTarget p) rspec rgenesis"
    and all: "\<forall>p \<in> set ps. \<exists>spec. runtimeTarget m (BeaconTarget p) spec rgenesis \<and>
        Spec_Compatible spec rspec \<and> Spec_Compatible rspec spec" by blast
  have "runtimeStep m p None = Inr r" using r by (simp add: runtimeStep_first)
  then show "each (runtimeStep m) (p # ps) None = Inr r" using all r(1) by (simp add: each_runtimeStep_next)
qed

lemma validateRuntimeMetadata_Inr:
  assumes "scParticipants s \<noteq> []"
  shows "validateRuntimeMetadata m s = Inr spec \<longleftrightarrow> runtimeAgrees m s spec"
proof -
  obtain p ps where ps: "scParticipants s = p # ps" using assms by (cases "scParticipants s") auto
  show ?thesis
    unfolding validateRuntimeMetadata_def runtimeAgrees_def if_Inl_Inr_iff bindR_Inr_iff ps each_runtimeStep list.sel
    by (simp only: de_Morgan_disj not_not) fastforce
qed

lemma multiplyUint64_exact:
  "multiplyUint64 a b = (if unat a * unat b < 2 ^ 64 then (a * b, False) else (0, True))"
proof (cases "a = 0")
  case True
  then show ?thesis by (simp add: multiplyUint64_def)
next
  case False
  then show ?thesis using max_div_less_iff [OF False, of b] by (simp add: multiplyUint64_def)
qed

lemma unat_eq_mult64: "unat (f :: u64) = unat x * unat y \<longleftrightarrow> unat x * unat y < 2 ^ 64 \<and> f = x * y"
proof
  assume f: "unat f = unat x * unat y"
  then have lt: "unat x * unat y < 2 ^ 64" using unat_lt64 [of f] by simp
  with f show "unat x * unat y < 2 ^ 64 \<and> f = x * y" using unat_mult64 [OF lt] by (simp add: word_unat_eq_iff)
qed (simp add: unat_mult64)

lemma checkDeadman_Inr:
  assumes "DurationEpochs (scFault s) = 3" "0 < SecondsPerSlot spec"
  shows "checkDeadman m s spec condition = Inr () \<longleftrightarrow>
     unat (FaultDeadmanSeconds m) = (if condition = ConditionControl then 0 else deadmanSeconds s spec)"
proof -
  let ?a = "unat (SlotsPerEpoch spec)" and ?b = "unat (SecondsPerSlot spec)" and ?f = "FaultDeadmanSeconds m"
  have d: "DurationEpochs (scFault s) + 2 = 5" "deadmanSeconds s spec = 5 * ?a * ?b"
    using assms(1) by (simp_all add: deadmanSeconds_def)
  have b: "1 \<le> ?b" using assms(2) by (simp add: Suc_le_eq unat_gt_0 word_gt_0)
  show ?thesis
  proof (cases "5 * ?a < 2 ^ 64")
    case False
    then have "2 ^ 64 \<le> 5 * ?a * ?b" using b mult_le_mono [of "2 ^ 64" "5 * ?a" 1 ?b] by simp
    then have "unat ?f \<noteq> 5 * ?a * ?b" using unat_not_big [of "2 ^ 64" "5 * ?a * ?b" ?f] by simp
    then show ?thesis using False
      by (simp add: checkDeadman_def multiplyUint64_exact d unat_eq_zero Let_def)
  next
    case True
    then have u: "unat (5 * SlotsPerEpoch spec) = 5 * ?a" using unat_mult64 [of 5 "SlotsPerEpoch spec"] by simp
    have "unat ?f = 5 * ?a * ?b \<longleftrightarrow> 5 * ?a * ?b < 2 ^ 64 \<and> ?f = 5 * SlotsPerEpoch spec * SecondsPerSlot spec"
      using unat_eq_mult64 [of ?f "5 * SlotsPerEpoch spec" "SecondsPerSlot spec"] u by simp
    then show ?thesis using True u
      by (auto simp: checkDeadman_def multiplyUint64_exact d unat_eq_zero Let_def)
  qed
qed

lemma Scenario_Parse_Inr:
  "Scenario_Parse yaml sum256 data = Inr s \<Longrightarrow> Scenario_Validate sum256 s = Inr ()"
  by (auto simp: Scenario_Parse_def result_simps split: option.splits prod.splits yaml_rest.splits if_splits)

lemma validateRunMetadata_Inr:
  assumes "Scenario_Validate sum256 s = Inr ()"
  shows "validateRunMetadata cd m run s scenarioData = Inr () \<longleftrightarrow> metadataAgrees cd m run s scenarioData"
proof -
  note parts = Scenario_Validate_parts [OF assms]
  have ne: "scParticipants s \<noteq> []" using parts(1) by (auto simp: validParticipants_def)
  have d: "DurationEpochs (scFault s) = 3" using parts(2) by (simp add: validFault_def)
  have pos: "runtimeAgrees m s spec \<Longrightarrow> 0 < SecondsPerSlot spec" for spec
    by (auto simp: runtimeAgrees_def runtimeTarget_def)
  show ?thesis
    unfolding validateRunMetadata_def metadataAgrees_def if_Inl_Inr_iff bindR_Inr_iff wrapE_Inr_iff
      validateRuntimeMetadata_Inr [OF ne]
    using pos checkDeadman_Inr [OF d] by (auto simp: case_prod_unfold) (metis fst_conv)+
qed

lemma loadRunEvidence_Inr:
  "Lstat h dir = Some DirNode \<and> checksummed cd h dir \<and> loadRunEvidence cd h dir i s = Inr run \<longleftrightarrow>
   storedRun cd h s dir run \<and> RunID run = i"
proof -
  have v: "Scenario_Parse (decodeYAML cd) (Sum256 cd) scen = Inr s \<Longrightarrow>
      validateRunMetadata cd m run s data = Inr () \<longleftrightarrow> metadataAgrees cd m run s data" for scen m data
    by (rule validateRunMetadata_Inr [OF Scenario_Parse_Inr])
  show ?thesis
    unfolding loadRunEvidence_def storedRun_def if_Inl_Inr_iff bindR_Inr_iff wrapE_Inr_iff readRegularArtifact_Inr
      requireNonempty_Inr DeepEqual_scenario_def DeepEqual_split_def not_not
    using v by auto blast+
qed

lemma loadStep_Inr:
  "loadStep cd h rt s i = Inr run \<longleftrightarrow> storedRun cd h s (Join rt i) run \<and> RunID run = i"
  unfolding loadRunEvidence_Inr [symmetric] loadStep_def Let_def
  by (auto simp: result_simps verifyRunChecksums_Inr split: option.splits fs_node.splits)

lemma LoadRunSummaries_Inr:
  "LoadRunSummaries cd h rt s = Inr runs \<longleftrightarrow>
     serviceHost h = [] \<and>
     (\<exists>path dir. Abs h rt = Some path \<and> Lstat h path = Some DirNode \<and> evalSymlinks h path = Some dir \<and>
        \<not> clusterStorage dir \<and>
        list_all2 (\<lambda>i run. RunID run = i \<and> storedRun cd h s (Join dir i) run) (RunOrder (scMethodology s)) runs)"
proof -
  have "each (\<lambda>i runs. bindR (loadStep cd h dir s i) (\<lambda>run. Inr (runs @ [run]))) names [] = Inr runs \<longleftrightarrow>
      list_all2 (\<lambda>i run. RunID run = i \<and> storedRun cd h s (Join dir i) run) names runs" for dir names
    using each_collect [of "\<lambda>i runs. bindR (loadStep cd h dir s i) (\<lambda>run. Inr (runs @ [run]))" "loadStep cd h dir s"
        names "[]" runs]
    by (simp add: loadStep_Inr conj_commute)
  then show ?thesis
    by (auto simp: LoadRunSummaries_def split: option.splits fs_node.splits)
qed

lemma sameMetadata_valid:
  assumes "sameMetadata l r" "gomapMetadata l" "gomapMetadata r" "ValidateDependencyMetadata l = Inr ()"
  shows "ValidateDependencyMetadata r = Inr ()"
proof -
  have "set (ImportedPackages l) = set (ImportedPackages r)" "set (RuntimeImages l) = set (RuntimeImages r)"
    using assms(1-3) by (auto simp: sameMetadata_def gomapMetadata_def map_of_Some_iff [symmetric] set_eq_iff)
  moreover from this have "length (ImportedPackages l) = 0 \<longleftrightarrow> length (ImportedPackages r) = 0"
      "length (RuntimeImages l) = 0 \<longleftrightarrow> length (RuntimeImages r) = 0"
    by (metis length_0_conv set_empty)+
  ultimately show ?thesis using assms(1,4)
    unfolding ValidateDependencyMetadata_def if_Inl_Inr_iff bindR_Inr_iff eachCheck_Inr_iff sameMetadata_def by auto
qed

lemma storedRun_facts:
  assumes "storedRun cd h s dir run"
  shows "Scenario_Validate (Sum256 cd) s = Inr ()" "gomapMetadata (Dependencies run)"
    "ValidateDependencyMetadata (Dependencies run) = Inr ()" "ValidateRealizedSplit s (RealizedSplit run) = Inr ()"
proof -
  from assms obtain manifest scen meta m where *: "parseRunSummary cd manifest = Inr run"
      "Scenario_Parse (decodeYAML cd) (Sum256 cd) scen = Inr s"
      "decodeOnly (decodeStream cd) runMetadataDecoder zeroRunMetadata meta = Inr m" "metadataAgrees cd m run s scen"
      and split: "ValidateRealizedSplit s (RealizedSplit run) = Inr ()"
    unfolding storedRun_def by blast
  show "Scenario_Validate (Sum256 cd) s = Inr ()" by (rule Scenario_Parse_Inr [OF *(2)])
  show g: "gomapMetadata (Dependencies run)" by (rule parseRunSummary_gomap [OF *(1)])
  note gm = runMetadata_gomap [OF *(3)]
  have valid: "ValidateDependencyMetadata (mtDependencies m) = Inr ()"
      "dependencyMetadataEqual (mtDependencies m) (Dependencies run)"
    using *(4) by (simp_all add: metadataAgrees_def)
  then have "sameMetadata (mtDependencies m) (Dependencies run)"
    using dependencyMetadataEqual_iff [OF valid(1) gm g] by simp
  from sameMetadata_valid [OF this gm g valid(1)] show "ValidateDependencyMetadata (Dependencies run) = Inr ()" .
  show "ValidateRealizedSplit s (RealizedSplit run) = Inr ()" by (rule split)
qed

text \<open>
  C7: Loading succeeds exactly on a real directory outside the cluster and its storage whose run
  directories, in the preregistered order, each hold a stored run: five artifacts that match
  their recorded checksums, a manifest with the name of the directory, the analysed scenario,
  metadata that agree with both and with the runtime of every target, the deadman of the
  fault as an exact product, and the realized split.
\<close>

theorem LoadRunSummaries_exact:
  "LoadRunSummaries cd h rt s = Inr runs \<longleftrightarrow>
     serviceHost h = [] \<and>
     (\<exists>path dir. Abs h rt = Some path \<and> Lstat h path = Some DirNode \<and> evalSymlinks h path = Some dir \<and>
        \<not> clusterStorage dir \<and>
        list_all2 (\<lambda>i run. RunID run = i \<and> storedRun cd h s (Join dir i) run) (RunOrder (scMethodology s)) runs)"
  by (rule LoadRunSummaries_Inr)

lemma loaded_adjudicated:
  assumes "LoadRunSummaries cd h rt s = Inr runs" "RunOrder (scMethodology s) \<noteq> []"
  shows "(\<exists>a. Analyze (Sum256 cd) s runs now = Inr a) \<longleftrightarrow>
     (\<forall>r \<in> set runs. rnSchemaVersion r = RunSchemaVersion \<and> parseRunID (RunID r) = Inr (Condition r, Repetition r)) \<and>
     (\<forall>r \<in> set runs. \<forall>r' \<in> set runs. sameMetadata (Dependencies r) (Dependencies r'))"
proof -
  from assms(1) obtain dir where all: "list_all2 (\<lambda>i run. RunID run = i \<and> storedRun cd h s (Join dir i) run)
      (RunOrder (scMethodology s)) runs" unfolding LoadRunSummaries_Inr by blast
  have ids: "map RunID runs = RunOrder (scMethodology s)"
    using all by (induction rule: list_all2_induct) simp_all
  have stored: "\<exists>d. storedRun cd h s d r" if "r \<in> set runs" for r
    using all that by (auto simp: list_all2_conv_all_nth in_set_conv_nth)
  have "runs \<noteq> []" using ids assms(2) by auto
  then obtain r0 where "r0 \<in> set runs" by (cases runs) auto
  then have valid: "Scenario_Validate (Sum256 cd) s = Inr ()" using stored storedRun_facts(1) by blast
  note adj = Scenario_adjudicable [OF valid]
  have "mset (map RunID runs) = mset expectedRuns" using adj ids by (simp add: adjudicable_def)
  moreover have "list_all (acceptable s) runs \<longleftrightarrow>
      (\<forall>r \<in> set runs. rnSchemaVersion r = RunSchemaVersion \<and> parseRunID (RunID r) = Inr (Condition r, Repetition r))"
    using stored storedRun_facts(3,4) by (auto simp: acceptable_def list_all_iff) blast+
  moreover have "\<forall>r \<in> set runs. gomapMetadata (Dependencies r)" using stored storedRun_facts(2) by blast
  ultimately show ?thesis
    using Analyze_decides [of "Sum256 cd" s runs now] valid by (simp add: acceptedRuns_iff del: mset_map)
qed

text \<open>
  C6: A loaded experiment is adjudicated exactly when every manifest has the schema version and the
  condition and repetition of its name, and all runs have the same dependency closure: whatever
  else the analysis asks of a run, loading has established.
\<close>

theorem Evidence_adjudicated:
  assumes "LoadRunSummaries cd h rt s = Inr runs" "RunOrder (scMethodology s) \<noteq> []"
  shows "(\<exists>a. Analyze (Sum256 cd) s runs now = Inr a) \<longleftrightarrow>
     (\<forall>r \<in> set runs. rnSchemaVersion r = RunSchemaVersion \<and> parseRunID (RunID r) = Inr (Condition r, Repetition r)) \<and>
     (\<forall>r \<in> set runs. \<forall>r' \<in> set runs. sameMetadata (Dependencies r) (Dependencies r'))"
  by (rule loaded_adjudicated [OF assms])

end
