(* ===== verification/RunFiles.thy ===== *)
theory RunFiles
  imports Evidence
begin

text \<open>
  The JSON files of a run directory as \<^verbatim>\<open>encoding/json\<close> writes them, struct by struct, and the
  proof that the loader reads back what was written. The texts of a \<^verbatim>\<open>float64\<close> and of an instant
  are parameters here: what is relied on is that parsing them gives the value back.
\<close>

section \<open>Writing\<close>

definition uint64JSON :: "u64 \<Rightarrow> json" where
  "uint64JSON x = JNum (FormatUint x)"

definition dependencyJSON :: "dependency_metadata \<Rightarrow> json" where
  "dependencyJSON d = JObj
     [(''ethereum_package_revision'', JStr (EthereumPackageRevision d)),
      (''imported_packages'', jsonMap JStr (ImportedPackages d)),
      (''runtime_images'', jsonMap JStr (RuntimeImages d))]"

definition splitJSON :: "(f64 \<Rightarrow> string) \<Rightarrow> realized_split \<Rightarrow> json" where
  "splitJSON fmtF r = JObj
     [(''split_by'', JStr (rsSplitBy r)),
      (''total_active_balance'', uint64JSON (rsTotal r)),
      (''participants'', JArr (map (\<lambda>p. JObj
        [(''participant_id'', JStr (pwParticipantID p)),
         (''validator_count'', uint64JSON (pwValidatorCount p)),
         (''effective_balance'', uint64JSON (pwEffectiveBalance p))]) (rsParticipants r))),
      (''groups'', JArr (map (\<lambda>g. JObj
        [(''name'', JStr (gwName g)),
         (''requested_share'', JNum (fmtF (gwRequestedShare g))),
         (''realized_share'', JNum (fmtF (gwRealizedShare g))),
         (''effective_balance'', uint64JSON (gwEffectiveBalance g))]) (rsGroups r))),
      (''within_tolerance'', JBool (rsWithinTolerance r)),
      (''tolerance_fraction'', JNum (fmtF (rsTolerance r)))]"

definition targetJSON :: "target_result \<Rightarrow> json" where
  "targetJSON t = JObj
     [(''target'', JStr (resTarget t)),
      (''cl_client'', JStr (resCLClient t)),
      (''group'', JStr (resGroup t)),
      (''start_finalized_epoch'', uint64JSON (StartFinalizedEpoch t)),
      (''end_finalized_epoch'', uint64JSON (EndFinalizedEpoch t)),
      (''finalized_epoch_progress'', uint64JSON (FinalizedEpochProgress t)),
      (''recovery_slots'', case RecoverySlots t of None \<Rightarrow> JNull | Some n \<Rightarrow> uint64JSON n),
      (''head_divergence_exceeded'', JBool (DivergenceExceeded t))]"

definition runJSON :: "(f64 \<Rightarrow> string) \<Rightarrow> (time \<Rightarrow> string) \<Rightarrow> run_summary \<Rightarrow> json" where
  "runJSON fmtF fmtT r = JObj
     [(''schema_version'', JStr (rnSchemaVersion r)),
      (''run_id'', JStr (RunID r)),
      (''condition'', JStr (Condition r)),
      (''repetition'', uint64JSON (Repetition r)),
      (''window'', JObj
        [(''started_at'', JStr (fmtT (StartedAt (rnWindow r)))),
         (''ended_at'', JStr (fmtT (EndedAt (rnWindow r)))),
         (''start_slot'', uint64JSON (StartSlot (rnWindow r))),
         (''end_slot'', uint64JSON (EndSlot (rnWindow r)))]),
      (''primary_measurement_complete'', JBool (PrimaryMeasurementComplete r)),
      (''recovery_measurement_complete'', JBool (RecoveryMeasurementComplete r)),
      (''measurement_gaps'', JArr (map JStr (MeasurementGaps r))),
      (''targets'', JArr (map targetJSON (rnTargets r))),
      (''realized_split'', splitJSON fmtF (RealizedSplit r)),
      (''dependencies'', dependencyJSON (Dependencies r)),
      (''confounders'', JObj
        [(''resources_equal'', JBool (ResourcesEqual (Confounders r))),
         (''node_placement_controlled'', JBool (NodePlacementControlled (Confounders r))),
         (''dependency_closure_pinned'', JBool (DependencyClosurePinned (Confounders r)))])]"

definition beaconSpecJSON :: "beacon_spec \<Rightarrow> json" where
  "beaconSpecJSON p = JObj
     [(''seconds_per_slot'', uint64JSON (SecondsPerSlot p)),
      (''slots_per_epoch'', uint64JSON (SlotsPerEpoch p)),
      (''fork_epochs'', jsonMap JStr (ForkEpochs p))]"

definition beaconGenesisJSON :: "beacon_genesis \<Rightarrow> json" where
  "beaconGenesisJSON g = JObj
     [(''time'', uint64JSON (genesisTime g)),
      (''slot'', uint64JSON (genesisSlot g)),
      (''validators_root'', JStr (ValidatorsRoot g)),
      (''fork_version'', JStr (ForkVersion g))]"

definition placementJSON :: "placement \<Rightarrow> json" where
  "placementJSON p = JObj
     [(''participant_id'', JStr (plParticipantID p)),
      (''target'', JStr (plTarget p)),
      (''pod'', JStr (plPod p)),
      (''node'', JStr (plNode p)),
      (''node_pool'', JStr (plNodePool p)),
      (''machine_type'', JStr (plMachineType p)),
      (''resource_policy'', JStr (plResourcePolicy p))]"

definition runMetadataJSON :: "run_metadata \<Rightarrow> json" where
  "runMetadataJSON m = JObj
     [(''schema_version'', JStr (mtSchemaVersion m)),
      (''run_id'', JStr (mtRunID m)),
      (''scenario_sha256'', JStr (ScenarioSHA256 m)),
      (''chain_id'', uint64JSON (mtChainID m)),
      (''runtime_specs'', jsonMap beaconSpecJSON (RuntimeSpecs m)),
      (''runtime_genesis'', jsonMap beaconGenesisJSON (RuntimeGenesis m)),
      (''placements'', JArr (map placementJSON (mtPlacements m))),
      (''dependencies'', dependencyJSON (mtDependencies m)),
      (''order_seed'', JStr (mtOrderSeed m)),
      (''run_order'', JArr (map JStr (mtRunOrder m))),
      (''fault_deadman_seconds'', uint64JSON (FaultDeadmanSeconds m))]"

section \<open>Reading back\<close>

named_theorems read_back \<open>decoders on the values their fields are written as\<close>

lemma read_back_fields [read_back]:
  "decString put (JStr v) s = (True, put v s)"
  "decBool putB (JBool b) s = (True, putB b s)"
  "decUint64 putU (uint64JSON x) s = (True, putU x s)"
  "ParseFloat n = Some f \<Longrightarrow> decFloat putF (JNum n) s = (True, putF f s)"
  "ParseRFC3339 w = Some t \<Longrightarrow> decTime putT (JStr w) s = (True, putT t s)"
  "decUint64Ptr putP (case p of None \<Rightarrow> JNull | Some n \<Rightarrow> uint64JSON n) s = (True, putP p s)"
  by (auto simp: decString_def decBool_def decUint64_def decFloat_def decTime_def decUint64Ptr_def uint64JSON_def
      ParseUint_FormatUint split: option.splits)

lemma read_back_slice [read_back]:
  "(\<And>x. x \<in> set xs \<Longrightarrow> d (enc x) z = (True, x)) \<Longrightarrow> decSlice z d put (JArr (map enc xs)) s = (True, put xs s)"
  by (simp add: decSlice_def Let_def list_all_iff comp_def map_idI)

lemma read_back_strings [read_back]: "decStrings put (JArr (map JStr xs)) s = (True, put xs s)"
  by (simp add: decStrings_def read_back)

lemma read_back_field [read_back]: "d j (get s) = (True, v) \<Longrightarrow> decField get put d j s = (True, put v s)"
  by (simp add: decField_def)

text \<open>A map is written in the order of its keys, and read into that order.\<close>

definition sortMap :: "(string, 'v) gomap \<Rightarrow> (string, 'v) gomap" where
  "sortMap m = sort_key fst m"

lemma distinct_sortMap: "gomap m \<Longrightarrow> distinct (map fst (sortMap m))"
proof -
  assume "gomap m"
  moreover have "mset (map fst (sortMap m)) = mset (map fst m)" by (simp add: sortMap_def)
  ultimately show ?thesis by (metis gomap_def mset_eq_imp_distinct_iff)
qed

lemma decStringMembers_fresh:
  "distinct (map fst (acc @ m)) \<Longrightarrow> decStringMembers (map (\<lambda>(k, v). (k, JStr v)) m) acc = (True, acc @ m)"
proof (induction m arbitrary: acc)
  case (Cons p m)
  obtain k v where p: "p = (k, v)" by (cases p)
  have "k \<notin> set (keys acc)" using Cons.prems p by (force simp: image_iff)
  then show ?case using Cons.IH [of "acc @ [p]"] Cons.prems by (simp add: p mput_new)
qed simp

lemma read_back_map:
  "gomap m \<Longrightarrow> get s = [] \<Longrightarrow> decStringMap get put (jsonMap JStr m) s = (True, put (sortMap m) s)"
  using decStringMembers_fresh [of "[]" "sortMap m"] distinct_sortMap [of m]
  by (simp add: decStringMap_def jsonMap_def sortMap_def)

lemma decStructMembers_fresh:
  "distinct (map fst acc @ map fst m) \<Longrightarrow> (\<And>k v. (k, v) \<in> set m \<Longrightarrow> d (enc v) z = (True, f v)) \<Longrightarrow>
   decStructMembers z d (map (\<lambda>(k, v). (k, enc v)) m) acc = (True, acc @ map (\<lambda>(k, v). (k, f v)) m)"
proof (induction m arbitrary: acc)
  case (Cons p m)
  obtain k v where p: "p = (k, v)" by (cases p)
  have "k \<notin> set (keys acc)" using Cons.prems p by (force simp: image_iff)
  moreover have "decStructMembers z d (map (\<lambda>(k, v). (k, enc v)) m) (acc @ [(k, f v)]) =
      (True, (acc @ [(k, f v)]) @ map (\<lambda>(k, v). (k, f v)) m)"
    by (rule Cons.IH) (use Cons.prems p in auto)
  ultimately show ?case using Cons.prems(2) [of k v] by (simp add: p mput_new)
qed simp

lemma read_back_struct_map:
  "gomap m \<Longrightarrow> get s = [] \<Longrightarrow> (\<And>k v. (k, v) \<in> set m \<Longrightarrow> d (enc v) z = (True, f v)) \<Longrightarrow>
   decStructMap z d get put (jsonMap enc m) s = (True, put (map (\<lambda>(k, v). (k, f v)) (sortMap m)) s)"
  using decStructMembers_fresh [of "[]" "sortMap m" d enc z f] distinct_sortMap [of m]
  by (simp add: decStructMap_def jsonMap_def sortMap_def)

definition sortMetadata :: "dependency_metadata \<Rightarrow> dependency_metadata" where
  "sortMetadata d = d\<lparr>ImportedPackages := sortMap (ImportedPackages d), RuntimeImages := sortMap (RuntimeImages d)\<rparr>"

lemma read_dependency: "gomapMetadata d \<Longrightarrow> dependencyDecoder (dependencyJSON d) zeroMetadata = (True, sortMetadata d)"
  by (simp add: dependencyDecoder_def dependencyJSON_def decStrict_def read_back read_back_map gomapMetadata_def
      zeroMetadata_def sortMetadata_def)

lemma read_split:
  "\<forall>x \<in> set (splitFloats r). ParseFloat (fmtF x) = Some x \<Longrightarrow> splitDecoder (splitJSON fmtF r) zeroSplit = (True, r)"
  by (simp add: splitDecoder_def splitJSON_def decStrict_def participantWeightDecoder_def groupWeightDecoder_def
      read_back zeroSplit_def zeroRun_def splitFloats_def)

lemma read_target: "targetDecoder (targetJSON t) zeroTarget = (True, t)"
  by (simp add: targetDecoder_def targetJSON_def decStrict_def read_back zeroTarget_def)

lemma read_window:
  "ParseRFC3339 (fmtT (StartedAt w)) = Some (StartedAt w) \<Longrightarrow> ParseRFC3339 (fmtT (EndedAt w)) = Some (EndedAt w) \<Longrightarrow>
   windowDecoder (JObj
        [(''started_at'', JStr (fmtT (StartedAt w))), (''ended_at'', JStr (fmtT (EndedAt w))),
         (''start_slot'', uint64JSON (StartSlot w)), (''end_slot'', uint64JSON (EndSlot w))]) z = (True, w)"
  by (simp add: windowDecoder_def decStrict_def read_back)

lemma read_confounders:
  "confoundersDecoder (JObj
        [(''resources_equal'', JBool (ResourcesEqual c)), (''node_placement_controlled'', JBool (NodePlacementControlled c)),
         (''dependency_closure_pinned'', JBool (DependencyClosurePinned c))]) z = (True, c)"
  by (simp add: confoundersDecoder_def decStrict_def read_back)

text \<open>
  The text of every value in the struct parses back to it; maps have one entry for a key.
\<close>

definition runWritable :: "(f64 \<Rightarrow> string) \<Rightarrow> (time \<Rightarrow> string) \<Rightarrow> run_summary \<Rightarrow> bool" where
  "runWritable fmtF fmtT r \<longleftrightarrow> gomapMetadata (Dependencies r) \<and>
     list_all (\<lambda>x. ParseFloat (fmtF x) = Some x) (splitFloats (RealizedSplit r)) \<and>
     list_all (\<lambda>t. ParseRFC3339 (fmtT t) = Some t) [StartedAt (rnWindow r), EndedAt (rnWindow r)]"

lemma Run_reads:
  assumes "runWritable fmtF fmtT r"
  shows "unmarshal runDecoder zeroRun (runJSON fmtF fmtT r) =
     Some (r\<lparr>Dependencies := sortMetadata (Dependencies r)\<rparr>)"
proof -
  have z: "RealizedSplit zeroRun = zeroSplit" "Dependencies zeroRun = zeroMetadata"
    by (simp_all add: zeroSplit_def zeroRun_def)
  have "splitDecoder (splitJSON fmtF (RealizedSplit r)) zeroSplit = (True, RealizedSplit r)"
    by (rule read_split) (use assms in \<open>simp add: runWritable_def list_all_iff\<close>)
  moreover have "dependencyDecoder (dependencyJSON (Dependencies r)) zeroMetadata = (True, sortMetadata (Dependencies r))"
    by (rule read_dependency) (use assms in \<open>simp add: runWritable_def\<close>)
  moreover note read_window [of fmtT "rnWindow r"]
  ultimately show ?thesis using assms
    by (simp add: unmarshal_def runDecoder_def runJSON_def decStrict_def read_back read_target read_confounders z
        runWritable_def)
qed

text \<open>
  A manifest is read back as it was written, with the entries of the dependency maps in the
  order of their keys.
\<close>

theorem Run_roundtrip:
  assumes "runWritable fmtF fmtT r"
  shows "unmarshal runDecoder zeroRun (runJSON fmtF fmtT r) =
     Some (r\<lparr>Dependencies := sortMetadata (Dependencies r)\<rparr>)"
  using assms by (rule Run_reads)

definition runMetadataWritable :: "run_metadata \<Rightarrow> bool" where
  "runMetadataWritable m \<longleftrightarrow> gomapMetadata (mtDependencies m) \<and> gomap (RuntimeSpecs m) \<and> gomap (RuntimeGenesis m) \<and>
     list_all (\<lambda>(target, spec). gomap (ForkEpochs spec)) (RuntimeSpecs m)"

definition sortSpec :: "beacon_spec \<Rightarrow> beacon_spec" where
  "sortSpec p = p\<lparr>ForkEpochs := sortMap (ForkEpochs p)\<rparr>"

lemma read_spec:
  "gomap (ForkEpochs p) \<Longrightarrow>
   beaconSpecDecoder (beaconSpecJSON p) \<lparr>SecondsPerSlot = 0, SlotsPerEpoch = 0, ForkEpochs = []\<rparr> = (True, sortSpec p)"
  by (simp add: beaconSpecDecoder_def beaconSpecJSON_def decStrict_def read_back read_back_map sortSpec_def)

lemma read_genesis: "beaconGenesisDecoder (beaconGenesisJSON g) z = (True, g)"
  by (simp add: beaconGenesisDecoder_def beaconGenesisJSON_def decStrict_def read_back)

lemma read_placement: "placementDecoder (placementJSON p) z = (True, p)"
  by (simp add: placementDecoder_def placementJSON_def decStrict_def read_back)

lemma Metadata_reads:
  assumes "runMetadataWritable m"
  shows "unmarshal runMetadataDecoder zeroRunMetadata (runMetadataJSON m) =
     Some (m\<lparr>RuntimeSpecs := map (\<lambda>(target, spec). (target, sortSpec spec)) (sortMap (RuntimeSpecs m)),
             RuntimeGenesis := sortMap (RuntimeGenesis m),
             mtDependencies := sortMetadata (mtDependencies m)\<rparr>)"
proof -
  have "dependencyDecoder (dependencyJSON (mtDependencies m)) zeroMetadata = (True, sortMetadata (mtDependencies m))"
    by (rule read_dependency) (use assms in \<open>simp add: runMetadataWritable_def\<close>)
  moreover have specs: "decStructMap \<lparr>SecondsPerSlot = 0, SlotsPerEpoch = 0, ForkEpochs = []\<rparr> beaconSpecDecoder
      RuntimeSpecs put (jsonMap beaconSpecJSON (RuntimeSpecs m)) x =
      (True, put (map (\<lambda>(target, spec). (target, sortSpec spec)) (sortMap (RuntimeSpecs m))) x)"
    if "RuntimeSpecs x = []" for put :: "_ \<Rightarrow> run_metadata \<Rightarrow> run_metadata" and x
    by (rule read_back_struct_map)
       (use that assms in \<open>auto simp: runMetadataWritable_def list_all_iff intro!: read_spec\<close>)
  moreover have "decStructMap z beaconGenesisDecoder RuntimeGenesis put (jsonMap beaconGenesisJSON (RuntimeGenesis m)) x =
      (True, put (sortMap (RuntimeGenesis m)) x)"
    if "RuntimeGenesis x = []" for put :: "_ \<Rightarrow> run_metadata \<Rightarrow> run_metadata" and x z
    using read_back_struct_map [where f = "\<lambda>g. g" and enc = beaconGenesisJSON and m = "RuntimeGenesis m"
        and get = RuntimeGenesis, OF _ that] assms by (simp add: runMetadataWritable_def read_genesis)
  ultimately show ?thesis using assms
    by (simp add: unmarshal_def runMetadataDecoder_def runMetadataJSON_def decStrict_def read_back read_placement
        zeroRunMetadata_def runMetadataWritable_def)
qed

text \<open>
  The metadata of a run are read back as they were written, the maps in the order of their keys.
\<close>

theorem Metadata_roundtrip:
  assumes "runMetadataWritable m"
  shows "unmarshal runMetadataDecoder zeroRunMetadata (runMetadataJSON m) =
     Some (m\<lparr>RuntimeSpecs := map (\<lambda>(target, spec). (target, sortSpec spec)) (sortMap (RuntimeSpecs m)),
             RuntimeGenesis := sortMap (RuntimeGenesis m),
             mtDependencies := sortMetadata (mtDependencies m)\<rparr>)"
  using assms by (rule Metadata_reads)

end
