(* ===== verification/EvidenceExamples.thy ===== *)
theory EvidenceExamples
  imports ExperimentExamples RunFiles Timeseries Observer
begin

text \<open>
  Concrete evidence: six stored runs that the loader accepts. A file's content is its path, and
  the decoders look the value up by it.
\<close>

section \<open>The texts of a manifest\<close>

definition exFloatText :: "f64 \<Rightarrow> string" where
  "exFloatText x = (if x = Fin 0 then ''0'' else ''0.5'')"

lemma exRunOf_writable: "runWritable exFloatText formatTime (exRunOf c r)"
proof -
  have "ParseFloat ''0'' = Some (Fin 0)" "ParseFloat ''0.5'' = Some (lit (1/2))" "lit (1/2) \<noteq> Fin 0"
    "ParseRFC3339 (formatTime exTime) = Some exTime"
    by code_simp+
  moreover have "gomapMetadata exMetadata"
    by (simp add: gomapMetadata_def gomap_def exMetadata_def)
  ultimately show ?thesis
    by (simp add: runWritable_def exRunOf_def splitFloats_def exSplit_def exFloatText_def)
qed

theorem Run_roundtrip_witness:
  "unmarshal runDecoder zeroRun (runJSON exFloatText formatTime (exRunOf ConditionFault 2)) =
     Some ((exRunOf ConditionFault 2)\<lparr>Dependencies := sortMetadata exMetadata\<rparr>)"
  using Run_roundtrip [OF exRunOf_writable [of ConditionFault 2]] by (simp add: exRunOf_def)

section \<open>The metadata of a run\<close>

definition exRuntimeSpec :: beacon_spec where
  "exRuntimeSpec = \<lparr>SecondsPerSlot = 12, SlotsPerEpoch = 32,
     ForkEpochs = [(''DENEB_FORK_EPOCH'', ''0''), (''ALTAIR_FORK_EPOCH'', ''0'')]\<rparr>"

definition exRuntimeGenesis :: beacon_genesis where
  "exRuntimeGenesis = \<lparr>genesisTime = 1000, genesisSlot = 0, ValidatorsRoot = ''0x'' @ exDigest,
     ForkVersion = ''0x10000038''\<rparr>"

definition exSum :: "string \<Rightarrow> string" where
  "exSum s = mget (replicate 32 (CHR 0xAB)) shippedDigests s"

definition exSumHex :: string where "exSumHex = concat (replicate 32 ''ab'')"

definition exRunMetadata :: "string \<Rightarrow> run_metadata" where
  "exRunMetadata i = \<lparr>mtSchemaVersion = MetadataSchemaVersion, mtRunID = i, ScenarioSHA256 = exSumHex,
     mtChainID = 3151908,
     RuntimeSpecs = map (\<lambda>p. (BeaconTarget p, exRuntimeSpec)) (scParticipants exScenario),
     RuntimeGenesis = map (\<lambda>p. (BeaconTarget p, exRuntimeGenesis)) (scParticipants exScenario),
     mtPlacements = map exPlacement (scParticipants exScenario), mtDependencies = exMetadata,
     mtOrderSeed = ''phase3-d'', mtRunOrder = RunOrder (scMethodology exScenario),
     FaultDeadmanSeconds = (if HasPrefix i ''fault'' then 1920 else 0)\<rparr>"

lemma exRunMetadata_writable: "runMetadataWritable (exRunMetadata i)"
  by (simp add: runMetadataWritable_def exRunMetadata_def exRuntimeSpec_def exMetadata_def exScenario_def
      shippedScenario_def gomapMetadata_def gomap_def)

definition exReadMetadata :: "string \<Rightarrow> run_metadata" where
  "exReadMetadata i = (exRunMetadata i)
     \<lparr>RuntimeSpecs := map (\<lambda>(target, spec). (target, sortSpec spec)) (sortMap (RuntimeSpecs (exRunMetadata i))),
      RuntimeGenesis := sortMap (RuntimeGenesis (exRunMetadata i)), mtDependencies := sortMetadata exMetadata\<rparr>"

theorem Metadata_roundtrip_witness:
  "unmarshal runMetadataDecoder zeroRunMetadata (runMetadataJSON (exRunMetadata ''fault-1'')) =
     Some (exReadMetadata ''fault-1'')"
  using Metadata_roundtrip [OF exRunMetadata_writable [of "''fault-1''"]]
  by (simp add: exReadMetadata_def exRunMetadata_def)

section \<open>The directories\<close>

definition exRunNamed :: "string \<Rightarrow> run_summary" where
  "exRunNamed i = (case parseRunID i of Inr (c, r) \<Rightarrow> exRunOf c r | Inl _ \<Rightarrow> exRunOf ConditionControl 1)"

definition exStored :: "string \<Rightarrow> run_summary" where
  "exStored i = (exRunNamed i)\<lparr>Dependencies := sortMetadata exMetadata\<rparr>"

definition exHost :: host where
  "exHost = \<lparr>serviceHost = [], workingDir = None, evalSymlinks = Some,
     Lstat = (\<lambda>p. if p \<in> set (''/runs'' # ''/out'' # map (\<lambda>i. ''/runs/'' @ i) expectedRuns) then Some DirNode
       else if HasPrefix p ''/out/'' then None else Some (FileNode p)), readable = (\<lambda>_. True)\<rparr>"

definition exStream :: "string \<Rightarrow> (json \<times> json_rest) option" where
  "exStream p = (let name = Base p; i = Base (Dir p) in
     if name = ''manifest.json'' then Some (runJSON exFloatText formatTime (exRunNamed i), NoMore)
     else if name = ''metadata.json'' then Some (runMetadataJSON (exRunMetadata i), NoMore)
     else if name = ''realized-split.json'' then Some (splitJSON exFloatText exSplit, NoMore)
     else Some (jsonMap JStr (map (\<lambda>n. (n, exSumHex)) checksummedRunArtifacts), NoMore))"

definition exCodec :: codec where
  "exCodec = \<lparr>decodeStream = exStream, decodeYAML = (\<lambda>_. Some (exScenario, RestEOF)), Sum256 = exSum\<rparr>"

definition exFile :: "string \<Rightarrow> string \<Rightarrow> string" where
  "exFile i name = ''/runs/'' @ i @ ''/'' @ name"

definition exNames :: "string list" where
  "exNames = ''checksums.json'' # checksummedRunArtifacts"

lemma exFiles:
  assumes "i \<in> set expectedRuns" "name \<in> set exNames"
  shows "Join (''/runs/'' @ i) name = exFile i name" "Base (exFile i name) = name" "Base (Dir (exFile i name)) = i"
    "Lstat exHost (exFile i name) = Some (FileNode (exFile i name))"
    "exSum (exFile i name) = replicate 32 (CHR 0xAB)"
proof -
  have "list_all (\<lambda>i. list_all (\<lambda>name. Join (''/runs/'' @ i) name = exFile i name) exNames) expectedRuns"
    by code_simp
  with assms show "Join (''/runs/'' @ i) name = exFile i name" by (simp add: list_all_iff)
  have "list_all (\<lambda>i. list_all (\<lambda>name. Base (exFile i name) = name) exNames) expectedRuns"
    by code_simp
  with assms show "Base (exFile i name) = name" by (simp add: list_all_iff)
  have "list_all (\<lambda>i. list_all (\<lambda>name. Base (Dir (exFile i name)) = i) exNames) expectedRuns"
    by code_simp
  with assms show "Base (Dir (exFile i name)) = i" by (simp add: list_all_iff)
  have "list_all (\<lambda>i. list_all (\<lambda>name. Lstat exHost (exFile i name) = Some (FileNode (exFile i name))) exNames) expectedRuns"
    by code_simp
  with assms show "Lstat exHost (exFile i name) = Some (FileNode (exFile i name))" by (simp add: list_all_iff)
  have "list_all (\<lambda>i. list_all (\<lambda>name. exSum (exFile i name) = replicate 32 (CHR 0xAB)) exNames) expectedRuns"
    by code_simp
  with assms show "exSum (exFile i name) = replicate 32 (CHR 0xAB)" by (simp add: list_all_iff)
qed

lemma exArtifact:
  assumes "i \<in> set expectedRuns" "name \<in> set exNames"
  shows "artifactFile exHost (''/runs/'' @ i) name (exFile i name)"
  using exFiles [OF assms] by (simp add: artifactFile_def exHost_def)

lemma exSum_hex: "hexOf (replicate 32 (CHR 0xAB)) = exSumHex" "lowerHexN exSumHex 64"
  by code_simp+

lemma exArtifact_names: "checksummedRunArtifacts = [''manifest.json'', ''metadata.json'', ''raw-timeseries.jsonl'',
    ''realized-split.json'', ''scenario.yaml'']" "set checksummedRunArtifacts \<subseteq> set exNames" "''checksums.json'' \<in> set exNames"
  by (auto simp: exNames_def checksummedRunArtifacts_def)

lemma exChecksums_read:
  "decStringMap (\<lambda>m. m) (\<lambda>m _. m) (jsonMap JStr (map (\<lambda>n. (n, exSumHex)) checksummedRunArtifacts)) [] =
     (True, map (\<lambda>n. (n, exSumHex)) checksummedRunArtifacts)"
proof -
  have "sortMap (map (\<lambda>n. (n, exSumHex)) checksummedRunArtifacts) = map (\<lambda>n. (n, exSumHex)) checksummedRunArtifacts"
    unfolding sortMap_def by (rule sort_key_id_if_sorted) code_simp
  moreover have "gomap (map (\<lambda>n. (n, exSumHex)) checksummedRunArtifacts)"
    by (simp add: gomap_def comp_def checksummedRunArtifacts_def)
  ultimately show ?thesis by (simp add: read_back_map)
qed

lemma exChecksummed:
  assumes "i \<in> set expectedRuns"
  shows "checksummed exCodec exHost (''/runs/'' @ i)"
proof -
  let ?m = "map (\<lambda>n. (n, exSumHex)) checksummedRunArtifacts"
  have "exStream (exFile i ''checksums.json'') = Some (jsonMap JStr ?m, NoMore)"
    using exFiles(2) [OF assms exArtifact_names(3)] by (simp add: exStream_def Let_def)
  then have "decodeOnly (decodeStream exCodec) (decStringMap (\<lambda>m. m) (\<lambda>m _. m)) [] (exFile i ''checksums.json'') = Inr ?m"
    by (simp add: decodeOnly_def unmarshal_def exCodec_def exChecksums_read)
  moreover have "set (keys ?m) = set checksummedRunArtifacts" by (simp add: comp_def)
  moreover have "artifactFile exHost (''/runs/'' @ i) name (exFile i name) \<and>
      lowerHexN (hexOf (Sum256 exCodec (exFile i name))) 64 \<and>
      map_of ?m name = Some (hexOf (Sum256 exCodec (exFile i name)))"
    if "name \<in> set checksummedRunArtifacts" for name
  proof -
    have n: "name \<in> set exNames" using that exArtifact_names(2) by blast
    have "hexOf (Sum256 exCodec (exFile i name)) = exSumHex"
      by (simp only: exCodec_def codec.simps exFiles(5) [OF assms n] exSum_hex)
    then show ?thesis
      using exArtifact [OF assms n] exSum_hex(2) that by (simp add: map_of_map_restrict restrict_map_def)
  qed
  ultimately show ?thesis
    unfolding checksummed_def using exArtifact [OF assms exArtifact_names(3)] by blast
qed

lemma exScenario_ok: "Scenario_Validate exSum exScenario = Inr ()"
  by code_simp

lemma exRuns_split: "ValidateRealizedSplit exScenario exSplit = Inr ()"
  by code_simp

lemma exMetadata_sorted:
  "ValidateDependencyMetadata (sortMetadata exMetadata) = Inr ()"
  "dependencyMetadataEqual (sortMetadata exMetadata) (sortMetadata exMetadata)"
  by code_simp+

lemma exPlacements_ok: "ValidatePlacements exScenario (map exPlacement (scParticipants exScenario)) = Inr ()"
  by code_simp

lemma exRuntime: "runtimeAgrees (exReadMetadata i) exScenario (sortSpec exRuntimeSpec)"
proof -
  have "validateRuntimeMetadata (exReadMetadata []) exScenario = Inr (sortSpec exRuntimeSpec)" by code_simp
  then have "runtimeAgrees (exReadMetadata []) exScenario (sortSpec exRuntimeSpec)"
    by (rule validateRuntimeMetadata_Inr [THEN iffD1, rotated]) (simp add: exScenario_def shippedScenario_def)
  moreover have "RuntimeSpecs (exReadMetadata i) = RuntimeSpecs (exReadMetadata [])"
      "RuntimeGenesis (exReadMetadata i) = RuntimeGenesis (exReadMetadata [])"
    by (simp_all add: exReadMetadata_def exRunMetadata_def)
  ultimately show ?thesis by (simp only: runtimeAgrees_def runtimeTarget_def)
qed

lemma exRunNames:
  assumes "i \<in> set expectedRuns"
  obtains c r where "parseRunID i = Inr (c, r)" "exRunNamed i = exRunOf c r" "runName c r = i"
    "HasPrefix i ''fault'' = (c \<noteq> ConditionControl)"
proof -
  have "list_all (\<lambda>i. case parseRunID i of Inl _ \<Rightarrow> False
      | Inr (c, r) \<Rightarrow> runName c r = i \<and> HasPrefix i ''fault'' = (c \<noteq> ConditionControl)) expectedRuns"
    by code_simp
  then have ok: "case parseRunID i of Inl _ \<Rightarrow> False
      | Inr (c, r) \<Rightarrow> runName c r = i \<and> HasPrefix i ''fault'' = (c \<noteq> ConditionControl)"
    using assms by (simp only: list_all_iff)
  then obtain c r where p: "parseRunID i = Inr (c, r)" by (cases "parseRunID i") auto
  show thesis by (rule that [OF p]) (use ok in \<open>simp_all add: p exRunNamed_def\<close>)
qed

lemma exStored_run:
  assumes "i \<in> set expectedRuns"
  shows "storedRun exCodec exHost exScenario (''/runs/'' @ i) (exStored i) \<and> RunID (exStored i) = i"
proof -
  obtain c r where n: "parseRunID i = Inr (c, r)" "exRunNamed i = exRunOf c r" "runName c r = i"
      "HasPrefix i ''fault'' = (c \<noteq> ConditionControl)"
    by (rule exRunNames [OF assms])
  have id: "RunID (exStored i) = i" by (simp add: exStored_def n exRunOf_def)
  have art: "artifactFile exHost (''/runs/'' @ i) name (exFile i name)" if "name \<in> set checksummedRunArtifacts" for name
    by (rule exArtifact [OF assms]) (use that exArtifact_names(2) in blast)
  have stream: "exStream (exFile i name) =
      (if name = ''manifest.json'' then Some (runJSON exFloatText formatTime (exRunNamed i), NoMore)
       else if name = ''metadata.json'' then Some (runMetadataJSON (exRunMetadata i), NoMore)
       else if name = ''realized-split.json'' then Some (splitJSON exFloatText exSplit, NoMore)
       else exStream (exFile i name))" if "name \<in> set exNames" for name
    using exFiles(2,3) [OF assms that] by (simp add: exStream_def Let_def)
  have manifest: "parseRunSummary exCodec (exFile i ''manifest.json'') = Inr (exStored i)"
    using Run_reads [OF exRunOf_writable [of c r]] stream [of "''manifest.json''"]
    by (simp add: parseRunSummary_def decodeOnly_def exCodec_def exNames_def checksummedRunArtifacts_def n exStored_def
        exRunOf_def)
  have meta: "decodeOnly (decodeStream exCodec) runMetadataDecoder zeroRunMetadata (exFile i ''metadata.json'') =
      Inr (exReadMetadata i)"
    using Metadata_reads [OF exRunMetadata_writable [of i]] stream [of "''metadata.json''"]
    by (simp add: decodeOnly_def exCodec_def exNames_def checksummedRunArtifacts_def exReadMetadata_def exRunMetadata_def)
  have "splitDecoder (splitJSON exFloatText exSplit) zeroSplit = (True, exSplit)"
    by (rule read_split) (use exRunOf_writable [of c r] in \<open>simp add: runWritable_def exRunOf_def list_all_iff\<close>)
  then have split: "decodeOnly (decodeStream exCodec) splitDecoder zeroSplit (exFile i ''realized-split.json'') =
      Inr (RealizedSplit (exStored i))"
    using stream [of "''realized-split.json''"]
    by (simp add: decodeOnly_def unmarshal_def exCodec_def exNames_def checksummedRunArtifacts_def n exStored_def exRunOf_def)
  have scen: "Scenario_Parse (decodeYAML exCodec) (Sum256 exCodec) (exFile i ''scenario.yaml'') = Inr exScenario"
  proof -
    have "length i \<le> 9" using assms by (auto simp: expectedRuns_def)
    then show ?thesis using exScenario_ok
      by (simp add: Scenario_Parse_def exCodec_def exFile_def maxScenarioBytes_def)
  qed
  have agrees: "metadataAgrees exCodec (exReadMetadata i) (exStored i) exScenario (exFile i ''scenario.yaml'')"
  proof -
    have "hexOf (Sum256 exCodec (exFile i ''scenario.yaml'')) = exSumHex"
      using exFiles(5) [OF assms, of "''scenario.yaml''"] exSum_hex(1)
      by (simp add: exCodec_def exNames_def checksummedRunArtifacts_def)
    moreover have "unat (FaultDeadmanSeconds (exReadMetadata i)) =
        (if c = ConditionControl then 0 else deadmanSeconds exScenario (sortSpec exRuntimeSpec))"
      using n(4) by (simp add: exReadMetadata_def exRunMetadata_def deadmanSeconds_def exScenario_def shippedScenario_def
          sortSpec_def exRuntimeSpec_def)
    moreover have "mtChainID (exReadMetadata i) = target_spec.ChainID (scTarget exScenario)"
        "mtOrderSeed (exReadMetadata i) = OrderSeed (scMethodology exScenario)"
      by (simp_all add: exReadMetadata_def exRunMetadata_def exScenario_def shippedScenario_def)
    ultimately show ?thesis
      using exMetadata_sorted exPlacements_ok exRuntime [of i] id n(1)
      unfolding metadataAgrees_def by (auto simp: exReadMetadata_def exRunMetadata_def exStored_def)
  qed
  have floats: "NaN \<notin> set (scenarioFloats exScenario)" "NaN \<notin> set (splitFloats (RealizedSplit (exStored i)))"
    by (simp_all add: scenarioFloats_def exScenario_def shippedScenario_def splitFloats_def exStored_def n exRunOf_def
        exSplit_def lit_def)
  have "Lstat exHost (''/runs/'' @ i) = Some DirNode" using assms by (simp add: exHost_def)
  moreover have "ValidateRealizedSplit exScenario (RealizedSplit (exStored i)) = Inr ()"
    using exRuns_split by (simp add: exStored_def n exRunOf_def)
  moreover have "Lstat exHost (Join (''/runs/'' @ i) ''raw-timeseries.jsonl'') = Some (FileNode (exFile i ''raw-timeseries.jsonl''))"
    using art [of "''raw-timeseries.jsonl''"] by (simp add: artifactFile_def checksummedRunArtifacts_def)
  moreover have "exFile i ''raw-timeseries.jsonl'' \<noteq> []" by (simp add: exFile_def)
  moreover have "artifactFile exHost (''/runs/'' @ i) ''manifest.json'' (exFile i ''manifest.json'')"
      "artifactFile exHost (''/runs/'' @ i) ''metadata.json'' (exFile i ''metadata.json'')"
      "artifactFile exHost (''/runs/'' @ i) ''realized-split.json'' (exFile i ''realized-split.json'')"
      "artifactFile exHost (''/runs/'' @ i) ''scenario.yaml'' (exFile i ''scenario.yaml'')"
    by (rule art, simp add: checksummedRunArtifacts_def)+
  ultimately show ?thesis
    using id exChecksummed [OF assms] manifest meta split scen agrees floats
    unfolding storedRun_def by blast
qed

lemma exRuns_loaded:
  "LoadRunSummaries exCodec exHost ''/runs'' exScenario = Inr (map exStored (RunOrder (scMethodology exScenario)))"
proof -
  have root: "Abs exHost ''/runs'' = Some ''/runs''" "\<not> clusterStorage ''/runs''"
    by code_simp+
  have join: "list_all (\<lambda>i. Join ''/runs'' i = ''/runs/'' @ i \<and> i \<in> set expectedRuns) (RunOrder (scMethodology exScenario))"
    by code_simp
  have "list_all2 (\<lambda>i run. RunID run = i \<and> storedRun exCodec exHost exScenario (Join ''/runs'' i) run)
      (RunOrder (scMethodology exScenario)) (map exStored (RunOrder (scMethodology exScenario)))"
    using join exStored_run by (auto simp: list_all2_map2 list_all2_same list_all_iff)
  then show ?thesis
    unfolding LoadRunSummaries_Inr using root by (auto simp: exHost_def)
qed

theorem Evidence_adjudicated_witness:
  "\<exists>a. Analyze exSum exScenario (map exStored (RunOrder (scMethodology exScenario))) exTime = Inr a"
proof -
  have "RunOrder (scMethodology exScenario) \<noteq> []" by (simp add: exScenario_def shippedScenario_def)
  note iff = Evidence_adjudicated [OF exRuns_loaded this, of exTime]
  have order: "list_all (\<lambda>i. i \<in> set expectedRuns) (RunOrder (scMethodology exScenario))"
    by code_simp
  have "rnSchemaVersion (exStored i) = RunSchemaVersion \<and>
      parseRunID (RunID (exStored i)) = Inr (Condition (exStored i), Repetition (exStored i)) \<and>
      Dependencies (exStored i) = sortMetadata exMetadata" if i: "i \<in> set expectedRuns" for i
    by (rule exRunNames [OF i]) (simp add: exStored_def exRunOf_def)
  then show ?thesis
    using iff order by (auto simp: exCodec_def list_all_iff sameMetadata_def)
qed

section \<open>Two meanings of agreement\<close>

text \<open>
  \<^verbatim>\<open>Spec.Compatible\<close> ignores forks that one side does not know, so it is not transitive. The observer
  compares every target with the first one by name, the loader with the first participant: when
  the target that is first by name knows fewer forks, a run whose observation succeeded is
  rejected when it is loaded.
\<close>

definition gapSpec :: "string \<Rightarrow> beacon_spec" where
  "gapSpec target = exRuntimeSpec\<lparr>ForkEpochs := (''ALTAIR_FORK_EPOCH'', ''0'') #
     (if target = ''teku-a'' then [(''FULU_FORK_EPOCH'', ''7'')]
      else if target = ''lighthouse-b'' then [(''FULU_FORK_EPOCH'', ''8'')] else [])\<rparr>"

definition gapScenario :: scenario where
  "gapScenario = exScenario\<lparr>scParticipants := rotate1 (scParticipants exScenario)\<rparr>"

definition gapMetadata :: run_metadata where
  "gapMetadata = (exRunMetadata ''fault-1'')\<lparr>RuntimeSpecs :=
     map (\<lambda>p. (BeaconTarget p, gapSpec (BeaconTarget p))) (scParticipants gapScenario)\<rparr>"

theorem Compatible_not_transitive:
  "checkAgree ''lighthouse-a'' (gapSpec ''lighthouse-a'') exRuntimeGenesis
     (map (\<lambda>t. (t, gapSpec t, exRuntimeGenesis)) [''lighthouse-b'', ''teku-a'', ''teku-b'']) = Inr () \<and>
   validateRuntimeMetadata gapMetadata gapScenario = Inl (SpecConflict ''lighthouse-b'')"
  by (rule conjI) code_simp+

end
