(* ===== verification/ChaosMesh.thy ===== *)
theory ChaosMesh
  imports Files Json
begin

text \<open>
  The fault backend (internal/fault/backend.go, chaosmesh.go): a network partition as a Chaos Mesh
  resource, created, inspected and deleted with \<^verbatim>\<open>kubectl\<close> only under exact ownership labels. The
  runner of the commands changes a world of any type; the process it starts and the JSON
  syntax are parameters. The text of a failed command's output is not kept.
\<close>

section \<open>Requests\<close>

record partition_request =
  prRunID :: string
  prNamespace :: string
  prNamespacePrefix :: string
  GroupA :: "string list"
  GroupB :: "string list"
  TTL :: int

record fault_status =
  fsExists :: bool
  fsAllInjected :: bool
  fsAllRecovered :: bool

definition managedLabel :: string where "managedLabel = ''dev.ethquake.managed''"

definition runIDLabel :: string where "runIDLabel = ''dev.ethquake.run-id''"

definition phaseLabel :: string where "phaseLabel = ''dev.ethquake.phase''"

definition resourceName :: "string \<Rightarrow> string" where
  "resourceName runID = ''ethquake-'' @ runID @ ''-cl-partition''"

datatype (plugins only: code size) request_err =
    BadRequestRunID string | OverlongName string | OutsideAllowlist string | BadTTL | EmptyGroup
  | BadPodName string | PodTwice string

definition podStepP :: "string \<Rightarrow> string list \<Rightarrow> request_err + string list" where
  "podStepP pod seen =
     (if \<not> dnsName pod then Inl (BadPodName pod)
      else if pod \<in> set seen then Inl (PodTwice pod)
      else Inr (pod # seen))"

definition validatePartitionRequest :: "partition_request \<Rightarrow> request_err + unit" where
  "validatePartitionRequest r =
     (if \<not> dnsName (prRunID r) then Inl (BadRequestRunID (prRunID r))
      else if length (resourceName (prRunID r)) > 63 then Inl (OverlongName (prRunID r))
      else if prNamespacePrefix r \<noteq> ''kt-ethquake-phase3-'' \<or>
              \<not> HasPrefix (prNamespace r) (prNamespacePrefix r) \<or> \<not> dnsName (prNamespace r)
      then Inl (OutsideAllowlist (prNamespace r))
      else if TTL r \<le> 0 \<or> TTL r mod second \<noteq> 0 then Inl BadTTL
      else if length (GroupA r) = 0 \<or> length (GroupB r) = 0 then Inl EmptyGroup
      else bindR (each (\<lambda>grp seen. each podStepP grp seen) [GroupA r, GroupB r] []) (\<lambda>_. Inr ()))"

section \<open>The manifest\<close>

definition selectorJSON :: "string \<Rightarrow> string list \<Rightarrow> json" where
  "selectorJSON ns pods = JObj
     [(''namespaces'', JArr [JStr ns]),
      (''pods'', jsonMap (\<lambda>ps. JArr (map JStr ps)) [(ns, pods)])]"

definition networkChaosJSON :: "partition_request \<Rightarrow> json" where
  "networkChaosJSON r =
     (let groupA = sort (GroupA r); groupB = sort (GroupB r) in JObj
     [(''apiVersion'', JStr ''chaos-mesh.org/v1alpha1''),
      (''kind'', JStr ''NetworkChaos''),
      (''metadata'', JObj
        [(''name'', JStr (resourceName (prRunID r))),
         (''namespace'', JStr (prNamespace r)),
         (''labels'', jsonMap JStr
           (mput runIDLabel (prRunID r) (mput phaseLabel ''3'' (mput managedLabel ''true'' []))))]),
      (''spec'', JObj
        [(''action'', JStr ''partition''),
         (''mode'', JStr ''all''),
         (''selector'', selectorJSON (prNamespace r) groupA),
         (''direction'', JStr ''both''),
         (''target'', JObj [(''mode'', JStr ''all''), (''selector'', selectorJSON (prNamespace r) groupB)]),
         (''duration'', JStr (FormatUint (word_of_int (TTL r div second)) @ ''s''))])])"

definition renderNetworkChaos :: "partition_request \<Rightarrow> string" where
  "renderNetworkChaos r = marshal (networkChaosJSON r) @ [CHR 0x0A]"

section \<open>Commands\<close>

text \<open>
  A command as it is run: under the caller's context or one detached from it, with standard
  input or without, and its arguments.
\<close>

record command =
  cmdDetached :: bool
  cmdStdin :: "string option"
  cmdArgs :: "string list"

type_synonym 'w runner = "command \<Rightarrow> 'w \<Rightarrow> string option \<times> 'w"

definition namespaceGet :: "bool \<Rightarrow> partition_request \<Rightarrow> command" where
  "namespaceGet detached r = \<lparr>cmdDetached = detached, cmdStdin = None,
     cmdArgs = [''get'', ''namespace'', prNamespace r, ''--output=json'']\<rparr>"

definition resourceGet :: "bool \<Rightarrow> partition_request \<Rightarrow> command" where
  "resourceGet detached r = \<lparr>cmdDetached = detached, cmdStdin = None,
     cmdArgs = [''--namespace'', prNamespace r, ''get'', ''networkchaos'', resourceName (prRunID r),
       ''--ignore-not-found'', ''--output=json'']\<rparr>"

definition createCommand :: "partition_request \<Rightarrow> command" where
  "createCommand r = \<lparr>cmdDetached = False, cmdStdin = Some (renderNetworkChaos r),
     cmdArgs = [''--namespace'', prNamespace r, ''create'', ''--filename'', ''-'']\<rparr>"

definition waitCommand :: "partition_request \<Rightarrow> command" where
  "waitCommand r = \<lparr>cmdDetached = False, cmdStdin = None,
     cmdArgs = [''--namespace'', prNamespace r, ''wait'', ''--for=condition=AllInjected'',
       ''networkchaos/'' @ resourceName (prRunID r), ''--timeout=60s'']\<rparr>"

definition deleteCommand :: "bool \<Rightarrow> partition_request \<Rightarrow> command" where
  "deleteCommand detached r = \<lparr>cmdDetached = detached, cmdStdin = None,
     cmdArgs = [''--namespace'', prNamespace r, ''delete'', ''networkchaos'', resourceName (prRunID r),
       ''--wait=true'', ''--timeout=60s'']\<rparr>"

section \<open>Ownership\<close>

datatype (plugins only: code size) fault_err =
    RequestInvalid request_err | NamespaceRead string | NamespaceDecode string | NamespaceNotOwned string
  | ResourceRead string | ResourceDecode string | ResourceNotOwned string
  | CreateFailed string | DeleteFailed string | InjectionFailed string "fault_err option"

record chaos_condition =
  ccType :: string
  ccStatus :: string

record chaos_resource =
  chLabels :: "(string, string) gomap"
  chConditions :: "chaos_condition list"

definition labelsDecoder :: "(string, string) gomap decoder" where
  "labelsDecoder = decStruct [(''metadata'', decStruct [(''labels'', decStringMap (\<lambda>m. m) (\<lambda>m _. m))])]"

definition chaosDecoder :: "chaos_resource decoder" where
  "chaosDecoder = decStruct
     [(''metadata'', decStruct [(''labels'', decStringMap chLabels (\<lambda>m r. r\<lparr>chLabels := m\<rparr>))]),
      (''status'', decStruct
        [(''conditions'', decSlice \<lparr>ccType = [], ccStatus = []\<rparr>
           (decStruct [(''type'', decString (\<lambda>v c. c\<lparr>ccType := v\<rparr>)), (''status'', decString (\<lambda>v c. c\<lparr>ccStatus := v\<rparr>))])
           (\<lambda>v r. r\<lparr>chConditions := v\<rparr>))])]"

definition exactLabels :: "string \<Rightarrow> (string, string) gomap \<Rightarrow> bool" where
  "exactLabels runID labels \<longleftrightarrow> \<not> (mget [] labels managedLabel \<noteq> ''true'' \<or> mget [] labels phaseLabel \<noteq> ''3'' \<or>
     mget [] labels runIDLabel \<noteq> runID)"

definition decodeWith :: "(string \<Rightarrow> json option) \<Rightarrow> 'a decoder \<Rightarrow> 'a \<Rightarrow> string \<Rightarrow> 'a option" where
  "decodeWith parse d z out = (case parse out of None \<Rightarrow> None | Some j \<Rightarrow> unmarshal d z j)"

definition verifyNamespaceOwnership ::
  "'w runner \<Rightarrow> (string \<Rightarrow> json option) \<Rightarrow> bool \<Rightarrow> partition_request \<Rightarrow> 'w \<Rightarrow> (fault_err + unit) \<times> 'w" where
  "verifyNamespaceOwnership run parse detached r w =
     (case run (namespaceGet detached r) w of
        (None, w') \<Rightarrow> (Inl (NamespaceRead (prNamespace r)), w')
      | (Some out, w') \<Rightarrow>
          (case decodeWith parse labelsDecoder [] out of
             None \<Rightarrow> (Inl (NamespaceDecode (prNamespace r)), w')
           | Some labels \<Rightarrow>
               if exactLabels (prRunID r) labels then (Inr (), w')
               else (Inl (NamespaceNotOwned (prNamespace r)), w')))"

definition getOwnedResource ::
  "'w runner \<Rightarrow> (string \<Rightarrow> json option) \<Rightarrow> bool \<Rightarrow> partition_request \<Rightarrow> 'w \<Rightarrow> (fault_err + chaos_resource option) \<times> 'w" where
  "getOwnedResource run parse detached r w =
     (let name = resourceName (prRunID r) in
      case run (resourceGet detached r) w of
        (None, w') \<Rightarrow> (Inl (ResourceRead name), w')
      | (Some out, w') \<Rightarrow>
          if blank out then (Inr None, w')
          else (case decodeWith parse chaosDecoder \<lparr>chLabels = [], chConditions = []\<rparr> out of
             None \<Rightarrow> (Inl (ResourceDecode name), w')
           | Some object \<Rightarrow>
               if exactLabels (prRunID r) (chLabels object) then (Inr (Some object), w')
               else (Inl (ResourceNotOwned name), w')))"

section \<open>Operations\<close>

definition Revert ::
  "'w runner \<Rightarrow> (string \<Rightarrow> json option) \<Rightarrow> bool \<Rightarrow> partition_request \<Rightarrow> 'w \<Rightarrow> (fault_err + unit) \<times> 'w" where
  "Revert run parse detached r w =
     andThen (wrapE RequestInvalid (validatePartitionRequest r), w) (\<lambda>_ w.
     andThen (verifyNamespaceOwnership run parse detached r w) (\<lambda>_ w.
     andThen (getOwnedResource run parse detached r w) (\<lambda>object w.
       case object of
         None \<Rightarrow> (Inr (), w)
       | Some _ \<Rightarrow>
           (case run (deleteCommand detached r) w of
              (None, w) \<Rightarrow> (Inl (DeleteFailed (resourceName (prRunID r))), w)
            | (Some _, w) \<Rightarrow> (Inr (), w)))))"

definition Apply ::
  "'w runner \<Rightarrow> (string \<Rightarrow> json option) \<Rightarrow> partition_request \<Rightarrow> 'w \<Rightarrow> (fault_err + unit) \<times> 'w" where
  "Apply run parse r w =
     andThen (wrapE RequestInvalid (validatePartitionRequest r), w) (\<lambda>_ w.
     andThen (verifyNamespaceOwnership run parse False r w) (\<lambda>_ w.
       let name = resourceName (prRunID r) in
       case run (createCommand r) w of
         (None, w) \<Rightarrow> (Inl (CreateFailed name), w)
       | (Some _, w) \<Rightarrow>
           (case run (waitCommand r) w of
              (Some _, w) \<Rightarrow> (Inr (), w)
            | (None, w) \<Rightarrow>
                (case Revert run parse True r w of
                   (Inl e, w) \<Rightarrow> (Inl (InjectionFailed name (Some e)), w)
                 | (Inr _, w) \<Rightarrow> (Inl (InjectionFailed name None), w)))))"

definition conditionStep :: "chaos_condition \<Rightarrow> fault_status \<Rightarrow> fault_status" where
  "conditionStep c st =
     (if ccStatus c \<noteq> ''True'' then st
      else if ccType c = ''AllInjected'' then st\<lparr>fsAllInjected := True\<rparr>
      else if ccType c = ''AllRecovered'' then st\<lparr>fsAllRecovered := True\<rparr>
      else st)"

definition Status ::
  "'w runner \<Rightarrow> (string \<Rightarrow> json option) \<Rightarrow> partition_request \<Rightarrow> 'w \<Rightarrow> (fault_err + fault_status) \<times> 'w" where
  "Status run parse r w =
     andThen (wrapE RequestInvalid (validatePartitionRequest r), w) (\<lambda>_ w.
     andThen (verifyNamespaceOwnership run parse False r w) (\<lambda>_ w.
     andThen (getOwnedResource run parse False r w) (\<lambda>object w.
       case object of
         None \<Rightarrow> (Inr \<lparr>fsExists = False, fsAllInjected = False, fsAllRecovered = False\<rparr>, w)
       | Some ob \<Rightarrow>
           (Inr (fold conditionStep (chConditions ob)
                  \<lparr>fsExists = True, fsAllInjected = False, fsAllRecovered = False\<rparr>), w))))"

subsection \<open>Construction and the process runner\<close>

datatype (plugins only: code size) new_chaos_err = KubectlPathRequired | KubeconfigRequired | KubeconfigUnresolved | ContextRejected string

record exec_runner =
  kubectlPath :: string
  baseArguments :: "string list"

definition NewChaosMesh :: "host \<Rightarrow> string \<Rightarrow> string \<Rightarrow> string \<Rightarrow> new_chaos_err + exec_runner" where
  "NewChaosMesh h kubectl kubeconfig contextName =
     (if kubectl = [] then Inl KubectlPathRequired
      else if kubeconfig = [] then Inl KubeconfigRequired
      else case Abs h kubeconfig of
        None \<Rightarrow> Inl KubeconfigUnresolved
      | Some absolute \<Rightarrow>
          if contextName \<noteq> ''kind-ethquake'' \<and> contextName \<noteq> ''kind-ethquake-chaos-smoke'' \<and>
             contextName \<noteq> ''gke-ethquake-phase3''
          then Inl (ContextRejected contextName)
          else Inr \<lparr>kubectlPath = kubectl,
                    baseArguments = [''--kubeconfig'', absolute, ''--context'', contextName]\<rparr>)"

text \<open>\<^verbatim>\<open>exec\<close> starts a process under a context and gives whether it succeeded and its output.\<close>

definition execRunner_Run ::
  "(bool \<Rightarrow> string \<Rightarrow> string option \<Rightarrow> string list \<Rightarrow> 'w \<Rightarrow> (bool \<times> string) \<times> 'w) \<Rightarrow> exec_runner \<Rightarrow> 'w runner" where
  "execRunner_Run exec er c w =
     (case exec (cmdDetached c) (kubectlPath er) (cmdStdin c) (baseArguments er @ cmdArgs c) w of
        ((True, out), w') \<Rightarrow> (Some out, w')
      | ((False, _), w') \<Rightarrow> (None, w'))"

section \<open>Requests that pass\<close>

lemma podStepP_Inr: "podStepP pod seen = Inr seen' \<longleftrightarrow> seen' = pod # seen \<and> dnsName pod \<and> pod \<notin> set seen"
  by (auto simp: podStepP_def)

lemma each_podStepP:
  "each podStepP pods seen = Inr seen' \<longleftrightarrow>
     seen' = rev pods @ seen \<and> list_all dnsName pods \<and> distinct pods \<and> set pods \<inter> set seen = {}"
proof (induction pods arbitrary: seen)
  case Nil
  then show ?case by auto
next
  case (Cons p pods)
  show ?case by (auto simp: bindR_Inr_iff podStepP_Inr Cons.IH)
qed

theorem validatePartitionRequest_iff:
  "validatePartitionRequest r = Inr () \<longleftrightarrow>
     dnsName (prRunID r) \<and> length (prRunID r) \<le> 41 \<and> prNamespacePrefix r = ''kt-ethquake-phase3-'' \<and>
     HasPrefix (prNamespace r) ''kt-ethquake-phase3-'' \<and> dnsName (prNamespace r) \<and>
     (\<exists>n > 0. TTL r = n * second) \<and> GroupA r \<noteq> [] \<and> GroupB r \<noteq> [] \<and>
     list_all dnsName (GroupA r @ GroupB r) \<and> distinct (GroupA r @ GroupB r)"
proof -
  have ttl: "\<not> (TTL r \<le> 0 \<or> TTL r mod second \<noteq> 0) \<longleftrightarrow> (\<exists>n > 0. TTL r = n * second)"
    by (auto simp: second_def mod_eq_0_iff_dvd mult.commute elim!: dvdE)
  have len: "\<not> length (resourceName (prRunID r)) > 63 \<longleftrightarrow> length (prRunID r) \<le> 41"
    by (simp add: resourceName_def) arith
  show ?thesis
    unfolding validatePartitionRequest_def if_Inl_Inr_iff bindR_Inr_iff ttl len each.simps each_podStepP
    by auto
qed

section \<open>What is run\<close>

type_synonym exchange = "command \<times> string option"

text \<open>The runner that also writes down every exchange.\<close>

definition logged :: "'w runner \<Rightarrow> (exchange list \<times> 'w) runner" where
  "logged run c = (\<lambda>(log, w). case run c w of (out, w') \<Rightarrow> (out, log @ [(c, out)], w'))"

definition ownsNamespace :: "(string \<Rightarrow> json option) \<Rightarrow> partition_request \<Rightarrow> string \<Rightarrow> bool" where
  "ownsNamespace parse r out \<longleftrightarrow>
     (\<exists>labels. decodeWith parse labelsDecoder [] out = Some labels \<and> exactLabels (prRunID r) labels)"

definition ownsResource :: "(string \<Rightarrow> json option) \<Rightarrow> partition_request \<Rightarrow> string \<Rightarrow> bool" where
  "ownsResource parse r out \<longleftrightarrow> \<not> blank out \<and>
     (\<exists>ob. decodeWith parse chaosDecoder \<lparr>chLabels = [], chConditions = []\<rparr> out = Some ob \<and>
        exactLabels (prRunID r) (chLabels ob))"

text \<open>
  A command that changes the cluster, and what has to have been read before it: the labels of the
  namespace, and for a deletion, last of all, the labels of the resource.
\<close>

definition kubectlVerb :: "string list \<Rightarrow> string" where
  "kubectlVerb args = (if args ! 0 = ''--namespace'' then args ! 2 else args ! 0)"

definition changing :: "command \<Rightarrow> bool" where
  "changing c \<longleftrightarrow> kubectlVerb (cmdArgs c) \<notin> {''get'', ''wait''}"

definition justified :: "(string \<Rightarrow> json option) \<Rightarrow> partition_request \<Rightarrow> exchange list \<Rightarrow> command \<Rightarrow> bool" where
  "justified parse r seen c \<longleftrightarrow> validatePartitionRequest r = Inr () \<and>
     (\<exists>out. (namespaceGet (cmdDetached c) r, Some out) \<in> set seen \<and> ownsNamespace parse r out) \<and>
     (c = createCommand r \<or> c = deleteCommand (cmdDetached c) r \<and>
        (\<exists>out. seen \<noteq> [] \<and> last seen = (resourceGet (cmdDetached c) r, Some out) \<and> ownsResource parse r out))"

fun guarded :: "(string \<Rightarrow> json option) \<Rightarrow> partition_request \<Rightarrow> exchange list \<Rightarrow> exchange list \<Rightarrow> bool" where
  "guarded parse r seen [] = True"
| "guarded parse r seen (e # es) =
     ((changing (fst e) \<longrightarrow> justified parse r seen (fst e)) \<and> guarded parse r (seen @ [e]) es)"

lemma guarded_append: "guarded parse r seen (es @ fs) \<longleftrightarrow> guarded parse r seen es \<and> guarded parse r (seen @ es) fs"
  by (induction es arbitrary: seen) auto

lemma guarded_at: "guarded parse r [] (pre @ e # post) \<Longrightarrow> changing (fst e) \<Longrightarrow> justified parse r pre (fst e)"
  by (simp add: guarded_append)

lemma changing_commands [simp]:
  "\<not> changing (namespaceGet d r)" "\<not> changing (resourceGet d r)" "\<not> changing (waitCommand r)"
  "changing (createCommand r)" "changing (deleteCommand d r)"
  by (simp_all add: changing_def kubectlVerb_def namespaceGet_def resourceGet_def waitCommand_def createCommand_def deleteCommand_def)

lemma detached [simp]:
  "cmdDetached (namespaceGet d r) = d" "cmdDetached (resourceGet d r) = d" "cmdDetached (deleteCommand d r) = d"
  "cmdDetached (createCommand r) = False" "cmdDetached (waitCommand r) = False"
  by (simp_all add: namespaceGet_def resourceGet_def waitCommand_def createCommand_def deleteCommand_def)

lemma createCommand_not_get [simp]: "createCommand r \<noteq> namespaceGet d r" "createCommand r \<noteq> waitCommand r"
    "waitCommand r \<noteq> namespaceGet d r" "waitCommand r \<noteq> createCommand r"
  by (simp_all add: namespaceGet_def waitCommand_def createCommand_def)

lemma verifyNamespace_logged:
  "verifyNamespaceOwnership (logged run) parse d r (log, w) = (res, log', w') \<Longrightarrow>
   \<exists>out. log' = log @ [(namespaceGet d r, out)] \<and> (res = Inr () \<longleftrightarrow> (\<exists>s. out = Some s \<and> ownsNamespace parse r s))"
  by (auto simp: verifyNamespaceOwnership_def logged_def ownsNamespace_def split: prod.splits option.splits if_splits)

lemma getOwned_logged:
  "getOwnedResource (logged run) parse d r (log, w) = (res, log', w') \<Longrightarrow>
   \<exists>out. log' = log @ [(resourceGet d r, out)] \<and> (res = Inr None \<longleftrightarrow> (\<exists>s. out = Some s \<and> blank s)) \<and>
     ((\<exists>ob. res = Inr (Some ob)) \<longleftrightarrow> (\<exists>s. out = Some s \<and> ownsResource parse r s))"
  by (auto simp: getOwnedResource_def logged_def ownsResource_def Let_def split: prod.splits option.splits if_splits)

lemma Revert_logged:
  assumes "Revert (logged run) parse d r (log, w) = (res, log', w')" "guarded parse r [] log"
  shows "guarded parse r [] log' \<and> (\<exists>es. log' = log @ es \<and> (\<forall>e \<in> set es. cmdDetached (fst e) = d) \<and>
     (res = Inr () \<longrightarrow> (\<exists>out. (deleteCommand d r, Some out) \<in> set es) \<or>
        (\<exists>out. (resourceGet d r, Some out) \<in> set es \<and> blank out)))"
proof (cases "validatePartitionRequest r")
  case (Inl e)
  then show ?thesis using assms by (auto simp: Revert_def andThen_def)
next
  case (Inr u)
  obtain res1 log1 w1 where v: "verifyNamespaceOwnership (logged run) parse d r (log, w) = (res1, log1, w1)"
    by (metis prod_cases3)
  from verifyNamespace_logged [OF v] obtain out1 where log1: "log1 = log @ [(namespaceGet d r, out1)]"
    and own1: "res1 = Inr () \<longleftrightarrow> (\<exists>s. out1 = Some s \<and> ownsNamespace parse r s)" by blast
  have g1: "guarded parse r [] log1" using assms(2) by (simp add: log1 guarded_append)
  show ?thesis
  proof (cases res1)
    case (Inl e)
    then show ?thesis using assms v Inr log1 g1 by (auto simp: Revert_def andThen_def)
  next
    case (Inr u1)
    obtain res2 log2 w2 where gt: "getOwnedResource (logged run) parse d r (log1, w1) = (res2, log2, w2)"
      by (metis prod_cases3)
    from getOwned_logged [OF gt] obtain out2 where got: "log2 = log1 @ [(resourceGet d r, out2)] \<and>
        (res2 = Inr None \<longleftrightarrow> (\<exists>s. out2 = Some s \<and> blank s)) \<and>
        ((\<exists>ob. res2 = Inr (Some ob)) \<longleftrightarrow> (\<exists>s. out2 = Some s \<and> ownsResource parse r s))" ..
    note log2 = got [THEN conjunct1] and own2 = got [THEN conjunct2, THEN conjunct1] got [THEN conjunct2, THEN conjunct2]
    have g2: "guarded parse r [] log2" using g1 by (simp add: log2 guarded_append)
    have eq: "Revert (logged run) parse d r (log, w) = andThen (res2, log2, w2) (\<lambda>object w. case object of
         None \<Rightarrow> (Inr (), w)
       | Some _ \<Rightarrow> (case logged run (deleteCommand d r) w of
            (None, w) \<Rightarrow> (Inl (DeleteFailed (resourceName (prRunID r))), w) | (Some _, w) \<Rightarrow> (Inr (), w)))"
      using v gt \<open>validatePartitionRequest r = Inr u\<close> Inr by (simp add: Revert_def andThen_def)
    show ?thesis
    proof (cases "\<exists>ob. res2 = Inr (Some ob)")
      case True
      with own2(2) obtain s where s: "out2 = Some s" "ownsResource parse r s" by blast
      obtain out3 w3 where run: "run (deleteCommand d r) w2 = (out3, w3)" by (cases "run (deleteCommand d r) w2")
      have log': "log' = log2 @ [(deleteCommand d r, out3)]" and res: "res = Inr () \<longrightarrow> (\<exists>s. out3 = Some s)"
        using assms(1) True unfolding eq by (auto simp: andThen_def logged_def run split: option.splits)
      have "justified parse r log2 (deleteCommand d r)"
        using own1 Inr s \<open>validatePartitionRequest r = Inr u\<close> by (auto simp: justified_def log1 log2)
      then have "guarded parse r [] log'" using g2 by (simp add: log' guarded_append)
      then show ?thesis using res by (auto simp: log' log1 log2)
    next
      case False
      then have "log' = log2" "res = Inr () \<longrightarrow> res2 = Inr None"
        using assms(1) unfolding eq by (auto simp: andThen_def split: sum.splits option.splits)
      then show ?thesis using g2 own2(1) by (auto simp: log1 log2)
    qed
  qed
qed

lemma Apply_logged:
  assumes "Apply (logged run) parse r ([], w) = (res, log, w')"
  shows "guarded parse r [] log \<and>
     (res = Inr () \<longleftrightarrow> (\<exists>out. (waitCommand r, Some out) \<in> set log)) \<and>
     (\<forall>out. (createCommand r, Some out) \<in> set log \<longrightarrow> res \<noteq> Inr () \<longrightarrow>
        (\<exists>left. res = Inl (InjectionFailed (resourceName (prRunID r)) left) \<and>
           (left = None \<longrightarrow> (\<exists>out. (deleteCommand True r, Some out) \<in> set log) \<or>
              (\<exists>out. (resourceGet True r, Some out) \<in> set log \<and> blank out))))"
proof (cases "validatePartitionRequest r")
  case (Inl e)
  then show ?thesis using assms by (auto simp: Apply_def andThen_def)
next
  case (Inr u)
  obtain res1 log1 w1 where v: "verifyNamespaceOwnership (logged run) parse False r ([], w) = (res1, log1, w1)"
    by (metis prod_cases3)
  from verifyNamespace_logged [OF v] obtain out1 where log1: "log1 = [(namespaceGet False r, out1)]"
    and own1: "res1 = Inr () \<longleftrightarrow> (\<exists>s. out1 = Some s \<and> ownsNamespace parse r s)" by auto
  show ?thesis
  proof (cases res1)
    case (Inl e)
    then show ?thesis using assms v \<open>validatePartitionRequest r = Inr u\<close>
      by (auto simp: Apply_def andThen_def log1)
  next
    case (Inr u1)
    then have justified: "justified parse r log1 (createCommand r)"
      using own1 \<open>validatePartitionRequest r = Inr u\<close> by (auto simp: justified_def log1)
    obtain out2 w2 where create: "run (createCommand r) w1 = (out2, w2)" by (cases "run (createCommand r) w1")
    obtain out3 w3 where wait: "run (waitCommand r) w2 = (out3, w3)" by (cases "run (waitCommand r) w2")
    let ?log3 = "log1 @ [(createCommand r, out2), (waitCommand r, out3)]"
    have g3: "guarded parse r [] ?log3" using justified by (simp add: log1)
    note eq = assms [unfolded Apply_def andThen_def] v \<open>validatePartitionRequest r = Inr u\<close> Inr
    show ?thesis
    proof (cases out2)
      case None
      then have "res = Inl (CreateFailed (resourceName (prRunID r)))" "log = log1 @ [(createCommand r, None)]"
        using eq create by (auto simp: logged_def)
      then show ?thesis using justified by (simp add: log1)
    next
      case (Some s2)
      show ?thesis
      proof (cases out3)
        case (Some s3)
        then have "res = Inr ()" "log = ?log3" using eq create wait \<open>out2 = Some s2\<close> by (auto simp: logged_def)
        then show ?thesis using g3 Some by auto
      next
        case None
        obtain res4 log4 w4 where rv: "Revert (logged run) parse True r (?log3, w3) = (res4, log4, w4)"
          by (metis prod_cases3)
        from Revert_logged [OF rv g3] obtain es where g4: "guarded parse r [] log4" and log4: "log4 = ?log3 @ es"
          and det: "\<forall>e \<in> set es. cmdDetached (fst e)"
          and gone: "res4 = Inr () \<longrightarrow> (\<exists>out. (deleteCommand True r, Some out) \<in> set es) \<or>
             (\<exists>out. (resourceGet True r, Some out) \<in> set es \<and> blank out)" by auto
        have res: "log = log4" "res = Inl (InjectionFailed (resourceName (prRunID r))
            (case res4 of Inl e \<Rightarrow> Some e | Inr _ \<Rightarrow> None))"
          using eq create wait \<open>out2 = Some s2\<close> None rv by (auto simp: logged_def Let_def split: sum.splits)
        have "(waitCommand r, Some out) \<notin> set log4" for out
          using det by (auto simp: log4 log1 None)
        then show ?thesis using g4 gone res by (auto simp: log4 split: sum.splits)
      qed
    qed
  qed
qed

text \<open>
  C11: Whatever the cluster answers, Apply and Revert issue a command that changes it only for a valid
  request and after reading the exact ownership labels of the target namespace; a deletion only right
  after reading the same labels on the resource itself.
\<close>

theorem Mutations_guarded:
  assumes "Apply (logged run) parse r ([], w) = (res, log, w') \<or> Revert (logged run) parse d r ([], w) = (res', log, w')"
    and "log = pre @ (c, out) # post" "kubectlVerb (cmdArgs c) \<notin> {''get'', ''wait''}"
  shows "justified parse r pre c"
proof -
  have "guarded parse r [] log" using assms(1) Apply_logged Revert_logged by (metis guarded.simps(1))
  with assms(2,3) show ?thesis using guarded_at [of parse r pre "(c, out)" post] by (simp add: changing_def)
qed

text \<open>
  C12: Apply succeeds exactly when the injection was confirmed. When the resource was created and the
  injection not confirmed, a revert detached from the caller's context follows, and only two
  outcomes are reported: the resource is gone, deleted or already absent, or the error carries
  the error of the revert.
\<close>

theorem Apply_no_orphan:
  assumes "Apply (logged run) parse r ([], w) = (res, log, w')"
  shows "(res = Inr () \<longleftrightarrow> (\<exists>out. (waitCommand r, Some out) \<in> set log)) \<and>
     (\<forall>out. (createCommand r, Some out) \<in> set log \<longrightarrow> res \<noteq> Inr () \<longrightarrow>
        (\<exists>left. res = Inl (InjectionFailed (resourceName (prRunID r)) left) \<and>
           (left = None \<longrightarrow> (\<exists>out. (deleteCommand True r, Some out) \<in> set log) \<or>
              (\<exists>out. (resourceGet True r, Some out) \<in> set log \<and> blank out))))"
  using Apply_logged [OF assms] by blast

text \<open>The manifest does not depend on the order in which the pods of a side are listed.\<close>

theorem renderNetworkChaos_order:
  assumes "mset (GroupA r') = mset (GroupA r)" "mset (GroupB r') = mset (GroupB r)"
  shows "renderNetworkChaos (r\<lparr>GroupA := GroupA r', GroupB := GroupB r'\<rparr>) = renderNetworkChaos r"
proof -
  have "sort (GroupA r') = sort (GroupA r)" "sort (GroupB r') = sort (GroupB r)"
    using assms by (simp_all add: properties_for_sort)
  then show ?thesis by (simp add: renderNetworkChaos_def networkChaosJSON_def Let_def)
qed

end
