(* ===== verification/FaultExamples.thy ===== *)
theory FaultExamples
  imports ChaosMesh
begin

text \<open>A cluster whose namespace is owned and in which a partition is created but never injected.\<close>

definition exRequest :: partition_request where
  "exRequest = \<lparr>prRunID = ''fault-1'', prNamespace = ''kt-ethquake-phase3-fault-1'',
     prNamespacePrefix = ''kt-ethquake-phase3-'', GroupA = [''cl-2'', ''cl-1''], GroupB = [''cl-3''],
     TTL = 1920 * second\<rparr>"

definition exLabels :: json where
  "exLabels = JObj [(''metadata'', JObj [(''labels'', JObj
     [(managedLabel, JStr ''true''), (phaseLabel, JStr ''3''), (runIDLabel, JStr ''fault-1'')])])]"

definition exObject :: "string \<Rightarrow> json option" where
  "exObject out = (if out = ''object'' then Some exLabels else None)"

definition exKubectl :: "unit runner" where
  "exKubectl c w = (if kubectlVerb (cmdArgs c) = ''wait'' then (None, w) else (Some ''object'', w))"

definition exApplied :: "(fault_err + unit) \<times> exchange list \<times> unit" where
  "exApplied = Apply (logged exKubectl) exObject exRequest ([], ())"

definition exLabelMap :: "(string, string) gomap" where
  "exLabelMap = [(managedLabel, ''true''), (phaseLabel, ''3''), (runIDLabel, ''fault-1'')]"

lemma exRequest_valid: "validatePartitionRequest exRequest = Inr ()"
  by code_simp

lemma exObject_owned:
  "decodeWith exObject labelsDecoder [] ''object'' = Some exLabelMap"
  "decodeWith exObject chaosDecoder \<lparr>chLabels = [], chConditions = []\<rparr> ''object'' =
     Some \<lparr>chLabels = exLabelMap, chConditions = []\<rparr>"
  "exactLabels (prRunID exRequest) exLabelMap" "\<not> blank ''object''"
  by code_simp+

lemma exKubectl_commands:
  "exKubectl (waitCommand r) w = (None, w)" "exKubectl (createCommand r) w = (Some ''object'', w)"
  "exKubectl (namespaceGet d r) w = (Some ''object'', w)" "exKubectl (resourceGet d r) w = (Some ''object'', w)"
  "exKubectl (deleteCommand d r) w = (Some ''object'', w)"
  by (simp_all add: exKubectl_def kubectlVerb_def waitCommand_def createCommand_def namespaceGet_def resourceGet_def
      deleteCommand_def)

lemma exLogged:
  "logged exKubectl (waitCommand r) (log, w) = (None, log @ [(waitCommand r, None)], w)"
  "logged exKubectl (createCommand r) (log, w) = (Some ''object'', log @ [(createCommand r, Some ''object'')], w)"
  "logged exKubectl (namespaceGet d r) (log, w) = (Some ''object'', log @ [(namespaceGet d r, Some ''object'')], w)"
  "logged exKubectl (resourceGet d r) (log, w) = (Some ''object'', log @ [(resourceGet d r, Some ''object'')], w)"
  "logged exKubectl (deleteCommand d r) (log, w) = (Some ''object'', log @ [(deleteCommand d r, Some ''object'')], w)"
  by (simp_all add: logged_def exKubectl_commands)

lemma exOwned:
  "verifyNamespaceOwnership (logged exKubectl) exObject d exRequest (log, w) =
     (Inr (), log @ [(namespaceGet d exRequest, Some ''object'')], w)"
  "getOwnedResource (logged exKubectl) exObject d exRequest (log, w) =
     (Inr (Some \<lparr>chLabels = exLabelMap, chConditions = []\<rparr>),
       log @ [(resourceGet d exRequest, Some ''object'')], w)"
  unfolding verifyNamespaceOwnership_def getOwnedResource_def exLogged Let_def prod.case option.case exObject_owned
  by (simp_all only: exObject_owned if_True if_False option.case chaos_resource.select_convs)

lemma exApplied_log:
  "exApplied = (Inl (InjectionFailed (resourceName ''fault-1'') None),
     [(namespaceGet False exRequest, Some ''object''), (createCommand exRequest, Some ''object''),
      (waitCommand exRequest, None), (namespaceGet True exRequest, Some ''object''),
      (resourceGet True exRequest, Some ''object''), (deleteCommand True exRequest, Some ''object'')], ())"
proof -
  have "Revert (logged exKubectl) exObject True exRequest (log, w) = (Inr (), log @
      [(namespaceGet True exRequest, Some ''object''), (resourceGet True exRequest, Some ''object''),
       (deleteCommand True exRequest, Some ''object'')], w)" for log w
    by (simp add: Revert_def andThen_def exRequest_valid exOwned exLogged)
  moreover have "resourceName (prRunID exRequest) = resourceName ''fault-1''" by (simp add: exRequest_def)
  ultimately show ?thesis
    by (simp add: exApplied_def Apply_def andThen_def exRequest_valid exOwned exLogged Let_def)
qed

theorem Mutations_guarded_witness:
  "justified exObject exRequest
     [(namespaceGet False exRequest, Some ''object''), (createCommand exRequest, Some ''object''),
      (waitCommand exRequest, None), (namespaceGet True exRequest, Some ''object''),
      (resourceGet True exRequest, Some ''object'')] (deleteCommand True exRequest)"
  by (rule Mutations_guarded [where run = exKubectl and w = "()", OF disjI1 [OF exApplied_log [unfolded exApplied_def]],
        where out = "Some ''object''" and post = "[]"])
     (simp_all add: deleteCommand_def kubectlVerb_def)

theorem Apply_no_orphan_witness:
  "\<exists>left. fst exApplied = Inl (InjectionFailed (resourceName (prRunID exRequest)) left)"
  using Apply_no_orphan [OF exApplied_log [unfolded exApplied_def]]
  by (auto simp: exApplied_log exRequest_def)

theorem renderNetworkChaos_order_witness:
  "renderNetworkChaos (exRequest\<lparr>GroupA := [''cl-1'', ''cl-2''], GroupB := [''cl-3'']\<rparr>) = renderNetworkChaos exRequest"
  using renderNetworkChaos_order [of "exRequest\<lparr>GroupA := [''cl-1'', ''cl-2'']\<rparr>" exRequest]
  by (simp add: exRequest_def add_mset_commute)

end
