(* ===== verification/Measure.thy ===== *)
theory Measure
  imports Analysis Observer Timeseries
begin

text \<open>
  How a run is measured (internal/orchestrator/runner.go, from latestSlotExceeds on): lookups in the
  recorded observations, the divergence of heads, the measurement gaps and the summary of a
  run. The observations are the list the dataset recorded.
\<close>

section \<open>Lookups\<close>

definition zeroHead :: beacon_head where
  "zeroHead = \<lparr>headSlot = 0, headRoot = [], ParentRoot = [], StateRoot = [], Canonical = False, headOptimistic = False\<rparr>"

definition zeroObservation :: beacon_observation where
  "zeroObservation = \<lparr>boTimestamp = zeroTime, boTarget = [], boCurrentSlot = 0, boHead = zeroHead,
     boFinality = \<lparr>finalityEpoch = 0, finalityRoot = [], finalityOptimistic = False\<rparr>, boFinalityLag = 0,
     boPollDuration = 0\<rparr>"

definition latestStep ::
  "(string, beacon_observation) gomap \<Rightarrow> beacon_observation \<Rightarrow> (string, beacon_observation) gomap" where
  "latestStep result observation =
     (case map_of result (boTarget observation) of
        None \<Rightarrow> mput (boTarget observation) observation result
      | Some current \<Rightarrow>
          if boTimestamp observation > boTimestamp current
          then mput (boTarget observation) observation result else result)"

definition latestByTarget :: "beacon_observation list \<Rightarrow> (string, beacon_observation) gomap" where
  "latestByTarget observations = foldl latestStep [] observations"

definition atSlotStep ::
  "string \<Rightarrow> u64 \<Rightarrow> beacon_observation option \<Rightarrow> beacon_observation \<Rightarrow> beacon_observation option" where
  "atSlotStep target slot result observation =
     (if boTarget observation \<noteq> target \<or> boCurrentSlot observation \<noteq> slot then result
      else (case result of
              None \<Rightarrow> Some observation
            | Some current \<Rightarrow> if boTimestamp observation > boTimestamp current then Some observation else result))"

definition observationAtSlot :: "beacon_observation list \<Rightarrow> string \<Rightarrow> u64 \<Rightarrow> beacon_observation option" where
  "observationAtSlot observations target slot = foldl (atSlotStep target slot) None observations"

text \<open>The map holds the zero observation for a target without one.\<close>

definition observationsAtSlotMap ::
  "beacon_observation list \<Rightarrow> string list \<Rightarrow> u64 \<Rightarrow> (string, beacon_observation) gomap" where
  "observationsAtSlotMap observations targets slot =
     foldl (\<lambda>m target. mput target (case observationAtSlot observations target slot of
        None \<Rightarrow> zeroObservation | Some ob \<Rightarrow> ob) m) [] targets"

text \<open>\<open>None\<close> is the result \<^verbatim>\<open>false\<close>; the runner always has four targets.\<close>

definition commonLatestSlot :: "dataset_snapshot \<Rightarrow> string list \<Rightarrow> u64 option" where
  "commonLatestSlot snapshot targets =
     (let latest = latestByTarget (snapBeacon snapshot) in
      if length latest \<noteq> length targets then None
      else let slot = boCurrentSlot (mget zeroObservation latest (hd targets)) in
        if list_ex (\<lambda>target. boCurrentSlot (mget zeroObservation latest target) \<noteq> slot) (tl targets) then None
        else Some slot)"

definition latestSlotExceeds :: "dataset_snapshot \<Rightarrow> string list \<Rightarrow> u64 \<Rightarrow> bool" where
  "latestSlotExceeds snapshot targets maximum =
     (let latest = latestByTarget (snapBeacon snapshot) in
      list_ex (\<lambda>target. case map_of latest target of
         None \<Rightarrow> False | Some observation \<Rightarrow> boCurrentSlot observation > maximum) targets)"

definition latestTimestamp :: "(string, beacon_observation) gomap \<Rightarrow> time" where
  "latestTimestamp observations =
     foldl (\<lambda>result (_, ob). if boTimestamp ob > result then boTimestamp ob else result) zeroTime observations"

definition latestDatasetTimestamp :: "dataset_snapshot \<Rightarrow> time" where
  "latestDatasetTimestamp d =
     foldl (\<lambda>result gap. if pfTimestamp gap > result then pfTimestamp gap else result)
       (foldl (\<lambda>result ob. if boTimestamp ob > result then boTimestamp ob else result) zeroTime (snapBeacon d))
       (snapGaps d)"

definition targetNames :: "'c target list \<Rightarrow> string list" where
  "targetNames targets = sort (map tgtName targets)"

section \<open>Slots of a window\<close>

text \<open>The values of \<^verbatim>\<open>for slot := start; ; slot++\<close> up to the break at the end slot.\<close>

definition slotsFrom :: "u64 \<Rightarrow> u64 \<Rightarrow> u64 list" where
  "slotsFrom start end = map (\<lambda>i. start + of_nat i) [0..<Suc (unat (end - start))]"

fun disagreeWith :: "beacon_observation list \<Rightarrow> u64 \<Rightarrow> beacon_head \<Rightarrow> string list \<Rightarrow> bool" where
  "disagreeWith observations slot reference [] = False"
| "disagreeWith observations slot reference (target # targets) =
     (case observationAtSlot observations target slot of
        None \<Rightarrow> False
      | Some observation \<Rightarrow>
          if headSlot (boHead observation) \<noteq> headSlot reference \<or> headRoot (boHead observation) \<noteq> headRoot reference
          then True else disagreeWith observations slot reference targets)"

definition headsDisagreeAtCurrentSlot :: "beacon_observation list \<Rightarrow> string list \<Rightarrow> u64 \<Rightarrow> bool" where
  "headsDisagreeAtCurrentSlot observations targets slot =
     (case targets of
        [] \<Rightarrow> False
      | target # rest \<Rightarrow>
          (case observationAtSlot observations target slot of
             None \<Rightarrow> False
           | Some observation \<Rightarrow> disagreeWith observations slot (boHead observation) rest))"

fun divergenceLoop :: "(u64 \<Rightarrow> bool) \<Rightarrow> u64 \<Rightarrow> u64 \<Rightarrow> u64 list \<Rightarrow> bool" where
  "divergenceLoop disagree tolerance consecutive [] = False"
| "divergenceLoop disagree tolerance consecutive (slot # rest) =
     (if disagree slot
      then (let consecutive = consecutive + 1 in
            if consecutive > tolerance then True else divergenceLoop disagree tolerance consecutive rest)
      else divergenceLoop disagree tolerance 0 rest)"

definition headDivergenceExceeded ::
  "beacon_observation list \<Rightarrow> string list \<Rightarrow> u64 \<Rightarrow> u64 \<Rightarrow> u64 \<Rightarrow> bool" where
  "headDivergenceExceeded observations targets startSlot endSlot tolerance =
     divergenceLoop (headsDisagreeAtCurrentSlot observations targets) tolerance 0 (slotsFrom startSlot endSlot)"

section \<open>Gaps\<close>

text \<open>\<^verbatim>\<open>time.RFC3339Nano\<close> of a UTC time: trailing zeros of the fraction are dropped.\<close>

definition formatRFC3339Nano :: "time \<Rightarrow> string" where
  "formatRFC3339Nano t =
     (let fraction = rev (dropWhile (\<lambda>c. c = CHR ''0'') (rev (padded 9 (t mod second)))) in
      take 19 (formatTime t) @ (if fraction = [] then [] else ''.'' @ fraction) @ ''Z'')"

definition pollGaps :: "poll_failure list \<Rightarrow> time \<Rightarrow> time \<Rightarrow> string list" where
  "pollGaps input start end =
     map (\<lambda>gap. pfTarget gap @ '' '' @ pfOperation gap @ '' at '' @ formatRFC3339Nano (pfTimestamp gap))
       (filter (\<lambda>gap. \<not> pfTimestamp gap < start \<and> \<not> pfTimestamp gap > end) input)"

definition missingGap :: "string \<Rightarrow> u64 \<Rightarrow> string" where
  "missingGap target slot =
     ''missing Beacon observation for target '' @ target @ '' at current slot '' @ FormatUint slot"

definition primaryMeasurementGaps ::
  "dataset_snapshot \<Rightarrow> u64 \<Rightarrow> u64 \<Rightarrow> (string, beacon_observation) gomap \<Rightarrow> (string, beacon_observation) gomap \<Rightarrow>
   string list \<Rightarrow> string list" where
  "primaryMeasurementGaps dataset startSlot endSlot starts ends targets =
     sort (pollGaps (snapGaps dataset) (latestTimestamp starts) (latestTimestamp ends) @
       concat (map (\<lambda>slot. map (\<lambda>target. missingGap target slot)
         (filter (\<lambda>target. observationAtSlot (snapBeacon dataset) target slot = None) targets))
         (slotsFrom startSlot endSlot)))"

definition recoveryGapText :: string where
  "recoveryGapText = ''recovery observation window did not reach recovery or the preregistered censor slot''"

definition recoveryMeasurementGaps :: "dataset_snapshot \<Rightarrow> time \<Rightarrow> bool \<Rightarrow> string list" where
  "recoveryMeasurementGaps dataset removedAt windowComplete =
     pollGaps (snapGaps dataset) removedAt (latestDatasetTimestamp dataset) @
     (if windowComplete then [] else [recoveryGapText])"

definition finalizedEpochProgress :: "u64 \<Rightarrow> u64 \<Rightarrow> string + u64" where
  "finalizedEpochProgress start end =
     (if end < start
      then Inl (''finalized epoch regressed from '' @ FormatUint start @ '' to '' @ FormatUint end)
      else Inr (end - start))"

section \<open>The summary\<close>

text \<open>What the summary takes of the configuration of a run.\<close>

record run_inputs =
  inScenario :: scenario
  inRunID :: string
  inPlacements :: "placement list"
  inDependencies :: dependency_metadata

definition groupsStep :: "placement list \<Rightarrow> (string, string) gomap \<Rightarrow> participant \<Rightarrow> (string, string) gomap" where
  "groupsStep placements groups p =
     foldl (\<lambda>groups pl. if plParticipantID pl = pID p
        then mput (BeaconTarget p) (mget [] groups (pID p)) groups else groups) groups placements"

definition groupsOf :: "scenario \<Rightarrow> placement list \<Rightarrow> (string, string) gomap" where
  "groupsOf s placements = foldl (groupsStep placements) (groupByParticipant s) (scParticipants s)"

definition clientsOf :: "scenario \<Rightarrow> (string, string) gomap" where
  "clientsOf s = foldl (\<lambda>m p. mput (BeaconTarget p) (CLClient p) m) [] (scParticipants s)"

definition recoverySlots :: "beacon_observation list \<Rightarrow> string \<Rightarrow> time \<Rightarrow> u64 \<Rightarrow> u64 \<Rightarrow> u64 option" where
  "recoverySlots observations name removedAt endEpoch removalSlot =
     map_option (\<lambda>ob. boCurrentSlot ob - removalSlot)
       (find (\<lambda>ob. \<not> (boTarget ob \<noteq> name \<or> boTimestamp ob < removedAt \<or>
                finalityEpoch (boFinality ob) \<le> endEpoch \<or> boCurrentSlot ob < removalSlot)) observations)"

record summary_state =
  ssTargets :: "target_result list"
  ssPrimaryGaps :: "string list"

definition summaryStep ::
  "string \<Rightarrow> dataset_snapshot \<Rightarrow> (string, beacon_observation) gomap \<Rightarrow> (string, beacon_observation) gomap \<Rightarrow>
   (string, string) gomap \<Rightarrow> (string, string) gomap \<Rightarrow> time \<Rightarrow> u64 \<Rightarrow> bool \<Rightarrow>
   string \<Rightarrow> summary_state \<Rightarrow> summary_state" where
  "summaryStep condition dataset starts ends clients groups removedAt removalSlot divergence name st =
     (let start = mget zeroObservation starts name; stop = mget zeroObservation ends name;
          r = finalizedEpochProgress (finalityEpoch (boFinality start)) (finalityEpoch (boFinality stop)) in
      \<lparr>ssTargets = ssTargets st @ [\<lparr>resTarget = name, resCLClient = mget [] clients name,
           resGroup = mget [] groups name,
           StartFinalizedEpoch = finalityEpoch (boFinality start), EndFinalizedEpoch = finalityEpoch (boFinality stop),
           FinalizedEpochProgress = (case r of Inl _ \<Rightarrow> 0 | Inr progress \<Rightarrow> progress),
           RecoverySlots = (if condition = ConditionFault
             then recoverySlots (snapBeacon dataset) name removedAt (finalityEpoch (boFinality stop)) removalSlot
             else None),
           DivergenceExceeded = divergence\<rparr>],
       ssPrimaryGaps = ssPrimaryGaps st @
         (case r of Inl e \<Rightarrow> [''target '' @ name @ '': '' @ e] | Inr _ \<Rightarrow> [])\<rparr>)"

definition summarizeRun ::
  "run_inputs \<Rightarrow> string list \<Rightarrow> string \<Rightarrow> u64 \<Rightarrow> realized_split \<Rightarrow> dataset_snapshot \<Rightarrow> dataset_snapshot \<Rightarrow>
   dataset_snapshot \<Rightarrow> u64 \<Rightarrow> u64 \<Rightarrow> time \<Rightarrow> u64 \<Rightarrow> bool \<Rightarrow> run_summary" where
  "summarizeRun cfg names condition repetition split initial ending dataset startSlot endSlot removedAt removalSlot
     windowComplete =
     (let s = inScenario cfg;
          starts = observationsAtSlotMap (snapBeacon initial) names startSlot;
          ends = observationsAtSlotMap (snapBeacon ending) names endSlot;
          divergence = headDivergenceExceeded (snapBeacon dataset) names startSlot endSlot
            (HeadDivergenceToleranceSlots (scThresholds s));
          st = fold (summaryStep condition dataset starts ends (clientsOf s) (groupsOf s (inPlacements cfg))
                 removedAt removalSlot divergence) names
               \<lparr>ssTargets = [], ssPrimaryGaps = primaryMeasurementGaps dataset startSlot endSlot starts ends names\<rparr>;
          recoveryGaps = (if condition = ConditionFault
            then recoveryMeasurementGaps dataset removedAt windowComplete else []) in
      \<lparr>rnSchemaVersion = RunSchemaVersion, RunID = inRunID cfg, Condition = condition, Repetition = repetition,
       rnWindow = \<lparr>StartedAt = latestTimestamp starts, EndedAt = latestTimestamp ends,
         StartSlot = startSlot, EndSlot = endSlot\<rparr>,
       PrimaryMeasurementComplete = (length (ssPrimaryGaps st) = 0),
       RecoveryMeasurementComplete = (length recoveryGaps = 0),
       MeasurementGaps = sort (ssPrimaryGaps st @ recoveryGaps),
       rnTargets = ssTargets st, RealizedSplit = split, Dependencies = inDependencies cfg,
       Confounders = \<lparr>ResourcesEqual = True, NodePlacementControlled = True, DependencyClosurePinned = True\<rparr>\<rparr>)"

section \<open>What the lookups find\<close>

text \<open>The latest of the elements that satisfy a predicate, the earliest recorded among equals.\<close>

definition pickLatest :: "(beacon_observation \<Rightarrow> bool) \<Rightarrow> beacon_observation list \<Rightarrow> beacon_observation option" where
  "pickLatest P obs = foldl (\<lambda>r ob. if \<not> P ob then r else case r of None \<Rightarrow> Some ob
     | Some current \<Rightarrow> if boTimestamp ob > boTimestamp current then Some ob else r) None obs"

lemma pickLatest_snoc:
  "pickLatest P (obs @ [ob]) = (if \<not> P ob then pickLatest P obs else case pickLatest P obs of None \<Rightarrow> Some ob
     | Some current \<Rightarrow> if boTimestamp ob > boTimestamp current then Some ob else Some current)"
  by (simp add: pickLatest_def split: option.splits)

lemma pickLatest_None: "pickLatest P obs = None \<longleftrightarrow> (\<forall>ob \<in> set obs. \<not> P ob)"
  by (induction obs rule: rev_induct)
     (auto simp: pickLatest_snoc pickLatest_def [of P "[]"] split: option.splits if_splits)

lemma pickLatest_Some:
  "pickLatest P obs = Some ob \<Longrightarrow> ob \<in> set obs \<and> P ob \<and> (\<forall>ob' \<in> set obs. P ob' \<longrightarrow> boTimestamp ob' \<le> boTimestamp ob)"
proof (induction obs arbitrary: ob rule: rev_induct)
  case Nil
  then show ?case by (simp add: pickLatest_def)
next
  case (snoc x obs)
  show ?case
  proof (cases "pickLatest P obs")
    case None
    then have "\<forall>ob \<in> set obs. \<not> P ob" by (simp add: pickLatest_None)
    then show ?thesis using snoc.prems None by (auto simp: pickLatest_snoc split: if_splits)
  next
    case (Some current)
    note IH = snoc.IH [OF Some]
    show ?thesis using snoc.prems IH by (auto simp: pickLatest_snoc Some split: if_splits)
  qed
qed

lemma observationAtSlot_pick:
  "observationAtSlot obs target slot = pickLatest (\<lambda>ob. boTarget ob = target \<and> boCurrentSlot ob = slot) obs"
  unfolding observationAtSlot_def pickLatest_def atSlotStep_def [abs_def]
  by (rule arg_cong [where f = "\<lambda>f. foldl f None obs"]) (auto intro!: ext split: option.splits)

lemma latestByTarget_pick: "map_of (latestByTarget obs) target = pickLatest (\<lambda>ob. boTarget ob = target) obs"
proof (induction obs rule: rev_induct)
  case (snoc ob obs)
  have "latestByTarget (obs @ [ob]) = latestStep (latestByTarget obs) ob" by (simp add: latestByTarget_def)
  then show ?case using snoc.IH
    by (auto simp: latestStep_def pickLatest_snoc split: option.splits)
qed (simp add: latestByTarget_def pickLatest_def)

lemma gomap_latestByTarget [simp]: "gomap (latestByTarget obs)"
proof -
  have "gomap m \<Longrightarrow> gomap (foldl latestStep m obs)" for m
    by (induction obs arbitrary: m) (simp_all add: latestStep_def split: option.splits)
  then show ?thesis by (simp add: latestByTarget_def)
qed

section \<open>Divergence\<close>

lemma unat_Suc64: "(c :: u64) \<noteq> MaxUint64 \<Longrightarrow> unat (c + 1) = Suc (unat c)"
proof -
  assume "c \<noteq> MaxUint64"
  then have "unat c \<noteq> 18446744073709551615" by (simp add: word_unat_eq_iff unat_max64)
  then have "unat c + unat (1 :: u64) < 2 ^ 64" using unat_le_max64 [of c] by simp
  then show ?thesis using unat_add64 [of c 1] by simp
qed

lemma divergenceLoop_iff:
  assumes "tolerance \<noteq> MaxUint64" "c \<le> tolerance"
  shows "divergenceLoop d tolerance c xs \<longleftrightarrow>
     (unat tolerance - unat c < length xs \<and> (\<forall>j \<le> unat tolerance - unat c. d (xs ! j))) \<or>
     (\<exists>k. k + unat tolerance < length xs \<and> (\<forall>j \<le> unat tolerance. d (xs ! (k + j))))"
  using assms(2)
proof (induction xs arbitrary: c)
  case Nil
  then show ?case by simp
next
  case (Cons x xs)
  let ?t = "unat tolerance" and ?c = "unat c"
  have c: "?c \<le> ?t" using Cons.prems by (simp add: word_le_nat_alt)
  have shift: "(\<exists>k. k + ?t < length (x # xs) \<and> (\<forall>j \<le> ?t. d ((x # xs) ! (k + j)))) \<longleftrightarrow>
      (?t < length (x # xs) \<and> (\<forall>j \<le> ?t. d ((x # xs) ! j))) \<or>
      (\<exists>k. k + ?t < length xs \<and> (\<forall>j \<le> ?t. d (xs ! (k + j))))"
  proof
    assume "\<exists>k. k + ?t < length (x # xs) \<and> (\<forall>j \<le> ?t. d ((x # xs) ! (k + j)))"
    then obtain k where k: "k + ?t < length (x # xs)" "\<forall>j \<le> ?t. d ((x # xs) ! (k + j))" by blast
    then show "(?t < length (x # xs) \<and> (\<forall>j \<le> ?t. d ((x # xs) ! j))) \<or>
        (\<exists>k. k + ?t < length xs \<and> (\<forall>j \<le> ?t. d (xs ! (k + j))))"
      by (cases k) auto
  next
    assume "(?t < length (x # xs) \<and> (\<forall>j \<le> ?t. d ((x # xs) ! j))) \<or>
        (\<exists>k. k + ?t < length xs \<and> (\<forall>j \<le> ?t. d (xs ! (k + j))))"
    then show "\<exists>k. k + ?t < length (x # xs) \<and> (\<forall>j \<le> ?t. d ((x # xs) ! (k + j)))"
    proof
      assume "?t < length (x # xs) \<and> (\<forall>j \<le> ?t. d ((x # xs) ! j))"
      then show ?thesis by (intro exI [of _ 0]) simp
    next
      assume "\<exists>k. k + ?t < length xs \<and> (\<forall>j \<le> ?t. d (xs ! (k + j)))"
      then obtain k where "k + ?t < length xs" "\<forall>j \<le> ?t. d (xs ! (k + j))" by blast
      then show ?thesis by (intro exI [of _ "Suc k"]) simp
    qed
  qed
  show ?case
  proof (cases "d x")
    case False
    have "\<not> (\<forall>j \<le> n. d ((x # xs) ! j))" for n using False by (intro notI) (drule spec [of _ 0], simp)
    then show ?thesis using False Cons.IH [of 0] unfolding shift by (auto intro: exI [of _ 0])
  next
    case True
    have u: "unat (c + 1) = Suc ?c"
      by (rule unat_Suc64) (use assms(1) Cons.prems word_order.extremum_uniqueI in blast)
    have head: "(\<forall>j \<le> n. d ((x # xs) ! j)) \<longleftrightarrow> (\<forall>j < n. d (xs ! j))" for n
    proof
      assume *: "\<forall>j \<le> n. d ((x # xs) ! j)"
      show "\<forall>j < n. d (xs ! j)" using * by (metis Suc_le_eq nth_Cons_Suc)
    next
      assume *: "\<forall>j < n. d (xs ! j)"
      show "\<forall>j \<le> n. d ((x # xs) ! j)"
      proof (intro allI impI)
        fix j assume "j \<le> n"
        then show "d ((x # xs) ! j)" using True * by (cases j) simp_all
      qed
    qed
    show ?thesis
    proof (cases "?c = ?t")
      case eq: True
      then have "c + 1 > tolerance" using u by (simp add: word_less_nat_alt)
      then show ?thesis using True eq by (simp add: Let_def)
    next
      case ne: False
      then have le: "c + 1 \<le> tolerance" "\<not> tolerance < c + 1" using c u by (auto simp: word_le_nat_alt word_less_nat_alt)
      have n: "?t - ?c = Suc (?t - Suc ?c)" using ne c by simp
      have "(\<forall>j < Suc m. d (xs ! j)) \<longleftrightarrow> (\<forall>j \<le> m. d (xs ! j))" for m by (simp add: less_Suc_eq_le)
      moreover have "?t < length (x # xs) \<and> (\<forall>j < ?t. d (xs ! j)) \<Longrightarrow>
          ?t - Suc ?c < length xs \<and> (\<forall>j \<le> ?t - Suc ?c. d (xs ! j))" using ne c by auto
      ultimately show ?thesis using True le Cons.IH [OF le(1)]
        unfolding shift head n u by (auto simp: Let_def)
    qed
  qed
qed

text \<open>
  C14: Divergence is reported exactly when the heads disagree in more consecutive slots of the window
  than the tolerance allows.
\<close>

theorem headDivergenceExceeded_iff:
  assumes "tolerance \<noteq> MaxUint64"
  shows "headDivergenceExceeded observations targets startSlot endSlot tolerance \<longleftrightarrow>
     (\<exists>k. k + unat tolerance \<le> unat (endSlot - startSlot) \<and>
        (\<forall>j \<le> unat tolerance. headsDisagreeAtCurrentSlot observations targets (startSlot + of_nat (k + j))))"
proof -
  have z: "(0 :: u64) \<le> tolerance" by simp
  have len: "length (slotsFrom startSlot endSlot) = Suc (unat (endSlot - startSlot))"
    by (simp add: slotsFrom_def)
  have nth: "slotsFrom startSlot endSlot ! i = startSlot + of_nat i" if "i \<le> unat (endSlot - startSlot)" for i
    using that unfolding slotsFrom_def by (subst nth_map) (simp_all del: upt_Suc)
  let ?D = "headsDisagreeAtCurrentSlot observations targets"
  have "(k + unat tolerance < Suc (unat (endSlot - startSlot)) \<and>
        (\<forall>j \<le> unat tolerance. ?D (slotsFrom startSlot endSlot ! (k + j)))) \<longleftrightarrow>
      (k + unat tolerance \<le> unat (endSlot - startSlot) \<and>
        (\<forall>j \<le> unat tolerance. ?D (startSlot + of_nat (k + j))))" for k
    using nth by (auto simp: less_Suc_eq_le)
  then have "headDivergenceExceeded observations targets startSlot endSlot tolerance \<longleftrightarrow>
      (unat tolerance < Suc (unat (endSlot - startSlot)) \<and> (\<forall>j \<le> unat tolerance. ?D (slotsFrom startSlot endSlot ! j))) \<or>
      (\<exists>k. k + unat tolerance \<le> unat (endSlot - startSlot) \<and> (\<forall>j \<le> unat tolerance. ?D (startSlot + of_nat (k + j))))"
    (is "_ \<longleftrightarrow> ?first \<or> ?any")
    unfolding headDivergenceExceeded_def divergenceLoop_iff [OF assms z] len by (simp only: unat_0 diff_zero)
  moreover have "?first \<Longrightarrow> ?any" using nth by (intro exI [of _ 0]) (auto simp: less_Suc_eq_le)
  ultimately show ?thesis by blast
qed

section \<open>A summary and its window\<close>

lemma set_slotsFrom: "a \<le> b \<Longrightarrow> set (slotsFrom a b) = {a..b}"
proof -
  assume ab: "a \<le> b"
  have u: "unat (b - a) = unat b - unat a" using ab by (rule unat_sub64)
  have "unat a \<le> unat b" using ab by (simp add: word_le_nat_alt)
  have v: "unat (a + of_nat i) = unat a + i" if "i \<le> unat b - unat a" for i
  proof -
    have "i < 18446744073709551616" using that unat_lt64 [of b] by linarith
    then have "unat (of_nat i :: u64) = i" by (simp add: unat_of_nat)
    moreover have "unat a + i < 18446744073709551616" using that \<open>unat a \<le> unat b\<close> unat_lt64 [of b] by linarith
    ultimately show ?thesis using unat_add64 [of a "of_nat i"] by simp
  qed
  show ?thesis
  proof (intro equalityI subsetI)
    fix x assume "x \<in> set (slotsFrom a b)"
    then obtain i where i: "i \<le> unat b - unat a" "x = a + of_nat i" by (auto simp: slotsFrom_def u less_Suc_eq_le simp del: upt_Suc)
    then show "x \<in> {a..b}" using v [of i] \<open>unat a \<le> unat b\<close> by (simp add: word_le_nat_alt)
  next
    fix x assume "x \<in> {a..b}"
    then have x: "unat a \<le> unat x" "unat x \<le> unat b" by (simp_all add: word_le_nat_alt)
    then have "x = a + of_nat (unat x - unat a)" using v [of "unat x - unat a"] by (simp add: word_unat_eq_iff)
    moreover have "unat x - unat a < Suc (unat (b - a))" using x u by linarith
    then have "unat x - unat a \<in> set [0..<Suc (unat (b - a))]" by (simp only: set_upt atLeastLessThan_iff zero_le simp_thms)
    ultimately show "x \<in> set (slotsFrom a b)" unfolding slotsFrom_def set_map by blast
  qed
qed

definition observed :: "beacon_observation list \<Rightarrow> string \<Rightarrow> u64 \<Rightarrow> bool" where
  "observed observations name slot \<longleftrightarrow> (\<exists>ob \<in> set observations. boTarget ob = name \<and> boCurrentSlot ob = slot)"

lemma observationAtSlot_None: "observationAtSlot obs name slot = None \<longleftrightarrow> \<not> observed obs name slot"
  by (auto simp: observationAtSlot_pick pickLatest_None observed_def)

text \<open>The finalized epoch of a target at a slot: that of its latest observation there.\<close>

definition epochAt :: "dataset_snapshot \<Rightarrow> string \<Rightarrow> u64 \<Rightarrow> u64" where
  "epochAt snap name slot =
     (case observationAtSlot (snapBeacon snap) name slot of
        None \<Rightarrow> 0 | Some ob \<Rightarrow> finalityEpoch (boFinality ob))"

lemma observationsAtSlotMap_get:
  "map_of (observationsAtSlotMap obs names slot) name =
     (if name \<in> set names then Some (case observationAtSlot obs name slot of None \<Rightarrow> zeroObservation | Some ob \<Rightarrow> ob)
      else None)"
  unfolding observationsAtSlotMap_def by (induction names rule: rev_induct) auto

lemma epoch_of_map:
  "name \<in> set names \<Longrightarrow>
   finalityEpoch (boFinality (mget zeroObservation (observationsAtSlotMap (snapBeacon snap) names slot) name)) =
     epochAt snap name slot"
  by (auto simp: mget_def observationsAtSlotMap_get epochAt_def zeroObservation_def split: option.splits)

definition regressed :: "(string, beacon_observation) gomap \<Rightarrow> (string, beacon_observation) gomap \<Rightarrow> string \<Rightarrow> bool" where
  "regressed starts ends name \<longleftrightarrow> finalityEpoch (boFinality (mget zeroObservation ends name)) <
     finalityEpoch (boFinality (mget zeroObservation starts name))"

lemma fold_summaryStep:
  "ssTargets (fold (summaryStep c d starts ends clients groups ra rs dv) names st) = ssTargets st @
     map (\<lambda>name. hd (ssTargets (summaryStep c d starts ends clients groups ra rs dv name \<lparr>ssTargets = [], ssPrimaryGaps = []\<rparr>))) names"
  "(ssPrimaryGaps (fold (summaryStep c d starts ends clients groups ra rs dv) names st) = [] \<longleftrightarrow>
     ssPrimaryGaps st = [] \<and> (\<forall>name \<in> set names. \<not> regressed starts ends name))"
proof (induction names arbitrary: st)
  case (Cons name names)
  {
    case 1
    show ?case using Cons.IH(1) by (simp add: summaryStep_def Let_def)
  next
    case 2
    show ?case using Cons.IH(2)
      by (auto simp: summaryStep_def Let_def finalizedEpochProgress_def regressed_def)
  }
qed simp_all

text \<open>The client and the group that the summary gives a target.\<close>

lemma groupsStep_map:
  "map_of (groupsStep pls groups p) = (if \<exists>pl \<in> set pls. plParticipantID pl = pID p
     then (map_of groups)(BeaconTarget p \<mapsto> mget [] groups (pID p)) else map_of groups)"
  unfolding groupsStep_def
proof (induction pls arbitrary: groups)
  case (Cons pl pls)
  have "mget [] (mput (BeaconTarget p) (mget [] groups (pID p)) groups) (pID p) = mget [] groups (pID p)"
    by (simp add: mget_def)
  then show ?case by (auto simp: Cons fun_eq_iff)
qed simp

text \<open>
  No name of a target is the name of another participant; the names of both kinds are distinct.
\<close>

definition separateNames :: "participant list \<Rightarrow> bool" where
  "separateNames ps \<longleftrightarrow>
     (\<forall>p \<in> set ps. \<forall>q \<in> set ps. BeaconTarget p = pID q \<or> BeaconTarget p = BeaconTarget q \<longrightarrow> p = q)"

lemma groupsStep_fold:
  assumes "\<forall>p \<in> set ps. \<exists>pl \<in> set pls. plParticipantID pl = pID p" "set ps \<subseteq> set all" "separateNames all"
    and "\<forall>q \<in> set all. mget [] groups (pID q) = G q"
  shows "(\<forall>q \<in> set all. mget [] (foldl (groupsStep pls) groups ps) (pID q) = G q) \<and>
     (\<forall>q \<in> set all. q \<in> set ps \<or> mget [] groups (BeaconTarget q) = G q \<longrightarrow>
        mget [] (foldl (groupsStep pls) groups ps) (BeaconTarget q) = G q)"
  using assms
proof (induction ps arbitrary: groups)
  case Nil
  then show ?case by simp
next
  case (Cons p ps)
  let ?g = "groupsStep pls groups p"
  have p: "p \<in> set all" using Cons.prems(2) by simp
  have m: "map_of ?g = (map_of groups)(BeaconTarget p \<mapsto> G p)"
    using groupsStep_map [of pls groups p] Cons.prems(1,4) p by simp
  have keep: "mget [] ?g (pID q) = G q" if q: "q \<in> set all" for q
    using Cons.prems(3,4) p q by (cases "BeaconTarget p = pID q") (auto simp: mget_def m separateNames_def)
  have new: "mget [] ?g (BeaconTarget q) = G q" if "q \<in> set all" "q = p \<or> mget [] groups (BeaconTarget q) = G q" for q
    using Cons.prems(3) p that by (cases "BeaconTarget p = BeaconTarget q") (auto simp: mget_def m separateNames_def)
  have "(\<forall>q \<in> set all. mget [] (foldl (groupsStep pls) ?g ps) (pID q) = G q) \<and>
     (\<forall>q \<in> set all. q \<in> set ps \<or> mget [] ?g (BeaconTarget q) = G q \<longrightarrow>
        mget [] (foldl (groupsStep pls) ?g ps) (BeaconTarget q) = G q)"
    by (rule Cons.IH) (use Cons.prems keep in auto)
  then show ?case using new by simp
qed

lemma groupsOf_get:
  assumes "adjudicable s" "ValidatePlacements s pls = Inr ()" "separateNames (scParticipants s)"
    and "p \<in> set (scParticipants s)"
  shows "mget [] (groupsOf s pls) (BeaconTarget p) = mget [] (groupByParticipant s) (pID p)"
proof -
  have "\<forall>p \<in> set (scParticipants s). \<exists>pl \<in> set pls. plParticipantID pl = pID p"
    using assms(1,2) by (simp add: placements_iff adjudicable_def) blast
  from groupsStep_fold [where G = "\<lambda>p. mget [] (groupByParticipant s) (pID p)", OF this order_refl assms(3)]
  show ?thesis using assms(4) by (simp add: groupsOf_def)
qed

lemma clientsOf_get:
  assumes "distinct (map BeaconTarget (scParticipants s))" "p \<in> set (scParticipants s)"
  shows "mget [] (clientsOf s) (BeaconTarget p) = CLClient p"
proof -
  have "map_of (clientsOf s) = mapOfList BeaconTarget CLClient (scParticipants s)"
  proof -
    have "map_of (foldl (\<lambda>m p. mput (BeaconTarget p) (CLClient p) m) [] ps) = mapOfList BeaconTarget CLClient ps" for ps
      by (induction ps rule: rev_induct) (simp_all add: mapOfList_snoc)
    then show ?thesis by (simp add: clientsOf_def)
  qed
  then show ?thesis using assms mapOfList_inj [of BeaconTarget "scParticipants s" p CLClient]
    by (simp add: mget_def distinct_map)
qed

text \<open>Everything a primary window needs: all targets at all slots, no failed poll, no regression.\<close>

definition completeWindow ::
  "dataset_snapshot \<Rightarrow> dataset_snapshot \<Rightarrow> dataset_snapshot \<Rightarrow> u64 \<Rightarrow> u64 \<Rightarrow> string list \<Rightarrow> bool" where
  "completeWindow initial ending dataset startSlot endSlot names \<longleftrightarrow>
     (\<forall>slot \<in> {startSlot..endSlot}. \<forall>name \<in> set names. observed (snapBeacon dataset) name slot) \<and>
     (\<forall>gap \<in> set (snapGaps dataset).
        \<not> (latestTimestamp (observationsAtSlotMap (snapBeacon initial) names startSlot) \<le> pfTimestamp gap \<and>
           pfTimestamp gap \<le> latestTimestamp (observationsAtSlotMap (snapBeacon ending) names endSlot))) \<and>
     (\<forall>name \<in> set names. epochAt initial name startSlot \<le> epochAt ending name endSlot)"

lemma pollGaps_Nil: "pollGaps gaps a b = [] \<longleftrightarrow> (\<forall>gap \<in> set gaps. \<not> (a \<le> pfTimestamp gap \<and> pfTimestamp gap \<le> b))"
  by (auto simp: pollGaps_def filter_empty_conv)

lemma primaryMeasurementGaps_Nil:
  assumes "a \<le> b"
  shows "primaryMeasurementGaps d a b starts ends names = [] \<longleftrightarrow>
     pollGaps (snapGaps d) (latestTimestamp starts) (latestTimestamp ends) = [] \<and>
     (\<forall>slot \<in> {a..b}. \<forall>name \<in> set names. observed (snapBeacon d) name slot)"
proof -
  have "sort xs = [] \<longleftrightarrow> xs = []" for xs :: "string list" by (metis length_0_conv length_sort)
  then show ?thesis using set_slotsFrom [OF assms]
    by (auto simp: primaryMeasurementGaps_def observationAtSlot_None filter_empty_conv)
qed

lemma regressed_iff:
  "name \<in> set names \<Longrightarrow>
   regressed (observationsAtSlotMap (snapBeacon initial) names a) (observationsAtSlotMap (snapBeacon ending) names b) name \<longleftrightarrow>
     \<not> epochAt initial name a \<le> epochAt ending name b"
  by (simp add: regressed_def epoch_of_map not_le)

lemma summary_complete:
  assumes "startSlot \<le> endSlot"
  shows "PrimaryMeasurementComplete (summarizeRun cfg names condition repetition split initial ending dataset
       startSlot endSlot removedAt removalSlot windowComplete) \<longleftrightarrow>
     completeWindow initial ending dataset startSlot endSlot names"
  using primaryMeasurementGaps_Nil [OF assms] regressed_iff
  by (auto simp: summarizeRun_def Let_def fold_summaryStep completeWindow_def pollGaps_Nil)

definition summaryTarget ::
  "run_inputs \<Rightarrow> string list \<Rightarrow> string \<Rightarrow> dataset_snapshot \<Rightarrow> dataset_snapshot \<Rightarrow> dataset_snapshot \<Rightarrow>
   u64 \<Rightarrow> u64 \<Rightarrow> time \<Rightarrow> u64 \<Rightarrow> string \<Rightarrow> target_result" where
  "summaryTarget cfg names condition initial ending dataset startSlot endSlot removedAt removalSlot name =
     (let first = epochAt initial name startSlot; last = epochAt ending name endSlot in
      \<lparr>resTarget = name, resCLClient = mget [] (clientsOf (inScenario cfg)) name,
       resGroup = mget [] (groupsOf (inScenario cfg) (inPlacements cfg)) name,
       StartFinalizedEpoch = first, EndFinalizedEpoch = last,
       FinalizedEpochProgress = (if last < first then 0 else last - first),
       RecoverySlots = (if condition = ConditionFault
         then recoverySlots (snapBeacon dataset) name removedAt last removalSlot else None),
       DivergenceExceeded = headDivergenceExceeded (snapBeacon dataset) names startSlot endSlot
         (HeadDivergenceToleranceSlots (scThresholds (inScenario cfg)))\<rparr>)"

lemma summary_targets:
  "rnTargets (summarizeRun cfg names condition repetition split initial ending dataset
       startSlot endSlot removedAt removalSlot windowComplete) =
     map (summaryTarget cfg names condition initial ending dataset startSlot endSlot removedAt removalSlot) names"
  by (auto simp: summarizeRun_def Let_def fold_summaryStep summaryStep_def summaryTarget_def epoch_of_map
      finalizedEpochProgress_def)

lemma summary_fields:
  "rnSchemaVersion (summarizeRun cfg names c r split i e d a b ra rs w) = RunSchemaVersion"
  "RunID (summarizeRun cfg names c r split i e d a b ra rs w) = inRunID cfg"
  "Condition (summarizeRun cfg names c r split i e d a b ra rs w) = c"
  "Repetition (summarizeRun cfg names c r split i e d a b ra rs w) = r"
  "RealizedSplit (summarizeRun cfg names c r split i e d a b ra rs w) = split"
  "Dependencies (summarizeRun cfg names c r split i e d a b ra rs w) = inDependencies cfg"
  "StartSlot (rnWindow (summarizeRun cfg names c r split i e d a b ra rs w)) = a"
  "EndSlot (rnWindow (summarizeRun cfg names c r split i e d a b ra rs w)) = b"
  "Confounders (summarizeRun cfg names c r split i e d a b ra rs w) =
     \<lparr>ResourcesEqual = True, NodePlacementControlled = True, DependencyClosurePinned = True\<rparr>"
  by (simp_all add: summarizeRun_def Let_def)

text \<open>
  C13: A summary of a valid scenario on valid placements, over the names of its targets, has a valid primary window
  exactly when the measurement was complete: every target observed at every slot, no failed poll from the start to
  the end of the window, and no finalized epoch that regressed. Then its targets carry the client
  and the group of their participants and their exact progress. It is assumed that no target has the name of
  another participant, which the code does not check, that the split is within its tolerance, and that the window
  does not start after its end.
\<close>

theorem summarizeRun_valid:
  assumes "Scenario_Validate sum256 (inScenario cfg) = Inr ()"
    and "ValidatePlacements (inScenario cfg) (inPlacements cfg) = Inr ()"
    and "mset names = mset (map BeaconTarget (scParticipants (inScenario cfg)))"
    and "separateNames (scParticipants (inScenario cfg))" "startSlot \<le> endSlot" "rsWithinTolerance split"
  shows "validWindow (inScenario cfg) (summarizeRun cfg names condition repetition split initial ending dataset
       startSlot endSlot removedAt removalSlot windowComplete) \<longleftrightarrow>
     completeWindow initial ending dataset startSlot endSlot names"
proof -
  let ?s = "inScenario cfg" and ?r = "summarizeRun cfg names condition repetition split initial ending dataset
       startSlot endSlot removedAt removalSlot windowComplete"
  note adj = Scenario_adjudicable [OF assms(1)]
  then obtain g1 g2 where sd: "sides ?s g1 g2" and bt: "distinct (map BeaconTarget (scParticipants ?s))"
    by (auto simp: adjudicable_def)
  have "validTarget ?s (summaryTarget cfg names condition initial ending dataset startSlot endSlot removedAt removalSlot name)"
    if name: "name \<in> set names" and le: "epochAt initial name startSlot \<le> epochAt ending name endSlot" for name
  proof -
    have "set names = BeaconTarget ` set (scParticipants ?s)" using assms(3) by (metis mset_eq_setD set_map)
    with name obtain p where p: "p \<in> set (scParticipants ?s)" "BeaconTarget p = name" by auto
    have "mget [] (groupByParticipant ?s) (pID p) = mget [] (groupsOf ?s (inPlacements cfg)) name"
      using groupsOf_get [OF adj assms(2,4) p(1)] p(2) by simp
    then obtain g where g: "g \<in> set (Groups (scFault ?s))" "pID p \<in> set (groupParticipants g)"
        "groupName g = mget [] (groupsOf ?s (inPlacements cfg)) name"
      using groupByParticipant_get [OF sd imageI [OF p(1)]] by blast
    have "mget [] (clientsOf ?s) name = CLClient p" using clientsOf_get [OF bt p(1)] p(2) by simp
    moreover have "\<not> epochAt ending name endSlot < epochAt initial name startSlot"
        "unat (epochAt ending name endSlot) = unat (epochAt initial name startSlot) +
           unat (epochAt ending name endSlot - epochAt initial name startSlot)"
      using le unat_sub64 [OF le] by (simp_all add: not_less word_le_nat_alt)
    ultimately show ?thesis using p g
      by (auto simp: validTarget_def summaryTarget_def Let_def intro!: bexI [of _ p] bexI [of _ g])
  qed
  then have "completeWindow initial ending dataset startSlot endSlot names \<Longrightarrow> list_all (validTarget ?s) (rnTargets ?r)"
    by (auto simp: summary_targets completeWindow_def list_all_iff)
  moreover have "map resTarget (rnTargets ?r) = names"
    by (simp add: summary_targets summaryTarget_def Let_def comp_def)
  ultimately show ?thesis
    using assms(3,6) by (auto simp: validWindow_def summary_complete [OF assms(5)] summary_fields)
qed

end
