(* ===== verification/MeasureExamples.thy ===== *)
theory MeasureExamples
  imports Measure Examples
begin

text \<open>
  A window of three slots of the example scenario, in which every target is observed at every slot
  and finality advances by one epoch, and a scenario whose names make a group wrong.
\<close>

definition exSeen :: "u64 \<Rightarrow> u64 \<Rightarrow> char \<Rightarrow> string \<Rightarrow> beacon_observation" where
  "exSeen slot epoch c name = zeroObservation\<lparr>boTimestamp := exTime + 12 * second * uint slot, boTarget := name,
     boCurrentSlot := slot, boHead := zeroHead\<lparr>headSlot := slot, headRoot := [c]\<rparr>,
     boFinality := \<lparr>finalityEpoch = epoch, finalityRoot = [], finalityOptimistic = False\<rparr>\<rparr>"

definition exTargetNames :: "string list" where
  "exTargetNames = map BeaconTarget (scParticipants exScenario)"

definition exMeasured :: "char \<Rightarrow> dataset_snapshot" where
  "exMeasured c = \<lparr>snapSpecs = [], snapGenesis = [],
     snapBeacon = map (exSeen 64 1 (CHR ''a'')) exTargetNames @ map (exSeen 65 1 (CHR ''a'')) (tl exTargetNames) @
       [exSeen 65 1 c (hd exTargetNames)] @ map (exSeen 66 2 (CHR ''a'')) exTargetNames,
     snapComparisons = [], snapGaps = []\<rparr>"

definition exInputs :: run_inputs where
  "exInputs = \<lparr>inScenario = exScenario, inRunID = ''control-1'',
     inPlacements = map exPlacement (scParticipants exScenario), inDependencies = \<lparr>EthereumPackageRevision = [], ImportedPackages = [], RuntimeImages = []\<rparr>\<rparr>"

lemma exMeasured_complete:
  "completeWindow (exMeasured c) (exMeasured c) (exMeasured c) 64 66 exTargetNames"
proof -
  have "{64..66} = {64, 65, 66 :: u64}"
  proof -
    have "{64..66} = set (slotsFrom 64 66)" by (rule set_slotsFrom [symmetric]) simp
    also have "slotsFrom 64 66 = [64, 65, 66]" by (simp add: slotsFrom_def upt_rec)
    finally show ?thesis by simp
  qed
  moreover have "list_all (\<lambda>slot. list_all (\<lambda>name. observed (snapBeacon (exMeasured c)) name slot) exTargetNames) [64, 65, 66]"
    by (simp add: observed_def exMeasured_def exTargetNames_def exSeen_def exScenario_def shippedScenario_def)
  moreover have "list_all (\<lambda>name. epochAt (exMeasured c) name 64 \<le> epochAt (exMeasured c) name 66) exTargetNames"
    by (simp add: epochAt_def observationAtSlot_pick pickLatest_def exMeasured_def exTargetNames_def exSeen_def exScenario_def shippedScenario_def)
  ultimately show ?thesis by (simp add: completeWindow_def list_all_iff exMeasured_def)
qed

theorem summarizeRun_valid_witness:
  "validWindow exScenario (summarizeRun exInputs exTargetNames ConditionControl 1 exSplit (exMeasured (CHR ''a'')) (exMeasured (CHR ''a''))
     (exMeasured (CHR ''a'')) 64 66 exTime 66 True)"
proof -
  have cfg: "inScenario exInputs = exScenario" "inPlacements exInputs = map exPlacement (scParticipants exScenario)"
    by (simp_all add: exInputs_def)
  have "separateNames (scParticipants exScenario)"
    by (simp add: separateNames_def exScenario_def shippedScenario_def)
  moreover have "rsWithinTolerance exSplit" by (simp add: exSplit_def)
  ultimately show ?thesis
    using summarizeRun_valid [of shippedSum256 exInputs exTargetNames 64 66 exSplit]
      exScenario_valid ValidatePlacements_iff_witness exMeasured_complete
    by (simp add: cfg exTargetNames_def)
qed

section \<open>Divergence\<close>

text \<open>One slot of disagreement exceeds a tolerance of none, and not a tolerance of one.\<close>

lemma exDisagree:
  "headsDisagreeAtCurrentSlot (snapBeacon (exMeasured (CHR ''b''))) exTargetNames 65"
  "\<not> headsDisagreeAtCurrentSlot (snapBeacon (exMeasured (CHR ''b''))) exTargetNames 64"
  "\<not> headsDisagreeAtCurrentSlot (snapBeacon (exMeasured (CHR ''b''))) exTargetNames 66"
  by (simp_all add: headsDisagreeAtCurrentSlot_def observationAtSlot_pick pickLatest_def exMeasured_def
      exTargetNames_def exSeen_def zeroHead_def exScenario_def shippedScenario_def)

theorem headDivergenceExceeded_iff_witness:
  "headDivergenceExceeded (snapBeacon (exMeasured (CHR ''b''))) exTargetNames 64 66 0 \<and>
   \<not> headDivergenceExceeded (snapBeacon (exMeasured (CHR ''b''))) exTargetNames 64 66 1"
proof
  let ?H = "headsDisagreeAtCurrentSlot (snapBeacon (exMeasured (CHR ''b''))) exTargetNames"
  have one: "(\<forall>j \<le> unat (0 :: u64). ?H (64 + of_nat (1 + j)))" using exDisagree(1) by simp
  show "headDivergenceExceeded (snapBeacon (exMeasured (CHR ''b''))) exTargetNames 64 66 0"
    by (rule headDivergenceExceeded_iff [THEN iffD2])
      (use one in \<open>auto intro!: exI [of _ 1]\<close>)
  have none: "\<not> (\<forall>j \<le> unat (1 :: u64). ?H (64 + of_nat (k + j)))" if "k + unat (1 :: u64) \<le> unat (66 - 64 :: u64)" for k
  proof -
    have "k = 0 \<or> k = 1" using that by auto
    then show ?thesis
    proof
      assume "k = 0"
      then show ?thesis using exDisagree(2) by (auto intro!: exI [of _ 0])
    next
      assume "k = 1"
      then show ?thesis using exDisagree(3) by (auto intro!: exI [of _ 1])
    qed
  qed
  show "\<not> headDivergenceExceeded (snapBeacon (exMeasured (CHR ''b''))) exTargetNames 64 66 1"
    by (subst headDivergenceExceeded_iff) (use none in auto)
qed

section \<open>A name that is a participant's and a target's\<close>

text \<open>
  The first participant's target bears the identifier of a participant of the other side. The scenario
  and its placements are valid, and the summary puts that participant on the first one's side.
\<close>

definition collidingScenario :: scenario where
  "collidingScenario = exScenario\<lparr>scParticipants :=
     (hd (scParticipants exScenario))\<lparr>BeaconTarget := ''lighthouse-geth-b''\<rparr> # tl (scParticipants exScenario)\<rparr>"

theorem Name_collision_regroups:
  "Scenario_Validate shippedSum256 collidingScenario = Inr ()"
  "ValidatePlacements collidingScenario (map exPlacement (scParticipants collidingScenario)) = Inr ()"
  "mget [] (groupByParticipant collidingScenario) ''lighthouse-geth-b'' = ''b''"
  "mget [] (groupsOf collidingScenario (map exPlacement (scParticipants collidingScenario))) ''lighthouse-b'' = ''a''"
  by code_simp+

end
