(* ===== verification/Artifact.thy ===== *)
theory Artifact
  imports Evidence
begin

text \<open>
  Evidence storage (internal/artifact/directory.go): the run directory and the files written into it,
  each exactly once. Operations that change the file system can fail at any point; which
  do is an oracle of the storage, so a theorem that holds for every oracle covers every failure.
\<close>

section \<open>A file system that can fail\<close>

text \<open>
  The operations are numbered. \<open>stFault n = None\<close> lets operation \<open>n\<close> go through; with \<open>Some k\<close> it
  fails, and a failing write has stored the first \<open>k\<close> bytes.
\<close>

record storage =
  stHost :: host
  stFault :: "nat \<Rightarrow> nat option"
  stTick :: nat

definition tick :: "storage \<Rightarrow> nat option \<times> storage" where
  "tick st = (stFault st (stTick st), st\<lparr>stTick := stTick st + 1\<rparr>)"

definition putNode :: "string \<Rightarrow> fs_node \<Rightarrow> storage \<Rightarrow> storage" where
  "putNode path node st = st\<lparr>stHost := (stHost st)\<lparr>Lstat := (Lstat (stHost st))(path \<mapsto> node)\<rparr>\<rparr>"

text \<open>
  \<^verbatim>\<open>os.Mkdir\<close>: the parent must resolve, and the name must be free. The directory is found under the
  name it was made with and under its resolved name.
\<close>

definition Mkdir :: "string \<Rightarrow> storage \<Rightarrow> bool \<times> storage" where
  "Mkdir path st =
     (case tick st of
        (Some _, st) \<Rightarrow> (False, st)
      | (None, st) \<Rightarrow>
          (case evalSymlinks (stHost st) (Dir path) of
             None \<Rightarrow> (False, st)
           | Some parent \<Rightarrow>
               let resolved = Join parent (Base path) in
               if Lstat (stHost st) path \<noteq> None \<or> Lstat (stHost st) resolved \<noteq> None then (False, st)
               else let st = putNode resolved DirNode (putNode path DirNode st); h = stHost st in
                 (True, st\<lparr>stHost := h\<lparr>evalSymlinks := (evalSymlinks h)(path \<mapsto> resolved, resolved \<mapsto> resolved)\<rparr>\<rparr>)))"

text \<open>\<^verbatim>\<open>os.Stat\<close> follows links.\<close>

definition Stat :: "host \<Rightarrow> string \<Rightarrow> fs_node option" where
  "Stat h path = (case evalSymlinks h path of None \<Rightarrow> None | Some resolved \<Rightarrow> Lstat h resolved)"

text \<open>\<^verbatim>\<open>os.MkdirAll\<close> of a clean absolute path, given by its elements, the last one first.\<close>

fun MkdirAll :: "string list \<Rightarrow> storage \<Rightarrow> bool \<times> storage" where
  "MkdirAll [] st = (True, st)"
| "MkdirAll (part # parts) st =
     (let path = slash # joinSlash (rev (part # parts)) in
      case Stat (stHost st) path of
        Some DirNode \<Rightarrow> (True, st)
      | Some _ \<Rightarrow> (False, st)
      | None \<Rightarrow>
          (case MkdirAll parts st of
             (False, st) \<Rightarrow> (False, st)
           | (True, st) \<Rightarrow>
               (case Mkdir path st of
                  (True, st) \<Rightarrow> (True, st)
                | (False, st) \<Rightarrow> (Lstat (stHost st) path = Some DirNode, st))))"

text \<open>
  Opening with \<^verbatim>\<open>O_CREATE|O_EXCL\<close>: any node under the name, a link included, makes it fail. A new
  file is readable by its owner.
\<close>

definition openExclusive :: "string \<Rightarrow> storage \<Rightarrow> bool \<times> storage" where
  "openExclusive path st =
     (case tick st of
        (Some _, st) \<Rightarrow> (False, st)
      | (None, st) \<Rightarrow>
          if Lstat (stHost st) path \<noteq> None then (False, st)
          else let st = putNode path (FileNode []) st; h = stHost st in
            (True, st\<lparr>stHost := h\<lparr>readable := (readable h)(path := True)\<rparr>\<rparr>))"

text \<open>A write to a file that was just opened, and its \<^verbatim>\<open>Sync\<close> or \<^verbatim>\<open>Close\<close>.\<close>

definition writeBytes :: "string \<Rightarrow> string \<Rightarrow> storage \<Rightarrow> bool \<times> storage" where
  "writeBytes path bytes st =
     (case tick st of
        (Some k, st) \<Rightarrow> (False, putNode path (FileNode (take k bytes)) st)
      | (None, st) \<Rightarrow> (True, putNode path (FileNode bytes) st))"

definition settleFile :: "storage \<Rightarrow> bool \<times> storage" where
  "settleFile st = (case tick st of (fault, st) \<Rightarrow> (fault = None, st))"

section \<open>The run directory\<close>

datatype (plugins only: code size) create_err =
    CreateInsideKubernetes | BadRunDirectory string | ArtifactRootUnresolved | FilesystemRoot
  | ArtifactRootIsClusterStorage | ArtifactRootNotCreated | ArtifactRootUninspected | ArtifactRootNotReal
  | ArtifactRootLinks | RunDirectoryNotCreated string

definition Artifact_Create :: "string \<Rightarrow> string \<Rightarrow> storage \<Rightarrow> (create_err + string) \<times> storage" where
  "Artifact_Create rt runID st =
     (if serviceHost (stHost st) \<noteq> [] then (Inl CreateInsideKubernetes, st)
      else if \<not> dnsName runID then (Inl (BadRunDirectory runID), st)
      else case Abs (stHost st) rt of
        None \<Rightarrow> (Inl ArtifactRootUnresolved, st)
      | Some absolute \<Rightarrow>
          let absoluteRoot = Clean absolute in
          if absoluteRoot = [slash] then (Inl FilesystemRoot, st)
          else if clusterStorage absoluteRoot then (Inl ArtifactRootIsClusterStorage, st)
          else case MkdirAll (rev (cleanParts True [] (Split absoluteRoot [slash]))) st of
            (False, st) \<Rightarrow> (Inl ArtifactRootNotCreated, st)
          | (True, st) \<Rightarrow>
              (case Lstat (stHost st) absoluteRoot of
                 None \<Rightarrow> (Inl ArtifactRootUninspected, st)
               | Some DirNode \<Rightarrow>
                   (case evalSymlinks (stHost st) absoluteRoot of
                      None \<Rightarrow> (Inl ArtifactRootLinks, st)
                    | Some resolvedRoot \<Rightarrow>
                        let runPath = Join resolvedRoot runID in
                        (case Mkdir runPath st of
                           (False, st) \<Rightarrow> (Inl (RunDirectoryNotCreated runPath), st)
                         | (True, st) \<Rightarrow> (Inr runPath, st)))
               | Some _ \<Rightarrow> (Inl ArtifactRootNotReal, st)))"

section \<open>Files\<close>

definition safeChar :: "char \<Rightarrow> bool" where
  "safeChar c \<longleftrightarrow> isLower c \<or> isDigit c \<or> c = CHR ''-'' \<or> c = CHR ''.''"

definition safeFileName :: "string \<Rightarrow> bool" where
  "safeFileName name \<longleftrightarrow>
     \<not> (name = [] \<or> name = ''.'' \<or> name = ''..'' \<or> Base name \<noteq> name) \<and> list_all safeChar name"

text \<open>The flags of an error tell whether closing the file failed too.\<close>

datatype (plugins only: code size) artifact_write_err =
    BadFileName string | FileNotCreated string | ReaderRequired | EncodeFailed string bool
  | WriteFailed string bool | CloseFailed string

definition CreateFile :: "string \<Rightarrow> string \<Rightarrow> storage \<Rightarrow> (artifact_write_err + string) \<times> storage" where
  "CreateFile dir name st =
     (if \<not> safeFileName name then (Inl (BadFileName name), st)
      else let path = Join dir name in
        case openExclusive path st of
          (False, st) \<Rightarrow> (Inl (FileNotCreated name), st)
        | (True, st) \<Rightarrow> (Inr path, st))"

definition syncClose :: "storage \<Rightarrow> bool \<times> storage" where
  "syncClose st = (case settleFile st of (synced, st) \<Rightarrow> case settleFile st of (shut, st) \<Rightarrow> (synced \<and> shut, st))"

text \<open>\<open>None\<close> is a value that \<^verbatim>\<open>encoding/json\<close> refuses; then nothing is written.\<close>

definition WriteJSON :: "string \<Rightarrow> string \<Rightarrow> string option \<Rightarrow> storage \<Rightarrow> (artifact_write_err + unit) \<times> storage" where
  "WriteJSON dir name encoded st =
     (case CreateFile dir name st of
        (Inl e, st) \<Rightarrow> (Inl e, st)
      | (Inr path, st) \<Rightarrow>
          (case (case encoded of None \<Rightarrow> (False, st) | Some bytes \<Rightarrow> writeBytes path bytes st) of
             (written, st) \<Rightarrow>
               (case syncClose st of
                  (shut, st) \<Rightarrow>
                    (if \<not> written then Inl (EncodeFailed name (\<not> shut))
                     else if \<not> shut then Inl (CloseFailed name) else Inr (), st))))"

definition Artifact_Write :: "string \<Rightarrow> string \<Rightarrow> string option \<Rightarrow> storage \<Rightarrow> (artifact_write_err + unit) \<times> storage" where
  "Artifact_Write dir name reader st =
     (case reader of
        None \<Rightarrow> (Inl ReaderRequired, st)
      | Some bytes \<Rightarrow>
          (case CreateFile dir name st of
             (Inl e, st) \<Rightarrow> (Inl e, st)
           | (Inr path, st) \<Rightarrow>
               (case writeBytes path bytes st of
                  (written, st) \<Rightarrow>
                    (case syncClose st of
                       (shut, st) \<Rightarrow>
                         (if \<not> written then Inl (WriteFailed name (\<not> shut))
                          else if \<not> shut then Inl (CloseFailed name) else Inr (), st)))))"

section \<open>What is there stays\<close>

text \<open>A node that is on the file system is there afterwards, with the same content.\<close>

definition preserves :: "storage \<Rightarrow> storage \<Rightarrow> bool" where
  "preserves st st' \<longleftrightarrow> (\<forall>path node. Lstat (stHost st) path = Some node \<longrightarrow> Lstat (stHost st') path = Some node)"

lemma preserves_refl [simp]: "preserves st st"
  by (simp add: preserves_def)

lemma preserves_trans: "preserves a b \<Longrightarrow> preserves b c \<Longrightarrow> preserves a c"
  by (simp add: preserves_def)

lemma preserves_Mkdir: "Mkdir path st = (ok, st') \<Longrightarrow> preserves st st'"
  by (auto simp: Mkdir_def preserves_def tick_def putNode_def Let_def split: option.splits if_splits)

lemma preserves_MkdirAll: "MkdirAll parts st = (ok, st') \<Longrightarrow> preserves st st'"
proof (induction parts arbitrary: st st' ok)
  case (Cons part parts)
  show ?case using Cons.prems
    by (auto simp: Let_def split: option.splits fs_node.splits prod.splits bool.splits
        dest!: Cons.IH preserves_Mkdir intro: preserves_trans)
qed simp

lemma Create_preserves: "Artifact_Create rt runID st = (res, st') \<Longrightarrow> preserves st st'"
  by (auto simp: Artifact_Create_def Let_def split: option.splits fs_node.splits prod.splits bool.splits if_splits
      dest!: preserves_MkdirAll preserves_Mkdir intro: preserves_trans)

text \<open>One file is written: what else is on the file system does not change at all.\<close>

lemma settled:
  "settleFile st = (ok, st') \<Longrightarrow> stHost st' = stHost st" "syncClose st = (ok, st') \<Longrightarrow> stHost st' = stHost st"
  by (auto simp: settleFile_def syncClose_def tick_def)

lemma writeBytes_host:
  "writeBytes path bytes st = (ok, st') \<Longrightarrow>
   \<exists>data. stHost st' = (stHost st)\<lparr>Lstat := (Lstat (stHost st))(path \<mapsto> FileNode data)\<rparr> \<and> (ok \<longrightarrow> data = bytes) \<and>
     (\<exists>k. data = take k bytes)"
  by (auto simp: writeBytes_def putNode_def tick_def split: option.splits intro: exI [of _ "length bytes"])

text \<open>The host after a file with some content was created under a free name.\<close>

definition withFile :: "host \<Rightarrow> string \<Rightarrow> string \<Rightarrow> host" where
  "withFile h path data = h\<lparr>Lstat := (Lstat h)(path \<mapsto> FileNode data), readable := (readable h)(path := True)\<rparr>"

lemma withFile_again [simp]:
  "(withFile h path d)\<lparr>Lstat := (Lstat (withFile h path d))(path \<mapsto> FileNode data)\<rparr> = withFile h path data"
  by (rule host.equality) (simp_all add: withFile_def)

lemma withFile_then: "(withFile h path d)\<lparr>Lstat := (Lstat h)(path \<mapsto> FileNode data)\<rparr> = withFile h path data"
  by (rule host.equality) (simp_all add: withFile_def)

lemma withFile_simps [simp]:
  "Lstat (withFile h path data) = (Lstat h)(path \<mapsto> FileNode data)"
  "readable (withFile h path data) = (readable h)(path := True)"
  by (simp_all add: withFile_def)

lemma CreateFile_host:
  "CreateFile dir name st = (res, st') \<Longrightarrow>
   (res = Inr (Join dir name) \<and> safeFileName name \<and> Lstat (stHost st) (Join dir name) = None \<and>
      stHost st' = withFile (stHost st) (Join dir name) []) \<or>
   (\<exists>e. res = Inl e) \<and> stHost st' = stHost st"
  by (auto simp: CreateFile_def openExclusive_def putNode_def tick_def Let_def withFile_def split: option.splits if_splits)

text \<open>Without a failure the operations succeed, when the name is free.\<close>

lemma CreateFile_ok:
  assumes "stFault st (stTick st) = None" "safeFileName name" "Lstat (stHost st) (Join dir name) = None"
  shows "CreateFile dir name st =
     (Inr (Join dir name), st\<lparr>stHost := withFile (stHost st) (Join dir name) [], stTick := stTick st + 1\<rparr>)"
  using assms by (simp add: CreateFile_def openExclusive_def tick_def putNode_def withFile_def Let_def)

lemma write_ok:
  assumes "\<forall>k. stFault st k = None" "safeFileName name" "Lstat (stHost st) (Join dir name) = None"
  shows "WriteJSON dir name (Some bytes) st =
     (Inr (), st\<lparr>stHost := withFile (stHost st) (Join dir name) bytes, stTick := stTick st + 4\<rparr>)"
    "Artifact_Write dir name (Some bytes) st =
     (Inr (), st\<lparr>stHost := withFile (stHost st) (Join dir name) bytes, stTick := stTick st + 4\<rparr>)"
  using assms by (simp_all add: WriteJSON_def Artifact_Write_def CreateFile_ok writeBytes_def syncClose_def settleFile_def
      tick_def putNode_def withFile_then eval_nat_numeral)

definition wroteOnce :: "string \<Rightarrow> string \<Rightarrow> string \<Rightarrow> bool \<Rightarrow> host \<Rightarrow> host \<Rightarrow> bool" where
  "wroteOnce dir name bytes ok h h' \<longleftrightarrow>
     (ok \<longrightarrow> safeFileName name \<and> Lstat h (Join dir name) = None \<and> h' = withFile h (Join dir name) bytes) \<and>
     (\<not> ok \<longrightarrow> h' = h \<or> Lstat h (Join dir name) = None \<and> (\<exists>k. h' = withFile h (Join dir name) (take k bytes)))"

lemma write_wroteOnce:
  assumes "CreateFile dir name st = (Inr path, st1)" "writeBytes path bytes st1 = (written, st2)" "syncClose st2 = (shut, st3)"
  shows "wroteOnce dir name bytes (written \<and> shut) (stHost st) (stHost st3)"
proof -
  from CreateFile_host [OF assms(1)] have c: "path = Join dir name" "safeFileName name"
    "Lstat (stHost st) (Join dir name) = None" "stHost st1 = withFile (stHost st) (Join dir name) []" by auto
  from writeBytes_host [OF assms(2)] obtain data where w: "written \<longrightarrow> data = bytes" "\<exists>k. data = take k bytes"
    "stHost st2 = (stHost st1)\<lparr>Lstat := (Lstat (stHost st1))(path \<mapsto> FileNode data)\<rparr>" by blast
  have "stHost st3 = withFile (stHost st) (Join dir name) data"
    using settled(2) [OF assms(3)] w(3) by (simp only: c withFile_again)
  then show ?thesis using w(1,2) c(2,3) by (auto simp: wroteOnce_def)
qed

lemma Write_wroteOnce:
  assumes "Artifact_Write dir name (Some bytes) st = (res, st')"
  shows "wroteOnce dir name bytes (res = Inr ()) (stHost st) (stHost st')"
proof -
  obtain r st1 where c: "CreateFile dir name st = (r, st1)" by (cases "CreateFile dir name st")
  show ?thesis
  proof (cases r)
    case (Inl e)
    then show ?thesis using assms c CreateFile_host [OF c] by (auto simp: Artifact_Write_def wroteOnce_def)
  next
    case (Inr path)
    obtain written st2 where w: "writeBytes path bytes st1 = (written, st2)" by (cases "writeBytes path bytes st1")
    obtain shut st3 where s: "syncClose st2 = (shut, st3)" by (cases "syncClose st2")
    have "res = Inr () \<longleftrightarrow> written \<and> shut" "st' = st3"
      using assms c w s Inr by (auto simp: Artifact_Write_def split: if_splits)
    then show ?thesis using write_wroteOnce [OF c [unfolded Inr] w s] by simp
  qed
qed

lemma WriteJSON_wroteOnce:
  assumes "WriteJSON dir name (Some bytes) st = (res, st')"
  shows "wroteOnce dir name bytes (res = Inr ()) (stHost st) (stHost st')"
proof -
  obtain r st1 where c: "CreateFile dir name st = (r, st1)" by (cases "CreateFile dir name st")
  show ?thesis
  proof (cases r)
    case (Inl e)
    then show ?thesis using assms c CreateFile_host [OF c] by (auto simp: WriteJSON_def wroteOnce_def)
  next
    case (Inr path)
    obtain written st2 where w: "writeBytes path bytes st1 = (written, st2)" by (cases "writeBytes path bytes st1")
    obtain shut st3 where s: "syncClose st2 = (shut, st3)" by (cases "syncClose st2")
    have "res = Inr () \<longleftrightarrow> written \<and> shut" "st' = st3"
      using assms c w s Inr by (auto simp: WriteJSON_def split: if_splits)
    then show ?thesis using write_wroteOnce [OF c [unfolded Inr] w s] by simp
  qed
qed

text \<open>
  C15: A file written without an error is read back with its bytes; with or without one, nothing that was
  on the file system before changes, and nothing but the one file appears.
\<close>

theorem Artifact_written:
  assumes "Artifact_Write dir name (Some bytes) st = (res, st') \<or> WriteJSON dir name (Some bytes) st = (res, st')"
  shows "(res = Inr () \<longrightarrow> readRegularArtifact (stHost st') dir name = Inr bytes) \<and> preserves st st' \<and>
     (\<forall>path. path \<noteq> Join dir name \<longrightarrow> Lstat (stHost st') path = Lstat (stHost st) path)"
proof -
  have "wroteOnce dir name bytes (res = Inr ()) (stHost st) (stHost st')"
    using assms Write_wroteOnce WriteJSON_wroteOnce by blast
  then show ?thesis
    by (auto simp: wroteOnce_def preserves_def readRegularArtifact_def Let_def)
qed

section \<open>Where files are\<close>

lemma findSub_char: "c \<notin> set a \<Longrightarrow> findSub [c] (a @ c # b) = Some (length a)"
  by (induction a) (auto simp: HasPrefix_def)

lemma findSub_char_None: "findSub [c] s = None \<longleftrightarrow> c \<notin> set s"
  by (induction s) (auto simp: HasPrefix_def)

lemma Split_snoc: "c \<notin> set n \<Longrightarrow> Split (d @ c # n) [c] = Split d [c] @ [n]"
proof (induction "length d" arbitrary: d rule: less_induct)
  case less
  show ?case
  proof (cases "c \<in> set d")
    case False
    then show ?thesis using less.prems
      by (simp add: Split.simps [of "d @ c # n" "[c]"] findSub_char Split_None findSub_char_None)
  next
    case True
    then obtain a b where d: "d = a @ c # b" "c \<notin> set a" by (meson split_list_first)
    have "Split d [c] = a # Split b [c]"
      unfolding d(1) by (subst Split.simps) (simp add: findSub_char [OF d(2)])
    moreover have "Split (d @ c # n) [c] = a # Split (b @ c # n) [c]"
      unfolding d(1) by (subst Split.simps) (simp add: findSub_char [OF d(2)])
    moreover have "Split (b @ c # n) [c] = Split b [c] @ [n]" using less.hyps [of b] less.prems d(1) by simp
    ultimately show ?thesis by simp
  qed
qed

lemma cleanParts_snoc:
  "n \<noteq> [] \<Longrightarrow> n \<noteq> ''.'' \<Longrightarrow> n \<noteq> ''..'' \<Longrightarrow> cleanParts rooted out (ps @ [n]) = cleanParts rooted out ps @ [n]"
  by (induction rooted out ps rule: cleanParts.induct) (auto split: list.splits)

lemma joinSlash_snoc: "ps \<noteq> [] \<Longrightarrow> joinSlash (ps @ [n]) = joinSlash ps @ slash # n"
  by (induction ps rule: joinSlash.induct) auto

lemma joinSlash_nonempty: "p \<noteq> [] \<Longrightarrow> joinSlash (p # ps) \<noteq> []"
  by (cases ps) simp_all

lemma cleanParts_nonempty: "[] \<notin> set out \<Longrightarrow> [] \<notin> set (cleanParts rooted out ps)"
  by (induction rooted out ps rule: cleanParts.induct) (auto split: list.splits if_splits)

lemma safeFileName_slash: "safeFileName name \<Longrightarrow> slash \<notin> set name"
proof
  assume "safeFileName name" "slash \<in> set name"
  then have "safeChar slash" by (auto simp: safeFileName_def list_all_iff)
  moreover have "\<not> safeChar slash" by code_simp
  ultimately show False by blast
qed

lemma Join_child:
  assumes "slash \<notin> set name" "name \<noteq> []" "name \<noteq> ''.''" "name \<noteq> ''..''" "IsAbs dir"
  shows "Join dir name = (if Clean dir = [slash] then [slash] else Clean dir @ [slash]) @ name"
proof -
  have ne: "dir \<noteq> []" using assms(5) by (auto simp: IsAbs_def HasPrefix_def)
  have abs: "IsAbs (dir @ slash # name)" using assms(5) ne by (cases dir) (auto simp: IsAbs_def HasPrefix_def)
  have parts: "cleanParts True [] (Split (dir @ slash # name) [slash]) = cleanParts True [] (Split dir [slash]) @ [name]"
    using assms by (simp add: Split_snoc cleanParts_snoc)
  show ?thesis
  proof (cases "cleanParts True [] (Split dir [slash])")
    case Nil
    then show ?thesis using parts abs assms ne by (simp add: Join_def Clean_def)
  next
    case (Cons p ps)
    moreover have "p \<noteq> []" using cleanParts_nonempty [of "[]" True "Split dir [slash]"] Cons by auto
    ultimately show ?thesis using parts abs assms ne joinSlash_snoc [of "p # ps" name]
      by (simp add: Join_def Clean_def joinSlash_nonempty)
  qed
qed

text \<open>An artifact name never leads out of the run directory.\<close>

lemma Artifact_contained:
  assumes "CreateFile dir name st = (Inr path, st')" "IsAbs dir" "Clean dir \<noteq> [slash]"
  shows "path = Clean dir @ [slash] @ name \<and> slash \<notin> set name"
proof -
  have "safeFileName name" "path = Join dir name" using CreateFile_host [OF assms(1)] by auto
  then show ?thesis using assms(2,3) safeFileName_slash [of name] Join_child [of name dir]
    by (auto simp: safeFileName_def)
qed

section \<open>The run directory is new\<close>

text \<open>A directory that is made leaves every node that was there under its name, and its links resolve as before.\<close>

lemma Mkdir_keeps:
  assumes "Mkdir path st = (True, st')" "Lstat (stHost st) p = Some node"
  shows "Lstat (stHost st') p = Some node \<and> evalSymlinks (stHost st') p = evalSymlinks (stHost st) p"
  using assms by (auto simp: Mkdir_def tick_def putNode_def Let_def split: option.splits if_splits)

text \<open>The directory of a run is the child of the real directory that the root resolves to.\<close>

definition runDirectory :: "host \<Rightarrow> string \<Rightarrow> string \<Rightarrow> string \<Rightarrow> bool" where
  "runDirectory h rt runID dir \<longleftrightarrow>
     (\<exists>absolute resolved. Abs h rt = Some absolute \<and> Clean absolute \<noteq> [slash] \<and> \<not> clusterStorage (Clean absolute) \<and>
        Lstat h (Clean absolute) = Some DirNode \<and> evalSymlinks h (Clean absolute) = Some resolved \<and>
        dir = Join resolved runID \<and> Lstat h dir = Some DirNode)"

lemma Abs_host: "workingDir h' = workingDir h \<Longrightarrow> Abs h' rt = Abs h rt"
  by (simp add: Abs_def)

lemma Mkdir_workingDir: "Mkdir path st = (ok, st') \<Longrightarrow> workingDir (stHost st') = workingDir (stHost st)"
  by (auto simp: Mkdir_def tick_def putNode_def Let_def split: option.splits if_splits)

lemma MkdirAll_workingDir: "MkdirAll parts st = (ok, st') \<Longrightarrow> workingDir (stHost st') = workingDir (stHost st)"
proof (induction parts arbitrary: st st' ok)
  case (Cons part parts)
  show ?case using Cons.prems
    by (auto simp: Let_def split: option.splits fs_node.splits prod.splits bool.splits
        dest!: Cons.IH Mkdir_workingDir)
qed simp

lemma Create_makes:
  assumes "Artifact_Create rt runID st = (Inr dir, st')"
  shows "serviceHost (stHost st) = [] \<and> dnsName runID \<and> runDirectory (stHost st') rt runID dir \<and>
     Lstat (stHost st) dir = None \<and> preserves st st'"
proof -
  obtain absolute where a: "serviceHost (stHost st) = []" "dnsName runID" "Abs (stHost st) rt = Some absolute"
      "Clean absolute \<noteq> [slash]" "\<not> clusterStorage (Clean absolute)"
    using assms by (auto simp: Artifact_Create_def Let_def split: if_splits option.splits)
  obtain ok st1 where m: "MkdirAll (rev (cleanParts True [] (Split (Clean absolute) [slash]))) st = (ok, st1)"
    by (cases "MkdirAll (rev (cleanParts True [] (Split (Clean absolute) [slash]))) st")
  obtain resolved where r: "Lstat (stHost st1) (Clean absolute) = Some DirNode"
      "evalSymlinks (stHost st1) (Clean absolute) = Some resolved"
    and d: "dir = Join resolved runID" "Mkdir dir st1 = (True, st')"
    using assms a m by (auto simp: Artifact_Create_def Let_def
        split: if_splits option.splits prod.splits bool.splits fs_node.splits)
  have made: "Lstat (stHost st1) dir = None" "Lstat (stHost st') dir = Some DirNode"
    using d(2) by (auto simp: Mkdir_def tick_def putNode_def Let_def split: option.splits if_splits)
  have "Abs (stHost st') rt = Some absolute"
    using a(3) Mkdir_workingDir [OF d(2)] MkdirAll_workingDir [OF m] Abs_host by metis
  then have "runDirectory (stHost st') rt runID dir"
    using a(4,5) Mkdir_keeps [OF d(2) r(1)] r(2) d(1) made(2) unfolding runDirectory_def by auto
  moreover have "Lstat (stHost st) dir = None"
    using preserves_MkdirAll [OF m] made(1) by (cases "Lstat (stHost st) dir") (auto simp: preserves_def)
  ultimately show ?thesis using a(1,2) Create_preserves [OF assms] by blast
qed

text \<open>
  C17: A run directory is created outside Kubernetes, for a run id that is a name: it is the child of that name
  of the directory that the links of the root resolve to, where the root is a real directory other than the file
  system root whose own name is not in cluster storage. It did not exist before, and creating it changes
  nothing else that was there.
\<close>

theorem Create_fresh:
  assumes "Artifact_Create rt runID st = (Inr dir, st')"
  shows "serviceHost (stHost st) = [] \<and> dnsName runID \<and>
     (\<exists>absolute resolved. Abs (stHost st') rt = Some absolute \<and> Clean absolute \<noteq> [slash] \<and> \<not> clusterStorage (Clean absolute) \<and>
        Lstat (stHost st') (Clean absolute) = Some DirNode \<and> evalSymlinks (stHost st') (Clean absolute) = Some resolved \<and>
        dir = Join resolved runID \<and> Lstat (stHost st') dir = Some DirNode) \<and>
     Lstat (stHost st) dir = None \<and> preserves st st'"
  using Create_makes [OF assms] unfolding runDirectory_def .

end
