(* ===== verification/Assertion.thy ===== *)
theory Assertion
  imports Recorders
begin

text \<open>
  The assertion engine (internal/assertion/engine.go): explicit checks over recorded measurements.
  \<^verbatim>\<open>sort.Slice\<close> is not stable; the algorithm is a parameter, and what the theorems need of it is the
  contract \<open>slice_sort\<close>.
\<close>

section \<open>The engine\<close>

record assertion_dataset =
  BeaconObservations :: "beacon_observation list"
  HeadComparisons :: "head_comparison list"
  adMeasurementGaps :: "poll_failure list"
  Reorgs :: "reorg_observation list"

record assertion_plan =
  FinalityMustAdvanceTargets :: "string list"
  RequireHeadComparison :: bool
  RequireNoMeasurementGaps :: bool

record assertion_check =
  checkName :: string
  checkPassed :: bool
  checkDetail :: string

record assertion_result =
  resultPassed :: bool
  resultChecks :: "assertion_check list"

datatype (plugins only: code size) assertion_err = EmptyPlan | EmptyTarget | DuplicatedTarget string

definition lenText :: "nat \<Rightarrow> string" where
  "lenText n = FormatUint (of_nat n)"

type_synonym time_sort = "(beacon_observation \<Rightarrow> int) \<Rightarrow> beacon_observation list \<Rightarrow> beacon_observation list"

definition maximumEpoch :: "u64 \<Rightarrow> beacon_observation list \<Rightarrow> u64" where
  "maximumEpoch initialEpoch obs =
     foldl (\<lambda>m ob. if finalityEpoch (boFinality ob) > m then finalityEpoch (boFinality ob) else m) initialEpoch obs"

definition finalityAdvanced :: "time_sort \<Rightarrow> string \<Rightarrow> beacon_observation list \<Rightarrow> assertion_check" where
  "finalityAdvanced sortBy target observations =
     (let matching = sortBy boTimestamp (filter (\<lambda>ob. boTarget ob = target) observations) in
      case matching of
        first # other # rest \<Rightarrow>
          (let initialEpoch = finalityEpoch (boFinality first); maxEpoch = maximumEpoch initialEpoch (other # rest) in
           \<lparr>checkName = ''finality_advances:'' @ target, checkPassed = (maxEpoch > initialEpoch),
            checkDetail = ''initial epoch: '' @ FormatUint initialEpoch @ ''; maximum later epoch: '' @ FormatUint maxEpoch\<rparr>)
      | _ \<Rightarrow>
          \<lparr>checkName = ''finality_advances:'' @ target, checkPassed = False,
           checkDetail = ''complete observations: '' @ lenText (length matching) @ ''; need at least 2''\<rparr>)"

text \<open>The previous target, if any, comes first.\<close>

fun checkPlanTargets :: "string option \<Rightarrow> string list \<Rightarrow> assertion_err + unit" where
  "checkPlanTargets previous [] = Inr ()"
| "checkPlanTargets previous (target # targets) =
     (if target = [] then Inl EmptyTarget
      else if previous = Some target then Inl (DuplicatedTarget target)
      else checkPlanTargets (Some target) targets)"

definition addCheck :: "assertion_check \<Rightarrow> assertion_result \<Rightarrow> assertion_result" where
  "addCheck c r = \<lparr>resultPassed = resultPassed r \<and> checkPassed c, resultChecks = resultChecks r @ [c]\<rparr>"

definition comparisonCheck :: "assertion_dataset \<Rightarrow> assertion_check" where
  "comparisonCheck d = \<lparr>checkName = ''head_comparison_available'', checkPassed = (length (HeadComparisons d) > 0),
     checkDetail = ''complete comparisons: '' @ lenText (length (HeadComparisons d))\<rparr>"

definition gapsCheck :: "assertion_dataset \<Rightarrow> assertion_check" where
  "gapsCheck d = \<lparr>checkName = ''measurement_stream_complete'', checkPassed = (length (adMeasurementGaps d) = 0),
     checkDetail = ''measurement gaps: '' @ lenText (length (adMeasurementGaps d))\<rparr>"

definition Evaluate ::
  "time_sort \<Rightarrow> assertion_plan \<Rightarrow> assertion_dataset \<Rightarrow> assertion_err + assertion_result" where
  "Evaluate sortBy plan d =
     (if length (FinalityMustAdvanceTargets plan) = 0 \<and> \<not> RequireHeadComparison plan \<and> \<not> RequireNoMeasurementGaps plan
      then Inl EmptyPlan
      else let targets = sort (FinalityMustAdvanceTargets plan) in
        bindR (checkPlanTargets None targets) (\<lambda>_.
          let r = fold (\<lambda>target. addCheck (finalityAdvanced sortBy target (BeaconObservations d))) targets
                    \<lparr>resultPassed = True, resultChecks = []\<rparr>;
              r = (if RequireHeadComparison plan then addCheck (comparisonCheck d) r else r);
              r = (if RequireNoMeasurementGaps plan then addCheck (gapsCheck d) r else r) in
          Inr r))"

section \<open>Which plans are evaluated\<close>

lemma checkPlanTargets_sorted:
  "sorted ts \<Longrightarrow> (\<forall>p. previous = Some p \<longrightarrow> (\<forall>t \<in> set ts. p \<le> t)) \<Longrightarrow>
   checkPlanTargets previous ts = Inr () \<longleftrightarrow> [] \<notin> set ts \<and> distinct ts \<and> (\<forall>p. previous = Some p \<longrightarrow> p \<notin> set ts)"
proof (induction previous ts rule: checkPlanTargets.induct)
  case (2 previous t ts)
  show ?case
  proof (cases "t = [] \<or> previous = Some t")
    case False
    have "checkPlanTargets (Some t) ts = Inr () \<longleftrightarrow> [] \<notin> set ts \<and> distinct ts \<and> t \<notin> set ts"
      using "2.IH" False "2.prems"(1) by simp
    moreover have "p \<notin> set ts" if "previous = Some p" "t \<notin> set ts" for p
      using that "2.prems" False by (metis (no_types, lifting) insert_iff list.set(2) order_antisym sorted_simps(2))
    ultimately show ?thesis using False by auto
  qed auto
qed simp

lemma Evaluate_accepts:
  "(\<exists>r. Evaluate sortBy plan d = Inr r) \<longleftrightarrow>
     (FinalityMustAdvanceTargets plan \<noteq> [] \<or> RequireHeadComparison plan \<or> RequireNoMeasurementGaps plan) \<and>
     [] \<notin> set (FinalityMustAdvanceTargets plan) \<and> distinct (FinalityMustAdvanceTargets plan)"
  using checkPlanTargets_sorted [of "sort (FinalityMustAdvanceTargets plan)" None]
  by (auto simp: Evaluate_def Let_def bindR_Inr_iff)

section \<open>What a verdict says\<close>

lemma maximumEpoch_gt:
  "initial < maximumEpoch initial obs \<longleftrightarrow> (\<exists>ob \<in> set obs. initial < finalityEpoch (boFinality ob))"
proof -
  have "x < foldl (\<lambda>m ob. if finalityEpoch (boFinality ob) > m then finalityEpoch (boFinality ob) else m) m obs \<longleftrightarrow>
      x < m \<or> (\<exists>ob \<in> set obs. x < finalityEpoch (boFinality ob))" for x m
    by (induction obs arbitrary: m) (auto simp: not_less)
  then show ?thesis by (simp add: maximumEpoch_def)
qed

text \<open>Finality advanced after the first observation of the target.\<close>

definition advancedAfter :: "beacon_observation list \<Rightarrow> string \<Rightarrow> beacon_observation \<Rightarrow> bool" where
  "advancedAfter obs target first \<longleftrightarrow> first \<in> set obs \<and> boTarget first = target \<and>
     (\<forall>ob \<in> set obs. boTarget ob = target \<longrightarrow> boTimestamp first \<le> boTimestamp ob) \<and>
     (\<exists>ob \<in> set obs. boTarget ob = target \<and> finalityEpoch (boFinality first) < finalityEpoch (boFinality ob))"

lemma sorted_first:
  assumes "slice_sort sortBy" "sortBy key xs = first # rest"
  shows "mset (first # rest) = mset xs" "\<forall>x \<in> set xs. key first \<le> key x"
proof -
  show m: "mset (first # rest) = mset xs" using slice_sort.mset_sortBy [OF assms(1), of key xs] assms(2) by simp
  have "set xs = set (first # rest)" using m by (metis mset_eq_setD)
  then show "\<forall>x \<in> set xs. key first \<le> key x"
    using slice_sort.sorted_sortBy [OF assms(1), of key xs] assms(2) by auto
qed

lemma finalityAdvanced_first:
  assumes "slice_sort sortBy"
  shows "checkPassed (finalityAdvanced sortBy target obs) \<longleftrightarrow>
     (\<exists>first rest. sortBy boTimestamp (filter (\<lambda>ob. boTarget ob = target) obs) = first # rest \<and>
        advancedAfter obs target first)"
proof (cases "sortBy boTimestamp (filter (\<lambda>ob. boTarget ob = target) obs)")
  case Nil
  then show ?thesis by (simp add: finalityAdvanced_def)
next
  case (Cons first rest)
  note s = sorted_first [OF assms Cons]
  have mem: "set (first # rest) = {ob \<in> set obs. boTarget ob = target}"
    using mset_eq_setD [OF s(1)] by auto
  have "advancedAfter obs target first \<longleftrightarrow>
      (\<exists>ob \<in> set (first # rest). finalityEpoch (boFinality first) < finalityEpoch (boFinality ob))"
    using mem s(2) unfolding advancedAfter_def by auto
  also have "\<dots> \<longleftrightarrow> (\<exists>ob \<in> set rest. finalityEpoch (boFinality first) < finalityEpoch (boFinality ob))" by simp
  finally show ?thesis
    by (cases rest) (simp_all add: finalityAdvanced_def Cons Let_def maximumEpoch_gt)
qed

lemma finalityAdvanced_unique:
  assumes "slice_sort sortBy" "inj_on boTimestamp {ob \<in> set obs. boTarget ob = target}"
  shows "checkPassed (finalityAdvanced sortBy target obs) \<longleftrightarrow> (\<exists>first. advancedAfter obs target first)"
proof
  assume "checkPassed (finalityAdvanced sortBy target obs)"
  then show "\<exists>first. advancedAfter obs target first" using finalityAdvanced_first [OF assms(1)] by blast
next
  let ?xs = "filter (\<lambda>ob. boTarget ob = target) obs"
  assume "\<exists>first. advancedAfter obs target first"
  then obtain first where adv: "advancedAfter obs target first" ..
  then have first: "first \<in> set ?xs" "\<forall>ob \<in> set ?xs. boTimestamp first \<le> boTimestamp ob"
    by (simp_all add: advancedAfter_def)
  then have "mset (sortBy boTimestamp ?xs) \<noteq> {#}" using slice_sort.mset_sortBy [OF assms(1), of boTimestamp ?xs] by auto
  then obtain f rest where f: "sortBy boTimestamp ?xs = f # rest" by (cases "sortBy boTimestamp ?xs") auto
  note s = sorted_first [OF assms(1) f]
  have "f \<in> set ?xs" using mset_eq_setD [OF s(1)] by auto
  moreover have "boTimestamp f = boTimestamp first" using first s(2) calculation by (meson order_antisym)
  ultimately have "f = first" using assms(2) first(1) by (auto simp: inj_on_def)
  then show "checkPassed (finalityAdvanced sortBy target obs)"
    using finalityAdvanced_first [OF assms(1)] f adv by blast
qed

lemma fold_addCheck:
  "resultPassed (fold (\<lambda>x. addCheck (f x)) xs r) \<longleftrightarrow> resultPassed r \<and> (\<forall>x \<in> set xs. checkPassed (f x))"
  "resultChecks (fold (\<lambda>x. addCheck (f x)) xs r) = resultChecks r @ map f xs"
  by (induction xs arbitrary: r) (auto simp: addCheck_def)

text \<open>
  C18: When the observations of a target bear different times, the verdict says, whatever sorting algorithm
  is used: finality advanced after the first observation of every named target, and a comparison
  and a complete measurement were there if they were asked for.
\<close>

theorem Evaluate_verdict:
  assumes "slice_sort sortBy" "Evaluate sortBy plan d = Inr r"
    and "\<forall>target \<in> set (FinalityMustAdvanceTargets plan). inj_on boTimestamp {ob \<in> set (BeaconObservations d). boTarget ob = target}"
  shows "resultPassed r \<longleftrightarrow>
     (\<forall>target \<in> set (FinalityMustAdvanceTargets plan). \<exists>first. advancedAfter (BeaconObservations d) target first) \<and>
     (RequireHeadComparison plan \<longrightarrow> HeadComparisons d \<noteq> []) \<and>
     (RequireNoMeasurementGaps plan \<longrightarrow> adMeasurementGaps d = [])"
proof -
  let ?f = "\<lambda>target. finalityAdvanced sortBy target (BeaconObservations d)"
  have "resultPassed r \<longleftrightarrow> (\<forall>target \<in> set (FinalityMustAdvanceTargets plan). checkPassed (?f target)) \<and>
      (RequireHeadComparison plan \<longrightarrow> HeadComparisons d \<noteq> []) \<and>
      (RequireNoMeasurementGaps plan \<longrightarrow> adMeasurementGaps d = [])"
    using assms(2) fold_addCheck(1) [of ?f "sort (FinalityMustAdvanceTargets plan)" "\<lparr>resultPassed = True, resultChecks = []\<rparr>"]
    by (auto simp: Evaluate_def Let_def bindR_Inr_iff addCheck_def comparisonCheck_def gapsCheck_def split: if_splits)
  then show ?thesis using finalityAdvanced_unique [OF assms(1)] assms(3) by auto
qed

section \<open>Observations at the same time\<close>

text \<open>
  With equal times the contract of \<^verbatim>\<open>sort.Slice\<close> leaves the first observation open, and with it the
  verdict: two sorting algorithms that meet it disagree.
\<close>

interpretation reversing: slice_sort "\<lambda>key xs. sort_key key (rev xs)"
  by unfold_locales simp_all

definition tiedObservation :: "u64 \<Rightarrow> beacon_observation" where
  "tiedObservation epoch = \<lparr>boTimestamp = 0, boTarget = ''teku'', boCurrentSlot = 0,
     boHead = \<lparr>headSlot = 0, headRoot = [], ParentRoot = [], StateRoot = [], Canonical = True, headOptimistic = False\<rparr>,
     boFinality = \<lparr>finalityEpoch = epoch, finalityRoot = [], finalityOptimistic = False\<rparr>, boFinalityLag = 0, boPollDuration = 0\<rparr>"

theorem Finality_tie_undetermined:
  "checkPassed (finalityAdvanced sort_key ''teku'' [tiedObservation 1, tiedObservation 2])"
  "\<not> checkPassed (finalityAdvanced (\<lambda>key xs. sort_key key (rev xs)) ''teku'' [tiedObservation 1, tiedObservation 2])"
  by (simp_all add: finalityAdvanced_def tiedObservation_def maximumEpoch_def)

end
