(* ===== verification/Orchestrator.thy ===== *)
theory Orchestrator
  imports Measure ChaosMesh Artifact RunFiles
begin

text \<open>
  A run (internal/orchestrator/runner.go): the checks before it, the waits for the boundaries of its
  window, the fault around the window, and the artifacts it leaves.

  The runner acts on a world of any type: the observer's goroutine, the clock and the cluster change
  it between and during the runner's calls. What the runner waits for is the answer of a
  \<^verbatim>\<open>select\<close>, so every interleaving of the observer with the runner is some world. A result \<open>None\<close> means
  that the runner still waits.
\<close>

section \<open>The world of a run\<close>

datatype (plugins only: code size) context_err = ContextCanceled | DeadlineExceeded

datatype (plugins only: code size) wake = ContextDone context_err | ObserverStopped | DatasetChanged

text \<open>The contexts of the waits; the last three carry the timeout they were derived with.\<close>

datatype (plugins only: code size) run_context =
    CallerContext | BoundaryContext int | WindowContext int | RecoveryContext int

text \<open>
  \<open>envSelect\<close> is the \<^verbatim>\<open>select\<close> over a context, the observer's context and the changes of the dataset;
  \<open>envStopObserver\<close> cancels the observer and waits for its error; \<open>envCloseRaw\<close> syncs and closes the
  raw time series and says what the recorder has written to it.
\<close>

record 'w run_env =
  envSnapshot :: "'w \<Rightarrow> dataset_snapshot"
  envSelect :: "run_context \<Rightarrow> 'w \<Rightarrow> wake \<times> 'w"
  envStartObserver :: "'w \<Rightarrow> 'w"
  envStopObserver :: "'w \<Rightarrow> string option \<times> 'w"
  envNow :: "'w \<Rightarrow> time \<times> 'w"
  envCloseRaw :: "'w \<Rightarrow> (bool \<times> string) \<times> 'w"

record 'w fault_backend =
  backendApply :: "partition_request \<Rightarrow> 'w \<Rightarrow> (fault_err + unit) \<times> 'w"
  backendRevert :: "bool \<Rightarrow> partition_request \<Rightarrow> 'w \<Rightarrow> (fault_err + unit) \<times> 'w"

text \<open>The rest of the configuration; a client or the artifact directory may be nil.\<close>

record ('c, 'w) run_config = run_inputs +
  cfScenarioYAML :: string
  cfTargets :: "'c target list"
  cfValidatorClient :: "('w \<Rightarrow> (beacon_err + beacon_validator list) \<times> 'w) option"
  cfValidatorRanges :: "validator_range list"
  cfChainIDClient :: "('w \<Rightarrow> (exec_err + u64) \<times> 'w) option"
  cfFaultBackend :: "'w fault_backend option"
  cfNamespace :: string
  cfArtifacts :: "string option"
  cfPollInterval :: int
  cfHeadHistoryLimit :: int

section \<open>Identity and arithmetic\<close>

definition runIdentity :: "string \<Rightarrow> string list \<Rightarrow> (string \<times> u64) option" where
  "runIdentity runID order =
     (let found = foldl (\<lambda>found candidate. found \<or> candidate = runID) False order in
      case Cut (CHR ''-'') runID of (conditionText, repetitionText, cutFound) \<Rightarrow>
        if \<not> found \<or> \<not> cutFound \<or> length repetitionText \<noteq> 1 \<or> code (repetitionText ! 0) < code (CHR ''1'') \<or>
           code (repetitionText ! 0) > code (CHR ''3'')
        then None
        else if conditionText \<noteq> ConditionControl \<and> conditionText \<noteq> ConditionFault then None
        else Some (conditionText, of_nat (code (repetitionText ! 0) - code (CHR ''0''))))"

definition multiply :: "u64 \<Rightarrow> u64 \<Rightarrow> u64 \<times> bool" where
  "multiply left right =
     (if left \<noteq> 0 \<and> right > MaxUint64 div left then (0, True) else (left * right, False))"

text \<open>\<open>None\<close> is the error of a duration that overflows \<^verbatim>\<open>time.Duration\<close>.\<close>

definition runtimeDuration :: "beacon_spec \<Rightarrow> u64 \<Rightarrow> int option" where
  "runtimeDuration spec n =
     (case multiply (SecondsPerSlot spec) n of (seconds, overflow) \<Rightarrow>
        if overflow \<or> seconds > word_of_int ((2 ^ 63 - 1) div second) then None
        else Some (uint seconds * second))"

section \<open>Configuration\<close>

datatype (plugins only: code size) config_err =
    ConfigScenario scenario_err | RunNotInOrder string | InputsRequired | IntervalOrHistory
  | TargetNotInTopology string | TargetTwice string | BackendRequired | NotTheRunNamespace string string
  | ConfigPlacements placement_err | ConfigDependencies metadata_err

definition targetStep :: "string list \<Rightarrow> 'c target \<Rightarrow> string list \<Rightarrow> config_err + string list" where
  "targetStep expected target seen =
     (if tgtName target \<notin> set expected then Inl (TargetNotInTopology (tgtName target))
      else if tgtName target \<in> set seen then Inl (TargetTwice (tgtName target))
      else Inr (tgtName target # seen))"

definition validateConfig ::
  "(string \<Rightarrow> string) \<Rightarrow> ('c, 'w) run_config \<Rightarrow> config_err + string \<times> u64" where
  "validateConfig sum256 cfg =
     (let s = inScenario cfg in
      bindR (wrapE ConfigScenario (Scenario_Validate sum256 s)) (\<lambda>_.
      case runIdentity (inRunID cfg) (RunOrder (scMethodology s)) of
        None \<Rightarrow> Inl (RunNotInOrder (inRunID cfg))
      | Some (condition, repetition) \<Rightarrow>
          if length (cfScenarioYAML cfg) = 0 \<or> length (cfTargets cfg) \<noteq> 4 \<or> cfValidatorClient cfg = None \<or>
             cfChainIDClient cfg = None \<or> cfArtifacts cfg = None
          then Inl InputsRequired
          else if cfPollInterval cfg \<le> 0 \<or> cfHeadHistoryLimit cfg < 2 then Inl IntervalOrHistory
          else bindR (each (targetStep (map BeaconTarget (scParticipants s))) (cfTargets cfg) []) (\<lambda>_.
          if condition = ConditionFault \<and> cfFaultBackend cfg = None then Inl BackendRequired
          else let expectedNamespace = NamespacePrefix (scTarget s) @ inRunID cfg in
            if cfNamespace cfg \<noteq> expectedNamespace then Inl (NotTheRunNamespace (cfNamespace cfg) expectedNamespace)
            else bindR (wrapE ConfigPlacements (ValidatePlacements s (inPlacements cfg))) (\<lambda>_.
              bindR (wrapE ConfigDependencies (ValidateDependencyMetadata (inDependencies cfg))) (\<lambda>_.
                Inr (condition, repetition))))))"

definition podByParticipant :: "placement list \<Rightarrow> (string, string) gomap" where
  "podByParticipant placements = foldl (\<lambda>m pl. mput (plParticipantID pl) (plPod pl) m) [] placements"

text \<open>The scenario of a validated configuration has two groups.\<close>

definition partitionRequest :: "('c, 'w) run_config \<Rightarrow> int \<Rightarrow> partition_request" where
  "partitionRequest cfg ttl =
     (let pods = podByParticipant (inPlacements cfg); groups = Groups (scFault (inScenario cfg)) in
      \<lparr>prRunID = inRunID cfg, prNamespace = cfNamespace cfg,
       prNamespacePrefix = NamespacePrefix (scTarget (inScenario cfg)),
       GroupA = map (mget [] pods) (groupParticipants (groups ! 0)),
       GroupB = map (mget [] pods) (groupParticipants (groups ! 1)), TTL = ttl\<rparr>)"

section \<open>Waiting\<close>

datatype (plugins only: code size) wait_err = WaitContext context_err | WaitObserverStopped | WaitDividesByZero

datatype (plugins only: code size) probe = NotYet | Ready | DividesByZero

partial_function (option) waitFor ::
  "'w run_env \<Rightarrow> run_context \<Rightarrow> (dataset_snapshot \<Rightarrow> probe) \<Rightarrow> 'w \<Rightarrow> ((wait_err + dataset_snapshot) \<times> 'w) option" where
  "waitFor env ctx predicate w =
     (case predicate (envSnapshot env w) of
        Ready \<Rightarrow> Some (Inr (envSnapshot env w), w)
      | DividesByZero \<Rightarrow> Some (Inl WaitDividesByZero, w)
      | NotYet \<Rightarrow>
          (case envSelect env ctx w of
             (ContextDone e, w') \<Rightarrow> Some (Inl (WaitContext e), w')
           | (ObserverStopped, w') \<Rightarrow> Some (Inl WaitObserverStopped, w')
           | (DatasetChanged, w') \<Rightarrow> waitFor env ctx predicate w'))"

definition specsAndHeads :: "string list \<Rightarrow> dataset_snapshot \<Rightarrow> probe" where
  "specsAndHeads names snapshot =
     (if length (snapSpecs snapshot) \<noteq> length names \<or> length (latestByTarget (snapBeacon snapshot)) \<noteq> length names
      then NotYet else Ready)"

text \<open>The rules of the boundaries are remainders by the slots of an epoch.\<close>

definition commonSlot :: "string list \<Rightarrow> u64 \<Rightarrow> u64 \<Rightarrow> dataset_snapshot \<Rightarrow> probe" where
  "commonSlot names slotsPerEpoch remainder snapshot =
     (case commonLatestSlot snapshot names of
        None \<Rightarrow> NotYet
      | Some slot \<Rightarrow> if slotsPerEpoch = 0 then DividesByZero
          else if slot mod slotsPerEpoch = remainder then Ready else NotYet)"

definition exactSlot :: "string list \<Rightarrow> u64 \<Rightarrow> dataset_snapshot \<Rightarrow> probe" where
  "exactSlot names slot snapshot =
     (if list_ex (\<lambda>name. observationAtSlot (snapBeacon snapshot) name slot = None) names then NotYet else Ready)"

definition recoveryOrCensor ::
  "string list \<Rightarrow> (string, beacon_observation) gomap \<Rightarrow> u64 \<Rightarrow> dataset_snapshot \<Rightarrow> probe" where
  "recoveryOrCensor names ends censorSlot snapshot =
     (let latest = latestByTarget (snapBeacon snapshot); same = length latest = length names in
      if list_ex (\<lambda>name. map_of latest name = None) names then NotYet
      else if same \<and> list_all (\<lambda>name. finalityEpoch (boFinality (mget zeroObservation latest name)) >
                finalityEpoch (boFinality (mget zeroObservation ends name))) names \<or>
              same \<and> list_all (\<lambda>name. boCurrentSlot (mget zeroObservation latest name) \<ge> censorSlot) names
      then Ready else NotYet)"

section \<open>The state of a run\<close>

text \<open>
  The variables that the deferred calls of a run look at, and every call of the fault backend with
  its success, for the theorems.
\<close>

datatype (plugins only: code size) fault_call = AppliedFault partition_request bool | RevertedFault bool partition_request bool

record 'w runner_state =
  rsWorld :: 'w
  rsStorage :: storage
  rsRawFile :: "string option"
  rsObserverRunning :: bool
  rsFaultApplied :: "partition_request option"
  rsFaultCalls :: "fault_call list"

datatype (plugins only: code size) run_err =
    ConfigInvalid config_err | NilClient | ChainIDUnverified exec_err | ChainIDMismatch u64 u64
  | ValidatorsUnread beacon_err | SplitFailed split_err | SplitOutsideTolerance
  | ArtifactFailed artifact_write_err | ObserverRejected new_err
  | StartWait wait_err "string option" | DurationOverflow | PreFaultBoundary wait_err | DeadmanSlotsOverflow
  | ApplyFailed fault_err | InjectedAfterBoundary | NextBoundaryOverflow | InjectedBoundary wait_err
  | ControlBoundary wait_err | WindowOverflow | PrimaryWindow wait_err | RemoveFailed fault_err
  | RecoveryOverflow | RecoveryWindow wait_err | StopObserverFailed string | CloseRawFailed
  | ChecksumUnread string

type_synonym ('w, 'a) run_result = "((run_err + 'a) \<times> 'w runner_state) option"

definition failRun :: "run_err \<Rightarrow> 'w runner_state \<Rightarrow> ('w, 'a) run_result" where
  "failRun e st = Some (Inl e, st)"

definition isOk :: "'e + 'a \<Rightarrow> bool" where
  "isOk r = (case r of Inl _ \<Rightarrow> False | Inr _ \<Rightarrow> True)"

definition await ::
  "'w run_env \<Rightarrow> run_context \<Rightarrow> (dataset_snapshot \<Rightarrow> probe) \<Rightarrow> (wait_err \<Rightarrow> run_err) \<Rightarrow> 'w runner_state \<Rightarrow>
   ('w, dataset_snapshot) run_result" where
  "await env ctx predicate wrap st =
     (case waitFor env ctx predicate (rsWorld st) of
        None \<Rightarrow> None
      | Some (r, w) \<Rightarrow> Some (wrapE wrap r, st\<lparr>rsWorld := w\<rparr>))"

definition applyFault ::
  "'w fault_backend \<Rightarrow> partition_request \<Rightarrow> 'w runner_state \<Rightarrow> (fault_err + unit) \<times> 'w runner_state" where
  "applyFault be request st =
     (case backendApply be request (rsWorld st) of (r, w) \<Rightarrow>
        (r, st\<lparr>rsWorld := w, rsFaultCalls := rsFaultCalls st @ [AppliedFault request (isOk r)],
               rsFaultApplied := (if isOk r then Some request else rsFaultApplied st)\<rparr>))"

definition revertFault ::
  "'w fault_backend \<Rightarrow> bool \<Rightarrow> partition_request \<Rightarrow> 'w runner_state \<Rightarrow> (fault_err + unit) \<times> 'w runner_state" where
  "revertFault be detached request st =
     (case backendRevert be detached request (rsWorld st) of (r, w) \<Rightarrow>
        (r, st\<lparr>rsWorld := w, rsFaultCalls := rsFaultCalls st @ [RevertedFault detached request (isOk r)],
               rsFaultApplied := (if isOk r then None else rsFaultApplied st)\<rparr>))"

definition stopObserver :: "'w run_env \<Rightarrow> 'w runner_state \<Rightarrow> string option \<times> 'w runner_state" where
  "stopObserver env st =
     (if \<not> rsObserverRunning st then (None, st)
      else case envStopObserver env (rsWorld st) of (e, w) \<Rightarrow> (e, st\<lparr>rsWorld := w, rsObserverRunning := False\<rparr>))"

definition closeRaw :: "'w run_env \<Rightarrow> 'w runner_state \<Rightarrow> bool \<times> 'w runner_state" where
  "closeRaw env st =
     (case rsRawFile st of
        None \<Rightarrow> (True, st)
      | Some path \<Rightarrow>
          (case envCloseRaw env (rsWorld st) of ((ok, written), w) \<Rightarrow>
             (ok, st\<lparr>rsWorld := w, rsStorage := putNode path (FileNode written) (rsStorage st), rsRawFile := None\<rparr>)))"

section \<open>Before the window\<close>

text \<open>What the encoder prints: indented JSON, floating-point numbers and times, and the digest.\<close>

record run_encoder =
  printIndented :: "json \<Rightarrow> string"
  floatText :: "f64 \<Rightarrow> string"
  timeText :: "time \<Rightarrow> string"
  digest256 :: "string \<Rightarrow> string"

text \<open>\<^verbatim>\<open>encoding/json\<close> refuses a floating-point number that is not finite.\<close>

definition finiteFloats :: "realized_split \<Rightarrow> bool" where
  "finiteFloats split = list_all (\<lambda>x. case x of Fin _ \<Rightarrow> True | _ \<Rightarrow> False) (splitFloats split)"

definition encodeSplit :: "run_encoder \<Rightarrow> realized_split \<Rightarrow> string option" where
  "encodeSplit enc split =
     (if finiteFloats split then Some (printIndented enc (splitJSON (floatText enc) split)) else None)"

definition encodeRun :: "run_encoder \<Rightarrow> run_summary \<Rightarrow> string option" where
  "encodeRun enc run =
     (if finiteFloats (RealizedSplit run)
      then Some (printIndented enc (runJSON (floatText enc) (timeText enc) run)) else None)"

definition storeJSON ::
  "string \<Rightarrow> string \<Rightarrow> string option \<Rightarrow> 'w runner_state \<Rightarrow> ('w, unit) run_result" where
  "storeJSON dir name encoded st =
     (case WriteJSON dir name encoded (rsStorage st) of
        (r, storage) \<Rightarrow> Some (wrapE ArtifactFailed r, st\<lparr>rsStorage := storage\<rparr>))"

definition storeBytes ::
  "string \<Rightarrow> string \<Rightarrow> string \<Rightarrow> 'w runner_state \<Rightarrow> ('w, unit) run_result" where
  "storeBytes dir name bytes st =
     (case Artifact_Write dir name (Some bytes) (rsStorage st) of
        (r, storage) \<Rightarrow> Some (wrapE ArtifactFailed r, st\<lparr>rsStorage := storage\<rparr>))"

definition openRaw :: "string \<Rightarrow> 'w runner_state \<Rightarrow> ('w, unit) run_result" where
  "openRaw dir st =
     (case CreateFile dir ''raw-timeseries.jsonl'' (rsStorage st) of
        (Inl e, storage) \<Rightarrow> failRun (ArtifactFailed e) (st\<lparr>rsStorage := storage\<rparr>)
      | (Inr path, storage) \<Rightarrow> Some (Inr (), st\<lparr>rsStorage := storage, rsRawFile := Some path\<rparr>))"

text \<open>\<^verbatim>\<open>timeseries.NewJSONLRecorder\<close> and \<^verbatim>\<open>observer.NewMultiRecorder\<close> only reject nil arguments.\<close>

definition startObserver :: "'w run_env \<Rightarrow> ('c, 'w) run_config \<Rightarrow> 'w runner_state \<Rightarrow> ('w, unit) run_result" where
  "startObserver env cfg st =
     (case New (cfTargets cfg) (Some ()) \<lparr>PollInterval = cfPollInterval cfg, HeadHistoryLimit = cfHeadHistoryLimit cfg\<rparr> of
        Inl e \<Rightarrow> failRun (ObserverRejected e) st
      | Inr _ \<Rightarrow> Some (Inr (), st\<lparr>rsWorld := envStartObserver env (rsWorld st), rsObserverRunning := True\<rparr>))"

definition prepareRun ::
  "'w run_env \<Rightarrow> run_encoder \<Rightarrow> ('c, 'w) run_config \<Rightarrow> 'w runner_state \<Rightarrow> ('w, u64 \<times> realized_split) run_result" where
  "prepareRun env enc cfg st =
     (case (cfChainIDClient cfg, cfValidatorClient cfg, cfArtifacts cfg) of
        (Some readChainID, Some readValidators, Some dir) \<Rightarrow>
          (case readChainID (rsWorld st) of
             (Inl e, w) \<Rightarrow> failRun (ChainIDUnverified e) (st\<lparr>rsWorld := w\<rparr>)
           | (Inr chainID, w) \<Rightarrow>
               let st = st\<lparr>rsWorld := w\<rparr>; expected = target_spec.ChainID (scTarget (inScenario cfg)) in
               if chainID \<noteq> expected then failRun (ChainIDMismatch chainID expected) st
               else case readValidators (rsWorld st) of
                 (Inl e, w) \<Rightarrow> failRun (ValidatorsUnread e) (st\<lparr>rsWorld := w\<rparr>)
               | (Inr validators, w) \<Rightarrow>
                   let st = st\<lparr>rsWorld := w\<rparr> in
                   case CalculateRealizedSplit (inScenario cfg) (cfValidatorRanges cfg) validators of
                     Inl e \<Rightarrow> failRun (SplitFailed e) st
                   | Inr split \<Rightarrow>
                       if \<not> rsWithinTolerance split then failRun SplitOutsideTolerance st
                       else
                         thenDo (storeBytes dir ''scenario.yaml'' (cfScenarioYAML cfg) st) (\<lambda>_ st.
                         thenDo (storeJSON dir ''realized-split.json'' (encodeSplit enc split) st) (\<lambda>_ st.
                         thenDo (openRaw dir st) (\<lambda>_ st.
                         thenDo (startObserver env cfg st) (\<lambda>_ st.
                           Some (Inr (chainID, split), st))))))
      | _ \<Rightarrow> failRun NilClient st)"

section \<open>The window\<close>

text \<open>What a run measured; the request is that of its fault.\<close>

record measurement =
  msSpec :: beacon_spec
  msInitial :: dataset_snapshot
  msEnding :: dataset_snapshot
  msStartSlot :: u64
  msEndSlot :: u64
  msRemovedAt :: time
  msRemovalSlot :: u64
  msRecoveryComplete :: bool
  msPartition :: "partition_request option"

definition zeroBeaconSpec :: beacon_spec where
  "zeroBeaconSpec = \<lparr>SecondsPerSlot = 0, SlotsPerEpoch = 0, ForkEpochs = []\<rparr>"

definition waitForSpecsAndHeads ::
  "'w run_env \<Rightarrow> string list \<Rightarrow> 'w runner_state \<Rightarrow> ('w, dataset_snapshot \<times> beacon_spec) run_result" where
  "waitForSpecsAndHeads env names st =
     (case waitFor env CallerContext (specsAndHeads names) (rsWorld st) of
        None \<Rightarrow> None
      | Some (Inl e, w) \<Rightarrow>
          (case stopObserver env (st\<lparr>rsWorld := w\<rparr>) of (stopErr, st) \<Rightarrow> failRun (StartWait e stopErr) st)
      | Some (Inr initial, w) \<Rightarrow>
          Some (Inr (initial, mget zeroBeaconSpec (snapSpecs initial) (hd names)), st\<lparr>rsWorld := w\<rparr>))"

text \<open>The start of a control window is the first slot of an epoch that all targets are at.\<close>

definition controlBoundary ::
  "'w run_env \<Rightarrow> string list \<Rightarrow> beacon_spec \<Rightarrow> run_context \<Rightarrow> 'w runner_state \<Rightarrow> ('w, dataset_snapshot \<times> u64) run_result" where
  "controlBoundary env names spec ctx st =
     thenDo (await env ctx (commonSlot names (SlotsPerEpoch spec) 0) ControlBoundary st) (\<lambda>initial st.
       Some (Inr (initial, case commonLatestSlot initial names of None \<Rightarrow> 0 | Some slot \<Rightarrow> slot), st))"

text \<open>The fault is injected in the last slot of an epoch and must be in effect before the next one.\<close>

definition injectedBoundary ::
  "'w run_env \<Rightarrow> string list \<Rightarrow> run_context \<Rightarrow> u64 \<Rightarrow> partition_request \<Rightarrow> 'w runner_state \<Rightarrow>
   ('w, dataset_snapshot \<times> u64 \<times> partition_request) run_result" where
  "injectedBoundary env names ctx preBoundary request st =
     (if latestSlotExceeds (envSnapshot env (rsWorld st)) names preBoundary then failRun InjectedAfterBoundary st
      else if preBoundary = MaxUint64 then failRun NextBoundaryOverflow st
      else let nextBoundary = preBoundary + 1 in
        thenDo (await env ctx (exactSlot names nextBoundary) InjectedBoundary st) (\<lambda>initial st.
          Some (Inr (initial, nextBoundary, request), st)))"

definition injectFault ::
  "'w run_env \<Rightarrow> ('c, 'w) run_config \<Rightarrow> string list \<Rightarrow> beacon_spec \<Rightarrow> run_context \<Rightarrow> u64 \<Rightarrow> 'w runner_state \<Rightarrow>
   ('w, dataset_snapshot \<times> u64 \<times> partition_request) run_result" where
  "injectFault env cfg names spec ctx preBoundary st =
     (case multiply (DurationEpochs (scFault (inScenario cfg)) + 2) (SlotsPerEpoch spec) of (deadmanSlots, overflow) \<Rightarrow>
        if overflow then failRun DeadmanSlotsOverflow st
        else case (runtimeDuration spec deadmanSlots, cfFaultBackend cfg) of
          (None, _) \<Rightarrow> failRun DurationOverflow st
        | (Some ttl, None) \<Rightarrow> failRun NilClient st
        | (Some ttl, Some be) \<Rightarrow>
            (case applyFault be (partitionRequest cfg ttl) st of
               (Inl e, st) \<Rightarrow> failRun (ApplyFailed e) st
             | (Inr _, st) \<Rightarrow> injectedBoundary env names ctx preBoundary (partitionRequest cfg ttl) st))"

definition faultBoundary ::
  "'w run_env \<Rightarrow> ('c, 'w) run_config \<Rightarrow> string list \<Rightarrow> beacon_spec \<Rightarrow> run_context \<Rightarrow> 'w runner_state \<Rightarrow>
   ('w, dataset_snapshot \<times> u64 \<times> partition_request) run_result" where
  "faultBoundary env cfg names spec ctx st =
     thenDo (await env ctx (commonSlot names (SlotsPerEpoch spec) (SlotsPerEpoch spec - 1)) PreFaultBoundary st) (\<lambda>pre st.
       injectFault env cfg names spec ctx (case commonLatestSlot pre names of None \<Rightarrow> 0 | Some slot \<Rightarrow> slot) st)"

definition primaryWindow ::
  "'w run_env \<Rightarrow> ('c, 'w) run_config \<Rightarrow> string list \<Rightarrow> beacon_spec \<Rightarrow> u64 \<Rightarrow> 'w runner_state \<Rightarrow>
   ('w, dataset_snapshot \<times> u64) run_result" where
  "primaryWindow env cfg names spec startSlot st =
     (case multiply (DurationEpochs (scFault (inScenario cfg))) (SlotsPerEpoch spec) of (durationSlots, overflow) \<Rightarrow>
        if overflow \<or> MaxUint64 - startSlot < durationSlots then failRun WindowOverflow st
        else let endSlot = startSlot + durationSlots in
          case runtimeDuration spec (durationSlots + SlotsPerEpoch spec) of
            None \<Rightarrow> failRun DurationOverflow st
          | Some timeout \<Rightarrow>
              thenDo (await env (WindowContext timeout) (exactSlot names endSlot) PrimaryWindow st) (\<lambda>ending st.
                Some (Inr (ending, endSlot), st)))"

definition removalSlotOf :: "dataset_snapshot \<Rightarrow> string list \<Rightarrow> u64 \<Rightarrow> u64" where
  "removalSlotOf snapshot names endSlot =
     (let latest = latestByTarget (snapBeacon snapshot) in
      if length latest = length names
      then foldl (\<lambda>slot (_, ob). if boCurrentSlot ob > slot then boCurrentSlot ob else slot) endSlot latest
      else endSlot)"

definition recoveryWindow ::
  "'w run_env \<Rightarrow> ('c, 'w) run_config \<Rightarrow> string list \<Rightarrow> beacon_spec \<Rightarrow> partition_request \<Rightarrow> dataset_snapshot \<Rightarrow>
   u64 \<Rightarrow> 'w runner_state \<Rightarrow> ('w, time \<times> u64 \<times> bool) run_result" where
  "recoveryWindow env cfg names spec request ending endSlot st =
     (case cfFaultBackend cfg of
        None \<Rightarrow> failRun NilClient st
      | Some be \<Rightarrow>
          (case revertFault be False request st of
             (Inl e, st) \<Rightarrow> failRun (RemoveFailed e) st
           | (Inr _, st) \<Rightarrow>
               (case envNow env (rsWorld st) of (removedAt, w) \<Rightarrow>
                let st = st\<lparr>rsWorld := w\<rparr>; removalSlot = removalSlotOf (envSnapshot env w) names endSlot in
                case multiply (PostFaultObservationEpochs (scMethodology (inScenario cfg))) (SlotsPerEpoch spec) of
                  (postSlots, overflow) \<Rightarrow>
                if overflow \<or> MaxUint64 - removalSlot < postSlots then failRun RecoveryOverflow st
                else case runtimeDuration spec (postSlots + SlotsPerEpoch spec) of
                  None \<Rightarrow> failRun DurationOverflow st
                | Some timeout \<Rightarrow>
                    (case waitFor env (RecoveryContext timeout)
                        (recoveryOrCensor names (observationsAtSlotMap (snapBeacon ending) names endSlot)
                          (removalSlot + postSlots)) (rsWorld st) of
                       None \<Rightarrow> None
                     | Some (Inl e, w) \<Rightarrow>
                         if e = WaitContext DeadlineExceeded
                         then Some (Inr (removedAt, removalSlot, False), st\<lparr>rsWorld := w\<rparr>)
                         else failRun (RecoveryWindow e) (st\<lparr>rsWorld := w\<rparr>)
                     | Some (Inr _, w) \<Rightarrow> Some (Inr (removedAt, removalSlot, True), st\<lparr>rsWorld := w\<rparr>)))))"

definition measureFault ::
  "'w run_env \<Rightarrow> ('c, 'w) run_config \<Rightarrow> string list \<Rightarrow> beacon_spec \<Rightarrow> run_context \<Rightarrow> 'w runner_state \<Rightarrow>
   ('w, measurement) run_result" where
  "measureFault env cfg names spec ctx st =
     thenDo (faultBoundary env cfg names spec ctx st) (\<lambda>(initial, startSlot, request) st.
     thenDo (primaryWindow env cfg names spec startSlot st) (\<lambda>(ending, endSlot) st.
     thenDo (recoveryWindow env cfg names spec request ending endSlot st) (\<lambda>(removedAt, removalSlot, complete) st.
       Some (Inr \<lparr>msSpec = spec, msInitial = initial, msEnding = ending, msStartSlot = startSlot,
         msEndSlot = endSlot, msRemovedAt = removedAt, msRemovalSlot = removalSlot,
         msRecoveryComplete = complete, msPartition = Some request\<rparr>, st))))"

definition measureControl ::
  "'w run_env \<Rightarrow> ('c, 'w) run_config \<Rightarrow> string list \<Rightarrow> beacon_spec \<Rightarrow> run_context \<Rightarrow> 'w runner_state \<Rightarrow>
   ('w, measurement) run_result" where
  "measureControl env cfg names spec ctx st =
     thenDo (controlBoundary env names spec ctx st) (\<lambda>(initial, startSlot) st.
     thenDo (primaryWindow env cfg names spec startSlot st) (\<lambda>(ending, endSlot) st.
       Some (Inr \<lparr>msSpec = spec, msInitial = initial, msEnding = ending, msStartSlot = startSlot,
         msEndSlot = endSlot, msRemovedAt = zeroTime, msRemovalSlot = endSlot,
         msRecoveryComplete = True, msPartition = None\<rparr>, st)))"

definition measureRun ::
  "'w run_env \<Rightarrow> ('c, 'w) run_config \<Rightarrow> string \<Rightarrow> 'w runner_state \<Rightarrow> ('w, measurement) run_result" where
  "measureRun env cfg condition st =
     (let names = targetNames (cfTargets cfg) in
      thenDo (waitForSpecsAndHeads env names st) (\<lambda>(_, spec) st.
        case runtimeDuration spec (2 * SlotsPerEpoch spec) of
          None \<Rightarrow> failRun DurationOverflow st
        | Some timeout \<Rightarrow>
            if condition = ConditionFault then measureFault env cfg names spec (BoundaryContext timeout) st
            else measureControl env cfg names spec (BoundaryContext timeout) st))"

section \<open>After the window\<close>

definition Runner_cloneSpecs :: "(string, beacon_spec) gomap \<Rightarrow> (string, beacon_spec) gomap" where
  "Runner_cloneSpecs input = foldl (\<lambda>output (target, spec). mput target (cloneSpec spec) output) [] input"

definition Runner_cloneGenesis :: "(string, beacon_genesis) gomap \<Rightarrow> (string, beacon_genesis) gomap" where
  "Runner_cloneGenesis input = foldl (\<lambda>output (target, genesis). mput target genesis output) [] input"

definition sha256Bytes :: "run_encoder \<Rightarrow> string \<Rightarrow> string" where
  "sha256Bytes enc data = hexOf (digest256 enc data)"

text \<open>\<^verbatim>\<open>os.ReadFile\<close>, which follows a link.\<close>

definition ReadFile :: "host \<Rightarrow> string \<Rightarrow> string option" where
  "ReadFile h path =
     (case Lstat h path of
        Some (FileNode content) \<Rightarrow> if readable h path then Some content else None
      | Some LinkNode \<Rightarrow>
          (case Stat h path of Some (FileNode content) \<Rightarrow> if readable h path then Some content else None | _ \<Rightarrow> None)
      | _ \<Rightarrow> None)"

definition checksumOf :: "run_encoder \<Rightarrow> host \<Rightarrow> string \<Rightarrow> string \<Rightarrow> (string, string) gomap \<Rightarrow> run_err + (string, string) gomap" where
  "checksumOf enc h dir name result =
     (case ReadFile h (Join dir name) of
        None \<Rightarrow> Inl (ChecksumUnread name)
      | Some data \<Rightarrow> Inr (mput name (sha256Bytes enc data) result))"

definition artifactChecksums :: "run_encoder \<Rightarrow> host \<Rightarrow> string \<Rightarrow> string list \<Rightarrow> run_err + (string, string) gomap" where
  "artifactChecksums enc h dir names = each (checksumOf enc h dir) names []"

definition runMetadata ::
  "run_encoder \<Rightarrow> ('c, 'w) run_config \<Rightarrow> string \<Rightarrow> u64 \<Rightarrow> dataset_snapshot \<Rightarrow> measurement \<Rightarrow> run_metadata" where
  "runMetadata enc cfg condition chainID final ms =
     \<lparr>mtSchemaVersion = MetadataSchemaVersion, mtRunID = inRunID cfg, ScenarioSHA256 = sha256Bytes enc (cfScenarioYAML cfg),
      mtChainID = chainID, RuntimeSpecs = Runner_cloneSpecs (snapSpecs final),
      RuntimeGenesis = Runner_cloneGenesis (snapGenesis final), mtPlacements = inPlacements cfg,
      mtDependencies = inDependencies cfg, mtOrderSeed = OrderSeed (scMethodology (inScenario cfg)),
      mtRunOrder = RunOrder (scMethodology (inScenario cfg)),
      FaultDeadmanSeconds = (if condition = ConditionFault
        then word_of_int ((case msPartition ms of None \<Rightarrow> 0 | Some request \<Rightarrow> TTL request) div second) else 0)\<rparr>"

definition storeChecksums :: "run_encoder \<Rightarrow> string \<Rightarrow> 'w runner_state \<Rightarrow> ('w, unit) run_result" where
  "storeChecksums enc dir st =
     (case artifactChecksums enc (stHost (rsStorage st)) dir checksummedRunArtifacts of
        Inl e \<Rightarrow> failRun e st
      | Inr checksums \<Rightarrow> storeJSON dir ''checksums.json'' (Some (printIndented enc (jsonMap JStr checksums))) st)"

definition storeEvidence ::
  "run_encoder \<Rightarrow> string \<Rightarrow> run_summary \<Rightarrow> run_metadata \<Rightarrow> 'w runner_state \<Rightarrow> ('w, run_summary) run_result" where
  "storeEvidence enc dir summary m st =
     thenDo (storeJSON dir ''manifest.json'' (encodeRun enc summary) st) (\<lambda>_ st.
     thenDo (storeJSON dir ''metadata.json'' (Some (printIndented enc (runMetadataJSON m))) st) (\<lambda>_ st.
     thenDo (storeChecksums enc dir st) (\<lambda>_ st. Some (Inr summary, st))))"

definition settleRun :: "'w run_env \<Rightarrow> 'w runner_state \<Rightarrow> ('w, unit) run_result" where
  "settleRun env st =
     (case stopObserver env st of
        (Some e, st) \<Rightarrow> failRun (StopObserverFailed e) st
      | (None, st) \<Rightarrow> (case closeRaw env st of (False, st) \<Rightarrow> failRun CloseRawFailed st | (True, st) \<Rightarrow> Some (Inr (), st)))"

definition summaryOf ::
  "('c, 'w) run_config \<Rightarrow> string \<Rightarrow> u64 \<Rightarrow> realized_split \<Rightarrow> measurement \<Rightarrow> dataset_snapshot \<Rightarrow> run_summary" where
  "summaryOf cfg condition repetition split ms final =
     summarizeRun (run_inputs.truncate cfg) (targetNames (cfTargets cfg)) condition repetition split
       (msInitial ms) (msEnding ms) final (msStartSlot ms) (msEndSlot ms) (msRemovedAt ms) (msRemovalSlot ms)
       (msRecoveryComplete ms)"

definition publishRun ::
  "'w run_env \<Rightarrow> run_encoder \<Rightarrow> ('c, 'w) run_config \<Rightarrow> string \<Rightarrow> u64 \<Rightarrow> u64 \<Rightarrow> realized_split \<Rightarrow> measurement \<Rightarrow>
   'w runner_state \<Rightarrow> ('w, run_summary) run_result" where
  "publishRun env enc cfg condition repetition chainID split ms st =
     (case cfArtifacts cfg of
        None \<Rightarrow> failRun NilClient st
      | Some dir \<Rightarrow>
          thenDo (settleRun env st) (\<lambda>_ st.
            let final = envSnapshot env (rsWorld st) in
            storeEvidence enc dir (summaryOf cfg condition repetition split ms final)
              (runMetadata enc cfg condition chainID final ms) st))"

section \<open>A run\<close>

text \<open>
  The deferred calls, the last deferred first: the fault is reverted under a context of its own if it
  is still applied, the observer is stopped if it still runs, and the raw time series is closed if it is
  still open.
\<close>

datatype (plugins only: code size) exit_err = RunFailed run_err | RevertFailed fault_err | StopFailed string | CloseFailedAtExit

definition revertAtExit :: "('c, 'w) run_config \<Rightarrow> 'w runner_state \<Rightarrow> exit_err list \<times> 'w runner_state" where
  "revertAtExit cfg st =
     (case (rsFaultApplied st, cfFaultBackend cfg) of
        (Some request, Some be) \<Rightarrow>
          (case revertFault be True request st of (Inl e, st) \<Rightarrow> ([RevertFailed e], st) | (Inr _, st) \<Rightarrow> ([], st))
      | _ \<Rightarrow> ([], st))"

definition exitRun :: "'w run_env \<Rightarrow> ('c, 'w) run_config \<Rightarrow> 'w runner_state \<Rightarrow> exit_err list \<times> 'w runner_state" where
  "exitRun env cfg st =
     (case revertAtExit cfg st of (reverted, st) \<Rightarrow>
      case stopObserver env st of (stopped, st) \<Rightarrow>
      case closeRaw env st of (ok, st) \<Rightarrow>
        (reverted @ (case stopped of None \<Rightarrow> [] | Some e \<Rightarrow> [StopFailed e]) @ (if ok then [] else [CloseFailedAtExit]), st))"

definition runBody ::
  "'w run_env \<Rightarrow> run_encoder \<Rightarrow> ('c, 'w) run_config \<Rightarrow> 'w runner_state \<Rightarrow> ('w, run_summary) run_result" where
  "runBody env enc cfg st =
     (case validateConfig (digest256 enc) cfg of
        Inl e \<Rightarrow> failRun (ConfigInvalid e) st
      | Inr (condition, repetition) \<Rightarrow>
          thenDo (prepareRun env enc cfg st) (\<lambda>(chainID, split) st.
          thenDo (measureRun env cfg condition st) (\<lambda>ms st.
            publishRun env enc cfg condition repetition chainID split ms st)))"

definition Runner_Run ::
  "'w run_env \<Rightarrow> run_encoder \<Rightarrow> ('c, 'w) run_config \<Rightarrow> 'w runner_state \<Rightarrow>
   ((exit_err list + run_summary) \<times> 'w runner_state) option" where
  "Runner_Run env enc cfg st =
     (case runBody env enc cfg st of
        None \<Rightarrow> None
      | Some (r, st) \<Rightarrow>
          (case exitRun env cfg st of (errs, st) \<Rightarrow>
             Some ((case r of
                      Inl e \<Rightarrow> Inl (RunFailed e # errs)
                    | Inr summary \<Rightarrow> if errs = [] then Inr summary else Inl errs), st)))"

text \<open>A run starts with nothing of its own to undo.\<close>

definition startState :: "'w \<Rightarrow> storage \<Rightarrow> 'w runner_state" where
  "startState w storage = \<lparr>rsWorld = w, rsStorage = storage, rsRawFile = None, rsObserverRunning = False,
     rsFaultApplied = None, rsFaultCalls = []\<rparr>"

end
