(* ===== verification/RunSafety.thy ===== *)
theory RunSafety
  imports Orchestrator
begin

text \<open>
  What a run does to the cluster, and that it returns: every fault it injects is removed or reported,
  its resources are released on every path, and it waits only as long as the world changes.
\<close>

section \<open>What the phases do to the fault\<close>

lemma thenDo_cases:
  assumes "thenDo m f = Some (r, s')"
  obtains e where "m = Some (Inl e, s')" "r = Inl e" | x s where "m = Some (Inr x, s)" "f x s = Some (r, s')"
  using assms unfolding thenDo_Some_iff by blast

lemma failRun_iff [simp]: "failRun e st = Some (r, st') \<longleftrightarrow> r = Inl e \<and> st' = st"
  by (auto simp: failRun_def)

text \<open>A phase moves the state along a transitive relation.\<close>

definition moved :: "('w runner_state \<Rightarrow> 'w runner_state \<Rightarrow> bool) \<Rightarrow> 'w runner_state \<Rightarrow> ('w, 'a) run_result \<Rightarrow> bool" where
  "moved R st m \<longleftrightarrow> (\<forall>r st'. m = Some (r, st') \<longrightarrow> R st st')"

named_theorems moved_rules \<open>the relations along which phases move\<close>

lemma movedD: "moved R st m \<Longrightarrow> m = Some (r, st') \<Longrightarrow> R st st'"
  by (simp add: moved_def)

lemma moved_return [moved_rules]: "moved R st None" "moved R st (Some (r, st')) = R st st'" "moved R st (failRun e st') = R st st'"
  by (auto simp: moved_def)

lemma moved_thenDo:
  assumes "transp R" "moved R st m" "\<And>x s. moved R s (f x s)"
  shows "moved R st (thenDo m f)"
proof -
  have "R st st'" if "thenDo m f = Some (r, st')" for r st'
    using that unfolding thenDo_Some_iff
  proof (elim disjE exE conjE)
    fix e assume "m = Some (Inl e, st')"
    then show ?thesis using assms(2) by (simp add: moved_def)
  next
    fix x s assume "m = Some (Inr x, s)" "f x s = Some (r, st')"
    then have "R st s" "R s st'" using assms(2,3) by (auto simp: moved_def)
    then show ?thesis by (rule transpD [OF assms(1)])
  qed
  then show ?thesis by (simp add: moved_def)
qed

definition sameFault :: "'w runner_state \<Rightarrow> 'w runner_state \<Rightarrow> bool" where
  "sameFault st st' \<longleftrightarrow> rsFaultCalls st' = rsFaultCalls st \<and> rsFaultApplied st' = rsFaultApplied st"

lemma sameFault_trans: "transp sameFault"
  by (auto simp: transp_def sameFault_def)

lemma sameFault_updates [simp]:
  "sameFault st st" "sameFault st (st'\<lparr>rsWorld := w\<rparr>) = sameFault st st'" "sameFault (st\<lparr>rsWorld := w\<rparr>) st' = sameFault st st'"
  "sameFault st (st'\<lparr>rsStorage := d\<rparr>) = sameFault st st'"
  "sameFault st (st'\<lparr>rsRawFile := f\<rparr>) = sameFault st st'" "sameFault st (st'\<lparr>rsObserverRunning := b\<rparr>) = sameFault st st'"
  by (simp_all add: sameFault_def)

lemma stopObserver_sameFault: "stopObserver env st = (e, st') \<Longrightarrow> sameFault st st'"
  by (auto simp: stopObserver_def split: if_splits prod.splits)

lemma closeRaw_sameFault: "closeRaw env st = (ok, st') \<Longrightarrow> sameFault st st'"
  by (auto simp: closeRaw_def split: option.splits prod.splits)

lemma moved_basic [moved_rules]:
  "moved sameFault st (await env ctx p wrap st)" "moved sameFault st (storeJSON dir name encoded st)"
  "moved sameFault st (storeBytes dir name bytes st)" "moved sameFault st (openRaw dir st)"
  "moved sameFault st (startObserver env cfg st)" "moved sameFault st (waitForSpecsAndHeads env names st)"
  by (auto simp: moved_def await_def storeJSON_def storeBytes_def openRaw_def startObserver_def waitForSpecsAndHeads_def
      split: option.splits prod.splits sum.splits dest!: stopObserver_sameFault)

lemma moved_settleRun [moved_rules]: "moved sameFault st (settleRun env st)"
proof -
  obtain e st1 where s: "stopObserver env st = (e, st1)" by (cases "stopObserver env st")
  obtain ok st2 where c: "closeRaw env st1 = (ok, st2)" by (cases "closeRaw env st1")
  have "st' = st1 \<or> st' = st2" if "settleRun env st = Some (r, st')" for r st'
    using that s c by (auto simp: settleRun_def split: option.splits bool.splits)
  then show ?thesis using stopObserver_sameFault [OF s] closeRaw_sameFault [OF c]
    by (auto simp: moved_def sameFault_def)
qed

lemma moved_controlBoundary [moved_rules]: "moved sameFault st (controlBoundary env names spec ctx st)"
  unfolding controlBoundary_def by (rule moved_thenDo [OF sameFault_trans]) (simp_all add: moved_rules)

lemma moved_primaryWindow [moved_rules]: "moved sameFault st (primaryWindow env cfg names spec a st)"
  unfolding primaryWindow_def Let_def
  by (auto simp: moved_rules split: prod.splits option.splits intro!: moved_thenDo [OF sameFault_trans])

lemma moved_prepareRun [moved_rules]: "moved sameFault st (prepareRun env enc cfg st)"
proof -
  have tail: "moved sameFault s (thenDo (storeBytes dir n b s) (\<lambda>_ st. thenDo (storeJSON dir n' j st) (\<lambda>_ st.
      thenDo (openRaw dir st) (\<lambda>_ st. thenDo (startObserver env cfg st) (\<lambda>_ st. Some (x, st))))))"
    for s dir n b n' j x
    by (intro moved_thenDo sameFault_trans moved_rules sameFault_updates moved_return(2) [THEN iffD2])
  have "moved sameFault s m \<Longrightarrow> moved sameFault (s\<lparr>rsWorld := w\<rparr>) m" for s w m by (simp add: moved_def)
  note world = tail [THEN movedD]
  show ?thesis unfolding prepareRun_def Let_def
    by (auto simp: moved_rules split: prod.splits option.splits sum.splits)
       (auto simp: moved_def dest!: world)
qed

lemma moved_publishRun [moved_rules]:
  "moved sameFault st (publishRun env enc cfg c rep chain split ms st)"
proof -
  have checks: "moved sameFault s (storeChecksums enc dir s)" for s :: "'w runner_state" and dir
    by (auto simp: storeChecksums_def moved_rules split: sum.splits)
  have "moved sameFault s (storeEvidence enc dir summary m s)" for s :: "'w runner_state" and dir summary m
    unfolding storeEvidence_def
    by (intro moved_thenDo sameFault_trans moved_rules checks sameFault_updates moved_return(2) [THEN iffD2])
  then show ?thesis unfolding publishRun_def Let_def
    by (auto simp: moved_rules split: option.splits intro!: moved_thenDo [OF sameFault_trans])
qed

section \<open>What happens to the fault\<close>

text \<open>The fault that is in effect after the calls, by what the backend answered.\<close>

definition outstanding :: "fault_call list \<Rightarrow> partition_request option" where
  "outstanding calls = foldl (\<lambda>r c. case c of AppliedFault q ok \<Rightarrow> if ok then Some q else r
     | RevertedFault _ _ ok \<Rightarrow> if ok then None else r) None calls"

lemma outstanding_snoc [simp]:
  "outstanding (calls @ [AppliedFault q ok]) = (if ok then Some q else outstanding calls)"
  "outstanding (calls @ [RevertedFault d q ok]) = (if ok then None else outstanding calls)"
  "outstanding [] = None"
  by (simp_all add: outstanding_def)

lemma applyFault_calls:
  "applyFault be q st = (r, st') \<Longrightarrow> rsFaultCalls st' = rsFaultCalls st @ [AppliedFault q (isOk r)] \<and>
     rsFaultApplied st' = (if isOk r then Some q else rsFaultApplied st)"
  by (auto simp: applyFault_def split: prod.splits)

lemma revertFault_calls:
  "revertFault be d q st = (r, st') \<Longrightarrow> rsFaultCalls st' = rsFaultCalls st @ [RevertedFault d q (isOk r)] \<and>
     rsFaultApplied st' = (if isOk r then None else rsFaultApplied st)"
  by (auto simp: revertFault_def split: prod.splits)

lemma isOk_simps [simp]: "isOk (Inl e) = False" "isOk (Inr x) = True"
  by (simp_all add: isOk_def)

lemma injectedBoundary_fault:
  assumes "injectedBoundary env names ctx pre q st = Some (r, st')"
  shows "sameFault st st'" "\<And>x. r = Inr x \<Longrightarrow> snd (snd x) = q"
proof -
  have "moved sameFault st (injectedBoundary env names ctx pre q st)"
    unfolding injectedBoundary_def Let_def
    by (auto simp: moved_rules intro!: moved_thenDo [OF sameFault_trans])
  then show "sameFault st st'" by (rule movedD) (rule assms)
  show "\<And>x. r = Inr x \<Longrightarrow> snd (snd x) = q"
    using assms by (auto simp: injectedBoundary_def Let_def thenDo_Some_iff split: if_splits)
qed

lemma injectFault_calls:
  assumes "injectFault env cfg names spec ctx pre st = Some (r, st')"
  shows "sameFault st st' \<and> \<not> isOk r \<or>
     (\<exists>ttl ok. rsFaultCalls st' = rsFaultCalls st @ [AppliedFault (partitionRequest cfg ttl) ok] \<and>
        rsFaultApplied st' = (if ok then Some (partitionRequest cfg ttl) else rsFaultApplied st) \<and>
        cfFaultBackend cfg \<noteq> None \<and> (\<not> ok \<longrightarrow> \<not> isOk r) \<and> (\<forall>x. r = Inr x \<longrightarrow> snd (snd x) = partitionRequest cfg ttl))"
proof (cases "\<exists>ttl be. runtimeDuration spec (fst (multiply (DurationEpochs (scFault (inScenario cfg)) + 2) (SlotsPerEpoch spec))) = Some ttl \<and>
    cfFaultBackend cfg = Some be \<and> \<not> snd (multiply (DurationEpochs (scFault (inScenario cfg)) + 2) (SlotsPerEpoch spec))")
  case False
  then show ?thesis using assms
    by (auto simp: injectFault_def split: prod.splits if_splits option.splits)
next
  case True
  then obtain ttl be where t: "runtimeDuration spec (fst (multiply (DurationEpochs (scFault (inScenario cfg)) + 2) (SlotsPerEpoch spec))) = Some ttl"
    "cfFaultBackend cfg = Some be" "\<not> snd (multiply (DurationEpochs (scFault (inScenario cfg)) + 2) (SlotsPerEpoch spec))" by blast
  obtain r1 st1 where ap: "applyFault be (partitionRequest cfg ttl) st = (r1, st1)"
    by (cases "applyFault be (partitionRequest cfg ttl) st")
  have "(\<exists>e. r1 = Inl e) \<and> st' = st1 \<and> \<not> isOk r \<or>
      r1 = Inr () \<and> injectedBoundary env names ctx pre (partitionRequest cfg ttl) st1 = Some (r, st')"
    using assms t ap by (cases r1) (auto simp: injectFault_def split: prod.splits)
  then show ?thesis using applyFault_calls [OF ap] injectedBoundary_fault [of env names ctx pre "partitionRequest cfg ttl" st1 r st']
    by (intro disjI2 exI [of _ ttl] exI [of _ "isOk r1"]) (auto simp: sameFault_def t(2))
qed

lemma faultBoundary_calls:
  assumes "faultBoundary env cfg names spec ctx st = Some (r, st')"
  shows "sameFault st st' \<and> \<not> isOk r \<or>
     (\<exists>ttl ok. rsFaultCalls st' = rsFaultCalls st @ [AppliedFault (partitionRequest cfg ttl) ok] \<and>
        rsFaultApplied st' = (if ok then Some (partitionRequest cfg ttl) else rsFaultApplied st) \<and>
        cfFaultBackend cfg \<noteq> None \<and> (\<not> ok \<longrightarrow> \<not> isOk r) \<and> (\<forall>x. r = Inr x \<longrightarrow> snd (snd x) = partitionRequest cfg ttl))"
  using assms unfolding faultBoundary_def thenDo_Some_iff
proof (elim disjE exE conjE)
  fix e assume "await env ctx (commonSlot names (SlotsPerEpoch spec) (SlotsPerEpoch spec - 1)) PreFaultBoundary st = Some (Inl e, st')"
    "r = Inl e"
  then show ?thesis using movedD [OF moved_basic(1)] by auto
next
  fix pre s
  assume a: "await env ctx (commonSlot names (SlotsPerEpoch spec) (SlotsPerEpoch spec - 1)) PreFaultBoundary st = Some (Inr pre, s)"
    and i: "injectFault env cfg names spec ctx (case commonLatestSlot pre names of None \<Rightarrow> 0 | Some slot \<Rightarrow> slot) s = Some (r, st')"
  have same: "rsFaultCalls s = rsFaultCalls st" "rsFaultApplied s = rsFaultApplied st"
    using movedD [OF moved_basic(1) a] by (simp_all add: sameFault_def)
  show ?thesis using injectFault_calls [OF i] unfolding sameFault_def same .
qed

lemma recoveryWindow_calls:
  assumes "recoveryWindow env cfg names spec q ending endSlot st = Some (r, st')"
  shows "sameFault st st' \<and> \<not> isOk r \<or>
     (\<exists>ok. rsFaultCalls st' = rsFaultCalls st @ [RevertedFault False q ok] \<and>
        rsFaultApplied st' = (if ok then None else rsFaultApplied st) \<and> (\<not> ok \<longrightarrow> \<not> isOk r))"
proof (cases "cfFaultBackend cfg")
  case None
  then show ?thesis using assms by (simp add: recoveryWindow_def)
next
  case (Some be)
  obtain r1 st1 where rv: "revertFault be False q st = (r1, st1)" by (cases "revertFault be False q st")
  have "\<not> isOk r1 \<and> st' = st1 \<and> \<not> isOk r \<or> isOk r1 \<and> sameFault st1 st'"
    using assms rv Some
    by (auto simp: recoveryWindow_def Let_def split: prod.splits option.splits if_splits sum.splits)
  then show ?thesis using revertFault_calls [OF rv]
    by (intro disjI2 exI [of _ "isOk r1"]) (auto simp: sameFault_def)
qed

text \<open>Every way the calls of a measurement can go, and the request of the fault that is left.\<close>

inductive faultHistory ::
  "('c, 'w) run_config \<Rightarrow> string \<Rightarrow> bool \<Rightarrow> fault_call list \<Rightarrow> partition_request option \<Rightarrow> bool" for cfg where
  Untouched: "(ok \<Longrightarrow> condition \<noteq> ConditionFault) \<Longrightarrow> faultHistory cfg condition ok [] None"
| Refused: "q = partitionRequest cfg ttl \<Longrightarrow> faultHistory cfg ConditionFault False [AppliedFault q False] None"
| Applied: "q = partitionRequest cfg ttl \<Longrightarrow> cfFaultBackend cfg = Some be \<Longrightarrow> faultHistory cfg ConditionFault False [AppliedFault q True] (Some q)"
| NotRemoved: "q = partitionRequest cfg ttl \<Longrightarrow> cfFaultBackend cfg = Some be \<Longrightarrow>
    faultHistory cfg ConditionFault False [AppliedFault q True, RevertedFault False q False] (Some q)"
| Removed: "q = partitionRequest cfg ttl \<Longrightarrow>
    faultHistory cfg ConditionFault ok [AppliedFault q True, RevertedFault False q True] None"

lemma sameFault_same: "sameFault st st' \<Longrightarrow> rsFaultCalls st' = rsFaultCalls st" "sameFault st st' \<Longrightarrow> rsFaultApplied st' = rsFaultApplied st"
  by (simp_all add: sameFault_def)

definition measured ::
  "beacon_spec \<Rightarrow> dataset_snapshot \<Rightarrow> u64 \<Rightarrow> partition_request \<Rightarrow> dataset_snapshot \<Rightarrow> u64 \<Rightarrow> time \<Rightarrow> u64 \<Rightarrow> bool \<Rightarrow>
   measurement" where
  "measured spec initial startSlot q ending endSlot removedAt removalSlot recovered =
     \<lparr>msSpec = spec, msInitial = initial, msEnding = ending, msStartSlot = startSlot, msEndSlot = endSlot,
      msRemovedAt = removedAt, msRemovalSlot = removalSlot, msRecoveryComplete = recovered, msPartition = Some q\<rparr>"

lemma measureFault_calls:
  assumes "measureFault env cfg names spec ctx st = Some (r, st')" "rsFaultCalls st = []" "rsFaultApplied st = None"
  shows "faultHistory cfg ConditionFault (isOk r) (rsFaultCalls st') (rsFaultApplied st')"
proof (cases "\<exists>e. faultBoundary env cfg names spec ctx st = Some (Inl e, st') \<and> r = Inl e")
  case True
  then obtain e where "faultBoundary env cfg names spec ctx st = Some (Inl e, st')" "r = Inl e" by blast
  from faultBoundary_calls [OF this(1)] show ?thesis using assms(2,3) \<open>r = Inl e\<close>
    by (auto simp: sameFault_def intro: faultHistory.intros split: if_splits)
next
  case False
  then obtain initial startSlot q st1 where b: "faultBoundary env cfg names spec ctx st = Some (Inr (initial, startSlot, q), st1)"
    and w: "thenDo (primaryWindow env cfg names spec startSlot st1) (\<lambda>(ending, endSlot) st.
      thenDo (recoveryWindow env cfg names spec q ending endSlot st) (\<lambda>(removedAt, removalSlot, complete) st.
        Some (Inr (measured spec initial startSlot q ending endSlot removedAt removalSlot complete), st))) = Some (r, st')"
    using assms(1) by (auto simp: measureFault_def measured_def thenDo_Some_iff [of "faultBoundary env cfg names spec ctx st"])
  from faultBoundary_calls [OF b] obtain ttl where q: "q = partitionRequest cfg ttl"
    and c1: "rsFaultCalls st1 = [AppliedFault q True]" "rsFaultApplied st1 = Some q" and "cfFaultBackend cfg \<noteq> None"
    using assms(2,3) by auto
  then obtain be where be: "cfFaultBackend cfg = Some be" by blast
  show ?thesis
  proof (cases "\<exists>e. primaryWindow env cfg names spec startSlot st1 = Some (Inl e, st') \<and> r = Inl e")
    case True
    then obtain e where e: "primaryWindow env cfg names spec startSlot st1 = Some (Inl e, st')" "r = Inl e" by blast
    from sameFault_same [OF movedD [OF moved_primaryWindow e(1)]] show ?thesis
      using c1 faultHistory.Applied [OF q be] by (simp add: e(2))
  next
    case False
    then obtain ending endSlot st2 where p: "primaryWindow env cfg names spec startSlot st1 = Some (Inr (ending, endSlot), st2)"
      and rw: "thenDo (recoveryWindow env cfg names spec q ending endSlot st2) (\<lambda>(removedAt, removalSlot, complete) st.
        Some (Inr (measured spec initial startSlot q ending endSlot removedAt removalSlot complete), st)) = Some (r, st')"
      using w by (auto simp: thenDo_Some_iff [of "primaryWindow env cfg names spec startSlot st1"])
    note c2 = sameFault_same [OF movedD [OF moved_primaryWindow p]]
    obtain r3 where r3: "recoveryWindow env cfg names spec q ending endSlot st2 = Some (r3, st')" "isOk r3 = isOk r"
      using rw by (auto simp: thenDo_Some_iff)
    from recoveryWindow_calls [OF r3(1)] show ?thesis using c1 c2 q be r3(2)
      by (cases "isOk r") (auto simp: sameFault_def intro: faultHistory.intros split: if_splits)
  qed
qed

lemma moved_measureControl [moved_rules]: "moved sameFault st (measureControl env cfg names spec ctx st)"
  unfolding measureControl_def
  by (auto simp: moved_rules split: prod.splits intro!: moved_thenDo [OF sameFault_trans])

lemma measureRun_calls:
  assumes "measureRun env cfg condition st = Some (r, st')" "rsFaultCalls st = []" "rsFaultApplied st = None"
  shows "faultHistory cfg condition (isOk r) (rsFaultCalls st') (rsFaultApplied st')"
proof -
  let ?names = "targetNames (cfTargets cfg)"
  from assms(1) consider e where "waitForSpecsAndHeads env ?names st = Some (Inl e, st')" "r = Inl e"
    | initial spec st1 where "waitForSpecsAndHeads env ?names st = Some (Inr (initial, spec), st1)"
        "(case runtimeDuration spec (2 * SlotsPerEpoch spec) of
          None \<Rightarrow> failRun DurationOverflow st1
        | Some timeout \<Rightarrow>
            if condition = ConditionFault then measureFault env cfg ?names spec (BoundaryContext timeout) st1
            else measureControl env cfg ?names spec (BoundaryContext timeout) st1) = Some (r, st')"
    unfolding measureRun_def Let_def thenDo_Some_iff by fastforce
  then show ?thesis
  proof cases
    case 1
    from sameFault_same [OF movedD [OF moved_basic(6) 1(1)]] show ?thesis
      using assms(2,3) 1(2) faultHistory.Untouched [of False] by simp
  next
    case 2
    have start: "rsFaultCalls st1 = []" "rsFaultApplied st1 = None"
      using sameFault_same [OF movedD [OF moved_basic(6) 2(1)]] assms(2,3) by simp_all
    show ?thesis
    proof (cases "runtimeDuration spec (2 * SlotsPerEpoch spec)")
      case None
      then show ?thesis using 2(2) start faultHistory.Untouched [of False] by simp
    next
      case (Some timeout)
      show ?thesis
      proof (cases "condition = ConditionFault")
        case True
        then show ?thesis using 2(2) start Some by (simp add: measureFault_calls)
      next
        case False
        then have "sameFault st1 st'" using 2(2) Some movedD [OF moved_measureControl] by simp
        then show ?thesis using False start faultHistory.Untouched by (simp add: sameFault_def)
      qed
    qed
  qed
qed

lemma runBody_calls:
  assumes "runBody env enc cfg (startState w storage) = Some (r, st')"
  shows "\<exists>condition. faultHistory cfg condition (isOk r) (rsFaultCalls st') (rsFaultApplied st') \<and>
     (\<forall>s. r = Inr s \<longrightarrow> Condition s = condition)"
proof -
  let ?st = "startState w storage"
  have start: "rsFaultCalls ?st = []" "rsFaultApplied ?st = None" by (simp_all add: startState_def)
  have untouched: ?thesis if "sameFault ?st st'" "\<not> isOk r"
    using that start faultHistory.Untouched [of False] by (intro exI [of _ ConditionFault]) (auto simp: sameFault_def isOk_def)
  show ?thesis
  proof (cases "validateConfig (digest256 enc) cfg")
    case (Inl e)
    then show ?thesis using assms untouched by (simp add: runBody_def)
  next
    case (Inr c)
    obtain condition repetition where c: "c = (condition, repetition)" by (cases c)
    from assms have "thenDo (prepareRun env enc cfg ?st) (\<lambda>(chainID, split) st.
        thenDo (measureRun env cfg condition st) (publishRun env enc cfg condition repetition chainID split)) = Some (r, st')"
      by (simp add: runBody_def Inr c)
    then show ?thesis
    proof (cases rule: thenDo_cases)
      case (1 e)
      then show ?thesis using untouched movedD [OF moved_prepareRun 1(1)] by simp
    next
      case (2 x st1)
      obtain chainID split where x: "x = (chainID, split)" by (cases x)
      have st1: "rsFaultCalls st1 = []" "rsFaultApplied st1 = None"
        using sameFault_same [OF movedD [OF moved_prepareRun 2(1)]] start by simp_all
      from 2(2) have "thenDo (measureRun env cfg condition st1) (publishRun env enc cfg condition repetition chainID split) =
          Some (r, st')" by (simp add: x)
      then show ?thesis
      proof (cases rule: thenDo_cases)
        case (1 e)
        then show ?thesis using measureRun_calls [OF 1(1) st1] by auto
      next
        case m: (2 ms st2)
        note h = measureRun_calls [OF m(1) st1]
        have "faultHistory cfg condition (isOk r) (rsFaultCalls st2) (rsFaultApplied st2)"
          using h by (cases rule: faultHistory.cases) (auto intro: faultHistory.intros)
        moreover have "Condition s = condition" if "r = Inr s" for s
          using m(2) that
          by (auto simp: publishRun_def storeEvidence_def summaryOf_def summary_fields Let_def thenDo_Some_iff split: option.splits)
        ultimately show ?thesis using sameFault_same [OF movedD [OF moved_publishRun m(2)]] by auto
      qed
    qed
  qed
qed

lemma exitRun_calls:
  assumes "exitRun env cfg st = (errs, st')"
  shows "\<not> rsObserverRunning st' \<and> rsRawFile st' = None \<and>
     (if rsFaultApplied st = None \<or> cfFaultBackend cfg = None then rsFaultCalls st' = rsFaultCalls st
      else \<exists>ok. rsFaultCalls st' = rsFaultCalls st @ [RevertedFault True (the (rsFaultApplied st)) ok] \<and>
             (\<not> ok \<longrightarrow> (\<exists>e. RevertFailed e \<in> set errs)))"
proof -
  obtain reverted st1 where a: "revertAtExit cfg st = (reverted, st1)" by (cases "revertAtExit cfg st")
  obtain stopped st2 where s: "stopObserver env st1 = (stopped, st2)" by (cases "stopObserver env st1")
  obtain ok st3 where c: "closeRaw env st2 = (ok, st3)" by (cases "closeRaw env st2")
  have e: "st' = st3" "set reverted \<subseteq> set errs" using assms a s c by (auto simp: exitRun_def)
  have "rsFaultCalls st' = rsFaultCalls st1"
    using stopObserver_sameFault [OF s] closeRaw_sameFault [OF c] e(1) by (simp add: sameFault_def)
  moreover have "\<not> rsObserverRunning st2" using s by (auto simp: stopObserver_def split: if_splits prod.splits)
  then have "\<not> rsObserverRunning st3 \<and> rsRawFile st3 = None"
    using c by (auto simp: closeRaw_def split: option.splits prod.splits)
  moreover have "if rsFaultApplied st = None \<or> cfFaultBackend cfg = None then rsFaultCalls st1 = rsFaultCalls st
      else \<exists>ok. rsFaultCalls st1 = rsFaultCalls st @ [RevertedFault True (the (rsFaultApplied st)) ok] \<and>
             (\<not> ok \<longrightarrow> (\<exists>e. RevertFailed e \<in> set reverted))"
    using a by (auto simp: revertAtExit_def isOk_def split: option.splits prod.splits sum.splits dest!: revertFault_calls)
  ultimately show ?thesis using e by (auto split: if_splits)
qed

text \<open>
  C1: A run that returns has stopped its observer and closed its time series. No fault it injected is left,
  unless the run reports that reverting it failed, and it reports so only after a last attempt
  under a context of its own. A summary is returned exactly after the fault of a fault run was applied
  and removed, and after no call to the backend in a control run.
\<close>

theorem Run_fault_removed:
  assumes "Runner_Run env enc cfg (startState w storage) = Some (res, st')"
  shows "\<not> rsObserverRunning st' \<and> rsRawFile st' = None \<and>
     (outstanding (rsFaultCalls st') = None \<or>
       (\<exists>errs e calls q. res = Inl errs \<and> RevertFailed e \<in> set errs \<and>
          rsFaultCalls st' = calls @ [RevertedFault True q False])) \<and>
     (\<forall>s. res = Inr s \<longrightarrow> (\<exists>ttl. rsFaultCalls st' =
        (if Condition s = ConditionFault
         then [AppliedFault (partitionRequest cfg ttl) True, RevertedFault False (partitionRequest cfg ttl) True] else [])))"
proof -
  obtain r st1 where b: "runBody env enc cfg (startState w storage) = Some (r, st1)"
    using assms by (auto simp: Runner_Run_def split: option.splits)
  obtain errs st2 where x: "exitRun env cfg st1 = (errs, st2)" by (cases "exitRun env cfg st1")
  have res: "st' = st2" "\<And>s. res = Inr s \<Longrightarrow> r = Inr s \<and> errs = []" "errs \<noteq> [] \<Longrightarrow> \<exists>es. res = Inl es \<and> set errs \<subseteq> set es"
    using assms b x by (auto simp: Runner_Run_def split: sum.splits if_splits)
  obtain condition where h: "faultHistory cfg condition (isOk r) (rsFaultCalls st1) (rsFaultApplied st1)"
    and cond: "\<forall>s. r = Inr s \<longrightarrow> Condition s = condition" using runBody_calls [OF b] by blast
  note exit = exitRun_calls [OF x]
  have left: "outstanding (rsFaultCalls st1) = rsFaultApplied st1"
    using h by (cases rule: faultHistory.cases) (simp_all add: outstanding_def)
  have "outstanding (rsFaultCalls st') = None \<or>
       (\<exists>errs e calls q. res = Inl errs \<and> RevertFailed e \<in> set errs \<and>
          rsFaultCalls st' = calls @ [RevertedFault True q False])"
  proof (cases "rsFaultApplied st1")
    case None
    then show ?thesis using left exit res(1) by simp
  next
    case (Some q)
    have "cfFaultBackend cfg \<noteq> None" using h Some by (cases rule: faultHistory.cases) simp_all
    then have "\<exists>ok. rsFaultCalls st2 = rsFaultCalls st1 @ [RevertedFault True q ok] \<and>
        (\<not> ok \<longrightarrow> (\<exists>e. RevertFailed e \<in> set errs))" using exit Some by (simp split: if_splits)
    then obtain ok where ok: "rsFaultCalls st2 = rsFaultCalls st1 @ [RevertedFault True q ok]"
        "\<not> ok \<longrightarrow> (\<exists>e. RevertFailed e \<in> set errs)" by blast
    show ?thesis
    proof (cases ok)
      case True
      then show ?thesis using ok(1) res(1) by simp
    next
      case False
      then obtain e where e: "RevertFailed e \<in> set errs" using ok(2) by blast
      then have "errs \<noteq> []" by auto
      then obtain es where "res = Inl es" "set errs \<subseteq> set es" using res(3) by blast
      then show ?thesis using e ok(1) res(1) False by (intro disjI2) auto
    qed
  qed
  moreover have "\<exists>ttl. rsFaultCalls st' = (if Condition s = ConditionFault
         then [AppliedFault (partitionRequest cfg ttl) True, RevertedFault False (partitionRequest cfg ttl) True] else [])"
    if "res = Inr s" for s
  proof -
    have r: "r = Inr s" "Condition s = condition" using res(2) [OF that] cond by auto
    have "(\<exists>ttl. rsFaultCalls st1 = (if condition = ConditionFault
         then [AppliedFault (partitionRequest cfg ttl) True, RevertedFault False (partitionRequest cfg ttl) True] else [])) \<and>
       rsFaultApplied st1 = None"
      using h r(1) by (cases rule: faultHistory.cases) auto
    then show ?thesis using exit res(1) r(2) by simp
  qed
  ultimately show ?thesis using exit res(1) by blast
qed

section \<open>A run returns\<close>

text \<open>
  A wait under a context is interrupted after finitely many changes of the dataset. A deadline that
  passes, a cancelled caller or a stopped observer does that.
\<close>

inductive settles :: "'w run_env \<Rightarrow> run_context \<Rightarrow> 'w \<Rightarrow> bool" for env ctx where
  Interrupted: "envSelect env ctx w = (wk, w') \<Longrightarrow> wk \<noteq> DatasetChanged \<Longrightarrow> settles env ctx w"
| Woken: "envSelect env ctx w = (DatasetChanged, w') \<Longrightarrow> settles env ctx w' \<Longrightarrow> settles env ctx w"

lemma waitFor_returns: "settles env ctx w \<Longrightarrow> \<exists>r w'. waitFor env ctx p w = Some (r, w')"
proof (induction rule: settles.induct)
  case (Interrupted w wk w')
  then show ?case by (subst waitFor.simps) (auto split: probe.splits wake.splits)
next
  case (Woken w w')
  then show ?case by (subst waitFor.simps) (auto split: probe.splits)
qed

text \<open>A phase that returns.\<close>

definition returns :: "('w, 'a) run_result \<Rightarrow> bool" where
  "returns m \<longleftrightarrow> m \<noteq> None"

lemma returns_simps [simp]: "returns (Some x)" "returns (failRun e st)" "\<not> returns None"
  by (simp_all add: returns_def failRun_def)

lemma thenDo_returns: "returns m \<Longrightarrow> (\<And>x s. returns (f x s)) \<Longrightarrow> returns (thenDo m f)"
  by (auto simp: returns_def thenDo_def split: prod.splits sum.splits)

lemma stores_return [simp]:
  fixes st :: "'w runner_state"
  shows "returns (storeJSON dir name encoded st)" "returns (storeBytes dir name bytes st)" "returns (openRaw dir st)"
  "returns (startObserver env cfg st)" "returns (settleRun env st)" "returns (storeChecksums enc dir st)"
proof -
  show store: "returns (storeJSON dir name encoded st)" for dir name encoded and st :: "'w runner_state"
    by (simp add: storeJSON_def split: prod.splits)
  show "returns (storeBytes dir name bytes st)" "returns (openRaw dir st)" "returns (startObserver env cfg st)"
    "returns (settleRun env st)" "returns (storeChecksums enc dir st)"
    using store by (simp_all add: storeBytes_def openRaw_def startObserver_def settleRun_def storeChecksums_def
        failRun_def split: prod.splits sum.splits option.splits bool.splits)
qed

lemma prepareRun_returns: "returns (prepareRun env enc cfg st)"
proof -
  have "returns (thenDo (storeBytes dir n b s) (\<lambda>_ st. thenDo (storeJSON dir n' j st) (\<lambda>_ st.
      thenDo (openRaw dir st) (\<lambda>_ st. thenDo (startObserver env cfg st) (\<lambda>_ st. Some (x, st))))))" for s dir n b n' j x
    by (intro thenDo_returns stores_return) simp
  then show ?thesis unfolding prepareRun_def Let_def
    by (auto split: option.splits prod.splits sum.splits)
qed

lemma publishRun_returns: "returns (publishRun env enc cfg c rep chain split ms st)"
proof -
  have "returns (storeEvidence enc dir summary m s)" for dir summary m and s :: "'w runner_state"
    unfolding storeEvidence_def by (intro thenDo_returns stores_return) simp
  then show ?thesis unfolding publishRun_def Let_def
    by (auto split: option.splits intro!: thenDo_returns stores_return)
qed

lemma waits_return:
  assumes "\<And>ctx w. settles env ctx w"
  shows "returns (await env ctx p wrap st)" "returns (waitForSpecsAndHeads env names st)"
    "returns (recoveryWindow env cfg names spec q ending endSlot st)"
proof -
  have w: "waitFor env ctx p w \<noteq> None" for ctx p w using waitFor_returns [OF assms] by simp
  show "returns (await env ctx p wrap st)" "returns (waitForSpecsAndHeads env names st)"
    using w by (auto simp: returns_def await_def waitForSpecsAndHeads_def split: option.splits prod.splits sum.splits)
  show "returns (recoveryWindow env cfg names spec q ending endSlot st)"
    using w by (auto simp: recoveryWindow_def Let_def simp del: not_None_eq split: option.splits prod.splits sum.splits)
qed

lemma windows_return:
  assumes "\<And>ctx w. settles env ctx w"
  shows "returns (primaryWindow env cfg names spec a st)" "returns (controlBoundary env names spec ctx st)"
    "returns (faultBoundary env cfg names spec ctx st)"
proof -
  note w = waits_return [OF assms]
  show "returns (primaryWindow env cfg names spec a st)" "returns (controlBoundary env names spec ctx st)"
    using w(1) by (auto simp: primaryWindow_def controlBoundary_def Let_def
        split: option.splits prod.splits intro!: thenDo_returns)
  have "returns (injectedBoundary env names ctx pre q s)" for pre q s
    using w(1) by (auto simp: injectedBoundary_def Let_def intro!: thenDo_returns)
  then have "returns (injectFault env cfg names spec ctx pre s)" for pre s
    by (auto simp: injectFault_def split: option.splits prod.splits sum.splits)
  then show "returns (faultBoundary env cfg names spec ctx st)"
    using w(1) by (auto simp: faultBoundary_def intro!: thenDo_returns)
qed

lemma measureRun_returns:
  assumes "\<And>ctx w. settles env ctx w"
  shows "returns (measureRun env cfg condition st)"
proof -
  note w = waits_return [OF assms] windows_return [OF assms]
  have "returns (measureFault env cfg names spec ctx s)" "returns (measureControl env cfg names spec ctx s)" for names spec ctx s
    using w by (auto simp: measureFault_def measureControl_def split: prod.splits intro!: thenDo_returns)
  then show ?thesis using w(2)
    by (auto simp: measureRun_def Let_def split: option.splits prod.splits intro!: thenDo_returns)
qed

text \<open>C16: Where every wait is interrupted in the end, a run returns, with a summary or an error.\<close>

theorem Run_returns:
  assumes "\<And>ctx w. settles env ctx w"
  shows "\<exists>res st'. Runner_Run env enc cfg st = Some (res, st')"
proof -
  have "returns (runBody env enc cfg st)"
    using prepareRun_returns measureRun_returns [OF assms] publishRun_returns
    by (auto simp: runBody_def split: sum.splits prod.splits intro!: thenDo_returns)
  then obtain r st1 where b: "runBody env enc cfg st = Some (r, st1)" by (auto simp: returns_def)
  then show ?thesis by (cases "exitRun env cfg st1") (simp add: Runner_Run_def)
qed

end
