(* ===== verification/RunWindow.thy ===== *)
theory RunWindow
  imports RunSafety
begin

text \<open>
  The window that a run measures: it starts with an epoch, spans the configured epochs exactly, and
  is closed by observations of every target.
\<close>

section \<open>What a wait leaves\<close>

lemma waitFor_result:
  assumes "waitFor env ctx p w = Some y"
  shows "\<forall>snap. fst y = Inr snap \<longrightarrow> p snap = Ready \<and> snap = envSnapshot env (snd y)"
  by (rule waitFor.raw_induct [where P = "\<lambda>env ctx p w y. \<forall>snap. fst y = Inr snap \<longrightarrow>
        p snap = Ready \<and> snap = envSnapshot env (snd y)", OF _ assms])
     (auto split: probe.splits wake.splits prod.splits)

lemma await_Inr:
  "await env ctx p wrap st = Some (Inr snap, st') \<Longrightarrow> p snap = Ready \<and> snap = envSnapshot env (rsWorld st')"
  using waitFor_result [of env ctx p "rsWorld st"]
  by (fastforce simp: await_def wrapE_def split: option.splits prod.splits sum.splits)

lemma commonSlot_Ready:
  "commonSlot names n remainder snap = Ready \<longleftrightarrow>
     n \<noteq> 0 \<and> (\<exists>slot. commonLatestSlot snap names = Some slot \<and> slot mod n = remainder)"
  by (auto simp: commonSlot_def split: option.splits if_splits)

lemma exactSlot_Ready:
  "exactSlot names slot snap = Ready \<longleftrightarrow> (\<forall>name \<in> set names. observed (snapBeacon snap) name slot)"
  by (auto simp: exactSlot_def observationAtSlot_None list_ex_iff)

section \<open>The window\<close>

lemma multiply_exact: "multiply a b = (if unat a * unat b < 2 ^ 64 then (a * b, False) else (0, True))"
  using multiplyUint64_exact [of a b] by (simp add: multiply_def multiplyUint64_def)

text \<open>The slot after the last one of an epoch is the first of the next.\<close>

lemma next_epoch:
  assumes "(slot :: u64) mod n = n - 1" "n \<noteq> 0" "slot \<noteq> MaxUint64"
  shows "(slot + 1) mod n = 0"
proof -
  have "unat slot mod unat n = unat n - 1"
    using assms(1,2) by (metis unat_mod unat_minus_one)
  then have "(unat slot + 1) mod unat n = 0"
    using assms(2) unat_gt_0 [of n] by (simp add: mod_Suc)
  moreover have "unat (slot + 1) = unat slot + 1" using unat_Suc64 [OF assms(3)] by simp
  ultimately show ?thesis by (metis unat_mod unat_eq_zero)
qed

lemma primaryWindow_Inr:
  assumes "primaryWindow env cfg names spec a st = Some (Inr (ending, z), st')"
  shows "unat z = unat a + unat (DurationEpochs (scFault (inScenario cfg))) * unat (SlotsPerEpoch spec) \<and>
     (\<forall>name \<in> set names. observed (snapBeacon ending) name z)"
proof -
  let ?d = "DurationEpochs (scFault (inScenario cfg))" and ?n = "SlotsPerEpoch spec"
  from assms have m: "unat ?d * unat ?n < 2 ^ 64" "\<not> MaxUint64 - a < ?d * ?n" "z = a + ?d * ?n"
      "exactSlot names (a + ?d * ?n) ending = Ready"
    by (auto simp: primaryWindow_def multiply_exact Let_def thenDo_Some_iff split: if_splits option.splits dest!: await_Inr)
  have "unat a + unat (?d * ?n) < 2 ^ 64" using m(2) by (simp only: max_sub_less_iff not_not)
  then have "unat z = unat a + unat ?d * unat ?n" using unat_add64 unat_mult64 [OF m(1)] by (simp add: m(3))
  then show ?thesis using m(3,4) by (simp add: exactSlot_Ready)
qed

lemma runtimeDuration_exact:
  "runtimeDuration spec n = Some d \<Longrightarrow>
     unat (SecondsPerSlot spec) * unat n < 2 ^ 64 \<and> d = int (unat (SecondsPerSlot spec) * unat n) * second"
proof -
  assume "runtimeDuration spec n = Some d"
  then have d: "unat (SecondsPerSlot spec) * unat n < 2 ^ 64" "d = uint (SecondsPerSlot spec * n) * second"
    by (auto simp: runtimeDuration_def multiply_exact split: if_splits prod.splits)
  then show ?thesis using unat_mult64 [OF d(1)] by (simp only: uint_nat simp_thms)
qed

text \<open>The deadman of a run in seconds: two epochs more than the window.\<close>

definition deadmanOf :: "('c, 'w) run_config \<Rightarrow> beacon_spec \<Rightarrow> nat" where
  "deadmanOf cfg spec = unat (SecondsPerSlot spec) *
     (unat (DurationEpochs (scFault (inScenario cfg)) + 2) * unat (SlotsPerEpoch spec))"

lemma faultBoundary_Inr:
  assumes "faultBoundary env cfg names spec ctx st = Some (Inr (initial, a, q), st')"
  shows "SlotsPerEpoch spec \<noteq> 0 \<and> a mod SlotsPerEpoch spec = 0 \<and> (\<forall>name \<in> set names. observed (snapBeacon initial) name a) \<and>
     (\<exists>ttl. q = partitionRequest cfg ttl \<and>
        ttl = int (deadmanOf cfg spec) * second \<and> deadmanOf cfg spec < 2 ^ 64)"
proof -
  let ?n = "SlotsPerEpoch spec" and ?d = "DurationEpochs (scFault (inScenario cfg)) + 2"
  from assms obtain pre s where pre: "commonSlot names ?n (?n - 1) pre = Ready"
    and inj: "injectFault env cfg names spec ctx (case commonLatestSlot pre names of None \<Rightarrow> 0 | Some slot \<Rightarrow> slot) s =
      Some (Inr (initial, a, q), st')"
    by (auto simp: faultBoundary_def thenDo_Some_iff dest!: await_Inr)
  obtain slot where slot: "?n \<noteq> 0" "commonLatestSlot pre names = Some slot" "slot mod ?n = ?n - 1"
    using pre by (auto simp: commonSlot_Ready)
  from inj obtain ttl s1 where t: "unat ?d * unat ?n < 2 ^ 64" "runtimeDuration spec (?d * ?n) = Some ttl"
    and b: "injectedBoundary env names ctx slot (partitionRequest cfg ttl) s1 = Some (Inr (initial, a, q), st')"
    by (auto simp: injectFault_def slot(2) multiply_exact split: if_splits option.splits prod.splits sum.splits)
  from b have a: "slot \<noteq> MaxUint64" "a = slot + 1" "q = partitionRequest cfg ttl" "exactSlot names a initial = Ready"
    by (auto simp: injectedBoundary_def Let_def thenDo_Some_iff split: if_splits dest!: await_Inr)
  have "ttl = int (deadmanOf cfg spec) * second \<and> deadmanOf cfg spec < 2 ^ 64"
    using runtimeDuration_exact [OF t(2)] unat_mult64 [OF t(1)] by (simp add: deadmanOf_def)
  then show ?thesis using slot(1) a next_epoch [OF slot(3,1) a(1)] by (auto simp: exactSlot_Ready)
qed

lemma removalSlotOf_ge: "endSlot \<le> removalSlotOf snap names endSlot"
proof -
  have "z \<le> foldl (\<lambda>slot (_, ob). if boCurrentSlot ob > slot then boCurrentSlot ob else slot) z m" for z and m :: "(string \<times> beacon_observation) list"
  proof (induction m arbitrary: z)
    case (Cons x m)
    show ?case using Cons [of "boCurrentSlot (snd x)"] Cons [of z] by (auto simp: case_prod_unfold)
  qed simp
  then show ?thesis by (simp add: removalSlotOf_def Let_def)
qed

lemma measureRun_measured:
  assumes "measureRun env cfg condition st = Some (Inr ms, st')"
  shows "SlotsPerEpoch (msSpec ms) \<noteq> 0 \<and> msStartSlot ms mod SlotsPerEpoch (msSpec ms) = 0 \<and>
     unat (msEndSlot ms) = unat (msStartSlot ms) +
       unat (DurationEpochs (scFault (inScenario cfg))) * unat (SlotsPerEpoch (msSpec ms)) \<and>
     (\<forall>name \<in> set (targetNames (cfTargets cfg)). observed (snapBeacon (msEnding ms)) name (msEndSlot ms)) \<and>
     msEndSlot ms \<le> msRemovalSlot ms \<and>
     (if condition = ConditionFault
      then (\<forall>name \<in> set (targetNames (cfTargets cfg)). observed (snapBeacon (msInitial ms)) name (msStartSlot ms)) \<and>
        (\<exists>q. msPartition ms = Some q \<and> TTL q = int (deadmanOf cfg (msSpec ms)) * second \<and> deadmanOf cfg (msSpec ms) < 2 ^ 64)
      else msPartition ms = None)"
proof (cases "condition = ConditionFault")
  case True
  from assms True obtain spec ctx s where "measureFault env cfg (targetNames (cfTargets cfg)) spec ctx s = Some (Inr ms, st')"
    by (auto simp: measureRun_def Let_def thenDo_Some_iff split: option.splits prod.splits)
  then obtain initial a q ending z removedAt removalSlot recovered s1 s2 s3 where
      f: "faultBoundary env cfg (targetNames (cfTargets cfg)) spec ctx s = Some (Inr (initial, a, q), s1)"
    and p: "primaryWindow env cfg (targetNames (cfTargets cfg)) spec a s1 = Some (Inr (ending, z), s2)"
    and r: "recoveryWindow env cfg (targetNames (cfTargets cfg)) spec q ending z s2 = Some (Inr (removedAt, removalSlot, recovered), s3)"
    and ms: "ms = \<lparr>msSpec = spec, msInitial = initial, msEnding = ending, msStartSlot = a, msEndSlot = z,
      msRemovedAt = removedAt, msRemovalSlot = removalSlot, msRecoveryComplete = recovered, msPartition = Some q\<rparr>"
    by (auto simp: measureFault_def thenDo_Some_iff)
  have "z \<le> removalSlot" using r removalSlotOf_ge
    by (auto simp: recoveryWindow_def Let_def split: option.splits prod.splits sum.splits if_splits)
  then show ?thesis using True faultBoundary_Inr [OF f] primaryWindow_Inr [OF p]
    by (auto simp: ms partitionRequest_def Let_def)
next
  case False
  from assms False obtain spec ctx s where "measureControl env cfg (targetNames (cfTargets cfg)) spec ctx s = Some (Inr ms, st')"
    by (auto simp: measureRun_def Let_def thenDo_Some_iff split: option.splits prod.splits)
  then obtain initial a ending z s1 s2 where
      c: "controlBoundary env (targetNames (cfTargets cfg)) spec ctx s = Some (Inr (initial, a), s1)"
    and p: "primaryWindow env cfg (targetNames (cfTargets cfg)) spec a s1 = Some (Inr (ending, z), s2)"
    and ms: "ms = \<lparr>msSpec = spec, msInitial = initial, msEnding = ending, msStartSlot = a, msEndSlot = z,
      msRemovedAt = zeroTime, msRemovalSlot = z, msRecoveryComplete = True, msPartition = None\<rparr>"
    by (auto simp: measureControl_def thenDo_Some_iff)
  from c have "SlotsPerEpoch spec \<noteq> 0 \<and> a mod SlotsPerEpoch spec = 0"
    by (auto simp: controlBoundary_def thenDo_Some_iff commonSlot_Ready dest!: await_Inr del: mod_0_imp_dvd)
  then show ?thesis using False primaryWindow_Inr [OF p] by (simp add: ms)
qed

text \<open>The spec of a run is that of the first target by name, as soon as all specs are known.\<close>

lemma measureRun_spec:
  assumes "measureRun env cfg condition st = Some (Inr ms, st')"
  shows "\<exists>w. specsAndHeads (targetNames (cfTargets cfg)) (envSnapshot env w) = Ready \<and>
     msSpec ms = mget zeroBeaconSpec (snapSpecs (envSnapshot env w)) (hd (targetNames (cfTargets cfg)))"
proof -
  let ?names = "targetNames (cfTargets cfg)"
  from assms obtain initial spec s timeout where
      s: "waitForSpecsAndHeads env ?names st = Some (Inr (initial, spec), s)"
    and m: "(if condition = ConditionFault then measureFault env cfg ?names spec (BoundaryContext timeout) s
       else measureControl env cfg ?names spec (BoundaryContext timeout) s) = Some (Inr ms, st')"
    by (auto simp: measureRun_def Let_def thenDo_Some_iff split: option.splits)
  from s obtain w where w: "waitFor env CallerContext (specsAndHeads ?names) (rsWorld st) = Some (Inr initial, w)"
      "spec = mget zeroBeaconSpec (snapSpecs initial) (hd ?names)"
    by (auto simp: waitForSpecsAndHeads_def split: option.splits sum.splits prod.splits)
  have "msSpec ms = spec" using m
    by (auto simp: measureFault_def measureControl_def thenDo_Some_iff split: if_splits)
  then show ?thesis using waitFor_result [OF w(1)] w(2) by auto
qed

text \<open>
  C3: A measured window starts with an epoch and spans the configured number of epochs exactly; every target
  is observed in its last slot, and in a fault run in its first slot, after the fault was injected. The
  fault's deadman is the time of two epochs more than the window, and the recovery is counted from a slot
  that is not before the end of the window.
\<close>

theorem measureRun_window:
  assumes "measureRun env cfg condition st = Some (Inr ms, st')"
  shows "SlotsPerEpoch (msSpec ms) \<noteq> 0 \<and> msStartSlot ms mod SlotsPerEpoch (msSpec ms) = 0 \<and>
     unat (msEndSlot ms) = unat (msStartSlot ms) +
       unat (DurationEpochs (scFault (inScenario cfg))) * unat (SlotsPerEpoch (msSpec ms)) \<and>
     (\<forall>name \<in> set (targetNames (cfTargets cfg)). observed (snapBeacon (msEnding ms)) name (msEndSlot ms)) \<and>
     msEndSlot ms \<le> msRemovalSlot ms \<and>
     (if condition = ConditionFault
      then (\<forall>name \<in> set (targetNames (cfTargets cfg)). observed (snapBeacon (msInitial ms)) name (msStartSlot ms)) \<and>
        (\<exists>q. msPartition ms = Some q \<and> TTL q = int (deadmanOf cfg (msSpec ms)) * second \<and> deadmanOf cfg (msSpec ms) < 2 ^ 64)
      else msPartition ms = None)"
  using assms by (rule measureRun_measured)

end
