(* ===== verification/JsonText.thy ===== *)
theory JsonText
  imports Json
begin

text \<open>
  A printer of JSON values and a parser that reads back what it printed, for the concrete inputs of the
  theorems that only ask for such a pair. Every text says how long it is.
\<close>

definition counted :: "nat \<Rightarrow> string \<Rightarrow> string" where
  "counted n s = replicate n (CHR ''|'') @ CHR ''.'' # s"

definition readCount :: "string \<Rightarrow> nat \<times> string" where
  "readCount s = (length (takeWhile (\<lambda>c. c = CHR ''|'') s), tl (dropWhile (\<lambda>c. c = CHR ''|'') s))"

lemma readCount_counted [simp]: "readCount (counted n s) = (n, s)"
  by (simp add: readCount_def counted_def takeWhile_append dropWhile_append)

definition quoted :: "string \<Rightarrow> string" where
  "quoted s = counted (length s) s"

definition readQuoted :: "string \<Rightarrow> string \<times> string" where
  "readQuoted s = (case readCount s of (n, r) \<Rightarrow> (take n r, drop n r))"

lemma readQuoted_quoted [simp]: "readQuoted (quoted s @ rest) = (s, rest)"
proof -
  have "quoted s @ rest = counted (length s) (s @ rest)" by (simp add: quoted_def counted_def)
  then show ?thesis by (simp add: readQuoted_def)
qed

fun printText :: "json \<Rightarrow> string" where
  "printText JNull = ''n''"
| "printText (JBool b) = (if b then ''t'' else ''f'')"
| "printText (JNum s) = CHR ''d'' # quoted s"
| "printText (JStr s) = CHR ''s'' # quoted s"
| "printText (JArr js) = CHR ''a'' # counted (length js) (concat (map printText js))"
| "printText (JObj kvs) = CHR ''o'' # counted (length kvs) (concat (map (\<lambda>(k, j). quoted k @ printText j) kvs))"

fun readMany :: "(string \<Rightarrow> 'a \<times> string) \<Rightarrow> nat \<Rightarrow> string \<Rightarrow> 'a list \<times> string" where
  "readMany f 0 s = ([], s)"
| "readMany f (Suc n) s = (case f s of (x, s) \<Rightarrow> case readMany f n s of (xs, s) \<Rightarrow> (x # xs, s))"

text \<open>The depth of a value is enough fuel, and the length of its text is more.\<close>

primrec readText :: "nat \<Rightarrow> string \<Rightarrow> json \<times> string" where
  "readText 0 s = (JNull, s)"
| "readText (Suc fuel) s =
     (case s of [] \<Rightarrow> (JNull, [])
      | c # s \<Rightarrow>
          if c = CHR ''n'' then (JNull, s)
          else if c = CHR ''t'' then (JBool True, s)
          else if c = CHR ''f'' then (JBool False, s)
          else if c = CHR ''d'' then (case readQuoted s of (v, s) \<Rightarrow> (JNum v, s))
          else if c = CHR ''s'' then (case readQuoted s of (v, s) \<Rightarrow> (JStr v, s))
          else case readCount s of (n, s) \<Rightarrow>
            if c = CHR ''a'' then (case readMany (readText fuel) n s of (js, s) \<Rightarrow> (JArr js, s))
            else (case readMany (\<lambda>s. case readQuoted s of (k, s) \<Rightarrow> case readText fuel s of (j, s) \<Rightarrow> ((k, j), s)) n s of
                    (kvs, s) \<Rightarrow> (JObj kvs, s)))"

definition decodeText :: "string \<Rightarrow> (json \<times> json_rest) option" where
  "decodeText s = Some (fst (readText (length s) s), NoMore)"

lemma readMany_concat:
  "\<forall>x \<in> set xs. \<forall>rest. f (p x @ rest) = (x, rest) \<Longrightarrow> readMany f (length xs) (concat (map p xs) @ rest) = (xs, rest)"
  by (induction xs) simp_all

lemma counted_append [simp]: "counted n s @ t = counted n (s @ t)"
  by (simp add: counted_def)

lemma length_part: "x \<in> set xs \<Longrightarrow> length (p x) \<le> length (concat (map p xs))"
  by (induction xs) auto

lemma readText_printText: "length (printText j) \<le> fuel \<Longrightarrow> readText fuel (printText j @ rest) = (j, rest)"
proof (induction j arbitrary: fuel rest rule: printText.induct)
  case (5 js)
  then obtain f where f: "fuel = Suc f" by (cases fuel) auto
  have "readText f (printText j @ rest) = (j, rest)" if "j \<in> set js" for j rest
    using that "5.prems" length_part [OF that, of printText] by (intro "5.IH") (auto simp: f counted_def)
  then show ?case by (simp add: f readMany_concat)
next
  case (6 kvs)
  let ?p = "\<lambda>(k, j). quoted k @ printText j"
  from 6 obtain f where f: "fuel = Suc f" by (cases fuel) auto
  have "readText f (printText j @ rest) = (j, rest)" if "(k, j) \<in> set kvs" for k j rest
  proof -
    have "length (printText j) \<le> length (?p (k, j))" by simp
    also have "\<dots> \<le> length (concat (map ?p kvs))" by (rule length_part [OF that])
    also have "\<dots> \<le> f" using "6.prems" by (simp add: f counted_def)
    finally show ?thesis using "6.IH" [OF that] by blast
  qed
  then have "readMany (\<lambda>s. case readQuoted s of (k, s) \<Rightarrow> case readText f s of (j, s) \<Rightarrow> ((k, j), s)) (length kvs)
      (concat (map ?p kvs) @ rest) = (kvs, rest)" by (intro readMany_concat) auto
  then show ?case by (simp add: f)
qed (auto simp: Suc_le_D dest!: Suc_le_D)

lemma decodeText_printText: "decodeText (printText j) = Some (j, NoMore)"
  using readText_printText [of j "length (printText j)" "[]"] by (simp add: decodeText_def)

end
