(* ===== verification/RunExamples.thy ===== *)
theory RunExamples
  imports RunWindow JsonText MeasureExamples EvidenceExamples
begin

text \<open>
  A fault run on the example scenario, whose chain has one slot in an epoch: the world counts the slots,
  and a new one is observed whenever the runner waits. The run succeeds, and its evidence
  is on the file system; with a backend that fails it reports what it left.
\<close>

section \<open>A world\<close>

definition rxSpec :: beacon_spec where
  "rxSpec = exRuntimeSpec\<lparr>SlotsPerEpoch := 1\<rparr>"

definition rxSlot :: "nat \<Rightarrow> u64" where
  "rxSlot k = 100 + of_nat k"

definition rxSnap :: "nat \<Rightarrow> dataset_snapshot" where
  "rxSnap k = \<lparr>snapSpecs = map (\<lambda>name. (name, rxSpec)) exTargetNames,
     snapGenesis = map (\<lambda>name. (name, exRuntimeGenesis)) exTargetNames,
     snapBeacon = map (exSeen (rxSlot k) (of_nat k) (CHR ''a'')) exTargetNames, snapComparisons = [], snapGaps = []\<rparr>"

definition rxEnv :: "nat run_env" where
  "rxEnv = \<lparr>envSnapshot = rxSnap, envSelect = (\<lambda>_ k. if k < 20 then (DatasetChanged, k + 1) else (ObserverStopped, k)),
     envStartObserver = (\<lambda>k. k), envStopObserver = (\<lambda>k. (None, k)), envNow = (\<lambda>k. (exTime, k)),
     envCloseRaw = (\<lambda>k. ((True, ''raw''), k))\<rparr>"

text \<open>A backend that applies a fault, and reverts it if the flag is set.\<close>

definition rxBackend :: "bool \<Rightarrow> nat fault_backend" where
  "rxBackend ok = \<lparr>backendApply = (\<lambda>_ k. (Inr (), k)),
     backendRevert = (\<lambda>_ q k. (if ok then Inr () else Inl (DeleteFailed []), k))\<rparr>"

definition rxDir :: string where "rxDir = ''/runs/fault-1''"

definition rxConfig :: "bool \<Rightarrow> (unit, nat) run_config" where
  "rxConfig ok = \<lparr>inScenario = exScenario, inRunID = ''fault-1'',
     inPlacements = map exPlacement (scParticipants exScenario), inDependencies = exMetadata,
     cfScenarioYAML = ''yaml'', cfTargets = map (\<lambda>name. \<lparr>tgtName = name, tgtClient = Some ()\<rparr>) exTargetNames,
     cfValidatorClient = Some (\<lambda>k. (Inr exActives, k)), cfValidatorRanges = exRanges,
     cfChainIDClient = Some (\<lambda>k. (Inr 3151908, k)), cfFaultBackend = Some (rxBackend ok),
     cfNamespace = ''kt-ethquake-phase3-fault-1'', cfArtifacts = Some rxDir,
     cfPollInterval = second, cfHeadHistoryLimit = 128\<rparr>"

definition rxSum :: "string \<Rightarrow> string" where
  "rxSum s = take 32 (mget [] shippedDigests s @ replicate 32 (CHR 0xAB))"

definition rxEncoder :: run_encoder where
  "rxEncoder = \<lparr>printIndented = printText, floatText = exFloatText, timeText = formatTime, digest256 = rxSum\<rparr>"

definition rxStorage :: storage where
  "rxStorage = \<lparr>stHost = \<lparr>serviceHost = [], workingDir = None, evalSymlinks = (\<lambda>p. Some p),
     Lstat = (\<lambda>p. if p = ''/runs'' \<or> p = rxDir then Some DirNode else None), readable = (\<lambda>_. False)\<rparr>, stFault = (\<lambda>_. None), stTick = 0\<rparr>"

section \<open>What is observed\<close>

lemma rxNames: "exTargetNames = [''lighthouse-a'', ''teku-a'', ''lighthouse-b'', ''teku-b'']"
  "targetNames (cfTargets (rxConfig ok)) = [''lighthouse-a'', ''lighthouse-b'', ''teku-a'', ''teku-b'']"
  by code_simp+

abbreviation rxSorted :: "string list" where
  "rxSorted \<equiv> [''lighthouse-a'', ''lighthouse-b'', ''teku-a'', ''teku-b'']"

lemma rxLatest: "latestByTarget (snapBeacon (rxSnap k)) = map (\<lambda>name. (name, exSeen (rxSlot k) (of_nat k) (CHR ''a'') name)) exTargetNames"
  by (simp add: latestByTarget_def latestStep_def rxSnap_def rxNames(1) exSeen_def)

lemma rxSeen: "boTarget (exSeen slot epoch c name) = name" "boCurrentSlot (exSeen slot epoch c name) = slot"
  "finalityEpoch (boFinality (exSeen slot epoch c name)) = epoch"
  by (simp_all add: exSeen_def)

lemma rxAt: "name \<in> set rxSorted \<Longrightarrow> observationAtSlot (snapBeacon (rxSnap k)) name slot =
    (if slot = rxSlot k then Some (exSeen (rxSlot k) (of_nat k) (CHR ''a'') name) else None)"
  by (auto simp: observationAtSlot_def atSlotStep_def rxSnap_def rxNames(1) rxSeen)

lemma rxProbes:
  "specsAndHeads rxSorted (rxSnap k) = Ready"
  "commonLatestSlot (rxSnap k) rxSorted = Some (rxSlot k)"
  "latestSlotExceeds (rxSnap k) rxSorted m = (m < rxSlot k)"
  "exactSlot rxSorted slot (rxSnap k) = (if slot = rxSlot k then Ready else NotYet)"
  "removalSlotOf (rxSnap k) rxSorted slot = (if rxSlot k > slot then rxSlot k else slot)"
  "recoveryOrCensor rxSorted (observationsAtSlotMap (snapBeacon (rxSnap j)) rxSorted (rxSlot j)) censor (rxSnap k) =
     (if (of_nat j :: u64) < of_nat k \<or> censor \<le> rxSlot k then Ready else NotYet)"
  by (simp_all add: specsAndHeads_def commonLatestSlot_def latestSlotExceeds_def exactSlot_def removalSlotOf_def
      recoveryOrCensor_def observationsAtSlotMap_def rxLatest rxAt rxSeen Let_def)
    (simp_all add: rxNames(1) rxSnap_def rxSeen mget_def)

lemma rxWait:
  "waitFor rxEnv ctx p k = (case p (rxSnap k) of Ready \<Rightarrow> Some (Inr (rxSnap k), k)
     | DividesByZero \<Rightarrow> Some (Inl WaitDividesByZero, k)
     | NotYet \<Rightarrow> if k < 20 then waitFor rxEnv ctx p (k + 1) else Some (Inl WaitObserverStopped, k))"
  by (subst waitFor.simps) (simp add: rxEnv_def split: probe.split)

lemma rxEnv_snapshot: "envSnapshot rxEnv k = rxSnap k" "envNow rxEnv k = (exTime, k)"
  by (simp_all add: rxEnv_def)

lemma rxSlots: "rxSlot 0 = 100" "rxSlot (Suc 0) = 101" "rxSlot 2 = 102" "rxSlot 3 = 103" "rxSlot 4 = 104" "rxSlot 5 = 105"
  by (simp_all add: rxSlot_def)

lemma rxWaits:
  "waitFor rxEnv ctx (exactSlot rxSorted 101) 0 = Some (Inr (rxSnap 1), 1)"
  "waitFor rxEnv ctx (exactSlot rxSorted 104) 1 = Some (Inr (rxSnap 4), 4)"
  "waitFor rxEnv ctx (recoveryOrCensor rxSorted (observationsAtSlotMap (snapBeacon (rxSnap 4)) rxSorted 104) 108) 4 =
     Some (Inr (rxSnap 5), 5)"
  "waitFor rxEnv ctx (commonSlot rxSorted 1 0) 0 = Some (Inr (rxSnap 0), 0)"
  "waitFor rxEnv ctx (specsAndHeads rxSorted) 0 = Some (Inr (rxSnap 0), 0)"
proof -
  show "waitFor rxEnv ctx (exactSlot rxSorted 101) 0 = Some (Inr (rxSnap 1), 1)"
    by (simp add: rxWait [of _ _ 0] rxWait [of _ _ "Suc 0"] rxProbes rxSlots)
  show "waitFor rxEnv ctx (exactSlot rxSorted 104) 1 = Some (Inr (rxSnap 4), 4)"
    by (simp add: rxWait [of _ _ "Suc 0"] rxWait [of _ _ 2] rxWait [of _ _ 3] rxWait [of _ _ 4] rxProbes rxSlots flip: numeral_2_eq_2)
  show "waitFor rxEnv ctx (recoveryOrCensor rxSorted (observationsAtSlotMap (snapBeacon (rxSnap 4)) rxSorted 104) 108) 4 =
     Some (Inr (rxSnap 5), 5)"
    using rxProbes(6) [of 4] by (simp add: rxWait [of _ _ 4] rxWait [of _ _ 5] rxSlots)
  show "waitFor rxEnv ctx (commonSlot rxSorted 1 0) 0 = Some (Inr (rxSnap 0), 0)"
    by (simp add: rxWait [of _ _ 0] commonSlot_def rxProbes rxSlots)
  show "waitFor rxEnv ctx (specsAndHeads rxSorted) 0 = Some (Inr (rxSnap 0), 0)"
    by (simp add: rxWait [of _ _ 0] rxProbes)
qed

section \<open>The measured window\<close>

definition rxRequest :: partition_request where
  "rxRequest = \<lparr>prRunID = ''fault-1'', prNamespace = ''kt-ethquake-phase3-fault-1'', prNamespacePrefix = ''kt-ethquake-phase3-'',
     GroupA = [''cl-1-lighthouse-geth'', ''cl-2-teku-reth''], GroupB = [''cl-3-lighthouse-geth'', ''cl-4-teku-reth''],
     TTL = 60 * second\<rparr>"

definition rxMeasurement :: measurement where
  "rxMeasurement = \<lparr>msSpec = rxSpec, msInitial = rxSnap 1, msEnding = rxSnap 4, msStartSlot = 101, msEndSlot = 104,
     msRemovedAt = exTime, msRemovalSlot = 104, msRecoveryComplete = True, msPartition = Some rxRequest\<rparr>"

lemma rxConfig_simps [simp]:
  "inScenario (rxConfig ok) = exScenario" "inRunID (rxConfig ok) = ''fault-1''" "cfFaultBackend (rxConfig ok) = Some (rxBackend ok)"
  "cfArtifacts (rxConfig ok) = Some rxDir" "DurationEpochs (scFault exScenario) = 3"
  "PostFaultObservationEpochs (scMethodology exScenario) = 4"
  by (simp_all add: rxConfig_def exScenario_def shippedScenario_def)

lemma rxRequested: "partitionRequest (rxConfig ok) (60 * second) = rxRequest"
  by (simp add: partitionRequest_def podByParticipant_def rxConfig_def rxRequest_def exPlacement_def exScenario_def
      shippedScenario_def mget_def Let_def)

lemma rxSpec_simps: "SecondsPerSlot rxSpec = 12" "SlotsPerEpoch rxSpec = 1"
  by (simp_all add: rxSpec_def exRuntimeSpec_def)

lemma rxDurations: "runtimeDuration rxSpec 2 = Some (24 * second)" "runtimeDuration rxSpec 4 = Some (48 * second)"
  "runtimeDuration rxSpec 5 = Some (60 * second)"
  by (simp_all add: runtimeDuration_def multiply_def rxSpec_simps second_def)

lemma rxStarted: "rsWorld st = 0 \<Longrightarrow> waitForSpecsAndHeads rxEnv rxSorted st = Some (Inr (rxSnap 0, rxSpec), st)"
proof -
  assume "rsWorld st = 0"
  moreover have "map_of (snapSpecs (rxSnap 0)) ''lighthouse-a'' = Some rxSpec" by (simp add: rxSnap_def rxNames(1))
  moreover from calculation have "st\<lparr>rsWorld := 0\<rparr> = st" by simp
  ultimately show ?thesis by (simp add: waitForSpecsAndHeads_def rxWaits mget_def)
qed

lemma rxMultiply: "multiply 5 1 = (5, False)" "multiply 3 1 = (3, False)" "multiply 4 1 = (4, False)"
  by (simp_all add: multiply_def)

lemma rxBoundary:
  assumes "rsWorld st = 0"
  shows "faultBoundary rxEnv (rxConfig ok) rxSorted rxSpec ctx st =
     Some (Inr (rxSnap 1, 101, rxRequest), st\<lparr>rsWorld := 1, rsFaultApplied := Some rxRequest,
        rsFaultCalls := rsFaultCalls st @ [AppliedFault rxRequest True]\<rparr>)"
proof -
  have "st\<lparr>rsWorld := 0\<rparr> = st" using assms by simp
  then show ?thesis
    by (simp add: faultBoundary_def injectFault_def injectedBoundary_def applyFault_def await_def wrapE_def rxWaits rxProbes
        rxSlots rxSpec_simps rxMultiply rxDurations assms rxBackend_def rxRequested isOk_def rxEnv_snapshot commonSlot_def)
qed

lemma rxPrimary:
  assumes "rsWorld st = Suc 0"
  shows "primaryWindow rxEnv (rxConfig ok) rxSorted rxSpec 101 st = Some (Inr (rxSnap 4, 104), st\<lparr>rsWorld := 4\<rparr>)"
  using rxWaits(2) by (simp add: primaryWindow_def await_def wrapE_def rxSpec_simps rxMultiply rxDurations assms)

lemma rxRecovery:
  assumes "rsWorld st = 4"
  shows "recoveryWindow rxEnv (rxConfig True) rxSorted rxSpec q (rxSnap 4) 104 st =
     Some (Inr (exTime, 104, True), st\<lparr>rsWorld := 5, rsFaultApplied := None,
       rsFaultCalls := rsFaultCalls st @ [RevertedFault False q True]\<rparr>)"
  by (simp add: recoveryWindow_def revertFault_def rxBackend_def rxEnv_snapshot isOk_def rxProbes(5) rxSlots rxSpec_simps
      rxMultiply rxDurations rxWaits(3) assms Let_def)

lemma rxMeasured:
  assumes "rsWorld st = 0"
  shows "measureRun rxEnv (rxConfig True) ConditionFault st =
     Some (Inr (rxMeasurement), st\<lparr>rsWorld := 5, rsFaultApplied := None,
        rsFaultCalls := rsFaultCalls st @ [AppliedFault rxRequest True, RevertedFault False rxRequest True]\<rparr>)"
  by (simp add: measureRun_def measureFault_def rxNames(2) rxStarted [OF assms] rxBoundary [OF assms] rxPrimary rxRecovery
      rxSpec_simps rxDurations rxMeasurement_def Let_def)

theorem measureRun_window_witness:
  "SlotsPerEpoch rxSpec \<noteq> 0 \<and> unat (104 :: u64) = unat (101 :: u64) + unat (3 :: u64) * unat (SlotsPerEpoch rxSpec)"
  using measureRun_window [OF rxMeasured [of "startState 0 rxStorage"]]
  by (simp add: rxMeasurement_def startState_def)

section \<open>What is stored\<close>

text \<open>The disk after files were written, by their contents in the order of writing.\<close>

definition rxDisk :: "(string \<times> string) list \<Rightarrow> nat \<Rightarrow> storage" where
  "rxDisk fs n = rxStorage\<lparr>stHost := foldl (\<lambda>h (name, bytes). withFile h (rxDir @ slash # name) bytes) (stHost rxStorage) fs,
     stTick := n\<rparr>"

lemma rxDisk_host:
  "Lstat (stHost (rxDisk fs n)) (rxDir @ slash # name) = (case map_of (rev fs) name of Some data \<Rightarrow> Some (FileNode data) | None \<Rightarrow> None)"
  "readable (stHost (rxDisk fs n)) (rxDir @ slash # name) = (name \<in> fst ` set fs)"
  "stFault (rxDisk fs n) k = None"
proof -
  have "Lstat (stHost rxStorage) (rxDir @ slash # name) = None" "\<not> readable (stHost rxStorage) (rxDir @ slash # name)"
    by (simp_all add: rxStorage_def rxDir_def)
  then have "Lstat (stHost (rxDisk fs n)) (rxDir @ slash # name) = (case map_of (rev fs) name of Some data \<Rightarrow> Some (FileNode data) | None \<Rightarrow> None) \<and>
      readable (stHost (rxDisk fs n)) (rxDir @ slash # name) = (name \<in> fst ` set fs)"
    by (induction fs rule: rev_induct) (auto simp: rxDisk_def case_prod_unfold)
  then show "Lstat (stHost (rxDisk fs n)) (rxDir @ slash # name) = (case map_of (rev fs) name of Some data \<Rightarrow> Some (FileNode data) | None \<Rightarrow> None)"
    "readable (stHost (rxDisk fs n)) (rxDir @ slash # name) = (name \<in> fst ` set fs)" by blast+
  show "stFault (rxDisk fs n) k = None" by (simp add: rxDisk_def rxStorage_def)
qed

lemma rxPath: "safeFileName name \<Longrightarrow> Join rxDir name = rxDir @ slash # name"
proof -
  assume "safeFileName name"
  then have "name \<noteq> []" "name \<noteq> ''.''" "name \<noteq> ''..''" "slash \<notin> set name"
    using safeFileName_slash [of name] by (auto simp: safeFileName_def)
  moreover have "IsAbs rxDir" "Clean rxDir = rxDir" "rxDir \<noteq> [slash]" by code_simp+
  ultimately show ?thesis using Join_child [of name rxDir] by simp
qed

lemma rxDisk_update:
  "(rxDisk fs n)\<lparr>stTick := m\<rparr> = rxDisk fs m"
  "(rxDisk fs n)\<lparr>stHost := withFile (stHost (rxDisk fs n)) (rxDir @ slash # name) data\<rparr> = rxDisk (fs @ [(name, data)]) n"
  "stTick (rxDisk fs n) = n"
  by (simp_all add: rxDisk_def)

lemma rxWrites:
  assumes "safeFileName name" "map_of (rev fs) name = None"
  shows "CreateFile rxDir name (rxDisk fs n) = (Inr (rxDir @ slash # name), rxDisk (fs @ [(name, [])]) (n + 1))"
    "WriteJSON rxDir name (Some bytes) (rxDisk fs n) = (Inr (), rxDisk (fs @ [(name, bytes)]) (n + 4))"
    "Artifact_Write rxDir name (Some bytes) (rxDisk fs n) = (Inr (), rxDisk (fs @ [(name, bytes)]) (n + 4))"
proof -
  have free: "Lstat (stHost (rxDisk fs n)) (Join rxDir name) = None" using assms by (simp add: rxPath rxDisk_host)
  show "CreateFile rxDir name (rxDisk fs n) = (Inr (rxDir @ slash # name), rxDisk (fs @ [(name, [])]) (n + 1))"
    using CreateFile_ok [OF _ assms(1) free] by (simp add: rxDisk_host rxDisk_update rxPath assms(1))
  show "WriteJSON rxDir name (Some bytes) (rxDisk fs n) = (Inr (), rxDisk (fs @ [(name, bytes)]) (n + 4))"
    "Artifact_Write rxDir name (Some bytes) (rxDisk fs n) = (Inr (), rxDisk (fs @ [(name, bytes)]) (n + 4))"
    using write_ok [OF _ assms(1) free, of bytes] by (simp_all add: rxDisk_host rxDisk_update rxPath assms(1))
qed

section \<open>A run whose fault cannot be reverted\<close>

abbreviation rxRaw :: string where "rxRaw \<equiv> ''raw-timeseries.jsonl''"

definition rxPrepared :: "nat runner_state" where
  "rxPrepared = \<lparr>rsWorld = 0,
     rsStorage = rxDisk [(''scenario.yaml'', ''yaml''),
       (''realized-split.json'', printIndented rxEncoder (splitJSON exFloatText exSplit)), (rxRaw, [])] 9,
     rsRawFile = Some (rxDir @ slash # rxRaw), rsObserverRunning = True, rsFaultApplied = None, rsFaultCalls = []\<rparr>"

lemma rxSplit: "CalculateRealizedSplit exScenario (cfValidatorRanges (rxConfig ok)) exActives = Inr exSplit"
  "encodeSplit rxEncoder exSplit = Some (printIndented rxEncoder (splitJSON exFloatText exSplit))"
  "rsWithinTolerance exSplit"
proof -
  show "CalculateRealizedSplit exScenario (cfValidatorRanges (rxConfig ok)) exActives = Inr exSplit"
    using exSplit_calculated by (simp add: rxConfig_def)
  have "finiteFloats exSplit" by code_simp
  then show "encodeSplit rxEncoder exSplit = Some (printIndented rxEncoder (splitJSON exFloatText exSplit))"
    by (simp add: encodeSplit_def rxEncoder_def)
  show "rsWithinTolerance exSplit" by (simp add: exSplit_def)
qed

lemma rxObserver: "\<exists>ob. New (cfTargets (rxConfig ok)) (Some ()) \<lparr>PollInterval = cfPollInterval (rxConfig ok),
    HeadHistoryLimit = cfHeadHistoryLimit (rxConfig ok)\<rparr> = Inr ob"
proof -
  have "case New (cfTargets (rxConfig ok)) (Some ()) \<lparr>PollInterval = cfPollInterval (rxConfig ok),
    HeadHistoryLimit = cfHeadHistoryLimit (rxConfig ok)\<rparr> of Inl _ \<Rightarrow> False | Inr _ \<Rightarrow> True" by (cases ok; simp only:) code_simp+
  then show ?thesis by (auto split: sum.splits)
qed

lemma rxStores:
  assumes "rsStorage st = rxDisk fs n" "safeFileName name" "map_of (rev fs) name = None"
  shows "storeBytes rxDir name bytes st = Some (Inr (), st\<lparr>rsStorage := rxDisk (fs @ [(name, bytes)]) (n + 4)\<rparr>)"
    "storeJSON rxDir name (Some bytes) st = Some (Inr (), st\<lparr>rsStorage := rxDisk (fs @ [(name, bytes)]) (n + 4)\<rparr>)"
    "name = rxRaw \<Longrightarrow> openRaw rxDir st = Some (Inr (), st\<lparr>rsStorage := rxDisk (fs @ [(name, [])]) (n + 1), rsRawFile := Some (rxDir @ slash # name)\<rparr>)"
  using rxWrites [OF assms(2,3)] by (simp_all add: storeBytes_def storeJSON_def openRaw_def wrapE_def assms(1))

lemma rxSafe: "safeFileName ''scenario.yaml''" "safeFileName ''realized-split.json''" "safeFileName rxRaw"
    "safeFileName ''manifest.json''" "safeFileName ''metadata.json''" "safeFileName ''checksums.json''"
  by code_simp+

lemma rxPrepare: "prepareRun rxEnv rxEncoder (rxConfig ok) (startState 0 rxStorage) = Some (Inr (3151908, exSplit), rxPrepared)"
proof -
  have start: "startState 0 rxStorage = \<lparr>rsWorld = 0, rsStorage = rxDisk [] 0, rsRawFile = None, rsObserverRunning = False,
     rsFaultApplied = None, rsFaultCalls = []\<rparr>"
    by (simp add: startState_def rxDisk_def rxStorage_def)
  have inputs: "cfChainIDClient (rxConfig ok) = Some (\<lambda>k. (Inr 3151908, k))" "cfValidatorClient (rxConfig ok) = Some (\<lambda>k. (Inr exActives, k))"
    "cfScenarioYAML (rxConfig ok) = ''yaml''" "target_spec.ChainID (scTarget exScenario) = 3151908"
    by (simp_all add: rxConfig_def exScenario_def shippedScenario_def)
  obtain ob where "New (cfTargets (rxConfig ok)) (Some ()) \<lparr>PollInterval = cfPollInterval (rxConfig ok),
    HeadHistoryLimit = cfHeadHistoryLimit (rxConfig ok)\<rparr> = Inr ob" using rxObserver by blast
  note new = this [unfolded inputs]
  have observe: "startObserver rxEnv (rxConfig ok) st = Some (Inr (), st\<lparr>rsObserverRunning := True\<rparr>)"
    for st :: "nat runner_state"
    by (simp add: startObserver_def new) (simp add: rxEnv_def)
  define s0 where "s0 = startState (0 :: nat) rxStorage"
  define s1 where "s1 = s0\<lparr>rsStorage := rxDisk [(''scenario.yaml'', ''yaml'')] 4\<rparr>"
  define s2 where "s2 = s1\<lparr>rsStorage := rxDisk [(''scenario.yaml'', ''yaml''),
       (''realized-split.json'', printIndented rxEncoder (splitJSON exFloatText exSplit))] 8\<rparr>"
  have "storeBytes rxDir ''scenario.yaml'' ''yaml'' s0 = Some (Inr (), s1)"
    using rxStores(1) [OF _ rxSafe(1), of s0 "[]" 0] by (simp add: s0_def s1_def start)
  moreover have "storeJSON rxDir ''realized-split.json'' (encodeSplit rxEncoder exSplit) s1 = Some (Inr (), s2)"
    using rxStores(2) [OF _ rxSafe(2), of s1 "[(''scenario.yaml'', ''yaml'')]" 4] by (simp add: s1_def s2_def rxSplit)
  moreover have "openRaw rxDir s2 = Some (Inr (), rxPrepared\<lparr>rsObserverRunning := False\<rparr>)"
    using rxStores(3) [OF _ rxSafe(3), of s2 "[(''scenario.yaml'', ''yaml''),
       (''realized-split.json'', printIndented rxEncoder (splitJSON exFloatText exSplit))]" 8]
    by (simp add: s0_def s1_def s2_def start rxPrepared_def)
  moreover have "(rxPrepared\<lparr>rsObserverRunning := False\<rparr>)\<lparr>rsObserverRunning := True\<rparr> = rxPrepared" by (simp add: rxPrepared_def)
  moreover have "s0\<lparr>rsWorld := 0\<rparr> = s0" "rsWorld s0 = 0" by (simp_all add: s0_def start)
  ultimately show ?thesis
    unfolding s0_def [symmetric] prepareRun_def inputs option.case prod.case rxConfig_simps Let_def
    by (simp only: prod.case sum.case simp_thms if_False rxSplit(1,2)) (simp add: rxSplit(3) observe)
qed

lemma rxDependencies: "ValidateDependencyMetadata exMetadata = Inr ()"
  by code_simp

lemma rxIdentity: "runIdentity ''fault-1'' (RunOrder (scMethodology exScenario)) = Some (ConditionFault, 1)"
  by (simp add: runIdentity_def exScenario_def shippedScenario_def code_def ConditionFault_def ConditionControl_def)

lemma rxScenario_ok: "Scenario_Validate rxSum exScenario = Inr ()"
  by code_simp

lemma rxValid: "validateConfig (digest256 rxEncoder) (rxConfig ok) = Inr (ConditionFault, 1)"
proof -
  have "each (targetStep (map BeaconTarget (scParticipants exScenario)))
      (map (\<lambda>name. \<lparr>tgtName = name, tgtClient = Some ()\<rparr>) exTargetNames) [] = Inr (rev exTargetNames)"
    "length exTargetNames = 4" "NamespacePrefix (scTarget exScenario) @ ''fault-1'' = ''kt-ethquake-phase3-fault-1''"
    by (simp_all add: targetStep_def exScenario_def shippedScenario_def rxNames(1))
  then show ?thesis
    by (simp add: rxDependencies rxIdentity validateConfig_def rxConfig_def rxEncoder_def rxScenario_ok exPlacements_ok wrapE_def second_def)
qed

lemma rxNotRemoved:
  assumes "rsWorld st = 0"
  shows "measureRun rxEnv (rxConfig False) ConditionFault st =
     Some (Inl (RemoveFailed (DeleteFailed [])), st\<lparr>rsWorld := 4, rsFaultApplied := Some rxRequest,
        rsFaultCalls := rsFaultCalls st @ [AppliedFault rxRequest True, RevertedFault False rxRequest False]\<rparr>)"
proof -
  have "recoveryWindow rxEnv (rxConfig False) rxSorted rxSpec q (rxSnap 4) 104 st' =
     Some (Inl (RemoveFailed (DeleteFailed [])), st'\<lparr>rsFaultCalls := rsFaultCalls st' @ [RevertedFault False q False]\<rparr>)"
    for q and st' :: "nat runner_state"
    by (simp add: recoveryWindow_def revertFault_def rxBackend_def isOk_def failRun_def)
  then show ?thesis
    by (simp add: measureRun_def measureFault_def rxNames(2) rxStarted [OF assms] rxBoundary [OF assms] rxPrimary
        rxSpec_simps rxDurations Let_def)
qed

lemma rxEnv_stop: "envStopObserver rxEnv k = (None, k)" "envCloseRaw rxEnv k = ((True, ''raw''), k)"
  by (simp_all add: rxEnv_def)

lemma rxFailedRun:
  "\<exists>st. Runner_Run rxEnv rxEncoder (rxConfig False) (startState 0 rxStorage) =
     Some (Inl [RunFailed (RemoveFailed (DeleteFailed [])), RevertFailed (DeleteFailed [])], st) \<and>
   rsFaultCalls st = [AppliedFault rxRequest True, RevertedFault False rxRequest False, RevertedFault True rxRequest False]"
proof -
  have world: "rsWorld rxPrepared = 0" "rsFaultCalls rxPrepared = []" "rsObserverRunning rxPrepared"
    "rsRawFile rxPrepared = Some (rxDir @ slash # rxRaw)" by (simp_all add: rxPrepared_def)
  have "runBody rxEnv rxEncoder (rxConfig False) (startState 0 rxStorage) =
     Some (Inl (RemoveFailed (DeleteFailed [])), rxPrepared\<lparr>rsWorld := 4, rsFaultApplied := Some rxRequest,
        rsFaultCalls := [AppliedFault rxRequest True, RevertedFault False rxRequest False]\<rparr>)"
    by (simp add: runBody_def rxValid rxPrepare rxNotRemoved world)
  then show ?thesis
    by (simp add: Runner_Run_def exitRun_def revertAtExit_def revertFault_def rxBackend_def isOk_def world
        stopObserver_def closeRaw_def rxEnv_stop)
qed

theorem Run_fault_removed_witness:
  "\<exists>st. rsFaultCalls st = [AppliedFault rxRequest True, RevertedFault False rxRequest False, RevertedFault True rxRequest False] \<and>
     \<not> rsObserverRunning (st :: nat runner_state) \<and> rsRawFile st = None"
proof -
  obtain st where st: "Runner_Run rxEnv rxEncoder (rxConfig False) (startState 0 rxStorage) =
     Some (Inl [RunFailed (RemoveFailed (DeleteFailed [])), RevertFailed (DeleteFailed [])], st)"
   "rsFaultCalls st = [AppliedFault rxRequest True, RevertedFault False rxRequest False, RevertedFault True rxRequest False]"
    using rxFailedRun by (elim exE conjE)
  from Run_fault_removed [OF st(1)] have "\<not> rsObserverRunning st \<and> rsRawFile st = None" by (elim conjE) (intro conjI)
  then show ?thesis using st(2) by blast
qed

section \<open>It returns\<close>

lemma rxSettles: "settles rxEnv ctx k"
proof (cases "k < 20")
  case True
  have "settles rxEnv ctx (20 - d)" for d
  proof (induction d)
    case 0
    show ?case by (rule settles.Interrupted [of _ _ _ ObserverStopped 20]) (simp_all add: rxEnv_def)
  next
    case (Suc d)
    show ?case
    proof (cases "d < 20")
      case True
      then have "20 - d = 20 - Suc d + 1" by linarith
      with Suc have "settles rxEnv ctx (20 - Suc d + 1)" by simp
      then show ?thesis by (rule settles.Woken [rotated]) (use True in \<open>simp add: rxEnv_def\<close>)
    next
      case False
      with Suc show ?thesis by simp
    qed
  qed
  from this [of "20 - k"] True show ?thesis by simp
next
  case False
  then show ?thesis by (intro settles.Interrupted [of _ _ _ ObserverStopped k]) (simp_all add: rxEnv_def)
qed

theorem Run_returns_witness: "\<exists>res st. Runner_Run rxEnv rxEncoder (rxConfig True) (startState 0 rxStorage) = Some (res, st)"
  by (rule Run_returns) (rule rxSettles)

end
