(* ===== verification/StorageExamples.thy ===== *)
theory StorageExamples
  imports Artifact Assertion EvidenceExamples
begin

text \<open>
  A file that is written, a run directory that is created, and a root that only its resolved name
  shows to be cluster storage; a plan over two observations.
\<close>

section \<open>Storage\<close>

definition sxStorage :: "string \<Rightarrow> string \<Rightarrow> storage" where
  "sxStorage path resolved = \<lparr>stHost = \<lparr>serviceHost = [], workingDir = None,
     evalSymlinks = (\<lambda>p. if p = path then Some resolved else Some p),
     Lstat = (\<lambda>p. if p = path \<or> p = resolved then Some DirNode else None), readable = (\<lambda>_. False)\<rparr>,
     stFault = (\<lambda>_. None), stTick = 0\<rparr>"

theorem Artifact_written_witness:
  "readRegularArtifact (stHost (snd (WriteJSON ''/runs'' ''a.json'' (Some ''bytes'') (sxStorage ''/runs'' ''/runs''))))
     ''/runs'' ''a.json'' = Inr ''bytes''"
proof -
  let ?st = "sxStorage ''/runs'' ''/runs''"
  have n: "safeFileName ''a.json''" "Lstat (stHost ?st) (Join ''/runs'' ''a.json'') = None" by code_simp+
  have w: "WriteJSON ''/runs'' ''a.json'' (Some ''bytes'') ?st = (Inr (), snd (WriteJSON ''/runs'' ''a.json'' (Some ''bytes'') ?st))"
    using write_ok(1) [OF _ n, of "''bytes''"] by (simp add: sxStorage_def)
  show ?thesis using Artifact_written [OF disjI2 [OF w]] by (elim conjE) (drule mp, rule refl)
qed

lemma sxCreated: "fst (Artifact_Create ''/runs'' ''fault-1'' (sxStorage ''/runs'' ''/runs'')) = Inr ''/runs/fault-1''"
  by code_simp

theorem Create_fresh_witness:
  "Lstat (stHost (snd (Artifact_Create ''/runs'' ''fault-1'' (sxStorage ''/runs'' ''/runs'')))) ''/runs/fault-1'' = Some DirNode"
proof -
  have "Artifact_Create ''/runs'' ''fault-1'' (sxStorage ''/runs'' ''/runs'') =
      (Inr ''/runs/fault-1'', snd (Artifact_Create ''/runs'' ''fault-1'' (sxStorage ''/runs'' ''/runs'')))"
    using sxCreated by (metis prod.collapse)
  from Create_fresh [OF this] show ?thesis by (elim conjE exE)
qed

text \<open>
  \<^verbatim>\<open>Create\<close> looks for cluster storage in the name of the root before it resolves the links of its
  parents, the loader after. Below a link into that storage a run directory is created, with all the
  evidence of the run, and the loader then refuses it.
\<close>

theorem Create_through_link:
  "fst (Artifact_Create ''/data/evidence'' ''fault-1'' (sxStorage ''/data/evidence'' ''/home/.kurtosis/evidence'')) =
     Inr ''/home/.kurtosis/evidence/fault-1'' \<and>
   LoadRunSummaries cd (stHost (snd (Artifact_Create ''/data/evidence'' ''fault-1''
      (sxStorage ''/data/evidence'' ''/home/.kurtosis/evidence'')))) ''/data/evidence'' s = Inl RootIsClusterStorage"
proof
  let ?st = "sxStorage ''/data/evidence'' ''/home/.kurtosis/evidence''"
  let ?h = "stHost (snd (Artifact_Create ''/data/evidence'' ''fault-1'' ?st))"
  show "fst (Artifact_Create ''/data/evidence'' ''fault-1'' ?st) = Inr ''/home/.kurtosis/evidence/fault-1''" by code_simp
  have "serviceHost ?h = []" "Abs ?h ''/data/evidence'' = Some ''/data/evidence''" "Lstat ?h ''/data/evidence'' = Some DirNode"
    "evalSymlinks ?h ''/data/evidence'' = Some ''/home/.kurtosis/evidence''" "clusterStorage ''/home/.kurtosis/evidence''"
    by code_simp+
  then show "LoadRunSummaries cd ?h ''/data/evidence'' s = Inl RootIsClusterStorage"
    by (simp add: LoadRunSummaries_def)
qed

section \<open>Assertions\<close>

definition sxPlan :: assertion_plan where
  "sxPlan = \<lparr>FinalityMustAdvanceTargets = [''teku''], RequireHeadComparison = False, RequireNoMeasurementGaps = True\<rparr>"

definition sxDataset :: assertion_dataset where
  "sxDataset = \<lparr>BeaconObservations = [(tiedObservation 4)\<lparr>boTimestamp := 2\<rparr>, (tiedObservation 3)\<lparr>boTimestamp := 1\<rparr>],
     HeadComparisons = [], adMeasurementGaps = [], Reorgs = []\<rparr>"

theorem Evaluate_verdict_witness:
  "\<exists>r. Evaluate sort_key sxPlan sxDataset = Inr r \<and> resultPassed r"
proof -
  have "(\<exists>r. Evaluate sort_key sxPlan sxDataset = Inr r)" by (simp add: Evaluate_accepts sxPlan_def)
  then obtain r where r: "Evaluate sort_key sxPlan sxDataset = Inr r" ..
  have "inj_on boTimestamp {ob \<in> set (BeaconObservations sxDataset). boTarget ob = target}" for target
    by (auto simp: inj_on_def sxDataset_def)
  then have "resultPassed r \<longleftrightarrow>
     (\<forall>target \<in> set (FinalityMustAdvanceTargets sxPlan). \<exists>first. advancedAfter (BeaconObservations sxDataset) target first) \<and>
     (RequireHeadComparison sxPlan \<longrightarrow> HeadComparisons sxDataset \<noteq> []) \<and>
     (RequireNoMeasurementGaps sxPlan \<longrightarrow> adMeasurementGaps sxDataset = [])"
    by (intro Evaluate_verdict [OF stable.slice_sort_axioms r]) blast
  moreover have "advancedAfter (BeaconObservations sxDataset) ''teku'' ((tiedObservation 3)\<lparr>boTimestamp := 1\<rparr>)"
    by (simp add: advancedAfter_def sxDataset_def tiedObservation_def)
  ultimately show ?thesis using r by (auto simp: sxPlan_def sxDataset_def)
qed

end
