(* ===== verification/PlainJson.thy ===== *)
theory PlainJson
  imports RunFiles
begin

text \<open>
  The JSON values that survive \<^verbatim>\<open>encoding/json\<close>: their strings are valid UTF-8 (the encoder replaces
  other bytes), their numbers are JSON numbers, and they are not nested deeper than the decoder allows.
\<close>

section \<open>Text and numbers\<close>

definition byteIn :: "nat \<Rightarrow> nat \<Rightarrow> char \<Rightarrow> bool" where
  "byteIn low high c \<longleftrightarrow> low \<le> code c \<and> code c \<le> high"

text \<open>\<^verbatim>\<open>utf8.ValidString\<close>: one to four bytes, no surrogates, no overlong form.\<close>

fun validUTF8 :: "string \<Rightarrow> bool" where
  "validUTF8 [] = True"
| "validUTF8 (a # r) =
     (if code a < 128 then validUTF8 r
      else case r of [] \<Rightarrow> False | b # r1 \<Rightarrow>
        if byteIn 194 223 a then byteIn 128 191 b \<and> validUTF8 r1
        else case r1 of [] \<Rightarrow> False | c # r2 \<Rightarrow>
          if byteIn 224 239 a
          then byteIn (if code a = 224 then 160 else 128) (if code a = 237 then 159 else 191) b \<and> byteIn 128 191 c \<and> validUTF8 r2
          else case r2 of [] \<Rightarrow> False | d # r3 \<Rightarrow>
            byteIn 240 244 a \<and> byteIn (if code a = 240 then 144 else 128) (if code a = 244 then 143 else 191) b \<and>
            byteIn 128 191 c \<and> byteIn 128 191 d \<and> validUTF8 r3)"

definition ascii :: "string \<Rightarrow> bool" where
  "ascii s \<longleftrightarrow> list_all (\<lambda>c. code c < 128) s"

lemma ascii_simps [simp]:
  "ascii []" "ascii (c # s) \<longleftrightarrow> code c < 128 \<and> ascii s" "ascii (s @ t) \<longleftrightarrow> ascii s \<and> ascii t"
  by (simp_all add: ascii_def)

lemma ascii_replicate [simp]: "ascii (replicate n c) \<longleftrightarrow> n = 0 \<or> code c < 128"
  by (induction n) auto

lemma ascii_validUTF8: "ascii s \<Longrightarrow> validUTF8 s"
  by (induction s) (auto simp: ascii_def)

lemma ascii_FormatUint [simp]: "ascii (FormatUint x)"
  using formatDigits_digits [of "uint x"] by (fastforce simp: ascii_def FormatUint_def list_all_iff isDigit_def)

text \<open>The grammar of a number: an optional sign, digits without a leading zero, fraction, exponent.\<close>

definition digitsThen :: "(string \<Rightarrow> bool) \<Rightarrow> string \<Rightarrow> bool" where
  "digitsThen next s \<longleftrightarrow> takeWhile isDigit s \<noteq> [] \<and> next (dropWhile isDigit s)"

definition exponentPart :: "string \<Rightarrow> bool" where
  "exponentPart s = (case s of [] \<Rightarrow> True
     | e # r \<Rightarrow> e \<in> {CHR ''e'', CHR ''E''} \<and>
         digitsThen (\<lambda>t. t = []) (case r of [] \<Rightarrow> [] | c # t \<Rightarrow> if c \<in> {CHR ''+'', CHR ''-''} then t else r))"

definition fractionPart :: "string \<Rightarrow> bool" where
  "fractionPart s = (case s of [] \<Rightarrow> True | c # r \<Rightarrow> if c = CHR ''.'' then digitsThen exponentPart r else exponentPart s)"

definition unsignedNumber :: "string \<Rightarrow> bool" where
  "unsignedNumber s = (case s of [] \<Rightarrow> False | c # r \<Rightarrow> if c = CHR ''0'' then fractionPart r else digitsThen fractionPart s)"

definition jsonNumber :: "string \<Rightarrow> bool" where
  "jsonNumber s = (case s of [] \<Rightarrow> False | c # r \<Rightarrow> if c = CHR ''-'' then unsignedNumber r else unsignedNumber s)"

lemma formatDigits_hd: "0 < n \<Longrightarrow> hd (formatDigits n) \<noteq> CHR ''0'' \<and> hd (formatDigits n) \<noteq> CHR ''-''"
proof (induction n rule: formatDigits.induct)
  case (1 n)
  show ?case
  proof (cases "n < 10")
    case True
    then have "code (char_of (48 + n)) = nat (48 + n)" using "1.prems" by (intro code_char_of_int) auto
    moreover have "code (CHR ''0'') = 48" "code (CHR ''-'') = 45" by (simp_all add: code_def)
    ultimately have "char_of (48 + n) \<noteq> CHR ''0''" "char_of (48 + n) \<noteq> CHR ''-''" using "1.prems" by auto
    then show ?thesis using True by (simp add: formatDigits.simps [of n])
  next
    case False
    then have "0 < n div 10" by (simp add: pos_imp_zdiv_pos_iff)
    with 1(1) [OF False] False show ?thesis by (simp add: formatDigits.simps [of n] formatDigits_ne)
  qed
qed

lemma jsonNumber_FormatUint: "jsonNumber (FormatUint x)"
proof (cases "x = 0")
  case True
  have "formatDigits 0 = ''0''" by (subst formatDigits.simps) (simp add: char_of_def)
  then show ?thesis using True
    by (simp add: FormatUint_def jsonNumber_def unsignedNumber_def fractionPart_def)
next
  case False
  let ?s = "formatDigits (uint x)"
  have digits: "\<forall>c \<in> set ?s. isDigit c" by (auto intro: formatDigits_digits [of "uint x"])
  then have "takeWhile isDigit ?s = ?s" by (simp only: takeWhile_eq_all_conv)
  moreover from digits have "dropWhile isDigit ?s = []" by (simp only: dropWhile_eq_Nil_conv)
  ultimately have d: "digitsThen fractionPart ?s"
    unfolding digitsThen_def by (simp only: formatDigits_ne) (simp add: fractionPart_def)
  have "uint x \<noteq> 0" using False by (simp add: uint_0_iff)
  then have "0 < uint x" using uint_nonnegative [of x] by linarith
  note formatDigits_hd [OF this]
  then show ?thesis using d formatDigits_ne [of "uint x"]
    by (cases ?s) (auto simp: FormatUint_def jsonNumber_def unsignedNumber_def)
qed

section \<open>Values\<close>

fun plainJSON :: "json \<Rightarrow> bool" where
  "plainJSON (JNum s) = jsonNumber s"
| "plainJSON (JStr s) = validUTF8 s"
| "plainJSON (JArr js) = (\<forall>j \<in> set js. plainJSON j)"
| "plainJSON (JObj kvs) = (\<forall>(k, j) \<in> set kvs. validUTF8 k \<and> plainJSON j)"
| "plainJSON j = True"

fun nestedWithin :: "nat \<Rightarrow> json \<Rightarrow> bool" where
  "nestedWithin n (JArr js) = (0 < n \<and> (\<forall>j \<in> set js. nestedWithin (n - 1) j))"
| "nestedWithin n (JObj kvs) = (0 < n \<and> (\<forall>(k, j) \<in> set kvs. nestedWithin (n - 1) j))"
| "nestedWithin n j = True"

text \<open>The decoder of \<^verbatim>\<open>encoding/json\<close> refuses more than 10000 levels.\<close>

definition survives :: "json \<Rightarrow> bool" where
  "survives j \<longleftrightarrow> plainJSON j \<and> nestedWithin 10000 j"

lemma plain_uint [simp]: "plainJSON (uint64JSON x)" "nestedWithin n (uint64JSON x)"
  by (simp_all add: uint64JSON_def jsonNumber_FormatUint)

lemma plain_jsonMap: "plainJSON (jsonMap f m) \<longleftrightarrow> (\<forall>(k, v) \<in> set m. validUTF8 k \<and> plainJSON (f v))"
  by (auto simp: jsonMap_def)

lemma nested_jsonMap: "nestedWithin n (jsonMap f m) \<longleftrightarrow> 0 < n \<and> (\<forall>(k, v) \<in> set m. nestedWithin (n - 1) (f v))"
  by (auto simp: jsonMap_def)

lemma hex_validUTF8: "lowerHexN s n \<Longrightarrow> validUTF8 s"
  by (rule ascii_validUTF8) (auto simp: ascii_def lowerHexN_def isHexLower_def isDigit_def list_all_iff)

lemma nested_dependency: "nestedWithin 9999 (dependencyJSON d)"
  by (simp add: dependencyJSON_def nested_jsonMap split_beta)

lemma nested_split: "1000 \<le> n \<Longrightarrow> nestedWithin n (splitJSON fmtF s)"
  by (simp add: splitJSON_def)

lemma nested_run: "nestedWithin 10000 (runJSON fmtF fmtT run)"
  by (simp add: runJSON_def nested_split nested_dependency targetJSON_def split: option.split)

lemma nested_metadata: "nestedWithin 10000 (runMetadataJSON m)"
  by (simp add: runMetadataJSON_def nested_dependency beaconSpecJSON_def beaconGenesisJSON_def placementJSON_def nested_jsonMap split_beta)

lemma plain_run_split: "plainJSON (runJSON fmtF fmtT run) \<Longrightarrow> plainJSON (splitJSON fmtF (RealizedSplit run))"
  by (simp add: runJSON_def)

lemma plain_run_parts:
  "plainJSON (runJSON fmtF fmtT run) \<Longrightarrow> validUTF8 (RunID run) \<and> plainJSON (dependencyJSON (Dependencies run))"
  by (simp add: runJSON_def)

lemma plain_run: "plainJSON (runJSON fmtF fmtT r) \<longleftrightarrow>
     list_all validUTF8 ([rnSchemaVersion r, RunID r, Condition r, fmtT (StartedAt (rnWindow r)), fmtT (EndedAt (rnWindow r))] @
       MeasurementGaps r) \<and>
     list_all (\<lambda>t. list_all validUTF8 [resTarget t, resCLClient t, resGroup t]) (rnTargets r) \<and>
     plainJSON (splitJSON fmtF (RealizedSplit r)) \<and> plainJSON (dependencyJSON (Dependencies r))"
  by (auto simp: runJSON_def targetJSON_def list_all_iff code_def split: option.split)

end
