(* ===== verification/RunEvidence.thy ===== *)
theory RunEvidence
  imports RunWindow PlainJson
begin

text \<open>
  From the run to its evidence: what a run that returns a summary has left in its directory is
  accepted by the loader, and read back as that summary.
\<close>

section \<open>What is kept while the run measures\<close>

definition sameStore :: "'w runner_state \<Rightarrow> 'w runner_state \<Rightarrow> bool" where
  "sameStore st st' \<longleftrightarrow> rsStorage st' = rsStorage st \<and> rsRawFile st' = rsRawFile st"

lemma sameStore_trans: "transp sameStore"
  by (auto simp: transp_def sameStore_def)

lemma sameStore_updates [simp]:
  "sameStore st st" "sameStore st (st'\<lparr>rsWorld := w\<rparr>) = sameStore st st'" "sameStore (st\<lparr>rsWorld := w\<rparr>) st' = sameStore st st'"
  "sameStore st (st'\<lparr>rsObserverRunning := b\<rparr>) = sameStore st st'" "sameStore st (st'\<lparr>rsFaultCalls := c\<rparr>) = sameStore st st'"
  "sameStore st (st'\<lparr>rsFaultApplied := q\<rparr>) = sameStore st st'"
  by (simp_all add: sameStore_def)

lemma fault_sameStore:
  "applyFault be q st = (r, st') \<Longrightarrow> sameStore st st'" "revertFault be d q st = (r, st') \<Longrightarrow> sameStore st st'"
  "stopObserver env st = (e, st') \<Longrightarrow> sameStore st st'"
  by (auto simp: applyFault_def revertFault_def stopObserver_def split: prod.splits if_splits)

lemma moved_step: "transp R \<Longrightarrow> R st s \<Longrightarrow> moved R s m \<Longrightarrow> moved R st m"
  by (auto simp: moved_def dest: transpD)

lemma store_waits:
  "moved sameStore st (await env ctx p wrap st)" "moved sameStore st (waitForSpecsAndHeads env names st)"
  by (auto simp: moved_def await_def waitForSpecsAndHeads_def split: option.splits prod.splits sum.splits
      dest!: fault_sameStore)

lemma store_boundaries:
  "moved sameStore st (controlBoundary env names spec ctx st)"
  "moved sameStore st (primaryWindow env cfg names spec a st)"
  "moved sameStore st (injectedBoundary env names ctx pre q st)"
  unfolding controlBoundary_def primaryWindow_def injectedBoundary_def Let_def
  by (auto simp: moved_rules store_waits split: prod.splits option.splits intro!: moved_thenDo [OF sameStore_trans])

lemma store_fault:
  "moved sameStore st (faultBoundary env cfg names spec ctx st)"
  "moved sameStore st (recoveryWindow env cfg names spec q ending endSlot st)"
proof -
  have "moved sameStore st (injectFault env cfg names spec ctx pre st)" for st :: "'a runner_state" and pre
    by (auto simp: injectFault_def moved_rules split: prod.splits option.splits sum.splits
        dest!: fault_sameStore(1) intro!: moved_step [OF sameStore_trans _ store_boundaries(3)])
  then show "moved sameStore st (faultBoundary env cfg names spec ctx st)"
    unfolding faultBoundary_def by (intro moved_thenDo sameStore_trans store_waits)
  show "moved sameStore st (recoveryWindow env cfg names spec q ending endSlot st)"
    by (auto simp: recoveryWindow_def Let_def moved_rules split: prod.splits option.splits sum.splits dest!: fault_sameStore(2))
qed

lemma store_measureRun:
  fixes st :: "'w runner_state"
  shows "moved sameStore st (measureRun env cfg condition st)"
proof -
  have "moved sameStore st (measureFault env cfg names spec ctx st)" for st :: "'w runner_state" and names spec ctx
    unfolding measureFault_def
    by (auto simp: moved_rules store_fault store_boundaries split: prod.splits intro!: moved_thenDo [OF sameStore_trans])
  moreover have "moved sameStore st (measureControl env cfg names spec ctx st)" for st :: "'w runner_state" and names spec ctx
    unfolding measureControl_def
    by (auto simp: moved_rules store_boundaries split: prod.splits intro!: moved_thenDo [OF sameStore_trans])
  ultimately show ?thesis
    unfolding measureRun_def Let_def
    by (auto simp: moved_rules store_waits split: prod.splits option.splits intro!: moved_thenDo [OF sameStore_trans])
qed

section \<open>Files that are written once\<close>

text \<open>The host of a state, and a host after one more file.\<close>

abbreviation hostOf :: "'w runner_state \<Rightarrow> host" where "hostOf st \<equiv> stHost (rsStorage st)"

definition addsFile :: "string \<Rightarrow> string \<Rightarrow> string \<Rightarrow> host \<Rightarrow> host \<Rightarrow> bool" where
  "addsFile dir name bytes h h' \<longleftrightarrow> Lstat h (Join dir name) = None \<and> h' = withFile h (Join dir name) bytes"

lemma storeJSON_Inr:
  assumes "storeJSON dir name encoded st = Some (Inr u, st')"
  shows "\<exists>bytes. encoded = Some bytes \<and> addsFile dir name bytes (hostOf st) (hostOf st') \<and>
    rsWorld st' = rsWorld st \<and> rsRawFile st' = rsRawFile st \<and> rsObserverRunning st' = rsObserverRunning st"
proof -
  obtain r d where w: "WriteJSON dir name encoded (rsStorage st) = (r, d)" by (cases "WriteJSON dir name encoded (rsStorage st)")
  with assms have r: "r = Inr u" "st' = st\<lparr>rsStorage := d\<rparr>" by (auto simp: storeJSON_def wrapE_def split: sum.splits)
  show ?thesis
  proof (cases encoded)
    case None
    then show ?thesis using w r(1) by (auto simp: WriteJSON_def split: sum.splits prod.splits if_splits)
  next
    case (Some bytes)
    then show ?thesis using WriteJSON_wroteOnce [OF w [unfolded Some]] r
      by (auto simp: wroteOnce_def addsFile_def)
  qed
qed

lemma storeBytes_Inr:
  assumes "storeBytes dir name bytes st = Some (Inr u, st')"
  shows "addsFile dir name bytes (hostOf st) (hostOf st') \<and> rsWorld st' = rsWorld st \<and> rsRawFile st' = rsRawFile st"
proof -
  obtain r d where w: "Artifact_Write dir name (Some bytes) (rsStorage st) = (r, d)"
    by (cases "Artifact_Write dir name (Some bytes) (rsStorage st)")
  with assms have "r = Inr u" "st' = st\<lparr>rsStorage := d\<rparr>" by (auto simp: storeBytes_def wrapE_def split: sum.splits)
  then show ?thesis using Write_wroteOnce [OF w] by (auto simp: wroteOnce_def addsFile_def)
qed

lemma openRaw_Inr:
  "openRaw dir st = Some (Inr u, st') \<Longrightarrow> addsFile dir ''raw-timeseries.jsonl'' [] (hostOf st) (hostOf st') \<and>
     rsWorld st' = rsWorld st \<and> rsRawFile st' = Some (Join dir ''raw-timeseries.jsonl'')"
  by (auto simp: openRaw_def addsFile_def split: prod.splits sum.splits dest!: CreateFile_host)

lemma artifactFile_added:
  "addsFile dir name bytes h h' \<Longrightarrow> artifactFile h' dir name bytes"
  "addsFile dir name bytes h h' \<Longrightarrow> artifactFile h dir name' bytes' \<Longrightarrow> artifactFile h' dir name' bytes'"
  "addsFile dir name bytes h h' \<Longrightarrow> Lstat h path = Some node \<Longrightarrow> Lstat h' path = Some node"
  by (auto simp: addsFile_def artifactFile_def)

section \<open>What a successful run has done\<close>

text \<open>The artifacts of a run before its window, and after it.\<close>

definition preparedFiles :: "run_encoder \<Rightarrow> ('c, 'w) run_config \<Rightarrow> string \<Rightarrow> realized_split \<Rightarrow> host \<Rightarrow> host \<Rightarrow> bool" where
  "preparedFiles enc cfg dir split h h' \<longleftrightarrow>
     (\<exists>h1 h2. addsFile dir ''scenario.yaml'' (cfScenarioYAML cfg) h h1 \<and>
        addsFile dir ''realized-split.json'' (printIndented enc (splitJSON (floatText enc) split)) h1 h2 \<and>
        addsFile dir ''raw-timeseries.jsonl'' [] h2 h')"

lemma prepareRun_Inr:
  assumes "prepareRun env enc cfg st = Some (Inr (chainID, split), st')"
  shows "\<exists>dir readValidators validators w w'. cfArtifacts cfg = Some dir \<and> cfValidatorClient cfg = Some readValidators \<and>
     readValidators w = (Inr validators, w') \<and> chainID = target_spec.ChainID (scTarget (inScenario cfg)) \<and>
     CalculateRealizedSplit (inScenario cfg) (cfValidatorRanges cfg) validators = Inr split \<and> finiteFloats split \<and>
     preparedFiles enc cfg dir split (hostOf st) (hostOf st') \<and> rsRawFile st' = Some (Join dir ''raw-timeseries.jsonl'')"
proof -
  obtain readChainID readValidators dir where c: "cfChainIDClient cfg = Some readChainID"
      "cfValidatorClient cfg = Some readValidators" "cfArtifacts cfg = Some dir"
    using assms by (auto simp: prepareRun_def split: option.splits)
  obtain id w where chain: "readChainID (rsWorld st) = (id, w)" by (cases "readChainID (rsWorld st)")
  obtain vs w' where validators: "readValidators w = (vs, w')" by (cases "readValidators w")
  let ?st = "st\<lparr>rsWorld := w\<rparr>\<lparr>rsWorld := w'\<rparr>"
  from assms c chain validators obtain validators' where
      i: "id = Inr chainID" "chainID = target_spec.ChainID (scTarget (inScenario cfg))" "vs = Inr validators'"
        "CalculateRealizedSplit (inScenario cfg) (cfValidatorRanges cfg) validators' = Inr split"
    and d: "thenDo (storeBytes dir ''scenario.yaml'' (cfScenarioYAML cfg) ?st) (\<lambda>_ st.
             thenDo (storeJSON dir ''realized-split.json'' (encodeSplit enc split) st) (\<lambda>_ st.
             thenDo (openRaw dir st) (\<lambda>_ st.
             thenDo (startObserver env cfg st) (\<lambda>_ st. Some (Inr (chainID, split), st))))) = Some (Inr (chainID, split), st')"
    by (auto simp: prepareRun_def Let_def thenDo_Some_iff split: sum.splits if_splits)
  from d obtain s1 s2 s3 where
      s1: "storeBytes dir ''scenario.yaml'' (cfScenarioYAML cfg) ?st = Some (Inr (), s1)"
    and s2: "storeJSON dir ''realized-split.json'' (encodeSplit enc split) s1 = Some (Inr (), s2)"
    and s3: "openRaw dir s2 = Some (Inr (), s3)" and s4: "startObserver env cfg s3 = Some (Inr (), st')"
    by (auto simp: thenDo_Some_iff)
  from s4 have "hostOf st' = hostOf s3" "rsRawFile st' = rsRawFile s3"
    by (auto simp: startObserver_def split: sum.splits)
  moreover obtain bytes where b: "encodeSplit enc split = Some bytes" "addsFile dir ''realized-split.json'' bytes (hostOf s1) (hostOf s2)"
    using storeJSON_Inr [OF s2] by blast
  ultimately show ?thesis
    using c i validators storeBytes_Inr [OF s1] openRaw_Inr [OF s3]
    by (auto simp: preparedFiles_def encodeSplit_def split: if_splits)
qed

text \<open>The raw time series is closed with what the recorder has written.\<close>

lemma settleRun_Inr:
  assumes "settleRun env st = Some (Inr u, st')" "rsRawFile st = Some path"
  shows "\<exists>w w' written. envCloseRaw env w = ((True, written), w') \<and> rsRawFile st' = None \<and> \<not> rsObserverRunning st' \<and>
     rsWorld st' = w' \<and> hostOf st' = (hostOf st)\<lparr>Lstat := (Lstat (hostOf st))(path \<mapsto> FileNode written)\<rparr>"
proof -
  obtain e s where s: "stopObserver env st = (e, s)" by (cases "stopObserver env st")
  obtain ok written w' where c: "envCloseRaw env (rsWorld s) = ((ok, written), w')" by (metis prod.collapse)
  have "rsRawFile s = Some path" "hostOf s = hostOf st" "\<not> rsObserverRunning s"
    using s assms(2) by (auto simp: stopObserver_def split: if_splits prod.splits)
  then show ?thesis using assms(1) s c
    by (intro exI [of _ "rsWorld s"] exI [of _ w'] exI [of _ written])
       (auto simp: settleRun_def closeRaw_def putNode_def split: option.splits bool.splits)
qed

definition publishedFiles ::
  "run_encoder \<Rightarrow> string \<Rightarrow> run_summary \<Rightarrow> run_metadata \<Rightarrow> (string, string) gomap \<Rightarrow> host \<Rightarrow> host \<Rightarrow> bool" where
  "publishedFiles enc dir summary m checksums h h' \<longleftrightarrow>
     (\<exists>h1 h2. addsFile dir ''manifest.json'' (printIndented enc (runJSON (floatText enc) (timeText enc) summary)) h h1 \<and>
        addsFile dir ''metadata.json'' (printIndented enc (runMetadataJSON m)) h1 h2 \<and>
        artifactChecksums enc h2 dir checksummedRunArtifacts = Inr checksums \<and>
        addsFile dir ''checksums.json'' (printIndented enc (jsonMap JStr checksums)) h2 h')"

lemma storeEvidence_Inr:
  assumes "storeEvidence enc dir summary m st = Some (Inr s, st')"
  shows "s = summary \<and> rsWorld st' = rsWorld st \<and> rsRawFile st' = rsRawFile st \<and>
     rsObserverRunning st' = rsObserverRunning st \<and>
     (\<exists>checksums. publishedFiles enc dir summary m checksums (hostOf st) (hostOf st'))"
proof -
  from assms obtain s1 s2 where
      s1: "storeJSON dir ''manifest.json'' (encodeRun enc summary) st = Some (Inr (), s1)"
    and s2: "storeJSON dir ''metadata.json'' (Some (printIndented enc (runMetadataJSON m))) s1 = Some (Inr (), s2)"
    and s3: "storeChecksums enc dir s2 = Some (Inr (), st')" and "s = summary"
    by (auto simp: storeEvidence_def thenDo_Some_iff)
  from s3 obtain checksums where c: "artifactChecksums enc (hostOf s2) dir checksummedRunArtifacts = Inr checksums"
      "storeJSON dir ''checksums.json'' (Some (printIndented enc (jsonMap JStr checksums))) s2 = Some (Inr (), st')"
    by (auto simp: storeChecksums_def split: sum.splits)
  obtain bytes where "encodeRun enc summary = Some bytes" "addsFile dir ''manifest.json'' bytes (hostOf st) (hostOf s1)"
      "rsWorld s1 = rsWorld st" "rsRawFile s1 = rsRawFile st" "rsObserverRunning s1 = rsObserverRunning st" using storeJSON_Inr [OF s1] by blast
  then have "addsFile dir ''manifest.json'' (printIndented enc (runJSON (floatText enc) (timeText enc) summary)) (hostOf st) (hostOf s1)"
    by (auto simp: encodeRun_def split: if_splits)
  then show ?thesis using storeJSON_Inr [OF s2] storeJSON_Inr [OF c(2)] c(1) \<open>s = summary\<close> \<open>rsWorld s1 = rsWorld st\<close>
      \<open>rsRawFile s1 = rsRawFile st\<close> \<open>rsObserverRunning s1 = rsObserverRunning st\<close>
    unfolding publishedFiles_def by auto
qed

text \<open>The phases of a run that returns a summary.\<close>

lemma Run_phases:
  assumes "Runner_Run env enc cfg (startState w storage) = Some (Inr run, st')"
  shows "\<exists>condition repetition dir chainID split s1 ms s2 s3 checksums.
     validateConfig (digest256 enc) cfg = Inr (condition, repetition) \<and> cfArtifacts cfg = Some dir \<and>
     prepareRun env enc cfg (startState w storage) = Some (Inr (chainID, split), s1) \<and>
     measureRun env cfg condition s1 = Some (Inr ms, s2) \<and> settleRun env s2 = Some (Inr (), s3) \<and>
     run = summaryOf cfg condition repetition split ms (envSnapshot env (rsWorld st')) \<and>
     publishedFiles enc dir run (runMetadata enc cfg condition chainID (envSnapshot env (rsWorld st')) ms) checksums
       (hostOf s3) (hostOf st')"
proof -
  obtain s4 errs where b: "runBody env enc cfg (startState w storage) = Some (Inr run, s4)"
      and x: "exitRun env cfg s4 = ([], st')"
    using assms by (auto simp: Runner_Run_def split: option.splits prod.splits sum.splits if_splits)
  from b obtain condition repetition chainID split s1 ms s2 where
      v: "validateConfig (digest256 enc) cfg = Inr (condition, repetition)"
    and p: "prepareRun env enc cfg (startState w storage) = Some (Inr (chainID, split), s1)"
    and m: "measureRun env cfg condition s1 = Some (Inr ms, s2)"
    and q: "publishRun env enc cfg condition repetition chainID split ms s2 = Some (Inr run, s4)"
    by (auto simp: runBody_def thenDo_Some_iff split: sum.splits)
  from q obtain dir s3 where a: "cfArtifacts cfg = Some dir" and s: "settleRun env s2 = Some (Inr (), s3)"
    and e: "storeEvidence enc dir (summaryOf cfg condition repetition split ms (envSnapshot env (rsWorld s3)))
      (runMetadata enc cfg condition chainID (envSnapshot env (rsWorld s3)) ms) s3 = Some (Inr run, s4)"
    by (auto simp: publishRun_def thenDo_Some_iff Let_def split: option.splits)
  note ev = storeEvidence_Inr [OF e]
  have "rsRawFile s1 = Some (Join dir ''raw-timeseries.jsonl'')" using prepareRun_Inr [OF p] a by auto
  then have raw: "rsRawFile s2 = Some (Join dir ''raw-timeseries.jsonl'')"
    using movedD [OF store_measureRun m] by (simp add: sameStore_def)
  have quiet: "rsFaultApplied s4 = None" "rsRawFile s4 = None" "\<not> rsObserverRunning s4"
    using runBody_calls [OF b] settleRun_Inr [OF s raw] ev by (auto elim: faultHistory.cases)
  have "st' = s4"
    using x quiet by (simp add: exitRun_def revertAtExit_def stopObserver_def closeRaw_def)
  then show ?thesis using v p m s a ev by auto
qed


section \<open>The files are there\<close>

definition artifactsOf :: "run_encoder \<Rightarrow> ('c, 'w) run_config \<Rightarrow> realized_split \<Rightarrow> run_summary \<Rightarrow> run_metadata \<Rightarrow> string \<Rightarrow> string \<Rightarrow> (string, string) gomap" where
  "artifactsOf enc cfg split summary m series checksums =
     [(''manifest.json'', printIndented enc (runJSON (floatText enc) (timeText enc) summary)),
      (''metadata.json'', printIndented enc (runMetadataJSON m)), (''raw-timeseries.jsonl'', series),
      (''realized-split.json'', printIndented enc (splitJSON (floatText enc) split)),
      (''scenario.yaml'', cfScenarioYAML cfg), (''checksums.json'', checksums)]"

lemma ReadFile_artifact: "artifactFile h dir name content \<Longrightarrow> ReadFile h (Join dir name) = Some content"
  by (simp add: artifactFile_def ReadFile_def)

lemma artifactChecksums_Inr:
  assumes "artifactChecksums enc h dir names = Inr checksums"
  shows "gomap checksums" "set (keys checksums) = set names"
    "\<forall>name \<in> set names. \<exists>data. ReadFile h (Join dir name) = Some data \<and> map_of checksums name = Some (sha256Bytes enc data)"
proof -
  define I where "I names m \<longleftrightarrow> gomap m \<and> dom (map_of m) = set names \<and> (\<forall>name \<in> set names. \<exists>data.
     ReadFile h (Join dir name) = Some data \<and> map_of m name = Some (sha256Bytes enc data))" for names and m :: "(string, string) gomap"
  have "I names checksums"
  proof (rule each_inv [OF assms [unfolded artifactChecksums_def]])
    fix ys x zs t t' assume "I ys t" "checksumOf enc h dir x t = Inr t'"
    then show "I (ys @ [x]) t'" by (auto simp: I_def checksumOf_def split: option.splits)
  qed (simp add: I_def)
  then show "gomap checksums" "set (keys checksums) = set names"
    "\<forall>name \<in> set names. \<exists>data. ReadFile h (Join dir name) = Some data \<and> map_of checksums name = Some (sha256Bytes enc data)"
    by (simp_all add: I_def dom_map_of_conv_image_fst)
qed

lemma stored_files:
  assumes "preparedFiles enc cfg dir split h0 h1"
    and "h2 = h1\<lparr>Lstat := (Lstat h1)(Join dir ''raw-timeseries.jsonl'' \<mapsto> FileNode series)\<rparr>"
    and "publishedFiles enc dir summary m checksums h2 h3"
  shows "\<forall>(name, content) \<in> set (artifactsOf enc cfg split summary m series (printIndented enc (jsonMap JStr checksums))).
      artifactFile h3 dir name content"
    "Lstat h0 path = Some DirNode \<Longrightarrow> Lstat h3 path = Some DirNode"
    "\<forall>name \<in> set checksummedRunArtifacts. \<exists>data. artifactFile h3 dir name data \<and> map_of checksums name = Some (sha256Bytes enc data)"
    "gomap checksums" "set (keys checksums) = set checksummedRunArtifacts"
proof -
  let ?raw = "Join dir ''raw-timeseries.jsonl''"
  from assms(1) obtain g1 g2 where g: "addsFile dir ''scenario.yaml'' (cfScenarioYAML cfg) h0 g1"
        "addsFile dir ''realized-split.json'' (printIndented enc (splitJSON (floatText enc) split)) g1 g2"
        "addsFile dir ''raw-timeseries.jsonl'' [] g2 h1" unfolding preparedFiles_def by blast
  from assms(3) obtain k1 k2 where k: "addsFile dir ''manifest.json'' (printIndented enc (runJSON (floatText enc) (timeText enc) summary)) h2 k1"
        "addsFile dir ''metadata.json'' (printIndented enc (runMetadataJSON m)) k1 k2"
        "artifactChecksums enc k2 dir checksummedRunArtifacts = Inr checksums"
        "addsFile dir ''checksums.json'' (printIndented enc (jsonMap JStr checksums)) k2 h3" unfolding publishedFiles_def by blast
  have early: "artifactFile h2 dir name content" if "artifactFile g2 dir name content" for name content
  proof -
    have "Lstat g2 ?raw = None" using g(3) by (simp add: addsFile_def)
    with that have "Join dir name \<noteq> ?raw" by (auto simp: artifactFile_def)
    then show ?thesis using artifactFile_added(2) [OF g(3) that] by (simp add: assms(2) artifactFile_def)
  qed
  have raw: "artifactFile h2 dir ''raw-timeseries.jsonl'' series"
    using artifactFile_added(1) [OF g(3)] by (simp add: assms(2) artifactFile_def)
  note late = artifactFile_added(2) [OF k(2)] artifactFile_added(2) [OF k(1)]
  have k2: "\<forall>(name, content) \<in> set (butlast (artifactsOf enc cfg split summary m series x)). artifactFile k2 dir name content" for x
    using late early [OF artifactFile_added(1) [OF g(2)]] early [OF artifactFile_added(2) [OF g(2) artifactFile_added(1) [OF g(1)]]]
      raw artifactFile_added(1) [OF k(1)] artifactFile_added(1) [OF k(2)]
    by (simp add: artifactsOf_def)
  then show "\<forall>(name, content) \<in> set (artifactsOf enc cfg split summary m series (printIndented enc (jsonMap JStr checksums))).
      artifactFile h3 dir name content"
    using artifactFile_added(1,2) [OF k(4)] by (simp add: artifactsOf_def)
  show "Lstat h3 path = Some DirNode" if "Lstat h0 path = Some DirNode"
  proof -
    have "Lstat g2 path = Some DirNode" using that artifactFile_added(3) [OF g(1)] artifactFile_added(3) [OF g(2)] by blast
    then have "path \<noteq> ?raw" "Lstat h1 path = Some DirNode" using g(3) artifactFile_added(3) [OF g(3)] by (auto simp: addsFile_def)
    then have "Lstat h2 path = Some DirNode" by (simp add: assms(2))
    then show ?thesis using artifactFile_added(3) [OF k(1)] artifactFile_added(3) [OF k(2)] artifactFile_added(3) [OF k(4)] by blast
  qed
  note c = artifactChecksums_Inr [OF k(3)]
  have "\<exists>data. artifactFile k2 dir name data" if "name \<in> set checksummedRunArtifacts" for name
    using k2 [of "[]"] that by (auto simp: artifactsOf_def checksummedRunArtifacts_def)
  then show "\<forall>name \<in> set checksummedRunArtifacts. \<exists>data. artifactFile h3 dir name data \<and> map_of checksums name = Some (sha256Bytes enc data)"
    using c ReadFile_artifact artifactFile_added(2) [OF k(4)] by (metis option.inject)
  show "gomap checksums" "set (keys checksums) = set checksummedRunArtifacts" using c by blast+
qed

section \<open>Maps in the order of their keys\<close>

lemma map_of_sortMap: "gomap m \<Longrightarrow> map_of (sortMap m) = map_of m"
  using distinct_sortMap [of m] by (intro map_of_inject_set [THEN iffD2]) (simp_all add: gomap_def sortMap_def)

lemma gomap_sortMap [simp]: "gomap m \<Longrightarrow> gomap (sortMap m)"
  using distinct_sortMap by (simp add: gomap_def)

lemma set_sortMap [simp]: "set (sortMap m) = set m" "length (sortMap m) = length m"
  by (simp_all add: sortMap_def)

lemma ValidateDependencyMetadata_sorted: "ValidateDependencyMetadata (sortMetadata d) = Inr () \<longleftrightarrow> ValidateDependencyMetadata d = Inr ()"
  by (simp add: ValidateDependencyMetadata_def sortMetadata_def result_simps)

lemma dependencyMetadataEqual_refl: "gomapMetadata d \<Longrightarrow> dependencyMetadataEqual d d"
  by (auto simp: dependencyMetadataEqual_def gomapMetadata_def gomap_def list_ex_iff mget_def)

lemma Spec_Compatible_sorted:
  assumes "gomap (ForkEpochs a)" "gomap (ForkEpochs b)"
  shows "Spec_Compatible (sortSpec a) (sortSpec b) = Spec_Compatible a b"
  using assms by (simp add: Spec_Compatible_def sortSpec_def map_of_sortMap list_all_iff)

text \<open>The metadata of a run as they are read back.\<close>

definition readMetadata :: "run_metadata \<Rightarrow> run_metadata" where
  "readMetadata m = m\<lparr>RuntimeSpecs := map (\<lambda>(target, spec). (target, sortSpec spec)) (sortMap (RuntimeSpecs m)),
     RuntimeGenesis := sortMap (RuntimeGenesis m), mtDependencies := sortMetadata (mtDependencies m)\<rparr>"

lemma runtimeTarget_read:
  assumes "runMetadataWritable m" "runtimeTarget m target spec genesis"
  shows "runtimeTarget (readMetadata m) target (sortSpec spec) genesis \<and> gomap (ForkEpochs spec)"
proof -
  have g: "gomap (RuntimeSpecs m)" "gomap (RuntimeGenesis m)" using assms(1) by (simp_all add: runMetadataWritable_def)
  have s: "map_of (RuntimeSpecs m) target = Some spec" using assms(2) by (simp add: runtimeTarget_def)
  then have "gomap (ForkEpochs spec)" using assms(1) by (auto simp: runMetadataWritable_def list_all_iff dest!: map_of_SomeD)
  moreover have "map_of (map (\<lambda>(target, spec). (target, sortSpec spec)) (sortMap (RuntimeSpecs m))) target = Some (sortSpec spec)"
    using s by (simp add: map_of_map map_of_sortMap [OF g(1)])
  moreover have "sortMap (ForkEpochs spec) \<noteq> [] \<longleftrightarrow> ForkEpochs spec \<noteq> []" by (metis length_0_conv set_sortMap(2))
  ultimately show ?thesis using assms(2) map_of_sortMap [OF g(2)]
    by (simp add: runtimeTarget_def readMetadata_def sortSpec_def)
qed

lemma runtimeAgrees_read:
  assumes "runMetadataWritable m" "runtimeAgrees m s spec"
  shows "runtimeAgrees (readMetadata m) s (sortSpec spec)"
proof -
  from assms(2) obtain genesis where
      l: "length (RuntimeSpecs m) = length (scParticipants s)" "length (RuntimeGenesis m) = length (scParticipants s)"
    and h: "runtimeTarget m (BeaconTarget (hd (scParticipants s))) spec genesis"
    and t: "\<forall>p \<in> set (tl (scParticipants s)). \<exists>sp. runtimeTarget m (BeaconTarget p) sp genesis \<and>
          Spec_Compatible sp spec \<and> Spec_Compatible spec sp" unfolding runtimeAgrees_def by blast
  note H = runtimeTarget_read [OF assms(1) h]
  have "\<exists>sp. runtimeTarget (readMetadata m) (BeaconTarget p) sp genesis \<and> Spec_Compatible sp (sortSpec spec) \<and>
      Spec_Compatible (sortSpec spec) sp" if p: "p \<in> set (tl (scParticipants s))" for p
  proof -
    from t p obtain sp where sp: "runtimeTarget m (BeaconTarget p) sp genesis" "Spec_Compatible sp spec" "Spec_Compatible spec sp"
      by blast
    note T = runtimeTarget_read [OF assms(1) sp(1)]
    then show ?thesis using sp(2,3) H Spec_Compatible_sorted by blast
  qed
  then show ?thesis using l H unfolding runtimeAgrees_def by (auto simp: readMetadata_def)
qed

text \<open>The name of a run in the order of a scenario is the name of a stored run.\<close>

lemma runIdentity_parse: "runIdentity i order = Some (condition, repetition) \<Longrightarrow> parseRunID i = Inr (condition, repetition)"
  by (auto simp: runIdentity_def parseRunID_def Let_def split: prod.splits if_splits)

section \<open>What the loader asks of the run\<close>

text \<open>
  The decoder reads what the encoder printed of the values that \<^verbatim>\<open>encoding/json\<close> keeps, and both use one
  digest; the recorded specs and genesis values are Go maps that agree with a reference.
\<close>

definition codecFor :: "codec \<Rightarrow> run_encoder \<Rightarrow> bool" where
  "codecFor cd enc \<longleftrightarrow> (\<forall>j. survives j \<longrightarrow> decodeStream cd (printIndented enc j) = Some (j, NoMore)) \<and>
     Sum256 cd = digest256 enc \<and> (\<forall>data. length (digest256 enc data) = 32)"

text \<open>What a run writes besides digests and constants is valid UTF-8 and prints as JSON numbers.\<close>

definition plainEvidence ::
  "run_encoder \<Rightarrow> ('c, 'w) run_config \<Rightarrow> dataset_snapshot \<Rightarrow> run_summary \<Rightarrow> bool" where
  "plainEvidence enc cfg snap run \<longleftrightarrow> plainJSON (runJSON (floatText enc) (timeText enc) run) \<and>
     plainJSON (jsonMap beaconSpecJSON (snapSpecs snap)) \<and> plainJSON (jsonMap beaconGenesisJSON (snapGenesis snap)) \<and>
     list_all (\<lambda>p. plainJSON (placementJSON p)) (inPlacements cfg) \<and>
     list_all validUTF8 (OrderSeed (scMethodology (inScenario cfg)) # RunOrder (scMethodology (inScenario cfg)))"

definition recordedRuntime :: "dataset_snapshot \<Rightarrow> scenario \<Rightarrow> beacon_spec \<Rightarrow> bool" where
  "recordedRuntime snap s spec \<longleftrightarrow> gomap (snapSpecs snap) \<and> gomap (snapGenesis snap) \<and>
     list_all (\<lambda>(target, spec). gomap (ForkEpochs spec)) (snapSpecs snap) \<and>
     runtimeAgrees (zeroRunMetadata\<lparr>RuntimeSpecs := snapSpecs snap, RuntimeGenesis := snapGenesis snap\<rparr>) s spec"

lemma Runner_clones:
  assumes "gomap m" "list_all (\<lambda>(target, spec). gomap (ForkEpochs spec)) m" "gomap g"
  shows "Runner_cloneSpecs m = m" "Runner_cloneGenesis g = g"
proof -
  have "map (\<lambda>(k, v). (k, cloneSpec v)) m = m" using assms(2) by (induction m) auto
  then show "Runner_cloneSpecs m = m"
    using foldl_mput_map [OF assms(1), of cloneSpec] by (simp add: Runner_cloneSpecs_def)
  show "Runner_cloneGenesis g = g"
    using foldl_mput_map [OF assms(3), of "\<lambda>v. v"] by (simp add: Runner_cloneGenesis_def)
qed

lemma runtimeAgrees_cong:
  "RuntimeSpecs m = RuntimeSpecs m' \<Longrightarrow> RuntimeGenesis m = RuntimeGenesis m' \<Longrightarrow> runtimeAgrees m s spec = runtimeAgrees m' s spec"
  by (simp add: runtimeAgrees_def runtimeTarget_def)

lemma validateConfig_Inr:
  assumes "validateConfig sum256 cfg = Inr (condition, repetition)"
  shows "Scenario_Validate sum256 (inScenario cfg) = Inr ()"
    "parseRunID (inRunID cfg) = Inr (condition, repetition)" "condition = ConditionControl \<or> condition = ConditionFault"
    "ValidatePlacements (inScenario cfg) (inPlacements cfg) = Inr ()"
    "ValidateDependencyMetadata (inDependencies cfg) = Inr ()"
    "length (cfTargets cfg) = 4" "set (targetNames (cfTargets cfg)) \<subseteq> set (map BeaconTarget (scParticipants (inScenario cfg)))"
proof -
  have r: "runIdentity (inRunID cfg) (RunOrder (scMethodology (inScenario cfg))) = Some (condition, repetition)"
    and "length (cfTargets cfg) = 4"
    and t: "\<exists>seen. each (targetStep (map BeaconTarget (scParticipants (inScenario cfg)))) (cfTargets cfg) [] = Inr seen"
    and "Scenario_Validate sum256 (inScenario cfg) = Inr ()"
    "ValidatePlacements (inScenario cfg) (inPlacements cfg) = Inr ()"
    "ValidateDependencyMetadata (inDependencies cfg) = Inr ()"
    using assms by (auto simp: validateConfig_def Let_def result_simps split: option.splits prod.splits if_splits)
  then show "Scenario_Validate sum256 (inScenario cfg) = Inr ()" "length (cfTargets cfg) = 4"
    "ValidatePlacements (inScenario cfg) (inPlacements cfg) = Inr ()"
    "ValidateDependencyMetadata (inDependencies cfg) = Inr ()" by blast+
  show "parseRunID (inRunID cfg) = Inr (condition, repetition)" using r by (rule runIdentity_parse)
  show "condition = ConditionControl \<or> condition = ConditionFault"
    using r by (auto simp: runIdentity_def Let_def split: prod.splits if_splits)
  from t obtain seen where "each (targetStep (map BeaconTarget (scParticipants (inScenario cfg)))) (cfTargets cfg) [] = Inr seen" ..
  then have "set (map tgtName (cfTargets cfg)) \<subseteq> set (map BeaconTarget (scParticipants (inScenario cfg)))"
    by (rule each_inv [where I = "\<lambda>ts _. set (map tgtName ts) \<subseteq> set (map BeaconTarget (scParticipants (inScenario cfg)))"])
       (auto simp: targetStep_def split: if_splits)
  then show "set (targetNames (cfTargets cfg)) \<subseteq> set (map BeaconTarget (scParticipants (inScenario cfg)))"
    by (simp add: targetNames_def)
qed

text \<open>The spec of any participant has the times of the reference.\<close>

lemma runtimeAgrees_times:
  assumes "runtimeAgrees m s spec" "target \<in> set (map BeaconTarget (scParticipants s))"
  shows "\<exists>sp. map_of (RuntimeSpecs m) target = Some sp \<and> SecondsPerSlot sp = SecondsPerSlot spec \<and> SlotsPerEpoch sp = SlotsPerEpoch spec"
proof -
  from assms(2) obtain p where p: "p \<in> set (scParticipants s)" "target = BeaconTarget p" by auto
  then consider "p = hd (scParticipants s)" | "p \<in> set (tl (scParticipants s))" by (cases "scParticipants s") auto
  then show ?thesis using assms(1) p(2) unfolding runtimeAgrees_def runtimeTarget_def Spec_Compatible_def by cases blast+
qed

section \<open>A completed run is a stored run\<close>

lemma hexOf_plain: "length bs = 32 \<Longrightarrow> validUTF8 (hexOf bs)"
  using lowerHexN_hexOf [of bs] by (rule hex_validUTF8)

lemma metadata_survives:
  assumes "plainEvidence enc cfg final run" "codecFor cd enc" "recordedRuntime final s spec"
    and "RunID run = inRunID cfg" "Dependencies run = inDependencies cfg"
  shows "survives (runMetadataJSON (runMetadata enc cfg condition chainID final ms))"
proof -
  have "Runner_cloneSpecs (snapSpecs final) = snapSpecs final" "Runner_cloneGenesis (snapGenesis final) = snapGenesis final"
    using Runner_clones assms(3) unfolding recordedRuntime_def by blast+
  moreover have "validUTF8 (sha256Bytes enc (cfScenarioYAML cfg))"
    using assms(2) by (simp add: sha256Bytes_def hexOf_plain codecFor_def)
  moreover have "validUTF8 (inRunID cfg) \<and> plainJSON (dependencyJSON (inDependencies cfg))"
    using assms(1,4,5) plain_run_parts [of "floatText enc" "timeText enc" run] by (simp add: plainEvidence_def)
  ultimately show ?thesis
    using assms(1) unfolding survives_def
    by (intro conjI nested_metadata)
      (simp add: runMetadataJSON_def runMetadata_def plainEvidence_def list_all_iff MetadataSchemaVersion_def code_def)
qed

lemma checksums_survive:
  assumes "codecFor cd enc" "gomap checksums" "set (keys checksums) = set checksummedRunArtifacts"
    and "\<forall>name \<in> set checksummedRunArtifacts. \<exists>data. map_of checksums name = Some (sha256Bytes enc data)"
  shows "survives (jsonMap JStr checksums)"
proof -
  have "validUTF8 name" if "name \<in> set checksummedRunArtifacts" for name
    using that by (intro ascii_validUTF8) (auto simp: checksummedRunArtifacts_def code_def)
  moreover have "validUTF8 (sha256Bytes enc data)" for data
    using assms(1) by (simp add: sha256Bytes_def hexOf_plain codecFor_def)
  moreover have "k \<in> set checksummedRunArtifacts \<and> map_of checksums k = Some v" if "(k, v) \<in> set checksums" for k v
    using that assms(2,3) by (simp add: gomap_def map_of_is_SomeI) (metis fst_conv image_eqI)
  ultimately show ?thesis using assms(4)
    by (fastforce simp: survives_def plain_jsonMap nested_jsonMap)
qed

lemma stored_checksummed:
  assumes "codecFor cd enc" "artifactFile h dir ''checksums.json'' (printIndented enc (jsonMap JStr checksums))"
    and "gomap checksums" "set (keys checksums) = set checksummedRunArtifacts"
    and "\<forall>name \<in> set checksummedRunArtifacts. \<exists>data. artifactFile h dir name data \<and> map_of checksums name = Some (sha256Bytes enc data)"
  shows "checksummed cd h dir"
proof -
  have survive: "survives (jsonMap JStr checksums)"
    using checksums_survive [OF assms(1,3,4)] assms(5) by blast
  have "decodeOnly (decodeStream cd) (decStringMap (\<lambda>m. m) (\<lambda>m _. m)) [] (printIndented enc (jsonMap JStr checksums)) =
      Inr (sortMap checksums)"
    using assms(1) read_back_map [OF assms(3), of "\<lambda>m. m" "[]" "\<lambda>m _. m"] survive
    by (simp add: decodeOnly_def codecFor_def unmarshal_def)
  moreover have "lowerHexN (hexOf (Sum256 cd data)) 64" for data
    using lowerHexN_hexOf [of "Sum256 cd data"] assms(1) by (simp add: codecFor_def)
  moreover have "set (keys (sortMap checksums)) = set checksummedRunArtifacts"
    using assms(4) by simp
  moreover have "sha256Bytes enc data = hexOf (Sum256 cd data)" for data
    using assms(1) by (simp add: codecFor_def sha256Bytes_def)
  ultimately show ?thesis
    unfolding checksummed_def using assms(2,5) map_of_sortMap [OF assms(3)] by metis
qed

lemma deadman_recorded:
  assumes "measureRun env cfg condition st = Some (Inr ms, st')" "condition = ConditionControl \<or> condition = ConditionFault"
    and "DurationEpochs (scFault (inScenario cfg)) = 3"
    and "SecondsPerSlot (msSpec ms) = SecondsPerSlot spec" "SlotsPerEpoch (msSpec ms) = SlotsPerEpoch spec"
  shows "unat (FaultDeadmanSeconds (runMetadata enc cfg condition chainID final ms)) =
     (if condition = ConditionControl then 0 else deadmanSeconds (inScenario cfg) spec)"
proof (cases "condition = ConditionControl")
  case True
  then show ?thesis by (simp add: runMetadata_def ConditionControl_def ConditionFault_def)
next
  case False
  then have c: "condition = ConditionFault" using assms(2) by blast
  from measureRun_measured [OF assms(1)] c obtain q where q: "msPartition ms = Some q"
      "TTL q = int (deadmanOf cfg (msSpec ms)) * second" "deadmanOf cfg (msSpec ms) < 2 ^ 64" by auto
  have d: "deadmanOf cfg (msSpec ms) = deadmanSeconds (inScenario cfg) spec"
    by (simp add: deadmanOf_def deadmanSeconds_def assms(3-5))
  have "FaultDeadmanSeconds (runMetadata enc cfg condition chainID final ms) = of_nat (deadmanOf cfg (msSpec ms))"
    using q(1,2) c by (simp add: runMetadata_def second_def)
  then show ?thesis using False q(3) by (simp add: unat_of_nat flip: d)
qed

lemma stored_metadata:
  assumes "codecFor cd enc" "validateConfig (digest256 enc) cfg = Inr (condition, repetition)"
    and "measureRun env cfg condition st = Some (Inr ms, st')" "recordedRuntime final (inScenario cfg) spec"
    and "\<forall>w. specsAndHeads (targetNames (cfTargets cfg)) (envSnapshot env w) = Ready \<longrightarrow> snapSpecs (envSnapshot env w) = snapSpecs final"
    and "gomapMetadata (inDependencies cfg)" "chainID = target_spec.ChainID (scTarget (inScenario cfg))"
    and "RunID run = inRunID cfg" "Dependencies run = sortMetadata (inDependencies cfg)"
  shows "runMetadataWritable (runMetadata enc cfg condition chainID final ms) \<and>
     metadataAgrees cd (readMetadata (runMetadata enc cfg condition chainID final ms)) run (inScenario cfg) (cfScenarioYAML cfg)"
proof -
  let ?m = "runMetadata enc cfg condition chainID final ms"
  note v = validateConfig_Inr [OF assms(2)]
  have r: "gomap (snapSpecs final)" "gomap (snapGenesis final)"
      "list_all (\<lambda>(target, spec). gomap (ForkEpochs spec)) (snapSpecs final)"
      "runtimeAgrees (zeroRunMetadata\<lparr>RuntimeSpecs := snapSpecs final, RuntimeGenesis := snapGenesis final\<rparr>) (inScenario cfg) spec"
    using assms(4) by (simp_all add: recordedRuntime_def)
  have m: "RuntimeSpecs ?m = snapSpecs final" "RuntimeGenesis ?m = snapGenesis final"
    using Runner_clones [OF r(1,3,2)] by (simp_all add: runMetadata_def)
  have wr: "runMetadataWritable ?m" using r assms(6) m by (simp add: runMetadataWritable_def) (simp add: runMetadata_def)
  have ag: "runtimeAgrees ?m (inScenario cfg) spec" using r(4) by (rule runtimeAgrees_cong [THEN iffD1, rotated 2]) (simp_all add: m)
  have "length (targetNames (cfTargets cfg)) = 4" using v(6) by (simp add: targetNames_def)
  then have "targetNames (cfTargets cfg) \<noteq> []" by auto
  then have first: "hd (targetNames (cfTargets cfg)) \<in> set (map BeaconTarget (scParticipants (inScenario cfg)))"
    using v(7) hd_in_set by blast
  obtain w where w: "specsAndHeads (targetNames (cfTargets cfg)) (envSnapshot env w) = Ready"
     "msSpec ms = mget zeroBeaconSpec (snapSpecs (envSnapshot env w)) (hd (targetNames (cfTargets cfg)))"
    using measureRun_spec [OF assms(3)] by blast
  have "msSpec ms = mget zeroBeaconSpec (RuntimeSpecs ?m) (hd (targetNames (cfTargets cfg)))"
    using w assms(5) by (simp add: m)
  then have times: "SecondsPerSlot (msSpec ms) = SecondsPerSlot spec" "SlotsPerEpoch (msSpec ms) = SlotsPerEpoch spec"
    using runtimeAgrees_times [OF ag first] by (auto simp: mget_def)
  have "DurationEpochs (scFault (inScenario cfg)) = 3"
    using Scenario_Validate_parts(2) [OF v(1)] by (simp add: validFault_def)
  note dead = deadman_recorded [OF assms(3) v(3) this times, of enc chainID final]
  have "gomapMetadata (sortMetadata (inDependencies cfg))"
    using assms(6) by (simp add: gomapMetadata_def sortMetadata_def)
  note deps = dependencyMetadataEqual_refl [OF this] ValidateDependencyMetadata_sorted [THEN iffD2, OF v(5)]
  have fields: "mtSchemaVersion (readMetadata ?m) = MetadataSchemaVersion" "mtRunID (readMetadata ?m) = inRunID cfg"
    "ScenarioSHA256 (readMetadata ?m) = hexOf (Sum256 cd (cfScenarioYAML cfg))" "mtChainID (readMetadata ?m) = chainID"
    "mtOrderSeed (readMetadata ?m) = OrderSeed (scMethodology (inScenario cfg))"
    "mtRunOrder (readMetadata ?m) = RunOrder (scMethodology (inScenario cfg))"
    "mtDependencies (readMetadata ?m) = sortMetadata (inDependencies cfg)" "mtPlacements (readMetadata ?m) = inPlacements cfg"
    "FaultDeadmanSeconds (readMetadata ?m) = FaultDeadmanSeconds ?m"
    using assms(1) by (simp_all add: readMetadata_def runMetadata_def sha256Bytes_def codecFor_def)
  have "deadmanSeconds (inScenario cfg) (sortSpec spec) = deadmanSeconds (inScenario cfg) spec"
    by (simp add: deadmanSeconds_def sortSpec_def)
  then show ?thesis
    using wr runtimeAgrees_read [OF wr ag] dead v(2,4) deps assms(7-9)
    unfolding metadataAgrees_def fields by auto
qed

text \<open>The files of a run that returned, with what was read and measured for them.\<close>

lemma Run_files:
  assumes "Runner_Run env enc cfg (startState w storage) = Some (Inr run, st')"
    and "cfArtifacts cfg = Some dir" "Lstat (stHost storage) dir = Some DirNode"
    and "\<forall>w written w'. envCloseRaw env w = ((True, written), w') \<longrightarrow> written \<noteq> []"
  shows "\<exists>condition repetition chainID split s1 ms s2 checksums series read validators w1 w2.
     validateConfig (digest256 enc) cfg = Inr (condition, repetition) \<and> measureRun env cfg condition s1 = Some (Inr ms, s2) \<and>
     chainID = target_spec.ChainID (scTarget (inScenario cfg)) \<and> cfValidatorClient cfg = Some read \<and> read w1 = (Inr validators, w2) \<and>
     CalculateRealizedSplit (inScenario cfg) (cfValidatorRanges cfg) validators = Inr split \<and> finiteFloats split \<and>
     RunID run = inRunID cfg \<and> RealizedSplit run = split \<and> Dependencies run = inDependencies cfg \<and> series \<noteq> [] \<and>
     Lstat (hostOf st') dir = Some DirNode \<and>
     (\<forall>(name, content) \<in> set (artifactsOf enc cfg split run
           (runMetadata enc cfg condition chainID (envSnapshot env (rsWorld st')) ms) series (printIndented enc (jsonMap JStr checksums))).
        artifactFile (hostOf st') dir name content) \<and>
     gomap checksums \<and> set (keys checksums) = set checksummedRunArtifacts \<and>
     (\<forall>name \<in> set checksummedRunArtifacts. \<exists>data.
        artifactFile (hostOf st') dir name data \<and> map_of checksums name = Some (sha256Bytes enc data))"
proof -
  let ?final = "envSnapshot env (rsWorld st')"
  obtain condition repetition chainID split s1 ms s2 s3 checksums where
      v: "validateConfig (digest256 enc) cfg = Inr (condition, repetition)"
    and p: "prepareRun env enc cfg (startState w storage) = Some (Inr (chainID, split), s1)"
    and m: "measureRun env cfg condition s1 = Some (Inr ms, s2)" and s: "settleRun env s2 = Some (Inr (), s3)"
    and run: "run = summaryOf cfg condition repetition split ms ?final"
    and pub: "publishedFiles enc dir run (runMetadata enc cfg condition chainID ?final ms) checksums (hostOf s3) (hostOf st')"
    using Run_phases [OF assms(1)] assms(2) by auto
  have fields: "RunID run = inRunID cfg" "RealizedSplit run = split" "Dependencies run = inDependencies cfg"
    by (simp_all add: run summaryOf_def summary_fields run_inputs.truncate_def)
  from prepareRun_Inr [OF p] assms(2) obtain read validators w1 w2 where
      c: "cfValidatorClient cfg = Some read" "read w1 = (Inr validators, w2)"
        "chainID = target_spec.ChainID (scTarget (inScenario cfg))"
        "CalculateRealizedSplit (inScenario cfg) (cfValidatorRanges cfg) validators = Inr split" "finiteFloats split"
    and pre: "preparedFiles enc cfg dir split (stHost storage) (hostOf s1)"
    and raw: "rsRawFile s1 = Some (Join dir ''raw-timeseries.jsonl'')"
    by (auto simp: startState_def)
  have same: "hostOf s2 = hostOf s1" "rsRawFile s2 = Some (Join dir ''raw-timeseries.jsonl'')"
    using movedD [OF store_measureRun m] raw by (simp_all add: sameStore_def)
  obtain series where series: "series \<noteq> []"
      "hostOf s3 = (hostOf s1)\<lparr>Lstat := (Lstat (hostOf s1))(Join dir ''raw-timeseries.jsonl'' \<mapsto> FileNode series)\<rparr>"
    using settleRun_Inr [OF s same(2)] assms(4) same(1) by metis
  note files = stored_files [OF pre series(2) pub]
  show ?thesis using v m c fields series(1) files(1,3-5) files(2) [OF assms(3)] by blast
qed

text \<open>
  C2: What a run has stored when it returns a summary is accepted by the loader under the name of the run,
  and read back as that summary with its dependencies in the order of their keys, provided that
  the directory is the one that was created for the run; the scenario file decodes to the scenario; the decoder
  reads what the encoder prints of values it keeps, and what the run writes is such a value, numbers and times
  printed so that parsing gives them back; no share of the scenario is a NaN, the validator ranges are disjoint and
  the active validators have balances; the time series is not empty; and the recorded specs, once every target has
  one, do not change and agree with one reference spec and the genesis, each in both directions.
  A run outside these conditions can complete and yet be refused by the loader.
\<close>

theorem Run_evidence:
  assumes "Runner_Run env enc cfg (startState w storage) = Some (Inr run, st')"
    and "cfArtifacts cfg = Some (Join rt (inRunID cfg))" "Lstat (stHost storage) (Join rt (inRunID cfg)) = Some DirNode"
    and "codecFor cd enc" "Scenario_Parse (decodeYAML cd) (Sum256 cd) (cfScenarioYAML cfg) = Inr (inScenario cfg)"
    and "runWritable (floatText enc) (timeText enc) run" "NaN \<notin> set (scenarioFloats (inScenario cfg))"
    and "disjointRanges (cfValidatorRanges cfg)"
    and "\<forall>read w vs w'. cfValidatorClient cfg = Some read \<longrightarrow> read w = (Inr vs, w') \<longrightarrow> (\<forall>v \<in> set vs. EffectiveBalance v \<noteq> 0)"
    and "\<forall>w written w'. envCloseRaw env w = ((True, written), w') \<longrightarrow> written \<noteq> []"
    and "\<forall>w. specsAndHeads (targetNames (cfTargets cfg)) (envSnapshot env w) = Ready \<longrightarrow>
       snapSpecs (envSnapshot env w) = snapSpecs (envSnapshot env (rsWorld st'))"
    and "recordedRuntime (envSnapshot env (rsWorld st')) (inScenario cfg) spec"
    and "plainEvidence enc cfg (envSnapshot env (rsWorld st')) run"
  shows "loadStep cd (hostOf st') rt (inScenario cfg) (inRunID cfg) =
     Inr (run\<lparr>Dependencies := sortMetadata (Dependencies run)\<rparr>)"
proof -
  let ?final = "envSnapshot env (rsWorld st')" and ?dir = "Join rt (inRunID cfg)"
  let ?run = "run\<lparr>Dependencies := sortMetadata (Dependencies run)\<rparr>"
  obtain condition repetition chainID split s1 ms s2 checksums series read validators w1 w2 where
      v: "validateConfig (digest256 enc) cfg = Inr (condition, repetition)" and m: "measureRun env cfg condition s1 = Some (Inr ms, s2)"
    and c: "cfValidatorClient cfg = Some read" "read w1 = (Inr validators, w2)"
        "chainID = target_spec.ChainID (scTarget (inScenario cfg))"
        "CalculateRealizedSplit (inScenario cfg) (cfValidatorRanges cfg) validators = Inr split" "finiteFloats split"
    and fields: "RunID run = inRunID cfg" "RealizedSplit run = split" "Dependencies run = inDependencies cfg"
    and series: "series \<noteq> []" and dir: "Lstat (hostOf st') ?dir = Some DirNode"
    and art: "\<forall>(name, content) \<in> set (artifactsOf enc cfg split run (runMetadata enc cfg condition chainID ?final ms) series
          (printIndented enc (jsonMap JStr checksums))). artifactFile (hostOf st') ?dir name content"
    and sums: "gomap checksums" "set (keys checksums) = set checksummedRunArtifacts"
        "\<forall>name \<in> set checksummedRunArtifacts. \<exists>data.
          artifactFile (hostOf st') ?dir name data \<and> map_of checksums name = Some (sha256Bytes enc data)"
    using Run_files [OF assms(1-3,10)] by blast
  let ?m = "runMetadata enc cfg condition chainID ?final ms"
  have decode: "decodeOnly (decodeStream cd) dec z (printIndented enc j) = Inr x"
    if "survives j" "unmarshal dec z j = Some x" for dec z j and x :: 'x
    using assms(4) that by (simp add: decodeOnly_def codecFor_def)
  note v' = validateConfig_Inr [OF v]
  have plain: "plainJSON (runJSON (floatText enc) (timeText enc) run)" using assms(13) by (simp add: plainEvidence_def)
  then have survive: "survives (runJSON (floatText enc) (timeText enc) run)" "survives (splitJSON (floatText enc) split)"
    using nested_run nested_split plain_run_split [OF plain] by (simp_all add: survives_def fields)
  have "parseRunSummary cd (printIndented enc (runJSON (floatText enc) (timeText enc) run)) = Inr ?run"
    unfolding parseRunSummary_def by (rule decode [OF survive(1) Run_reads [OF assms(6)]])
  moreover have "splitDecoder (splitJSON (floatText enc) split) zeroSplit = (True, split)"
    by (rule read_split) (use assms(6) in \<open>simp add: runWritable_def list_all_iff fields\<close>)
  then have "decodeOnly (decodeStream cd) splitDecoder zeroSplit (printIndented enc (splitJSON (floatText enc) split)) = Inr split"
    using assms(4) survive(2) by (simp add: decodeOnly_def codecFor_def unmarshal_def)
  moreover have deps: "gomapMetadata (inDependencies cfg)" using assms(6) fields by (simp add: runWritable_def)
  have meta: "runMetadataWritable ?m \<and> metadataAgrees cd (readMetadata ?m) ?run (inScenario cfg) (cfScenarioYAML cfg)"
    by (rule stored_metadata [OF assms(4) v m assms(12,11) deps c(3)]) (simp_all add: fields)
  have "decodeOnly (decodeStream cd) runMetadataDecoder zeroRunMetadata (printIndented enc (runMetadataJSON ?m)) = Inr (readMetadata ?m)"
    using assms(4) metadata_survives [OF assms(13,4,12) fields(1,3)] Metadata_reads [OF conjunct1 [OF meta]]
    by (simp add: decodeOnly_def codecFor_def readMetadata_def)
  moreover have "ValidateRealizedSplit (inScenario cfg) split = Inr ()"
  proof (rule CalculateRealizedSplit_validates [OF v'(1) _ assms(8) _ c(4)])
    show "\<forall>g \<in> set (Groups (scFault (inScenario cfg))). Share g \<noteq> NaN" using assms(7) by (simp add: scenarioFloats_def) (metis image_eqI)
    show "\<forall>v \<in> set validators. EffectiveBalance v \<noteq> 0" using assms(9) c(1,2) by blast
  qed
  moreover have "NaN \<notin> set (splitFloats split)" using c(5) by (auto simp: finiteFloats_def list_all_iff)
  moreover have "checksummed cd (hostOf st') ?dir"
    by (rule stored_checksummed [OF assms(4) _ sums]) (use art in \<open>simp add: artifactsOf_def\<close>)
  ultimately have "storedRun cd (hostOf st') (inScenario cfg) ?dir ?run"
    using art dir meta assms(5,7) series unfolding storedRun_def
    by (simp add: artifactsOf_def fields) (auto simp: artifactFile_def)
  then show ?thesis unfolding loadStep_Inr by (simp add: fields)
qed

end
