(* ===== verification/RunEvidenceExamples.thy ===== *)
theory RunEvidenceExamples
  imports RunExamples RunEvidence
begin

text \<open>The fault run of the example completes, and its evidence is loaded.\<close>

section \<open>Publishing\<close>

definition rxSummary :: run_summary where
  "rxSummary = summaryOf (rxConfig True) ConditionFault 1 exSplit rxMeasurement (rxSnap 5)"

definition rxMetadata :: run_metadata where
  "rxMetadata = runMetadata rxEncoder (rxConfig True) ConditionFault 3151908 (rxSnap 5) rxMeasurement"

definition rxFiles :: "(string \<times> string) list" where
  "rxFiles = [(''scenario.yaml'', ''yaml''), (''realized-split.json'', printIndented rxEncoder (splitJSON exFloatText exSplit)),
     (rxRaw, []), (rxRaw, ''raw''), (''manifest.json'', printIndented rxEncoder (runJSON exFloatText formatTime rxSummary)),
     (''metadata.json'', printIndented rxEncoder (runMetadataJSON rxMetadata))]"

definition rxMeasuredState :: "nat runner_state" where
  "rxMeasuredState = rxPrepared\<lparr>rsWorld := 5, rsFaultCalls := [AppliedFault rxRequest True, RevertedFault False rxRequest True]\<rparr>"

lemma rxDisk_raw: "putNode (rxDir @ slash # rxRaw) (FileNode ''raw'') (rxDisk (take 3 rxFiles) n) = rxDisk (take 4 rxFiles) n"
proof -
  have "putNode p (FileNode d) st = st\<lparr>stHost := withFile (stHost st) p d\<rparr>" if "readable (stHost st) p" for p d st
    using that by (auto simp: putNode_def withFile_def fun_upd_idem)
  moreover have "readable (stHost (rxDisk (take 3 rxFiles) n)) (rxDir @ slash # rxRaw)"
    by (simp add: rxDisk_host rxFiles_def)
  ultimately show ?thesis by (simp add: rxDisk_update rxFiles_def)
qed

lemma rxSettled: "settleRun rxEnv rxMeasuredState =
    Some (Inr (), rxMeasuredState\<lparr>rsObserverRunning := False, rsStorage := rxDisk (take 4 rxFiles) 9, rsRawFile := None\<rparr>)"
proof -
  have "rsStorage rxPrepared = rxDisk (take 3 rxFiles) 9" by (simp add: rxPrepared_def rxFiles_def)
  moreover have "rsRawFile rxPrepared = Some (rxDir @ slash # rxRaw)" "rsObserverRunning rxPrepared"
    by (simp_all add: rxPrepared_def)
  ultimately show ?thesis
    by (simp add: settleRun_def stopObserver_def closeRaw_def rxEnv_stop rxMeasuredState_def rxDisk_raw)
qed

lemma rxChecksums: "\<exists>checksums. artifactChecksums rxEncoder (stHost (rxDisk rxFiles n)) rxDir checksummedRunArtifacts = Inr checksums"
proof -
  have reads: "\<exists>data. ReadFile (stHost (rxDisk rxFiles n)) (Join rxDir name) = Some data" if "name \<in> set checksummedRunArtifacts" for name
  proof -
    have "safeFileName name" using that rxSafe by (auto simp: checksummedRunArtifacts_def)
    moreover have "\<exists>data. map_of (rev rxFiles) name = Some data" "name \<in> fst ` set rxFiles"
      using that by (auto simp: checksummedRunArtifacts_def rxFiles_def)
    ultimately show ?thesis by (elim exE) (simp add: ReadFile_def rxPath rxDisk_host)
  qed
  have step: "\<exists>t'. checksumOf rxEncoder (stHost (rxDisk rxFiles n)) rxDir x t = Inr t' \<and> True"
    if "checksummedRunArtifacts = ys @ x # zs" for ys x zs t
  proof -
    from that have "x \<in> set checksummedRunArtifacts" by (metis in_set_conv_decomp)
    with reads obtain data where "ReadFile (stHost (rxDisk rxFiles n)) (Join rxDir x) = Some data" by blast
    then show ?thesis by (simp add: checksumOf_def)
  qed
  have "\<exists>m. each (checksumOf rxEncoder (stHost (rxDisk rxFiles n)) rxDir) checksummedRunArtifacts [] = Inr m \<and> True"
    by (rule each_ok [where I = "\<lambda>_ _. True"]) (rule TrueI, rule step)
  then show ?thesis by (simp add: artifactChecksums_def)
qed

definition rxChecks :: "(string \<times> string) list" where
  "rxChecks = (case artifactChecksums rxEncoder (stHost (rxDisk rxFiles 17)) rxDir checksummedRunArtifacts of Inr m \<Rightarrow> m | Inl _ \<Rightarrow> [])"

definition rxPublishedState :: "nat runner_state" where
  "rxPublishedState = rxMeasuredState\<lparr>rsObserverRunning := False, rsRawFile := None,
     rsStorage := rxDisk (rxFiles @ [(''checksums.json'', printIndented rxEncoder (jsonMap JStr rxChecks))]) 21\<rparr>"

lemma rxMeasurement_simps: "rsWorld rxMeasuredState = 5" "rsFaultApplied rxMeasuredState = None"
  by (simp_all add: rxMeasuredState_def rxPrepared_def)

lemma rxSummary_fields: "RealizedSplit rxSummary = exSplit" "Dependencies rxSummary = exMetadata"
  by (simp_all add: rxSummary_def summaryOf_def summary_fields run_inputs.truncate_def rxConfig_def)

lemma rxPublished:
  "publishRun rxEnv rxEncoder (rxConfig True) ConditionFault 1 3151908 exSplit rxMeasurement rxMeasuredState =
     Some (Inr rxSummary, rxPublishedState)"
proof -
  define s3 where "s3 = rxMeasuredState\<lparr>rsObserverRunning := False, rsStorage := rxDisk (take 4 rxFiles) 9, rsRawFile := None\<rparr>"
  define s4 where "s4 = s3\<lparr>rsStorage := rxDisk (take 5 rxFiles) 13\<rparr>"
  define s5 where "s5 = s4\<lparr>rsStorage := rxDisk rxFiles 17\<rparr>"
  note states = s3_def s4_def s5_def rxMeasurement_simps
  have w: "rsWorld s3 = 5" by (simp add: states)
  have "encodeRun rxEncoder rxSummary = Some (printIndented rxEncoder (runJSON exFloatText formatTime rxSummary))"
    using rxSplit(2) by (simp add: encodeRun_def encodeSplit_def rxSummary_fields rxEncoder_def split: if_splits)
  then have a: "storeJSON rxDir ''manifest.json'' (encodeRun rxEncoder rxSummary) s3 = Some (Inr (), s4)"
    using rxStores(2) [OF _ rxSafe(4), of s3 "take 4 rxFiles" 9] by (simp add: states rxFiles_def)
  have b: "storeJSON rxDir ''metadata.json'' (Some (printIndented rxEncoder (runMetadataJSON rxMetadata))) s4 = Some (Inr (), s5)"
    using rxStores(2) [OF _ rxSafe(5), of s4 "take 5 rxFiles" 13] by (simp add: states rxFiles_def)
  have "artifactChecksums rxEncoder (stHost (rsStorage s5)) rxDir checksummedRunArtifacts = Inr rxChecks"
    using rxChecksums [of 17] by (auto simp: rxChecks_def states)
  then have c: "storeChecksums rxEncoder rxDir s5 = Some (Inr (), rxPublishedState)"
    using rxStores(2) [OF _ rxSafe(6), of s5 rxFiles 17]
    by (simp add: storeChecksums_def states rxPublishedState_def) (simp add: rxFiles_def)
  have "storeEvidence rxEncoder rxDir rxSummary rxMetadata s3 = Some (Inr rxSummary, rxPublishedState)"
    by (simp add: storeEvidence_def a b c)
  then show ?thesis
    using rxSettled by (simp add: publishRun_def rxEnv_snapshot w rxSummary_def rxMetadata_def flip: s3_def)
qed

lemma rxRun: "Runner_Run rxEnv rxEncoder (rxConfig True) (startState 0 rxStorage) = Some (Inr rxSummary, rxPublishedState)"
proof -
  have "rsWorld rxPrepared = 0" "rsFaultApplied rxPrepared = None" "rsFaultCalls rxPrepared = []" by (simp_all add: rxPrepared_def)
  then have "measureRun rxEnv (rxConfig True) ConditionFault rxPrepared = Some (Inr rxMeasurement, rxMeasuredState)"
    using rxMeasured [of rxPrepared] by (simp add: rxMeasuredState_def)
  then have "runBody rxEnv rxEncoder (rxConfig True) (startState 0 rxStorage) = Some (Inr rxSummary, rxPublishedState)"
    by (simp add: runBody_def rxValid rxPrepare rxPublished)
  moreover have "exitRun rxEnv (rxConfig True) rxPublishedState = ([], rxPublishedState)"
    by (simp add: exitRun_def revertAtExit_def stopObserver_def closeRaw_def rxPublishedState_def rxMeasurement_simps)
  ultimately show ?thesis by (simp add: Runner_Run_def)
qed

section \<open>What is asked of the surroundings\<close>

definition rxCodec :: codec where
  "rxCodec = \<lparr>decodeStream = decodeText, decodeYAML = (\<lambda>_. Some (exScenario, RestEOF)), Sum256 = rxSum\<rparr>"

lemma rxCodec_for: "codecFor rxCodec rxEncoder"
proof -
  have "length (rxSum data) = 32" for data by (simp add: rxSum_def)
  then show ?thesis by (simp add: codecFor_def rxCodec_def rxEncoder_def decodeText_printText)
qed

lemma rxSeenAt: "latestTimestamp (observationsAtSlotMap (snapBeacon (rxSnap k)) rxSorted (rxSlot k)) = exTime + 12 * second * uint (rxSlot k)"
proof -
  have "zeroTime < exTime" "0 \<le> 12 * second * uint (rxSlot k)" by (simp_all add: zeroTime_def exTime_def second_def)
  then have "zeroTime < exTime + 12 * second * uint (rxSlot k)" by linarith
  then show ?thesis by (simp add: latestTimestamp_def observationsAtSlotMap_def rxAt exSeen_def Let_def)
qed

lemma rxWritable: "runWritable (floatText rxEncoder) (timeText rxEncoder) rxSummary"
proof -
  have t: "ParseRFC3339 (formatTime (exTime + 12 * second * 101)) = Some (exTime + 12 * second * 101)"
    "ParseRFC3339 (formatTime (exTime + 12 * second * 104)) = Some (exTime + 12 * second * 104)"
    by code_simp+
  have "StartedAt (rnWindow rxSummary) = exTime + 12 * second * 101" "EndedAt (rnWindow rxSummary) = exTime + 12 * second * 104"
    using rxSeenAt [of 1] rxSeenAt [of 4]
    by (simp_all add: rxSummary_def summaryOf_def summarizeRun_def rxMeasurement_def rxNames(2) rxSlots Let_def)
  then show ?thesis
    using exRunOf_writable [of ConditionFault 1] t
    by (simp add: runWritable_def rxSummary_fields rxEncoder_def exRunOf_def)
qed

lemma rxRecorded: "recordedRuntime (rxSnap k) exScenario rxSpec"
proof -
  let ?m = "zeroRunMetadata\<lparr>RuntimeSpecs := snapSpecs (rxSnap 0), RuntimeGenesis := snapGenesis (rxSnap 0)\<rparr>"
  have "validateRuntimeMetadata ?m exScenario = Inr rxSpec" by code_simp
  then have "runtimeAgrees ?m exScenario rxSpec"
    by (rule validateRuntimeMetadata_Inr [THEN iffD1, rotated]) (simp add: exScenario_def shippedScenario_def)
  moreover have "snapSpecs (rxSnap k) = snapSpecs (rxSnap 0)" "snapGenesis (rxSnap k) = snapGenesis (rxSnap 0)"
    by (simp_all add: rxSnap_def)
  ultimately show ?thesis
    by (simp add: recordedRuntime_def) (simp add: rxSnap_def rxNames(1) gomap_def rxSpec_def exRuntimeSpec_def)
qed

lemma summaryStep_ascii:
  assumes "list_all ascii names" "list_all ascii (ssPrimaryGaps st)"
  shows "list_all ascii (ssPrimaryGaps (fold (summaryStep c d starts ends clients groups ra rs dv) names st))"
  using assms
proof (induction names arbitrary: st)
  case (Cons name names)
  have "list_all ascii (ssPrimaryGaps (summaryStep c d starts ends clients groups ra rs dv name st))"
    using Cons.prems by (simp add: summaryStep_def Let_def finalizedEpochProgress_def code_def)
  then show ?case using Cons by simp
qed simp

lemma summary_gaps_ascii:
  assumes "snapGaps d = []" "list_all ascii names"
  shows "list_all ascii (MeasurementGaps (summarizeRun cfg names c r split i e d a b ra rs w))"
proof -
  have recovery: "ascii recoveryGapText" by (simp add: code_def recoveryGapText_def)
  have "list_all ascii (primaryMeasurementGaps d a b starts ends names)" for starts ends
    using assms by (auto simp: primaryMeasurementGaps_def pollGaps_def missingGap_def list_all_iff code_def)
  then have "list_all ascii (ssPrimaryGaps (fold (summaryStep c d starts ends clients groups ra rs dv) names
      \<lparr>ssTargets = [], ssPrimaryGaps = primaryMeasurementGaps d a b starts ends names\<rparr>))" for starts ends clients groups dv
    using assms(2) by (intro summaryStep_ascii) simp_all
  then show ?thesis using recovery assms(1)
    by (auto simp: summarizeRun_def Let_def list_all_iff recoveryMeasurementGaps_def pollGaps_def)
qed

lemma rxInputs_ascii:
  "list_all (\<lambda>n. ascii n \<and> ascii (mget [] (clientsOf exScenario) n) \<and>
     ascii (mget [] (groupsOf exScenario (inPlacements (rxConfig True))) n)) rxSorted \<and>
   list_all ascii [formatTime (exTime + 12 * second * 101), formatTime (exTime + 12 * second * 104)]"
  by code_simp

lemmas plain_simps = splitJSON_def dependencyJSON_def placementJSON_def plain_jsonMap beaconSpecJSON_def beaconGenesisJSON_def
  ascii_validUTF8 code_def

lemma rxPlain_inputs:
  "plainJSON (splitJSON exFloatText exSplit)" "plainJSON (dependencyJSON exMetadata)"
  "list_all (\<lambda>p. plainJSON (placementJSON p)) (inPlacements (rxConfig True))"
  "plainJSON (jsonMap beaconSpecJSON (snapSpecs (rxSnap 5)))" "plainJSON (jsonMap beaconGenesisJSON (snapGenesis (rxSnap 5)))"
  "list_all validUTF8 (OrderSeed (scMethodology exScenario) # RunOrder (scMethodology exScenario))"
proof -
  have n: "jsonNumber ''0''" "jsonNumber ''0.5''"
    by (simp_all add: jsonNumber_def unsignedNumber_def fractionPart_def digitsThen_def exponentPart_def isDigit_def code_def)
  show "plainJSON (splitJSON exFloatText exSplit)"
    by (simp add: plain_simps exSplit_def exFloatText_def n del: validUTF8.simps)
  show "plainJSON (dependencyJSON exMetadata)"
    by (simp add: plain_simps exMetadata_def exCommit_def exImage_def exDigest_def del: validUTF8.simps)
  show "list_all (\<lambda>p. plainJSON (placementJSON p)) (inPlacements (rxConfig True))"
    by (simp add: rxConfig_def plain_simps exPlacement_def exScenario_def shippedScenario_def del: validUTF8.simps)
  show "plainJSON (jsonMap beaconSpecJSON (snapSpecs (rxSnap 5)))" "plainJSON (jsonMap beaconGenesisJSON (snapGenesis (rxSnap 5)))"
    by (simp_all add: rxSnap_def rxNames(1) rxSpec_def exRuntimeSpec_def exRuntimeGenesis_def exDigest_def plain_simps del: validUTF8.simps)
  show "list_all validUTF8 (OrderSeed (scMethodology exScenario) # RunOrder (scMethodology exScenario))"
    by (simp add: exScenario_def shippedScenario_def plain_simps del: validUTF8.simps)
qed

lemma rxPlain: "plainEvidence rxEncoder (rxConfig True) (rxSnap 5) rxSummary"
proof -
  have "list_all ascii (MeasurementGaps rxSummary)"
    unfolding rxSummary_def summaryOf_def rxNames(2)
    by (rule summary_gaps_ascii) (simp_all add: rxSnap_def code_def)
  moreover have "StartedAt (rnWindow rxSummary) = exTime + 12 * second * 101" "EndedAt (rnWindow rxSummary) = exTime + 12 * second * 104"
    using rxSeenAt [of 1] rxSeenAt [of 4]
    by (simp_all add: rxSummary_def summaryOf_def summarizeRun_def rxMeasurement_def rxNames(2) rxSlots Let_def)
  moreover have "list_all (\<lambda>t. list_all validUTF8 [resTarget t, resCLClient t, resGroup t]) (rnTargets rxSummary)"
    using rxInputs_ascii
    by (simp add: rxSummary_def summaryOf_def summary_targets rxNames(2) summaryTarget_def run_inputs.truncate_def Let_def
        ascii_validUTF8 del: validUTF8.simps)
  moreover have "list_all validUTF8 [rnSchemaVersion rxSummary, RunID rxSummary, Condition rxSummary]"
    by (simp add: rxSummary_def summaryOf_def summary_fields run_inputs.truncate_def RunSchemaVersion_def ConditionFault_def
        plain_simps del: validUTF8.simps)
  ultimately show ?thesis using conjunct2 [OF rxInputs_ascii] rxPlain_inputs
    by (simp add: plainEvidence_def plain_run rxSummary_fields rxEncoder_def list_all_iff ascii_validUTF8 del: validUTF8.simps)
qed

theorem Run_evidence_witness:
  "\<exists>st' run. Runner_Run rxEnv rxEncoder (rxConfig True) (startState 0 rxStorage) = Some (Inr run, st') \<and>
     loadStep rxCodec (hostOf st') ''/runs'' exScenario ''fault-1'' =
       Inr (run\<lparr>Dependencies := sortMetadata exMetadata\<rparr>)"
proof -
  have join: "Join ''/runs'' ''fault-1'' = rxDir" by code_simp
  have "loadStep rxCodec (hostOf rxPublishedState) ''/runs'' (inScenario (rxConfig True)) (inRunID (rxConfig True)) =
       Inr (rxSummary\<lparr>Dependencies := sortMetadata (Dependencies rxSummary)\<rparr>)"
  proof (rule Run_evidence [OF rxRun _ _ rxCodec_for _ rxWritable])
    show "cfArtifacts (rxConfig True) = Some (Join ''/runs'' (inRunID (rxConfig True)))" by (simp add: join)
    show "Lstat (stHost rxStorage) (Join ''/runs'' (inRunID (rxConfig True))) = Some DirNode"
      by (simp add: join) (simp add: rxStorage_def)
    show "Scenario_Parse (decodeYAML rxCodec) (Sum256 rxCodec) (cfScenarioYAML (rxConfig True)) = Inr (inScenario (rxConfig True))"
      using rxScenario_ok by (simp add: Scenario_Parse_def rxCodec_def) (simp add: rxConfig_def maxScenarioBytes_def)
    show "NaN \<notin> set (scenarioFloats (inScenario (rxConfig True)))"
      by (simp add: scenarioFloats_def exScenario_def shippedScenario_def lit_def)
    show "disjointRanges (cfValidatorRanges (rxConfig True))" using exRanges_disjoint by (simp add: rxConfig_def)
    show "recordedRuntime (envSnapshot rxEnv (rsWorld rxPublishedState)) (inScenario (rxConfig True)) rxSpec"
      by (simp add: rxEnv_snapshot rxRecorded)
    show "plainEvidence rxEncoder (rxConfig True) (envSnapshot rxEnv (rsWorld rxPublishedState)) rxSummary"
      using rxPlain by (simp add: rxEnv_snapshot rxPublishedState_def rxMeasurement_simps)
  qed (auto simp: rxEnv_snapshot rxEnv_stop rxConfig_def exActives_def exActive_def, auto simp: rxSnap_def)
  then show ?thesis using rxRun by (auto simp: rxSummary_fields)
qed

end
