(* ===== verification/Telemetry.thy ===== *)
theory Telemetry
  imports Recorders Dataset Float64
begin

text \<open>
  The metrics of the observer (internal/telemetry/metrics.go, optional_gauge.go). The Prometheus client
  library is a parameter: a state and what a call on one of its vectors does to it. The calls that the
  recorder makes are data, so what is shown of them holds for every library; the documented behaviour
  of gauges is the hypothesis of the theorems that read one.
\<close>

section \<open>Gauges without labels\<close>

text \<open>\<^verbatim>\<open>Collect\<close> emits a value or nothing. The mutex makes every operation one step.\<close>

record optional_gauge =
  ogNamespace :: string
  ogSubsystem :: string
  ogName :: string
  ogHelp :: string
  ogPresent :: bool
  ogValue :: f64

definition newOptionalGauge :: "string \<Rightarrow> string \<Rightarrow> string \<Rightarrow> string \<Rightarrow> optional_gauge" where
  "newOptionalGauge namespace subsystem name help =
     \<lparr>ogNamespace = namespace, ogSubsystem = subsystem, ogName = name, ogHelp = help, ogPresent = False, ogValue = Fin 0\<rparr>"

definition optionalGauge_Describe :: "optional_gauge \<Rightarrow> string \<times> string \<times> string \<times> string" where
  "optionalGauge_Describe g = (ogNamespace g, ogSubsystem g, ogName g, ogHelp g)"

definition optionalGauge_Collect :: "optional_gauge \<Rightarrow> f64 option" where
  "optionalGauge_Collect g = (if \<not> ogPresent g then None else Some (ogValue g))"

definition optionalGauge_Set :: "f64 \<Rightarrow> optional_gauge \<Rightarrow> optional_gauge" where
  "optionalGauge_Set value g = g\<lparr>ogValue := value, ogPresent := True\<rparr>"

definition optionalGauge_Clear :: "optional_gauge \<Rightarrow> optional_gauge" where
  "optionalGauge_Clear g = g\<lparr>ogPresent := False\<rparr>"

text \<open>What the metrics rely on: the gauge emits what was set last, and nothing once it is cleared.\<close>

locale optional_cell =
  fixes put :: "f64 \<Rightarrow> 'g \<Rightarrow> 'g" and clear :: "'g \<Rightarrow> 'g" and collect :: "'g \<Rightarrow> f64 option"
  assumes collect_put [simp]: "collect (put x g) = Some x" and collect_clear [simp]: "collect (clear g) = None"
begin

lemma collect_last:
  "collect (fold (\<lambda>x. case x of None \<Rightarrow> clear | Some y \<Rightarrow> put y) ops g) = (if ops = [] then collect g else last ops)"
  by (induction ops rule: rev_induct) (auto split: option.splits)

end

interpretation og: optional_cell optionalGauge_Set optionalGauge_Clear optionalGauge_Collect
  by unfold_locales (simp_all add: optionalGauge_Set_def optionalGauge_Clear_def optionalGauge_Collect_def)

lemma Collect_new: "optionalGauge_Collect (newOptionalGauge namespace subsystem name help) = None"
  by (simp add: optionalGauge_Collect_def newOptionalGauge_def)

section \<open>The metrics\<close>

datatype (plugins only: code size) metric =
    mt_headSlot | mt_finalizedEpoch | mt_finalityLagSlots | mt_beaconComparisons
  | mt_beaconOptimistic | mt_secondsPerSlot | mt_slotsPerEpoch | mt_targetUp
  | mt_lastSuccessTimestamp | mt_beaconPolls | mt_beaconPollDuration | mt_errors
  | mt_executionHeadNumber | mt_executionContinuity | mt_executionHeads | mt_executionReorgs
  | mt_executionReorgDepth

datatype (plugins only: code size) metric_kind = GaugeKind | CounterKind | HistogramKind

record metric_opts =
  moKind :: metric_kind
  moNamespace :: string
  moSubsystem :: string
  moName :: string
  moHelp :: string
  moLabels :: "string list"

definition observerOpts :: "metric_kind \<Rightarrow> string \<Rightarrow> string \<Rightarrow> string list \<Rightarrow> metric_opts" where
  "observerOpts kind name help labels = \<lparr>moKind = kind, moNamespace = ''ethquake'', moSubsystem = ''observer'',
     moName = name, moHelp = help, moLabels = labels\<rparr>"

text \<open>The histogram has the default buckets of the library.\<close>

fun metricOpts :: "metric \<Rightarrow> metric_opts" where
  "metricOpts mt_headSlot = observerOpts GaugeKind ''beacon_head_slot''
     ''Most recently observed Beacon head slot, absent after a failed poll.'' [''target'']"
| "metricOpts mt_finalizedEpoch = observerOpts GaugeKind ''beacon_finalized_epoch''
     ''Most recently observed finalized epoch, absent after a failed poll.'' [''target'']"
| "metricOpts mt_finalityLagSlots = observerOpts GaugeKind ''finality_lag_slots''
     ''Head slot minus the first slot of the finalized epoch, absent after a failed poll.'' [''target'']"
| "metricOpts mt_beaconComparisons = observerOpts CounterKind ''beacon_head_comparisons_total''
     ''Complete same-slot head comparisons partitioned by agreement result.'' [''result'']"
| "metricOpts mt_beaconOptimistic = observerOpts GaugeKind ''beacon_execution_optimistic''
     ''Whether a Beacon response reports execution_optimistic, partitioned by source.'' [''source'', ''target'']"
| "metricOpts mt_secondsPerSlot = observerOpts GaugeKind ''runtime_seconds_per_slot''
     ''SECONDS_PER_SLOT read from the target Beacon API at runtime.'' [''target'']"
| "metricOpts mt_slotsPerEpoch = observerOpts GaugeKind ''runtime_slots_per_epoch''
     ''SLOTS_PER_EPOCH read from the target Beacon API at runtime.'' [''target'']"
| "metricOpts mt_targetUp = observerOpts GaugeKind ''target_up''
     ''Whether the most recent target poll produced a complete valid observation.'' [''protocol'', ''target'']"
| "metricOpts mt_lastSuccessTimestamp = observerOpts GaugeKind ''last_success_timestamp_seconds''
     ''Unix timestamp of the most recent complete valid target observation.'' [''protocol'', ''target'']"
| "metricOpts mt_beaconPolls = observerOpts CounterKind ''beacon_polls_total''
     ''Beacon target polls partitioned by success or error result.'' [''target'', ''result'']"
| "metricOpts mt_beaconPollDuration = observerOpts HistogramKind ''beacon_poll_duration_seconds''
     ''Duration of Beacon target polls.'' [''target'']"
| "metricOpts mt_errors = observerOpts CounterKind ''errors_total''
     ''Measurement errors partitioned by protocol and operation.'' [''protocol'', ''operation'', ''target'']"
| "metricOpts mt_executionHeadNumber = observerOpts GaugeKind ''execution_head_number''
     ''Most recently observed execution head number, absent after subscription failure.'' [''target'']"
| "metricOpts mt_executionContinuity = observerOpts GaugeKind ''execution_continuity''
     ''Whether reorg continuity is established at the most recent execution head.'' [''target'']"
| "metricOpts mt_executionHeads = observerOpts CounterKind ''execution_heads_total''
     ''Validated newHeads notifications received from an execution target.'' [''target'']"
| "metricOpts mt_executionReorgs = observerOpts CounterKind ''execution_reorgs_total''
     ''Execution reorgs detected from parent-hash continuity.'' [''target'']"
| "metricOpts mt_executionReorgDepth = observerOpts GaugeKind ''execution_reorg_depth''
     ''Depth of the most recent reorg when known; absent when depth is unknown.'' [''target'']"

datatype (plugins only: code size) collector = VecC metric | AgreementC | ComparisonSlotC

definition collectors :: "collector list" where
  "collectors = [VecC mt_headSlot, VecC mt_finalizedEpoch, VecC mt_finalityLagSlots, AgreementC, ComparisonSlotC
     , VecC mt_beaconComparisons, VecC mt_beaconOptimistic, VecC mt_secondsPerSlot
     , VecC mt_slotsPerEpoch, VecC mt_targetUp, VecC mt_lastSuccessTimestamp, VecC mt_beaconPolls
     , VecC mt_beaconPollDuration, VecC mt_errors, VecC mt_executionHeadNumber
     , VecC mt_executionContinuity, VecC mt_executionHeads, VecC mt_executionReorgs
     , VecC mt_executionReorgDepth]"

text \<open>The calls on a vector, with the values of its labels.\<close>

datatype (plugins only: code size) prom_call =
    SetGauge metric "string list" f64 | DeleteGauge metric "string list"
  | IncCounter metric "string list" | ObserveHistogram metric "string list" f64

record 'p metrics =
  mxRegistry :: 'p
  beaconHeadAgreement :: optional_gauge
  beaconComparisonSlot :: optional_gauge

text \<open>\<^verbatim>\<open>Register\<close> may refuse a collector.\<close>

fun registerAll :: "(collector \<Rightarrow> 'p \<Rightarrow> bool \<times> 'p) \<Rightarrow> collector list \<Rightarrow> 'p \<Rightarrow> collector + 'p" where
  "registerAll register [] p = Inr p"
| "registerAll register (c # cs) p =
     (case register c p of (False, _) \<Rightarrow> Inl c | (True, p) \<Rightarrow> registerAll register cs p)"

definition NewMetrics :: "(collector \<Rightarrow> 'p \<Rightarrow> bool \<times> 'p) \<Rightarrow> 'p \<Rightarrow> collector + 'p metrics" where
  "NewMetrics register p =
     bindR (registerAll register collectors p) (\<lambda>p.
       Inr \<lparr>mxRegistry = p,
         beaconHeadAgreement = newOptionalGauge ''ethquake'' ''observer'' ''beacon_head_agreement''
           ''Whether all targets reported the same block root at the latest compared slot.'',
         beaconComparisonSlot = newOptionalGauge ''ethquake'' ''observer'' ''beacon_head_comparison_slot''
           ''Latest slot for which all Beacon targets reported a block root.''\<rparr>)"

section \<open>Recording\<close>

definition makeCalls :: "(prom_call \<Rightarrow> 'p \<Rightarrow> 'p) \<Rightarrow> prom_call list \<Rightarrow> 'p metrics \<Rightarrow> 'p metrics" where
  "makeCalls prom calls m = m\<lparr>mxRegistry := fold prom calls (mxRegistry m)\<rparr>"

definition flag :: "bool \<Rightarrow> f64" where
  "flag b = (if b then Fin 1 else Fin 0)"

lemma flag_simps [simp]: "flag True = Fin 1" "flag False = Fin 0"
  by (simp_all add: flag_def)

definition f64_of_int :: "int \<Rightarrow> f64" where
  "f64_of_int i = Fin (fl (of_int i))"

text \<open>\<^verbatim>\<open>time.Duration.Seconds\<close>: the division of Go truncates.\<close>

definition Seconds :: "int \<Rightarrow> f64" where
  "Seconds d = (let whole = sgn d * (\<bar>d\<bar> div second); rest = d - whole * second in
     fadd (f64_of_int whole) (fdiv (f64_of_int rest) (lit 1000000000)))"

definition specCalls :: "spec_observation \<Rightarrow> prom_call list" where
  "specCalls ob =
     [SetGauge mt_secondsPerSlot [soTarget ob] (f64_of_u64 (SecondsPerSlot (soSpec ob))),
      SetGauge mt_slotsPerEpoch [soTarget ob] (f64_of_u64 (SlotsPerEpoch (soSpec ob)))]"

definition beaconCalls :: "beacon_observation \<Rightarrow> prom_call list" where
  "beaconCalls ob =
     [SetGauge mt_headSlot [boTarget ob] (f64_of_u64 (headSlot (boHead ob))),
      SetGauge mt_finalizedEpoch [boTarget ob] (f64_of_u64 (finalityEpoch (boFinality ob))),
      SetGauge mt_finalityLagSlots [boTarget ob] (f64_of_u64 (boFinalityLag ob)),
      SetGauge mt_beaconOptimistic [''head'', boTarget ob] (flag (headOptimistic (boHead ob))),
      SetGauge mt_beaconOptimistic [''finality'', boTarget ob] (flag (finalityOptimistic (boFinality ob))),
      SetGauge mt_targetUp [''beacon'', boTarget ob] (Fin 1),
      SetGauge mt_lastSuccessTimestamp [''beacon'', boTarget ob] (f64_of_int (UnixSeconds (boTimestamp ob))),
      IncCounter mt_beaconPolls [boTarget ob, ''success''],
      ObserveHistogram mt_beaconPollDuration [boTarget ob] (Seconds (boPollDuration ob))]"

definition beaconFailureCalls :: "poll_failure \<Rightarrow> prom_call list" where
  "beaconFailureCalls f =
     [DeleteGauge mt_headSlot [pfTarget f], DeleteGauge mt_finalizedEpoch [pfTarget f],
      DeleteGauge mt_finalityLagSlots [pfTarget f], DeleteGauge mt_beaconOptimistic [''head'', pfTarget f],
      DeleteGauge mt_beaconOptimistic [''finality'', pfTarget f]]"

definition failureCalls :: "poll_failure \<Rightarrow> prom_call list" where
  "failureCalls f =
     IncCounter mt_errors [pfProtocol f, pfOperation f, pfTarget f] #
     (if pfProtocol f = ''beacon'' then
        beaconFailureCalls f @
        [SetGauge mt_targetUp [''beacon'', pfTarget f] (Fin 0), IncCounter mt_beaconPolls [pfTarget f, ''error''],
         ObserveHistogram mt_beaconPollDuration [pfTarget f] (Seconds (pfPollDuration f))]
      else if pfProtocol f = ''execution'' then
        SetGauge mt_executionContinuity [pfTarget f] (Fin 0) #
        (if pfOperation f = ''execution_subscription''
         then [DeleteGauge mt_executionHeadNumber [pfTarget f], SetGauge mt_targetUp [''execution'', pfTarget f] (Fin 0)]
         else [])
      else [])"

definition executionCalls :: "exec_observation \<Rightarrow> prom_call list" where
  "executionCalls ob =
     [SetGauge mt_executionHeadNumber [eoTarget ob] (f64_of_u64 (headNumber (eoHead ob))),
      SetGauge mt_executionContinuity [eoTarget ob] (flag (eoContinuity ob)),
      IncCounter mt_executionHeads [eoTarget ob],
      SetGauge mt_targetUp [''execution'', eoTarget ob] (Fin 1),
      SetGauge mt_lastSuccessTimestamp [''execution'', eoTarget ob] (f64_of_int (UnixSeconds (eoTimestamp ob)))]"

definition reorgCalls :: "reorg_observation \<Rightarrow> prom_call list" where
  "reorgCalls ob =
     [IncCounter mt_executionReorgs [reorgTarget ob],
      case Depth ob of
        None \<Rightarrow> DeleteGauge mt_executionReorgDepth [reorgTarget ob]
      | Some depth \<Rightarrow> SetGauge mt_executionReorgDepth [reorgTarget ob] (f64_of_u64 depth)]"

definition Metrics_RecordSpec :: "(prom_call \<Rightarrow> 'p \<Rightarrow> 'p) \<Rightarrow> ('p metrics, spec_observation) record_op" where
  "Metrics_RecordSpec prom ob m = (None, makeCalls prom (specCalls ob) m)"

definition Metrics_RecordBeacon :: "(prom_call \<Rightarrow> 'p \<Rightarrow> 'p) \<Rightarrow> ('p metrics, beacon_observation) record_op" where
  "Metrics_RecordBeacon prom ob m = (None, makeCalls prom (beaconCalls ob) m)"

definition Metrics_RecordHeadComparison ::
  "(prom_call \<Rightarrow> 'p \<Rightarrow> 'p) \<Rightarrow> ('p metrics, head_comparison) record_op" where
  "Metrics_RecordHeadComparison prom c m =
     (let m = m\<lparr>beaconHeadAgreement := optionalGauge_Set (flag (hcAgreement c)) (beaconHeadAgreement m),
                beaconComparisonSlot := optionalGauge_Set (f64_of_u64 (hcSlot c)) (beaconComparisonSlot m)\<rparr> in
      (None, makeCalls prom
        [IncCounter mt_beaconComparisons [if hcAgreement c then ''agreement'' else ''mismatch'']] m))"

definition Metrics_RecordPollFailure :: "(prom_call \<Rightarrow> 'p \<Rightarrow> 'p) \<Rightarrow> ('p metrics, poll_failure) record_op" where
  "Metrics_RecordPollFailure prom f m =
     (let m = (if pfProtocol f = ''beacon''
        then m\<lparr>beaconHeadAgreement := optionalGauge_Clear (beaconHeadAgreement m),
               beaconComparisonSlot := optionalGauge_Clear (beaconComparisonSlot m)\<rparr>
        else m) in
      (None, makeCalls prom (failureCalls f) m))"

definition Metrics_RecordExecution :: "(prom_call \<Rightarrow> 'p \<Rightarrow> 'p) \<Rightarrow> ('p metrics, exec_observation) record_op" where
  "Metrics_RecordExecution prom ob m = (None, makeCalls prom (executionCalls ob) m)"

definition Metrics_RecordReorg :: "(prom_call \<Rightarrow> 'p \<Rightarrow> 'p) \<Rightarrow> ('p metrics, reorg_observation) record_op" where
  "Metrics_RecordReorg prom ob m = (None, makeCalls prom (reorgCalls ob) m)"

definition MetricsRecorder :: "(prom_call \<Rightarrow> 'p \<Rightarrow> 'p) \<Rightarrow> 'p metrics recorder" where
  "MetricsRecorder prom =
     \<lparr>RecordSpec = Metrics_RecordSpec prom, RecordBeacon = Metrics_RecordBeacon prom,
      RecordHeadComparison = Metrics_RecordHeadComparison prom, RecordPollFailure = Metrics_RecordPollFailure prom\<rparr>"

definition MetricsExecRecorder :: "(prom_call \<Rightarrow> 'p \<Rightarrow> 'p) \<Rightarrow> 'p metrics exec_recorder" where
  "MetricsExecRecorder prom =
     \<lparr>RecordExecution = Metrics_RecordExecution prom, RecordReorg = Metrics_RecordReorg prom,
      RecordExecFailure = Metrics_RecordPollFailure prom\<rparr>"

section \<open>Every call fits its vector\<close>

lemma observerOpts_simps [simp]:
  "moKind (observerOpts kind name help labels) = kind" "moName (observerOpts kind name help labels) = name"
  "moLabels (observerOpts kind name help labels) = labels"
  by (simp_all add: observerOpts_def)

text \<open>
  \<^verbatim>\<open>WithLabelValues\<close> panics when the number of values is not the number of labels, and
  \<^verbatim>\<open>Register\<close> refuses a second collector of a name.
\<close>

fun fits :: "prom_call \<Rightarrow> bool" where
  "fits (SetGauge mt ls _) = (moKind (metricOpts mt) = GaugeKind \<and> length ls = length (moLabels (metricOpts mt)))"
| "fits (DeleteGauge mt ls) = (moKind (metricOpts mt) = GaugeKind \<and> length ls = length (moLabels (metricOpts mt)))"
| "fits (IncCounter mt ls) = (moKind (metricOpts mt) = CounterKind \<and> length ls = length (moLabels (metricOpts mt)))"
| "fits (ObserveHistogram mt ls _) = (moKind (metricOpts mt) = HistogramKind \<and> length ls = length (moLabels (metricOpts mt)))"

fun collectorName :: "collector \<Rightarrow> string" where
  "collectorName (VecC mt) = moName (metricOpts mt)"
| "collectorName AgreementC = ''beacon_head_agreement''"
| "collectorName ComparisonSlotC = ''beacon_head_comparison_slot''"

datatype (plugins only: code size) recorded =
    RecSpec spec_observation | RecBeacon beacon_observation | RecComparison head_comparison
  | RecFailure poll_failure | RecExecution exec_observation | RecReorg reorg_observation

fun recordedCalls :: "recorded \<Rightarrow> prom_call list" where
  "recordedCalls (RecSpec ob) = specCalls ob"
| "recordedCalls (RecBeacon ob) = beaconCalls ob"
| "recordedCalls (RecComparison c) = [IncCounter mt_beaconComparisons [if hcAgreement c then ''agreement'' else ''mismatch'']]"
| "recordedCalls (RecFailure f) = failureCalls f"
| "recordedCalls (RecExecution ob) = executionCalls ob"
| "recordedCalls (RecReorg ob) = reorgCalls ob"

fun recordOne :: "(prom_call \<Rightarrow> 'p \<Rightarrow> 'p) \<Rightarrow> recorded \<Rightarrow> 'p metrics \<Rightarrow> rec_err option \<times> 'p metrics" where
  "recordOne prom (RecSpec ob) m = RecordSpec (MetricsRecorder prom) ob m"
| "recordOne prom (RecBeacon ob) m = RecordBeacon (MetricsRecorder prom) ob m"
| "recordOne prom (RecComparison c) m = RecordHeadComparison (MetricsRecorder prom) c m"
| "recordOne prom (RecFailure f) m = RecordPollFailure (MetricsRecorder prom) f m"
| "recordOne prom (RecExecution ob) m = RecordExecution (MetricsExecRecorder prom) ob m"
| "recordOne prom (RecReorg ob) m = RecordReorg (MetricsExecRecorder prom) ob m"

definition recordAll :: "(prom_call \<Rightarrow> 'p \<Rightarrow> 'p) \<Rightarrow> recorded list \<Rightarrow> 'p metrics \<Rightarrow> 'p metrics" where
  "recordAll prom evs m = fold (\<lambda>ev m. snd (recordOne prom ev m)) evs m"

lemmas Metrics_ops = MetricsRecorder_def MetricsExecRecorder_def Metrics_RecordSpec_def Metrics_RecordBeacon_def
  Metrics_RecordHeadComparison_def Metrics_RecordPollFailure_def Metrics_RecordExecution_def Metrics_RecordReorg_def
  makeCalls_def Let_def

lemmas Metrics_calls = specCalls_def beaconCalls_def beaconFailureCalls_def failureCalls_def executionCalls_def reorgCalls_def

lemma recordOne_calls:
  "fst (recordOne prom ev m) = None" "mxRegistry (snd (recordOne prom ev m)) = fold prom (recordedCalls ev) (mxRegistry m)"
  by (cases ev; simp add: Metrics_ops)+

lemma calls_fit: "list_all fits (recordedCalls ev)"
  by (cases ev) (simp_all add: Metrics_calls split: option.splits)

lemma collectors_distinct: "distinct (map collectorName collectors)" "length collectors = 19"
  by (simp_all add: collectors_def)

section \<open>What the gauges show\<close>

text \<open>What is known of the targets after some measurements.\<close>

record view =
  vwSpec :: "string \<Rightarrow> spec_observation option"
  vwBeacon :: "string \<Rightarrow> beacon_observation option"
  vwComparison :: "head_comparison option"
  vwUp :: "string \<Rightarrow> string \<Rightarrow> bool option"
  vwSuccess :: "string \<Rightarrow> string \<Rightarrow> time option"
  vwExecution :: "string \<Rightarrow> exec_observation option"
  vwContinuity :: "string \<Rightarrow> bool option"
  vwReorgDepth :: "string \<Rightarrow> u64 option"

definition emptyView :: view where
  "emptyView = \<lparr>vwSpec = Map.empty, vwBeacon = Map.empty, vwComparison = None, vwUp = (\<lambda>_. Map.empty),
     vwSuccess = (\<lambda>_. Map.empty), vwExecution = Map.empty, vwContinuity = Map.empty, vwReorgDepth = Map.empty\<rparr>"

definition upOf :: "string \<Rightarrow> string \<Rightarrow> bool \<Rightarrow> view \<Rightarrow> view" where
  "upOf protocol target b v = v\<lparr>vwUp := (vwUp v)(protocol := (vwUp v protocol)(target \<mapsto> b))\<rparr>"

definition successOf :: "string \<Rightarrow> string \<Rightarrow> time \<Rightarrow> view \<Rightarrow> view" where
  "successOf protocol target t v = v\<lparr>vwSuccess := (vwSuccess v)(protocol := (vwSuccess v protocol)(target \<mapsto> t))\<rparr>"

text \<open>
  A failed Beacon poll takes back what the last poll of the target showed, and the comparison of all
  targets; a failed execution target loses continuity, and its head when the subscription failed.
\<close>

fun viewStep :: "recorded \<Rightarrow> view \<Rightarrow> view" where
  "viewStep (RecSpec ob) v = v\<lparr>vwSpec := (vwSpec v)(soTarget ob \<mapsto> ob)\<rparr>"
| "viewStep (RecBeacon ob) v = upOf ''beacon'' (boTarget ob) True
     (successOf ''beacon'' (boTarget ob) (boTimestamp ob) (v\<lparr>vwBeacon := (vwBeacon v)(boTarget ob \<mapsto> ob)\<rparr>))"
| "viewStep (RecComparison c) v = v\<lparr>vwComparison := Some c\<rparr>"
| "viewStep (RecFailure f) v =
     (if pfProtocol f = ''beacon''
      then upOf ''beacon'' (pfTarget f) False (v\<lparr>vwBeacon := (vwBeacon v)(pfTarget f := None), vwComparison := None\<rparr>)
      else if pfProtocol f = ''execution''
      then (let v = v\<lparr>vwContinuity := (vwContinuity v)(pfTarget f \<mapsto> False)\<rparr> in
        if pfOperation f = ''execution_subscription''
        then upOf ''execution'' (pfTarget f) False (v\<lparr>vwExecution := (vwExecution v)(pfTarget f := None)\<rparr>) else v)
      else v)"
| "viewStep (RecExecution ob) v = upOf ''execution'' (eoTarget ob) True
     (successOf ''execution'' (eoTarget ob) (eoTimestamp ob)
       (v\<lparr>vwExecution := (vwExecution v)(eoTarget ob \<mapsto> ob), vwContinuity := (vwContinuity v)(eoTarget ob \<mapsto> eoContinuity ob)\<rparr>))"
| "viewStep (RecReorg ob) v = v\<lparr>vwReorgDepth := (vwReorgDepth v)(reorgTarget ob := Depth ob)\<rparr>"

text \<open>The gauges of a view: one label, or two.\<close>

fun one :: "(string \<Rightarrow> f64 option) \<Rightarrow> string list \<Rightarrow> f64 option" where
  "one f [target] = f target"
| "one f _ = None"

fun two :: "(string \<Rightarrow> string \<Rightarrow> f64 option) \<Rightarrow> string list \<Rightarrow> f64 option" where
  "two f [label, target] = f label target"
| "two f _ = None"

fun optimisticOf :: "view \<Rightarrow> string \<Rightarrow> string \<Rightarrow> f64 option" where
  "optimisticOf v source target =
     (if source = ''head'' then map_option (\<lambda>ob. flag (headOptimistic (boHead ob))) (vwBeacon v target)
      else if source = ''finality'' then map_option (\<lambda>ob. flag (finalityOptimistic (boFinality ob))) (vwBeacon v target)
      else None)"

fun shownGauge :: "view \<Rightarrow> metric \<Rightarrow> string list \<Rightarrow> f64 option" where
  "shownGauge v mt_headSlot = one (\<lambda>t. map_option (\<lambda>ob. f64_of_u64 (headSlot (boHead ob))) (vwBeacon v t))"
| "shownGauge v mt_finalizedEpoch = one (\<lambda>t. map_option (\<lambda>ob. f64_of_u64 (finalityEpoch (boFinality ob))) (vwBeacon v t))"
| "shownGauge v mt_finalityLagSlots = one (\<lambda>t. map_option (\<lambda>ob. f64_of_u64 (boFinalityLag ob)) (vwBeacon v t))"
| "shownGauge v mt_beaconOptimistic = two (optimisticOf v)"
| "shownGauge v mt_secondsPerSlot = one (\<lambda>t. map_option (\<lambda>ob. f64_of_u64 (SecondsPerSlot (soSpec ob))) (vwSpec v t))"
| "shownGauge v mt_slotsPerEpoch = one (\<lambda>t. map_option (\<lambda>ob. f64_of_u64 (SlotsPerEpoch (soSpec ob))) (vwSpec v t))"
| "shownGauge v mt_targetUp = two (\<lambda>p t. map_option flag (vwUp v p t))"
| "shownGauge v mt_lastSuccessTimestamp = two (\<lambda>p t. map_option (\<lambda>x. f64_of_int (UnixSeconds x)) (vwSuccess v p t))"
| "shownGauge v mt_executionHeadNumber = one (\<lambda>t. map_option (\<lambda>ob. f64_of_u64 (headNumber (eoHead ob))) (vwExecution v t))"
| "shownGauge v mt_executionContinuity = one (\<lambda>t. map_option flag (vwContinuity v t))"
| "shownGauge v mt_executionReorgDepth = one (\<lambda>t. map_option f64_of_u64 (vwReorgDepth v t))"
| "shownGauge v _ = (\<lambda>_. None)"

text \<open>
  The documented behaviour of gauges: \<^verbatim>\<open>Set\<close> stores the value of the labels, \<^verbatim>\<open>DeleteLabelValues\<close>
  removes it, and the other vectors are left alone.
\<close>

fun gaugeCall :: "prom_call \<Rightarrow> (metric \<Rightarrow> string list \<Rightarrow> f64 option) \<Rightarrow> metric \<Rightarrow> string list \<Rightarrow> f64 option" where
  "gaugeCall (SetGauge mt ls x) g = g(mt := (g mt)(ls \<mapsto> x))"
| "gaugeCall (DeleteGauge mt ls) g = g(mt := (g mt)(ls := None))"
| "gaugeCall (IncCounter mt ls) g = g"
| "gaugeCall (ObserveHistogram mt ls x) g = g"

definition lawfulGauges :: "(prom_call \<Rightarrow> 'p \<Rightarrow> 'p) \<Rightarrow> ('p \<Rightarrow> metric \<Rightarrow> string list \<Rightarrow> f64 option) \<Rightarrow> bool" where
  "lawfulGauges prom gauge \<longleftrightarrow> (\<forall>c p. fits c \<longrightarrow> gauge (prom c p) = gaugeCall c (gauge p))"

lemma lawful_fold: "lawfulGauges prom gauge \<Longrightarrow> list_all fits cs \<Longrightarrow> gauge (fold prom cs p) = fold gaugeCall cs (gauge p)"
  by (induction cs arbitrary: p) (simp_all add: lawfulGauges_def)

lemma one_update: "(one f)([t] := x) = one (f(t := x))"
proof
  fix ls show "((one f)([t] := x)) ls = one (f(t := x)) ls" by (cases "(f, ls)" rule: one.cases) auto
qed

lemma two_update: "(two f)([a, t] := x) = two (f(a := (f a)(t := x)))"
proof
  fix ls show "((two f)([a, t] := x)) ls = two (f(a := (f a)(t := x))) ls" by (cases "(f, ls)" rule: two.cases) auto
qed

lemma one_eqI: "(\<And>t. f t = g t) \<Longrightarrow> one f ls = one g ls"
  by (cases "(f, ls)" rule: one.cases) auto

lemma two_eqI: "(\<And>a t. f a t = g a t) \<Longrightarrow> two f ls = two g ls"
  by (cases "(f, ls)" rule: two.cases) auto

lemma one_None: "(\<And>t. f t = None) \<Longrightarrow> one f ls = None"
  by (cases "(f, ls)" rule: one.cases) auto

lemma two_None: "(\<And>a t. f a t = None) \<Longrightarrow> two f ls = None"
  by (cases "(f, ls)" rule: two.cases) auto

lemmas view_simps = upOf_def successOf_def one_update two_update

lemma shownGauge_step: "fold gaugeCall (recordedCalls ev) (shownGauge v) = shownGauge (viewStep ev v)"
proof
  fix mt show "fold gaugeCall (recordedCalls ev) (shownGauge v) mt = shownGauge (viewStep ev v) mt"
    by (cases ev; cases mt) (auto simp: Metrics_calls view_simps Let_def 
        intro!: ext one_eqI two_eqI split: option.splits)
qed

lemma comparison_step:
  assumes "optionalGauge_Collect (beaconHeadAgreement m) = map_option (\<lambda>c. flag (hcAgreement c)) (vwComparison v)"
    and "optionalGauge_Collect (beaconComparisonSlot m) = map_option (\<lambda>c. f64_of_u64 (hcSlot c)) (vwComparison v)"
  shows "optionalGauge_Collect (beaconHeadAgreement (snd (recordOne prom ev m))) =
      map_option (\<lambda>c. flag (hcAgreement c)) (vwComparison (viewStep ev v))"
    "optionalGauge_Collect (beaconComparisonSlot (snd (recordOne prom ev m))) =
      map_option (\<lambda>c. f64_of_u64 (hcSlot c)) (vwComparison (viewStep ev v))"
  using assms by (cases ev; simp add: Metrics_ops upOf_def successOf_def)+

text \<open>What is shown of the Beacon polls of a target: the last one, unless a failure came after it.\<close>

fun beaconChange :: "string \<Rightarrow> recorded \<Rightarrow> beacon_observation option option" where
  "beaconChange t (RecBeacon ob) = (if boTarget ob = t then Some (Some ob) else None)"
| "beaconChange t (RecFailure f) = (if pfProtocol f = ''beacon'' \<and> pfTarget f = t then Some None else None)"
| "beaconChange t _ = None"

lemma vwBeacon_last:
  "vwBeacon (fold viewStep evs emptyView) t =
     (let changes = List.map_filter (beaconChange t) evs in if changes = [] then None else last changes)"
proof (induction evs rule: rev_induct)
  case Nil
  then show ?case by (simp add: emptyView_def map_filter_simps)
next
  case (snoc ev evs)
  then show ?case
    by (cases ev) (auto simp: map_filter_def Let_def upOf_def successOf_def)
qed

lemma NewMetrics_empty:
  "NewMetrics register p = Inr m \<Longrightarrow> optionalGauge_Collect (beaconHeadAgreement m) = None \<and>
     optionalGauge_Collect (beaconComparisonSlot m) = None"
  by (auto simp: NewMetrics_def result_simps Collect_new)

lemma registerAll_ok:
  assumes "\<And>c p. collectorName c \<notin> names p \<Longrightarrow>
      fst (register c p) \<and> names (snd (register c p)) = insert (collectorName c) (names p)"
    and "distinct (map collectorName cs)" "names p \<inter> collectorName ` set cs = {}"
  shows "\<exists>p'. registerAll register cs p = Inr p'"
  using assms(2,3)
proof (induction cs arbitrary: p)
  case (Cons c cs)
  obtain b p' where r: "register c p = (b, p')" by (cases "register c p")
  have "b" "names p' = insert (collectorName c) (names p)" using assms(1) [of c p] Cons.prems(2) r by auto
  moreover have "\<exists>q. registerAll register cs p' = Inr q" using Cons.IH [of p'] Cons.prems calculation by auto
  ultimately show ?case using r by simp
qed simp

text \<open>A registry that only refuses a name it knows takes all the metrics.\<close>

lemma NewMetrics_ok:
  assumes "\<And>c p. collectorName c \<notin> names p \<Longrightarrow>
      fst (register c p) \<and> names (snd (register c p)) = insert (collectorName c) (names p)" and "names p = {}"
  shows "\<exists>m. NewMetrics register p = Inr m"
  using registerAll_ok [OF assms(1) collectors_distinct(1), of p] assms(2) by (auto simp: NewMetrics_def)

lemma Metrics_shown:
  assumes "lawfulGauges prom gauge" "NewMetrics register p = Inr m" "\<forall>mt ls. gauge (mxRegistry m) mt ls = None"
  shows "gauge (mxRegistry (recordAll prom evs m)) = shownGauge (fold viewStep evs emptyView)"
    "optionalGauge_Collect (beaconHeadAgreement (recordAll prom evs m)) =
       map_option (\<lambda>c. flag (hcAgreement c)) (vwComparison (fold viewStep evs emptyView))"
    "optionalGauge_Collect (beaconComparisonSlot (recordAll prom evs m)) =
       map_option (\<lambda>c. f64_of_u64 (hcSlot c)) (vwComparison (fold viewStep evs emptyView))"
proof (induction evs rule: rev_induct)
  case Nil
  { case 1
    have "shownGauge emptyView mt ls = None" for mt ls
      by (cases mt) (auto simp: emptyView_def intro!: one_None two_None)
    then show ?case using assms(3) by (auto simp: recordAll_def) }
  { case 2 show ?case using NewMetrics_empty [OF assms(2)] by (simp add: recordAll_def emptyView_def) }
  { case 3 show ?case using NewMetrics_empty [OF assms(2)] by (simp add: recordAll_def emptyView_def) }
next
  case (snoc ev evs)
  { case 1
    show ?case using snoc.IH(1) lawful_fold [OF assms(1) calls_fit]
      by (simp add: recordAll_def recordOne_calls(2) shownGauge_step) }
  { case 2 show ?case using comparison_step(1) [OF snoc.IH(2,3)] by (simp add: recordAll_def) }
  { case 3 show ?case using comparison_step(2) [OF snoc.IH(2,3)] by (simp add: recordAll_def) }
qed

text \<open>
  C24: After any measurements, in any order, the gauges show the view of them and nothing else. It is asked
  that the registry starts without values and keeps the documented behaviour of gauges.
\<close>

theorem Metrics_view:
  assumes "lawfulGauges prom gauge" "NewMetrics register p = Inr m" "\<forall>mt ls. gauge (mxRegistry m) mt ls = None"
  shows "gauge (mxRegistry (recordAll prom evs m)) = shownGauge (fold viewStep evs emptyView) \<and>
    optionalGauge_Collect (beaconHeadAgreement (recordAll prom evs m)) =
      map_option (\<lambda>c. flag (hcAgreement c)) (vwComparison (fold viewStep evs emptyView)) \<and>
    optionalGauge_Collect (beaconComparisonSlot (recordAll prom evs m)) =
      map_option (\<lambda>c. f64_of_u64 (hcSlot c)) (vwComparison (fold viewStep evs emptyView))"
  using Metrics_shown [OF assms] by blast

text \<open>A registry that is its gauges.\<close>

definition exRegister :: "collector \<Rightarrow> (metric \<Rightarrow> string list \<Rightarrow> f64 option) \<Rightarrow> bool \<times> (metric \<Rightarrow> string list \<Rightarrow> f64 option)" where
  "exRegister c p = (True, p)"

theorem Metrics_view_witness:
  "\<exists>m. NewMetrics exRegister (\<lambda>_ _. None) = Inr m \<and>
     mxRegistry (recordAll gaugeCall [RecFailure \<lparr>pfTimestamp = 0, pfTarget = ''teku-a'', pfProtocol = ''beacon'',
       pfOperation = ''head'', pfError = SubscriptionEnded, pfPollDuration = 0\<rparr>] m) mt_targetUp [''beacon'', ''teku-a''] = Some (Fin 0)"
proof -
  let ?ev = "RecFailure \<lparr>pfTimestamp = 0, pfTarget = ''teku-a'', pfProtocol = ''beacon'',
       pfOperation = ''head'', pfError = SubscriptionEnded, pfPollDuration = 0\<rparr>"
  have "registerAll exRegister cs p = Inr p" for cs p by (induction cs) (simp_all add: exRegister_def)
  then obtain m where m: "NewMetrics exRegister (\<lambda>_ _. None) = Inr m" "mxRegistry m = (\<lambda>_ _. None)"
    by (simp add: NewMetrics_def)
  have "lawfulGauges gaugeCall (\<lambda>p. p)" by (simp add: lawfulGauges_def)
  note Metrics_view [OF this m(1), of "[?ev]"]
  then show ?thesis using m by (simp add: upOf_def)
qed

text \<open>
  Recording never fails, and touches the vectors of the registry only by calls with as many label values
  as the vector has labels.
\<close>

theorem Metrics_calls_fit:
  "fst (recordOne prom ev m) = None \<and>
   (\<exists>calls. list_all fits calls \<and> mxRegistry (snd (recordOne prom ev m)) = fold prom calls (mxRegistry m))"
  using recordOne_calls calls_fit by blast

end
