(* ===== verification/FloatOps.thy ===== *)
theory FloatOps
  imports Float64
begin

text \<open>
  Products of doubles and their conversion to integers, and the monotonicity of rounding.
\<close>

section \<open>Operations\<close>

definition fmul :: "f64 \<Rightarrow> f64 \<Rightarrow> f64" where
  "fmul x y = (case (x, y) of
      (Fin a, Fin b) \<Rightarrow> Fin (fl (a * b))
    | (NaN, _) \<Rightarrow> NaN | (_, NaN) \<Rightarrow> NaN
    | (Fin a, i) \<Rightarrow> if a = 0 then NaN else if 0 < a then i else fneg i
    | (i, Fin b) \<Rightarrow> if b = 0 then NaN else if 0 < b then i else fneg i
    | (i, j) \<Rightarrow> if i = j then PInf else NInf)"

text \<open>
  The conversion \<^verbatim>\<open>int(x)\<close> drops the fraction. It depends on the machine when the value does not fit, which the
  bounds below exclude; \<open>None\<close> is this case.
\<close>

fun toInt :: "f64 \<Rightarrow> int option" where
  "toInt (Fin x) = (let n = (if x < 0 then - \<lfloor>- x\<rfloor> else \<lfloor>x\<rfloor>) in if - (2 ^ 63) \<le> n \<and> n < 2 ^ 63 then Some n else None)"
| "toInt _ = None"

section \<open>Rounding is monotone\<close>

lemma rne_mono: "x \<le> y \<Longrightarrow> rne x \<le> rne y"
proof -
  assume le: "x \<le> y"
  have between: "\<lfloor>z\<rfloor> \<le> rne z" "rne z \<le> \<lfloor>z\<rfloor> + 1" for z by (simp_all add: rne_def Let_def)
  show ?thesis
  proof (cases "\<lfloor>x\<rfloor> = \<lfloor>y\<rfloor>")
    case True
    then have "x - of_int \<lfloor>x\<rfloor> \<le> y - of_int \<lfloor>y\<rfloor>" using le by simp
    then show ?thesis using True by (auto simp: rne_def Let_def)
  next
    case False
    then have "\<lfloor>x\<rfloor> + 1 \<le> \<lfloor>y\<rfloor>" using floor_mono [OF le] by linarith
    then show ?thesis using between(2) [of x] between(1) [of y] by linarith
  qed
qed

lemma pow2_ulp: "pow2 k / pow2 (k - 52) = 4503599627370496"
proof -
  have "pow2 k = pow2 (k - 52) * pow2 52" by (simp flip: pow2_add)
  moreover have "pow2 52 = 4503599627370496" by (simp add: pow2_def)
  moreover have "pow2 (k - 52) \<noteq> 0" using pow2_pos [of "k - 52"] by linarith
  ultimately show ?thesis by simp
qed

lemma pow2_Suc: "pow2 (k + 1) = 2 * pow2 k"
proof -
  have "pow2 1 = 2" by (simp add: pow2_def)
  then show ?thesis using pow2_add [of k 1] by simp
qed

lemma flpos_mono:
  assumes "0 < x" "x \<le> y" shows "flpos x \<le> flpos y"
proof -
  have y: "0 < y" using assms by simp
  have ux: "0 < pow2 (expo x - 52)" and uy: "0 < pow2 (expo y - 52)" by (rule pow2_pos)+
  have "pow2 (expo x) < pow2 (expo y + 1)" using expo_bounds [OF assms(1)] expo_bounds [OF y] assms(2) by linarith
  then have le: "expo x \<le> expo y" using pow2_less_cancel by fastforce
  show ?thesis
  proof (cases "expo x = expo y")
    case True
    have "rne (x / pow2 (expo x - 52)) \<le> rne (y / pow2 (expo x - 52))" using assms(2) ux
      by (intro rne_mono divide_right_mono) linarith+
    then show ?thesis using ux True by (simp add: flpos_def Let_def)
  next
    case False
    then have step: "pow2 (expo x + 1) \<le> pow2 (expo y)" using le by (intro pow2_mono) linarith
    have "x / pow2 (expo x - 52) \<le> pow2 (expo x + 1) / pow2 (expo x - 52)" using expo_bounds [OF assms(1)] ux
      by (intro divide_right_mono) linarith+
    also have "\<dots> = of_int 9007199254740992" using pow2_ulp [of "expo x"] by (simp add: pow2_Suc)
    finally have "rne (x / pow2 (expo x - 52)) \<le> 9007199254740992" using rne_mono rne_of_int by metis
    then have "flpos x \<le> 9007199254740992 * pow2 (expo x - 52)" using ux by (simp add: flpos_def Let_def) 
    also have "\<dots> = pow2 (expo x + 1)" using pow2_ulp [of "expo x"] ux unfolding pow2_Suc by (simp add: field_simps)
    also have "\<dots> \<le> pow2 (expo y)" by (rule step)
    also have "\<dots> = 4503599627370496 * pow2 (expo y - 52)" using pow2_ulp [of "expo y"] uy by (simp add: field_simps)
    also have "\<dots> \<le> flpos y"
    proof -
      have "of_int 4503599627370496 \<le> y / pow2 (expo y - 52)" using expo_bounds [OF y] pow2_ulp [of "expo y"] uy
        by (simp add: field_simps)
      then have "4503599627370496 \<le> rne (y / pow2 (expo y - 52))" using rne_mono rne_of_int by metis
      then show ?thesis using uy by (simp add: flpos_def Let_def)
    qed
    finally show ?thesis .
  qed
qed

lemma fl_mono: "0 \<le> x \<Longrightarrow> x \<le> y \<Longrightarrow> fl x \<le> fl y"
  using flpos_mono [of x y] flpos_pos [of y] by (auto simp: fl_def)

lemma fl_nonneg: "0 \<le> x \<Longrightarrow> 0 \<le> fl x"
  using fl_mono [of 0 x] by simp

lemma fl_uint_mono: "p \<le> q \<Longrightarrow> fl (of_int (uint p)) \<le> fl (of_int (uint q))" for p q :: u64
  by (intro fl_mono) (simp_all only: of_int_le_iff of_int_0_le_iff uint_ge_0 word_le_def)

lemma fl_uint_nonneg: "0 \<le> fl (of_int (uint p))" for p :: u64
  by (intro fl_nonneg) (simp only: of_int_0_le_iff uint_ge_0)

lemma fl_uint_pos: "1 \<le> m \<Longrightarrow> 1 \<le> fl (of_int (uint m))" for m :: u64
proof -
  assume "1 \<le> m"
  then have "fl (of_int (uint (1 :: u64))) \<le> fl (of_int (uint m))" by (rule fl_uint_mono)
  then show ?thesis using fl_int_exact [of 1] by simp
qed

lemma fl_small: "fl 1 = 1" "fl 300 = 300"
  using fl_int_exact [of 1] fl_int_exact [of 300] by simp_all

end
