(* ===== verification/Flags.thy ===== *)
theory Flags
  imports GoStrings FloatOps
begin

text \<open>
  What the command line uses of the standard library: the flag package, the numbers and durations of flags
  (\<^verbatim>\<open>strconv.ParseInt\<close> with base 0, \<^verbatim>\<open>time.ParseDuration\<close>), and listen addresses (\<^verbatim>\<open>net.SplitHostPort\<close>, \<^verbatim>\<open>net.ParseIP\<close>).
\<close>

section \<open>Flag sets\<close>

text \<open>
  A flag set looks a name up and sets the value; no flag is boolean. \<open>None\<close> of a setter is its error.
\<close>

datatype (plugins only: code size) flag_err =
    HelpRequested | BadSyntax string | NotDefined string | NeedsArgument string | InvalidValue string string

type_synonym 'o flag_set = "string \<Rightarrow> (string \<Rightarrow> 'o \<Rightarrow> 'o option) option"

fun parseFlags :: "'o flag_set \<Rightarrow> string list \<Rightarrow> 'o \<Rightarrow> flag_err + 'o \<times> string list" where
  "parseFlags look [] opts = Inr (opts, [])"
| "parseFlags look (s # args) opts =
     (if length s < 2 \<or> hd s \<noteq> CHR ''-'' then Inr (opts, s # args)
      else if s = ''--'' then Inr (opts, args)
      else let name = (if s ! 1 = CHR ''-'' then drop 2 s else drop 1 s) in
        if name = [] \<or> hd name = CHR ''-'' \<or> hd name = CHR ''='' then Inl (BadSyntax s)
        else case Cut (CHR ''='') name of (key, inline, hasValue) \<Rightarrow>
          (case look key of
             None \<Rightarrow> if key = ''help'' \<or> key = ''h'' then Inl HelpRequested else Inl (NotDefined key)
           | Some setter \<Rightarrow>
               if hasValue
               then (case setter inline opts of
                       None \<Rightarrow> Inl (InvalidValue inline key)
                     | Some opts \<Rightarrow> parseFlags look args opts)
               else (case args of
                       [] \<Rightarrow> Inl (NeedsArgument key)
                     | v # rest \<Rightarrow>
                         (case setter v opts of
                            None \<Rightarrow> Inl (InvalidValue v key)
                          | Some opts \<Rightarrow> parseFlags look rest opts))))"

text \<open>A flag can be given as two arguments or as one; the values are set in the order they are given.\<close>

definition flagName :: "string \<Rightarrow> bool" where
  "flagName name \<longleftrightarrow> name \<noteq> [] \<and> hd name \<noteq> CHR ''-'' \<and> CHR ''='' \<notin> set name"

fun setAll :: "'o flag_set \<Rightarrow> (string \<times> string) list \<Rightarrow> 'o \<Rightarrow> 'o option" where
  "setAll look [] opts = Some opts"
| "setAll look ((name, v) # fs) opts =
     (case look name of None \<Rightarrow> None | Some setter \<Rightarrow> Option.bind (setter v opts) (setAll look fs))"

fun twoArguments :: "string \<times> string \<Rightarrow> string list" where
  "twoArguments (name, v) = [''--'' @ name, v]"

fun oneArgument :: "string \<times> string \<Rightarrow> string list" where
  "oneArgument (name, v) = [''--'' @ name @ ''='' @ v]"

lemma Cut_absent: "sep \<notin> set s \<Longrightarrow> Cut sep s = (s, [], False)"
  by (induction s) auto

lemma parseFlags_given:
  assumes "list_all (\<lambda>(f, tokens). flagName (fst f) \<and> (tokens = twoArguments f \<or> tokens = oneArgument f)) fs"
    and "setAll look (map fst fs) opts = Some opts'"
  shows "parseFlags look (concat (map snd fs)) opts = Inr (opts', [])"
  using assms
proof (induction fs arbitrary: opts)
  case (Cons p fs)
  obtain name v tokens where p: "p = ((name, v), tokens)" by (metis surj_pair)
  have n: "name \<noteq> []" "hd name \<noteq> CHR ''-''" "CHR ''='' \<notin> set name"
    using Cons.prems(1) p by (auto simp: flagName_def)
  then have hd: "hd name \<noteq> CHR ''=''" using hd_in_set [of name] by metis
  from Cons.prems(2) p obtain setter opts1 where
      s: "look name = Some setter" "setter v opts = Some opts1" "setAll look (map fst fs) opts1 = Some opts'"
    by (auto split: option.splits bind_splits)
  have tail: "parseFlags look (concat (map snd fs)) opts1 = Inr (opts', [])"
    using Cons.IH [OF _ s(3)] Cons.prems(1) by simp
  from Cons.prems(1) p consider "tokens = twoArguments (name, v)" | "tokens = oneArgument (name, v)" by auto
  then show ?case
  proof cases
    case 1
    then show ?thesis using n hd s tail p by (simp add: Cut_absent Let_def)
  next
    case 2
    have "Cut (CHR ''='') (name @ CHR ''='' # v) = (name, v, True)" using n(3) by (rule Cut_found)
    then show ?thesis using 2 n hd s tail p by (simp add: Let_def)
  qed
qed simp

section \<open>Durations\<close>

text \<open>
  \<^verbatim>\<open>leadingInt\<close> gives the digits at the front as a number that fits \<open>2 ^ 63\<close>, and the rest.
\<close>

fun leadingInt :: "int \<Rightarrow> string \<Rightarrow> (int \<times> string) option" where
  "leadingInt x [] = Some (x, [])"
| "leadingInt x (c # cs) =
     (if \<not> isDigit c then Some (x, c # cs)
      else if x > 2 ^ 63 div 10 then None
      else let y = x * 10 + (of_char c - 48) in if y > 2 ^ 63 then None else leadingInt y cs)"

text \<open>\<^verbatim>\<open>leadingFraction\<close> drops the digits that no longer fit. The scale is a power of ten as a double.\<close>

fun leadingFraction :: "bool \<Rightarrow> int \<Rightarrow> f64 \<Rightarrow> string \<Rightarrow> int \<times> f64 \<times> string" where
  "leadingFraction overflow x scale [] = (x, scale, [])"
| "leadingFraction overflow x scale (c # cs) =
     (if \<not> isDigit c then (x, scale, c # cs)
      else if overflow then leadingFraction True x scale cs
      else if x > (2 ^ 63 - 1) div 10 then leadingFraction True x scale cs
      else let y = x * 10 + (of_char c - 48) in
        if y > 2 ^ 63 then leadingFraction True x scale cs else leadingFraction False y (fmul scale (lit 10)) cs)"

definition unitMap :: "(string \<times> int) list" where
  "unitMap = [(''ns'', 1), (''us'', 1000), ([CHR 0xC2, CHR 0xB5, CHR ''s''], 1000), ([CHR 0xCE, CHR 0xBC, CHR ''s''], 1000),
     (''ms'', 1000000), (''s'', second), (''m'', 60 * second), (''h'', 3600 * second)]"

definition unitChar :: "char \<Rightarrow> bool" where
  "unitChar c \<longleftrightarrow> c \<noteq> CHR ''.'' \<and> \<not> isDigit c"

text \<open>One number with its unit, and the rest.\<close>

definition durationPart :: "string \<Rightarrow> (int \<times> string) option" where
  "durationPart s =
     (if s = [] \<or> \<not> (hd s = CHR ''.'' \<or> isDigit (hd s)) then None
      else case leadingInt 0 s of
        None \<Rightarrow> None
      | Some (v, t) \<Rightarrow>
          (case (if t \<noteq> [] \<and> hd t = CHR ''.'' then leadingFraction False 0 (lit 1) (tl t) else (0, lit 1, t)) of
             (f, scale, u) \<Rightarrow>
               let before = (length s \<noteq> length t); after = (t \<noteq> [] \<and> hd t = CHR ''.'' \<and> length (tl t) \<noteq> length u) in
               if \<not> before \<and> \<not> after then None
               else let name = takeWhile unitChar u; rest = dropWhile unitChar u in
                 if name = [] then None
                 else case map_of unitMap name of
                   None \<Rightarrow> None
                 | Some factor \<Rightarrow>
                     if v > 2 ^ 63 div factor then None
                     else let w = v * factor in
                       if f > 0
                       then (case toInt (fmul (Fin (fl (of_int f))) (fdiv (Fin (fl (of_int factor))) scale)) of
                               None \<Rightarrow> None
                             | Some extra \<Rightarrow> if w + extra > 2 ^ 63 then None else Some (w + extra, rest))
                       else Some (w, rest)))"

lemma leadingInt_length: "leadingInt x s = Some (v, t) \<Longrightarrow> length t \<le> length s"
  by (induction x s rule: leadingInt.induct) (auto simp: Let_def split: if_splits)

lemma leadingFraction_length: "leadingFraction b x scale s = (f, scale', t) \<Longrightarrow> length t \<le> length s"
  by (induction b x scale s rule: leadingFraction.induct) (auto simp: Let_def split: if_splits)

lemma durationPart_shorter: "durationPart s = Some (d, rest) \<Longrightarrow> length rest < length s"
proof -
  assume "durationPart s = Some (d, rest)"
  then obtain v t f scale u where l: "leadingInt 0 s = Some (v, t)"
      "(if t \<noteq> [] \<and> hd t = CHR ''.'' then leadingFraction False 0 (lit 1) (tl t) else (0, lit 1, t)) = (f, scale, u)"
      "takeWhile unitChar u \<noteq> []" "rest = dropWhile unitChar u"
    by (auto simp: durationPart_def Let_def split: if_splits option.splits prod.splits)
  have "length (takeWhile unitChar u) + length rest = length u"
    unfolding l(4) by (metis length_append takeWhile_dropWhile_id)
  moreover have "length u \<le> length t" using l(2) leadingFraction_length [of False 0 "lit 1" "tl t" f scale u]
    by (auto split: if_splits)
  moreover have "0 < length (takeWhile unitChar u)" using l(3) by blast
  ultimately show ?thesis using leadingInt_length [OF l(1)] by linarith
qed

function durationParts :: "int \<Rightarrow> string \<Rightarrow> int option" where
  "durationParts d s =
     (if s = [] then Some d
      else case durationPart s of
        None \<Rightarrow> None
      | Some (v, rest) \<Rightarrow> if d + v > 2 ^ 63 then None else durationParts (d + v) rest)"
  by pat_completeness auto
termination
  by (relation "measure (\<lambda>(d, s). length s)") (auto dest: durationPart_shorter)

declare durationParts.simps [simp del]

definition ParseDuration :: "string \<Rightarrow> int option" where
  "ParseDuration s =
     (let signed = (s \<noteq> [] \<and> (hd s = CHR ''-'' \<or> hd s = CHR ''+'')); neg = (s \<noteq> [] \<and> hd s = CHR ''-'');
          t = (if signed then tl s else s) in
      if t = ''0'' then Some 0
      else if t = [] then None
      else case durationParts 0 t of
        None \<Rightarrow> None
      | Some d \<Rightarrow> if neg then Some (- d) else if d > 2 ^ 63 - 1 then None else Some d)"

lemma ParseDuration_examples:
  "ParseDuration ''1s'' = Some second" "ParseDuration ''1h15m30.918s'' = Some 4530918000000"
  "ParseDuration ''-1.5h'' = Some (- 5400 * second)" "ParseDuration ''12'' = None" "ParseDuration ''.s'' = None"
  "ParseDuration ''9223372036854775808ns'' = None" "ParseDuration ''-9223372036854775808ns'' = Some (- (2 ^ 63))"
  "ParseDuration ''0.3333333333333333333h'' = Some 1200000000000"
  by code_simp+

section \<open>Integers\<close>

text \<open>\<^verbatim>\<open>underscoreOK\<close>: an underscore stands between digits, or between a base prefix and a digit.\<close>

datatype (plugins only: code size) seen_char = SeenStart | SeenDigit | SeenUnderscore | SeenOther

fun underscoresFrom :: "bool \<Rightarrow> seen_char \<Rightarrow> string \<Rightarrow> bool" where
  "underscoresFrom hex i [] = (i \<noteq> SeenUnderscore)"
| "underscoresFrom hex i (c # cs) =
     (if isDigit c \<or> hex \<and> isHex c then underscoresFrom hex SeenDigit cs
      else if c = CHR ''_'' then (if i \<noteq> SeenDigit then False else underscoresFrom hex SeenUnderscore cs)
      else if i = SeenUnderscore then False
      else underscoresFrom hex SeenOther cs)"

definition basePrefix :: "string \<Rightarrow> int option" where
  "basePrefix s =
     (if length s \<ge> 2 \<and> hd s = CHR ''0''
      then (let c = lowerChar (s ! 1) in
        if c = CHR ''b'' then Some 2 else if c = CHR ''o'' then Some 8 else if c = CHR ''x'' then Some 16 else None)
      else None)"

definition underscoreOK :: "string \<Rightarrow> bool" where
  "underscoreOK s =
     (let s = (if s \<noteq> [] \<and> (hd s = CHR ''-'' \<or> hd s = CHR ''+'') then tl s else s) in
      case basePrefix s of
        Some b \<Rightarrow> underscoresFrom (b = 16) SeenDigit (drop 2 s)
      | None \<Rightarrow> underscoresFrom False SeenStart s)"

text \<open>The digits in a base, underscores left out.\<close>

definition ParseSeparated :: "int \<Rightarrow> string \<Rightarrow> string \<Rightarrow> num_err + int" where
  "ParseSeparated b whole s =
     (case parseDigits b 0 (filter (\<lambda>c. c \<noteq> CHR ''_'') s) of
        Inl e \<Rightarrow> Inl e
      | Inr n \<Rightarrow> if CHR ''_'' \<in> set s \<and> \<not> underscoreOK whole then Inl ErrSyntax else Inr n)"

text \<open>\<^verbatim>\<open>ParseUint(s, 0, 64)\<close>: the base is that of the prefix, and digits may be separated.\<close>

definition ParseUint0 :: "string \<Rightarrow> num_err + int" where
  "ParseUint0 s =
     (if s = [] then Inl ErrSyntax
      else case (if length s \<ge> 3 then basePrefix s else None) of
          Some b \<Rightarrow> ParseSeparated b s (drop 2 s)
        | None \<Rightarrow> if hd s = CHR ''0'' then ParseSeparated 8 s (tl s) else ParseSeparated 10 s s)"

text \<open>\<^verbatim>\<open>ParseInt(s, 0, 64)\<close>; every error of the flag is the same.\<close>

definition ParseInt0 :: "string \<Rightarrow> int option" where
  "ParseInt0 s =
     (if s = [] then None
      else let neg = (hd s = CHR ''-''); t = (if neg \<or> hd s = CHR ''+'' then tl s else s) in
        case ParseUint0 t of
          Inl _ \<Rightarrow> None
        | Inr n \<Rightarrow>
            if \<not> neg \<and> n \<ge> 2 ^ 63 then None
            else if neg \<and> n > 2 ^ 63 then None
            else Some (if neg then - n else n))"

lemma ParseInt0_examples:
  "ParseInt0 ''256'' = Some 256" "ParseInt0 ''-0x1_F'' = Some (-31)" "ParseInt0 ''0b101'' = Some 5" "ParseInt0 ''017'' = Some 15"
  "ParseInt0 ''1_000'' = Some 1000" "ParseInt0 ''1__0'' = None" "ParseInt0 ''_1'' = None" "ParseInt0 ''0_7'' = Some 7" "ParseInt0 ''09'' = None"
  "ParseInt0 ''0x'' = None" "ParseInt0 ''0'' = Some 0" "ParseInt0 ''+5'' = Some 5" "ParseInt0 ''-9223372036854775808'' = Some (- (2 ^ 63))"
  "ParseInt0 ''9223372036854775808'' = None"
  by code_simp+

section \<open>Addresses\<close>

fun splitLast :: "char \<Rightarrow> string \<Rightarrow> (string \<times> string) option" where
  "splitLast sep [] = None"
| "splitLast sep (c # cs) =
     (case splitLast sep cs of
        Some (a, b) \<Rightarrow> Some (c # a, b)
      | None \<Rightarrow> if c = sep then Some ([], cs) else None)"

text \<open>\<^verbatim>\<open>net.SplitHostPort\<close>: a host in brackets may have colons.\<close>

definition SplitHostPort :: "string \<Rightarrow> (string \<times> string) option" where
  "SplitHostPort hostport =
     (case splitLast (CHR '':'') hostport of
        None \<Rightarrow> None
      | Some (before, port) \<Rightarrow>
          if hd hostport = CHR ''[''
          then (case Cut (CHR '']'') (tl hostport) of (host, rest, found) \<Rightarrow>
             if \<not> found \<or> rest \<noteq> CHR '':'' # port \<or> CHR ''['' \<in> set host \<or> CHR ''['' \<in> set port \<or> CHR '']'' \<in> set port
             then None else Some (host, port))
          else if CHR '':'' \<in> set before \<or> CHR ''['' \<in> set hostport \<or> CHR '']'' \<in> set hostport then None
          else Some (before, port))"

text \<open>The four decimal fields of an IPv4 address, without leading zeros.\<close>

definition ipv4Field :: "string \<Rightarrow> int option" where
  "ipv4Field s =
     (if s = [] \<or> length s > 3 \<or> \<not> list_all isDigit s \<or> (length s > 1 \<and> hd s = CHR ''0'') then None
      else case parseDigits 10 0 s of Inr n \<Rightarrow> if n > 255 then None else Some n | Inl _ \<Rightarrow> None)"

fun allSome :: "'a option list \<Rightarrow> 'a list option" where
  "allSome [] = Some []"
| "allSome (x # xs) = (case (x, allSome xs) of (Some y, Some ys) \<Rightarrow> Some (y # ys) | _ \<Rightarrow> None)"

definition parseIPv4 :: "string \<Rightarrow> int list option" where
  "parseIPv4 s = (case allSome (map ipv4Field (Split s ''.'')) of
     Some bs \<Rightarrow> if length bs = 4 then Some bs else None | None \<Rightarrow> None)"

text \<open>
  The groups of an IPv6 address from the front, up to the bytes so far and where an ellipsis was; the last four
  bytes may be an IPv4 address.
\<close>

lemma dropWhile_shorter: "takeWhile P s \<noteq> [] \<Longrightarrow> length (dropWhile P s) < length s"
  by (metis add_less_same_cancel2 length_append length_greater_0_conv less_add_same_cancel2 takeWhile_dropWhile_id)

function ipv6Groups :: "int list \<Rightarrow> nat option \<Rightarrow> string \<Rightarrow> (int list \<times> nat option) option" where
  "ipv6Groups ip ellipsis s =
     (if length ip \<ge> 16 then (if s = [] then Some (ip, ellipsis) else None)
      else let digits = takeWhile isHex s; t = dropWhile isHex s in
        if digits = [] \<or> length digits > 4 then None
        else if t \<noteq> [] \<and> hd t = CHR ''.''
        then (if ellipsis = None \<and> length ip \<noteq> 12 \<or> length ip + 4 > 16 then None
              else map_option (\<lambda>bs. (ip @ bs, ellipsis)) (parseIPv4 s))
        else case parseDigits 16 0 digits of
          Inl _ \<Rightarrow> None
        | Inr v \<Rightarrow>
            let ip = ip @ [v div 256, v mod 256] in
            if t = [] then Some (ip, ellipsis)
            else if hd t \<noteq> CHR '':'' \<or> length t = 1 then None
            else if hd (tl t) = CHR '':''
            then (if ellipsis \<noteq> None then None
                  else if tl (tl t) = [] then Some (ip, Some (length ip))
                  else ipv6Groups ip (Some (length ip)) (tl (tl t)))
            else ipv6Groups ip ellipsis (tl t))"
  by pat_completeness auto
termination
  by (relation "measure (\<lambda>(ip, ellipsis, s). length s)") (auto dest: dropWhile_shorter)

declare ipv6Groups.simps [simp del]

definition parseIPv6 :: "string \<Rightarrow> int list option" where
  "parseIPv6 s =
     (if CHR ''%'' \<in> set s then None
      else let leading = HasPrefix s ''::''; t = (if leading then drop 2 s else s) in
        if leading \<and> t = [] then Some (replicate 16 0)
        else case ipv6Groups [] (if leading then Some 0 else None) t of
          None \<Rightarrow> None
        | Some (ip, ellipsis) \<Rightarrow>
            if length ip < 16
            then map_option (\<lambda>k. take k ip @ replicate (16 - length ip) 0 @ drop k ip) ellipsis
            else if ellipsis \<noteq> None then None else Some ip)"

text \<open>\<^verbatim>\<open>net.ParseIP\<close>: the first of the characters \<^verbatim>\<open>.\<close>, \<^verbatim>\<open>:\<close> and \<^verbatim>\<open>%\<close> decides; an address with a zone is none.\<close>

definition ParseIP :: "string \<Rightarrow> int list option" where
  "ParseIP s =
     (case dropWhile (\<lambda>c. c \<noteq> CHR ''.'' \<and> c \<noteq> CHR '':'' \<and> c \<noteq> CHR ''%'') s of
        [] \<Rightarrow> None
      | c # _ \<Rightarrow> if c = CHR ''.'' then parseIPv4 s else if c = CHR '':'' then parseIPv6 s else None)"

definition IsLoopback :: "int list \<Rightarrow> bool" where
  "IsLoopback ip =
     (if length ip = 4 then hd ip = 127
      else if take 12 ip = replicate 10 0 @ [255, 255] then ip ! 12 = 127
      else ip = replicate 15 0 @ [1])"

lemma ParseIP_examples:
  "ParseIP ''127.0.0.1'' = Some [127, 0, 0, 1]" "ParseIP ''127.0.0.01'' = None" "ParseIP ''localhost'' = None"
  "ParseIP ''::1'' = Some (replicate 15 0 @ [1])" "ParseIP ''::ffff:127.0.0.1'' = Some (replicate 10 0 @ [255, 255, 127, 0, 0, 1])"
  "ParseIP ''2001:db8::1:2'' = Some ([32, 1, 13, 184] @ replicate 8 0 @ [0, 1, 0, 2])" "ParseIP ''::1%lo'' = None"
  "ParseIP ''1:2:3:4:5:6:7:8:'' = None" "ParseIP ''1::2::3'' = None" "ParseIP ''1:2:3:4:5:6:7::8'' = None" "ParseIP ''::'' = Some (replicate 16 0)"
  by code_simp+

lemma SplitHostPort_examples:
  "SplitHostPort ''127.0.0.1:9464'' = Some (''127.0.0.1'', ''9464'')" "SplitHostPort ''[::1]:80'' = Some (''::1'', ''80'')"
  "SplitHostPort ''::1:80'' = None" "SplitHostPort ''[::1]'' = None" "SplitHostPort '':80'' = Some ([], ''80'')" "SplitHostPort ''host'' = None"
  by code_simp+

end
