(* ===== verification/Report.thy ===== *)
theory Report
  imports Analysis Timeseries RunFiles FloatOps
begin

text \<open>
  The report of an analysis (internal/report/render.go): a Markdown document and a bar chart. A text is its
  UTF-8 bytes. \<^verbatim>\<open>%d\<close> and \<^verbatim>\<open>%.1f\<close> are written out, the latter correctly rounded as \<^verbatim>\<open>strconv\<close> does.
\<close>

section \<open>Formatting\<close>

definition upperChar :: "char \<Rightarrow> char" where
  "upperChar c = (if isLower c then char_of (code c - 32) else c)"

text \<open>\<^verbatim>\<open>strings.ToUpper\<close> on a string of ASCII bytes.\<close>

definition ToUpper :: "string \<Rightarrow> string" where
  "ToUpper s = map upperChar s"

definition formatInt :: "int \<Rightarrow> string" where
  "formatInt i = (if i < 0 then ''-'' @ formatDigits (- i) else formatDigits i)"

fun fixed1 :: "f64 \<Rightarrow> string" where
  "fixed1 (Fin x) = (let n = rne (\<bar>x\<bar> * 10) in
     (if x < 0 then ''-'' else []) @ formatDigits (n div 10) @ ''.'' @ formatDigits (n mod 10))"
| "fixed1 PInf = ''+Inf''"
| "fixed1 NInf = ''-Inf''"
| "fixed1 NaN = ''NaN''"

abbreviation newline :: string where "newline \<equiv> [CHR 10]"

definition emDash :: string where "emDash = [CHR 0xE2, CHR 0x80, CHR 0x94]"

definition enDash :: string where "enDash = [CHR 0xE2, CHR 0x80, CHR 0x93]"

text \<open>The layout \<^verbatim>\<open>2006-01-02T15:04:05Z\<close> of a UTC time.\<close>

definition formatSeconds :: "time \<Rightarrow> string" where
  "formatSeconds t =
     (let secs = t div second; (year, month, day) = civil (secs div 86400); s = secs mod 86400
      in padded 4 year @ ''-'' @ padded 2 month @ ''-'' @ padded 2 day @ ''T'' @
         padded 2 (s div 3600) @ '':'' @ padded 2 (s div 60 mod 60) @ '':'' @ padded 2 (s mod 60) @ ''Z'')"

text \<open>\<^verbatim>\<open>strings.Join\<close>.\<close>

fun joinWith :: "string \<Rightarrow> string list \<Rightarrow> string" where
  "joinWith sep [] = []"
| "joinWith sep [s] = s"
| "joinWith sep (s # ss) = s @ sep @ joinWith sep ss"

definition formatValues :: "u64 list \<Rightarrow> string" where
  "formatValues values = joinWith '', '' (map FormatUint values)"

section \<open>The document\<close>

definition gateLine :: "string \<Rightarrow> gate \<Rightarrow> string" where
  "gateLine title g = ''- '' @ title @ '': '' @ ToUpper (Outcome g) @ '' '' @ emDash @ '' '' @ Reason g @ newline"

definition pairRow :: "pair_evidence \<Rightarrow> string" where
  "pairRow pair = ''| '' @ FormatUint (peRepetition pair) @ '' | '' @ FormatUint (peControlMinimumProgress pair) @ '' | '' @
     FormatUint (peFaultMaximumProgress pair) @ '' | '' @ FormatUint (ConservativeDifference pair) @ '' |'' @ newline"

definition rangeText :: "statistic \<Rightarrow> string" where
  "rangeText st = FormatUint (statMin st) @ enDash @ FormatUint (statMax st)"

definition medianText :: "statistic \<Rightarrow> string" where
  "medianText st = fixed1 (Median st) @ '' (range '' @ rangeText st @ '')''"

definition zeroStatistic :: statistic where
  "zeroStatistic = \<lparr>statValues = [], Median = Fin 0, statMin = 0, statMax = 0\<rparr>"

definition recoveryRow :: "(string, statistic) gomap \<Rightarrow> string \<Rightarrow> string" where
  "recoveryRow recovery client = (let st = mget zeroStatistic recovery client in
     ''| '' @ client @ '' | '' @ formatValues (statValues st) @ '' | '' @ fixed1 (Median st) @ '' | '' @ rangeText st @ '' |'' @ newline)"

definition recoverySection :: "(string, statistic) gomap \<Rightarrow> string" where
  "recoverySection recovery =
     (if length recovery > 0
      then ''## Recovery time'' @ newline @ newline @ ''| CL client | Slots | Median | Range |'' @ newline @
        ''|---|---|---:|---:|'' @ newline @ concat (map (recoveryRow recovery) (sort (keys recovery))) @ newline
      else [])"

definition Markdown :: "analysis \<Rightarrow> string" where
  "Markdown a =
     ''# Ethquake experiment report: '' @ ScenarioName a @ newline @ newline @
     ''Generated: '' @ formatSeconds (GeneratedAt a) @ newline @ newline @
     ''## Gate outcome'' @ newline @ newline @
     gateLine (''Gate A '' @ emDash @ '' VALIDITY'') (GateA a) @
     gateLine (''Gate B '' @ emDash @ '' SURPRISE'') (GateB a) @
     gateLine (''Gate C '' @ emDash @ '' DIFFERENTIATION'') (GateC a) @ newline @
     ''Conclusion: `'' @ Conclusion a @
       ''`. This report does not classify any observed behavior as a client bug.'' @ newline @ newline @
     ''## Finalized-epoch progress'' @ newline @ newline @
     ''| Repetition | Control minimum | Fault maximum | Conservative difference |'' @ newline @
     ''|---:|---:|---:|---:|'' @ newline @
     concat (map pairRow (Pairs a)) @
     newline @ ''Control median '' @ medianText (ControlMinimumProgress a) @ ''; fault median '' @
       medianText (FaultMaximumProgress a) @ ''.'' @ newline @ newline @
     recoverySection (RecoveryByClient a) @
     ''## Evidence'' @ newline @ newline @
     ''The JSON report preserves every run summary, paired effect, realized split, dependency closure, and measurement-completeness flag. The executed scenario and raw time series remain separate checksum-verified artifacts.'' @ newline"

section \<open>The chart\<close>

text \<open>\<^verbatim>\<open>html.EscapeString\<close>.\<close>

definition escapeChar :: "char \<Rightarrow> string" where
  "escapeChar c = (if c = CHR ''&'' then ''&amp;'' else if c = CHR 39 then ''&#39;'' else if c = CHR ''<'' then ''&lt;''
     else if c = CHR ''>'' then ''&gt;'' else if c = CHR 34 then ''&#34;'' else [c])"

definition EscapeString :: "string \<Rightarrow> string" where
  "EscapeString s = concat (map escapeChar s)"

definition maximumProgressOf :: "pair_evidence list \<Rightarrow> u64" where
  "maximumProgressOf pairs = foldl (\<lambda>maximum pair.
     let maximum = (if peControlMinimumProgress pair > maximum then peControlMinimumProgress pair else maximum)
     in if peFaultMaximumProgress pair > maximum then peFaultMaximumProgress pair else maximum) 1 pairs"

definition barHeight :: "u64 \<Rightarrow> u64 \<Rightarrow> int option" where
  "barHeight progress maximum = toInt (fmul (fdiv (f64_of_u64 progress) (f64_of_u64 maximum)) (lit 300))"

text \<open>A quoted attribute.\<close>

definition attr :: "string \<Rightarrow> string \<Rightarrow> string" where
  "attr name content = name @ ''='' @ [CHR 34] @ content @ [CHR 34]"

definition bar :: "int \<Rightarrow> int \<Rightarrow> string \<Rightarrow> string" where
  "bar x h fill = ''<rect '' @ attr ''x'' (formatInt x) @ '' '' @ attr ''y'' (formatInt (410 - h)) @ '' '' @ attr ''width'' ''72'' @
     '' '' @ attr ''height'' (formatInt h) @ '' '' @ attr ''fill'' fill @ ''/>''"

definition sans :: string where "sans = attr ''font-family'' ''sans-serif''"

definition label :: "int \<Rightarrow> string \<Rightarrow> string \<Rightarrow> string" where
  "label x y content = ''<text '' @ attr ''x'' (formatInt x) @ '' '' @ attr ''y'' y @ '' '' @ attr ''text-anchor'' ''middle'' @ '' '' @
     sans @ '' '' @ attr ''font-size'' ''14'' @ ''>'' @ content @ ''</text>''"

definition pairBars :: "u64 \<Rightarrow> nat \<Rightarrow> pair_evidence \<Rightarrow> string option" where
  "pairBars maximum index pair =
     (let x = 110 + int index * 270 in
      case (barHeight (peControlMinimumProgress pair) maximum, barHeight (peFaultMaximumProgress pair) maximum) of
        (Some controlHeight, Some faultHeight) \<Rightarrow>
          Some (bar x controlHeight ''#276ef1'' @ bar (x + 88) faultHeight ''#e4572e'' @
            label (x + 80) ''436'' (''Pair '' @ FormatUint (peRepetition pair)) @
            label (x + 36) (formatInt (398 - controlHeight)) (FormatUint (peControlMinimumProgress pair)) @
            label (x + 124) (formatInt (398 - faultHeight)) (FormatUint (peFaultMaximumProgress pair)))
      | _ \<Rightarrow> None)"

fun chart :: "u64 \<Rightarrow> nat \<Rightarrow> pair_evidence list \<Rightarrow> string option" where
  "chart maximum index [] = Some []"
| "chart maximum index (pair # pairs) =
     (case (pairBars maximum index pair, chart maximum (Suc index) pairs) of
        (Some s, Some t) \<Rightarrow> Some (s @ t) | _ \<Rightarrow> None)"

definition svgHead :: "string \<Rightarrow> string" where
  "svgHead name = ''<svg '' @ attr ''xmlns'' ''http://www.w3.org/2000/svg'' @ '' '' @ attr ''width'' ''960'' @ '' '' @
     attr ''height'' ''520'' @ '' '' @ attr ''viewBox'' ''0 0 960 520'' @ '' '' @ attr ''role'' ''img'' @ '' '' @
     attr ''aria-labelledby'' ''title desc'' @ ''>'' @
     ''<title '' @ attr ''id'' ''title'' @ ''>Ethquake finality progress by paired run</title><desc '' @ attr ''id'' ''desc'' @
     ''>Minimum control-target and maximum fault-target finalized epoch progress for three preregistered repetitions.</desc>'' @
     ''<rect '' @ attr ''width'' ''100%'' @ '' '' @ attr ''height'' ''100%'' @ '' '' @ attr ''fill'' ''#ffffff'' @ ''/><text '' @
     attr ''x'' ''48'' @ '' '' @ attr ''y'' ''48'' @ '' '' @ sans @ '' '' @ attr ''font-size'' ''24'' @ '' '' @ attr ''font-weight'' ''600'' @
     ''>'' @ EscapeString name @ ''</text>'' @
     ''<text '' @ attr ''x'' ''48'' @ '' '' @ attr ''y'' ''76'' @ '' '' @ sans @ '' '' @ attr ''font-size'' ''14'' @ '' '' @ attr ''fill'' ''#444'' @
     ''>Conservative finalized-epoch progress during the three-epoch window</text>''"

definition svgFoot :: string where
  "svgFoot = ''<rect '' @ attr ''x'' ''250'' @ '' '' @ attr ''y'' ''474'' @ '' '' @ attr ''width'' ''18'' @ '' '' @ attr ''height'' ''18'' @
     '' '' @ attr ''fill'' ''#276ef1'' @ ''/><text '' @ attr ''x'' ''276'' @ '' '' @ attr ''y'' ''488'' @ '' '' @ sans @ '' '' @
     attr ''font-size'' ''14'' @ ''>Control minimum</text><rect '' @ attr ''x'' ''450'' @ '' '' @ attr ''y'' ''474'' @ '' '' @
     attr ''width'' ''18'' @ '' '' @ attr ''height'' ''18'' @ '' '' @ attr ''fill'' ''#e4572e'' @ ''/><text '' @ attr ''x'' ''476'' @ '' '' @
     attr ''y'' ''488'' @ '' '' @ sans @ '' '' @ attr ''font-size'' ''14'' @ ''>Fault maximum</text></svg>''"

text \<open>\<open>None\<close> stands for a chart with a bar whose height the language leaves open.\<close>

definition SVG :: "analysis \<Rightarrow> string option" where
  "SVG a = map_option (\<lambda>bars. svgHead (ScenarioName a) @ bars @ svgFoot) (chart (maximumProgressOf (Pairs a)) 0 (Pairs a))"

section \<open>The document of the repository's own test\<close>

text \<open>The analysis and the golden file of internal/report/render_test.go, testdata/report.md.golden.\<close>

definition exReport :: analysis where
  "exReport = \<lparr>anSchemaVersion = ''ethquake.report/v1alpha1'', ScenarioName = ''cl-p2p-partition'',
     GeneratedAt = 1786968000 * second, Runs = [],
     Pairs = map (\<lambda>r. \<lparr>peRepetition = r, peControlMinimumProgress = 3, peFaultMaximumProgress = 0, ConservativeDifference = 3\<rparr>) [1, 2, 3],
     ControlMinimumProgress = \<lparr>statValues = [3, 3, 3], Median = Fin 3, statMin = 3, statMax = 3\<rparr>,
     FaultMaximumProgress = \<lparr>statValues = [0, 0, 0], Median = Fin 0, statMin = 0, statMax = 0\<rparr>,
     RecoveryByClient = [(''teku'', \<lparr>statValues = [8, 8, 8], Median = Fin 8, statMin = 8, statMax = 8\<rparr>),
       (''lighthouse'', \<lparr>statValues = [5, 5, 5], Median = Fin 5, statMin = 5, statMax = 5\<rparr>)],
     GateA = \<lparr>Outcome = ''yes'', Classification = [], Reason = ''Every fault run was lower than control.''\<rparr>,
     GateB = \<lparr>Outcome = ''yes'', Classification = [], Reason = ''The prediction matched.''\<rparr>,
     GateC = \<lparr>Outcome = ''yes'', Classification = [], Reason = ''Teku recovered later in every repetition.''\<rparr>,
     Conclusion = ''client_specific_differentiation''\<rparr>"

definition goldenReport :: string where
  "goldenReport = concat (map (\<lambda>line. line @ newline)
    [''# Ethquake experiment report: cl-p2p-partition'',
     [],
     ''Generated: 2026-08-17T12:00:00Z'',
     [],
     ''## Gate outcome'',
     [],
     ''- Gate A '' @ emDash @ '' VALIDITY: YES '' @ emDash @ '' Every fault run was lower than control.'',
     ''- Gate B '' @ emDash @ '' SURPRISE: YES '' @ emDash @ '' The prediction matched.'',
     ''- Gate C '' @ emDash @ '' DIFFERENTIATION: YES '' @ emDash @ '' Teku recovered later in every repetition.'',
     [],
     ''Conclusion: `client_specific_differentiation`. This report does not classify any observed behavior as a client bug.'',
     [],
     ''## Finalized-epoch progress'',
     [],
     ''| Repetition | Control minimum | Fault maximum | Conservative difference |'',
     ''|---:|---:|---:|---:|'',
     ''| 1 | 3 | 0 | 3 |'',
     ''| 2 | 3 | 0 | 3 |'',
     ''| 3 | 3 | 0 | 3 |'',
     [],
     ''Control median 3.0 (range 3'' @ enDash @ ''3); fault median 0.0 (range 0'' @ enDash @ ''0).'',
     [],
     ''## Recovery time'',
     [],
     ''| CL client | Slots | Median | Range |'',
     ''|---|---|---:|---:|'',
     ''| lighthouse | 5, 5, 5 | 5.0 | 5'' @ enDash @ ''5 |'',
     ''| teku | 8, 8, 8 | 8.0 | 8'' @ enDash @ ''8 |'',
     [],
     ''## Evidence'',
     [],
     ''The JSON report preserves every run summary, paired effect, realized split, dependency closure, and measurement-completeness flag. The executed scenario and raw time series remain separate checksum-verified artifacts.''])"

lemma Markdown_golden: "Markdown exReport = goldenReport"
  by code_simp

section \<open>The bars\<close>

text \<open>The quotient of two progresses, at least zero and at most one, and the bar of 300 pixels for one.\<close>

lemma barHeight_ok:
  assumes "p \<le> m" "1 \<le> m"
  defines "q \<equiv> fl (of_int (uint p)) / fl (of_int (uint m))"
  shows "barHeight p m = Some \<lfloor>fl (fl q * 300)\<rfloor>" "0 \<le> q" "q \<le> 1"
proof -
  have m: "0 < fl (of_int (uint m))" using fl_uint_pos [OF assms(2)] by linarith
  have pm: "fl (of_int (uint p)) \<le> fl (of_int (uint m))" using assms(1) by (rule fl_uint_mono)
  show q: "0 \<le> q" "q \<le> 1" using m pm fl_uint_nonneg [of p] by (simp_all only: q_def zero_le_divide_iff divide_le_eq_1_pos) auto
  have "fl (fl q * 300) \<le> fl 300" using q fl_mono [of q 1] fl_nonneg [of q] by (intro fl_mono) (auto simp: fl_small)
  then have h: "fl (fl q * 300) \<le> 300" "0 \<le> fl (fl q * 300)" using q by (auto simp: fl_small intro!: fl_nonneg)
  have "fdiv (f64_of_u64 p) (f64_of_u64 m) = Fin (fl q)" using m by (simp add: fdiv_def f64_of_u64_def q_def)
  moreover have "\<lfloor>fl (fl q * 300)\<rfloor> < 2 ^ 63" "0 \<le> \<lfloor>fl (fl q * 300)\<rfloor>" using h by (auto simp: floor_less_iff)
  ultimately show "barHeight p m = Some \<lfloor>fl (fl q * 300)\<rfloor>"
    using h(2) by (simp add: barHeight_def fmul_def lit_def fl_small Let_def)
qed

lemma barHeight_mono:
  assumes "p \<le> p'" "p' \<le> m" "1 \<le> m"
  obtains h h' where "barHeight p m = Some h" "barHeight p' m = Some h'" "h \<le> h'"
proof -
  let ?q = "\<lambda>p. fl (of_int (uint p)) / fl (of_int (uint m))"
  note b = barHeight_ok [OF order_trans [OF assms(1,2)] assms(3)] barHeight_ok [OF assms(2,3)]
  have "fl (of_int (uint p)) \<le> fl (of_int (uint p'))" using assms(1) by (rule fl_uint_mono)
  then have "?q p \<le> ?q p'" by (intro divide_right_mono fl_uint_nonneg)
  then have "fl (fl (?q p) * 300) \<le> fl (fl (?q p') * 300)" using b(2) by (intro fl_mono mult_right_mono mult_nonneg_nonneg fl_nonneg) auto
  then have "\<lfloor>fl (fl (?q p) * 300)\<rfloor> \<le> \<lfloor>fl (fl (?q p') * 300)\<rfloor>" by (rule floor_mono)
  then show thesis using that b(1,4) by blast
qed

lemma barHeight_ends:
  assumes "1 \<le> m" shows "barHeight 0 m = Some 0" "barHeight m m = Some 300"
proof -
  have "fl (of_int (uint m)) \<noteq> 0" using fl_uint_pos [OF assms] by linarith
  then have "fl (of_int (uint m)) / fl (of_int (uint m)) = 1" by simp
  then show "barHeight 0 m = Some 0" "barHeight m m = Some 300"
    using barHeight_ok(1) [OF _ assms, of 0] barHeight_ok(1) [OF order_refl assms] by (simp_all add: fl_small)
qed

lemma maximumProgressOf_max:
  "1 \<le> maximumProgressOf pairs"
  "pair \<in> set pairs \<Longrightarrow> peControlMinimumProgress pair \<le> maximumProgressOf pairs \<and> peFaultMaximumProgress pair \<le> maximumProgressOf pairs"
proof -
  have "1 \<le> maximumProgressOf pairs \<and> list_all (\<lambda>pair. peControlMinimumProgress pair \<le> maximumProgressOf pairs \<and>
      peFaultMaximumProgress pair \<le> maximumProgressOf pairs) pairs"
    by (induction pairs rule: rev_induct) (auto simp: maximumProgressOf_def Let_def list_all_iff)
  then show "1 \<le> maximumProgressOf pairs"
    "pair \<in> set pairs \<Longrightarrow> peControlMinimumProgress pair \<le> maximumProgressOf pairs \<and> peFaultMaximumProgress pair \<le> maximumProgressOf pairs"
    by (auto simp: list_all_iff)
qed

text \<open>A bar that is drawn: inside the frame, full for the maximum, empty for no progress.\<close>

definition drawn :: "u64 \<Rightarrow> u64 \<Rightarrow> bool" where
  "drawn maximum p = (case barHeight p maximum of None \<Rightarrow> False
     | Some h \<Rightarrow> 0 \<le> h \<and> h \<le> 300 \<and> (if p = maximum then h = 300 else if p = 0 then h = 0 else True))"

lemma drawn_ok:
  assumes "p \<le> m" "1 \<le> m" shows "drawn m p"
proof -
  have "0 \<le> p" by simp
  then obtain h0 h where "barHeight 0 m = Some h0" "barHeight p m = Some h" "h0 \<le> h" by (rule barHeight_mono [OF _ assms])
  moreover obtain h' h1 where "barHeight p m = Some h'" "barHeight m m = Some h1" "h' \<le> h1"
    by (rule barHeight_mono [OF assms(1) order_refl assms(2)])
  ultimately show ?thesis using barHeight_ends [OF assms(2)] by (auto simp: drawn_def)
qed

lemma chart_drawn:
  assumes "list_all (\<lambda>pair. drawn m (peControlMinimumProgress pair) \<and> drawn m (peFaultMaximumProgress pair)) pairs"
  shows "chart m index pairs \<noteq> None"
  using assms by (induction pairs arbitrary: index) (auto simp: drawn_def pairBars_def Let_def split: option.splits)

lemma EscapeString_safe: "list_all (\<lambda>c. c \<notin> {CHR ''<'', CHR ''>'', CHR 34, CHR 39}) (EscapeString s)"
  by (induction s) (auto simp: EscapeString_def escapeChar_def)

lemma SVG_drawn:
  "SVG a \<noteq> None \<and> list_all (\<lambda>pair. drawn (maximumProgressOf (Pairs a)) (peControlMinimumProgress pair) \<and>
     drawn (maximumProgressOf (Pairs a)) (peFaultMaximumProgress pair)) (Pairs a)"
proof -
  have "list_all (\<lambda>pair. drawn (maximumProgressOf (Pairs a)) (peControlMinimumProgress pair) \<and>
     drawn (maximumProgressOf (Pairs a)) (peFaultMaximumProgress pair)) (Pairs a)"
    using maximumProgressOf_max by (auto simp: list_all_iff intro!: drawn_ok)
  then show ?thesis using chart_drawn by (auto simp: SVG_def)
qed

text \<open>The report is the same for every order of the iteration over the map of the clients.\<close>

lemma Markdown_order:
  assumes "gomap (RecoveryByClient a)" "mset m = mset (RecoveryByClient a)"
  shows "Markdown (a\<lparr>RecoveryByClient := m\<rparr>) = Markdown a"
proof -
  have m: "gomap m" using assms by (metis gomap_def mset_map mset_eq_imp_distinct_iff)
  have same: "map_of m = map_of (RecoveryByClient a)"
    using assms m by (intro map_of_inject_set [THEN iffD2]) (auto simp: gomap_def dest: mset_eq_setD)
  have "mset (keys m) = mset (keys (RecoveryByClient a))" using assms(2) by simp
  then have keys: "sort (keys m) = sort (keys (RecoveryByClient a))" by (metis sorted_list_of_multiset_mset)
  have "recoveryRow m client = recoveryRow (RecoveryByClient a) client" for client
    by (simp add: recoveryRow_def mget_def same)
  then have "recoverySection m = recoverySection (RecoveryByClient a)"
    using keys assms(2) by (simp add: recoverySection_def cong: map_cong) (metis mset.simps(1) mset_zero_iff)
  then show ?thesis by (simp add: Markdown_def)
qed

end
