(* ===== verification/ChartText.thy ===== *)
theory ChartText
  imports Report
begin

text \<open>
  What the text of a chart shows. A reader takes the SVG document apart into elements with attributes and
  contents, without knowing how it was written; the bars and texts it finds are those of the analysis.
\<close>

section \<open>A reader\<close>

text \<open>The pieces between the separators; the piece that is being read is kept in reverse.\<close>

fun splitFrom :: "char \<Rightarrow> string \<Rightarrow> string \<Rightarrow> string list" where
  "splitFrom c piece [] = [rev piece]"
| "splitFrom c piece (x # s) = (if x = c then rev piece # splitFrom c [] s else splitFrom c (x # piece) s)"

abbreviation splitOn :: "char \<Rightarrow> string \<Rightarrow> string list" where
  "splitOn c \<equiv> splitFrom c []"

fun pairsOf :: "'a list \<Rightarrow> ('a \<times> 'a) list" where
  "pairsOf (k # v # r) = (k, v) # pairsOf r"
| "pairsOf r = []"

text \<open>The character references that HTML needs in a text.\<close>

fun unescape :: "string \<Rightarrow> string" where
  "unescape [] = []"
| "unescape (c # s) =
     (if c = CHR ''&'' then
        (if take 4 s = ''amp;'' then CHR ''&'' # unescape (drop 4 s)
         else if take 4 s = ''#39;'' then CHR 39 # unescape (drop 4 s)
         else if take 4 s = ''#34;'' then CHR 34 # unescape (drop 4 s)
         else if take 3 s = ''lt;'' then CHR ''<'' # unescape (drop 3 s)
         else if take 3 s = ''gt;'' then CHR ''>'' # unescape (drop 3 s)
         else c # unescape s)
      else c # unescape s)"

record element =
  elTag :: string
  elAttrs :: "(string \<times> string) list"
  elText :: string

text \<open>What follows a \<^verbatim>\<open><\<close>: a tag name, quoted attributes after names with a \<^verbatim>\<open>=\<close>, and the text up to the next tag.\<close>

definition elementOf :: "string \<Rightarrow> element" where
  "elementOf piece = (let parts = splitOn (CHR ''>'') piece; opening = hd parts in
     \<lparr>elTag = hd (splitOn (CHR '' '') opening),
      elAttrs = map (\<lambda>(k, v). (last (splitOn (CHR '' '') k), v)) (pairsOf (splitOn (CHR 34) opening)),
      elText = unescape (concat (tl parts))\<rparr>)"

definition elements :: "string \<Rightarrow> element list" where
  "elements svg = map elementOf (tl (splitOn (CHR ''<'') svg))"

definition attrOf :: "element \<Rightarrow> string \<Rightarrow> string" where
  "attrOf e name = (case map_of (elAttrs e) (name @ ''='') of None \<Rightarrow> [] | Some v \<Rightarrow> v)"

text \<open>The rectangles as wide as a bar, and every text, each with its place.\<close>

definition barsOf :: "string \<Rightarrow> (string \<times> string \<times> string \<times> string) list" where
  "barsOf svg = map (\<lambda>e. (attrOf e ''x'', attrOf e ''y'', attrOf e ''height'', attrOf e ''fill''))
     (filter (\<lambda>e. elTag e = ''rect'' \<and> attrOf e ''width'' = ''72'') (elements svg))"

definition textsOf :: "string \<Rightarrow> (string \<times> string \<times> string) list" where
  "textsOf svg = map (\<lambda>e. (attrOf e ''x'', attrOf e ''y'', elText e)) (filter (\<lambda>e. elTag e = ''text'') (elements svg))"

section \<open>Splitting\<close>

lemma splitFrom_ne: "splitFrom c piece s \<noteq> []"
  by (induction s arbitrary: piece) auto

lemma splitFrom_prefix: "c \<notin> set s \<Longrightarrow> splitFrom c piece (s @ t) = splitFrom c (rev s @ piece) t"
  by (induction s arbitrary: piece) auto

lemma splitFrom_free: "c \<notin> set s \<Longrightarrow> splitFrom c piece s = [rev piece @ s]"
  by (induction s arbitrary: piece) auto

lemma splitFrom_append: "splitFrom c piece (s @ c # t) = splitFrom c piece s @ splitOn c t"
  by (induction s arbitrary: piece) auto

lemma elements_append: "elements (s @ CHR ''<'' # t) = elements s @ elements (CHR ''<'' # t)"
  using splitFrom_ne [of "CHR ''<''" "[]" s] by (simp add: elements_def splitFrom_append)

definition opens :: "string \<Rightarrow> bool" where
  "opens t \<longleftrightarrow> t = [] \<or> hd t = CHR ''<''"

lemma opens_append: "opens s \<Longrightarrow> opens t \<Longrightarrow> opens (s @ t)"
  by (cases s) (simp_all add: opens_def)

lemma read_append:
  assumes "opens t"
  shows "barsOf (s @ t) = barsOf s @ barsOf t" "textsOf (s @ t) = textsOf s @ textsOf t"
proof -
  have "elements (s @ t) = elements s @ elements t"
    using assms elements_append by (cases t) (auto simp: opens_def elements_def)
  then show "barsOf (s @ t) = barsOf s @ barsOf t" "textsOf (s @ t) = textsOf s @ textsOf t"
    by (simp_all only: barsOf_def textsOf_def filter_append map_append)
qed

section \<open>Texts without markup\<close>

definition plainText :: "string \<Rightarrow> bool" where
  "plainText s \<longleftrightarrow> list_all (\<lambda>c. c \<notin> {CHR ''<'', CHR ''>'', CHR 34}) s"

lemma plainText_free: "plainText s \<Longrightarrow> CHR ''<'' \<notin> set s" "plainText s \<Longrightarrow> CHR ''>'' \<notin> set s" "plainText s \<Longrightarrow> CHR 34 \<notin> set s"
  by (auto simp: plainText_def list_all_iff)

lemma digit_not: "isDigit c \<Longrightarrow> c \<notin> {CHR ''<'', CHR ''>'', CHR 34, CHR ''&'', CHR '' ''}"
  by (auto simp: isDigit_def code_def)

lemma numbers_plain: "plainText (FormatUint x)" "plainText (formatInt i)" "CHR ''&'' \<notin> set (FormatUint x)"
proof -
  have d: "isDigit c" if "c \<in> set (formatDigits n)" "0 \<le> n" for c n using formatDigits_digits that by blast
  show "plainText (FormatUint x)" "CHR ''&'' \<notin> set (FormatUint x)"
    using d digit_not by (fastforce simp: plainText_def FormatUint_def list_all_iff)+
  show "plainText (formatInt i)"
    using d digit_not by (fastforce simp: plainText_def formatInt_def list_all_iff)
qed

lemma EscapeString_plain: "plainText (EscapeString s)"
  by (induction s) (auto simp: plainText_def EscapeString_def escapeChar_def)

lemma unescape_free: "CHR ''&'' \<notin> set s \<Longrightarrow> unescape s = s"
  by (induction s) auto

lemma unescape_escapeChar: "unescape (escapeChar c @ s) = c # unescape s"
  by (auto simp: escapeChar_def)

lemma unescape_EscapeString: "unescape (EscapeString s) = s"
proof (induction s)
  case (Cons c s)
  then show ?case using unescape_escapeChar [of c "EscapeString s"] by (simp add: EscapeString_def)
qed (simp add: EscapeString_def)


section \<open>The parts of the chart\<close>

text \<open>With this rule the characters that are still to be read are not simplified again at every step.\<close>

lemma splitFrom_cong: "splitFrom c piece s = splitFrom c piece s"
  by (rule refl)

lemmas element_simps = elements_def elementOf_def attr_def sans_def splitFrom_prefix splitFrom_free unescape_free

lemma bar_elements:
  assumes "plainText fill"
  shows "elements (bar x h fill) =
     [\<lparr>elTag = ''rect'', elAttrs = [(''x='', formatInt x), (''y='', formatInt (410 - h)), (''width='', ''72''),
        (''height='', formatInt h), (''fill='', fill)], elText = []\<rparr>]"
  using plainText_free numbers_plain assms by (simp add: bar_def element_simps)

lemma label_elements:
  assumes "plainText y" "plainText t" "CHR ''&'' \<notin> set t"
  shows "elements (label x y t) =
     [\<lparr>elTag = ''text'', elAttrs = [(''x='', formatInt x), (''y='', y), (''text-anchor='', ''middle''),
        (''font-family='', ''sans-serif''), (''font-size='', ''14'')], elText = t\<rparr>, \<lparr>elTag = ''/text'', elAttrs = [], elText = []\<rparr>]"
  using plainText_free [OF assms(1)] plainText_free [OF assms(2)] plainText_free [OF numbers_plain(2)] assms(3)
  by (simp add: label_def element_simps)

lemma head_elements:
  "elements (svgHead name) =
     [\<lparr>elTag = ''svg'', elAttrs = [(''xmlns='', ''http://www.w3.org/2000/svg''), (''width='', ''960''), (''height='', ''520''),
        (''viewBox='', ''0 0 960 520''), (''role='', ''img''), (''aria-labelledby='', ''title desc'')], elText = []\<rparr>,
      \<lparr>elTag = ''title'', elAttrs = [(''id='', ''title'')], elText = ''Ethquake finality progress by paired run''\<rparr>,
      \<lparr>elTag = ''/title'', elAttrs = [], elText = []\<rparr>,
      \<lparr>elTag = ''desc'', elAttrs = [(''id='', ''desc'')], elText = ''Minimum control-target and maximum fault-target finalized epoch progress for three preregistered repetitions.''\<rparr>,
      \<lparr>elTag = ''/desc'', elAttrs = [], elText = []\<rparr>,
      \<lparr>elTag = ''rect'', elAttrs = [(''width='', ''100%''), (''height='', ''100%''), (''fill='', ''#ffffff'')], elText = []\<rparr>,
      \<lparr>elTag = ''text'', elAttrs = [(''x='', ''48''), (''y='', ''48''), (''font-family='', ''sans-serif''), (''font-size='', ''24''),
        (''font-weight='', ''600'')], elText = name\<rparr>,
      \<lparr>elTag = ''/text'', elAttrs = [], elText = []\<rparr>,
      \<lparr>elTag = ''text'', elAttrs = [(''x='', ''48''), (''y='', ''76''), (''font-family='', ''sans-serif''), (''font-size='', ''14''),
        (''fill='', ''#444'')], elText = ''Conservative finalized-epoch progress during the three-epoch window''\<rparr>,
      \<lparr>elTag = ''/text'', elAttrs = [], elText = []\<rparr>]"
  using plainText_free [OF EscapeString_plain [of name]]
  apply (simp add: svgHead_def attr_def sans_def elements_def del: splitFrom.simps)
  apply (simp add: splitFrom_prefix cong: splitFrom_cong)
  by (simp add: elementOf_def splitFrom_prefix splitFrom_free unescape_free unescape_EscapeString)

lemma foot_elements:
  "elements svgFoot =
     [\<lparr>elTag = ''rect'', elAttrs = [(''x='', ''250''), (''y='', ''474''), (''width='', ''18''), (''height='', ''18''),
        (''fill='', ''#276ef1'')], elText = []\<rparr>,
      \<lparr>elTag = ''text'', elAttrs = [(''x='', ''276''), (''y='', ''488''), (''font-family='', ''sans-serif''), (''font-size='', ''14'')],
        elText = ''Control minimum''\<rparr>,
      \<lparr>elTag = ''/text'', elAttrs = [], elText = []\<rparr>,
      \<lparr>elTag = ''rect'', elAttrs = [(''x='', ''450''), (''y='', ''474''), (''width='', ''18''), (''height='', ''18''),
        (''fill='', ''#e4572e'')], elText = []\<rparr>,
      \<lparr>elTag = ''text'', elAttrs = [(''x='', ''476''), (''y='', ''488''), (''font-family='', ''sans-serif''), (''font-size='', ''14'')],
        elText = ''Fault maximum''\<rparr>,
      \<lparr>elTag = ''/text'', elAttrs = [], elText = []\<rparr>, \<lparr>elTag = ''/svg'', elAttrs = [], elText = []\<rparr>]"
  by (simp add: svgFoot_def element_simps)

lemma bar_read:
  assumes "plainText fill"
  shows "barsOf (bar x h fill) = [(formatInt x, formatInt (410 - h), formatInt h, fill)]" "textsOf (bar x h fill) = []"
  by (simp_all add: barsOf_def textsOf_def attrOf_def bar_elements [OF assms])

lemma label_read:
  assumes "plainText y" "plainText t" "CHR ''&'' \<notin> set t"
  shows "barsOf (label x y t) = []" "textsOf (label x y t) = [(formatInt x, y, t)]"
  by (simp_all add: barsOf_def textsOf_def attrOf_def label_elements [OF assms])

lemma head_read:
  "barsOf (svgHead name) = []"
  "textsOf (svgHead name) = [(''48'', ''48'', name), (''48'', ''76'', ''Conservative finalized-epoch progress during the three-epoch window'')]"
  by (simp_all add: barsOf_def textsOf_def attrOf_def head_elements)

lemma foot_read:
  "barsOf svgFoot = []" "textsOf svgFoot = [(''276'', ''488'', ''Control minimum''), (''476'', ''488'', ''Fault maximum'')]"
  by (simp_all add: barsOf_def textsOf_def attrOf_def foot_elements)

section \<open>Heights\<close>

lemma flpos_near:
  assumes "0 < x" shows "\<bar>flpos x - x\<bar> \<le> x / 1000000"
proof -
  let ?u = "pow2 (expo x - 52)"
  have u: "0 < ?u" by simp
  then have "pow2 (expo x) = 4503599627370496 * ?u" using pow2_ulp [of "expo x"] by (metis eq_divide_eq less_irrefl)
  then have "4503599627370496 * ?u \<le> x" using expo_bounds [OF assms] by simp
  then show ?thesis using flpos_err [of x] u by linarith
qed

text \<open>A correctly rounded value is within a millionth; the bound that doubles meet is far smaller.\<close>

lemma fl_near: "0 \<le> x \<Longrightarrow> 999999 / 1000000 * x \<le> fl x \<and> fl x \<le> 1000001 / 1000000 * x"
proof -
  assume "0 \<le> x"
  then consider "x = 0" | "0 < x" by linarith
  then show ?thesis
  proof cases
    case 2
    then have "fl x = flpos x" by (simp add: fl_def)
    then show ?thesis using flpos_near [OF 2] by linarith
  qed simp
qed

lemma barHeight_near:
  assumes "p \<le> m" "1 \<le> m" "barHeight p m = Some h"
  defines "x \<equiv> 300 * (of_int (uint p) / of_int (uint m) :: rat)"
  shows "0 \<le> h \<and> h \<le> 300 \<and> of_int h \<le> x + 1 / 100 \<and> x < of_int h + 1 + 1 / 100"
proof -
  let ?a = "of_int (uint p) :: rat" and ?b = "of_int (uint m) :: rat"
  let ?q = "fl ?a / fl ?b"
  have b: "1 \<le> fl ?b" using fl_uint_pos [OF assms(2)] .
  have pos: "0 \<le> ?a" "1 \<le> ?b" "?a \<le> ?b" 
    using assms(1,2) by (simp_all only: of_int_le_iff of_int_0_le_iff of_int_1_le_iff uint_ge_0 word_le_def uint_1)
  have hq: "h = \<lfloor>fl (fl ?q * 300)\<rfloor>" "0 \<le> ?q" "?q \<le> 1" using barHeight_ok [OF assms(1,2)] assms(3) by simp_all
  have na: "999999 / 1000000 * ?a \<le> fl ?a \<and> fl ?a \<le> 1000001 / 1000000 * ?a" using pos by (intro fl_near) simp
  have nb: "999999 / 1000000 * ?b \<le> fl ?b \<and> fl ?b \<le> 1000001 / 1000000 * ?b" using pos by (intro fl_near) simp
  have "?a / ?b \<le> 1" using pos by (subst divide_le_eq_1_pos) linarith+
  then have x: "x \<le> 300" by (simp add: x_def)
  have "0 \<le> ?a / ?b" using pos by (intro divide_nonneg_nonneg) linarith+
  then have "0 \<le> x" by (simp add: x_def)
  note x = x this
  have upper: "300 * ?q \<le> 1000001 / 999999 * x"
  proof -
    have "?q \<le> (1000001 / 1000000 * ?a) / (999999 / 1000000 * ?b)" using na nb pos b by (intro frac_le) simp_all
    also have "\<dots> = 1000001 / 999999 * (?a / ?b)" by simp
    finally show ?thesis by (simp add: x_def)
  qed
  have lower: "999999 / 1000001 * x \<le> 300 * ?q"
  proof -
    have "(999999 / 1000000 * ?a) / (1000001 / 1000000 * ?b) \<le> ?q" using na nb pos b by (intro frac_le) simp_all
    moreover have "(999999 / 1000000 * ?a) / (1000001 / 1000000 * ?b) = 999999 / 1000001 * (?a / ?b)" by simp
    ultimately show ?thesis by (simp add: x_def)
  qed
  have q: "999999 / 1000000 * ?q \<le> fl ?q \<and> fl ?q \<le> 1000001 / 1000000 * ?q" using hq(2) by (rule fl_near)
  then have y0: "0 \<le> fl ?q * 300" using hq(2) fl_nonneg by simp
  have y: "999999 / 1000000 * (fl ?q * 300) \<le> fl (fl ?q * 300) \<and> fl (fl ?q * 300) \<le> 1000001 / 1000000 * (fl ?q * 300)"
    using y0 by (rule fl_near)
  have "fl (fl ?q * 300) \<le> x + 1 / 100" "x - 1 / 100 \<le> fl (fl ?q * 300)"
    using upper lower q y x by linarith+
  moreover have "of_int h \<le> fl (fl ?q * 300)" "fl (fl ?q * 300) < of_int h + 1" unfolding hq(1) by linarith+
  moreover have "0 \<le> h \<and> h \<le> 300" using drawn_ok [OF assms(1,2)] assms(3) by (simp add: drawn_def)
  ultimately show ?thesis by linarith
qed



text \<open>A bar of 300 pixels for the greatest progress, up to a pixel in proportion for the others.\<close>

definition fits :: "u64 \<Rightarrow> u64 \<Rightarrow> int \<Rightarrow> bool" where
  "fits m p h \<longleftrightarrow> 0 \<le> h \<and> h \<le> 300 \<and> (p = m \<longrightarrow> h = 300) \<and>
     \<bar>300 * (of_int (uint p) / of_int (uint m)) - of_int h\<bar> \<le> (1 + 1 / 100 :: rat)"

definition greatestProgress :: "pair_evidence list \<Rightarrow> u64" where
  "greatestProgress pairs = Max (insert 1 (peControlMinimumProgress ` set pairs \<union> peFaultMaximumProgress ` set pairs))"

lemma maximumProgressOf_greatest: "maximumProgressOf pairs = greatestProgress pairs"
proof -
  have "maximumProgressOf pairs \<in> insert 1 (peControlMinimumProgress ` set pairs \<union> peFaultMaximumProgress ` set pairs)"
    by (induction pairs rule: rev_induct) (auto simp: maximumProgressOf_def Let_def)
  then show ?thesis unfolding greatestProgress_def using maximumProgressOf_max
    by (intro Max_eqI [symmetric]) auto
qed

lemma bar_fits:
  assumes "p \<le> m" "1 \<le> m" obtains h where "barHeight p m = Some h" "fits m p h"
proof -
  from barHeight_ok(1) [OF assms] obtain h where h: "barHeight p m = Some h" by blast
  moreover have "p = m \<Longrightarrow> h = 300" using h barHeight_ends(2) [OF assms(2)] by simp
  moreover have "\<bar>300 * (of_int (uint p) / of_int (uint m)) - of_int h\<bar> \<le> (1 + 1 / 100 :: rat)"
    using barHeight_near [OF assms h] by (intro abs_leI) linarith+
  ultimately show thesis using that barHeight_near [OF assms h] by (simp only: fits_def) blast
qed

text \<open>The bars and the labels of one pair, when its two heights are given.\<close>

definition pairBarsAt :: "nat \<Rightarrow> int \<times> int \<Rightarrow> (string \<times> string \<times> string \<times> string) list" where
  "pairBarsAt i = (\<lambda>(control, fault).
     [(formatInt (110 + 270 * int i), formatInt (410 - control), formatInt control, ''#276ef1''),
      (formatInt (198 + 270 * int i), formatInt (410 - fault), formatInt fault, ''#e4572e'')])"

definition pairTextsAt :: "nat \<Rightarrow> pair_evidence \<times> int \<times> int \<Rightarrow> (string \<times> string \<times> string) list" where
  "pairTextsAt i = (\<lambda>(pair, control, fault).
     [(formatInt (190 + 270 * int i), ''436'', ''Pair '' @ FormatUint (peRepetition pair)),
      (formatInt (146 + 270 * int i), formatInt (398 - control), FormatUint (peControlMinimumProgress pair)),
      (formatInt (234 + 270 * int i), formatInt (398 - fault), FormatUint (peFaultMaximumProgress pair))])"

lemma pairBars_read:
  assumes "barHeight (peControlMinimumProgress pair) m = Some h" "barHeight (peFaultMaximumProgress pair) m = Some h'" "opens t"
  obtains s where "pairBars m i pair = Some s" "opens (s @ t)"
    "barsOf (s @ t) = pairBarsAt i (h, h') @ barsOf t" "textsOf (s @ t) = pairTextsAt i (pair, h, h') @ textsOf t"
proof -
  have parts: "opens (bar x k fill)" "opens (label x y c)" for x k fill y c
    by (simp_all add: opens_def bar_def label_def)
  have fills: "plainText ''#276ef1''" "plainText ''#e4572e''" "plainText ''436''" by (simp_all add: plainText_def)
  have pair: "plainText (''Pair '' @ FormatUint x)" "CHR ''&'' \<notin> set (''Pair '' @ FormatUint x)" for x
    using numbers_plain by (simp_all add: plainText_def)
  define x where "x = 110 + int i * 270"
  let ?s = "bar x h ''#276ef1'' @ bar (x + 88) h' ''#e4572e'' @ label (x + 80) ''436'' (''Pair '' @ FormatUint (peRepetition pair)) @
    label (x + 36) (formatInt (398 - h)) (FormatUint (peControlMinimumProgress pair)) @
    label (x + 124) (formatInt (398 - h')) (FormatUint (peFaultMaximumProgress pair))"
  note read = read_append bar_read label_read opens_append parts assms(3) fills pair numbers_plain
  have "barsOf (?s @ t) = [(formatInt x, formatInt (410 - h), formatInt h, ''#276ef1'')] @
      [(formatInt (x + 88), formatInt (410 - h'), formatInt h', ''#e4572e'')] @ barsOf t"
    unfolding append_assoc by (simp only: read append_Nil not_False_eq_True)
  then have bars: "barsOf (?s @ t) = pairBarsAt i (h, h') @ barsOf t" by (simp add: pairBarsAt_def x_def mult.commute)
  have "textsOf (?s @ t) = [(formatInt (x + 80), ''436'', ''Pair '' @ FormatUint (peRepetition pair))] @
      [(formatInt (x + 36), formatInt (398 - h), FormatUint (peControlMinimumProgress pair))] @
      [(formatInt (x + 124), formatInt (398 - h'), FormatUint (peFaultMaximumProgress pair))] @ textsOf t"
    unfolding append_assoc by (simp only: read append_Nil not_False_eq_True)
  then have texts: "textsOf (?s @ t) = pairTextsAt i (pair, h, h') @ textsOf t" by (simp add: pairTextsAt_def x_def mult.commute)
  have "pairBars m i pair = Some ?s" using assms(1,2) by (simp add: pairBars_def Let_def x_def)
  moreover have "opens (?s @ t)" by (intro opens_append parts assms(3))
  ultimately show thesis using bars texts by (rule that)
qed

lemma chart_read:
  assumes "1 \<le> m" "\<forall>pair \<in> set pairs. peControlMinimumProgress pair \<le> m \<and> peFaultMaximumProgress pair \<le> m" "opens t"
  shows "\<exists>s heights. chart m i pairs = Some s \<and> opens (s @ t) \<and>
     list_all2 (\<lambda>pair (control, fault). fits m (peControlMinimumProgress pair) control \<and>
       fits m (peFaultMaximumProgress pair) fault) pairs heights \<and>
     barsOf (s @ t) = concat (map (\<lambda>(i, h). pairBarsAt i h) (enumerate i heights)) @ barsOf t \<and>
     textsOf (s @ t) = concat (map (\<lambda>(i, h). pairTextsAt i h) (enumerate i (zip pairs heights))) @ textsOf t"
  using assms(2)
proof (induction pairs arbitrary: i)
  case Nil
  then show ?case using assms(3) by (intro exI [of _ "[]"]) simp
next
  case (Cons pair pairs)
  then have "\<forall>pair \<in> set pairs. peControlMinimumProgress pair \<le> m \<and> peFaultMaximumProgress pair \<le> m" by simp
  from Cons.IH [OF this, of "Suc i"] obtain s heights where s: "chart m (Suc i) pairs = Some s" "opens (s @ t)"
    "list_all2 (\<lambda>pair (control, fault). fits m (peControlMinimumProgress pair) control \<and>
       fits m (peFaultMaximumProgress pair) fault) pairs heights"
    "barsOf (s @ t) = concat (map (\<lambda>(i, h). pairBarsAt i h) (enumerate (Suc i) heights)) @ barsOf t"
    "textsOf (s @ t) = concat (map (\<lambda>(i, h). pairTextsAt i h) (enumerate (Suc i) (zip pairs heights))) @ textsOf t"
    by blast
  obtain c where c: "barHeight (peControlMinimumProgress pair) m = Some c" "fits m (peControlMinimumProgress pair) c"
    using bar_fits [OF _ assms(1), of "peControlMinimumProgress pair"] Cons.prems by auto
  obtain f where f: "barHeight (peFaultMaximumProgress pair) m = Some f" "fits m (peFaultMaximumProgress pair) f"
    using bar_fits [OF _ assms(1), of "peFaultMaximumProgress pair"] Cons.prems by auto
  obtain u where u: "pairBars m i pair = Some u" "opens (u @ s @ t)"
    "barsOf (u @ s @ t) = pairBarsAt i (c, f) @ barsOf (s @ t)" "textsOf (u @ s @ t) = pairTextsAt i (pair, c, f) @ textsOf (s @ t)"
    using pairBars_read [OF c(1) f(1) s(2)] by blast
  have "chart m i (pair # pairs) = Some (u @ s)" by (simp add: u(1) s(1))
  moreover have "opens ((u @ s) @ t)" using u(2) by simp
  moreover have "barsOf ((u @ s) @ t) = concat (map (\<lambda>(i, h). pairBarsAt i h) (enumerate i ((c, f) # heights))) @ barsOf t"
    unfolding append_assoc u(3) s(4) by simp
  moreover have "textsOf ((u @ s) @ t) =
      concat (map (\<lambda>(i, h). pairTextsAt i h) (enumerate i (zip (pair # pairs) ((c, f) # heights)))) @ textsOf t"
    unfolding append_assoc u(4) s(5) by simp
  moreover have "list_all2 (\<lambda>pair (control, fault). fits m (peControlMinimumProgress pair) control \<and>
       fits m (peFaultMaximumProgress pair) fault) (pair # pairs) ((c, f) # heights)"
    using s(3) c(2) f(2) by simp
  ultimately show ?case by blast
qed

text \<open>
  C28: A chart is drawn of every analysis. Read as SVG it shows for each pair a blue bar of the control run and a red bar
  of the fault run at their places: both stand on the line at 410, are at most 300 pixels high, full for the greatest
  progress of all and in proportion to it otherwise, to a pixel of the rounding. The texts are the name of the
  scenario, as it is whatever characters it has, the caption, the number of each pair, the two progresses above their
  bars, and the legend; nothing else is shown.
\<close>

theorem SVG_bars:
  "\<exists>svg heights. SVG a = Some svg \<and>
     list_all2 (\<lambda>pair (control, fault). fits (greatestProgress (Pairs a)) (peControlMinimumProgress pair) control \<and>
       fits (greatestProgress (Pairs a)) (peFaultMaximumProgress pair) fault) (Pairs a) heights \<and>
     barsOf svg = concat (map (\<lambda>(i, h). pairBarsAt i h) (enumerate 0 heights)) \<and>
     textsOf svg = [(''48'', ''48'', ScenarioName a),
         (''48'', ''76'', ''Conservative finalized-epoch progress during the three-epoch window'')] @
       concat (map (\<lambda>(i, h). pairTextsAt i h) (enumerate 0 (zip (Pairs a) heights))) @
       [(''276'', ''488'', ''Control minimum''), (''476'', ''488'', ''Fault maximum'')]"
proof -
  have "opens svgFoot" by (simp add: opens_def svgFoot_def)
  moreover have "\<forall>pair \<in> set (Pairs a). peControlMinimumProgress pair \<le> maximumProgressOf (Pairs a) \<and>
      peFaultMaximumProgress pair \<le> maximumProgressOf (Pairs a)" using maximumProgressOf_max by blast
  ultimately obtain s heights where s: "chart (maximumProgressOf (Pairs a)) 0 (Pairs a) = Some s" "opens (s @ svgFoot)"
    "list_all2 (\<lambda>pair (control, fault). fits (maximumProgressOf (Pairs a)) (peControlMinimumProgress pair) control \<and>
       fits (maximumProgressOf (Pairs a)) (peFaultMaximumProgress pair) fault) (Pairs a) heights"
    "barsOf (s @ svgFoot) = concat (map (\<lambda>(i, h). pairBarsAt i h) (enumerate 0 heights)) @ barsOf svgFoot"
    "textsOf (s @ svgFoot) = concat (map (\<lambda>(i, h). pairTextsAt i h) (enumerate 0 (zip (Pairs a) heights))) @ textsOf svgFoot"
    using chart_read [OF maximumProgressOf_max(1), of "Pairs a" "Pairs a" svgFoot 0] by blast
  have "SVG a = Some (svgHead (ScenarioName a) @ s @ svgFoot)" by (simp add: SVG_def s(1))
  moreover have "barsOf (svgHead (ScenarioName a) @ s @ svgFoot) = concat (map (\<lambda>(i, h). pairBarsAt i h) (enumerate 0 heights))"
    unfolding read_append(1) [OF s(2)] s(4) by (simp add: head_read foot_read)
  moreover have "textsOf (svgHead (ScenarioName a) @ s @ svgFoot) = [(''48'', ''48'', ScenarioName a),
         (''48'', ''76'', ''Conservative finalized-epoch progress during the three-epoch window'')] @
       concat (map (\<lambda>(i, h). pairTextsAt i h) (enumerate 0 (zip (Pairs a) heights))) @
       [(''276'', ''488'', ''Control minimum''), (''476'', ''488'', ''Fault maximum'')]"
    unfolding read_append(2) [OF s(2)] s(5) by (simp add: head_read foot_read)
  ultimately show ?thesis using s(3) unfolding maximumProgressOf_greatest by blast
qed

end
