(* ===== verification/Cli.thy ===== *)
theory Cli
  imports Flags Report Telemetry ExecutionObserver Orchestrator Discovery
begin

text \<open>
  The command line (internal/cli/cli.go, cmd/ethquake/main.go): its flags, and how the commands compose the components.
  What the commands meet outside the program, from the file system to the cluster and the clock, is a record of
  functions of a world of any type.
\<close>

section \<open>Values of flags\<close>

record endpoint_value =
  evName :: string
  evURL :: string

definition targetNameChar :: "char \<Rightarrow> bool" where
  "targetNameChar c \<longleftrightarrow> isLower c \<or> isUpper c \<or> isDigit c \<or> c = CHR ''_'' \<or> c = CHR ''.'' \<or> c = CHR ''-''"

text \<open>The regular expression \<^verbatim>\<open>^[A-Za-z0-9][A-Za-z0-9_.-]{0,62}$\<close>.\<close>

definition targetNamePattern :: "string \<Rightarrow> bool" where
  "targetNamePattern s \<longleftrightarrow>
     (case s of [] \<Rightarrow> False
      | c # cs \<Rightarrow> (isLower c \<or> isUpper c \<or> isDigit c) \<and> list_all targetNameChar cs \<and> length cs \<le> 62)"

datatype (plugins only: code size) endpoint_err = EndpointFormat | EndpointName string

definition endpointValues_Set :: "string \<Rightarrow> endpoint_value list \<Rightarrow> endpoint_err + endpoint_value list" where
  "endpointValues_Set raw vs =
     (case Cut (CHR ''='') raw of (name, endpoint, found) \<Rightarrow>
        if \<not> found \<or> name = [] \<or> endpoint = [] then Inl EndpointFormat
        else if \<not> targetNamePattern name then Inl (EndpointName name)
        else Inr (vs @ [\<lparr>evName = name, evURL = endpoint\<rparr>]))"

text \<open>The kinds of flags, each with the update of its field.\<close>

definition stringVar :: "((string \<Rightarrow> string) \<Rightarrow> 'o \<Rightarrow> 'o) \<Rightarrow> string \<Rightarrow> 'o \<Rightarrow> 'o option" where
  "stringVar upd v opts = Some (upd (\<lambda>_. v) opts)"

definition durationVar :: "((int \<Rightarrow> int) \<Rightarrow> 'o \<Rightarrow> 'o) \<Rightarrow> string \<Rightarrow> 'o \<Rightarrow> 'o option" where
  "durationVar upd v opts = map_option (\<lambda>d. upd (\<lambda>_. d) opts) (ParseDuration v)"

definition intVar :: "((int \<Rightarrow> int) \<Rightarrow> 'o \<Rightarrow> 'o) \<Rightarrow> string \<Rightarrow> 'o \<Rightarrow> 'o option" where
  "intVar upd v opts = map_option (\<lambda>n. upd (\<lambda>_. n) opts) (ParseInt0 v)"

definition endpointVar ::
  "('o \<Rightarrow> endpoint_value list) \<Rightarrow> ((endpoint_value list \<Rightarrow> endpoint_value list) \<Rightarrow> 'o \<Rightarrow> 'o) \<Rightarrow> string \<Rightarrow> 'o \<Rightarrow> 'o option" where
  "endpointVar get upd v opts =
     (case endpointValues_Set v (get opts) of Inl _ \<Rightarrow> None | Inr vs \<Rightarrow> Some (upd (\<lambda>_. vs) opts))"

section \<open>The surroundings\<close>

text \<open>How the goroutines of an observation ended.\<close>

datatype (plugins only: code size) group_end = GroupFinished | GroupCanceled | GroupFailed string

record 'p observe_plan =
  plObserver :: "beacon_client observer"
  plRecorder :: "(jsonl \<times> 'p metrics) recorder"
  plExec :: "(exec_client exec_observer \<times> (jsonl \<times> 'p metrics) exec_recorder) option"
  plMetrics :: "'p metrics"

record ('w, 'p) surroundings =
  suURL :: "string \<Rightarrow> endpoint option"
  suCodec :: codec
  suRanges :: "string \<Rightarrow> ((string, string) gomap \<times> yaml_rest) option"
  suEncoder :: run_encoder
  suParse :: "string \<Rightarrow> json option"
  suKubectl :: "string \<Rightarrow> string list \<Rightarrow> string option"
  suExec :: "bool \<Rightarrow> string \<Rightarrow> string option \<Rightarrow> string list \<Rightarrow> 'w \<Rightarrow> (bool \<times> string) \<times> 'w"
  suHTTP :: "'w \<Rightarrow> (string \<Rightarrow> http_result) \<times> 'w"
  suDial :: "exec_client \<Rightarrow> 'w \<Rightarrow> ws_session \<times> 'w"
  suRunEnv :: "'w run_env"
  suNow :: "'w \<Rightarrow> time \<times> 'w"
  suStdout :: "string \<Rightarrow> 'w \<Rightarrow> bool \<times> 'w"
  suListen :: "string \<Rightarrow> 'w \<Rightarrow> bool \<times> 'w"
  suProm :: "prom_call \<Rightarrow> 'p \<Rightarrow> 'p"
  suRegister :: "collector \<Rightarrow> 'p \<Rightarrow> bool \<times> 'p"
  suRegistry :: 'p
  suObserve :: "'p observe_plan \<Rightarrow> 'w \<Rightarrow> group_end \<times> 'w"

datatype (plugins only: code size) address_err = AddressSyntax | NotLoopback string | BadPort string

datatype (plugins only: code size) cli_err =
    CommandRequired | UnknownCommand string | ValidateRequired | CaptureOrAnalyze | UnknownSubcommand string
  | FlagsRejected flag_err | OptionsRequired | FourEndpoints nat | ScenarioUnread string | ScenarioRejected string parse_err
  | LockUnread | LockRejectedByParse lock_parse_err | KubernetesRejected new_kube_err | DiscoveryFailed kube_err
  | ClosureFailed closure_err | RangesUnread | RangesRejected range_err | EndpointTwice string | EndpointMissing string
  | BeaconEndpoint string beacon_err | ChainEndpoint exec_err | BackendRejected new_chaos_err | ArtifactsFailed create_err
  | RunErrors "exit_err list" | LoadFailed load_err | AnalysisFailed analyze_err | ReportUnwritten artifact_write_err
  | StdoutFailed | PositionalArguments "string list" | NoBeaconEndpoint | IntervalNotPositive | TimeoutOptionNotPositive
  | ReorgLimitOption | HeadLimitOption | MetricsAddress address_err | ExecutionTwice string | ExecutionEndpoint string exec_err
  | ListenFailed string | OutputRequired | OutputNotCreated string | MetricsFailed collector | RecordersFailed multi_err
  | ObserverRejected new_err | ExecObserverRejected new_exec_err | ObservationFailed string | OutputNotClosed "cli_err option"

text \<open>A command ends with an error, or with a text for the standard output, or silently after \<^verbatim>\<open>--help\<close>.\<close>

type_synonym ending = "cli_err + string option"

definition loadScenario :: "codec \<Rightarrow> host \<Rightarrow> string \<Rightarrow> cli_err + scenario \<times> string" where
  "loadScenario cd h path =
     (case ReadFile h path of
        None \<Rightarrow> Inl (ScenarioUnread path)
      | Some data \<Rightarrow>
          bindR (wrapE (ScenarioRejected path) (Scenario_Parse (decodeYAML cd) (Sum256 cd) data)) (\<lambda>s. Inr (s, data)))"

section \<open>Validating a scenario\<close>

definition scenarioFlags :: "string flag_set" where
  "scenarioFlags name = map_of [(''file'', stringVar (\<lambda>f. f))] name"

definition runScenario :: "codec \<Rightarrow> host \<Rightarrow> string list \<Rightarrow> ending" where
  "runScenario cd h arguments =
     (case arguments of
        [] \<Rightarrow> Inl ValidateRequired
      | sub # rest \<Rightarrow>
          if sub \<noteq> ''validate'' then Inl ValidateRequired
          else case parseFlags scenarioFlags rest [] of
            Inl HelpRequested \<Rightarrow> Inr None
          | Inl e \<Rightarrow> Inl (FlagsRejected e)
          | Inr (path, positional) \<Rightarrow>
              if length positional \<noteq> 0 \<or> path = [] then Inl OptionsRequired
              else bindR (loadScenario cd h path) (\<lambda>(s, _).
                Inr (Some (''[PASS] Scenario '' @ scName s @ '' (ethquake.dev/v1alpha1)'' @ newline))))"

section \<open>Analyzing an experiment\<close>

record analyze_options =
  aoScenario :: string
  aoRunsRoot :: string
  aoOutputRoot :: string

definition analyzeDefaults :: analyze_options where
  "analyzeDefaults = \<lparr>aoScenario = [], aoRunsRoot = [], aoOutputRoot = []\<rparr>"

definition analyzeFlags :: "analyze_options flag_set" where
  "analyzeFlags name = map_of [(''scenario'', stringVar aoScenario_update), (''runs-root'', stringVar aoRunsRoot_update),
     (''output-root'', stringVar aoOutputRoot_update)] name"

text \<open>A slice that nothing was appended to is nil, which is printed as \<^verbatim>\<open>null\<close>.\<close>

definition sliceJSON :: "('a \<Rightarrow> json) \<Rightarrow> 'a list \<Rightarrow> json" where
  "sliceJSON f xs = (if xs = [] then JNull else JArr (map f xs))"

definition statisticJSON :: "(f64 \<Rightarrow> string) \<Rightarrow> statistic \<Rightarrow> json" where
  "statisticJSON fmtF st = JObj [(''values'', sliceJSON uint64JSON (statValues st)), (''median'', JNum (fmtF (Median st))),
     (''min'', uint64JSON (statMin st)), (''max'', uint64JSON (statMax st))]"

definition pairJSON :: "pair_evidence \<Rightarrow> json" where
  "pairJSON pair = JObj [(''repetition'', uint64JSON (peRepetition pair)),
     (''control_minimum_progress'', uint64JSON (peControlMinimumProgress pair)),
     (''fault_maximum_progress'', uint64JSON (peFaultMaximumProgress pair)),
     (''conservative_difference'', uint64JSON (ConservativeDifference pair))]"

definition gateJSON :: "gate \<Rightarrow> json" where
  "gateJSON g = JObj [(''outcome'', JStr (Outcome g)), (''classification'', JStr (Classification g)), (''reason'', JStr (Reason g))]"

definition analysisJSON :: "(f64 \<Rightarrow> string) \<Rightarrow> (time \<Rightarrow> string) \<Rightarrow> analysis \<Rightarrow> json" where
  "analysisJSON fmtF fmtT a = JObj
     [(''schema_version'', JStr (anSchemaVersion a)), (''scenario_name'', JStr (ScenarioName a)),
      (''generated_at'', JStr (fmtT (GeneratedAt a))), (''runs'', JArr (map (runJSON fmtF fmtT) (Runs a))),
      (''pairs'', sliceJSON pairJSON (Pairs a)), (''control_minimum_progress'', statisticJSON fmtF (ControlMinimumProgress a)),
      (''fault_maximum_progress'', statisticJSON fmtF (FaultMaximumProgress a)),
      (''recovery_by_client'', jsonMap (statisticJSON fmtF) (RecoveryByClient a)),
      (''gate_a'', gateJSON (GateA a)), (''gate_b'', gateJSON (GateB a)), (''gate_c'', gateJSON (GateC a)),
      (''conclusion'', JStr (Conclusion a))]"

definition finiteNumber :: "f64 \<Rightarrow> bool" where
  "finiteNumber x = (case x of Fin _ \<Rightarrow> True | _ \<Rightarrow> False)"

definition encodeAnalysis :: "run_encoder \<Rightarrow> analysis \<Rightarrow> string option" where
  "encodeAnalysis enc a =
     (if list_all finiteNumber (map Median (ControlMinimumProgress a # FaultMaximumProgress a # map snd (RecoveryByClient a))) \<and>
         list_all (\<lambda>r. finiteFloats (RealizedSplit r)) (Runs a)
      then Some (printIndented enc (analysisJSON (floatText enc) (timeText enc) a)) else None)"

definition storeReport :: "run_encoder \<Rightarrow> string \<Rightarrow> analysis \<Rightarrow> storage \<Rightarrow> (artifact_write_err + unit) \<times> storage" where
  "storeReport enc dir a st =
     (case WriteJSON dir ''report.json'' (encodeAnalysis enc a) st of
        (Inl e, st) \<Rightarrow> (Inl e, st)
      | (Inr _, st) \<Rightarrow>
          (case Artifact_Write dir ''report.md'' (Some (Markdown a)) st of
             (Inl e, st) \<Rightarrow> (Inl e, st)
           | (Inr _, st) \<Rightarrow> Artifact_Write dir ''finality-progress.svg'' (SVG a) st))"

definition analysisText :: "string \<Rightarrow> analysis \<Rightarrow> string" where
  "analysisText dir a = ''[PASS] Analysis: '' @ Clean dir @ newline @ ''[PASS] Gate A: '' @ Outcome (GateA a) @ newline @
     ''[PASS] Gate B: '' @ Outcome (GateB a) @ newline @ ''[PASS] Gate C: '' @ Outcome (GateC a) @ newline"

definition adjudicate :: "codec \<Rightarrow> host \<Rightarrow> analyze_options \<Rightarrow> time \<Rightarrow> cli_err + scenario \<times> analysis" where
  "adjudicate cd h opts now =
     bindR (loadScenario cd h (aoScenario opts)) (\<lambda>(s, _).
     bindR (wrapE LoadFailed (LoadRunSummaries cd h (aoRunsRoot opts) s)) (\<lambda>runs.
     bindR (wrapE AnalysisFailed (Analyze (Sum256 cd) s runs now)) (\<lambda>a. Inr (s, a))))"

definition runExperimentAnalyze ::
  "codec \<Rightarrow> run_encoder \<Rightarrow> time \<Rightarrow> string list \<Rightarrow> storage \<Rightarrow> ending \<times> storage" where
  "runExperimentAnalyze cd enc now arguments st =
     (case parseFlags analyzeFlags arguments analyzeDefaults of
        Inl HelpRequested \<Rightarrow> (Inr None, st)
      | Inl e \<Rightarrow> (Inl (FlagsRejected e), st)
      | Inr (opts, positional) \<Rightarrow>
          if length positional \<noteq> 0 \<or> aoScenario opts = [] \<or> aoRunsRoot opts = [] \<or> aoOutputRoot opts = []
          then (Inl OptionsRequired, st)
          else case adjudicate cd (stHost st) opts now of
            Inl e \<Rightarrow> (Inl e, st)
          | Inr (s, a) \<Rightarrow>
              (case Artifact_Create (aoOutputRoot opts) (scName s @ ''-analysis'') st of
                 (Inl e, st) \<Rightarrow> (Inl (ArtifactsFailed e), st)
               | (Inr dir, st) \<Rightarrow>
                   (case storeReport enc dir a st of
                      (Inl e, st) \<Rightarrow> (Inl (ReportUnwritten e), st)
                    | (Inr _, st) \<Rightarrow> (Inr (Some (analysisText dir a)), st))))"

section \<open>Capturing a run\<close>

record capture_options =
  coScenario :: string
  coRunID :: string
  coKubeconfig :: string
  coContext :: string
  coNamespace :: string
  coValidatorRanges :: string
  coDependencyLock :: string
  coArtifactRoot :: string
  coExecutionChain :: string
  coKubectl :: string
  coPollInterval :: int
  coRequestTimeout :: int
  coBeacon :: "endpoint_value list"

definition captureDefaults :: capture_options where
  "captureDefaults = \<lparr>coScenario = [], coRunID = [], coKubeconfig = [], coContext = ''gke-ethquake-phase3'', coNamespace = [],
     coValidatorRanges = [], coDependencyLock = ''experiment/dependencies.lock.json'', coArtifactRoot = [], coExecutionChain = [],
     coKubectl = ''kubectl'', coPollInterval = second, coRequestTimeout = 5 * second, coBeacon = []\<rparr>"

definition captureFlags :: "capture_options flag_set" where
  "captureFlags name = map_of
     [(''scenario'', stringVar coScenario_update), (''run-id'', stringVar coRunID_update),
      (''kubeconfig'', stringVar coKubeconfig_update), (''context'', stringVar coContext_update),
      (''namespace'', stringVar coNamespace_update), (''validator-ranges'', stringVar coValidatorRanges_update),
      (''dependency-lock'', stringVar coDependencyLock_update), (''artifact-root'', stringVar coArtifactRoot_update),
      (''execution-chain'', stringVar coExecutionChain_update), (''kubectl'', stringVar coKubectl_update),
      (''poll-interval'', durationVar coPollInterval_update), (''request-timeout'', durationVar coRequestTimeout_update),
      (''beacon'', endpointVar coBeacon coBeacon_update)] name"

definition endpointStep :: "endpoint_value \<Rightarrow> (string, string) gomap \<Rightarrow> cli_err + (string, string) gomap" where
  "endpointStep e seen =
     (if map_of seen (evName e) \<noteq> None then Inl (EndpointTwice (evName e)) else Inr (mput (evName e) (evURL e) seen))"

definition captureTarget ::
  "(string \<Rightarrow> endpoint option) \<Rightarrow> int \<Rightarrow> (string, string) gomap \<Rightarrow> participant \<Rightarrow> beacon_client target list
     \<Rightarrow> cli_err + beacon_client target list" where
  "captureTarget urlParse timeout endpointByName p targets =
     (case map_of endpointByName (BeaconTarget p) of
        None \<Rightarrow> Inl (EndpointMissing (BeaconTarget p))
      | Some endpoint \<Rightarrow>
          bindR (wrapE (BeaconEndpoint (BeaconTarget p)) (NewClient urlParse endpoint timeout)) (\<lambda>client.
            Inr (targets @ [\<lparr>tgtName = BeaconTarget p, tgtClient = Some client\<rparr>])))"

text \<open>The calls of the run on its clients, at the time they are made.\<close>

definition readValidators :: "('w, 'p) surroundings \<Rightarrow> beacon_client \<Rightarrow> 'w \<Rightarrow> (beacon_err + beacon_validator list) \<times> 'w" where
  "readValidators su client w = (case suHTTP su w of (http, w) \<Rightarrow> (Client_Validators http (suParse su) client, w))"

definition readChainID :: "('w, 'p) surroundings \<Rightarrow> exec_client \<Rightarrow> 'w \<Rightarrow> (exec_err + u64) \<times> 'w" where
  "readChainID su client w = (case suDial su client w of (ws, w) \<Rightarrow> (Execution.ChainID (suParse su) ws, w))"

definition chaosBackend :: "('w, 'p) surroundings \<Rightarrow> exec_runner \<Rightarrow> 'w fault_backend" where
  "chaosBackend su er = \<lparr>backendApply = Apply (execRunner_Run (suExec su) er) (suParse su),
     backendRevert = Revert (execRunner_Run (suExec su) er) (suParse su)\<rparr>"

definition discoverTopology ::
  "('w, 'p) surroundings \<Rightarrow> host \<Rightarrow> capture_options \<Rightarrow> scenario \<Rightarrow> cli_err + discovery" where
  "discoverTopology su h opts s =
     bindR (wrapE KubernetesRejected (NewKubernetes (Abs h) (coKubectl opts) (coKubeconfig opts) (coContext opts))) (\<lambda>(path, base).
       wrapE DiscoveryFailed (Discover (\<lambda>args. suKubectl su path (base @ args)) (suParse su) s (coRunID opts) (coNamespace opts)))"

definition readLock :: "codec \<Rightarrow> host \<Rightarrow> string \<Rightarrow> cli_err + lock" where
  "readLock cd h path =
     (case ReadFile h path of
        None \<Rightarrow> Inl LockUnread
      | Some data \<Rightarrow> wrapE LockRejectedByParse (Lock_Parse (decodeStream cd) data))"

definition readRanges ::
  "(string \<Rightarrow> ((string, string) gomap \<times> yaml_rest) option) \<Rightarrow> host \<Rightarrow> string \<Rightarrow> cli_err + validator_range list" where
  "readRanges yaml h path =
     (case ReadFile h path of
        None \<Rightarrow> Inl RangesUnread
      | Some data \<Rightarrow> wrapE RangesRejected (ParseValidatorRanges yaml data))"

definition captureTargets ::
  "('w, 'p) surroundings \<Rightarrow> capture_options \<Rightarrow> scenario \<Rightarrow> cli_err + beacon_client target list" where
  "captureTargets su opts s =
     bindR (each endpointStep (coBeacon opts) []) (\<lambda>endpointByName.
       each (captureTarget (suURL su) (coRequestTimeout opts) endpointByName) (scParticipants s) [])"

text \<open>Everything before the run directory is created.\<close>

definition prepareCapture ::
  "('w, 'p) surroundings \<Rightarrow> host \<Rightarrow> capture_options \<Rightarrow> cli_err + (beacon_client, 'w) run_config" where
  "prepareCapture su h opts =
     bindR (loadScenario (suCodec su) h (coScenario opts)) (\<lambda>(s, scenarioYAML).
     bindR (readLock (suCodec su) h (coDependencyLock opts)) (\<lambda>l.
     bindR (discoverTopology su h opts s) (\<lambda>d.
     bindR (wrapE ClosureFailed (ExperimentMetadata l (dcRuntimeImages d))) (\<lambda>metadata.
     bindR (readRanges (suRanges su) h (coValidatorRanges opts)) (\<lambda>ranges.
     bindR (captureTargets su opts s) (\<lambda>targets.
     bindR (wrapE ChainEndpoint (Execution_NewClient (suURL su) (coExecutionChain opts) (coRequestTimeout opts))) (\<lambda>chainClient.
     bindR (wrapE BackendRejected (NewChaosMesh h (coKubectl opts) (coKubeconfig opts) (coContext opts))) (\<lambda>backend.
       Inr \<lparr>inScenario = s, inRunID = coRunID opts, inPlacements = dcPlacements d, inDependencies = metadata,
         cfScenarioYAML = scenarioYAML, cfTargets = targets,
         cfValidatorClient = (case targets of [] \<Rightarrow> None | t # _ \<Rightarrow> map_option (readValidators su) (tgtClient t)),
         cfValidatorRanges = ranges, cfChainIDClient = Some (readChainID su chainClient),
         cfFaultBackend = Some (chaosBackend su backend), cfNamespace = coNamespace opts, cfArtifacts = None,
         cfPollInterval = coPollInterval opts, cfHeadHistoryLimit = 512\<rparr>))))))))"

definition captureText :: "run_summary \<Rightarrow> string \<Rightarrow> string" where
  "captureText run dir = ''[PASS] Captured '' @ RunID run @ '' ('' @ Condition run @ '')'' @ newline @
     ''[PASS] Evidence: '' @ dir @ newline"

definition captureWith ::
  "('w, 'p) surroundings \<Rightarrow> (beacon_client, 'w) run_config \<Rightarrow> string \<Rightarrow> storage \<Rightarrow> 'w \<Rightarrow> (ending \<times> storage \<times> 'w) option" where
  "captureWith su cfg rt st w =
     (case Artifact_Create rt (inRunID cfg) st of
        (Inl e, st) \<Rightarrow> Some (Inl (ArtifactsFailed e), st, w)
      | (Inr dir, st) \<Rightarrow>
          (case Runner_Run (suRunEnv su) (suEncoder su) (cfg\<lparr>cfArtifacts := Some dir\<rparr>) (startState w st) of
             None \<Rightarrow> None
           | Some (r, rst) \<Rightarrow>
               Some ((case r of Inl errs \<Rightarrow> Inl (RunErrors errs) | Inr run \<Rightarrow> Inr (Some (captureText run dir))),
                     rsStorage rst, rsWorld rst)))"

definition captureRequired :: "capture_options \<Rightarrow> bool" where
  "captureRequired opts \<longleftrightarrow> coScenario opts \<noteq> [] \<and> coRunID opts \<noteq> [] \<and> coKubeconfig opts \<noteq> [] \<and> coNamespace opts \<noteq> [] \<and>
     coValidatorRanges opts \<noteq> [] \<and> coArtifactRoot opts \<noteq> [] \<and> coExecutionChain opts \<noteq> []"

definition runExperimentCapture ::
  "('w, 'p) surroundings \<Rightarrow> string list \<Rightarrow> storage \<Rightarrow> 'w \<Rightarrow> (ending \<times> storage \<times> 'w) option" where
  "runExperimentCapture su arguments st w =
     (case parseFlags captureFlags arguments captureDefaults of
        Inl HelpRequested \<Rightarrow> Some (Inr None, st, w)
      | Inl e \<Rightarrow> Some (Inl (FlagsRejected e), st, w)
      | Inr (opts, positional) \<Rightarrow>
          if length positional \<noteq> 0 \<or> \<not> captureRequired opts then Some (Inl OptionsRequired, st, w)
          else if length (coBeacon opts) \<noteq> 4 then Some (Inl (FourEndpoints (length (coBeacon opts))), st, w)
          else case prepareCapture su (stHost st) opts of
            Inl e \<Rightarrow> Some (Inl e, st, w)
          | Inr cfg \<Rightarrow> captureWith su cfg (coArtifactRoot opts) st w)"

section \<open>Observing\<close>

record observe_options =
  ooBeacon :: "endpoint_value list"
  ooExecution :: "endpoint_value list"
  ooMetricsAddress :: string
  ooOutput :: string
  ooPollInterval :: int
  ooRequestTimeout :: int
  ooHeadHistoryLimit :: int
  ooReorgHistoryLimit :: int

definition observeDefaults :: observe_options where
  "observeDefaults = \<lparr>ooBeacon = [], ooExecution = [], ooMetricsAddress = ''127.0.0.1:9464'', ooOutput = ''-'',
     ooPollInterval = second, ooRequestTimeout = 5 * second, ooHeadHistoryLimit = 256, ooReorgHistoryLimit = 256\<rparr>"

definition observeFlags :: "observe_options flag_set" where
  "observeFlags name = map_of
     [(''beacon'', endpointVar ooBeacon ooBeacon_update), (''execution'', endpointVar ooExecution ooExecution_update),
      (''metrics-address'', stringVar ooMetricsAddress_update), (''output'', stringVar ooOutput_update),
      (''poll-interval'', durationVar ooPollInterval_update), (''request-timeout'', durationVar ooRequestTimeout_update),
      (''head-history-limit'', intVar ooHeadHistoryLimit_update), (''reorg-history-limit'', intVar ooReorgHistoryLimit_update)] name"

definition validateLoopbackAddress :: "string \<Rightarrow> address_err + unit" where
  "validateLoopbackAddress address =
     (case SplitHostPort address of
        None \<Rightarrow> Inl AddressSyntax
      | Some (host, portText) \<Rightarrow>
          if (case ParseIP host of None \<Rightarrow> True | Some ip \<Rightarrow> \<not> IsLoopback ip) then Inl (NotLoopback host)
          else (case ParseUint 10 portText of
                  Inl _ \<Rightarrow> Inl (BadPort portText)
                | Inr port \<Rightarrow> if port > 65535 then Inl (BadPort portText) else Inr ()))"

definition observeTarget ::
  "(string \<Rightarrow> endpoint option) \<Rightarrow> int \<Rightarrow> endpoint_value \<Rightarrow> beacon_client target list \<Rightarrow> cli_err + beacon_client target list" where
  "observeTarget urlParse timeout e targets =
     (if evName e \<in> set (map tgtName targets) then Inl (EndpointTwice (evName e))
      else bindR (wrapE (BeaconEndpoint (evName e)) (NewClient urlParse (evURL e) timeout)) (\<lambda>client.
        Inr (targets @ [\<lparr>tgtName = evName e, tgtClient = Some client\<rparr>])))"

definition observeExecTarget ::
  "(string \<Rightarrow> endpoint option) \<Rightarrow> int \<Rightarrow> endpoint_value \<Rightarrow> exec_client exec_target list \<Rightarrow> cli_err + exec_client exec_target list" where
  "observeExecTarget urlParse timeout e targets =
     (if evName e \<in> set (map etName targets) then Inl (ExecutionTwice (evName e))
      else bindR (wrapE (ExecutionEndpoint (evName e)) (Execution_NewClient urlParse (evURL e) timeout)) (\<lambda>client.
        Inr (targets @ [\<lparr>etName = evName e, etClient = Some client\<rparr>])))"

definition prepareObserve ::
  "(string \<Rightarrow> endpoint option) \<Rightarrow> observe_options \<Rightarrow> string list
     \<Rightarrow> cli_err + beacon_client target list \<times> exec_client exec_target list" where
  "prepareObserve urlParse opts positional =
     (if length positional \<noteq> 0 then Inl (PositionalArguments positional)
      else if length (ooBeacon opts) = 0 then Inl NoBeaconEndpoint
      else if ooPollInterval opts \<le> 0 then Inl IntervalNotPositive
      else if ooRequestTimeout opts \<le> 0 then Inl TimeoutOptionNotPositive
      else if ooReorgHistoryLimit opts < 2 then Inl ReorgLimitOption
      else if ooHeadHistoryLimit opts < 2 then Inl HeadLimitOption
      else bindR (wrapE MetricsAddress (validateLoopbackAddress (ooMetricsAddress opts))) (\<lambda>_.
           bindR (each (observeTarget urlParse (ooRequestTimeout opts)) (ooBeacon opts) []) (\<lambda>targets.
           bindR (each (observeExecTarget urlParse (ooRequestTimeout opts)) (ooExecution opts) []) (\<lambda>execTargets.
             Inr (targets, execTargets)))))"

text \<open>\<open>None\<close> is the standard output; otherwise the path of a file that did not exist.\<close>

definition openOutput :: "string \<Rightarrow> storage \<Rightarrow> (cli_err + string option) \<times> storage" where
  "openOutput path st =
     (if path = ''-'' then (Inr None, st)
      else if path = [] then (Inl OutputRequired, st)
      else (case openExclusive path st of
              (False, st) \<Rightarrow> (Inl (OutputNotCreated path), st)
            | (True, st) \<Rightarrow> (Inr (Some path), st)))"

definition closeOutput :: "string option \<Rightarrow> storage \<Rightarrow> bool \<times> storage" where
  "closeOutput output st = (case output of None \<Rightarrow> (True, st) | Some _ \<Rightarrow> syncClose st)"

definition execRecorderFst :: "'a exec_recorder \<Rightarrow> ('a \<times> 'b) exec_recorder" where
  "execRecorderFst r = \<lparr>RecordExecution = onFst (RecordExecution r), RecordReorg = onFst (RecordReorg r),
     RecordExecFailure = onFst (RecordExecFailure r)\<rparr>"

definition execRecorderSnd :: "'b exec_recorder \<Rightarrow> ('a \<times> 'b) exec_recorder" where
  "execRecorderSnd r = \<lparr>RecordExecution = onSnd (RecordExecution r), RecordReorg = onSnd (RecordReorg r),
     RecordExecFailure = onSnd (RecordExecFailure r)\<rparr>"

definition observeRecorder :: "('w, 'p) surroundings \<Rightarrow> multi_err + (jsonl \<times> 'p metrics) recorder list" where
  "observeRecorder su = NewMultiRecorder [Some (recorderFst JSONLRecorder), Some (recorderSnd (MetricsRecorder (suProm su)))]"

definition observeExecRecorder :: "('w, 'p) surroundings \<Rightarrow> multi_err + (jsonl \<times> 'p metrics) exec_recorder list" where
  "observeExecRecorder su =
     NewMultiExecutionRecorder [Some (execRecorderFst JSONLExecRecorder), Some (execRecorderSnd (MetricsExecRecorder (suProm su)))]"

definition planObservation ::
  "('w, 'p) surroundings \<Rightarrow> observe_options \<Rightarrow> beacon_client target list \<Rightarrow> exec_client exec_target list
     \<Rightarrow> cli_err + 'p observe_plan" where
  "planObservation su opts targets execTargets =
     bindR (wrapE MetricsFailed (NewMetrics (suRegister su) (suRegistry su))) (\<lambda>m.
     bindR (wrapE RecordersFailed (observeRecorder su)) (\<lambda>rs.
     bindR (wrapE ObserverRejected (New targets (Some (MultiRecorder rs))
         \<lparr>PollInterval = ooPollInterval opts, HeadHistoryLimit = ooHeadHistoryLimit opts\<rparr>)) (\<lambda>ob.
     bindR (if length execTargets > 0
            then map_sum id Some (bindR (wrapE RecordersFailed (observeExecRecorder su)) (\<lambda>ers.
              bindR (wrapE ExecObserverRejected (NewExecutionObserver execTargets (Some (MultiExecutionRecorder ers))
                \<lparr>HistoryLimit = ooReorgHistoryLimit opts, ReconnectInitial = second, ReconnectMaximum = 30 * second\<rparr>)) (\<lambda>exob.
                Inr (exob, MultiExecutionRecorder ers))))
            else Inr None) (\<lambda>exec.
       Inr \<lparr>plObserver = ob, plRecorder = MultiRecorder rs, plExec = exec, plMetrics = m\<rparr>))))"

text \<open>The observation with its files; the listener is closed, and an error of that is dropped.\<close>

definition observeInto ::
  "('w, 'p) surroundings \<Rightarrow> observe_options \<Rightarrow> beacon_client target list \<Rightarrow> exec_client exec_target list \<Rightarrow>
   storage \<Rightarrow> 'w \<Rightarrow> ending \<times> storage \<times> 'w" where
  "observeInto su opts targets execTargets st w =
     (case openOutput (ooOutput opts) st of
        (Inl e, st) \<Rightarrow> (Inl e, st, w)
      | (Inr output, st) \<Rightarrow>
          (case (case planObservation su opts targets execTargets of
                   Inl e \<Rightarrow> (Some e, w)
                 | Inr plan \<Rightarrow>
                     (case suObserve su plan w of
                        (GroupFailed e, w) \<Rightarrow> (Some (ObservationFailed e), w)
                      | (_, w) \<Rightarrow> (None, w))) of
             (failure, w) \<Rightarrow>
               (case closeOutput output st of
                  (True, st) \<Rightarrow> ((case failure of None \<Rightarrow> Inr None | Some e \<Rightarrow> Inl e), st, w)
                | (False, st) \<Rightarrow> (Inl (OutputNotClosed failure), st, w))))"

definition runObserve ::
  "('w, 'p) surroundings \<Rightarrow> string list \<Rightarrow> storage \<Rightarrow> 'w \<Rightarrow> ending \<times> storage \<times> 'w" where
  "runObserve su arguments st w =
     (case parseFlags observeFlags arguments observeDefaults of
        Inl HelpRequested \<Rightarrow> (Inr None, st, w)
      | Inl e \<Rightarrow> (Inl (FlagsRejected e), st, w)
      | Inr (opts, positional) \<Rightarrow>
          (case prepareObserve (suURL su) opts positional of
             Inl e \<Rightarrow> (Inl e, st, w)
           | Inr (targets, execTargets) \<Rightarrow>
               (case suListen su (ooMetricsAddress opts) w of
                  (False, w) \<Rightarrow> (Inl (ListenFailed (ooMetricsAddress opts)), st, w)
                | (True, w) \<Rightarrow> observeInto su opts targets execTargets st w)))"

section \<open>Commands\<close>

definition rootUsage :: string where
  "rootUsage = concat (map (\<lambda>line. line @ newline)
     [''Usage:'', ''  ethquake observe [options]'', ''  ethquake scenario validate --file PATH'',
      ''  ethquake experiment capture [options]'', ''  ethquake experiment analyze [options]'', [],
      ''Use '' @ [CHR 34] @ ''ethquake COMMAND --help'' @ [CHR 34] @ '' for command-specific options.''])"

definition runExperiment ::
  "('w, 'p) surroundings \<Rightarrow> string list \<Rightarrow> storage \<Rightarrow> 'w \<Rightarrow> (ending \<times> storage \<times> 'w) option" where
  "runExperiment su arguments st w =
     (case arguments of
        [] \<Rightarrow> Some (Inl CaptureOrAnalyze, st, w)
      | sub # rest \<Rightarrow>
          if sub = ''capture'' then runExperimentCapture su rest st w
          else if sub = ''analyze'' then
            (case suNow su w of (now, w) \<Rightarrow>
             case runExperimentAnalyze (suCodec su) (suEncoder su) now rest st of (r, st) \<Rightarrow> Some (r, st, w))
          else Some (Inl (UnknownSubcommand sub), st, w))"

definition runCommand ::
  "('w, 'p) surroundings \<Rightarrow> string list \<Rightarrow> storage \<Rightarrow> 'w \<Rightarrow> (ending \<times> storage \<times> 'w) option" where
  "runCommand su arguments st w =
     (case arguments of
        [] \<Rightarrow> Some (Inl CommandRequired, st, w)
      | command # rest \<Rightarrow>
          if command = ''observe'' then Some (runObserve su rest st w)
          else if command = ''scenario'' then Some (runScenario (suCodec su) (stHost st) rest, st, w)
          else if command = ''experiment'' then runExperiment su rest st w
          else if command = ''help'' \<or> command = ''-h'' \<or> command = ''--help'' then Some (Inr (Some rootUsage), st, w)
          else Some (Inl (UnknownCommand command), st, w))"

text \<open>The text of a command is written last, and an error of that is its error.\<close>

definition Cli_Run ::
  "('w, 'p) surroundings \<Rightarrow> string list \<Rightarrow> storage \<Rightarrow> 'w \<Rightarrow> (cli_err option \<times> storage \<times> 'w) option" where
  "Cli_Run su arguments st w =
     map_option (\<lambda>(r, st, w).
       case r of
         Inl e \<Rightarrow> (Some e, st, w)
       | Inr None \<Rightarrow> (None, st, w)
       | Inr (Some out) \<Rightarrow> (case suStdout su out w of (ok, w) \<Rightarrow> (if ok then None else Some StdoutFailed, st, w)))
     (runCommand su arguments st w)"

end
