(* ===== verification/CliRules.thy ===== *)
theory CliRules
  imports Cli RunEvidence
begin

text \<open>
  What the commands establish before they hand over to the components, and what they leave behind.
\<close>

section \<open>A captured configuration\<close>

lemma each_endpoint_names:
  "each (captureTarget urlParse timeout endpoints) ps ts = Inr ts' \<Longrightarrow>
     map tgtName ts' = map tgtName ts @ map BeaconTarget ps \<and> (\<forall>t \<in> set ts'. t \<in> set ts \<or> tgtClient t \<noteq> None)"
proof (induction ps arbitrary: ts)
  case (Cons p ps)
  then obtain t where t: "captureTarget urlParse timeout endpoints p ts = Inr t" "each (captureTarget urlParse timeout endpoints) ps t = Inr ts'"
    by (auto simp: result_simps split: sum.splits)
  then obtain client where "t = ts @ [\<lparr>tgtName = BeaconTarget p, tgtClient = Some client\<rparr>]"
    by (auto simp: captureTarget_def result_simps split: option.splits)
  with Cons.IH [OF t(2)] show ?case by auto
qed simp

lemma each_targetStep_ok:
  "distinct (map tgtName ts) \<Longrightarrow> set (map tgtName ts) \<subseteq> set expected \<Longrightarrow> set (map tgtName ts) \<inter> set seen = {} \<Longrightarrow>
     \<exists>seen'. each (Orchestrator.targetStep expected) ts seen = Inr seen'"
  by (induction ts arbitrary: seen) (auto simp: Orchestrator.targetStep_def)

lemma Lock_cloneMap_subset: "\<forall>(k, v) \<in> set m. P k v \<Longrightarrow> \<forall>(k, v) \<in> set (Lock_cloneMap m). P k v"
proof -
  have "\<forall>(k, v) \<in> set out. P k v \<Longrightarrow> \<forall>(k, v) \<in> set m. P k v \<Longrightarrow>
      \<forall>(k, v) \<in> set (foldl (\<lambda>output (k, v). mput k v output) out m). P k v" for out
  proof (induction m arbitrary: out)
    case (Cons p m)
    obtain k v where p: "p = (k, v)" by (cases p)
    have "\<forall>(k, v) \<in> set (mput k v out). P k v" by (rule gomap_mput_all [OF Cons.prems(1)]) (use Cons.prems(2) p in simp)
    from Cons.IH [OF this] Cons.prems(2) show ?case by (simp add: p)
  qed simp
  from this [of "[]"] show "\<forall>(k, v) \<in> set m. P k v \<Longrightarrow> ?thesis" by (simp add: Lock_cloneMap_def)
qed

lemma Lock_cloneMap_not_Nil: "m \<noteq> [] \<Longrightarrow> Lock_cloneMap m \<noteq> []"
proof -
  have "out \<noteq> [] \<or> m \<noteq> [] \<Longrightarrow> foldl (\<lambda>output (k, v). mput k v output) out m \<noteq> []" for out
    by (induction m arbitrary: out) auto
  then show "m \<noteq> [] \<Longrightarrow> Lock_cloneMap m \<noteq> []" by (simp add: Lock_cloneMap_def)
qed

text \<open>What a lock vouches for is valid metadata, whatever the order and the repetitions in its maps.\<close>

lemma ExperimentMetadata_valid:
  assumes "ExperimentMetadata l resolved = Inr md" shows "ValidateDependencyMetadata md = Inr ()"
proof -
  from assms have v: "Lock_Validate l = Inr ()"
    and w: "\<forall>(workload, img) \<in> set resolved. workload \<noteq> [] \<and> img \<in> allowedImages l"
    and md: "md = \<lparr>EthereumPackageRevision = Revision (EthereumPackage l),
           ImportedPackages = Lock_cloneMap (lockImportedPackages l), RuntimeImages = metadataImages l resolved\<rparr>"
    by (simp_all add: ExperimentMetadata_Inr)
  have "\<forall>(k, i) \<in> set (metadataImages l resolved). k \<noteq> [] \<and> digestPattern i"
    by (rule metadataImages_all) (use v w allowed_pinned [OF v] in \<open>auto simp: Lock_Validate_iff\<close>)
  then have "\<forall>p \<in> set (metadataImages l resolved). checkImage p = Inr ()" by (auto intro: digestPattern_checkImage)
  moreover have "\<forall>(n, r) \<in> set (Lock_cloneMap (lockImportedPackages l)). checkPackage (n, r) = Inr ()"
    by (rule Lock_cloneMap_subset) (use v in \<open>auto simp: Lock_Validate_iff checkPackage_def commitPattern_def\<close>)
  ultimately show ?thesis
    using v Lock_cloneMap_not_Nil [of "lockImportedPackages l"] unfolding ValidateDependencyMetadata_def md
    by (auto simp: eachCheck_Inr_iff bindR_Inr_iff Lock_Validate_iff commitPattern_def metadataImages_def)
qed

text \<open>What preparing a capture has read.\<close>

lemma prepareCapture_Inr:
  assumes "prepareCapture su h opts = Inr cfg"
  shows "Scenario_Validate (Sum256 (suCodec su)) (inScenario cfg) = Inr ()"
    "loadScenario (suCodec su) h (coScenario opts) = Inr (inScenario cfg, cfScenarioYAML cfg)"
    "cfNamespace cfg = NamespacePrefix (scTarget (inScenario cfg)) @ inRunID cfg"
    "ValidateDependencyMetadata (inDependencies cfg) = Inr ()"
    "map tgtName (cfTargets cfg) = map BeaconTarget (scParticipants (inScenario cfg))" "\<forall>t \<in> set (cfTargets cfg). tgtClient t \<noteq> None"
    "cfChainIDClient cfg \<noteq> None" "cfFaultBackend cfg \<noteq> None"
    "cfValidatorClient cfg = (case cfTargets cfg of [] \<Rightarrow> None | t # _ \<Rightarrow> map_option (readValidators su) (tgtClient t))"
    "inRunID cfg = coRunID opts" "cfPollInterval cfg = coPollInterval opts" "cfHeadHistoryLimit cfg = 512" "cfArtifacts cfg = None"
proof -
  from assms obtain s yaml l d metadata ranges targets chain backend where
      s: "loadScenario (suCodec su) h (coScenario opts) = Inr (s, yaml)"
    and d: "discoverTopology su h opts s = Inr d" and md: "ExperimentMetadata l (dcRuntimeImages d) = Inr metadata"
    and t: "captureTargets su opts s = Inr targets"
    and cfg: "cfg = \<lparr>inScenario = s, inRunID = coRunID opts, inPlacements = dcPlacements d, inDependencies = metadata,
         cfScenarioYAML = yaml, cfTargets = targets,
         cfValidatorClient = (case targets of [] \<Rightarrow> None | t # _ \<Rightarrow> map_option (readValidators su) (tgtClient t)),
         cfValidatorRanges = ranges, cfChainIDClient = Some (readChainID su chain),
         cfFaultBackend = Some (chaosBackend su backend), cfNamespace = coNamespace opts, cfArtifacts = None,
         cfPollInterval = coPollInterval opts, cfHeadHistoryLimit = 512\<rparr>"
    by (auto simp: prepareCapture_def bindR_Inr_iff wrapE_Inr_iff)
  from s have v: "Scenario_Validate (Sum256 (suCodec su)) s = Inr ()"
    by (auto simp: loadScenario_def result_simps wrapE_Inr_iff dest: Scenario_Parse_Inr split: option.splits)
  from d have n: "coNamespace opts = NamespacePrefix (scTarget s) @ coRunID opts"
    by (auto simp: discoverTopology_def Discover_def result_simps wrapE_Inr_iff split: if_splits)
  from t obtain seen where "each (captureTarget (suURL su) (coRequestTimeout opts) seen) (scParticipants s) [] = Inr targets"
    by (auto simp: captureTargets_def bindR_Inr_iff)
  note ts = each_endpoint_names [OF this]
  show "Scenario_Validate (Sum256 (suCodec su)) (inScenario cfg) = Inr ()"
    "loadScenario (suCodec su) h (coScenario opts) = Inr (inScenario cfg, cfScenarioYAML cfg)"
    "cfNamespace cfg = NamespacePrefix (scTarget (inScenario cfg)) @ inRunID cfg"
    "ValidateDependencyMetadata (inDependencies cfg) = Inr ()"
    "map tgtName (cfTargets cfg) = map BeaconTarget (scParticipants (inScenario cfg))" "\<forall>t \<in> set (cfTargets cfg). tgtClient t \<noteq> None"
    "cfChainIDClient cfg \<noteq> None" "cfFaultBackend cfg \<noteq> None"
    "cfValidatorClient cfg = (case cfTargets cfg of [] \<Rightarrow> None | t # _ \<Rightarrow> map_option (readValidators su) (tgtClient t))"
    "inRunID cfg = coRunID opts" "cfPollInterval cfg = coPollInterval opts" "cfHeadHistoryLimit cfg = 512" "cfArtifacts cfg = None"
    using v s n ts ExperimentMetadata_valid [OF md] by (simp_all add: cfg)
qed

text \<open>What the orchestrator still has to check of a captured configuration.\<close>

definition remainingChecks :: "capture_options \<Rightarrow> ('c, 'w) run_config \<Rightarrow> config_err + string \<times> u64" where
  "remainingChecks opts cfg =
     (case runIdentity (coRunID opts) (RunOrder (scMethodology (inScenario cfg))) of
        None \<Rightarrow> Inl (RunNotInOrder (coRunID opts))
      | Some identity \<Rightarrow>
          if cfScenarioYAML cfg = [] then Inl InputsRequired
          else if coPollInterval opts \<le> 0 then Inl IntervalOrHistory
          else bindR (wrapE ConfigPlacements (ValidatePlacements (inScenario cfg) (inPlacements cfg))) (\<lambda>_. Inr identity))"

lemma capture_validated:
  assumes "prepareCapture su h opts = Inr cfg"
  shows "validateConfig (Sum256 (suCodec su)) (cfg\<lparr>cfArtifacts := Some dir\<rparr>) = remainingChecks opts cfg"
proof -
  note c = prepareCapture_Inr [OF assms]
  have p: "validParticipants (scParticipants (inScenario cfg))" by (rule Scenario_Validate_parts [OF c(1)])
  then have n: "length (scParticipants (inScenario cfg)) = 4" "distinct (map BeaconTarget (scParticipants (inScenario cfg)))"
    by (simp_all add: validParticipants_def)
  have l: "length (cfTargets cfg) = 4" using n(1) c(5) by (metis length_map)
  then have vc: "cfValidatorClient cfg \<noteq> None" using c(6,9) by (cases "cfTargets cfg") auto
  obtain seen where "each (Orchestrator.targetStep (map BeaconTarget (scParticipants (inScenario cfg)))) (cfTargets cfg) [] = Inr seen"
    using each_targetStep_ok [of "cfTargets cfg" "map BeaconTarget (scParticipants (inScenario cfg))" "[]"] n(2) c(5) by auto
  then show ?thesis using c vc l
    by (auto simp: validateConfig_def remainingChecks_def Let_def wrapE_def split: option.splits prod.splits sum.splits)
qed

text \<open>
  C26: A capture reads everything it needs before it hands over: of the checks that the orchestrator makes of a
  configuration, those on the scenario, the targets, the clients, the namespace, the history limit and the dependencies
  cannot fail any more; the outcome is that of the checks of the run id, the scenario file, the poll interval
  and the placements.
\<close>

theorem Capture_checked:
  assumes "prepareCapture su h opts = Inr cfg"
  shows "validateConfig (Sum256 (suCodec su)) (cfg\<lparr>cfArtifacts := Some dir\<rparr>) = remainingChecks opts cfg"
  by (rule capture_validated [OF assms])

text \<open>
  The run directory is created before those checks. A run id or an interval that they reject leaves it behind,
  empty, and its name is taken for the next attempt.
\<close>

lemma Mkdir_taken: "Lstat (stHost st) path \<noteq> None \<Longrightarrow> fst (Mkdir path st) = False"
  by (auto simp: Mkdir_def tick_def Let_def split: option.splits)

lemma Capture_leaves_directory:
  assumes "prepareCapture su (stHost st) opts = Inr cfg" "digest256 (suEncoder su) = Sum256 (suCodec su)"
    and "remainingChecks opts cfg = Inl e" "Artifact_Create rt (inRunID cfg) st = (Inr dir, st')"
  shows "captureWith su cfg rt st w = Some (Inl (RunErrors [RunFailed (ConfigInvalid e)]), st', w) \<and> fst (Mkdir dir st') = False"
proof -
  have "Lstat (stHost st') dir = Some DirNode" using Create_makes [OF assms(4)] by (auto simp: runDirectory_def)
  then have "fst (Mkdir dir st') = False" by (intro Mkdir_taken) simp
  moreover have "validateConfig (digest256 (suEncoder su)) (cfg\<lparr>cfArtifacts := Some dir\<rparr>) = Inl e"
    using capture_validated [OF assms(1)] assms(2,3) by simp
  ultimately show ?thesis
    by (simp add: captureWith_def assms(4) Runner_Run_def runBody_def failRun_def exitRun_def revertAtExit_def stopObserver_def
        closeRaw_def startState_def)
qed

section \<open>What an analysis stores\<close>

text \<open>A report in its directory: the three files, each with its content.\<close>

definition reported :: "run_encoder \<Rightarrow> host \<Rightarrow> string \<Rightarrow> analysis \<Rightarrow> bool" where
  "reported enc h dir a \<longleftrightarrow>
     (\<exists>json. encodeAnalysis enc a = Some json \<and> artifactFile h dir ''report.json'' json) \<and>
     artifactFile h dir ''report.md'' (Markdown a) \<and>
     (\<exists>svg. SVG a = Some svg \<and> artifactFile h dir ''finality-progress.svg'' svg)"

lemma WriteJSON_added:
  "WriteJSON dir name encoded st = (Inr u, st') \<Longrightarrow> \<exists>bytes. encoded = Some bytes \<and> addsFile dir name bytes (stHost st) (stHost st')"
proof (cases encoded)
  case None
  then show "WriteJSON dir name encoded st = (Inr u, st') \<Longrightarrow> ?thesis"
    by (auto simp: WriteJSON_def split: sum.splits prod.splits if_splits)
next
  case (Some bytes)
  then show "WriteJSON dir name encoded st = (Inr u, st') \<Longrightarrow> ?thesis"
    using WriteJSON_wroteOnce [of dir name bytes st "Inr u" st'] by (auto simp: wroteOnce_def addsFile_def)
qed

lemma Artifact_Write_added:
  "Artifact_Write dir name content st = (Inr u, st') \<Longrightarrow> \<exists>bytes. content = Some bytes \<and> addsFile dir name bytes (stHost st) (stHost st')"
proof (cases content)
  case None
  then show "Artifact_Write dir name content st = (Inr u, st') \<Longrightarrow> ?thesis" by (simp add: Artifact_Write_def)
next
  case (Some bytes)
  then show "Artifact_Write dir name content st = (Inr u, st') \<Longrightarrow> ?thesis"
    using Write_wroteOnce [of dir name bytes st "Inr u" st'] by (auto simp: wroteOnce_def addsFile_def)
qed

lemma addsFile_preserves: "addsFile dir name bytes (stHost st) (stHost st') \<Longrightarrow> preserves st st'"
  by (auto simp: preserves_def intro: artifactFile_added(3))

lemma storeReport_reported:
  assumes "storeReport enc dir a st = (Inr u, st')"
  shows "reported enc (stHost st') dir a \<and> preserves st st'"
proof -
  from assms obtain s1 s2 where w: "WriteJSON dir ''report.json'' (encodeAnalysis enc a) st = (Inr (), s1)"
      "Artifact_Write dir ''report.md'' (Some (Markdown a)) s1 = (Inr (), s2)"
      "Artifact_Write dir ''finality-progress.svg'' (SVG a) s2 = (Inr u, st')"
    by (auto simp: storeReport_def split: prod.splits sum.splits)
  obtain json svg where f: "encodeAnalysis enc a = Some json" "addsFile dir ''report.json'' json (stHost st) (stHost s1)"
      "addsFile dir ''report.md'' (Markdown a) (stHost s1) (stHost s2)"
      "SVG a = Some svg" "addsFile dir ''finality-progress.svg'' svg (stHost s2) (stHost st')"
    using WriteJSON_added [OF w(1)] Artifact_Write_added [OF w(2)] Artifact_Write_added [OF w(3)] by auto
  note kept = artifactFile_added(2) [OF f(5)]
  have "artifactFile (stHost st') dir ''report.json'' json"
    by (rule kept [OF artifactFile_added(2) [OF f(3) artifactFile_added(1) [OF f(2)]]])
  then have "reported enc (stHost st') dir a"
    using f(1,4) kept [OF artifactFile_added(1) [OF f(3)]] artifactFile_added(1) [OF f(5)] by (simp add: reported_def)
  moreover have "preserves st st'"
    using f(2,3,5) by (blast intro: preserves_trans addsFile_preserves)
  ultimately show ?thesis ..
qed

lemma wroteOnce_preserves: "wroteOnce dir name bytes ok (stHost st) (stHost st') \<Longrightarrow> preserves st st'"
  by (auto simp: wroteOnce_def preserves_def split: if_splits)

lemma WriteJSON_preserves: "WriteJSON dir name encoded st = (res, st') \<Longrightarrow> preserves st st'"
proof (cases encoded)
  case None
  assume w: "WriteJSON dir name encoded st = (res, st')"
  obtain r st1 where c: "CreateFile dir name st = (r, st1)" by (cases "CreateFile dir name st")
  then have "preserves st st1" using CreateFile_host [OF c] by (auto simp: preserves_def)
  moreover have "stHost st' = stHost st1"
    using w None c by (auto simp: WriteJSON_def split: sum.splits prod.splits if_splits dest: settled(2))
  ultimately show ?thesis by (simp add: preserves_def)
next
  case (Some bytes)
  assume w: "WriteJSON dir name encoded st = (res, st')"
  then show ?thesis using Some WriteJSON_wroteOnce wroteOnce_preserves by blast
qed

lemma Artifact_Write_preserves: "Artifact_Write dir name content st = (res, st') \<Longrightarrow> preserves st st'"
proof (cases content)
  case (Some bytes)
  assume w: "Artifact_Write dir name content st = (res, st')"
  then show ?thesis using Some Write_wroteOnce wroteOnce_preserves by blast
qed (simp add: Artifact_Write_def)

lemma storeReport_preserves: "storeReport enc dir a st = (res, st') \<Longrightarrow> preserves st st'"
  by (auto simp: storeReport_def split: prod.splits sum.splits
      dest!: WriteJSON_preserves Artifact_Write_preserves intro: preserves_trans)

text \<open>Whatever becomes of an analysis, what was on the file system stays as it was.\<close>

lemma analyze_preserves:
  assumes "runExperimentAnalyze cd enc now arguments st = (res, st')"
  shows "preserves st st'"
  using assms
  by (auto simp: runExperimentAnalyze_def split: sum.splits flag_err.splits prod.splits if_splits
      dest!: Create_preserves storeReport_preserves intro: preserves_trans)

text \<open>The medians of an analysis are numbers, so its JSON is refused only for a split of a run that is not finite.\<close>

lemma summarize_finite: "finiteNumber (Median (summarize xs))"
proof -
  have "fl 2 \<noteq> 0" by code_simp
  then show ?thesis by (simp add: summarize_def Let_def finiteNumber_def f64_of_u64_def lit_def fdiv_def)
qed

lemma recoveryStatistics_finite:
  assumes "recoveryStatistics faults = Inr out" shows "list_all finiteNumber (map (Median \<circ> snd) out)"
proof -
  have "\<forall>(k, st) \<in> set out. finiteNumber (Median st) \<Longrightarrow>
      \<forall>(k, st) \<in> set (foldl (\<lambda>out (client, vs). mput client (summarize vs) out) out m). finiteNumber (Median st)"
    for m :: "(string, u64 list) gomap" and out
  proof (induction m arbitrary: out)
    case (Cons p m)
    obtain client vs where p: "p = (client, vs)" by (cases p)
    have "\<forall>(k, st) \<in> set (mput client (summarize vs) out). finiteNumber (Median st)"
      by (rule gomap_mput_all [OF Cons.prems]) (simp add: summarize_finite)
    from Cons.IH [OF this] show ?case by (simp add: p)
  qed simp
  note this [of "[]"]
  then show ?thesis using assms by (fastforce simp: recoveryStatistics_def bindR_Inr_iff list_all_iff)
qed

lemma settled_medians:
  "predictionMatched runs \<Longrightarrow> recoveryStatistics m = Inr out \<Longrightarrow> RecoveryByClient a0 = [] \<Longrightarrow>
     list_all finiteNumber (map (Median \<circ> snd) (RecoveryByClient (settled s runs out a0)))"
  "\<not> predictionMatched runs \<Longrightarrow> RecoveryByClient (settled s runs out a0) = RecoveryByClient a0"
  "Runs (settled s runs out a0) = Runs a0" "ControlMinimumProgress (settled s runs out a0) = ControlMinimumProgress a0"
  "FaultMaximumProgress (settled s runs out a0) = FaultMaximumProgress a0"
  by (auto simp: settled_def Let_def recoveryStatistics_finite split: prod.splits)

lemma Analyze_encodes:
  assumes "Analyze sum256 s runs now = Inr a" "\<forall>r \<in> set runs. finiteFloats (RealizedSplit r)"
    and "set (RunOrder (scMethodology s)) \<subseteq> set (map RunID runs)"
  shows "\<exists>json. encodeAnalysis enc a = Some json"
proof -
  obtain p out where o': "predictionMatched runs \<Longrightarrow> recoveryStatistics (conditionRuns ConditionFault s runs) = Inr out"
    and a: "a = settled s runs out (analysisBase s runs now p)" by (rule Analyze_Inr [OF assms(1)]) blast
  have "list_all (\<lambda>r. finiteFloats (RealizedSplit r)) (Runs a)"
    using assms(2,3) namedRun_in [of _ runs] by (auto simp: a settled_medians analysisBase_def list_all_iff)
  moreover have "list_all finiteNumber (map (Median \<circ> snd) (RecoveryByClient a))"
    by (cases "predictionMatched runs") (simp_all add: a settled_medians(2) analysisBase_def settled_medians(1) [OF _ o'])
  moreover have "finiteNumber (Median (ControlMinimumProgress a))" "finiteNumber (Median (FaultMaximumProgress a))"
    by (simp_all add: a settled_medians analysisBase_def summarize_finite)
  ultimately show ?thesis by (simp add: encodeAnalysis_def)
qed

text \<open>An analysis that ends with its text has read evidence, adjudicated it, and stored the report of just that.\<close>

lemma analyze_stored:
  assumes "runExperimentAnalyze cd enc now arguments st = (Inr (Some out), st')"
  shows "\<exists>opts s data runs a dir. parseFlags analyzeFlags arguments analyzeDefaults = Inr (opts, []) \<and>
     loadScenario cd (stHost st) (aoScenario opts) = Inr (s, data) \<and>
     LoadRunSummaries cd (stHost st) (aoRunsRoot opts) s = Inr runs \<and> Analyze (Sum256 cd) s runs now = Inr a \<and>
     Lstat (stHost st) dir = None \<and> reported enc (stHost st') dir a \<and> out = analysisText dir a"
proof -
  from assms obtain opts s a st1 dir where
      p: "parseFlags analyzeFlags arguments analyzeDefaults = Inr (opts, [])" and j: "adjudicate cd (stHost st) opts now = Inr (s, a)"
    and c: "Artifact_Create (aoOutputRoot opts) (scName s @ ''-analysis'') st = (Inr dir, st1)"
    and r: "storeReport enc dir a st1 = (Inr (), st')" and out: "out = analysisText dir a"
    by (auto simp: runExperimentAnalyze_def split: sum.splits flag_err.splits prod.splits if_splits)
  from j obtain data runs where "loadScenario cd (stHost st) (aoScenario opts) = Inr (s, data)"
      "LoadRunSummaries cd (stHost st) (aoRunsRoot opts) s = Inr runs" "Analyze (Sum256 cd) s runs now = Inr a"
    by (auto simp: adjudicate_def bindR_Inr_iff wrapE_Inr_iff)
  then show ?thesis using p out storeReport_reported [OF r] Create_makes [OF c] by blast
qed

text \<open>
  C25: An analysis that ends with its text has read a valid scenario and six accepted runs, adjudicated just them, and
  stored the verdict as JSON, as Markdown and as a chart in a directory that did not exist before; whatever
  becomes of an analysis, everything that was on the file system stays as it was.
\<close>

theorem Analyze_reported:
  assumes "runExperimentAnalyze cd enc now arguments st = (res, st')"
  shows "preserves st st' \<and>
    (\<forall>out. res = Inr (Some out) \<longrightarrow>
      (\<exists>opts s data runs a dir. parseFlags analyzeFlags arguments analyzeDefaults = Inr (opts, []) \<and>
         loadScenario cd (stHost st) (aoScenario opts) = Inr (s, data) \<and>
         LoadRunSummaries cd (stHost st) (aoRunsRoot opts) s = Inr runs \<and> Analyze (Sum256 cd) s runs now = Inr a \<and>
         Lstat (stHost st) dir = None \<and> reported enc (stHost st') dir a \<and> out = analysisText dir a))"
proof -
  have "preserves st st'" by (rule analyze_preserves [OF assms])
  moreover have "\<exists>opts s data runs a dir. parseFlags analyzeFlags arguments analyzeDefaults = Inr (opts, []) \<and>
         loadScenario cd (stHost st) (aoScenario opts) = Inr (s, data) \<and>
         LoadRunSummaries cd (stHost st) (aoRunsRoot opts) s = Inr runs \<and> Analyze (Sum256 cd) s runs now = Inr a \<and>
         Lstat (stHost st) dir = None \<and> reported enc (stHost st') dir a \<and> out = analysisText dir a" if "res = Inr (Some out)" for out
    by (rule analyze_stored [OF assms [unfolded that]])
  ultimately show ?thesis by blast
qed

section \<open>An observation that is ready\<close>

lemma parseFlags_step:
  assumes "parseFlags look (s # args) opts = Inr (opts', rest)"
  shows "opts' = opts \<or> (\<exists>key setter v opts1 args1. look key = Some setter \<and> setter v opts = Some opts1 \<and>
     parseFlags look args1 opts1 = Inr (opts', rest) \<and> length args1 \<le> length args)"
proof -
  obtain key inline found where c: "Cut (CHR ''='') (if s ! 1 = CHR ''-'' then drop 2 s else drop 1 s) = (key, inline, found)"
    by (metis surj_pair)
  show ?thesis
  proof (cases "length s < 2 \<or> hd s \<noteq> CHR ''-'' \<or> s = ''--''")
    case True
    then show ?thesis using assms by (auto split: if_splits)
  next
    case False
    then obtain setter where l: "look key = Some setter"
      using assms c by (cases "look key") (simp_all add: Let_def del: drop_eq_Nil split: if_splits)
    show ?thesis
    proof (cases found)
      case True
      then obtain opts1 where "setter inline opts = Some opts1" "parseFlags look args opts1 = Inr (opts', rest)"
        using assms False c l by (cases "setter inline opts") (simp_all add: Let_def del: drop_eq_Nil split: if_splits)
      then show ?thesis using l by blast
    next
      case nf: False
      then obtain v tail where a: "args = v # tail"
        using assms False c l by (cases args) (simp_all add: Let_def del: drop_eq_Nil split: if_splits)
      with nf obtain opts1 where "setter v opts = Some opts1" "parseFlags look tail opts1 = Inr (opts', rest)"
        using assms False c l by (cases "setter v opts") (simp_all add: Let_def del: drop_eq_Nil split: if_splits)
      then show ?thesis using l a by (metis le_add2 length_Cons plus_1_eq_Suc)
    qed
  qed
qed

text \<open>A setter that keeps a property of the options keeps it through the flags.\<close>

lemma parseFlags_keeps:
  assumes "\<And>name setter v opts opts'. look name = Some setter \<Longrightarrow> P opts \<Longrightarrow> setter v opts = Some opts' \<Longrightarrow> P opts'"
    and "parseFlags look arguments opts = Inr (opts', rest)" "P opts"
  shows "P opts'"
  using assms(2,3)
proof (induction arguments arbitrary: opts rule: length_induct)
  case (1 arguments)
  show ?case
  proof (cases arguments)
    case Nil
    then show ?thesis using 1 by simp
  next
    case (Cons s args)
    then consider "opts' = opts" | key setter v opts1 args1 where "look key = Some setter" "setter v opts = Some opts1"
        "parseFlags look args1 opts1 = Inr (opts', rest)" "length args1 \<le> length args"
      using parseFlags_step [of look s args opts opts' rest] "1.prems"(1) by blast
    then show ?thesis
    proof cases
      case 2
      have "P opts1" by (rule assms(1) [OF 2(1) "1.prems"(2) 2(2)])
      moreover have "length args1 < length arguments" using 2(4) Cons by simp
      ultimately show ?thesis using "1.IH" 2(3) by blast
    qed (use "1.prems" in simp)
  qed
qed

definition namedEndpoints :: "observe_options \<Rightarrow> bool" where
  "namedEndpoints opts \<longleftrightarrow> list_all (\<lambda>e. evName e \<noteq> []) (ooBeacon opts) \<and> list_all (\<lambda>e. evName e \<noteq> []) (ooExecution opts)"

lemma endpointValues_Set_named:
  "endpointValues_Set raw vs = Inr vs' \<Longrightarrow> list_all (\<lambda>e. evName e \<noteq> []) vs \<Longrightarrow> list_all (\<lambda>e. evName e \<noteq> []) vs'"
  by (auto simp: endpointValues_Set_def split: prod.splits if_splits)

lemma observeFlags_named:
  assumes "parseFlags observeFlags arguments observeDefaults = Inr (opts, rest)"
  shows "namedEndpoints opts"
proof (rule parseFlags_keeps [OF _ assms])
  fix name setter v opts opts' assume n: "observeFlags name = Some setter" "namedEndpoints opts" "setter v opts = Some opts'"
  from n(1) consider upd where "setter = stringVar upd" "\<And>f o'. namedEndpoints (upd f o') = namedEndpoints o'"
    | upd where "setter = durationVar upd" "\<And>f o'. namedEndpoints (upd f o') = namedEndpoints o'"
    | upd where "setter = intVar upd" "\<And>f o'. namedEndpoints (upd f o') = namedEndpoints o'"
    | "setter = endpointVar ooBeacon ooBeacon_update" | "setter = endpointVar ooExecution ooExecution_update"
    by (auto simp: observeFlags_def namedEndpoints_def split: if_splits)
  then show "namedEndpoints opts'"
  proof cases
    case 4
    then show ?thesis using n(2,3)
      by (auto simp: endpointVar_def namedEndpoints_def split: sum.splits dest: endpointValues_Set_named)
  next
    case 5
    then show ?thesis using n(2,3)
      by (auto simp: endpointVar_def namedEndpoints_def split: sum.splits dest: endpointValues_Set_named)
  qed (use n(2,3) in \<open>auto simp: stringVar_def durationVar_def intVar_def\<close>)
qed (simp add: namedEndpoints_def observeDefaults_def)

lemma each_observeTarget:
  "each (observeTarget urlParse timeout) es ts = Inr ts' \<Longrightarrow> distinct (map tgtName ts) \<Longrightarrow>
     map tgtName ts' = map tgtName ts @ map evName es \<and> distinct (map tgtName ts') \<and>
     (\<forall>t \<in> set ts'. t \<in> set ts \<or> tgtClient t \<noteq> None)"
proof (induction es arbitrary: ts)
  case (Cons e es)
  then obtain t where t: "observeTarget urlParse timeout e ts = Inr t" "each (observeTarget urlParse timeout) es t = Inr ts'"
    by (auto simp: result_simps split: sum.splits)
  then obtain client where "t = ts @ [\<lparr>tgtName = evName e, tgtClient = Some client\<rparr>]" "evName e \<notin> set (map tgtName ts)"
    by (auto simp: observeTarget_def result_simps split: if_splits)
  with Cons.IH [OF t(2)] Cons.prems(2) show ?case by (auto, metis IntI empty_iff image_eqI)
qed simp

lemma each_observeExecTarget:
  "each (observeExecTarget urlParse timeout) es ts = Inr ts' \<Longrightarrow> distinct (map etName ts) \<Longrightarrow>
     map etName ts' = map etName ts @ map evName es \<and> distinct (map etName ts') \<and>
     (\<forall>t \<in> set ts'. t \<in> set ts \<or> etClient t \<noteq> None)"
proof (induction es arbitrary: ts)
  case (Cons e es)
  then obtain t where t: "observeExecTarget urlParse timeout e ts = Inr t" "each (observeExecTarget urlParse timeout) es t = Inr ts'"
    by (auto simp: result_simps split: sum.splits)
  then obtain client where "t = ts @ [\<lparr>etName = evName e, etClient = Some client\<rparr>]" "evName e \<notin> set (map etName ts)"
    by (auto simp: observeExecTarget_def result_simps split: if_splits)
  with Cons.IH [OF t(2)] Cons.prems(2) show ?case by (auto, metis IntI empty_iff image_eqI)
qed simp

lemma checkTargets_complete:
  "distinct (map tgtName ts) \<Longrightarrow> list_all (\<lambda>t. tgtName t \<noteq> [] \<and> tgtClient t \<noteq> None \<and> tgtName t \<notin> set seen) ts \<Longrightarrow>
     checkTargets seen ts = Inr ()"
  by (induction seen ts rule: checkTargets.induct) (auto simp: list_all_iff, metis imageI)

lemma checkExecTargets_complete:
  "distinct (map etName ts) \<Longrightarrow> list_all (\<lambda>t. etName t \<noteq> [] \<and> etClient t \<noteq> None \<and> etName t \<notin> set seen) ts \<Longrightarrow>
     checkExecTargets seen ts = Inr ()"
  by (induction seen ts rule: checkExecTargets.induct) (auto simp: list_all_iff, metis imageI)

lemma checkSortedTargets_complete:
  "sorted ts \<Longrightarrow> distinct ts \<Longrightarrow> [] \<notin> set ts \<Longrightarrow> (case prev of None \<Rightarrow> True | Some p \<Rightarrow> p \<notin> set ts) \<Longrightarrow> \<exists>u. checkSortedTargets prev ts = Inr u"
  by (induction prev ts rule: checkSortedTargets.induct) (auto split: option.splits)

lemma New_complete:
  assumes "targets \<noteq> []" "0 < PollInterval o'" "2 \<le> HeadHistoryLimit o'" "distinct (map tgtName targets)"
    and "\<forall>t \<in> set targets. tgtName t \<noteq> [] \<and> tgtClient t \<noteq> None"
  shows "\<exists>ob. New targets (Some r) o' = Inr ob"
proof -
  have c: "checkTargets [] targets = Inr ()" by (rule checkTargets_complete) (use assms(4,5) in \<open>auto simp: list_all_iff\<close>)
  let ?names = "map tgtName (sort_key tgtName targets)"
  have d: "distinct ?names" using assms(4) by (metis mset_map mset_sort mset_eq_imp_distinct_iff)
  have "[] \<notin> set (sort ?names)" using assms(5) by force
  then obtain u where "checkSortedTargets None (sort ?names) = Inr u"
    using checkSortedTargets_complete [of "sort ?names" None] d by auto
  then have "length targets > 1 \<Longrightarrow> \<exists>cmp. NewHeadComparator ?names (HeadHistoryLimit o') = Inr cmp"
    using assms(3) by (auto simp: NewHeadComparator_def Let_def)
  then show ?thesis using assms(1-3) c by (cases "length targets > 1") (auto simp: New_def Let_def wrapE_def)
qed

text \<open>The address of the metrics is a literal loopback address with a port.\<close>

definition loopbackAddress :: "string \<Rightarrow> bool" where
  "loopbackAddress address \<longleftrightarrow> (\<exists>host port ip n. SplitHostPort address = Some (host, port) \<and> ParseIP host = Some ip \<and>
     IsLoopback ip \<and> ParseUint 10 port = Inr n \<and> n \<le> 65535)"

lemma validateLoopbackAddress_Inr: "validateLoopbackAddress address = Inr () \<longleftrightarrow> loopbackAddress address"
  by (auto simp: validateLoopbackAddress_def loopbackAddress_def split: option.splits sum.splits if_splits)

lemma prepareObserve_ready:
  assumes "parseFlags observeFlags arguments observeDefaults = Inr (opts, positional)"
    and "prepareObserve (suURL su) opts positional = Inr (targets, execTargets)"
    and "NewMetrics (suRegister su) (suRegistry su) = Inr m"
  shows "map tgtName targets = map evName (ooBeacon opts)" "map etName execTargets = map evName (ooExecution opts)"
    "loopbackAddress (ooMetricsAddress opts)" "\<exists>plan. planObservation su opts targets execTargets = Inr plan"
proof -
  have o': "ooBeacon opts \<noteq> []" "0 < ooPollInterval opts" "2 \<le> ooReorgHistoryLimit opts" "2 \<le> ooHeadHistoryLimit opts"
      "validateLoopbackAddress (ooMetricsAddress opts) = Inr ()"
    and t: "each (observeTarget (suURL su) (ooRequestTimeout opts)) (ooBeacon opts) [] = Inr targets"
    and et: "each (observeExecTarget (suURL su) (ooRequestTimeout opts)) (ooExecution opts) [] = Inr execTargets"
    using assms(2) by (auto simp: prepareObserve_def bindR_Inr_iff wrapE_Inr_iff split: if_splits)
  note T = each_observeTarget [OF t] and E = each_observeExecTarget [OF et]
  show names: "map tgtName targets = map evName (ooBeacon opts)" "map etName execTargets = map evName (ooExecution opts)"
    using T E by simp_all
  show "loopbackAddress (ooMetricsAddress opts)" using o'(5) validateLoopbackAddress_Inr by blast
  have named: "set (map tgtName targets) \<subseteq> - {[]}" "set (map etName execTargets) \<subseteq> - {[]}"
    unfolding names using observeFlags_named [OF assms(1)] by (auto simp: namedEndpoints_def list_all_iff)
  have "targets \<noteq> []" using names(1) o'(1) by auto
  moreover have "\<forall>t \<in> set targets. tgtClient t \<noteq> None" using T by auto
  then have "\<forall>t \<in> set targets. tgtName t \<noteq> [] \<and> tgtClient t \<noteq> None" using named(1) by (auto simp: image_iff)
  ultimately have ob: "\<exists>ob. New targets (Some r) \<lparr>PollInterval = ooPollInterval opts, HeadHistoryLimit = ooHeadHistoryLimit opts\<rparr> = Inr ob"
    for r :: "(jsonl \<times> 'b metrics) recorder"
    using T o' by (intro New_complete) auto
  have "checkExecTargets [] execTargets = Inr ()"
  proof (rule checkExecTargets_complete)
    have "\<forall>t \<in> set execTargets. etClient t \<noteq> None" using E by auto
    then show "list_all (\<lambda>t. etName t \<noteq> [] \<and> etClient t \<noteq> None \<and> etName t \<notin> set []) execTargets"
      using named(2) by (auto simp: list_all_iff image_iff)
  qed (use E in auto)
  then have ex: "\<exists>exob. NewExecutionObserver execTargets (Some r)
      \<lparr>HistoryLimit = ooReorgHistoryLimit opts, ReconnectInitial = second, ReconnectMaximum = 30 * second\<rparr> = Inr exob"
    if "execTargets \<noteq> []" for r :: "(jsonl \<times> 'b metrics) exec_recorder"
    using that o'(3) by (simp add: NewExecutionObserver_def second_def)
  obtain rs where rs: "observeRecorder su = Inr rs" by (simp add: observeRecorder_def NewMultiRecorder_def)
  obtain ers where ers: "observeExecRecorder su = Inr ers" by (simp add: observeExecRecorder_def NewMultiExecutionRecorder_def)
  obtain ob where "New targets (Some (MultiRecorder rs)) \<lparr>PollInterval = ooPollInterval opts, HeadHistoryLimit = ooHeadHistoryLimit opts\<rparr> = Inr ob"
    using ob by blast
  moreover obtain exob where "execTargets \<noteq> [] \<Longrightarrow> NewExecutionObserver execTargets (Some (MultiExecutionRecorder ers))
      \<lparr>HistoryLimit = ooReorgHistoryLimit opts, ReconnectInitial = second, ReconnectMaximum = 30 * second\<rparr> = Inr exob"
    using ex by (cases "execTargets = []") blast+
  ultimately show "\<exists>plan. planObservation su opts targets execTargets = Inr plan"
    using assms(3) rs ers by (cases "execTargets = []") (auto simp: planObservation_def wrapE_def)
qed

text \<open>
  C27: Options that \<^verbatim>\<open>ethquake observe\<close> accepts name their targets and listen on a literal loopback address, and with them the
  observers and their recorders are constructed without an error once the metrics are registered.
\<close>

theorem Observe_ready:
  assumes "parseFlags observeFlags arguments observeDefaults = Inr (opts, positional)"
    and "prepareObserve (suURL su) opts positional = Inr (targets, execTargets)"
    and "NewMetrics (suRegister su) (suRegistry su) = Inr m"
  shows "map tgtName targets = map evName (ooBeacon opts) \<and> map etName execTargets = map evName (ooExecution opts) \<and>
    loopbackAddress (ooMetricsAddress opts) \<and> (\<exists>plan. planObservation su opts targets execTargets = Inr plan)"
  using prepareObserve_ready [OF assms] by blast

end
