(* ===== verification/CliExamples.thy ===== *)
theory CliExamples
  imports CliRules RunEvidenceExamples
begin

text \<open>
  Concrete commands: an analysis of the stored runs of the example, a capture that is ready to run,
  and an observation.
\<close>

section \<open>An analysis\<close>

definition axEncoder :: run_encoder where
  "axEncoder = \<lparr>printIndented = printText, floatText = exFloatText, timeText = formatTime, digest256 = exSum\<rparr>"

definition axStorage :: storage where
  "axStorage = \<lparr>stHost = exHost, stFault = (\<lambda>_. None), stTick = 0\<rparr>"

definition axArguments :: "string list" where
  "axArguments = [''--scenario'', ''/s.yaml'', ''--runs-root=/runs'', ''-output-root'', ''/out'']"

definition axOptions :: analyze_options where
  "axOptions = \<lparr>aoScenario = ''/s.yaml'', aoRunsRoot = ''/runs'', aoOutputRoot = ''/out''\<rparr>"

definition axRuns :: "run_summary list" where
  "axRuns = map exStored (RunOrder (scMethodology exScenario))"

lemma axOptions_parsed: "parseFlags analyzeFlags axArguments analyzeDefaults = Inr (axOptions, [])"
  by code_simp

lemma axScenario: "loadScenario exCodec exHost ''/s.yaml'' = Inr (exScenario, ''/s.yaml'')"
proof -
  have "ReadFile exHost ''/s.yaml'' = Some ''/s.yaml''" by code_simp
  then show ?thesis using exScenario_ok
    by (simp add: loadScenario_def Scenario_Parse_def exCodec_def maxScenarioBytes_def)
qed

lemma axRuns_listed: "i \<in> set (RunOrder (scMethodology exScenario)) \<Longrightarrow> i \<in> set expectedRuns"
proof -
  have "list_all (\<lambda>i. i \<in> set expectedRuns) (RunOrder (scMethodology exScenario))" by code_simp
  then show "i \<in> set (RunOrder (scMethodology exScenario)) \<Longrightarrow> i \<in> set expectedRuns" by (simp add: list_all_iff)
qed

lemma axRun:
  assumes "i \<in> set expectedRuns"
  shows "rnSchemaVersion (exStored i) = RunSchemaVersion"
    "parseRunID (RunID (exStored i)) = Inr (Condition (exStored i), Repetition (exStored i))"
    "Dependencies (exStored i) = sortMetadata exMetadata" "RunID (exStored i) = i" "RealizedSplit (exStored i) = exSplit"
  by (rule exRunNames [OF assms], simp add: exStored_def exRunOf_def)+

lemma axAnalyzed: "\<exists>a. Analyze exSum exScenario axRuns exTime = Inr a"
proof -
  have "RunOrder (scMethodology exScenario) \<noteq> []" by (simp add: exScenario_def shippedScenario_def)
  from loaded_adjudicated [OF exRuns_loaded this, of exTime] show ?thesis
    using axRun axRuns_listed by (auto simp: axRuns_def exCodec_def sameMetadata_def)
qed

definition axAnalysis :: analysis where
  "axAnalysis = projr (Analyze exSum exScenario axRuns exTime)"

lemma axAnalysis_made: "Analyze exSum exScenario axRuns exTime = Inr axAnalysis"
  using axAnalyzed by (auto simp: axAnalysis_def)

lemma axAnalysis_printed: "\<exists>json. encodeAnalysis axEncoder axAnalysis = Some json"
proof (rule Analyze_encodes [OF axAnalysis_made])
  show "\<forall>r \<in> set axRuns. finiteFloats (RealizedSplit r)"
    using axRun axRuns_listed by (auto simp: axRuns_def finiteFloats_def splitFloats_def exSplit_def lit_def)
  have "map RunID axRuns = RunOrder (scMethodology exScenario)"
    using axRun axRuns_listed by (simp add: axRuns_def map_idI)
  then show "set (RunOrder (scMethodology exScenario)) \<subseteq> set (map RunID axRuns)" by simp
qed

definition axDir :: string where "axDir = ''/out/cl-p2p-partition-analysis''"

lemma Create_faults:
  "Mkdir path st = (ok, st') \<Longrightarrow> stFault st' = stFault st"
  "MkdirAll parts st = (ok, st') \<Longrightarrow> stFault st' = stFault st"
  "Artifact_Create rt runID st = (res, st') \<Longrightarrow> stFault st' = stFault st"
proof -
  show mk: "Mkdir path st = (ok, st') \<Longrightarrow> stFault st' = stFault st" for path st ok st'
    by (auto simp: Mkdir_def tick_def putNode_def Let_def split: option.splits if_splits)
  show all: "MkdirAll parts st = (ok, st') \<Longrightarrow> stFault st' = stFault st" for parts st ok st'
    by (induction parts arbitrary: st ok st')
      (auto simp: Let_def split: option.splits fs_node.splits prod.splits bool.splits dest!: mk)
  show "Artifact_Create rt runID st = (res, st') \<Longrightarrow> stFault st' = stFault st"
    by (auto simp: Artifact_Create_def Let_def split: option.splits fs_node.splits prod.splits bool.splits if_splits
        dest!: mk all)
qed

definition axNames :: "string list" where
  "axNames = [''report.json'', ''report.md'', ''finality-progress.svg'']"

lemma axDir_free:
  "case Artifact_Create ''/out'' (scName exScenario @ ''-analysis'') axStorage of
     (r, st) \<Rightarrow> r = Inr axDir \<and> list_all (\<lambda>name. Lstat (stHost st) (Join axDir name) = None) axNames"
  by code_simp

lemma axSafe: "list_all safeFileName axNames" "distinct (map (Join axDir) axNames)"
  by code_simp+

lemma axStored:
  assumes "\<forall>k. stFault st k = None" "list_all (\<lambda>name. Lstat (stHost st) (Join axDir name) = None) axNames"
    and "encodeAnalysis enc a = Some json" "SVG a = Some svg"
  shows "\<exists>st'. storeReport enc axDir a st = (Inr (), st')"
proof -
  have "Join axDir ''report.md'' \<noteq> Join axDir ''report.json''" "Join axDir ''finality-progress.svg'' \<noteq> Join axDir ''report.json''"
    "Join axDir ''finality-progress.svg'' \<noteq> Join axDir ''report.md''"
    using axSafe(2) by (auto simp: axNames_def)
  then show ?thesis using assms axSafe(1) by (simp add: storeReport_def write_ok axNames_def)
qed

lemma axCommand:
  obtains st' where "runExperimentAnalyze exCodec axEncoder exTime axArguments axStorage = (Inr (Some (analysisText axDir axAnalysis)), st')"
proof -
  obtain st where c: "Artifact_Create ''/out'' (scName exScenario @ ''-analysis'') axStorage = (Inr axDir, st)"
      "list_all (\<lambda>name. Lstat (stHost st) (Join axDir name) = None) axNames"
    using axDir_free by (auto split: prod.splits)
  have "\<forall>k. stFault st k = None" using Create_faults(3) [OF c(1)] by (simp add: axStorage_def)
  moreover obtain json where "encodeAnalysis axEncoder axAnalysis = Some json" using axAnalysis_printed by blast
  moreover obtain svg where "SVG axAnalysis = Some svg" using SVG_drawn by blast
  ultimately obtain st' where r: "storeReport axEncoder axDir axAnalysis st = (Inr (), st')" using axStored c(2) by blast
  have "adjudicate exCodec exHost axOptions exTime = Inr (exScenario, axAnalysis)"
    using axScenario exRuns_loaded axAnalysis_made by (simp add: adjudicate_def axOptions_def wrapE_def axRuns_def exCodec_def)
  then show thesis using that r c(1)
    by (simp add: runExperimentAnalyze_def axOptions_parsed) (simp add: axOptions_def axStorage_def)
qed

theorem Analyze_reported_witness:
  "\<exists>st' dir a. fst (runExperimentAnalyze exCodec axEncoder exTime axArguments axStorage) = Inr (Some (analysisText dir a)) \<and>
     Analyze exSum exScenario axRuns exTime = Inr a \<and> Lstat exHost dir = None \<and>
     st' = snd (runExperimentAnalyze exCodec axEncoder exTime axArguments axStorage) \<and> reported axEncoder (stHost st') dir a"
proof -
  obtain st' where run: "runExperimentAnalyze exCodec axEncoder exTime axArguments axStorage =
      (Inr (Some (analysisText axDir axAnalysis)), st')" by (rule axCommand)
  from Analyze_reported [OF run] obtain opts s data runs a dir where r:
      "parseFlags analyzeFlags axArguments analyzeDefaults = Inr (opts, [])"
      "loadScenario exCodec (stHost axStorage) (aoScenario opts) = Inr (s, data)"
      "LoadRunSummaries exCodec (stHost axStorage) (aoRunsRoot opts) s = Inr runs" "Analyze (Sum256 exCodec) s runs exTime = Inr a"
      "Lstat (stHost axStorage) dir = None" "reported axEncoder (stHost st') dir a"
      "analysisText axDir axAnalysis = analysisText dir a"
    by blast
  have "opts = axOptions" using r(1) axOptions_parsed by simp
  then have "s = exScenario" using r(2) axScenario by (simp add: axOptions_def axStorage_def)
  then have "runs = axRuns" using r(3) exRuns_loaded \<open>opts = axOptions\<close> by (simp add: axOptions_def axStorage_def axRuns_def)
  then have "Analyze exSum exScenario axRuns exTime = Inr a" using r(4) \<open>s = exScenario\<close> by (simp add: exCodec_def)
  then show ?thesis using run r(5-7) by (auto simp: axStorage_def)
qed


section \<open>A capture\<close>

text \<open>A cluster with one ready pod for each service of each participant, as \<^verbatim>\<open>kubectl\<close> shows it.\<close>

definition cxPods :: "pod_resource list" where
  "cxPods = concat (map (\<lambda>p. map (exPod [] (pID p)) [ExecutionServiceID p, BeaconServiceID p, ValidatorServiceID p])
     (scParticipants exScenario))"

definition labelsJSON :: "string \<Rightarrow> (string, string) gomap \<Rightarrow> json" where
  "labelsJSON name labels = JObj [(''metadata'', JObj [(''name'', JStr name), (''labels'', jsonMap JStr labels)])]"

definition containerJSON :: "container_spec \<Rightarrow> json" where
  "containerJSON c = JObj [(''name'', JStr (ctName c)), (''image'', JStr (ctImage c)), (''resources'', policyValue (ctResources c))]"

definition podJSON :: "pod_resource \<Rightarrow> json" where
  "podJSON pod = JObj
     [(''metadata'', JObj [(''name'', JStr (mdName (podMetadata pod))), (''labels'', jsonMap JStr (mdLabels (podMetadata pod)))]),
      (''spec'', JObj [(''nodeName'', JStr (NodeName pod)), (''containers'', JArr (map containerJSON (Containers pod)))]),
      (''status'', JObj [(''phase'', JStr (podPhase pod)), (''containerStatuses'',
        JArr (map (\<lambda>st. JObj [(''name'', JStr (csName st)), (''ready'', JBool (csReady st))]) (ContainerStatuses pod)))])]"

text \<open>A text names what it stands for: the namespace, one of the two lists of pods, or a node.\<close>

definition cxParse :: "string \<Rightarrow> json option" where
  "cxParse text =
     (if text = ''namespace'' then Some (labelsJSON ''kt-ethquake-phase3-fault-1''
        [(''dev.ethquake.managed'', ''true''), (''dev.ethquake.phase'', ''3''), (''dev.ethquake.run-id'', ''fault-1'')])
      else if text = ''services'' then Some (JObj [(''items'', JArr (map podJSON cxPods))])
      else if text = ''chaos'' then Some (JObj [(''items'', JArr (map podJSON exChaosPods))])
      else Some (labelsJSON text [(''dev.ethquake.participant'', text), (''node.kubernetes.io/instance-type'', ''n2'')]))"

definition cxKubectl :: "string list \<Rightarrow> string option" where
  "cxKubectl command =
     (if command ! 1 = ''namespace'' then Some ''namespace''
      else if command ! 1 = ''node'' then Some (command ! 2)
      else if command ! 1 = ''chaos-mesh'' then Some ''chaos'' else Some ''services'')"

definition cxLock :: json where
  "cxLock = JObj
     [(''schema_version'', JStr (lockSchemaVersion exLock)),
      (''ethereum_package'', JObj [(''repository'', JStr (Repository (EthereumPackage exLock))),
         (''revision'', JStr exCommit), (''overlay_sha256'', JStr exDigest)]),
      (''imported_packages'', jsonMap JStr (lockImportedPackages exLock)),
      (''runtime_images'', jsonMap JStr (lockRuntimeImages exLock)),
      (''fault_runtime'', JObj [(''chaos_mesh_revision'', JStr exCommit), (''controller_image'', JStr (exImage ''chaos'')),
         (''daemon_image'', JStr (exImage ''daemon''))])]"

definition cxCodec :: codec where
  "cxCodec = \<lparr>decodeStream = (\<lambda>_. Some (cxLock, NoMore)), decodeYAML = (\<lambda>_. Some (exScenario, RestEOF)), Sum256 = exSum\<rparr>"

definition cxURL :: "string \<Rightarrow> endpoint option" where
  "cxURL raw = Some \<lparr>urlScheme = takeWhile (\<lambda>c. c \<noteq> CHR '':'') raw, urlHost = ''node'', urlHasUser = False, urlPath = [],
     urlRawQuery = [], urlFragment = []\<rparr>"

definition cxSu :: "(nat, metric \<Rightarrow> string list \<Rightarrow> f64 option) surroundings" where
  "cxSu = \<lparr>suURL = cxURL, suCodec = cxCodec, suRanges = (\<lambda>_. Some (exRawRanges, RestEOF)), suEncoder = axEncoder,
     suParse = cxParse, suKubectl = (\<lambda>_ args. cxKubectl (drop 4 args)), suExec = (\<lambda>_ _ _ _ w. ((False, []), w)),
     suHTTP = (\<lambda>w. (\<lambda>_. SendFails, w)),
     suDial = (\<lambda>_ w. (\<lparr>dialFails = Some False, writeFails = False, messages = [], wsCloseFails = False\<rparr>, w)),
     suRunEnv = rxEnv, suNow = (\<lambda>w. (exTime, w)), suStdout = (\<lambda>_ w. (True, w)), suListen = (\<lambda>_ w. (True, w)),
     suProm = gaugeCall, suRegister = exRegister, suRegistry = (\<lambda>_ _. None), suObserve = (\<lambda>_ w. (GroupCanceled, w))\<rparr>"

definition cxEndpoints :: "endpoint_value list" where
  "cxEndpoints = map (\<lambda>p. \<lparr>evName = BeaconTarget p, evURL = ''http://node''\<rparr>) (scParticipants exScenario)"

definition cxArguments :: "string list" where
  "cxArguments = [''--scenario=/s.yaml'', ''--run-id=fault-1'', ''--kubeconfig=/kube'', ''--namespace=kt-ethquake-phase3-fault-1'',
     ''--validator-ranges=/ranges.yaml'', ''--dependency-lock=/lock.json'', ''--artifact-root=/out'', ''--execution-chain=ws://node''] @
     concat (map (\<lambda>e. [''--beacon'', evName e @ ''='' @ evURL e]) cxEndpoints)"

definition cxOptions :: capture_options where
  "cxOptions = captureDefaults\<lparr>coScenario := ''/s.yaml'', coRunID := ''fault-1'', coKubeconfig := ''/kube'',
     coNamespace := ''kt-ethquake-phase3-fault-1'', coValidatorRanges := ''/ranges.yaml'', coDependencyLock := ''/lock.json'',
     coArtifactRoot := ''/out'', coExecutionChain := ''ws://node'', coBeacon := cxEndpoints\<rparr>"

lemma cxOptions_parsed: "parseFlags captureFlags cxArguments captureDefaults = Inr (cxOptions, [])"
  by code_simp

lemma cxScenario: "loadScenario cxCodec exHost ''/s.yaml'' = Inr (exScenario, ''/s.yaml'')"
proof -
  have "ReadFile exHost ''/s.yaml'' = Some ''/s.yaml''" by code_simp
  then show ?thesis using exScenario_ok
    by (simp add: loadScenario_def Scenario_Parse_def cxCodec_def maxScenarioBytes_def)
qed

lemma cxLock_read: "readLock cxCodec exHost ''/lock.json'' = Inr exLock"
proof -
  have "ReadFile exHost ''/lock.json'' = Some ''/lock.json''" "unmarshal lockDecoder emptyLock cxLock = Some exLock"
      "Lock_Validate exLock = Inr ()"
    by code_simp+
  then show ?thesis
    by (simp add: readLock_def Lock_Parse_def maxLockBytes_def cxCodec_def decodeOnly_def wrapE_def)
qed

lemma exImage_pinned: "digestPinned (exImage ''geth:1'')" by code_simp

definition cxServices :: "(string \<times> string) list" where
  "cxServices = concat (map (\<lambda>p. map (Pair (pID p)) [ExecutionServiceID p, BeaconServiceID p, ValidatorServiceID p])
     (scParticipants exScenario))"

definition cxSeen :: "(string \<times> string) list \<Rightarrow> discovery_state" where
  "cxSeen ps = \<lparr>dyPods = map (\<lambda>(node, sid). (sid, [exPod [] node sid])) ps,
     dyImages = map (\<lambda>(node, sid). (''experiment/'' @ sid @ ''/main'', exImage ''geth:1'')) ps\<rparr>"

lemma mput_fresh: "k \<notin> set (keys m) \<Longrightarrow> mput k v m = m @ [(k, v)]"
  by (induction m) auto

lemma exPod_fields:
  "mdName (podMetadata (exPod inits node sid)) = sid @ ''-0''" "Containers (exPod inits node sid) = [exContainer ''main'']"
  "InitContainers (exPod inits node sid) = inits" "ctName (exContainer name) = name" "ctImage (exContainer name) = exImage ''geth:1''"
  by (simp_all add: exPod_def exContainer_def)

lemma cxSeen_step:
  assumes "node \<noteq> []" "sid \<noteq> []" "sid \<in> expectedServices s" "sid \<notin> set (map snd ps)"
  shows "podStep s (''experiment'', exPod [] node sid) (cxSeen ps) = Inr (cxSeen (ps @ [(node, sid)]))"
proof -
  have "''experiment/'' @ sid @ ''/main'' \<notin> set (keys (dyImages (cxSeen ps)))" "sid \<notin> set (keys (dyPods (cxSeen ps)))"
    using assms(4) by (auto simp: cxSeen_def image_iff)
  moreover from this have "map_of (dyImages (cxSeen ps)) (''experiment/'' @ sid @ ''/main'') = None" "map_of (dyPods (cxSeen ps)) sid = None"
    by (simp_all add: map_of_eq_None_iff)
  moreover have "requireReady (exPod [] node sid) = Inr ()" using assms(1) by (simp add: requireReady_def exPod_def)
  moreover have "workloadOf s ''experiment'' (exPod [] node sid) = Inr sid" using assms(2,3) by (simp add: workloadOf_def exPod_def mget_def)
  moreover have "cxSeen (ps @ [(node, sid)]) = \<lparr>dyPods = dyPods (cxSeen ps) @ [(sid, [exPod [] node sid])],
      dyImages = dyImages (cxSeen ps) @ [(''experiment/'' @ sid @ ''/main'', exImage ''geth:1'')]\<rparr>"
    by (simp add: cxSeen_def)
  ultimately show ?thesis using exImage_pinned
    by (simp add: podStep_def containerStep_def mput_fresh mget_def wrapE_def exPod_fields Let_def)
qed

lemma cxSeen_all:
  "distinct (map snd (qs @ ps)) \<Longrightarrow> set (map snd ps) \<subseteq> expectedServices s \<Longrightarrow> \<forall>(node, sid) \<in> set ps. node \<noteq> [] \<and> sid \<noteq> [] \<Longrightarrow>
     each (podStep s) (map (\<lambda>(node, sid). (''experiment'', exPod [] node sid)) ps) (cxSeen qs) = Inr (cxSeen (qs @ ps))"
proof (induction ps arbitrary: qs)
  case (Cons p ps)
  obtain node sid where p: "p = (node, sid)" by (cases p)
  have "podStep s (''experiment'', exPod [] node sid) (cxSeen qs) = Inr (cxSeen (qs @ [p]))"
    using Cons.prems p by (simp add: cxSeen_step)
  moreover have "each (podStep s) (map (\<lambda>(node, sid). (''experiment'', exPod [] node sid)) ps) (cxSeen (qs @ [p])) = Inr (cxSeen ((qs @ [p]) @ ps))"
    by (rule Cons.IH) (use Cons.prems in auto)
  ultimately show ?case by (simp add: p)
qed simp

definition cxNodes :: "(string, node_resource) gomap" where
  "cxNodes = map (\<lambda>p. (pID p, \<lparr>nodeMetadata = \<lparr>mdName = pID p,
     mdLabels = [(''dev.ethquake.participant'', pID p), (''node.kubernetes.io/instance-type'', ''n2'')]\<rparr>\<rparr>)) (scParticipants exScenario)"


lemma cxServices_ok: "distinct (map snd cxServices)" "set (map snd cxServices) = expectedServices exScenario"
    "\<forall>(node, sid) \<in> set cxServices. node \<noteq> [] \<and> sid \<noteq> []"
proof -
  show "distinct (map snd cxServices)" "\<forall>(node, sid) \<in> set cxServices. node \<noteq> [] \<and> sid \<noteq> []"
    by (simp_all add: cxServices_def exScenario_def shippedScenario_def)
  show "set (map snd cxServices) = expectedServices exScenario"
    by (simp add: cxServices_def expectedServices_def map_concat comp_def)
qed

definition cxPolicy :: string where
  "cxPolicy = policyJSON (map (\<lambda>role. (role, ctResources (exContainer ''main''))) [''execution'', ''beacon'', ''validator''])"

definition cxPlacement :: "participant \<Rightarrow> placement" where
  "cxPlacement p = \<lparr>plParticipantID = pID p, plTarget = BeaconTarget p, plPod = BeaconServiceID p @ ''-0'', plNode = pID p,
     plNodePool = pID p, plMachineType = ''n2'', plResourcePolicy = cxPolicy\<rparr>"

lemma cxPlaced:
  assumes "p \<in> set (scParticipants exScenario)"
  shows "placeParticipant (dyPods (cxSeen cxServices)) cxNodes p acc = Inr (acc @ [cxPlacement p])"
proof -
  have pod: "mget [] (dyPods (cxSeen cxServices)) sid = [exPod [] (pID p) sid]"
    if "sid \<in> {ExecutionServiceID p, BeaconServiceID p, ValidatorServiceID p}" for sid
  proof -
    have "(pID p, sid) \<in> set cxServices" using that assms by (auto simp: cxServices_def)
    then have "(sid, [exPod [] (pID p) sid]) \<in> set (dyPods (cxSeen cxServices))" by (force simp: cxSeen_def)
    moreover have "map fst (dyPods (cxSeen cxServices)) = map snd cxServices" by (simp add: cxSeen_def case_prod_unfold comp_def)
    then have "distinct (map fst (dyPods (cxSeen cxServices)))" using cxServices_ok(1) by simp
    ultimately have "map_of (dyPods (cxSeen cxServices)) sid = Some [exPod [] (pID p) sid]" by (metis map_of_is_SomeI)
    then show ?thesis by (simp add: mget_def)
  qed
  have ids: "pID p \<noteq> []" "map_of cxNodes (pID p) = Some \<lparr>nodeMetadata = \<lparr>mdName = pID p,
     mdLabels = [(''dev.ethquake.participant'', pID p), (''node.kubernetes.io/instance-type'', ''n2'')]\<rparr>\<rparr>"
    using assms by (auto simp: cxNodes_def exScenario_def shippedScenario_def)
  have step: "placeServiceStep (dyPods (cxSeen cxServices)) (pID p) (role, sid) st =
      Inr \<lparr>pgPolicies = mput role (ctResources (exContainer ''main'')) (pgPolicies st), pgNode = pID p,
        pgBeaconPod = (if role = ''beacon'' then sid @ ''-0'' else pgBeaconPod st)\<rparr>"
    if "sid \<in> {ExecutionServiceID p, BeaconServiceID p, ValidatorServiceID p}" "pgNode st \<in> {[], pID p}" for role sid st
  proof -
    have "requireReady (exPod [] (pID p) sid) = Inr ()" using ids(1) by (simp add: requireReady_def exPod_def)
    then show ?thesis using that(2) by (auto simp: placeServiceStep_def pod [OF that(1)] wrapE_def) (auto simp: exPod_def)
  qed
  show ?thesis
    by (simp add: placeParticipant_def participantServices_def step ids) (simp add: cxPlacement_def cxPolicy_def mget_def)
qed

lemma cxBuilt: "buildDiscovery exScenario cxPods [exPod [] ''system'' ''chaos-daemon''] cxNodes =
   Inr \<lparr>dcPlacements = map cxPlacement (scParticipants exScenario),
     dcRuntimeImages = dyImages (cxSeen cxServices) @ [(''chaos-mesh/runtime/main'', exImage ''geth:1'')]\<rparr>"
proof -
  let ?images = "dyImages (cxSeen cxServices)"
  have "map (Pair ''experiment'') cxPods = map (\<lambda>(node, sid). (''experiment'', exPod [] node sid)) cxServices"
    by (simp add: cxPods_def cxServices_def map_concat comp_def)
  moreover have "discoveryStart = cxSeen []" by (simp add: discoveryStart_def cxSeen_def)
  ultimately have "each (podStep exScenario) (map (Pair ''experiment'') cxPods) discoveryStart = Inr (cxSeen cxServices)"
    using cxSeen_all [of "[]" cxServices exScenario] cxServices_ok by simp
  moreover have fresh: "''chaos-mesh/runtime/main'' \<notin> set (keys ?images)" by (auto simp: cxSeen_def)
  then have "map_of ?images ''chaos-mesh/runtime/main'' = None" by (simp add: map_of_eq_None_iff)
  then have "podStep exScenario (''chaos-mesh'', exPod [] ''system'' ''chaos-daemon'') (cxSeen cxServices) =
      Inr \<lparr>dyPods = dyPods (cxSeen cxServices), dyImages = ?images @ [(''chaos-mesh/runtime/main'', exImage ''geth:1'')]\<rparr>"
    using exImage_pinned mput_fresh [OF fresh]
    by (simp add: podStep_def requireReady_def workloadOf_def containerStep_def exPod_def exContainer_def wrapE_def Let_def)
  moreover have "each (placeParticipant (dyPods (cxSeen cxServices)) cxNodes) ps acc = Inr (acc @ map cxPlacement ps)"
    if "set ps \<subseteq> set (scParticipants exScenario)" for ps acc
    using that by (induction ps arbitrary: acc) (auto simp: cxPlaced)
  ultimately show ?thesis by (simp add: buildDiscovery_def each_append wrapE_def)
qed


lemma cxPod_read: "podDecoder (podJSON (exPod [] node sid)) emptyPod = (True, exPod [] node sid)"
  by code_simp

lemma cxListed:
  "listPods cxKubectl cxParse ''kt-ethquake-phase3-fault-1'' ''kurtosistech.com/resource-type=user-service'' = Inr cxPods"
  "listPods cxKubectl cxParse ''chaos-mesh'' [] = Inr [exPod [] ''system'' ''chaos-daemon'']"
proof -
  have read: "unmarshal podListDecoder [] (JObj [(''items'', JArr (map podJSON pods))]) = Some pods"
    if "\<forall>pod \<in> set pods. \<exists>node sid. pod = exPod [] node sid" for pods
  proof -
    have "\<forall>pod \<in> set pods. podDecoder (podJSON pod) emptyPod = (True, pod)" using that cxPod_read by fastforce
    then show ?thesis by (simp add: unmarshal_def podListDecoder_def decStruct_def decSlice_def list_all_iff comp_def map_idI)
  qed
  have "\<forall>pod \<in> set cxPods. \<exists>node sid. pod = exPod [] node sid" "cxPods \<noteq> []"
    by (auto simp: cxPods_def exScenario_def shippedScenario_def)
  then show "listPods cxKubectl cxParse ''kt-ethquake-phase3-fault-1'' ''kurtosistech.com/resource-type=user-service'' = Inr cxPods"
    using read [of cxPods] by (simp add: listPods_def cxKubectl_def cxParse_def)
  have "unmarshal podListDecoder [] (JObj [(''items'', JArr (map podJSON exChaosPods))]) = Some exChaosPods"
    by (rule read) (auto simp: exChaosPods_def)
  then show "listPods cxKubectl cxParse ''chaos-mesh'' [] = Inr [exPod [] ''system'' ''chaos-daemon'']"
    by (simp add: listPods_def cxKubectl_def cxParse_def exChaosPods_def)
qed

lemma cxNamespace: "verifyNamespace cxKubectl cxParse ''fault-1'' ''kt-ethquake-phase3-fault-1'' = Inr ()"
  by code_simp

lemma cxNodes_read: "each (nodeStep cxKubectl cxParse) (nodeNames cxPods) [] = Inr cxNodes"
  by code_simp

lemma cxDiscovered: "Discover cxKubectl cxParse exScenario ''fault-1'' ''kt-ethquake-phase3-fault-1'' =
   Inr \<lparr>dcPlacements = map cxPlacement (scParticipants exScenario),
     dcRuntimeImages = dyImages (cxSeen cxServices) @ [(''chaos-mesh/runtime/main'', exImage ''geth:1'')]\<rparr>"
proof -
  have "NamespacePrefix (scTarget exScenario) @ ''fault-1'' = ''kt-ethquake-phase3-fault-1''"
    by (simp add: exScenario_def shippedScenario_def)
  then show ?thesis by (simp add: Discover_def cxNamespace cxListed cxNodes_read cxBuilt wrapE_def)
qed

lemma cxPlacements_valid: "ValidatePlacements exScenario (map cxPlacement (scParticipants exScenario)) = Inr ()"
proof -
  have "cxPolicy \<noteq> []" by code_simp
  then show ?thesis
    by (subst placements_iff [OF exScenario_distinct(2)])
      (simp add: placedOk_def completePlacement_def cxPlacement_def exScenario_def shippedScenario_def)
qed

lemma cxClosure: "\<exists>md. ExperimentMetadata exLock (dyImages (cxSeen cxServices) @ [(''chaos-mesh/runtime/main'', exImage ''geth:1'')]) = Inr md"
proof -
  have "Lock_Validate exLock = Inr ()" by code_simp
  moreover have "exImage ''geth:1'' \<in> allowedImages exLock" by (simp add: allowedImages_def exLock_def)
  ultimately show ?thesis by (auto simp: ExperimentMetadata_Inr cxSeen_def)
qed

text \<open>The configuration of the capture, as the orchestrator takes it.\<close>

lemma cxLocated: "Abs exHost ''/kube'' = Some ''/kube''" "ReadFile exHost ''/ranges.yaml'' = Some ''/ranges.yaml''"
  by code_simp+

lemma cxTargets: "\<exists>targets. captureTargets cxSu cxOptions exScenario = Inr targets"
proof -
  define client where "client = \<lparr>base = the (cxURL ''http://node''), requestTimeout = 5 * second\<rparr>"
  have "takeWhile (\<lambda>c. c \<noteq> CHR '':'') ''http://node'' = ''http''" by code_simp
  then have new: "NewClient cxURL ''http://node'' (5 * second) = Inr client"
    by (simp add: NewClient_def cxURL_def client_def second_def)
  define m where "m = map (\<lambda>p. (BeaconTarget p, ''http://node'')) (scParticipants exScenario)"
  have "each endpointStep cxEndpoints [] = Inr m" unfolding m_def by code_simp
  moreover have "each (captureTarget cxURL (5 * second) m) ps acc =
      Inr (acc @ map (\<lambda>p. \<lparr>tgtName = BeaconTarget p, tgtClient = Some client\<rparr>) ps)"
    if "set ps \<subseteq> set (scParticipants exScenario)" for ps acc
  proof -
    have "map_of m (BeaconTarget p) = Some ''http://node''" if "p \<in> set (scParticipants exScenario)" for p
      using that by (auto simp: m_def exScenario_def shippedScenario_def)
    then show ?thesis using that by (induction ps arbitrary: acc) (auto simp: captureTarget_def new wrapE_def)
  qed
  ultimately show ?thesis by (simp add: captureTargets_def cxSu_def cxOptions_def captureDefaults_def)
qed

lemma cxChain: "\<exists>client. Execution_NewClient cxURL ''ws://node'' (5 * second) = Inr client"
proof -
  have "takeWhile (\<lambda>c. c \<noteq> CHR '':'') ''ws://node'' = ''ws''" by code_simp
  then show ?thesis by (simp add: Execution_NewClient_def cxURL_def second_def)
qed

lemma cxPrepared: "\<exists>cfg. prepareCapture cxSu exHost cxOptions = Inr cfg \<and> inScenario cfg = exScenario \<and>
    inPlacements cfg = map cxPlacement (scParticipants exScenario) \<and> cfScenarioYAML cfg \<noteq> []"
proof -
  have d: "discoverTopology cxSu exHost cxOptions exScenario = Inr \<lparr>dcPlacements = map cxPlacement (scParticipants exScenario),
     dcRuntimeImages = dyImages (cxSeen cxServices) @ [(''chaos-mesh/runtime/main'', exImage ''geth:1'')]\<rparr>"
    using cxDiscovered cxLocated
    by (simp add: discoverTopology_def NewKubernetes_def cxOptions_def captureDefaults_def wrapE_def cxSu_def)
  have r: "readRanges (suRanges cxSu) exHost ''/ranges.yaml'' = Inr exRanges"
    using exRanges_parsed cxLocated by (simp add: readRanges_def cxSu_def ParseValidatorRanges_def maxValidatorRangesBytes_def wrapE_def)
  have b: "\<exists>backend. NewChaosMesh exHost ''kubectl'' ''/kube'' ''gke-ethquake-phase3'' = Inr backend"
    using cxLocated by (simp add: NewChaosMesh_def)
  have o': "coScenario cxOptions = ''/s.yaml''" "coDependencyLock cxOptions = ''/lock.json''" "coValidatorRanges cxOptions = ''/ranges.yaml''"
    "coExecutionChain cxOptions = ''ws://node''" "coRequestTimeout cxOptions = 5 * second" "coKubectl cxOptions = ''kubectl''"
    "coKubeconfig cxOptions = ''/kube''" "coContext cxOptions = ''gke-ethquake-phase3''" "suCodec cxSu = cxCodec" "suURL cxSu = cxURL"
    by (simp_all add: cxOptions_def captureDefaults_def cxSu_def)
  show ?thesis using cxClosure cxTargets cxChain b
    by (auto simp: prepareCapture_def o' cxScenario cxLock_read d r wrapE_def)
qed

theorem Capture_checked_witness:
  "\<exists>cfg. prepareCapture cxSu exHost cxOptions = Inr cfg \<and>
     validateConfig exSum (cfg\<lparr>cfArtifacts := Some ''/out/fault-1''\<rparr>) = Inr (ConditionFault, 1)"
proof -
  obtain cfg where c: "prepareCapture cxSu exHost cxOptions = Inr cfg" "inScenario cfg = exScenario"
      "inPlacements cfg = map cxPlacement (scParticipants exScenario)" "cfScenarioYAML cfg \<noteq> []" using cxPrepared by blast
  have "runIdentity ''fault-1'' (RunOrder (scMethodology exScenario)) = Some (ConditionFault, 1)" by code_simp
  then have "remainingChecks cxOptions cfg = Inr (ConditionFault, 1)"
    using c cxPlacements_valid
    by (simp add: remainingChecks_def cxOptions_def captureDefaults_def wrapE_def second_def)
  moreover have "Sum256 (suCodec cxSu) = exSum" by (simp add: cxSu_def cxCodec_def)
  ultimately show ?thesis using c(1) Capture_checked [OF c(1), of "''/out/fault-1''"] by auto
qed

section \<open>An observation\<close>

definition oxArguments :: "string list" where
  "oxArguments = [''-beacon=a=http://x'', ''--beacon'', ''b=http://y'', ''--execution'', ''a=ws://x'', ''--metrics-address'', ''[::1]:9464'']"

definition oxOptions :: observe_options where
  "oxOptions = observeDefaults\<lparr>ooBeacon := [\<lparr>evName = ''a'', evURL = ''http://x''\<rparr>, \<lparr>evName = ''b'', evURL = ''http://y''\<rparr>],
     ooExecution := [\<lparr>evName = ''a'', evURL = ''ws://x''\<rparr>], ooMetricsAddress := ''[::1]:9464''\<rparr>"

lemma oxOptions_parsed: "parseFlags observeFlags oxArguments observeDefaults = Inr (oxOptions, [])"
  by code_simp

lemma oxPrepared: "\<exists>targets execTargets. prepareObserve cxURL oxOptions [] = Inr (targets, execTargets)"
proof -
  have "validateLoopbackAddress ''[::1]:9464'' = Inr ()" by code_simp
  moreover have "takeWhile (\<lambda>c. c \<noteq> CHR '':'') ''http://x'' = ''http''" "takeWhile (\<lambda>c. c \<noteq> CHR '':'') ''http://y'' = ''http''"
    "takeWhile (\<lambda>c. c \<noteq> CHR '':'') ''ws://x'' = ''ws''" by code_simp+
  ultimately show ?thesis
    by (simp add: prepareObserve_def oxOptions_def observeDefaults_def observeTarget_def observeExecTarget_def NewClient_def
        Execution_NewClient_def cxURL_def wrapE_def second_def)
qed

theorem Observe_ready_witness:
  "\<exists>targets execTargets. map tgtName targets = [''a'', ''b''] \<and> map etName execTargets = [''a''] \<and>
     loopbackAddress ''[::1]:9464'' \<and> (\<exists>plan. planObservation cxSu oxOptions targets execTargets = Inr plan)"
proof -
  obtain targets execTargets where p: "prepareObserve (suURL cxSu) oxOptions [] = Inr (targets, execTargets)"
    using oxPrepared by (auto simp: cxSu_def)
  have "registerAll exRegister cs p = Inr p" for cs p by (induction cs) (simp_all add: exRegister_def)
  then obtain m where m: "NewMetrics (suRegister cxSu) (suRegistry cxSu) = Inr m" by (simp add: NewMetrics_def cxSu_def)
  have "map evName (ooBeacon oxOptions) = [''a'', ''b'']" "map evName (ooExecution oxOptions) = [''a'']"
    "ooMetricsAddress oxOptions = ''[::1]:9464''" by (simp_all add: oxOptions_def)
  then show ?thesis using Observe_ready [OF oxOptions_parsed p m] by metis
qed

end
