(* ===== verification/Spec2Isabelle.thy ===== *)
theory Spec2Isabelle
  imports Prelude GoStrings Float64 Json Beacon Execution Reorg HeadComparator Recorders Dataset
    Observer ExecutionObserver Timeseries Scenario Shipped Topology Dependency Discovery Analysis Examples
    ExperimentExamples Files Codec Evidence RunFiles EvidenceExamples
    ChaosMesh FaultExamples Measure MeasureExamples
    Artifact Assertion Orchestrator RunSafety RunWindow RunExamples StorageExamples
    JsonText PlainJson RunEvidence RunEvidenceExamples Telemetry
    FloatOps Flags Report ChartText Cli CliRules CliExamples
begin

text \<open>
  Ethquake is a resilience test harness for Ethereum clients. This development models its Go
  implementation, package by package, and proves what makes the parts correct.

  Parts and theories.

  \<^item> \<^verbatim>\<open>Prelude\<close>, \<^verbatim>\<open>GoStrings\<close>, \<^verbatim>\<open>Float64\<close>, \<^verbatim>\<open>Json\<close>: the Go values that the components share: 64-bit
    words with their wrap-around, results as sums, maps as association lists, the string and
    number functions of the standard library, IEEE doubles with rounding to nearest even, and
    \<^verbatim>\<open>encoding/json\<close> decoding of a parsed value into structs. The locale \<^verbatim>\<open>slice_sort\<close> states what
    \<^verbatim>\<open>sort.Slice\<close> promises.
  \<^item> \<^verbatim>\<open>Beacon\<close> (internal/beacon/client.go) and \<^verbatim>\<open>Execution\<close> (internal/execution/client.go): the two
    protocol clients. The transport and the JSON parser are parameters.
  \<^item> \<^verbatim>\<open>Reorg\<close> (internal/observer/reorg.go) and \<^verbatim>\<open>HeadComparator\<close> (internal/observer/head_comparator.go):
    the two pieces of bounded history, each with its abstract specification.
  \<^item> \<^verbatim>\<open>Recorders\<close> (multi_recorder.go and the interfaces), \<^verbatim>\<open>Dataset\<close> (dataset_recorder.go) and
    \<^verbatim>\<open>Timeseries\<close> (internal/timeseries/jsonl.go): where measurements go. The locales
    \<^verbatim>\<open>recorder_log\<close> and \<^verbatim>\<open>exec_recorder_log\<close> state the recorder's contract; the data set, its fan-out
    with the event file, and the event file are interpretations.
  \<^item> \<^verbatim>\<open>Observer\<close> (internal/observer/observer.go) and \<^verbatim>\<open>ExecutionObserver\<close>
    (internal/observer/execution_observer.go): polling and subscriptions. The goroutines of a run
    are a step relation whose steps are the critical sections, so every interleaving is covered.
  \<^item> \<^verbatim>\<open>Scenario\<close> (internal/scenario/scenario.go), evaluated on the repository's own file in
    \<^verbatim>\<open>Shipped\<close>, and \<^verbatim>\<open>Topology\<close> (internal/topology/realized_split.go, validation.go): the experiment
    input, the validator split and the placements. \<^verbatim>\<open>Discovery\<close> (internal/topology/kubernetes.go)
    reads the running cluster into placements and images.
  \<^item> \<^verbatim>\<open>Dependency\<close> (internal/dependency/lock.go and the dependency metadata of
    internal/experiment/analysis.go): the immutable dependency closure.
  \<^item> \<^verbatim>\<open>Analysis\<close> (internal/experiment/analysis.go): the accepted runs, the three gates and the
    statistics. The lemmas go from the loops to what they compute over the six named runs; the
    theorems state the verdict without them.
  \<^item> \<^verbatim>\<open>Files\<close>, \<^verbatim>\<open>Codec\<close>, \<^verbatim>\<open>Evidence\<close>, \<^verbatim>\<open>RunFiles\<close> (internal/experiment/io.go, contracts.go): paths and
    the answers of the file system, the decoders of the stored structs, the loader with the
    specification of a stored run, and the round trip with what is written. \<^verbatim>\<open>PlainJson\<close> says which JSON
    values survive \<^verbatim>\<open>encoding/json\<close>: valid UTF-8, JSON numbers and bounded nesting.
  \<^item> \<^verbatim>\<open>ChaosMesh\<close> (internal/fault): the partition as a Chaos Mesh resource, over any runner of \<^verbatim>\<open>kubectl\<close>
    commands; the theorems speak of the log of commands.
  \<^item> \<^verbatim>\<open>Artifact\<close> (internal/artifact/directory.go): the run directory and its files, on a file system that
    can fail at any operation, and \<^verbatim>\<open>Assertion\<close> (internal/assertion/engine.go): the checks of a plan.
  \<^item> \<^verbatim>\<open>Measure\<close> and \<^verbatim>\<open>Orchestrator\<close> (internal/orchestrator/runner.go): how the recorded observations
    become the summary of a run, and the run itself. The observer, the clock and the cluster are a world
    of any type, and a wait is a partial function of it. \<^verbatim>\<open>RunSafety\<close> shows what a run leaves behind and
    that it returns, \<^verbatim>\<open>RunWindow\<close> what it measures, and \<^verbatim>\<open>RunEvidence\<close> under which conditions the loader accepts what it stored.
  \<^item> \<^verbatim>\<open>Telemetry\<close> (internal/telemetry): the metrics as calls on a Prometheus registry, which is a parameter, and
    the view of the targets that the gauges show. The locale \<^verbatim>\<open>optional_cell\<close> is the contract of a gauge
    that may be absent.
  \<^item> \<^verbatim>\<open>FloatOps\<close> and \<^verbatim>\<open>Report\<close> (internal/report/render.go): the Markdown document and the chart of an analysis,
    evaluated on the repository's own golden file; the lemmas bound the bars by the monotonicity of rounding.
    \<^verbatim>\<open>ChartText\<close> takes the text of a chart apart with a reader of its own and shows what is drawn and written.
  \<^item> \<^verbatim>\<open>Flags\<close> and \<^verbatim>\<open>Cli\<close> (internal/cli/cli.go): flag parsing, durations, integers and addresses as the standard library
    has them, and the commands. What a command meets outside the program is a record of functions of a world,
    and a command takes the file system and the world and gives its error or its text. \<^verbatim>\<open>CliRules\<close> shows what a
    command has established when it hands over, and what an analysis leaves behind.
  \<^item> \<^verbatim>\<open>Examples\<close>, \<^verbatim>\<open>ExperimentExamples\<close>, \<^verbatim>\<open>EvidenceExamples\<close>, \<^verbatim>\<open>FaultExamples\<close>, \<^verbatim>\<open>MeasureExamples\<close>,
    \<^verbatim>\<open>RunExamples\<close>, \<^verbatim>\<open>StorageExamples\<close>, \<^verbatim>\<open>RunEvidenceExamples\<close> (with the printer of \<^verbatim>\<open>JsonText\<close>),
    \<^verbatim>\<open>CliExamples\<close>: concrete inputs on which the hypotheses of the theorems hold.

  Conventions. A Go error is a constructor of an error type, \<^verbatim>\<open>(T, error)\<close> is a sum with the error
  on the left, and every early return is a branch. Text inside an error message is kept as far as
  it distinguishes errors. A Go map is an association list with distinct keys; a loop over a map
  is a loop over that list, and where the outcome could depend on its order a theorem says that it
  does not. \<^verbatim>\<open>uint64\<close> is \<^verbatim>\<open>64 word\<close>; \<^verbatim>\<open>time.Time\<close> is a number of nanoseconds since the epoch. A mutex makes
  its critical section one step. Code outside the repository (url.Parse, HTTP, WebSocket, YAML and
  JSON syntax, SHA-256) is a parameter.

  Every loop is structural or has a measure; no fuel is needed. A wait of a run has no bound of its own: it is a
  partial function, and \<^verbatim>\<open>RunSafety\<close> shows when it returns. The reconnect loop of the execution
  observer runs over the turns its environment takes, and is still running when they are used up.

  Not modelled. The goroutine group of \<^verbatim>\<open>ethquake observe\<close>, its listener and its HTTP server (the observers it runs are
  modelled in their theories); signals and the exit code (cmd/ethquake/main.go); process execution; file permissions;
  the usage text on the standard error; the text of error messages.
\<close>

end
